(* ===== verification/Prelude.thy ===== *)
theory Prelude
  imports Main "HOL-Library.Char_ord" "HOL-Library.List_Lexorder" "HOL-Library.Word" "HOL-Library.Multiset" "HOL-Library.AList"
begin

text \<open>
  Shared vocabulary of the development: JavaScript numbers and the safe-integer test, ASCII
  strings with \<open>toLowerCase\<close>, hex strings of 32 bytes, the error-or-value results that
  model \<open>throw\<close>, and the state-and-error results of operations that may commit before they
  throw. The collections below gather the unfolding rules and the case splits that the
  component theories use.
\<close>

named_theorems model_splits \<open>case splits for results and state results\<close>

subsection \<open>Numbers\<close>

text \<open>
  A TypeScript \<open>number\<close> that has not been validated is either integral or something
  else (a fraction, NaN, an infinity): every validator of the program tests
  \<open>Number.isSafeInteger\<close> before it compares, so the second kind needs no payload.
\<close>

datatype js_num = JInt int | JNonInt

definition max_safe :: int where
  "max_safe = 9007199254740991"

definition is_safe :: "int \<Rightarrow> bool" where
  "is_safe n \<longleftrightarrow> - max_safe \<le> n \<and> n \<le> max_safe"

fun js_safe :: "js_num \<Rightarrow> bool" where
  "js_safe (JInt n) = is_safe n"
| "js_safe JNonInt = False"

fun js_val :: "js_num \<Rightarrow> int" where
  "js_val (JInt n) = n"
| "js_val JNonInt = 0"

lemma js_safe_iff: "js_safe x \<longleftrightarrow> (\<exists>n. x = JInt n \<and> is_safe n)"
  by (cases x) auto

lemma js_safe_val [simp]: "js_safe x \<Longrightarrow> JInt (js_val x) = x"
  by (cases x) auto

subsection \<open>Strings\<close>

type_synonym hex = string

definition lower_char :: "char \<Rightarrow> char" where
  "lower_char c = (if 65 \<le> (of_char c :: nat) \<and> (of_char c :: nat) \<le> 90
     then char_of ((of_char c :: nat) + 32) else c)"

definition lower :: "string \<Rightarrow> string" where
  "lower s = map lower_char s"

lemma lower_char_idem [simp]: "lower_char (lower_char c) = lower_char c"
  by (auto simp: lower_char_def of_char_of)

lemma lower_idem [simp]: "lower (lower s) = lower s"
  by (simp add: lower_def)

lemma length_lower [simp]: "length (lower s) = length s"
  by (simp add: lower_def)

text \<open>\<open>a.toLowerCase() === b.toLowerCase()\<close>, the comparison of hex strings.\<close>

definition same :: "string \<Rightarrow> string \<Rightarrow> bool" where
  "same a b \<longleftrightarrow> lower a = lower b"

lemma same_refl [simp]: "same a a"
  by (simp add: same_def)

lemma same_sym: "same a b \<longleftrightarrow> same b a"
  by (auto simp: same_def)

lemma same_trans: "same a b \<Longrightarrow> same b c \<Longrightarrow> same a c"
  by (simp add: same_def)

lemma same_canonical: "lower a = a \<Longrightarrow> lower b = b \<Longrightarrow> same a b \<longleftrightarrow> a = b"
  by (simp add: same_def)

definition hex_digit :: "char \<Rightarrow> bool" where
  "hex_digit c = (let n = (of_char c :: nat) in
     (48 \<le> n \<and> n \<le> 57) \<or> (65 \<le> n \<and> n \<le> 70) \<or> (97 \<le> n \<and> n \<le> 102))"

definition digit_val :: "char \<Rightarrow> int" where
  "digit_val c = (let n = (of_char c :: nat) in
     if n \<le> 57 then int n - 48 else if n \<le> 70 then int n - 55 else int n - 87)"

text \<open>The pattern \<open>/^0x[0-9a-fA-F]{64}$/\<close>.\<close>

definition is_bytes32 :: "string \<Rightarrow> bool" where
  "is_bytes32 s \<longleftrightarrow> length s = 66 \<and> take 2 s = ''0x'' \<and> list_all hex_digit (drop 2 s)"

text \<open>\<open>BigInt(s)\<close> of a \<open>0x\<close> hex string.\<close>

definition hex_val :: "string \<Rightarrow> int" where
  "hex_val s = foldl (\<lambda>acc c. 16 * acc + digit_val c) 0 (drop 2 s)"

lemma digit_val_bounds: "hex_digit c \<Longrightarrow> 0 \<le> digit_val c \<and> digit_val c < 16"
  by (auto simp: hex_digit_def digit_val_def Let_def)

lemma foldl_digits_bounds:
  "list_all hex_digit ds \<Longrightarrow> 0 \<le> a \<Longrightarrow>
   0 \<le> foldl (\<lambda>acc c. 16 * acc + digit_val c) a ds
   \<and> foldl (\<lambda>acc c. 16 * acc + digit_val c) a ds < (a + 1) * 16 ^ length ds"
proof (induction ds arbitrary: a)
  case Nil
  then show ?case by simp
next
  case (Cons d ds)
  let ?b = "16 * a + digit_val d"
  from Cons.prems have d: "0 \<le> digit_val d" "digit_val d < 16"
    by (simp_all add: digit_val_bounds)
  have "(?b + 1) * 16 ^ length ds \<le> ((a + 1) * 16) * 16 ^ length ds"
    using d by (intro mult_right_mono) auto
  also have "\<dots> = (a + 1) * 16 ^ length (d # ds)"
    by simp
  finally have le: "(?b + 1) * 16 ^ length ds \<le> (a + 1) * 16 ^ length (d # ds)" .
  have IH: "0 \<le> foldl (\<lambda>acc c. 16 * acc + digit_val c) ?b ds"
    "foldl (\<lambda>acc c. 16 * acc + digit_val c) ?b ds < (?b + 1) * 16 ^ length ds"
    using Cons.IH [of ?b] Cons.prems d by auto
  from order_less_le_trans [OF IH(2) le] IH(1) show ?case by simp
qed

lemma hex_val_bounds: "is_bytes32 s \<Longrightarrow> 0 \<le> hex_val s \<and> hex_val s < 2 ^ 256"
  using foldl_digits_bounds [of "drop 2 s" 0]
  by (auto simp: is_bytes32_def hex_val_def)

subsection \<open>Results\<close>

text \<open>
  A function that may throw returns \<open>Inl e\<close> for the error it throws and \<open>Inr v\<close> for
  the value it returns. \<open>bindE\<close> continues with the value; \<open>requireE\<close> is
  \<open>if (!ok) throw e\<close>.
\<close>

definition bindE :: "'e + 'a \<Rightarrow> ('a \<Rightarrow> 'e + 'b) \<Rightarrow> 'e + 'b" where
  "bindE m k = (case m of Inl e \<Rightarrow> Inl e | Inr x \<Rightarrow> k x)"

definition requireE :: "'e \<Rightarrow> bool \<Rightarrow> 'e + unit" where
  "requireE e ok = (if ok then Inr () else Inl e)"

fun mapE :: "('a \<Rightarrow> 'e + 'b) \<Rightarrow> 'a list \<Rightarrow> 'e + 'b list" where
  "mapE f [] = Inr []"
| "mapE f (x # xs) = bindE (f x) (\<lambda>y. bindE (mapE f xs) (\<lambda>ys. Inr (y # ys)))"

lemma bindE_simps [simp]: "bindE (Inl e) k = Inl e" "bindE (Inr x) k = k x"
  by (simp_all add: bindE_def)

lemma bindE_cong [fundef_cong]:
  "m = m' \<Longrightarrow> (\<And>x. m' = Inr x \<Longrightarrow> k x = k' x) \<Longrightarrow> bindE m k = bindE m' k'"
  by (cases m') auto

lemma bindE_Inr_iff: "bindE m k = Inr y \<longleftrightarrow> (\<exists>x. m = Inr x \<and> k x = Inr y)"
  by (cases m) auto

lemma bindE_Inl_iff: "bindE m k = Inl e \<longleftrightarrow> m = Inl e \<or> (\<exists>x. m = Inr x \<and> k x = Inl e)"
  by (cases m) auto

lemma bindE_Inr_cases:
  assumes "bindE m k = Inr y"
  obtains x where "m = Inr x" "k x = Inr y"
  using assms by (auto simp: bindE_Inr_iff)

lemma requireE_Inr_iff [simp]: "requireE e ok = Inr u \<longleftrightarrow> ok"
  by (simp add: requireE_def)

lemma requireE_Inl_iff [simp]: "requireE e ok = Inl e' \<longleftrightarrow> \<not> ok \<and> e' = e"
  by (auto simp: requireE_def)

lemma requireE_simps [simp]: "requireE e True = Inr ()" "requireE e False = Inl e"
  by (simp_all add: requireE_def)

lemma mapE_cong [fundef_cong]:
  "xs = ys \<Longrightarrow> (\<And>x. x \<in> set ys \<Longrightarrow> f x = g x) \<Longrightarrow> mapE f xs = mapE g ys"
  by (induction ys arbitrary: xs) auto

lemma mapE_Inr_iff: "mapE f xs = Inr ys \<longleftrightarrow> list_all2 (\<lambda>x y. f x = Inr y) xs ys"
  by (induction xs arbitrary: ys) (auto simp: bindE_Inr_iff list_all2_Cons1)

text \<open>
  An operation on a state that may throw after it has committed: it returns the result and
  the state that is left behind, whether or not it threw.
\<close>

type_synonym ('s, 'e, 'a) st_res = "('e + 'a) \<times> 's"

definition bindS :: "('s, 'e, 'a) st_res \<Rightarrow> ('a \<Rightarrow> 's \<Rightarrow> ('s, 'e, 'b) st_res) \<Rightarrow> ('s, 'e, 'b) st_res" where
  "bindS m k = (case m of (Inl e, s) \<Rightarrow> (Inl e, s) | (Inr x, s) \<Rightarrow> k x s)"

lemma bindS_simps [simp]: "bindS (Inl e, s) k = (Inl e, s)" "bindS (Inr x, s) k = k x s"
  by (simp_all add: bindS_def)

lemma bindS_Inr: "bindS m k = (Inr y, t) \<longleftrightarrow> (\<exists>x s. m = (Inr x, s) \<and> k x s = (Inr y, t))"
  by (auto simp: bindS_def split: prod.splits sum.splits)

lemma bindS_keeps:
  assumes "P (snd m)" "\<And>x s. m = (Inr x, s) \<Longrightarrow> P (snd (k x s))"
  shows "P (snd (bindS m k))"
  using assms by (cases m) (auto simp: bindS_def split: sum.splits)

lemma bindS_Inr_E:
  assumes "bindS m k = (Inr y, t)"
  obtains x s where "m = (Inr x, s)" "k x s = (Inr y, t)"
  using assms by (auto simp: bindS_Inr)

lemma bindS_E:
  assumes "bindS m k = (x, t)"
  obtains (fail) e where "m = (Inl e, t)" | (ok) y s where "m = (Inr y, s)" "k y s = (x, t)"
  using assms by (cases m) (auto simp: bindS_def split: sum.splits)

lemmas [model_splits] = if_splits option.splits sum.splits prod.splits

subsection \<open>Lists and maps\<close>

lemma find_Some_iff2: "List.find P xs = Some x \<Longrightarrow> x \<in> set xs \<and> P x"
  by (auto simp: find_Some_iff in_set_conv_nth)

declare map_of_eq_Some_iff [simp del]

lemma length_filter_sort_key: "length (filter P (sort_key f xs)) = length (filter P xs)"
proof -
  have "mset (filter P (sort_key f xs)) = mset (filter P xs)" by simp
  from arg_cong [OF this, of size] show ?thesis by (simp only: size_mset)
qed

lemma in_set_hd: "x \<in> set xs \<Longrightarrow> xs \<noteq> [] \<and> hd xs \<in> set xs"
  by (cases xs) auto

lemma in_filter_hd:
  assumes "x \<in> set (filter P xs)"
  shows "filter P xs \<noteq> []" "P (hd (filter P xs))"
proof -
  from in_set_hd [OF assms] have "filter P xs \<noteq> [] \<and> hd (filter P xs) \<in> set (filter P xs)" .
  then show "filter P xs \<noteq> []" "P (hd (filter P xs))" by (blast, simp only: set_filter mem_Collect_eq)
qed

lemma ceil_half: "(n + 1) div 2 = n - n div 2" for n :: nat
  by presburger

text \<open>\<open>Array.prototype.sort\<close> with a comparator, which is stable.\<close>

fun insert_by :: "('a \<Rightarrow> 'a \<Rightarrow> bool) \<Rightarrow> 'a \<Rightarrow> 'a list \<Rightarrow> 'a list" where
  "insert_by precedes x [] = [x]"
| "insert_by precedes x (y # ys) = (if precedes y x then y # insert_by precedes x ys else x # y # ys)"

definition sort_by :: "('a \<Rightarrow> 'a \<Rightarrow> bool) \<Rightarrow> 'a list \<Rightarrow> 'a list" where
  "sort_by precedes xs = foldr (insert_by precedes) xs []"

lemma set_insert_by [simp]: "set (insert_by precedes x ys) = insert x (set ys)"
  by (induction ys) auto

lemma set_sort_by [simp]: "set (sort_by precedes xs) = set xs"
  unfolding sort_by_def by (induction xs) auto

text \<open>\<open>xs.indexOf(x)\<close>, \<open>None\<close> for \<open>-1\<close>.\<close>

fun index_of :: "'a \<Rightarrow> 'a list \<Rightarrow> nat option" where
  "index_of x [] = None"
| "index_of x (y # ys) = (if x = y then Some 0 else map_option Suc (index_of x ys))"

lemma index_of_Some: "index_of x xs = Some i \<Longrightarrow> i < length xs \<and> xs ! i = x"
  by (induction xs arbitrary: i) (auto split: if_splits)

lemma index_of_None: "index_of x xs = None \<longleftrightarrow> x \<notin> set xs"
  by (induction xs) auto

end
