(* ===== verification/Ethers.thy ===== *)
theory Ethers
  imports Prelude
begin

text \<open>
  The operations of the \<open>ethers\<close> package that the program calls, as the parameter record
  \<open>ethers\<close>. \<open>e_keccak\<close> is \<open>keccak256\<close> of the packed bytes of its arguments
  (\<open>solidityPacked\<close> or \<open>concat\<close>), \<open>e_abi\<close> is \<open>keccak256\<close> of their ABI encoding,
  \<open>e_bytes32\<close> tells which strings the encoders accept as 32 bytes and \<open>e_data\<close> which
  they accept as hex data of any length (they throw on the others), \<open>e_getAddress\<close> is \<open>getAddress\<close> with \<open>None\<close> for its exception. What the
  program relies on is stated by \<open>ethers_ok\<close> and, for finitely many preimages at a time,
  by \<open>no_collision\<close>; \<open>toy_ethers\<close> is a concrete instance for the witnesses.
\<close>

datatype packed = Bytes1 string | Bytes32 hex | Data hex | Uint256 int | Uint64 int | Utf8 string

datatype abi_val = AbiString string | AbiAddress string | AbiBytes32 hex | AbiUint256 int

record ethers =
  e_keccak :: "packed list \<Rightarrow> hex"
  e_abi :: "abi_val list \<Rightarrow> hex"
  e_bytes32 :: "string \<Rightarrow> bool"
  e_data :: "string \<Rightarrow> bool"
  e_getAddress :: "string \<Rightarrow> string option"

fun norm_packed :: "packed \<Rightarrow> packed" where
  "norm_packed (Bytes1 s) = Bytes1 (lower s)"
| "norm_packed (Bytes32 s) = Bytes32 (lower s)"
| "norm_packed (Data s) = Data (lower s)"
| "norm_packed (Uint256 n) = Uint256 n"
| "norm_packed (Uint64 n) = Uint64 n"
| "norm_packed (Utf8 s) = Utf8 s"

text \<open>
  Hashes are canonical lower-case 32-byte strings that the encoders accept again, and
  depend on the bytes only, not on the case of the hex digits that write them.
\<close>

definition bytes_only :: "ethers \<Rightarrow> bool" where
  "bytes_only E \<longleftrightarrow>
     (\<forall>xs ys. map norm_packed xs = map norm_packed ys \<longrightarrow> e_keccak E xs = e_keccak E ys)"

definition ethers_ok :: "ethers \<Rightarrow> bool" where
  "ethers_ok E \<longleftrightarrow>
     (\<forall>xs. e_bytes32 E (e_keccak E xs) \<and> e_data E (e_keccak E xs) \<and> lower (e_keccak E xs) = e_keccak E xs)
   \<and> (\<forall>vs. is_bytes32 (e_abi E vs) \<and> e_bytes32 E (e_abi E vs)
        \<and> e_data E (e_abi E vs) \<and> lower (e_abi E vs) = e_abi E vs)
   \<and> (\<forall>s. is_bytes32 s \<longrightarrow> e_bytes32 E s)
   \<and> bytes_only E"

text \<open>No two of the listed preimages, read as bytes, share a hash.\<close>

definition no_collision :: "ethers \<Rightarrow> packed list list \<Rightarrow> bool" where
  "no_collision E ps \<longleftrightarrow>
     (\<forall>x \<in> set ps. \<forall>y \<in> set ps. same (e_keccak E x) (e_keccak E y)
        \<longrightarrow> map norm_packed x = map norm_packed y)"

lemma ethers_okD:
  assumes "ethers_ok E"
  shows "e_bytes32 E (e_keccak E xs)" "lower (e_keccak E xs) = e_keccak E xs"
    and "is_bytes32 (e_abi E vs)" "e_bytes32 E (e_abi E vs)" "lower (e_abi E vs) = e_abi E vs"
    and "is_bytes32 s \<Longrightarrow> e_bytes32 E s" and "bytes_only E"
    and "e_data E (e_keccak E xs)" "e_data E (e_abi E vs)"
  using assms by (simp_all add: ethers_ok_def)

lemma bytes_onlyD:
  "bytes_only E \<Longrightarrow> map norm_packed xs = map norm_packed ys \<Longrightarrow> e_keccak E xs = e_keccak E ys"
  unfolding bytes_only_def by (drule spec [of _ xs], drule spec [of _ ys], erule mp)

lemma no_collisionD:
  "no_collision E ps \<Longrightarrow> x \<in> set ps \<Longrightarrow> y \<in> set ps \<Longrightarrow> same (e_keccak E x) (e_keccak E y)
     \<Longrightarrow> map norm_packed x = map norm_packed y"
  unfolding no_collision_def by blast

lemma no_collision_subset: "no_collision E ps \<Longrightarrow> set qs \<subseteq> set ps \<Longrightarrow> no_collision E qs"
  unfolding no_collision_def by blast

subsection \<open>A concrete instance\<close>

text \<open>
  Each field is written with its length in unary before it, so the encoding of a list of
  fields is injective on bytes; addresses are kept as they are, and an ABI preimage is
  written as a 32-byte number.
\<close>

fun unary_text :: "string \<Rightarrow> string" where
  "unary_text [] = []"
| "unary_text (c # s) = replicate (of_char c) CHR ''1'' @ CHR ''0'' # unary_text s"

fun field_bytes :: "packed \<Rightarrow> string" where
  "field_bytes (Bytes1 s) = CHR ''a'' # replicate (length s) CHR ''1'' @ CHR ''0'' # lower s"
| "field_bytes (Bytes32 s) = CHR ''b'' # replicate (length s) CHR ''1'' @ CHR ''0'' # lower s"
| "field_bytes (Data s) = CHR ''e'' # replicate (length s) CHR ''1'' @ CHR ''0'' # lower s"
| "field_bytes (Uint256 n) =
     (if n < 0 then CHR ''d'' # replicate (nat (- n)) CHR ''1'' @ ''0''
      else CHR ''c'' # replicate (nat n) CHR ''1'' @ ''0'')"
| "field_bytes (Uint64 n) =
     (if n < 0 then CHR ''f'' # replicate (nat (- n)) CHR ''1'' @ ''0''
      else CHR ''g'' # replicate (nat n) CHR ''1'' @ ''0'')"
| "field_bytes (Utf8 s) = CHR ''h'' # replicate (length s) CHR ''1'' @ CHR ''0'' # unary_text s"

definition toy_keccak :: "packed list \<Rightarrow> hex" where
  "toy_keccak xs = concat (map field_bytes xs)"

lemma unary_prefix:
  "replicate m (CHR ''1'') @ CHR ''0'' # u = replicate n (CHR ''1'') @ CHR ''0'' # v
     \<Longrightarrow> m = n \<and> u = v"
proof (induction m arbitrary: n)
  case 0
  then show ?case by (cases n) auto
next
  case (Suc m)
  then show ?case by (cases n) auto
qed

lemma unary_text_prefix:
  "unary_text s @ u = unary_text t @ v \<Longrightarrow> length s = length t \<Longrightarrow> s = t \<and> u = v"
proof (induction s arbitrary: t)
  case Nil
  then show ?case by simp
next
  case (Cons c s)
  then obtain d t' where t: "t = d # t'" by (cases t) auto
  with Cons.prems have "(of_char c :: nat) = of_char d \<and> unary_text s @ u = unary_text t' @ v"
    by (intro unary_prefix) simp
  with Cons.IH [of t'] Cons.prems(2) t show ?case by simp
qed

lemma field_bytes_prefix:
  assumes "field_bytes x @ u = field_bytes y @ v"
  shows "norm_packed x = norm_packed y \<and> u = v"
proof (cases x; cases y)
  fix m n assume "x = Uint256 m" "y = Uint256 n"
  with assms show ?thesis
    by (auto dest!: unary_prefix split: if_splits)
next
  fix m n assume "x = Uint64 m" "y = Uint64 n"
  with assms show ?thesis
    by (auto dest!: unary_prefix split: if_splits)
next
  fix s t assume "x = Utf8 s" "y = Utf8 t"
  with assms show ?thesis
    by (auto dest!: unary_prefix unary_text_prefix)
qed (use assms in \<open>auto dest!: unary_prefix split: if_splits\<close>)

lemma field_bytes_nonempty [simp]: "field_bytes x \<noteq> []"
  by (cases x) auto

lemma toy_keccak_inj:
  "toy_keccak xs = toy_keccak ys \<Longrightarrow> map norm_packed xs = map norm_packed ys"
proof (induction xs arbitrary: ys)
  case Nil
  then show ?case by (cases ys) (auto simp: toy_keccak_def)
next
  case (Cons x xs)
  show ?case
  proof (cases ys)
    case Nil
    with Cons.prems show ?thesis by (simp add: toy_keccak_def)
  next
    case (Cons y ys')
    with Cons.prems have "field_bytes x @ toy_keccak xs = field_bytes y @ toy_keccak ys'"
      by (simp add: toy_keccak_def)
    from field_bytes_prefix [OF this] Cons.IH [of ys'] Cons show ?thesis by simp
  qed
qed

lemma lower_Cons [simp]: "lower (c # s) = lower_char c # lower s"
  and lower_append [simp]: "lower (s @ t) = lower s @ lower t"
  and lower_Nil [simp]: "lower [] = []"
  by (simp_all add: lower_def)

lemma lower_marks [simp]:
  "lower_char (CHR ''0'') = CHR ''0''" "lower_char (CHR ''1'') = CHR ''1''"
  "lower_char (CHR ''a'') = CHR ''a''" "lower_char (CHR ''b'') = CHR ''b''"
  "lower_char (CHR ''c'') = CHR ''c''" "lower_char (CHR ''d'') = CHR ''d''"
  "lower_char (CHR ''e'') = CHR ''e''" "lower_char (CHR ''f'') = CHR ''f''" "lower_char (CHR ''g'') = CHR ''g''"
  "lower_char (CHR ''h'') = CHR ''h''"
  by (simp_all add: lower_char_def)

lemma lower_replicate [simp]: "lower (replicate n c) = replicate n (lower_char c)"
  by (simp add: lower_def)

lemma lower_unary_text [simp]: "lower (unary_text s) = unary_text s"
  by (induction s) simp_all

lemma lower_toy_keccak: "lower (toy_keccak xs) = toy_keccak xs"
proof -
  have "lower (field_bytes x) = field_bytes x" for x
    by (cases x) auto
  then show ?thesis
    by (induction xs) (auto simp: toy_keccak_def)
qed

lemma field_bytes_norm: "norm_packed x = norm_packed y \<Longrightarrow> field_bytes x = field_bytes y"
  by (cases x; cases y) (auto dest: arg_cong [where f = length])

lemma toy_keccak_bytes:
  "map norm_packed xs = map norm_packed ys \<Longrightarrow> toy_keccak xs = toy_keccak ys"
proof (induction xs arbitrary: ys)
  case Nil
  then show ?case by simp
next
  case (Cons x xs)
  then obtain y ys' where ys: "ys = y # ys'" "norm_packed x = norm_packed y"
    "map norm_packed xs = map norm_packed ys'"
    by (cases ys) auto
  from Cons.IH [OF ys(3)] field_bytes_norm [OF ys(2)] show ?case
    by (simp add: ys(1) toy_keccak_def)
qed

definition toy_ethers :: "(abi_val list \<Rightarrow> hex) \<Rightarrow> ethers" where
  "toy_ethers abi = \<lparr>e_keccak = toy_keccak, e_abi = abi, e_bytes32 = (\<lambda>_. True), e_data = (\<lambda>_. True),
     e_getAddress = Some\<rparr>"

lemma toy_no_collision: "no_collision (toy_ethers abi) ps"
  unfolding no_collision_def toy_ethers_def
  by (simp add: same_def lower_toy_keccak) (blast dest: toy_keccak_inj)

lemma toy_ethers_ok:
  assumes "\<And>vs. is_bytes32 (abi vs) \<and> lower (abi vs) = abi vs"
  shows "ethers_ok (toy_ethers abi)"
proof -
  have "bytes_only (toy_ethers abi)"
    unfolding bytes_only_def toy_ethers_def
    by (intro allI impI) (simp only: ethers.select_convs, rule toy_keccak_bytes)
  with assms show ?thesis
    by (simp add: ethers_ok_def) (simp add: toy_ethers_def lower_toy_keccak)
qed

end
