(* ===== verification/Commitment.thy ===== *)
theory Commitment
  imports Prelude
begin

text \<open>
  The interface between the trees that commit to a list of leaves (the roster tree and the
  claims tree) and the code that hands out proofs (roster witnesses and claim disclosures):
  for a well-formed tree a proof can be made for every leaf, and it verifies against the root.
\<close>

locale commitment =
  fixes wf :: "'t \<Rightarrow> bool"
    and root :: "'t \<Rightarrow> hex"
    and leaves :: "'t \<Rightarrow> hex list"
    and prove :: "'t \<Rightarrow> nat \<Rightarrow> 'e + 'p"
    and verify :: "hex \<Rightarrow> hex \<Rightarrow> 'p \<Rightarrow> 'e + bool"
  assumes prove_total: "wf t \<Longrightarrow> i < length (leaves t) \<Longrightarrow> \<exists>p. prove t i = Inr p"
    and prove_verifies: "wf t \<Longrightarrow> i < length (leaves t) \<Longrightarrow> prove t i = Inr p
          \<Longrightarrow> verify (root t) (leaves t ! i) p = Inr True"
begin

lemma provable:
  "wf t \<Longrightarrow> i < length (leaves t) \<Longrightarrow>
     \<exists>p. prove t i = Inr p \<and> verify (root t) (leaves t ! i) p = Inr True"
  using prove_total prove_verifies by blast

lemma member_provable:
  assumes "wf t" "leaf \<in> set (leaves t)"
  shows "\<exists>i p. prove t i = Inr p \<and> verify (root t) leaf p = Inr True"
  using assms provable [of t] by (metis in_set_conv_nth)

end

end
