(* ===== verification/Attrs.thy ===== *)
theory Attrs
  imports Prelude
begin

text \<open>
  The credential attribute word of \<open>pipeline/attrs.ts\<close>, the method bitmap of
  \<open>pipeline/methods.ts\<close> and the asset policy check of \<open>pipeline/policy.ts\<close>. An attribute
  word is a 32-byte hex string that packs eight scalars; \<open>BigInt\<close> is \<open>int\<close>, JavaScript's
  32-bit bitwise operators act on \<open>32 word\<close>. The library call
  \<open>zeroPadValue(toBeHex(v), 32)\<close> is the parameter \<open>be_hex\<close>.
\<close>

unbundle bit_operations_syntax

subsection \<open>Packing and unpacking\<close>

record mark_attrs_input =
  ai_kind :: js_num
  ai_assurance :: js_num
  ai_regime :: js_num
  ai_jurisdiction :: js_num
  ai_methods :: js_num
  ai_issuedAt :: js_num
  ai_expiry :: js_num
  ai_epoch :: js_num

datatype attrs_error = UnsafeField string | OutOfRange string | NotBytes32

definition attr_limits :: "(string \<times> (mark_attrs_input \<Rightarrow> js_num) \<times> int) list" where
  "attr_limits = [(''kind'', ai_kind, 0xff), (''assurance'', ai_assurance, 0xff),
     (''regime'', ai_regime, 0xffff), (''jurisdiction'', ai_jurisdiction, 0xffff),
     (''methods'', ai_methods, 0xffffffff), (''issuedAt'', ai_issuedAt, 0xffffffffff),
     (''expiry'', ai_expiry, 0xffffffffff), (''epoch'', ai_epoch, 0xffffffff)]"

fun check_limits :: "(string \<times> (mark_attrs_input \<Rightarrow> js_num) \<times> int) list \<Rightarrow> mark_attrs_input
    \<Rightarrow> attrs_error + unit" where
  "check_limits [] a = Inr ()"
| "check_limits ((k, get, mx) # rest) a =
     (if \<not> js_safe (get a) then Inl (UnsafeField k)
      else if js_val (get a) < 0 \<or> js_val (get a) > mx then Inl (OutOfRange k)
      else check_limits rest a)"

definition attrs_word :: "mark_attrs_input \<Rightarrow> int" where
  "attrs_word a =
     push_bit 248 (js_val (ai_kind a)) OR
     push_bit 240 (js_val (ai_assurance a)) OR
     push_bit 224 (js_val (ai_regime a)) OR
     push_bit 208 (js_val (ai_jurisdiction a)) OR
     push_bit 176 (js_val (ai_methods a)) OR
     push_bit 136 (js_val (ai_issuedAt a)) OR
     push_bit 96 (js_val (ai_expiry a)) OR
     push_bit 64 (js_val (ai_epoch a))"

definition packAttrs :: "(int \<Rightarrow> hex) \<Rightarrow> mark_attrs_input \<Rightarrow> attrs_error + hex" where
  "packAttrs be_hex a =
     bindE (check_limits attr_limits a) (\<lambda>_. Inr (be_hex (attrs_word a)))"

definition attr_at :: "int \<Rightarrow> nat \<Rightarrow> int \<Rightarrow> js_num" where
  "attr_at v shift m = JInt (drop_bit shift v AND m)"

definition unpackAttrs :: "hex \<Rightarrow> attrs_error + mark_attrs_input" where
  "unpackAttrs attrs =
     (if \<not> is_bytes32 attrs then Inl NotBytes32
      else let v = hex_val attrs in Inr \<lparr>
        ai_kind = attr_at v 248 0xff,
        ai_assurance = attr_at v 240 0xff,
        ai_regime = attr_at v 224 0xffff,
        ai_jurisdiction = attr_at v 208 0xffff,
        ai_methods = attr_at v 176 0xffffffff,
        ai_issuedAt = attr_at v 136 0xffffffffff,
        ai_expiry = attr_at v 96 0xffffffffff,
        ai_epoch = attr_at v 64 0xffffffff\<rparr>)"

subsection \<open>Validity of a credential\<close>

definition SUPPORTED_METHODS :: "32 word" where
  "SUPPORTED_METHODS = 0x001f07ff"

text \<open>\<open>(m & ~SUPPORTED_METHODS) === 0\<close>: \<open>&\<close> and \<open>~\<close> convert to 32 bits.\<close>

definition only_supported :: "int \<Rightarrow> bool" where
  "only_supported m \<longleftrightarrow> (word_of_int m AND NOT SUPPORTED_METHODS) = (0 :: 32 word)"

definition now_ok :: "js_num option \<Rightarrow> int \<Rightarrow> int \<Rightarrow> bool" where
  "now_ok now issued expiry = (case now of None \<Rightarrow> True
     | Some n \<Rightarrow> js_safe n \<and> js_val n \<ge> 0 \<and> issued \<le> js_val n \<and> expiry > js_val n)"

definition validCredentialAttrs :: "hex \<Rightarrow> js_num option \<Rightarrow> bool" where
  "validCredentialAttrs attrs now =
     (case unpackAttrs attrs of Inl _ \<Rightarrow> False
      | Inr a \<Rightarrow> (hex_val attrs AND 0xffffffffffffffff) = 0
        \<and> (js_val (ai_kind a) = 1 \<or> js_val (ai_kind a) = 2)
        \<and> 1 \<le> js_val (ai_assurance a) \<and> js_val (ai_assurance a) \<le> 5
        \<and> (js_val (ai_regime a) = 1 \<or> js_val (ai_regime a) = 2)
        \<and> 1 \<le> js_val (ai_jurisdiction a) \<and> js_val (ai_jurisdiction a) \<le> 999
        \<and> only_supported (js_val (ai_methods a))
        \<and> js_val (ai_issuedAt a) > 0
        \<and> js_val (ai_expiry a) > js_val (ai_issuedAt a)
        \<and> now_ok now (js_val (ai_issuedAt a)) (js_val (ai_expiry a)))"


subsection \<open>Bit fields\<close>

text \<open>
  \<open>field w v\<close> says that \<open>v\<close> fits in \<open>w\<close> bits. Reading one field of the packed
  word is a statement about bits: below the field the shifted neighbours contribute nothing
  because they fit in their own width.
\<close>

definition field :: "nat \<Rightarrow> int \<Rightarrow> bool" where
  "field w v \<longleftrightarrow> 0 \<le> v \<and> v < 2 ^ w"

lemma field_bit: "field w v \<Longrightarrow> bit v n \<Longrightarrow> n < w"
  unfolding field_def by (metis bit_take_bit_iff take_bit_int_eq_self)

lemma field_bit_shift: "bit v (n - s) \<Longrightarrow> field w v \<Longrightarrow> s \<le> n \<Longrightarrow> n < s + w"
  using field_bit [of w v "n - s"] by simp

lemma field_take_bit: "field w v \<longleftrightarrow> take_bit w v = v"
  unfolding field_def by (auto simp: take_bit_int_eq_self_iff)

lemma attr_masks:
  "(v AND 0xff) = take_bit 8 (v::int)" "(v AND 0xffff) = take_bit 16 v"
  "(v AND 0xffffffff) = take_bit 32 v" "(v AND 0xffffffffff) = take_bit 40 v"
  "(v AND 0xffffffffffffffff) = take_bit 64 v"
  by (simp_all add: take_bit_eq_mask mask_eq_exp_minus_1)

definition fields_fit :: "mark_attrs_input \<Rightarrow> bool" where
  "fields_fit a \<longleftrightarrow>
     field 8 (js_val (ai_kind a)) \<and> field 8 (js_val (ai_assurance a))
   \<and> field 16 (js_val (ai_regime a)) \<and> field 16 (js_val (ai_jurisdiction a))
   \<and> field 32 (js_val (ai_methods a)) \<and> field 40 (js_val (ai_issuedAt a))
   \<and> field 40 (js_val (ai_expiry a)) \<and> field 32 (js_val (ai_epoch a))"

definition fields_integral :: "mark_attrs_input \<Rightarrow> bool" where
  "fields_integral a \<longleftrightarrow> list_all (\<lambda>x. \<exists>n. x = JInt n)
     [ai_kind a, ai_assurance a, ai_regime a, ai_jurisdiction a, ai_methods a,
      ai_issuedAt a, ai_expiry a, ai_epoch a]"

lemma fits_safe: "field w v \<Longrightarrow> w \<le> 40 \<Longrightarrow> is_safe v"
proof -
  assume "field w v" "w \<le> 40"
  moreover from \<open>w \<le> 40\<close> have "(2::int) ^ w \<le> 2 ^ 40"
    by (intro power_increasing) auto
  ultimately have "v < 2 ^ w" "0 \<le> v" "(2::int) ^ w \<le> 2 ^ 40"
    by (simp_all add: field_def)
  then show ?thesis by (simp add: is_safe_def max_safe_def)
qed

lemma js_field_iff:
  "w \<le> 40 \<Longrightarrow> (js_safe x \<and> \<not> (js_val x < 0 \<or> js_val x > 2 ^ w - 1))
     \<longleftrightarrow> (\<exists>n. x = JInt n) \<and> field w (js_val x)"
  by (cases x) (auto simp: field_def dest: fits_safe [unfolded field_def, rotated])

lemma check_limits_step:
  assumes "w \<le> 40" "mx = 2 ^ w - 1"
  shows "check_limits ((k, get, mx) # rest) a = Inr u \<longleftrightarrow>
     (\<exists>n. get a = JInt n) \<and> field w (js_val (get a)) \<and> check_limits rest a = Inr u"
  using js_field_iff [OF assms(1), of "get a"] assms(2) by auto

lemma check_limits_fields:
  "check_limits ((k, get, 255) # rest) a = Inr () \<longleftrightarrow>
     (\<exists>n. get a = JInt n) \<and> field 8 (js_val (get a)) \<and> check_limits rest a = Inr ()"
  "check_limits ((k, get, 65535) # rest) a = Inr () \<longleftrightarrow>
     (\<exists>n. get a = JInt n) \<and> field 16 (js_val (get a)) \<and> check_limits rest a = Inr ()"
  "check_limits ((k, get, 4294967295) # rest) a = Inr () \<longleftrightarrow>
     (\<exists>n. get a = JInt n) \<and> field 32 (js_val (get a)) \<and> check_limits rest a = Inr ()"
  "check_limits ((k, get, 1099511627775) # rest) a = Inr () \<longleftrightarrow>
     (\<exists>n. get a = JInt n) \<and> field 40 (js_val (get a)) \<and> check_limits rest a = Inr ()"
  by (rule check_limits_step; simp)+

lemma check_limits_iff:
  "check_limits attr_limits a = Inr () \<longleftrightarrow> fields_integral a \<and> fields_fit a"
  unfolding attr_limits_def fields_integral_def fields_fit_def
  by (simp only: check_limits_fields check_limits.simps(1) list.pred_inject) blast

lemma packAttrs_Inr_iff:
  "packAttrs be_hex a = Inr h \<longleftrightarrow>
     fields_integral a \<and> fields_fit a \<and> h = be_hex (attrs_word a)"
  by (auto simp: packAttrs_def bindE_Inr_iff check_limits_iff)

lemma attrs_word_bit:
  "bit (attrs_word a) n \<longleftrightarrow>
     248 \<le> n \<and> bit (js_val (ai_kind a)) (n - 248) \<or>
     240 \<le> n \<and> bit (js_val (ai_assurance a)) (n - 240) \<or>
     224 \<le> n \<and> bit (js_val (ai_regime a)) (n - 224) \<or>
     208 \<le> n \<and> bit (js_val (ai_jurisdiction a)) (n - 208) \<or>
     176 \<le> n \<and> bit (js_val (ai_methods a)) (n - 176) \<or>
     136 \<le> n \<and> bit (js_val (ai_issuedAt a)) (n - 136) \<or>
     96 \<le> n \<and> bit (js_val (ai_expiry a)) (n - 96) \<or>
     64 \<le> n \<and> bit (js_val (ai_epoch a)) (n - 64)"
  by (auto simp: attrs_word_def bit_or_iff bit_push_bit_iff_int)

lemma fields_no_bit:
  assumes "fields_fit a"
  shows "8 \<le> n \<Longrightarrow> \<not> bit (js_val (ai_kind a)) n"
    and "8 \<le> n \<Longrightarrow> \<not> bit (js_val (ai_assurance a)) n"
    and "16 \<le> n \<Longrightarrow> \<not> bit (js_val (ai_regime a)) n"
    and "16 \<le> n \<Longrightarrow> \<not> bit (js_val (ai_jurisdiction a)) n"
    and "32 \<le> n \<Longrightarrow> \<not> bit (js_val (ai_methods a)) n"
    and "40 \<le> n \<Longrightarrow> \<not> bit (js_val (ai_issuedAt a)) n"
    and "40 \<le> n \<Longrightarrow> \<not> bit (js_val (ai_expiry a)) n"
    and "32 \<le> n \<Longrightarrow> \<not> bit (js_val (ai_epoch a)) n"
  using assms unfolding fields_fit_def by (metis field_bit leD)+

lemma attrs_word_fields:
  assumes "fields_fit a"
  shows "take_bit 8 (drop_bit 248 (attrs_word a)) = js_val (ai_kind a)"
    and "take_bit 8 (drop_bit 240 (attrs_word a)) = js_val (ai_assurance a)"
    and "take_bit 16 (drop_bit 224 (attrs_word a)) = js_val (ai_regime a)"
    and "take_bit 16 (drop_bit 208 (attrs_word a)) = js_val (ai_jurisdiction a)"
    and "take_bit 32 (drop_bit 176 (attrs_word a)) = js_val (ai_methods a)"
    and "take_bit 40 (drop_bit 136 (attrs_word a)) = js_val (ai_issuedAt a)"
    and "take_bit 40 (drop_bit 96 (attrs_word a)) = js_val (ai_expiry a)"
    and "take_bit 32 (drop_bit 64 (attrs_word a)) = js_val (ai_epoch a)"
    and "take_bit 64 (attrs_word a) = 0"
  by (rule bit_eqI, auto simp: attrs_word_bit bit_take_bit_iff bit_drop_bit_eq
      fields_no_bit [OF assms] not_less intro: ccontr)+

lemma attrs_word_bounds:
  assumes "fields_fit a"
  shows "0 \<le> attrs_word a \<and> attrs_word a < 2 ^ 256"
proof -
  have "\<not> bit (attrs_word a) n" if "256 \<le> n" for n
    using that by (simp add: attrs_word_bit fields_no_bit [OF assms])
  then have "take_bit 256 (attrs_word a) = attrs_word a"
    by (intro bit_eqI) (metis bit_take_bit_iff not_less)
  then show ?thesis by (simp add: take_bit_int_eq_self_iff)
qed

subsection \<open>The two conversions are inverse\<close>

text \<open>
  What the packing relies on of the library: \<open>zeroPadValue(toBeHex(v), 32)\<close> writes a
  value below \<open>2^256\<close> as a 32-byte hex string that reads back as that value.
\<close>

definition be_hex_ok :: "(int \<Rightarrow> hex) \<Rightarrow> bool" where
  "be_hex_ok be_hex \<longleftrightarrow>
     (\<forall>v. 0 \<le> v \<and> v < 2 ^ 256 \<longrightarrow> is_bytes32 (be_hex v) \<and> hex_val (be_hex v) = v)"

lemma js_val_attr_at [simp]:
  "js_val (attr_at v s 0xff) = take_bit 8 (drop_bit s v)"
  "js_val (attr_at v s 0xffff) = take_bit 16 (drop_bit s v)"
  "js_val (attr_at v s 0xffffffff) = take_bit 32 (drop_bit s v)"
  "js_val (attr_at v s 0xffffffffff) = take_bit 40 (drop_bit s v)"
  by (simp_all add: attr_at_def attr_masks)

lemma attr_at_JInt: "attr_at v s m = JInt (js_val (attr_at v s m))"
  by (simp add: attr_at_def)

definition fields_of :: "int \<Rightarrow> mark_attrs_input" where
  "fields_of v = \<lparr>
        ai_kind = attr_at v 248 0xff,
        ai_assurance = attr_at v 240 0xff,
        ai_regime = attr_at v 224 0xffff,
        ai_jurisdiction = attr_at v 208 0xffff,
        ai_methods = attr_at v 176 0xffffffff,
        ai_issuedAt = attr_at v 136 0xffffffffff,
        ai_expiry = attr_at v 96 0xffffffffff,
        ai_epoch = attr_at v 64 0xffffffff\<rparr>"

lemma unpackAttrs_fields: "is_bytes32 h \<Longrightarrow> unpackAttrs h = Inr (fields_of (hex_val h))"
  by (simp add: unpackAttrs_def fields_of_def Let_def)

lemma fields_of_fit: "fields_fit (fields_of v)"
  by (simp add: fields_fit_def fields_of_def field_take_bit)

lemma fields_of_integral: "fields_integral (fields_of v)"
  by (simp add: fields_integral_def fields_of_def) (metis attr_at_JInt)

lemma fields_of_attrs_word:
  assumes "fields_integral a" "fields_fit a"
  shows "fields_of (attrs_word a) = a"
proof -
  have eq: "x = JInt (take_bit w (drop_bit s (attrs_word a)))"
    if "\<exists>n. x = JInt n" "take_bit w (drop_bit s (attrs_word a)) = js_val x" for x w s
    using that by auto
  show ?thesis
    using assms(1) attrs_word_fields [OF assms(2)] unfolding fields_integral_def
    by (cases a) (auto simp: fields_of_def attr_at_def attr_masks)
qed

lemma attrs_word_fields_of:
  assumes "0 \<le> v" "v < 2 ^ 256" "take_bit 64 v = 0"
  shows "attrs_word (fields_of v) = v"
proof (rule bit_eqI)
  fix n
  have hi: "\<not> bit v n" if "256 \<le> n"
    using assms(1,2) that field_bit [of 256 v n] by (auto simp: field_def)
  have lo: "\<not> bit v n" if "n < 64"
    using assms(3) that by (metis bit_take_bit_iff bit_0_eq bot_apply bot_bool_def)
  show "bit (attrs_word (fields_of v)) n \<longleftrightarrow> bit v n"
  proof (cases "bit v n")
    case True
    with hi lo have "64 \<le> n" "n < 256" by (auto simp: not_le [symmetric])
    then consider "64 \<le> n" "n < 96" | "96 \<le> n" "n < 136" | "136 \<le> n" "n < 176"
      | "176 \<le> n" "n < 208" | "208 \<le> n" "n < 224" | "224 \<le> n" "n < 240"
      | "240 \<le> n" "n < 248" | "248 \<le> n" "n < 256"
      by linarith
    then show ?thesis
      using True
      by (cases; simp add: attrs_word_bit fields_of_def bit_take_bit_iff bit_drop_bit_eq
          le_add_diff_inverse; linarith?)
  next
    case False
    then show ?thesis
      by (auto simp: attrs_word_bit fields_of_def bit_take_bit_iff bit_drop_bit_eq)
  qed
qed

text \<open>
  A concrete hex writer, for the witnesses: 64 digits, most significant first.
\<close>

definition hex_char :: "int \<Rightarrow> char" where
  "hex_char d = ''0123456789abcdef'' ! nat d"

fun hex_digits :: "nat \<Rightarrow> int \<Rightarrow> string" where
  "hex_digits 0 v = []"
| "hex_digits (Suc n) v = hex_digits n (v div 16) @ [hex_char (v mod 16)]"

definition hex32 :: "int \<Rightarrow> hex" where
  "hex32 v = ''0x'' @ hex_digits 64 v"

lemma hex_char_ok: "0 \<le> d \<Longrightarrow> d < 16 \<Longrightarrow> hex_digit (hex_char d) \<and> digit_val (hex_char d) = d"
proof -
  assume "0 \<le> d" "d < 16"
  then have "d \<in> set [0..15]" by simp
  moreover have "list_all (\<lambda>d. hex_digit (hex_char d) \<and> digit_val (hex_char d) = d) [0..15]"
    by code_simp
  ultimately show ?thesis by (auto simp only: list_all_iff)
qed

lemma hex_char_lower: "0 \<le> d \<Longrightarrow> d < 16 \<Longrightarrow> lower_char (hex_char d) = hex_char d"
proof -
  assume "0 \<le> d" "d < 16"
  then have "d \<in> set [0..15]" by simp
  moreover have "list_all (\<lambda>d. lower_char (hex_char d) = hex_char d) [0..15]"
    by code_simp
  ultimately show ?thesis by (auto simp only: list_all_iff)
qed

lemma hex_digits_ok:
  "length (hex_digits n v) = n \<and> list_all hex_digit (hex_digits n v)
   \<and> lower (hex_digits n v) = hex_digits n v
   \<and> foldl (\<lambda>acc c. 16 * acc + digit_val c) 0 (hex_digits n v) = v mod 16 ^ n"
proof (induction n arbitrary: v)
  case 0
  then show ?case by (simp add: lower_def)
next
  case (Suc n)
  have "16 * (v div 16 mod 16 ^ n) + v mod 16 = v mod (16 * 16 ^ n)"
    by (simp add: zmod_zmult2_eq)
  then show ?case
    using Suc [of "v div 16"] hex_char_ok [of "v mod 16"] hex_char_lower [of "v mod 16"]
    by (simp add: lower_def)
qed

lemma hex32_ok: "be_hex_ok hex32"
  using hex_digits_ok [of 64] by (auto simp: be_hex_ok_def hex32_def is_bytes32_def hex_val_def)

lemma hex32_canonical: "lower (hex32 v) = hex32 v" "is_bytes32 (hex32 v)"
proof -
  have "lower ''0x'' = ''0x''" by code_simp
  then show "lower (hex32 v) = hex32 v"
    using hex_digits_ok [of 64 v] by (simp add: hex32_def lower_def)
  show "is_bytes32 (hex32 v)"
    using hex_digits_ok [of 64 v] by (simp add: hex32_def is_bytes32_def)
qed

subsection \<open>The method bitmap\<close>

definition method_shifts :: "(string \<times> nat) list" where
  "method_shifts = [
     (''WALLET_CONTROL'', 0), (''ID_DOC_IMAGE'', 1), (''ID_DOC_AUTHENTICITY'', 2),
     (''FACE_MATCH'', 3), (''LIVENESS'', 4), (''BANK_ACCOUNT'', 5), (''MOBILE_CARRIER'', 6),
     (''VIDEO_CALL'', 7), (''IN_PERSON'', 8), (''EPASSPORT_NFC'', 9), (''GOV_EID'', 10),
     (''SANCTIONS_SCREENED'', 16), (''PEP_SCREENED'', 17), (''ADVERSE_MEDIA'', 18),
     (''JURISDICTION_CHECK'', 19), (''ONCHAIN_EXPOSURE'', 20)]"

definition Methods :: "(string \<times> 32 word) list" where
  "Methods = map (\<lambda>(k, n). (k, push_bit n 1)) method_shifts"

definition describeMethods :: "32 word \<Rightarrow> string list" where
  "describeMethods m = map fst (filter (\<lambda>(_, b). (m AND b) \<noteq> 0) Methods)"

definition mask_of :: "string list \<Rightarrow> 32 word" where
  "mask_of names = fold (\<lambda>(k, b) acc. if k \<in> set names then acc OR b else acc) Methods 0"

lemma and_single_bit: "(m AND push_bit n 1) \<noteq> 0 \<longleftrightarrow> bit m n" if "n < 32" for m :: "32 word"
proof -
  have "m AND push_bit n 1 = (if bit m n then push_bit n 1 else 0)"
    by (rule bit_eqI) (auto simp: bit_simps)
  moreover have "push_bit n 1 \<noteq> (0 :: 32 word)"
    using that by (simp add: push_bit_of_1)
  ultimately show ?thesis by auto
qed

subsection \<open>Policy check\<close>

record policy_input =
  pi_requireAll :: js_num
  pi_minAssurance :: js_num
  pi_maxAge :: js_num
  pi_requiredRegime :: js_num
  pi_requiredJurisdiction :: js_num
  pi_trustedIssuer :: string
  pi_requireRoster :: bool

datatype policy_error = InvalidPolicySchema

definition policy_range :: "js_num \<times> int \<Rightarrow> bool" where
  "policy_range r = (case r of (v, mx) \<Rightarrow> js_safe v \<and> 0 \<le> js_val v \<and> js_val v \<le> mx)"

definition validatePolicy :: "(string \<Rightarrow> bool) \<Rightarrow> policy_input \<Rightarrow> js_num \<Rightarrow> policy_error + unit" where
  "validatePolicy is_address p kind = requireE InvalidPolicySchema
     ((kind = JInt 1 \<or> kind = JInt 2)
      \<and> list_all policy_range [(pi_requireAll p, 0xffffffff), (pi_minAssurance p, 5),
          (pi_maxAge p, 0xffffffffff), (pi_requiredRegime p, 2), (pi_requiredJurisdiction p, 999)]
      \<and> only_supported (js_val (pi_requireAll p))
      \<and> is_address (pi_trustedIssuer p))"

datatype policy_warning = NoMethod | NoAssurance | ExposureUnsatisfiable | NoAgeCeiling
  | AnyRegime | AnyJurisdiction | AnyIssuer | DirectNotFresh | RosterTrust

definition ZeroAddress :: string where
  "ZeroAddress = ''0x0000000000000000000000000000000000000000''"

definition policyWarnings :: "(string \<Rightarrow> bool) \<Rightarrow> policy_input \<Rightarrow> js_num
    \<Rightarrow> policy_error + policy_warning list" where
  "policyWarnings is_address p kind =
     bindE (validatePolicy is_address p kind) (\<lambda>_. Inr (concat [
       if pi_requireAll p = JInt 0 then [NoMethod] else [],
       if pi_minAssurance p = JInt 0 then [NoAssurance] else [],
       if (word_of_int (js_val (pi_requireAll p)) AND push_bit 20 1) \<noteq> (0 :: 32 word)
         then [ExposureUnsatisfiable] else [],
       if pi_maxAge p = JInt 0 then [NoAgeCeiling] else [],
       if pi_requiredRegime p = JInt 0 then [AnyRegime] else [],
       if pi_requiredJurisdiction p = JInt 0 then [AnyJurisdiction] else [],
       if lower (pi_trustedIssuer p) = ZeroAddress then [AnyIssuer] else [],
       [if \<not> pi_requireRoster p then DirectNotFresh else RosterTrust]]))"

subsection \<open>Facts about the bitmap\<close>

lemma Methods_single_bit:
  assumes "(k, b) \<in> set Methods"
  shows "m AND b = 0 \<or> m AND b = b"
proof -
  from assms obtain n where n: "b = push_bit n 1" by (auto simp: Methods_def)
  have "m AND b = (if bit m n then b else 0)"
    unfolding n by (rule bit_eqI) (auto simp: bit_simps)
  then show ?thesis by simp
qed

lemma Methods_distinct: "distinct (map fst Methods)"
  by (simp add: Methods_def method_shifts_def)

lemma describeMethods_iff:
  assumes "(k, b) \<in> set Methods"
  shows "k \<in> set (describeMethods m) \<longleftrightarrow> m AND b \<noteq> 0"
proof -
  have "k \<in> set (describeMethods m) \<longleftrightarrow> (\<exists>b'. (k, b') \<in> set Methods \<and> m AND b' \<noteq> 0)"
    by (auto simp: describeMethods_def intro: image_eqI [where x = "(k, b')" for b'])
  also have "\<dots> \<longleftrightarrow> m AND b \<noteq> 0"
    using assms eq_key_imp_eq_value [OF Methods_distinct] by blast
  finally show ?thesis .
qed

lemma fold_mask:
  assumes "\<And>k b. (k, b) \<in> set ps \<Longrightarrow> (k \<in> N \<longleftrightarrow> m AND b \<noteq> 0) \<and> (m AND b = 0 \<or> m AND b = b)"
  shows "fold (\<lambda>(k, b) acc. if k \<in> N then acc OR b else acc) ps acc
     = acc OR (m AND fold (\<lambda>(k, b) acc. acc OR b) ps (0 :: 32 word))"
proof -
  have gen: "fold (\<lambda>(k, b) acc. if k \<in> N then acc OR b else acc) ps (acc OR (m AND z))
     = acc OR (m AND fold (\<lambda>(k, b) acc. acc OR b) ps z)" for z
    using assms
  proof (induction ps arbitrary: z)
    case Nil
    then show ?case by simp
  next
    case (Cons p ps)
    obtain k b where p: "p = (k, b)" by fastforce
    have "(if k \<in> N then (acc OR (m AND z)) OR b else acc OR (m AND z))
        = acc OR (m AND (z OR b))"
      using Cons.prems [of k b] p by (auto simp: bit.conj_disj_distrib or.assoc)
    moreover have "fold (\<lambda>(k, b) acc. if k \<in> N then acc OR b else acc) ps (acc OR (m AND (z OR b)))
        = acc OR (m AND fold (\<lambda>(k, b) acc. acc OR b) ps (z OR b))"
      using Cons.prems by (intro Cons.IH) auto
    ultimately show ?case using p by simp
  qed
  from gen [of 0] show ?thesis by simp
qed

lemma Methods_all: "fold (\<lambda>(k, b) acc. acc OR b) Methods 0 = SUPPORTED_METHODS"
  by (simp add: Methods_def method_shifts_def SUPPORTED_METHODS_def)

text \<open>
  the bitmap and its names agree with the supported set: for every 32-bit mask, the
  mask rebuilt from the names that \<open>describeMethods\<close> reports is the supported part of the
  mask, so names lose nothing exactly when \<open>SUPPORTED_METHODS\<close> admits the mask.
\<close>

theorem describeMethods_supported:
  "mask_of (describeMethods m) = m AND SUPPORTED_METHODS"
  unfolding mask_of_def Methods_all [symmetric]
  using fold_mask [of Methods "set (describeMethods m)" m 0]
  by (simp add: describeMethods_iff Methods_single_bit)

subsection \<open>Properties of the packing\<close>

text \<open>
  C38: whatever \<open>packAttrs\<close> accepts, \<open>unpackAttrs\<close> reads back field by field, and the 64
  reserved bits of the word are zero.
\<close>

theorem attrs_roundtrip:
  assumes "be_hex_ok be_hex" and "packAttrs be_hex a = Inr h"
  shows "unpackAttrs h = Inr a \<and> hex_val h AND 0xffffffffffffffff = 0"
proof -
  from assms(2) have a: "fields_integral a" "fields_fit a" and h: "h = be_hex (attrs_word a)"
    by (simp_all add: packAttrs_Inr_iff)
  with assms(1) attrs_word_bounds [OF a(2)]
  have "is_bytes32 h" "hex_val h = attrs_word a" by (simp_all add: be_hex_ok_def)
  with a show ?thesis
    by (simp add: unpackAttrs_fields fields_of_attrs_word attr_masks attrs_word_fields)
qed

definition sample_attrs :: mark_attrs_input where
  "sample_attrs = \<lparr>ai_kind = JInt 1, ai_assurance = JInt 2, ai_regime = JInt 2,
     ai_jurisdiction = JInt 410, ai_methods = JInt 65573, ai_issuedAt = JInt 1700000000,
     ai_expiry = JInt 1731536000, ai_epoch = JInt 3\<rparr>"

lemma sample_attrs_packs: "packAttrs hex32 sample_attrs = Inr (hex32 (attrs_word sample_attrs))"
  by (simp add: packAttrs_Inr_iff fields_integral_def fields_fit_def field_def sample_attrs_def)

theorem attrs_roundtrip_witness:
  "unpackAttrs (hex32 (attrs_word sample_attrs)) = Inr sample_attrs
   \<and> hex_val (hex32 (attrs_word sample_attrs)) AND 0xffffffffffffffff = 0"
  using attrs_roundtrip [OF hex32_ok sample_attrs_packs] .

text \<open>
  the encoding is canonical: a 32-byte word with zero reserved bits unpacks to fields
  that \<open>packAttrs\<close> accepts, and packing them gives the same word, so no two field tuples
  share a word and no word with clear reserved bits is unreachable.
\<close>

theorem attrs_canonical:
  assumes "is_bytes32 h" and "hex_val h AND 0xffffffffffffffff = 0"
  shows "bindE (unpackAttrs h) (packAttrs be_hex) = Inr (be_hex (hex_val h))"
proof -
  have "take_bit 64 (hex_val h) = 0"
    using assms(2) by (simp add: attr_masks)
  with hex_val_bounds [OF assms(1)] have "attrs_word (fields_of (hex_val h)) = hex_val h"
    by (simp add: attrs_word_fields_of)
  then show ?thesis
    using assms(1) fields_of_fit [of "hex_val h"] fields_of_integral [of "hex_val h"]
    by (simp add: unpackAttrs_fields packAttrs_Inr_iff)
qed

theorem attrs_canonical_witness:
  "bindE (unpackAttrs (hex32 (2 ^ 248))) (packAttrs hex32) = Inr (hex32 (2 ^ 248))"
proof -
  have v: "hex_val (hex32 (2 ^ 248)) = 2 ^ 248" "is_bytes32 (hex32 (2 ^ 248))"
    using hex32_ok by (auto simp: be_hex_ok_def)
  then have "hex_val (hex32 (2 ^ 248)) AND 0xffffffffffffffff = 0" by simp
  from attrs_canonical [OF v(2) this, of hex32] v(1) show ?thesis by simp
qed

text \<open>
  a credential that is valid without a clock is valid at exactly the safe-integer times
  of the half-open window from its issuance to its expiry, and that window is not empty.
\<close>

theorem credential_window:
  assumes "validCredentialAttrs h None" and "unpackAttrs h = Inr a"
  shows "(validCredentialAttrs h (Some t) \<longleftrightarrow>
       (\<exists>n. t = JInt n \<and> js_val (ai_issuedAt a) \<le> n \<and> n < js_val (ai_expiry a)))
     \<and> js_val (ai_issuedAt a) < js_val (ai_expiry a)"
proof -
  have b: "is_bytes32 h" using assms(2) by (simp add: unpackAttrs_def split: if_splits)
  with assms(2) have a: "a = fields_of (hex_val h)" by (simp add: unpackAttrs_fields)
  have f: "field 40 (js_val (ai_expiry a))" "field 40 (js_val (ai_issuedAt a))"
    using fields_of_fit [of "hex_val h"] a by (simp_all add: fields_fit_def)
  have "is_safe n" if "js_val (ai_issuedAt a) \<le> n" "n < js_val (ai_expiry a)" for n
    using that f by (intro fits_safe [of 40]) (auto simp: field_def)
  with assms f show ?thesis
    by (cases t) (auto simp: validCredentialAttrs_def now_ok_def field_def)
qed

theorem credential_window_witness:
  "(validCredentialAttrs (hex32 (attrs_word sample_attrs)) (Some (JInt 1700000001)) \<longleftrightarrow>
       (\<exists>n. JInt 1700000001 = JInt n \<and> js_val (ai_issuedAt sample_attrs) \<le> n
          \<and> n < js_val (ai_expiry sample_attrs)))
     \<and> js_val (ai_issuedAt sample_attrs) < js_val (ai_expiry sample_attrs)"
proof (rule credential_window)
  have p: "fields_integral sample_attrs" "fields_fit sample_attrs"
    using sample_attrs_packs by (simp_all add: packAttrs_Inr_iff)
  have v: "hex_val (hex32 (attrs_word sample_attrs)) = attrs_word sample_attrs"
    using hex32_ok attrs_word_bounds [OF p(2)] by (simp add: be_hex_ok_def)
  show u: "unpackAttrs (hex32 (attrs_word sample_attrs)) = Inr sample_attrs"
    using p v by (simp add: unpackAttrs_fields hex32_canonical fields_of_attrs_word)
  have "attrs_word sample_attrs AND 0xffffffffffffffff = 0"
    using attrs_word_fields(9) [OF p(2)] by (simp add: attr_masks)
  with u v show "validCredentialAttrs (hex32 (attrs_word sample_attrs)) None"
    by (simp add: validCredentialAttrs_def now_ok_def sample_attrs_def only_supported_def
        SUPPORTED_METHODS_def)
qed

end
