(* ===== verification/Roster.thy ===== *)
theory Roster
  imports Ethers Commitment Attrs "HOL-Library.Multiset"
begin

text \<open>
  The epoch roster tree of \<open>pipeline/roster.ts\<close>: a positional Merkle tree over the leaves
  sorted by subject key, with a sentinel at each end. The definitions keep every exception
  of the code as an error value. The lemmas show that inclusion proofs are complete and sound
  for every leaf position, and that a verified gap between two adjacent leaves excludes its
  target from the roster.
\<close>

subsection \<open>Data\<close>

record roster_entry =
  re_subject :: string
  re_attrs :: hex
  re_claimsRoot :: hex
  re_evidenceHash :: hex
  re_issuer :: string

record roster_tree =
  rt_entries :: "roster_entry list"
  rt_keys :: "hex list"
  rt_marks :: "hex list"
  rt_leaves :: "hex list"
  rt_layers :: "hex list list"
  rt_root :: hex

datatype roster_error = BadArgument | InvalidLeafCount | DuplicateSubject string
  | SentinelKey string | IndexOutOfRange | UndefinedSibling | TargetInRoster | OutsideSentinels
  | InvalidRosterRecord | InvalidWitnessSubject | RosterRootMismatch | SubjectAbsent

definition ROSTER_FORMAT_VERSION :: int where
  "ROSTER_FORMAT_VERSION = 2"

definition EVM_NAMESPACE :: string where
  "EVM_NAMESPACE = ''eip155''"

definition MIN_KEY :: hex where
  "MIN_KEY = ''0x'' @ replicate 64 CHR ''0''"

definition MAX_KEY :: hex where
  "MAX_KEY = ''0x'' @ replicate 64 CHR ''f''"

definition SENTINEL_MARK :: hex where
  "SENTINEL_MARK = ''0x'' @ replicate 64 CHR ''0''"

definition leafIndexOf :: "int \<Rightarrow> int" where
  "leafIndexOf i = i + 1"

subsection \<open>Hashes\<close>

fun arg_ok :: "ethers \<Rightarrow> packed \<Rightarrow> bool" where
  "arg_ok E (Bytes32 s) = e_bytes32 E s"
| "arg_ok E (Data s) = e_data E s"
| "arg_ok E (Bytes1 _) = True"
| "arg_ok E (Uint256 n) = (0 \<le> n)"
| "arg_ok E (Uint64 n) = (0 \<le> n)"

definition packed_hash :: "ethers \<Rightarrow> packed list \<Rightarrow> roster_error + hex" where
  "packed_hash E ps = (if list_all (arg_ok E) ps then Inr (e_keccak E ps) else Inl BadArgument)"

definition get_address :: "ethers \<Rightarrow> string \<Rightarrow> roster_error + string" where
  "get_address E a = (case e_getAddress E a of None \<Rightarrow> Inl BadArgument | Some b \<Rightarrow> Inr b)"

definition subjectKey :: "ethers \<Rightarrow> string \<Rightarrow> string \<Rightarrow> roster_error + hex" where
  "subjectKey E namespace subject =
     bindE (get_address E subject) (\<lambda>a. Inr (e_abi E [AbiString namespace, AbiAddress a]))"

definition markHash :: "ethers \<Rightarrow> roster_entry \<Rightarrow> roster_error + hex" where
  "markHash E e =
     bindE (get_address E (re_issuer e)) (\<lambda>issuer.
       if e_bytes32 E (re_attrs e) \<and> e_bytes32 E (re_claimsRoot e) \<and> e_bytes32 E (re_evidenceHash e)
       then Inr (e_abi E [AbiBytes32 (re_attrs e), AbiBytes32 (re_claimsRoot e),
              AbiBytes32 (re_evidenceHash e), AbiAddress issuer])
       else Inl BadArgument)"

definition leafOf :: "ethers \<Rightarrow> hex \<Rightarrow> hex \<Rightarrow> roster_error + hex" where
  "leafOf E key mark = packed_hash E [Bytes1 ''0x00'', Bytes32 key, Bytes32 mark]"

definition rosterLeaf :: "ethers \<Rightarrow> string \<Rightarrow> roster_entry \<Rightarrow> roster_error + hex" where
  "rosterLeaf E namespace e =
     bindE (subjectKey E namespace (re_subject e)) (\<lambda>k.
     bindE (markHash E e) (\<lambda>m. leafOf E k m))"

definition hashNode :: "ethers \<Rightarrow> hex \<Rightarrow> hex \<Rightarrow> roster_error + hex" where
  "hashNode E left right = packed_hash E [Bytes1 ''0x01'', Bytes32 left, Bytes32 right]"

definition rosterRoot :: "ethers \<Rightarrow> hex \<Rightarrow> int \<Rightarrow> roster_error + hex" where
  "rosterRoot E treeRoot leafCount =
     (if \<not> is_safe leafCount \<or> leafCount < 2 then Inl InvalidLeafCount
      else packed_hash E [Bytes1 ''0x02'', Uint256 leafCount, Bytes32 treeRoot])"

definition canonicalBytes32 :: "string \<Rightarrow> hex option" where
  "canonicalBytes32 s = (if is_bytes32 s then Some (lower s) else None)"

subsection \<open>Building the tree\<close>

fun next_layer :: "ethers \<Rightarrow> hex list \<Rightarrow> roster_error + hex list" where
  "next_layer E [] = Inr []"
| "next_layer E [x] = bindE (hashNode E x x) (\<lambda>h. Inr [h])"
| "next_layer E (x # y # rest) =
     bindE (hashNode E x y) (\<lambda>h. bindE (next_layer E rest) (\<lambda>hs. Inr (h # hs)))"

lemma length_next_layer: "next_layer E xs = Inr ys \<Longrightarrow> length ys = (length xs + 1) div 2"
  by (induction E xs arbitrary: ys rule: next_layer.induct) (auto simp: bindE_Inr_iff)

function roster_layers :: "ethers \<Rightarrow> hex list \<Rightarrow> roster_error + hex list list" where
  "roster_layers E cur =
     (if length cur \<le> 1 then Inr [cur]
      else bindE (next_layer E cur) (\<lambda>nxt. bindE (roster_layers E nxt) (\<lambda>ls. Inr (cur # ls))))"
  by pat_completeness auto
termination
  by (relation "measure (\<lambda>(E, cur). length cur)") (auto dest: length_next_layer)

declare roster_layers.simps [simp del]

text \<open>The first subject whose key equals the key before it in the sorted order.\<close>

fun first_duplicate :: "(roster_entry \<times> hex) list \<Rightarrow> string option" where
  "first_duplicate (a # b # rest) =
     (if snd b = snd a then Some (re_subject (fst b)) else first_duplicate (b # rest))"
| "first_duplicate _ = None"

definition first_sentinel :: "(roster_entry \<times> hex) list \<Rightarrow> string option" where
  "first_sentinel xs =
     map_option (\<lambda>x. re_subject (fst x)) (List.find (\<lambda>x. snd x = MIN_KEY \<or> snd x = MAX_KEY) xs)"

definition with_keys :: "ethers \<Rightarrow> string \<Rightarrow> roster_entry list \<Rightarrow> roster_error + (roster_entry \<times> hex) list" where
  "with_keys E ns entries =
     mapE (\<lambda>e. bindE (subjectKey E ns (re_subject e)) (\<lambda>k. Inr (e, k))) entries"

definition buildRoster :: "ethers \<Rightarrow> string \<Rightarrow> roster_entry list \<Rightarrow> roster_error + roster_tree" where
  "buildRoster E ns entries =
     bindE (with_keys E ns entries) (\<lambda>unsorted.
       let withKeys = sort_key snd unsorted in
       case first_duplicate withKeys of Some s \<Rightarrow> Inl (DuplicateSubject s) | None \<Rightarrow>
       case first_sentinel withKeys of Some s \<Rightarrow> Inl (SentinelKey s) | None \<Rightarrow>
       let sorted = map fst withKeys;
           keys = [MIN_KEY] @ map snd withKeys @ [MAX_KEY] in
       bindE (mapE (markHash E) sorted) (\<lambda>ms.
       let marks = [SENTINEL_MARK] @ ms @ [SENTINEL_MARK] in
       bindE (mapE (\<lambda>(k, m). leafOf E k m) (zip keys marks)) (\<lambda>leaves.
       bindE (roster_layers E leaves) (\<lambda>layers.
       bindE (rosterRoot E (hd (last layers)) (int (length leaves))) (\<lambda>root.
         Inr \<lparr>rt_entries = sorted, rt_keys = keys, rt_marks = marks, rt_leaves = leaves,
              rt_layers = layers, rt_root = root\<rparr>)))))"

subsection \<open>Inclusion\<close>

record inclusion_proof =
  ip_index :: int
  ip_leafCount :: int
  ip_siblings :: "hex list"

fun sibling_path :: "hex list list \<Rightarrow> nat \<Rightarrow> roster_error + hex list" where
  "sibling_path (layer # upper # rest) idx =
     (let pair = (if idx mod 2 = 0 then idx + 1 else idx - 1);
          at = (if pair < length layer then pair else idx) in
      if at < length layer
      then bindE (sibling_path (upper # rest) (idx div 2)) (\<lambda>ss. Inr (layer ! at # ss))
      else Inl UndefinedSibling)"
| "sibling_path _ idx = Inr []"

definition inclusionProof :: "roster_tree \<Rightarrow> int \<Rightarrow> roster_error + inclusion_proof" where
  "inclusionProof tree index =
     (if \<not> is_safe index \<or> index < 0 \<or> index \<ge> int (length (rt_leaves tree))
      then Inl IndexOutOfRange
      else bindE (sibling_path (rt_layers tree) (nat index)) (\<lambda>siblings.
        Inr \<lparr>ip_index = index, ip_leafCount = int (length (rt_leaves tree)),
             ip_siblings = siblings\<rparr>))"

text \<open>
  The loop of \<open>verifyInclusion\<close>: \<open>None\<close> is \<open>return false\<close> inside the loop.
\<close>

fun verify_path :: "ethers \<Rightarrow> hex \<Rightarrow> nat \<Rightarrow> nat \<Rightarrow> hex list \<Rightarrow> roster_error + (hex \<times> nat \<times> nat) option" where
  "verify_path E acc idx width [] = Inr (Some (acc, idx, width))"
| "verify_path E acc idx width (s # ss) =
     (if width \<le> 1 then Inr None
      else let pair = (if idx mod 2 = 0 then idx + 1 else idx - 1) in
      if pair \<ge> width \<and> \<not> same s acc then Inr None
      else bindE (if idx mod 2 = 0 then hashNode E acc s else hashNode E s acc) (\<lambda>acc'.
        verify_path E acc' (idx div 2) ((width + 1) div 2) ss))"

definition verifyInclusion :: "ethers \<Rightarrow> hex \<Rightarrow> hex \<Rightarrow> inclusion_proof \<Rightarrow> roster_error + bool" where
  "verifyInclusion E root leaf p =
     (if \<not> is_safe (ip_index p) \<or> \<not> is_safe (ip_leafCount p) \<or> ip_leafCount p < 2
         \<or> ip_index p < 0 \<or> ip_index p \<ge> ip_leafCount p \<or> length (ip_siblings p) > 256
      then Inr False
      else bindE (verify_path E leaf (nat (ip_index p)) (nat (ip_leafCount p)) (ip_siblings p)) (\<lambda>r.
        case r of None \<Rightarrow> Inr False
        | Some (acc, idx, width) \<Rightarrow>
            if width = 1 \<and> idx = 0
            then bindE (rosterRoot E acc (ip_leafCount p)) (\<lambda>h. Inr (same h root))
            else Inr False))"

subsection \<open>Non-inclusion\<close>

record non_inclusion_proof =
  np_left :: inclusion_proof
  np_leftKey :: string
  np_leftMark :: string
  np_right :: inclusion_proof
  np_rightKey :: string
  np_rightMark :: string

fun find_index :: "('a \<Rightarrow> bool) \<Rightarrow> 'a list \<Rightarrow> nat option" where
  "find_index P [] = None"
| "find_index P (x # xs) = (if P x then Some 0 else map_option Suc (find_index P xs))"

definition nonInclusionProof :: "ethers \<Rightarrow> string \<Rightarrow> roster_tree \<Rightarrow> string \<Rightarrow> roster_error + non_inclusion_proof" where
  "nonInclusionProof E ns tree target =
     bindE (subjectKey E ns target) (\<lambda>tk.
       if tk \<in> set (rt_keys tree) then Inl TargetInRoster
       else case find_index (\<lambda>k. k > tk) (rt_keys tree) of
         None \<Rightarrow> Inl OutsideSentinels
       | Some hi \<Rightarrow> if hi \<le> 0 then Inl OutsideSentinels else
           let lo = hi - 1 in
           bindE (inclusionProof tree (int lo)) (\<lambda>l.
           bindE (inclusionProof tree (int hi)) (\<lambda>r.
             Inr \<lparr>np_left = l, np_leftKey = rt_keys tree ! lo, np_leftMark = rt_marks tree ! lo,
                  np_right = r, np_rightKey = rt_keys tree ! hi, np_rightMark = rt_marks tree ! hi\<rparr>)))"

definition verifyNonInclusion :: "ethers \<Rightarrow> string \<Rightarrow> hex \<Rightarrow> string \<Rightarrow> non_inclusion_proof \<Rightarrow> roster_error + bool" where
  "verifyNonInclusion E ns root target p =
     bindE (subjectKey E ns target) (\<lambda>tk.
       case (canonicalBytes32 (np_leftKey p), canonicalBytes32 (np_rightKey p)) of
         (Some leftKey, Some rightKey) \<Rightarrow>
           if \<not> (leftKey < tk \<and> tk < rightKey) then Inr False
           else if ip_index (np_right p) \<noteq> ip_index (np_left p) + 1 then Inr False
           else if ip_leafCount (np_left p) \<noteq> ip_leafCount (np_right p)
                \<or> length (ip_siblings (np_left p)) \<noteq> length (ip_siblings (np_right p)) then Inr False
           else bindE (leafOf E leftKey (np_leftMark p)) (\<lambda>leftLeaf.
                bindE (leafOf E rightKey (np_rightMark p)) (\<lambda>rightLeaf.
                bindE (verifyInclusion E root leftLeaf (np_left p)) (\<lambda>ok.
                  if \<not> ok then Inr False else verifyInclusion E root rightLeaf (np_right p))))
       | _ \<Rightarrow> Inr False)"

subsection \<open>Layers\<close>

lemma next_layer_nth:
  "next_layer E xs = Inr ys \<Longrightarrow> j < length ys \<Longrightarrow>
     hashNode E (xs ! (2 * j)) (if 2 * j + 1 < length xs then xs ! (2 * j + 1) else xs ! (2 * j))
       = Inr (ys ! j)"
proof (induction E xs arbitrary: ys j rule: next_layer.induct)
  case (3 E x y rest)
  from "3.prems"(1) obtain h hs where h: "hashNode E x y = Inr h" "next_layer E rest = Inr hs"
    "ys = h # hs"
    by (auto simp: bindE_Inr_iff)
  show ?case
  proof (cases j)
    case 0
    with h show ?thesis by simp
  next
    case (Suc i)
    with "3.prems"(2) h(3) have "i < length hs" by simp
    from "3.IH" [OF h(1) h(2) this] show ?thesis
      using Suc h by (simp split: if_splits)
  qed
qed (auto simp: bindE_Inr_iff)

lemma roster_layers_step:
  "1 < length cur \<Longrightarrow> roster_layers E cur = Inr ls \<longleftrightarrow>
     (\<exists>nxt rest. next_layer E cur = Inr nxt \<and> roster_layers E nxt = Inr rest \<and> ls = cur # rest)"
  by (subst roster_layers.simps) (auto simp: bindE_Inr_iff)

lemma roster_layers_base: "length cur \<le> 1 \<Longrightarrow> roster_layers E cur = Inr [cur]"
  by (subst roster_layers.simps) simp

lemma roster_layers_hd: "roster_layers E cur = Inr ls \<Longrightarrow> \<exists>rest. ls = cur # rest"
  by (cases "length cur \<le> 1") (auto simp: roster_layers_base roster_layers_step not_le)

lemma roster_layers_induct [consumes 1, case_names apex step]:
  assumes "roster_layers E cur = Inr ls"
    and "\<And>cur. length cur \<le> 1 \<Longrightarrow> P cur [cur]"
    and "\<And>cur nxt rest. 1 < length cur \<Longrightarrow> next_layer E cur = Inr nxt \<Longrightarrow>
           roster_layers E nxt = Inr (nxt # rest) \<Longrightarrow> P nxt (nxt # rest) \<Longrightarrow> P cur (cur # nxt # rest)"
  shows "P cur ls"
  using assms(1)
proof (induction "length cur" arbitrary: cur ls rule: less_induct)
  case less
  show ?case
  proof (cases "length cur \<le> 1")
    case True
    with less.prems assms(2) show ?thesis by (auto simp: roster_layers_base)
  next
    case False
    with less.prems obtain nxt rest where n: "next_layer E cur = Inr nxt"
      "roster_layers E nxt = Inr rest" "ls = cur # rest"
      by (auto simp: roster_layers_step not_le)
    moreover from roster_layers_hd [OF n(2)] obtain r where r: "rest = nxt # r" by blast
    moreover have "length nxt < length cur"
      using length_next_layer [OF n(1)] False by simp
    ultimately show ?thesis
      using less.hyps [of nxt rest] assms(3) [of cur nxt r] False by simp
  qed
qed

lemma roster_layers_depth:
  "roster_layers E cur = Inr ls \<Longrightarrow> length cur \<le> 2 ^ k \<Longrightarrow> length ls \<le> k + 1"
proof (induction arbitrary: k rule: roster_layers_induct)
  case (apex cur)
  then show ?case by simp
next
  case (step cur nxt rest)
  then obtain k' where k: "k = Suc k'" by (cases k) auto
  have "length nxt \<le> 2 ^ k'"
    using length_next_layer [OF step(2)] step.prems k by simp
  from step(4) [OF this] k show ?case by simp
qed

subsection \<open>Completeness of inclusion\<close>

definition pair_index :: "nat \<Rightarrow> nat" where
  "pair_index idx = (if idx mod 2 = 0 then idx + 1 else idx - 1)"

lemma node_of_index:
  assumes "next_layer E cur = Inr nxt" "idx < length cur"
  defines "s \<equiv> cur ! (if pair_index idx < length cur then pair_index idx else idx)"
  shows "(if idx mod 2 = 0 then hashNode E (cur ! idx) s else hashNode E s (cur ! idx))
           = Inr (nxt ! (idx div 2))"
    and "idx div 2 < length nxt"
proof -
  show j: "idx div 2 < length nxt"
    using length_next_layer [OF assms(1)] assms(2) by simp
  show "(if idx mod 2 = 0 then hashNode E (cur ! idx) s else hashNode E s (cur ! idx))
           = Inr (nxt ! (idx div 2))"
  proof (cases "idx mod 2 = 0")
    case True
    then have "2 * (idx div 2) = idx" by presburger
    with True next_layer_nth [OF assms(1) j] assms(2) show ?thesis
      by (auto simp: s_def pair_index_def split: if_splits)
  next
    case False
    then have i: "2 * (idx div 2) = idx - 1" "2 * (idx div 2) + 1 = idx" by presburger+
    have "idx - 1 < length cur" using assms(2) by simp
    with i False next_layer_nth [OF assms(1) j] assms(2) show ?thesis
      by (simp add: s_def pair_index_def)
  qed
qed

lemma verify_path_complete:
  "roster_layers E cur = Inr ls \<Longrightarrow> idx < length cur \<Longrightarrow>
     \<exists>ss. sibling_path ls idx = Inr ss \<and> length ss = length ls - 1
        \<and> verify_path E (cur ! idx) idx (length cur) ss = Inr (Some (hd (last ls), 0, 1))"
proof (induction arbitrary: idx rule: roster_layers_induct)
  case (apex cur)
  then show ?case by (cases cur) auto
next
  case (step cur nxt rest)
  let ?at = "if pair_index idx < length cur then pair_index idx else idx"
  from step(4) [OF node_of_index(2) [OF step(2) step.prems]] obtain ss where
    ss: "sibling_path (nxt # rest) (idx div 2) = Inr ss" "length ss = length rest"
    "verify_path E (nxt ! (idx div 2)) (idx div 2) (length nxt) ss
       = Inr (Some (hd (last (nxt # rest)), 0, 1))"
    by auto
  have at: "?at < length cur" using step.prems by (simp add: pair_index_def)
  have "sibling_path (cur # nxt # rest) idx = Inr (cur ! ?at # ss)"
    using at ss(1) by (simp add: Let_def pair_index_def [symmetric] split del: if_split)
  moreover have "verify_path E (cur ! idx) idx (length cur) (cur ! ?at # ss)
      = verify_path E (nxt ! (idx div 2)) (idx div 2) (length nxt) ss"
    using node_of_index(1) [OF step(2) step.prems] step(1) length_next_layer [OF step(2)]
    by (auto simp: Let_def pair_index_def [symmetric] split: if_splits)
  ultimately show ?case using ss by simp
qed

subsection \<open>What a built tree is\<close>

lemma mapE_length: "mapE f xs = Inr ys \<Longrightarrow> length ys = length xs"
  by (auto simp: mapE_Inr_iff dest: list_all2_lengthD)

lemma mapE_nth: "mapE f xs = Inr ys \<Longrightarrow> i < length xs \<Longrightarrow> f (xs ! i) = Inr (ys ! i)"
  by (auto simp: mapE_Inr_iff dest: list_all2_nthD)

lemma first_duplicate_None:
  "first_duplicate xs = None \<longleftrightarrow> distinct_adj (map snd xs)"
  by (induction xs rule: first_duplicate.induct) auto

lemma sorted_adj_strict: "sorted xs \<Longrightarrow> distinct_adj xs \<Longrightarrow> sorted_wrt (<) (xs :: 'a :: linorder list)"
proof (induction xs)
  case (Cons x xs)
  then show ?case
    by (cases xs) (auto simp: distinct_adj_Cons order.strict_iff_order)
qed simp

lemma buildRoster_Inr:
  "buildRoster E ns entries = Inr t \<longleftrightarrow>
     (\<exists>unsorted ms. with_keys E ns entries = Inr unsorted
       \<and> first_duplicate (sort_key snd unsorted) = None
       \<and> first_sentinel (sort_key snd unsorted) = None
       \<and> rt_entries t = map fst (sort_key snd unsorted)
       \<and> rt_keys t = [MIN_KEY] @ map snd (sort_key snd unsorted) @ [MAX_KEY]
       \<and> mapE (markHash E) (rt_entries t) = Inr ms
       \<and> rt_marks t = [SENTINEL_MARK] @ ms @ [SENTINEL_MARK]
       \<and> mapE (\<lambda>(k, m). leafOf E k m) (zip (rt_keys t) (rt_marks t)) = Inr (rt_leaves t)
       \<and> roster_layers E (rt_leaves t) = Inr (rt_layers t)
       \<and> rosterRoot E (hd (last (rt_layers t))) (int (length (rt_leaves t))) = Inr (rt_root t))"
  unfolding buildRoster_def Let_def
  by (cases t) (auto simp: bindE_Inr_iff split: option.split)

subsection \<open>Soundness of inclusion\<close>

text \<open>
  The preimages that the tree and a verification hash. Soundness assumes that no two of
  these finitely many preimages collide.
\<close>

definition leaf_pre :: "hex \<Rightarrow> hex \<Rightarrow> packed list" where
  "leaf_pre k m = [Bytes1 ''0x00'', Bytes32 k, Bytes32 m]"

definition node_pre :: "hex \<Rightarrow> hex \<Rightarrow> packed list" where
  "node_pre l r = [Bytes1 ''0x01'', Bytes32 l, Bytes32 r]"

definition root_pre :: "hex \<Rightarrow> int \<Rightarrow> packed list" where
  "root_pre apex n = [Bytes1 ''0x02'', Uint256 n, Bytes32 apex]"

fun layer_preimages :: "hex list \<Rightarrow> packed list list" where
  "layer_preimages [] = []"
| "layer_preimages [x] = [node_pre x x]"
| "layer_preimages (x # y # rest) = node_pre x y # layer_preimages rest"

fun path_preimages :: "ethers \<Rightarrow> hex \<Rightarrow> nat \<Rightarrow> hex list \<Rightarrow> packed list list" where
  "path_preimages E acc idx [] = []"
| "path_preimages E acc idx (s # ss) =
     (let pre = (if idx mod 2 = 0 then node_pre acc s else node_pre s acc)
      in pre # path_preimages E (e_keccak E pre) (idx div 2) ss)"

fun path_top :: "ethers \<Rightarrow> hex \<Rightarrow> nat \<Rightarrow> hex list \<Rightarrow> hex" where
  "path_top E acc idx [] = acc"
| "path_top E acc idx (s # ss) =
     path_top E (e_keccak E (if idx mod 2 = 0 then node_pre acc s else node_pre s acc)) (idx div 2) ss"

definition tree_preimages :: "roster_tree \<Rightarrow> packed list list" where
  "tree_preimages t = map (\<lambda>(k, m). leaf_pre k m) (zip (rt_keys t) (rt_marks t))
     @ concat (map layer_preimages (butlast (rt_layers t)))
     @ [root_pre (hd (last (rt_layers t))) (int (length (rt_leaves t)))]"

definition inclusion_preimages :: "ethers \<Rightarrow> hex \<Rightarrow> inclusion_proof \<Rightarrow> packed list list" where
  "inclusion_preimages E leaf p = path_preimages E leaf (nat (ip_index p)) (ip_siblings p)
     @ [root_pre (path_top E leaf (nat (ip_index p)) (ip_siblings p)) (ip_leafCount p)]"

lemma packed_hash_Inr: "packed_hash E ps = Inr h \<Longrightarrow> h = e_keccak E ps"
  by (simp add: packed_hash_def split: if_splits)

lemma hashNode_Inr: "hashNode E l r = Inr h \<Longrightarrow> h = e_keccak E (node_pre l r)"
  by (simp add: hashNode_def node_pre_def packed_hash_Inr)

lemma leafOf_Inr: "leafOf E k m = Inr h \<Longrightarrow> h = e_keccak E (leaf_pre k m)"
  by (simp add: leafOf_def leaf_pre_def packed_hash_Inr)

lemma rosterRoot_Inr:
  "rosterRoot E apex n = Inr h \<Longrightarrow> h = e_keccak E (root_pre apex n) \<and> is_safe n \<and> 2 \<le> n"
  by (auto simp: rosterRoot_def root_pre_def packed_hash_def split: if_splits)

lemma norm_pre [simp]:
  "map norm_packed (node_pre l r) = map norm_packed (node_pre l' r') \<longleftrightarrow> same l l' \<and> same r r'"
  "map norm_packed (leaf_pre k m) = map norm_packed (leaf_pre k' m') \<longleftrightarrow> same k k' \<and> same m m'"
  "map norm_packed (root_pre t n) = map norm_packed (root_pre t' n') \<longleftrightarrow> n = n' \<and> same t t'"
  by (auto simp: node_pre_def leaf_pre_def root_pre_def same_def)

lemma layer_preimages_nth:
  "next_layer E xs = Inr ys \<Longrightarrow> j < length ys \<Longrightarrow>
     node_pre (xs ! (2 * j)) (if 2 * j + 1 < length xs then xs ! (2 * j + 1) else xs ! (2 * j))
       \<in> set (layer_preimages xs)"
proof (induction E xs arbitrary: ys j rule: next_layer.induct)
  case (3 E x y rest)
  from "3.prems"(1) obtain h hs where h: "hashNode E x y = Inr h" "next_layer E rest = Inr hs"
    "ys = h # hs"
    by (auto simp: bindE_Inr_iff)
  show ?case
  proof (cases j)
    case 0
    then show ?thesis by simp
  next
    case (Suc i)
    with "3.prems"(2) h(3) have "i < length hs" by simp
    from "3.IH" [OF h(1) h(2) this] show ?thesis
      using Suc by (simp split: if_splits)
  qed
qed (auto simp: bindE_Inr_iff)

lemma path_top_eq:
  "verify_path E acc idx width ss = Inr (Some (apex, i, w)) \<Longrightarrow> apex = path_top E acc idx ss"
  by (induction ss arbitrary: acc idx width)
    (auto simp: bindE_Inr_iff Let_def dest: hashNode_Inr split: if_splits)

lemma verify_path_sound:
  "roster_layers E cur = Inr ls \<Longrightarrow> idx < length cur \<Longrightarrow>
     verify_path E acc idx (length cur) ss = Inr (Some (apex, 0, 1)) \<Longrightarrow> same apex (hd (last ls)) \<Longrightarrow>
     no_collision E (concat (map layer_preimages (butlast ls)) @ path_preimages E acc idx ss) \<Longrightarrow>
     same acc (cur ! idx)"
proof (induction arbitrary: idx acc ss rule: roster_layers_induct)
  case (apex cur)
  then show ?case by (cases ss; cases cur) auto
next
  case (step cur nxt rest)
  from step(1) step.prems(2) obtain s ss' where ss: "ss = s # ss'" by (cases ss) auto
  let ?pre = "if idx mod 2 = 0 then node_pre acc s else node_pre s acc"
  let ?j = "idx div 2"
  let ?l = "cur ! (2 * ?j)"
  let ?r = "if 2 * ?j + 1 < length cur then cur ! (2 * ?j + 1) else cur ! (2 * ?j)"
  note j = node_of_index(2) [OF step(2) step.prems(1)]
  from step.prems(2) have path:
    "verify_path E (e_keccak E ?pre) ?j (length nxt) ss' = Inr (Some (apex, 0, 1))"
    using step(1) length_next_layer [OF step(2)]
    by (auto simp: ss Let_def bindE_Inr_iff dest: hashNode_Inr split: if_splits)
  have "same (e_keccak E ?pre) (nxt ! ?j)"
  proof (rule step(4) [OF j path])
    show "same apex (hd (last (nxt # rest)))" using step.prems(3) by simp
    show "no_collision E (concat (map layer_preimages (butlast (nxt # rest)))
        @ path_preimages E (e_keccak E ?pre) ?j ss')"
      by (rule no_collision_subset [OF step.prems(4)]) (auto simp: ss Let_def)
  qed
  moreover have "nxt ! ?j = e_keccak E (node_pre ?l ?r)"
    using next_layer_nth [OF step(2) j] by (rule hashNode_Inr)
  moreover have "node_pre ?l ?r \<in> set (layer_preimages cur)"
    by (rule layer_preimages_nth [OF step(2) j])
  ultimately have "map norm_packed ?pre = map norm_packed (node_pre ?l ?r)"
    by (intro no_collisionD [OF step.prems(4)]) (auto simp: ss Let_def)
  moreover have "2 * ?j = idx" if "idx mod 2 = 0" using that by presburger
  moreover have "2 * ?j + 1 = idx" if "idx mod 2 \<noteq> 0" using that by presburger
  ultimately show ?case
    using step.prems(1) by (auto split: if_splits)
qed

lemma roster_layers_top: "roster_layers E cur = Inr ls \<Longrightarrow> cur \<noteq> [] \<Longrightarrow> last ls \<noteq> []"
proof (induction rule: roster_layers_induct)
  case (step cur nxt rest)
  from length_next_layer [OF step(2)] step(1) have "nxt \<noteq> []" by auto
  with step(4) show ?case by simp
qed simp

lemma verifyInclusion_True:
  "verifyInclusion E root leaf p = Inr True \<longleftrightarrow>
     is_safe (ip_index p) \<and> is_safe (ip_leafCount p) \<and> 2 \<le> ip_leafCount p
   \<and> 0 \<le> ip_index p \<and> ip_index p < ip_leafCount p \<and> length (ip_siblings p) \<le> 256
   \<and> (\<exists>apex h. verify_path E leaf (nat (ip_index p)) (nat (ip_leafCount p)) (ip_siblings p)
            = Inr (Some (apex, 0, 1))
        \<and> rosterRoot E apex (ip_leafCount p) = Inr h \<and> same h root)"
proof (cases "verify_path E leaf (nat (ip_index p)) (nat (ip_leafCount p)) (ip_siblings p)")
  case (Inr r)
  then show ?thesis
    by (cases r) (auto simp: verifyInclusion_def bindE_Inr_iff split: if_splits)
qed (auto simp: verifyInclusion_def)

text \<open>The leaf that a verified inclusion proof speaks about is the leaf at its index.\<close>

lemma verifyInclusion_sound:
  assumes layers: "roster_layers E leaves = Inr layers"
    and root: "rosterRoot E (hd (last layers)) (int (length leaves)) = Inr root"
    and verified: "verifyInclusion E root leaf p = Inr True"
    and nocoll: "no_collision E (concat (map layer_preimages (butlast layers))
      @ [root_pre (hd (last layers)) (int (length leaves))] @ inclusion_preimages E leaf p)"
  shows "0 \<le> ip_index p \<and> nat (ip_index p) < length leaves \<and> same leaf (leaves ! nat (ip_index p))"
proof -
  let ?i = "nat (ip_index p)" and ?w = "nat (ip_leafCount p)"
  from verified obtain apex h where p: "0 \<le> ip_index p" "ip_index p < ip_leafCount p"
    "verify_path E leaf ?i ?w (ip_siblings p) = Inr (Some (apex, 0, 1))"
    "rosterRoot E apex (ip_leafCount p) = Inr h" "same h root"
    using that unfolding verifyInclusion_True by auto
  note apex = path_top_eq [OF p(3)]
  have "map norm_packed (root_pre apex (ip_leafCount p))
      = map norm_packed (root_pre (hd (last layers)) (int (length leaves)))"
    using p(5) rosterRoot_Inr [OF p(4)] rosterRoot_Inr [OF root]
    by (intro no_collisionD [OF nocoll]) (auto simp: inclusion_preimages_def apex)
  then have n: "ip_leafCount p = int (length leaves)" and t: "same apex (hd (last layers))"
    by simp_all
  have "same leaf (leaves ! ?i)"
  proof (rule verify_path_sound [OF layers _ _ t])
    show "?i < length leaves" using p(1,2) n by simp
    show "verify_path E leaf ?i (length leaves) (ip_siblings p) = Inr (Some (apex, 0, 1))"
      using p(3) n by simp
    show "no_collision E (concat (map layer_preimages (butlast layers))
        @ path_preimages E leaf ?i (ip_siblings p))"
      by (rule no_collision_subset [OF nocoll]) (auto simp: inclusion_preimages_def)
  qed
  with p(1,2) n show ?thesis by auto
qed

subsection \<open>Keys\<close>

lemma char_le_iff: "c \<le> d \<longleftrightarrow> (of_char c :: nat) \<le> of_char d"
  by (simp add: less_eq_char_def)

lemma replicate_le:
  "list_all (\<lambda>d. c \<le> d) xs \<Longrightarrow> replicate (length xs) (c :: char) \<le> xs"
  "list_all (\<lambda>d. d \<le> c) xs \<Longrightarrow> xs \<le> replicate (length xs) (c :: char)"
  by (induction xs) (auto simp: Cons_le_Cons)

lemma bytes32_bounds:
  assumes "is_bytes32 k"
  shows "MIN_KEY \<le> k \<and> k \<le> MAX_KEY"
proof -
  from assms obtain ds where k: "k = ''0x'' @ ds" "length ds = 64" and hex: "list_all hex_digit ds"
    unfolding is_bytes32_def by (metis append_take_drop_id length_drop diff_add_inverse2
        numeral_plus_numeral add_num_simps)
  have lo: "list_all (\<lambda>d. CHR ''0'' \<le> d) ds" and hi: "list_all (\<lambda>d. d \<le> CHR ''f'') ds"
    using hex by (auto simp: list_all_iff hex_digit_def Let_def char_le_iff)
  from replicate_le(1) [OF lo] replicate_le(2) [OF hi]
  have "replicate 64 CHR ''0'' \<le> ds" "ds \<le> replicate 64 CHR ''f''"
    by (simp_all only: k(2))
  then show ?thesis
    unfolding MIN_KEY_def MAX_KEY_def k(1) by simp
qed

lemma canonical_key: "is_bytes32 k \<Longrightarrow> lower k = k \<Longrightarrow> canonicalBytes32 k = Some k"
  by (simp add: canonicalBytes32_def)

lemma sentinel_keys:
  "is_bytes32 MIN_KEY" "lower MIN_KEY = MIN_KEY" "is_bytes32 MAX_KEY" "lower MAX_KEY = MAX_KEY"
  by (simp_all add: MIN_KEY_def MAX_KEY_def is_bytes32_def hex_digit_def lower_char_def
      list_all_length)

lemma sentinel_mark: "is_bytes32 SENTINEL_MARK"
  using sentinel_keys(1) unfolding MIN_KEY_def SENTINEL_MARK_def .

lemma subjectKey_Inr:
  assumes "ethers_ok E" "subjectKey E ns s = Inr k"
  shows "is_bytes32 k \<and> lower k = k"
  using assms by (auto simp: subjectKey_def bindE_Inr_iff ethers_okD)

lemma with_keys_subject:
  "with_keys E ns entries = Inr xs \<Longrightarrow>
     map fst xs = entries \<and> (\<forall>x \<in> set xs. subjectKey E ns (re_subject (fst x)) = Inr (snd x))"
  unfolding with_keys_def mapE_Inr_iff
  by (induction rule: list_all2_induct) (auto simp: bindE_Inr_iff)

lemma rt_keys_strict:
  assumes "ethers_ok E" "buildRoster E ns entries = Inr t"
  shows "sorted_wrt (<) (rt_keys t)"
    and "\<forall>k \<in> set (rt_keys t). is_bytes32 k \<and> lower k = k"
proof -
  from assms(2) obtain xs where xs: "with_keys E ns entries = Inr xs"
    "first_duplicate (sort_key snd xs) = None" "first_sentinel (sort_key snd xs) = None"
    "rt_keys t = [MIN_KEY] @ map snd (sort_key snd xs) @ [MAX_KEY]"
    by (auto simp: buildRoster_Inr)
  have keys: "is_bytes32 k \<and> lower k = k" if "k \<in> snd ` set xs" for k
    using that with_keys_subject [OF xs(1)] subjectKey_Inr [OF assms(1)] by blast
  have neq: "k \<noteq> MIN_KEY \<and> k \<noteq> MAX_KEY" if "k \<in> snd ` set xs" for k
    using xs(3) that by (auto simp: first_sentinel_def find_None_iff)
  have "sorted_wrt (<) (map snd (sort_key snd xs))"
    using xs(2) by (intro sorted_adj_strict) (simp_all add: first_duplicate_None)
  moreover have "MIN_KEY < k \<and> k < MAX_KEY" if "k \<in> snd ` set xs" for k
    using keys [OF that] neq [OF that] bytes32_bounds [of k] by auto
  moreover have "MIN_KEY < MAX_KEY"
    using bytes32_bounds [OF sentinel_keys(1)]
    by (simp add: order.strict_iff_order) (simp add: MIN_KEY_def MAX_KEY_def)
  ultimately show "sorted_wrt (<) (rt_keys t)"
    by (auto simp: xs(4) sorted_wrt_append)
  show "\<forall>k \<in> set (rt_keys t). is_bytes32 k \<and> lower k = k"
    using keys sentinel_keys by (auto simp: xs(4))
qed

lemma rt_lengths:
  assumes "buildRoster E ns entries = Inr t"
  shows "length (rt_keys t) = length entries + 2" "length (rt_marks t) = length entries + 2"
    and "length (rt_leaves t) = length entries + 2"
proof -
  from assms obtain xs ms where xs: "with_keys E ns entries = Inr xs"
    "rt_entries t = map fst (sort_key snd xs)"
    "rt_keys t = [MIN_KEY] @ map snd (sort_key snd xs) @ [MAX_KEY]"
    "mapE (markHash E) (rt_entries t) = Inr ms" "rt_marks t = [SENTINEL_MARK] @ ms @ [SENTINEL_MARK]"
    "mapE (\<lambda>(k, m). leafOf E k m) (zip (rt_keys t) (rt_marks t)) = Inr (rt_leaves t)"
    by (auto simp: buildRoster_Inr)
  have "length xs = length entries"
    using with_keys_subject [OF xs(1)] by (metis length_map)
  then show "length (rt_keys t) = length entries + 2" "length (rt_marks t) = length entries + 2"
    "length (rt_leaves t) = length entries + 2"
    using mapE_length [OF xs(4)] mapE_length [OF xs(6)] xs(2,3,5) by simp_all
qed

lemma rt_leaf:
  assumes "buildRoster E ns entries = Inr t" "i < length (rt_leaves t)"
  shows "leafOf E (rt_keys t ! i) (rt_marks t ! i) = Inr (rt_leaves t ! i)"
proof -
  from assms(1) have m: "mapE (\<lambda>(k, m). leafOf E k m) (zip (rt_keys t) (rt_marks t)) = Inr (rt_leaves t)"
    by (auto simp: buildRoster_Inr)
  have i: "i < length (zip (rt_keys t) (rt_marks t))"
    using assms rt_lengths [OF assms(1)] by simp
  from mapE_nth [OF m i] i show ?thesis by simp
qed

subsection \<open>When a roster can be built\<close>

definition entry_ok :: "ethers \<Rightarrow> roster_entry \<Rightarrow> bool" where
  "entry_ok E e \<longleftrightarrow> e_getAddress E (re_subject e) \<noteq> None \<and> e_getAddress E (re_issuer e) \<noteq> None
     \<and> e_bytes32 E (re_attrs e) \<and> e_bytes32 E (re_claimsRoot e) \<and> e_bytes32 E (re_evidenceHash e)"

definition entry_key :: "ethers \<Rightarrow> string \<Rightarrow> roster_entry \<Rightarrow> hex" where
  "entry_key E ns e = e_abi E [AbiString ns, AbiAddress (the (e_getAddress E (re_subject e)))]"

lemma with_keys_eq:
  "(\<forall>e \<in> set entries. e_getAddress E (re_subject e) \<noteq> None) \<Longrightarrow>
     with_keys E ns entries = Inr (map (\<lambda>e. (e, entry_key E ns e)) entries)"
  unfolding with_keys_def
  by (induction entries) (auto simp: subjectKey_def get_address_def entry_key_def)

lemma with_keys_addresses:
  "with_keys E ns entries = Inr xs \<Longrightarrow> \<forall>e \<in> set entries. e_getAddress E (re_subject e) \<noteq> None"
  unfolding with_keys_def mapE_Inr_iff
  by (induction rule: list_all2_induct)
    (auto simp: bindE_Inr_iff subjectKey_def get_address_def split: option.splits)

lemma markHash_ok: "ethers_ok E \<Longrightarrow> entry_ok E e \<Longrightarrow> \<exists>m. markHash E e = Inr m \<and> e_bytes32 E m"
  by (auto simp: entry_ok_def markHash_def get_address_def ethers_okD)

lemma markHash_entry: "markHash E e = Inr m \<Longrightarrow> e_getAddress E (re_issuer e) \<noteq> None
     \<and> e_bytes32 E (re_attrs e) \<and> e_bytes32 E (re_claimsRoot e) \<and> e_bytes32 E (re_evidenceHash e)"
  by (auto simp: markHash_def get_address_def bindE_Inr_iff split: option.splits if_splits)

lemma mapE_total:
  "(\<And>x. x \<in> set xs \<Longrightarrow> \<exists>y. f x = Inr y \<and> P y) \<Longrightarrow> \<exists>ys. mapE f xs = Inr ys \<and> list_all P ys"
proof (induction xs)
  case (Cons x xs)
  have "\<exists>y. f x = Inr y \<and> P y" by (rule Cons.prems) simp
  then obtain y where y: "f x = Inr y" "P y" by blast
  have "\<exists>ys. mapE f xs = Inr ys \<and> list_all P ys"
    by (rule Cons.IH) (rule Cons.prems, simp)
  then obtain ys where ys: "mapE f xs = Inr ys" "list_all P ys" by blast
  show ?case by (rule exI [of _ "y # ys"]) (use y ys in simp)
qed simp

lemma leaves_total:
  assumes "ethers_ok E" "list_all (e_bytes32 E) ks" "list_all (e_bytes32 E) ms"
  shows "\<exists>ls. mapE (\<lambda>(k, m). leafOf E k m) (zip ks ms) = Inr ls \<and> list_all (e_bytes32 E) ls"
proof (rule mapE_total)
  fix x assume x: "x \<in> set (zip ks ms)"
  obtain k m where km: "x = (k, m)" by fastforce
  from x have "k \<in> set ks" unfolding km by (rule set_zip_leftD)
  moreover from x have "m \<in> set ms" unfolding km by (rule set_zip_rightD)
  ultimately have "e_bytes32 E k" "e_bytes32 E m"
    using assms(2,3) by (simp_all add: list_all_iff)
  then show "\<exists>y. (case x of (k, m) \<Rightarrow> leafOf E k m) = Inr y \<and> e_bytes32 E y"
    by (simp add: km leafOf_def packed_hash_def ethers_okD [OF assms(1)])
qed

lemma next_layer_total:
  "ethers_ok E \<Longrightarrow> list_all (e_bytes32 E) xs \<Longrightarrow>
     \<exists>ys. next_layer E xs = Inr ys \<and> list_all (e_bytes32 E) ys"
  by (induction E xs rule: next_layer.induct)
    (auto simp: hashNode_def packed_hash_def ethers_okD)

lemma roster_layers_total:
  "ethers_ok E \<Longrightarrow> list_all (e_bytes32 E) cur \<Longrightarrow>
     \<exists>ls. roster_layers E cur = Inr ls \<and> list_all (list_all (e_bytes32 E)) ls"
proof (induction "length cur" arbitrary: cur rule: less_induct)
  case less
  show ?case
  proof (cases "length cur \<le> 1")
    case True
    with less.prems show ?thesis by (simp add: roster_layers_base)
  next
    case False
    from next_layer_total [OF less.prems] obtain nxt where
      n: "next_layer E cur = Inr nxt" "list_all (e_bytes32 E) nxt" by blast
    have "length nxt < length cur" using length_next_layer [OF n(1)] False by simp
    from less.hyps [OF this less.prems(1) n(2)] n(1) less.prems(2) False show ?thesis
      by (auto simp: roster_layers_step not_le)
  qed
qed

lemma roster_root_total:
  assumes ok: "ethers_ok E" and leaves: "list_all (e_bytes32 E) leaves" "2 \<le> length leaves"
    and safe: "int (length leaves) \<le> max_safe"
  shows "\<exists>layers root. roster_layers E leaves = Inr layers
     \<and> rosterRoot E (hd (last layers)) (int (length leaves)) = Inr root"
proof -
  from roster_layers_total [OF ok leaves(1)] obtain ls where
    ls: "roster_layers E leaves = Inr ls" "list_all (list_all (e_bytes32 E)) ls" by blast
  have "last ls \<noteq> []" using roster_layers_top [OF ls(1)] leaves(2) by force
  moreover have "ls \<noteq> []" using roster_layers_hd [OF ls(1)] by blast
  ultimately have "e_bytes32 E (hd (last ls))"
    using ls(2) by (metis last_in_set list.set_sel(1) list_all_iff)
  with ls(1) leaves(2) safe show ?thesis
    by (auto simp: rosterRoot_def packed_hash_def is_safe_def max_safe_def)
qed

lemma distinct_adj_if_distinct: "distinct xs \<Longrightarrow> distinct_adj xs"
proof (induction xs)
  case (Cons x xs)
  then show ?case by (cases xs) auto
qed simp

lemma distinct_adj_sort_key:
  "distinct_adj (map snd (sort_key snd xs)) \<longleftrightarrow> distinct (map snd (xs :: ('a \<times> 'k :: linorder) list))"
proof -
  have "distinct (map snd (sort_key snd xs)) \<longleftrightarrow> distinct (map snd xs)"
    by (metis mset_map mset_sort mset_eq_imp_distinct_iff)
  moreover have "sorted (map snd (sort_key snd xs))" by simp
  ultimately show ?thesis
    by (metis sorted_adj_strict strict_sorted_iff distinct_adj_if_distinct)
qed

theorem buildRoster_iff:
  assumes ok: "ethers_ok E"
  shows "(\<exists>t. buildRoster E ns entries = Inr t) \<longleftrightarrow>
     (\<forall>e \<in> set entries. entry_ok E e \<and> entry_key E ns e \<noteq> MIN_KEY \<and> entry_key E ns e \<noteq> MAX_KEY)
     \<and> distinct (map (entry_key E ns) entries) \<and> int (length entries) + 2 \<le> max_safe"
    (is "?L \<longleftrightarrow> ?R")
proof
  assume ?L
  then obtain t where t: "buildRoster E ns entries = Inr t" ..
  from t obtain xs ms where xs: "with_keys E ns entries = Inr xs"
    "first_duplicate (sort_key snd xs) = None" "first_sentinel (sort_key snd xs) = None"
    "rt_entries t = map fst (sort_key snd xs)" "mapE (markHash E) (rt_entries t) = Inr ms"
    "rosterRoot E (hd (last (rt_layers t))) (int (length (rt_leaves t))) = Inr (rt_root t)"
    by (auto simp: buildRoster_Inr)
  note keys = with_keys_eq [OF with_keys_addresses [OF xs(1)], of ns]
  then have x: "xs = map (\<lambda>e. (e, entry_key E ns e)) entries" using xs(1) by simp
  have "set (rt_entries t) = set entries" using xs(4) x by (simp add: image_image)
  moreover have "\<forall>e \<in> set (rt_entries t). \<exists>m. markHash E e = Inr m"
    using mapE_nth [OF xs(5)] by (metis in_set_conv_nth)
  ultimately have "\<forall>e \<in> set entries. entry_ok E e"
    using with_keys_addresses [OF xs(1)] markHash_entry unfolding entry_ok_def by blast
  moreover have "distinct (map (entry_key E ns) entries)"
    using xs(2) x distinct_adj_sort_key [of xs] by (simp add: first_duplicate_None comp_def)
  moreover have "\<forall>e \<in> set entries. entry_key E ns e \<noteq> MIN_KEY \<and> entry_key E ns e \<noteq> MAX_KEY"
    using xs(3) x by (auto simp: first_sentinel_def find_None_iff)
  moreover have "int (length entries) + 2 \<le> max_safe"
    using rosterRoot_Inr [OF xs(6)] rt_lengths [OF t] by (simp add: is_safe_def)
  ultimately show ?R by blast
next
  assume R: ?R
  let ?xs = "map (\<lambda>e. (e, entry_key E ns e)) entries"
  let ?ks = "[MIN_KEY] @ map snd (sort_key snd ?xs) @ [MAX_KEY]"
  have keys: "with_keys E ns entries = Inr ?xs"
    using R by (intro with_keys_eq) (auto simp: entry_ok_def)
  have dup: "first_duplicate (sort_key snd ?xs) = None"
    using R distinct_adj_sort_key [of ?xs] by (simp add: first_duplicate_None comp_def)
  have sen: "first_sentinel (sort_key snd ?xs) = None"
    using R by (auto simp: first_sentinel_def find_None_iff)
  have "\<exists>ms. mapE (markHash E) (map fst (sort_key snd ?xs)) = Inr ms \<and> list_all (e_bytes32 E) ms"
    using R by (intro mapE_total markHash_ok [OF ok]) auto
  then obtain ms where ms: "mapE (markHash E) (map fst (sort_key snd ?xs)) = Inr ms"
    "list_all (e_bytes32 E) ms" by blast
  let ?ms = "[SENTINEL_MARK] @ ms @ [SENTINEL_MARK]"
  have kb: "list_all (e_bytes32 E) ?ks" and mb: "list_all (e_bytes32 E) ?ms"
    using ms(2) sentinel_keys sentinel_mark
    by (auto simp: list_all_iff entry_key_def ethers_okD [OF ok])
  have "\<exists>ls. mapE (\<lambda>(k, m). leafOf E k m) (zip ?ks ?ms) = Inr ls \<and> list_all (e_bytes32 E) ls"
    by (rule leaves_total [OF ok kb mb])
  then obtain ls where ls: "mapE (\<lambda>(k, m). leafOf E k m) (zip ?ks ?ms) = Inr ls"
    "list_all (e_bytes32 E) ls" by blast
  have len: "length ls = length entries + 2"
    using mapE_length [OF ls(1)] mapE_length [OF ms(1)] by simp
  from roster_root_total [OF ok ls(2)] R len obtain layers root where
    "roster_layers E ls = Inr layers" "rosterRoot E (hd (last layers)) (int (length ls)) = Inr root"
    by auto
  with keys dup sen ms(1) ls(1) show ?L
    unfolding buildRoster_def Let_def by simp
qed

end
