(* ===== verification/RosterProps.thy ===== *)
theory RosterProps
  imports Roster
begin

text \<open>
  The properties of the roster tree, its interpretation as a commitment scheme, and the
  witness encoder of \<open>pipeline/roster-witness.ts\<close> with the record check of
  \<open>pipeline/roster-format.ts\<close>.
\<close>

subsection \<open>The roster tree as a commitment\<close>

lemma inclusionProof_Inr:
  "inclusionProof t i = Inr p \<longleftrightarrow> is_safe i \<and> 0 \<le> i \<and> i < int (length (rt_leaves t)) \<and>
     (\<exists>ss. sibling_path (rt_layers t) (nat i) = Inr ss \<and>
        p = \<lparr>ip_index = i, ip_leafCount = int (length (rt_leaves t)), ip_siblings = ss\<rparr>)"
  by (auto simp: inclusionProof_def bindE_Inr_iff)

lemma inclusion_complete:
  assumes t: "buildRoster E ns entries = Inr t" and i: "i < length (rt_leaves t)"
  shows "\<exists>p. inclusionProof t (int i) = Inr p \<and> ip_index p = int i
     \<and> ip_leafCount p = int (length (rt_leaves t)) \<and> length (ip_siblings p) = length (rt_layers t) - 1
     \<and> verifyInclusion E (rt_root t) (rt_leaves t ! i) p = Inr True"
proof -
  from t have layers: "roster_layers E (rt_leaves t) = Inr (rt_layers t)"
    and root: "rosterRoot E (hd (last (rt_layers t))) (int (length (rt_leaves t))) = Inr (rt_root t)"
    by (auto simp: buildRoster_Inr)
  from verify_path_complete [OF layers i] obtain ss where
    ss: "sibling_path (rt_layers t) i = Inr ss" "length ss = length (rt_layers t) - 1"
    "verify_path E (rt_leaves t ! i) i (length (rt_leaves t)) ss
       = Inr (Some (hd (last (rt_layers t)), 0, 1))" by blast
  let ?p = "\<lparr>ip_index = int i, ip_leafCount = int (length (rt_leaves t)), ip_siblings = ss\<rparr>"
  have n: "is_safe (int (length (rt_leaves t)))" "2 \<le> length (rt_leaves t)"
    using rosterRoot_Inr [OF root] by auto
  then have "length (rt_leaves t) \<le> 2 ^ 53"
    by (simp add: is_safe_def max_safe_def)
  from roster_layers_depth [OF layers this] ss(2) have "length ss \<le> 256" by simp
  moreover have "is_safe (int i)" using n(1) i by (simp add: is_safe_def max_safe_def)
  ultimately have "inclusionProof t (int i) = Inr ?p"
    "verifyInclusion E (rt_root t) (rt_leaves t ! i) ?p = Inr True"
    using i n ss(1,3) root by (simp_all add: inclusionProof_Inr verifyInclusion_True)
  with ss(2) show ?thesis by (intro exI [of _ ?p]) simp
qed

interpretation roster: commitment
  "\<lambda>t. \<exists>entries. buildRoster E ns entries = Inr t" rt_root rt_leaves
  "\<lambda>t i. inclusionProof t (int i)" "verifyInclusion E" for E ns
proof unfold_locales
  fix t :: roster_tree and i
  assume t: "\<exists>entries. buildRoster E ns entries = Inr t" and i: "i < length (rt_leaves t)"
  show "\<exists>p. inclusionProof t (int i) = Inr p"
    using t i inclusion_complete by blast
  fix p assume "inclusionProof t (int i) = Inr p"
  with t i show "verifyInclusion E (rt_root t) (rt_leaves t ! i) p = Inr True"
    using inclusion_complete by fastforce
qed

subsection \<open>Non-inclusion\<close>

lemma find_index_Some:
  "find_index P xs = Some i \<longleftrightarrow> i < length xs \<and> P (xs ! i) \<and> (\<forall>j < i. \<not> P (xs ! j))"
proof (induction xs arbitrary: i)
  case (Cons x xs)
  then show ?case
    by (cases i) (auto simp: less_Suc_eq_0_disj)
qed simp

lemma find_index_None: "find_index P xs = None \<longleftrightarrow> (\<forall>x \<in> set xs. \<not> P x)"
  by (induction xs) auto

text \<open>A target that is no key lies in exactly one gap between adjacent keys.\<close>

lemma gap_exists:
  assumes "ethers_ok E" "buildRoster E ns entries = Inr t" "is_bytes32 tk" "tk \<notin> set (rt_keys t)"
  obtains hi where "find_index (\<lambda>k. k > tk) (rt_keys t) = Some hi" "0 < hi"
    "hi < length (rt_keys t)" "rt_keys t ! (hi - 1) < tk" "tk < rt_keys t ! hi"
proof -
  from assms(2) have hd: "hd (rt_keys t) = MIN_KEY" "rt_keys t ! 0 = MIN_KEY"
    and last: "MAX_KEY \<in> set (rt_keys t)" "MIN_KEY \<in> set (rt_keys t)"
    by (auto simp: buildRoster_Inr)
  from bytes32_bounds [OF assms(3)] last assms(4) have b: "MIN_KEY < tk" "tk < MAX_KEY"
    by (metis order.strict_iff_order)+
  then obtain hi where hi: "find_index (\<lambda>k. k > tk) (rt_keys t) = Some hi"
    using last(1) by (cases "find_index (\<lambda>k. k > tk) (rt_keys t)") (auto simp: find_index_None)
  then have h: "hi < length (rt_keys t)" "tk < rt_keys t ! hi" "\<forall>j < hi. \<not> tk < rt_keys t ! j"
    by (auto simp: find_index_Some)
  have "hi \<noteq> 0" using h(2) hd(2) b(1) by (metis order.asym)
  moreover from this h(3) have "rt_keys t ! (hi - 1) \<le> tk" by (simp add: not_less)
  moreover have "rt_keys t ! (hi - 1) \<in> set (rt_keys t)" using h(1) by simp
  ultimately have "rt_keys t ! (hi - 1) < tk" using assms(4) by (metis order.strict_iff_order)
  with that hi h \<open>hi \<noteq> 0\<close> show ?thesis by blast
qed

lemma non_inclusion_complete:
  assumes ok: "ethers_ok E" and t: "buildRoster E ns entries = Inr t"
    and tk: "subjectKey E ns target = Inr tk" "tk \<notin> set (rt_keys t)"
  shows "\<exists>p. nonInclusionProof E ns t target = Inr p
     \<and> verifyNonInclusion E ns (rt_root t) target p = Inr True"
proof -
  have b32: "is_bytes32 tk" using subjectKey_Inr [OF ok tk(1)] by simp
  from gap_exists [OF ok t b32 tk(2)] obtain hi where hi: "find_index (\<lambda>k. k > tk) (rt_keys t) = Some hi"
    "0 < hi" "hi < length (rt_keys t)" "rt_keys t ! (hi - 1) < tk" "tk < rt_keys t ! hi" .
  let ?lo = "hi - 1"
  have len: "hi < length (rt_leaves t)" "?lo < length (rt_leaves t)"
    using rt_lengths [OF t] hi(3) by simp_all
  from inclusion_complete [OF t len(2)] obtain l where l: "inclusionProof t (int ?lo) = Inr l"
    "ip_index l = int ?lo" "ip_leafCount l = int (length (rt_leaves t))"
    "length (ip_siblings l) = length (rt_layers t) - 1"
    "verifyInclusion E (rt_root t) (rt_leaves t ! ?lo) l = Inr True" by blast
  from inclusion_complete [OF t len(1)] obtain r where r: "inclusionProof t (int hi) = Inr r"
    "ip_index r = int hi" "ip_leafCount r = int (length (rt_leaves t))"
    "length (ip_siblings r) = length (rt_layers t) - 1"
    "verifyInclusion E (rt_root t) (rt_leaves t ! hi) r = Inr True" by blast
  let ?p = "\<lparr>np_left = l, np_leftKey = rt_keys t ! ?lo, np_leftMark = rt_marks t ! ?lo,
     np_right = r, np_rightKey = rt_keys t ! hi, np_rightMark = rt_marks t ! hi\<rparr>"
  have "canonicalBytes32 (rt_keys t ! ?lo) = Some (rt_keys t ! ?lo)"
    "canonicalBytes32 (rt_keys t ! hi) = Some (rt_keys t ! hi)"
    using rt_keys_strict(2) [OF ok t] hi(2,3) by (auto intro!: canonical_key)
  then have "verifyNonInclusion E ns (rt_root t) target ?p = Inr True"
    using tk(1) hi(2,4,5) l r rt_leaf [OF t len(1)] rt_leaf [OF t len(2)]
    by (simp add: verifyNonInclusion_def)
  moreover have "nonInclusionProof E ns t target = Inr ?p"
    using tk hi l(1) r(1) by (simp add: nonInclusionProof_def Let_def)
  ultimately show ?thesis by blast
qed

definition non_inclusion_preimages :: "ethers \<Rightarrow> non_inclusion_proof \<Rightarrow> packed list list" where
  "non_inclusion_preimages E p =
     (let l = leaf_pre (lower (np_leftKey p)) (np_leftMark p);
          r = leaf_pre (lower (np_rightKey p)) (np_rightMark p)
      in [l, r] @ inclusion_preimages E (e_keccak E l) (np_left p)
           @ inclusion_preimages E (e_keccak E r) (np_right p))"

lemma rt_leaf_key:
  assumes t: "buildRoster E ns entries = Inr t"
    and nocoll: "no_collision E (tree_preimages t @ leaf_pre k m # inclusion_preimages E leaf p)"
    and leaf: "leafOf E k m = Inr leaf" and v: "verifyInclusion E (rt_root t) leaf p = Inr True"
  shows "\<exists>i < length (rt_keys t). ip_index p = int i \<and> same k (rt_keys t ! i) \<and> same m (rt_marks t ! i)"
proof -
  from t have layers: "roster_layers E (rt_leaves t) = Inr (rt_layers t)"
    and root: "rosterRoot E (hd (last (rt_layers t))) (int (length (rt_leaves t))) = Inr (rt_root t)"
    by (auto simp: buildRoster_Inr)
  have sub: "no_collision E (concat (map layer_preimages (butlast (rt_layers t)))
      @ [root_pre (hd (last (rt_layers t))) (int (length (rt_leaves t)))] @ inclusion_preimages E leaf p)"
    by (rule no_collision_subset [OF nocoll]) (auto simp: tree_preimages_def)
  define i where "i = nat (ip_index p)"
  from verifyInclusion_sound [OF layers root v sub] have i: "ip_index p = int i"
    "i < length (rt_leaves t)" "same leaf (rt_leaves t ! i)"
    by (auto simp: i_def)
  note len = rt_lengths [OF t]
  have "leaf_pre (rt_keys t ! i) (rt_marks t ! i) \<in> set (tree_preimages t)"
    using i(2) len by (force simp: tree_preimages_def set_zip)
  then have "map norm_packed (leaf_pre k m) = map norm_packed (leaf_pre (rt_keys t ! i) (rt_marks t ! i))"
    using i(3) leafOf_Inr [OF leaf] leafOf_Inr [OF rt_leaf [OF t i(2)]]
    by (intro no_collisionD [OF nocoll]) auto
  with i len show ?thesis by auto
qed

lemma strict_gap:
  assumes "sorted_wrt (<) ks" "Suc i < length ks" "ks ! i < x" "x < ks ! Suc i"
  shows "x \<notin> set (ks :: 'a :: linorder list)"
proof
  assume "x \<in> set ks"
  then obtain j where j: "j < length ks" "x = ks ! j" by (auto simp: in_set_conv_nth)
  show False
  proof (cases "j \<le> i")
    case True
    then have "ks ! j \<le> ks ! i"
      using assms(1,2) by (cases "j = i") (auto dest: sorted_wrt_nth_less [of "(<)" ks j i])
    with assms(3) j(2) show False by simp
  next
    case False
    then have "ks ! Suc i \<le> ks ! j"
      using assms(1) j(1) by (cases "j = Suc i") (auto dest: sorted_wrt_nth_less [of "(<)" ks "Suc i" j])
    with assms(4) j(2) show False by simp
  qed
qed

lemma non_inclusion_sound:
  assumes ok: "ethers_ok E" and t: "buildRoster E ns entries = Inr t"
    and nocoll: "no_collision E (tree_preimages t @ non_inclusion_preimages E p)"
    and v: "verifyNonInclusion E ns (rt_root t) target p = Inr True"
    and tk: "subjectKey E ns target = Inr tk"
  shows "tk \<notin> set (rt_keys t)"
proof -
  let ?lk = "lower (np_leftKey p)" and ?rk = "lower (np_rightKey p)"
  from v tk obtain ll rl where p: "?lk < tk" "tk < ?rk" "ip_index (np_right p) = ip_index (np_left p) + 1"
    "leafOf E ?lk (np_leftMark p) = Inr ll" "leafOf E ?rk (np_rightMark p) = Inr rl"
    "verifyInclusion E (rt_root t) ll (np_left p) = Inr True"
    "verifyInclusion E (rt_root t) rl (np_right p) = Inr True"
    by (auto simp: verifyNonInclusion_def canonicalBytes32_def bindE_Inr_iff split: if_splits)
  have ll: "ll = e_keccak E (leaf_pre ?lk (np_leftMark p))" "rl = e_keccak E (leaf_pre ?rk (np_rightMark p))"
    using leafOf_Inr p(4,5) by blast+
  have "no_collision E (tree_preimages t @ leaf_pre ?lk (np_leftMark p) # inclusion_preimages E ll (np_left p))"
    "no_collision E (tree_preimages t @ leaf_pre ?rk (np_rightMark p) # inclusion_preimages E rl (np_right p))"
    by (rule no_collision_subset [OF nocoll], auto simp: non_inclusion_preimages_def Let_def ll)+
  from rt_leaf_key [OF t this(1) p(4,6)] rt_leaf_key [OF t this(2) p(5,7)] obtain i j where
    ij: "i < length (rt_keys t)" "ip_index (np_left p) = int i" "same ?lk (rt_keys t ! i)"
    "j < length (rt_keys t)" "ip_index (np_right p) = int j" "same ?rk (rt_keys t ! j)" by blast
  have "lower (rt_keys t ! i) = rt_keys t ! i" "lower (rt_keys t ! j) = rt_keys t ! j"
    using rt_keys_strict(2) [OF ok t] ij(1,4) by simp_all
  then have "?lk = rt_keys t ! i" "?rk = rt_keys t ! j" and "j = Suc i"
    using ij p(3) by (simp_all add: same_def)
  with p(1,2) ij rt_keys_strict(1) [OF ok t] show ?thesis
    by (intro strict_gap [of "rt_keys t" i]) auto
qed

subsection \<open>Roster witnesses\<close>

record roster_record =
  rr_rosterFormatVersion :: "js_num option"
  rr_epochSchemaVersion :: "js_num option"
  rr_rosterAuthVersion :: "js_num option"
  rr_root :: hex
  rr_entries :: "roster_entry list"

definition assertRosterRecordVersion :: "roster_record \<Rightarrow> roster_error + unit" where
  "assertRosterRecordVersion r = requireE InvalidRosterRecord
     (rr_rosterFormatVersion r = Some (JInt ROSTER_FORMAT_VERSION)
      \<and> rr_epochSchemaVersion r = Some (JInt 2) \<and> rr_rosterAuthVersion r = Some (JInt 1))"

record roster_witness =
  rw_root :: hex
  rw_subject :: string
  rw_mark :: "hex \<times> hex \<times> hex \<times> string"
  rw_inclusion :: inclusion_proof

definition encodeRosterWitness :: "ethers \<Rightarrow> roster_record \<Rightarrow> string \<Rightarrow> roster_error + roster_witness" where
  "encodeRosterWitness E record subject =
     bindE (assertRosterRecordVersion record) (\<lambda>_.
     if e_getAddress E subject = None \<or> subject = ZeroAddress then Inl InvalidWitnessSubject else
     bindE (buildRoster E EVM_NAMESPACE (rr_entries record)) (\<lambda>tree.
     if \<not> same (rt_root tree) (rr_root record) then Inl RosterRootMismatch else
     case find_index (\<lambda>e. same (re_subject e) subject) (rt_entries tree) of
       None \<Rightarrow> Inl SubjectAbsent
     | Some i \<Rightarrow>
         let entry = rt_entries tree ! i in
         bindE (inclusionProof tree (leafIndexOf (int i))) (\<lambda>inclusion.
         bindE (get_address E subject) (\<lambda>a.
           Inr \<lparr>rw_root = rt_root tree, rw_subject = a,
                rw_mark = (re_attrs entry, re_claimsRoot entry, re_evidenceHash entry, re_issuer entry),
                rw_inclusion = inclusion\<rparr>))))"

lemma rt_entries_perm:
  assumes "buildRoster E ns entries = Inr t"
  shows "mset (rt_entries t) = mset entries" "length (rt_entries t) = length entries"
proof -
  from assms obtain xs where xs: "with_keys E ns entries = Inr xs"
    "rt_entries t = map fst (sort_key snd xs)" by (auto simp: buildRoster_Inr)
  then show m: "mset (rt_entries t) = mset entries"
    using with_keys_subject [OF xs(1)] by (metis mset_map mset_sort)
  then show "length (rt_entries t) = length entries" by (metis size_mset)
qed

lemma rt_entry_key:
  assumes "buildRoster E ns entries = Inr t" "i < length (rt_entries t)"
  shows "subjectKey E ns (re_subject (rt_entries t ! i)) = Inr (rt_keys t ! Suc i)"
proof -
  from assms obtain xs where xs: "with_keys E ns entries = Inr xs"
    "rt_entries t = map fst (sort_key snd xs)"
    "rt_keys t = [MIN_KEY] @ map snd (sort_key snd xs) @ [MAX_KEY]" by (auto simp: buildRoster_Inr)
  then have i: "i < length (sort_key snd xs)" using assms(2) by simp
  then have "sort_key snd xs ! i \<in> set xs" by (metis nth_mem set_sort)
  with with_keys_subject [OF xs(1)] xs(2,3) i show ?thesis by (simp add: nth_append)
qed

lemma rt_entry_leaf:
  assumes t: "buildRoster E ns entries = Inr t" and i: "i < length (rt_entries t)"
  shows "rosterLeaf E ns (rt_entries t ! i) = Inr (rt_leaves t ! Suc i)"
proof -
  from t obtain ms where ms: "mapE (markHash E) (rt_entries t) = Inr ms"
    "rt_marks t = [SENTINEL_MARK] @ ms @ [SENTINEL_MARK]" by (auto simp: buildRoster_Inr)
  have "markHash E (rt_entries t ! i) = Inr (rt_marks t ! Suc i)"
    using mapE_nth [OF ms(1) i] mapE_length [OF ms(1)] ms(2) i by (simp add: nth_append)
  moreover have "Suc i < length (rt_leaves t)"
    using i rt_lengths [OF t] rt_entries_perm [OF t] by simp
  ultimately show ?thesis
    using rt_leaf [OF t, of "Suc i"] rt_entry_key [OF t i] by (simp add: rosterLeaf_def)
qed

subsection \<open>A small roster for the witnesses\<close>

definition toy_abi :: "abi_val list \<Rightarrow> hex" where
  "toy_abi vs = (case vs of [AbiString _, AbiAddress a] \<Rightarrow> hex32 (int (length a)) | _ \<Rightarrow> hex32 7)"

definition toyE :: ethers where
  "toyE = toy_ethers toy_abi"

definition toy_entry :: roster_entry where
  "toy_entry = \<lparr>re_subject = ''ab'', re_attrs = ''x'', re_claimsRoot = ''y'',
     re_evidenceHash = ''z'', re_issuer = ''i''\<rparr>"

lemma toyE_ok: "ethers_ok toyE"
  unfolding toyE_def
  by (rule toy_ethers_ok) (auto simp: toy_abi_def hex32_canonical split: list.split abi_val.split)

lemma toyE_no_collision: "no_collision toyE ps"
  unfolding toyE_def by (rule toy_no_collision)

lemma hex32_inj: "hex32 a = hex32 b \<Longrightarrow> a \<in> {0..<2 ^ 256} \<Longrightarrow> b \<in> {0..<2 ^ 256} \<Longrightarrow> a = b"
  using hex32_ok unfolding be_hex_ok_def by (metis atLeastLessThan_iff)

lemma sentinel_hex32: "MIN_KEY = hex32 0" "MAX_KEY = hex32 (2 ^ 256 - 1)"
  by code_simp+

lemma toy_key: "subjectKey toyE ns a = Inr (hex32 (int (length a)))"
  by (simp add: subjectKey_def get_address_def toyE_def toy_ethers_def toy_abi_def)

lemma toy_roster: "\<exists>t. buildRoster toyE ns [toy_entry] = Inr t"
proof -
  have "entry_key toyE ns toy_entry = hex32 2"
    by (simp add: entry_key_def toyE_def toy_ethers_def toy_abi_def toy_entry_def)
  moreover have "hex32 2 \<noteq> MIN_KEY" "hex32 2 \<noteq> MAX_KEY"
    using hex32_inj [of 2 0] hex32_inj [of 2 "2 ^ 256 - 1"] by (auto simp: sentinel_hex32)
  ultimately show ?thesis
    by (simp add: buildRoster_iff [OF toyE_ok] entry_ok_def max_safe_def)
      (simp add: toyE_def toy_ethers_def)
qed

lemma toy_target:
  assumes "buildRoster toyE ns [toy_entry] = Inr t"
  shows "hex32 5 \<notin> set (rt_keys t)"
proof -
  have "hex32 5 \<noteq> MIN_KEY" "hex32 5 \<noteq> MAX_KEY" "hex32 5 \<noteq> hex32 2"
    using hex32_inj [of 5 0] hex32_inj [of 5 "2 ^ 256 - 1"] hex32_inj [of 5 2]
    by (auto simp: sentinel_hex32)
  moreover have "with_keys toyE ns [toy_entry] = Inr [(toy_entry, hex32 2)]"
    by (simp add: with_keys_def toy_key) (simp add: toy_entry_def)
  ultimately show ?thesis using assms by (auto simp: buildRoster_Inr)
qed

subsection \<open>Properties\<close>

text \<open>
  every entry of a built roster is provable: the tree holds the entry's leaf right after
  the lower sentinel, \<open>inclusionProof\<close> returns a proof for that position, and
  \<open>verifyInclusion\<close> accepts it against the root.
\<close>

theorem roster_entry_provable:
  assumes "buildRoster E ns entries = Inr t" and "e \<in> set entries"
  shows "\<exists>i leaf p. i < length entries \<and> rt_entries t ! i = e
     \<and> rosterLeaf E ns e = Inr leaf
     \<and> inclusionProof t (leafIndexOf (int i)) = Inr p
     \<and> verifyInclusion E (rt_root t) leaf p = Inr True"
proof -
  have "e \<in> set (rt_entries t)"
    using assms rt_entries_perm [OF assms(1)] by (metis set_mset_mset)
  then obtain i where i: "i < length (rt_entries t)" "rt_entries t ! i = e"
    by (auto simp: in_set_conv_nth)
  have "Suc i < length (rt_leaves t)"
    using i(1) rt_lengths [OF assms(1)] rt_entries_perm [OF assms(1)] by simp
  with roster.provable [of E ns t "Suc i"] assms(1) obtain p where
    "inclusionProof t (int (Suc i)) = Inr p"
    "verifyInclusion E (rt_root t) (rt_leaves t ! Suc i) p = Inr True" by blast
  moreover have "leafIndexOf (int i) = int (Suc i)" by (simp add: leafIndexOf_def)
  ultimately show ?thesis
    using i rt_entry_leaf [OF assms(1) i(1)] rt_entries_perm [OF assms(1)] by metis
qed

theorem roster_entry_provable_witness:
  "\<exists>(t :: roster_tree) i leaf p. i < (1::nat) \<and> rt_entries t ! i = toy_entry
     \<and> rosterLeaf toyE EVM_NAMESPACE toy_entry = Inr leaf
     \<and> inclusionProof t (leafIndexOf (int i)) = Inr p
     \<and> verifyInclusion toyE (rt_root t) leaf p = Inr True"
proof -
  from toy_roster [of EVM_NAMESPACE] obtain t where t: "buildRoster toyE EVM_NAMESPACE [toy_entry] = Inr t" ..
  from roster_entry_provable [OF t, of toy_entry] show ?thesis by simp blast
qed

text \<open>
  C35: an accepted inclusion proof binds its leaf to its index: if the key and mark of the
  leaf hash to it and no two hashed preimages collide, the index is a position of the tree and
  the key and mark there are the presented ones.
\<close>

theorem roster_inclusion_binds:
  assumes "buildRoster E ns entries = Inr t"
    and "no_collision E (tree_preimages t @ leaf_pre k m # inclusion_preimages E leaf p)"
    and "leafOf E k m = Inr leaf" and "verifyInclusion E (rt_root t) leaf p = Inr True"
  shows "\<exists>i < length (rt_keys t). ip_index p = int i
     \<and> same k (rt_keys t ! i) \<and> same m (rt_marks t ! i)"
  using rt_leaf_key [OF assms] .

theorem roster_inclusion_binds_witness:
  "\<exists>(t :: roster_tree) leaf p. \<exists>i < length (rt_keys t). verifyInclusion toyE (rt_root t) leaf p = Inr True
     \<and> ip_index p = int i \<and> same (rt_keys t ! 0) (rt_keys t ! i)
     \<and> same (rt_marks t ! 0) (rt_marks t ! i)"
proof -
  from toy_roster [of EVM_NAMESPACE] obtain t where t: "buildRoster toyE EVM_NAMESPACE [toy_entry] = Inr t" ..
  have z: "0 < length (rt_leaves t)" using rt_lengths [OF t] by simp
  from inclusion_complete [OF t z] obtain p where
    p: "verifyInclusion toyE (rt_root t) (rt_leaves t ! 0) p = Inr True" by blast
  from roster_inclusion_binds [OF t toyE_no_collision rt_leaf [OF t z] p] p show ?thesis
    by (intro exI [of _ t] exI [of _ "rt_leaves t ! 0"] exI [of _ p]) auto
qed

text \<open>
  for a target that is not on the roster, \<open>nonInclusionProof\<close> produces a gap between
  two adjacent leaves and \<open>verifyNonInclusion\<close> accepts it; a target that is on the roster
  is refused.
\<close>

theorem roster_non_inclusion_decides:
  assumes "ethers_ok E" and "buildRoster E ns entries = Inr t" and "subjectKey E ns target = Inr tk"
  shows "if tk \<in> set (rt_keys t) then nonInclusionProof E ns t target = Inl TargetInRoster
     else \<exists>p. nonInclusionProof E ns t target = Inr p
        \<and> verifyNonInclusion E ns (rt_root t) target p = Inr True"
  using non_inclusion_complete [OF assms(1,2,3)] assms(3) by (simp add: nonInclusionProof_def)

theorem roster_non_inclusion_decides_witness:
  "\<exists>t p. nonInclusionProof toyE EVM_NAMESPACE t ''abcde'' = Inr p
        \<and> verifyNonInclusion toyE EVM_NAMESPACE (rt_root t) ''abcde'' p = Inr True"
proof -
  from toy_roster [of EVM_NAMESPACE] obtain t where t: "buildRoster toyE EVM_NAMESPACE [toy_entry] = Inr t" ..
  have "subjectKey toyE EVM_NAMESPACE ''abcde'' = Inr (hex32 5)" by (simp add: toy_key)
  from roster_non_inclusion_decides [OF toyE_ok t this] toy_target [OF t] show ?thesis by auto
qed

text \<open>
  C3: an accepted gap proof excludes its target: when no two hashed preimages collide, no
  entry of the roster has the target's subject key, whatever proof is presented.
\<close>

theorem roster_non_inclusion_excludes:
  assumes "ethers_ok E" and "buildRoster E ns entries = Inr t"
    and "no_collision E (tree_preimages t @ non_inclusion_preimages E p)"
    and "verifyNonInclusion E ns (rt_root t) target p = Inr True"
  shows "\<not> (\<exists>e. e \<in> set entries \<and> subjectKey E ns (re_subject e) = subjectKey E ns target)"
proof
  assume "\<exists>e. e \<in> set entries \<and> subjectKey E ns (re_subject e) = subjectKey E ns target"
  then obtain e where e: "e \<in> set entries" "subjectKey E ns (re_subject e) = subjectKey E ns target"
    by blast
  then have "e \<in> set (rt_entries t)" using rt_entries_perm [OF assms(2)] by (metis set_mset_mset)
  then obtain i where i: "i < length (rt_entries t)" "rt_entries t ! i = e"
    by (auto simp: in_set_conv_nth)
  from rt_entry_key [OF assms(2) i(1)] i e have tk: "subjectKey E ns target = Inr (rt_keys t ! Suc i)"
    by simp
  have "rt_keys t ! Suc i \<in> set (rt_keys t)"
    using i rt_lengths [OF assms(2)] rt_entries_perm [OF assms(2)] by simp
  with non_inclusion_sound [OF assms tk] show False by blast
qed

theorem roster_non_inclusion_excludes_witness:
  "\<not> (\<exists>e. e \<in> set [toy_entry] \<and>
      subjectKey toyE EVM_NAMESPACE (re_subject e) = subjectKey toyE EVM_NAMESPACE ''abcde'')"
proof -
  from toy_roster [of EVM_NAMESPACE] obtain t where t: "buildRoster toyE EVM_NAMESPACE [toy_entry] = Inr t" ..
  have tk: "subjectKey toyE EVM_NAMESPACE ''abcde'' = Inr (hex32 5)" by (simp add: toy_key)
  from non_inclusion_complete [OF toyE_ok t tk toy_target [OF t]] obtain p where
    "verifyNonInclusion toyE EVM_NAMESPACE (rt_root t) ''abcde'' p = Inr True" by blast
  from roster_non_inclusion_excludes [OF toyE_ok t toyE_no_collision this] show ?thesis .
qed

text \<open>
  C36: \<open>buildRoster\<close> succeeds exactly on the lists whose entries the encoders accept, whose
  subject keys are pairwise different and different from the sentinels, and whose leaf count is
  a safe integer.
\<close>

theorem roster_build_succeeds_iff:
  assumes "ethers_ok E"
  shows "(\<exists>t. buildRoster E ns entries = Inr t) \<longleftrightarrow>
     list_all (\<lambda>e. entry_ok E e \<and> entry_key E ns e \<noteq> MIN_KEY \<and> entry_key E ns e \<noteq> MAX_KEY) entries
     \<and> distinct (map (entry_key E ns) entries) \<and> int (length entries) + 2 \<le> max_safe"
  using buildRoster_iff [OF assms] by (simp add: list_all_iff)

theorem roster_build_succeeds_iff_witness:
  "(\<exists>t. buildRoster toyE EVM_NAMESPACE [toy_entry, toy_entry] = Inr t) \<longleftrightarrow> False"
  using roster_build_succeeds_iff [OF toyE_ok, of EVM_NAMESPACE "[toy_entry, toy_entry]"] by simp

text \<open>
  a witness that \<open>encodeRosterWitness\<close> emits carries the mark of a recorded entry of the
  requested subject and an inclusion proof that verifies for that entry's leaf against the
  recorded root.
\<close>

theorem roster_witness_verifies:
  assumes "encodeRosterWitness E record subject = Inr w"
  shows "\<exists>e leaf. e \<in> set (rr_entries record) \<and> same (re_subject e) subject
     \<and> rw_mark w = (re_attrs e, re_claimsRoot e, re_evidenceHash e, re_issuer e)
     \<and> rosterLeaf E EVM_NAMESPACE e = Inr leaf
     \<and> verifyInclusion E (rw_root w) leaf (rw_inclusion w) = Inr True
     \<and> same (rw_root w) (rr_root record)"
proof -
  from assms obtain t i p a where t: "buildRoster E EVM_NAMESPACE (rr_entries record) = Inr t"
    and r: "same (rt_root t) (rr_root record)"
    and f: "find_index (\<lambda>e. same (re_subject e) subject) (rt_entries t) = Some i"
    and p: "inclusionProof t (leafIndexOf (int i)) = Inr p"
    and w: "rw_root w = rt_root t" "rw_inclusion w = p"
      "rw_mark w = (re_attrs (rt_entries t ! i), re_claimsRoot (rt_entries t ! i),
         re_evidenceHash (rt_entries t ! i), re_issuer (rt_entries t ! i))"
    by (auto simp: encodeRosterWitness_def bindE_Inr_iff Let_def split: if_splits option.splits)
  from f have i: "i < length (rt_entries t)" "same (re_subject (rt_entries t ! i)) subject"
    by (simp_all add: find_index_Some)
  have "Suc i < length (rt_leaves t)"
    using i(1) rt_lengths [OF t] rt_entries_perm [OF t] by simp
  moreover have "inclusionProof t (int (Suc i)) = Inr p" using p by (simp add: leafIndexOf_def add.commute)
  ultimately have "verifyInclusion E (rt_root t) (rt_leaves t ! Suc i) p = Inr True"
    using roster.prove_verifies [of E EVM_NAMESPACE t "Suc i" p] t by blast
  moreover have "rt_entries t ! i \<in> set (rr_entries record)"
    using i(1) rt_entries_perm [OF t] by (metis nth_mem set_mset_mset)
  ultimately show ?thesis
    using i(2) r w rt_entry_leaf [OF t i(1)] by auto
qed

theorem roster_witness_verifies_witness:
  "\<exists>(w :: roster_witness) e leaf. e \<in> set [toy_entry] \<and> same (re_subject e) ''ab''
     \<and> rw_mark w = (re_attrs e, re_claimsRoot e, re_evidenceHash e, re_issuer e)
     \<and> rosterLeaf toyE EVM_NAMESPACE e = Inr leaf
     \<and> verifyInclusion toyE (rw_root w) leaf (rw_inclusion w) = Inr True"
proof -
  from toy_roster [of EVM_NAMESPACE] obtain t where t: "buildRoster toyE EVM_NAMESPACE [toy_entry] = Inr t" ..
  have one: "rt_entries t = [toy_entry]"
    using rt_entries_perm [OF t] by (cases "rt_entries t") auto
  have len: "1 < length (rt_leaves t)" using rt_lengths [OF t] by simp
  from inclusion_complete [OF t len] obtain p where p: "inclusionProof t 1 = Inr p" by auto
  let ?r = "\<lparr>rr_rosterFormatVersion = Some (JInt 2), rr_epochSchemaVersion = Some (JInt 2),
     rr_rosterAuthVersion = Some (JInt 1), rr_root = rt_root t, rr_entries = [toy_entry]\<rparr>"
  have "\<exists>w. encodeRosterWitness toyE ?r ''ab'' = Inr w"
    using t p by (simp add: encodeRosterWitness_def assertRosterRecordVersion_def one
        leafIndexOf_def ROSTER_FORMAT_VERSION_def ZeroAddress_def Let_def requireE_def)
      (simp add: toyE_def toy_ethers_def get_address_def toy_entry_def)
  then obtain w where w: "encodeRosterWitness toyE ?r ''ab'' = Inr w" ..
  from roster_witness_verifies [OF w] show ?thesis by simp blast
qed

end
