(* ===== verification/Evidence.thy ===== *)
theory Evidence
  imports Ethers
begin

text \<open>
  The evidence of an issuance: the deterministic serialisation of \<open>pipeline/canonical.ts\<close> and
  the append-only hash chain of \<open>pipeline/evidence.ts\<close>. A JavaScript value is a \<open>json\<close>; an
  object is the list of its properties in enumeration order, with distinct keys none of which
  is an array index. Strings are their UTF-8 bytes. Fractions carry the text that
  \<open>JSON.stringify\<close> prints for them.
\<close>

subsection \<open>Values and their text\<close>

datatype json = JsUndefined | JsNull | JsBool bool | JsInt int | JsDec string | JsNonFinite | JsStr string
  | JsDate | JsArr "json list" | JsObj "(string \<times> json) list"

fun digits_of :: "nat \<Rightarrow> string" where
  "digits_of n = (if n < 10 then [char_of (48 + n)] else digits_of (n div 10) @ [char_of (48 + n mod 10)])"

declare digits_of.simps [simp del]

definition decimal :: "int \<Rightarrow> string" where
  "decimal n = (if n < 0 then CHR ''-'' # digits_of (nat (- n)) else digits_of (nat n))"

definition hex_char :: "nat \<Rightarrow> char" where
  "hex_char n = (if n < 10 then char_of (48 + n) else char_of (87 + n))"

definition escape :: "char \<Rightarrow> string" where
  "escape c = (let n = (of_char c :: nat) in
     if n = 34 then [CHR 0x5C, CHR 0x22] else if n = 92 then [CHR 0x5C, CHR 0x5C]
     else if n = 8 then CHR 0x5C # ''b'' else if n = 9 then CHR 0x5C # ''t'' else if n = 10 then CHR 0x5C # ''n''
     else if n = 12 then CHR 0x5C # ''f'' else if n = 13 then CHR 0x5C # ''r''
     else if n < 32 then CHR 0x5C # ''u00'' @ [hex_char (n div 16), hex_char (n mod 16)]
     else [c])"

definition quoted :: "string \<Rightarrow> string" where
  "quoted s = CHR 0x22 # concat (map escape s) @ [CHR 0x22]"

fun joined :: "string list \<Rightarrow> string" where
  "joined [] = []"
| "joined [s] = s"
| "joined (s # t # rest) = s @ CHR '','' # joined (t # rest)"

text \<open>\<open>JSON.stringify\<close>: undefined properties are dropped, undefined elements print as null.\<close>

fun stringify :: "json \<Rightarrow> string" where
  "stringify JsUndefined = ''null''"
| "stringify JsNull = ''null''"
| "stringify (JsBool b) = (if b then ''true'' else ''false'')"
| "stringify (JsInt n) = decimal n"
| "stringify (JsDec s) = s"
| "stringify JsNonFinite = ''null''"
| "stringify (JsStr s) = quoted s"
| "stringify JsDate = ''null''"
| "stringify (JsArr xs) = CHR ''['' # joined (map stringify xs) @ '']''"
| "stringify (JsObj kvs) =
     CHR ''{'' # joined (map (\<lambda>(k, v). quoted k @ CHR '':'' # stringify v) (filter (\<lambda>(k, v). v \<noteq> JsUndefined) kvs)) @ ''}''"

fun sortDeep :: "json \<Rightarrow> string + json" where
  "sortDeep JsNonFinite = Inl ''canonicalJson: non-finite numbers cannot go into evidence''"
| "sortDeep JsDate = Inl ''canonicalJson: use an epoch integer instead of a Date''"
| "sortDeep (JsArr xs) = bindE (mapE sortDeep xs) (\<lambda>ys. Inr (JsArr ys))"
| "sortDeep (JsObj kvs) =
     bindE (mapE (\<lambda>(k, v). bindE (sortDeep v) (\<lambda>w. Inr (k, w))) (sort_key fst kvs)) (\<lambda>ys. Inr (JsObj ys))"
| "sortDeep v = Inr v"

definition canonicalJson :: "json \<Rightarrow> string + string" where
  "canonicalJson v = bindE (sortDeep v) (\<lambda>w. Inr (stringify w))"

subsection \<open>The chain\<close>

record evidence_step =
  es_step :: string
  es_at :: int
  es_payload :: json

record evidence_chain =
  ec_steps :: "evidence_step list"
  ec_head :: hex

definition step_json :: "evidence_step \<Rightarrow> json" where
  "step_json s = JsObj [(''step'', JsStr (es_step s)), (''at'', JsInt (es_at s)), (''payload'', es_payload s)]"

definition zero_head :: hex where
  "zero_head = ''0x'' @ replicate 64 CHR ''0''"

definition new_chain :: evidence_chain where
  "new_chain = \<lparr>ec_steps = [], ec_head = zero_head\<rparr>"

definition link :: "ethers \<Rightarrow> hex \<Rightarrow> evidence_step \<Rightarrow> string + hex" where
  "link E head s = bindE (canonicalJson (step_json s)) (\<lambda>t. Inr (e_keccak E [Bytes32 head, Utf8 t]))"

text \<open>The step is pushed before it is serialised, so it stays in the list when that throws.\<close>

definition chain_append :: "ethers \<Rightarrow> evidence_step \<Rightarrow> evidence_chain \<Rightarrow> (evidence_chain, string, hex) st_res" where
  "chain_append E s c = (let c' = c\<lparr>ec_steps := ec_steps c @ [s]\<rparr> in
     case link E (ec_head c) s of Inl e \<Rightarrow> (Inl e, c') | Inr h \<Rightarrow> (Inr h, c'\<lparr>ec_head := h\<rparr>))"

fun recompute_from :: "ethers \<Rightarrow> hex \<Rightarrow> evidence_step list \<Rightarrow> string + hex" where
  "recompute_from E h [] = Inr h"
| "recompute_from E h (s # ss) = bindE (link E h s) (\<lambda>h'. recompute_from E h' ss)"

definition recompute :: "ethers \<Rightarrow> evidence_step list \<Rightarrow> string + hex" where
  "recompute E ss = recompute_from E zero_head ss"

fun append_all :: "ethers \<Rightarrow> evidence_step list \<Rightarrow> evidence_chain \<Rightarrow> (evidence_chain, string, unit) st_res" where
  "append_all E [] c = (Inr (), c)"
| "append_all E (s # ss) c = bindS (chain_append E s c) (\<lambda>_ c. append_all E ss c)"

subsection \<open>Key order does not matter\<close>

text \<open>Two values that differ only in the order in which the properties of their objects were set.\<close>

inductive same_json :: "json \<Rightarrow> json \<Rightarrow> bool" where
  refl: "same_json v v"
| arr: "list_all2 same_json xs ys \<Longrightarrow> same_json (JsArr xs) (JsArr ys)"
| obj: "list_all2 (rel_prod (=) same_json) kvs kvs' \<Longrightarrow> mset kvs' = mset kvs'' \<Longrightarrow> distinct (map fst kvs'')
    \<Longrightarrow> same_json (JsObj kvs) (JsObj kvs'')"
monos list.rel_mono prod.rel_mono

lemma insort_rel:
  "list_all2 (rel_prod (=) R) xs ys \<Longrightarrow> rel_prod (=) R x y \<Longrightarrow>
   list_all2 (rel_prod (=) R) (insort_key fst x xs) (insort_key fst y ys)"
proof (induction rule: list_all2_induct)
  case (Cons a xs b ys)
  then show ?case by (cases x; cases y; cases a; cases b) auto
qed simp

lemma sort_rel:
  "list_all2 (rel_prod (=) R) xs ys \<Longrightarrow> list_all2 (rel_prod (=) R) (sort_key fst xs) (sort_key fst ys)"
  by (induction rule: list_all2_induct) (auto intro: insort_rel)

lemma sort_perm:
  assumes "mset xs = mset ys" "distinct (map fst ys)"
  shows "sort_key fst xs = sort_key fst ys"
proof (rule sort_key_inj_key_eq)
  show "mset xs = mset (sort_key fst ys)" using assms by simp
  have "set xs = set ys" using assms(1) by (metis set_mset_mset)
  then show "inj_on fst (set xs)" using assms(2) by (simp add: distinct_map)
  show "sorted (map fst (sort_key fst ys))" by simp
qed

lemma mapE_rel:
  "list_all2 R xs ys \<Longrightarrow> (\<And>x y. R x y \<Longrightarrow> f x = g y) \<Longrightarrow> mapE f xs = mapE g ys"
  by (induction rule: list_all2_induct) auto

lemma same_json_sortDeep: "same_json v w \<Longrightarrow> sortDeep v = sortDeep w"
proof (induction rule: same_json.induct)
  case (arr xs ys)
  from mapE_rel [OF arr, of sortDeep sortDeep] show ?case by simp
next
  case (obj kvs kvs' kvs'')
  let ?f = "\<lambda>(k, v). bindE (sortDeep v) (\<lambda>w. Inr (k :: string, w))"
  from mapE_rel [OF sort_rel [OF obj(1)], of ?f ?f]
  have "mapE ?f (sort_key fst kvs) = mapE ?f (sort_key fst kvs')" by (auto simp: rel_prod_sel)
  then show ?case by (simp add: sort_perm [OF obj(2,3)])
qed simp

text \<open>
  the serialisation does not depend on the order in which the keys of the objects of a
  value were written, at any depth: two values that differ only in that order have the same
  canonical text, or fail with the same error.
\<close>

theorem canonical_key_order:
  assumes "same_json v w"
  shows "canonicalJson v = canonicalJson w"
  by (simp add: canonicalJson_def same_json_sortDeep [OF assms])

theorem canonical_key_order_witness:
  "canonicalJson (JsObj [(''b'', JsInt 1), (''a'', JsArr [JsNull])]) = canonicalJson (JsObj [(''a'', JsArr [JsNull]), (''b'', JsInt 1)])
   \<and> canonicalJson (JsObj [(''b'', JsInt 1)]) \<noteq> canonicalJson (JsObj [(''b'', JsInt 2)])"
proof
  let ?xs = "[(''b'', JsInt 1), (''a'', JsArr [JsNull])]"
  have "list_all2 (rel_prod (=) same_json) ?xs ?xs" by (auto simp: rel_prod_sel intro: same_json.refl)
  then have "same_json (JsObj ?xs) (JsObj [(''a'', JsArr [JsNull]), (''b'', JsInt 1)])"
    by (rule same_json.obj) (auto simp: add_mset_commute)
  then show "canonicalJson (JsObj ?xs) = canonicalJson (JsObj [(''a'', JsArr [JsNull]), (''b'', JsInt 1)])"
    by (rule canonical_key_order)
  show "canonicalJson (JsObj [(''b'', JsInt 1)]) \<noteq> canonicalJson (JsObj [(''b'', JsInt 2)])"
    by (simp add: canonicalJson_def decimal_def digits_of.simps)
qed

subsection \<open>When serialisation succeeds\<close>

fun json_plain :: "json \<Rightarrow> bool" where
  "json_plain (JsArr xs) = list_all json_plain xs"
| "json_plain (JsObj kvs) = list_all (\<lambda>(k, v). json_plain v) kvs"
| "json_plain v = (v \<noteq> JsNonFinite \<and> v \<noteq> JsDate)"

lemma mapE_plain_total: "(\<And>x. x \<in> set xs \<Longrightarrow> \<exists>y. f x = Inr y) \<Longrightarrow> \<exists>ys. mapE f xs = Inr ys"
proof (induction xs)
  case (Cons x xs)
  then obtain y ys where "f x = Inr y" "mapE f xs = Inr ys" by (metis list.set_intros)
  then show ?case by simp
qed simp

lemma json_plain_sortDeep: "json_plain v \<Longrightarrow> \<exists>w. sortDeep v = Inr w"
proof (induction v rule: json_plain.induct)
  case (1 xs)
  then have "\<exists>ys. mapE sortDeep xs = Inr ys" by (intro mapE_plain_total) (auto simp: list_all_iff)
  then show ?case by auto
next
  case (2 kvs)
  have "\<exists>ys. mapE (\<lambda>(k, v). bindE (sortDeep v) (\<lambda>w. Inr (k, w))) (sort_key fst kvs) = Inr ys"
  proof (rule mapE_plain_total)
    fix x assume "x \<in> set (sort_key fst kvs)"
    then have x: "x \<in> set kvs" by simp
    with 2(2) have "json_plain (snd x)" by (auto simp: list_all_iff)
    with 2(1) [OF x, of "fst x" "snd x"] show "\<exists>y. (case x of (k, v) \<Rightarrow> bindE (sortDeep v) (\<lambda>w. Inr (k, w))) = Inr y"
      by (auto split: prod.splits)
  qed
  then show ?case by auto
qed auto

subsection \<open>The head binds the steps\<close>

lemma append_all_recompute:
  "append_all E ss c = (Inr (), c') \<Longrightarrow>
     recompute_from E (ec_head c) ss = Inr (ec_head c') \<and> ec_steps c' = ec_steps c @ ss"
proof (induction ss arbitrary: c)
  case (Cons s ss)
  then obtain h where "link E (ec_head c) s = Inr h"
    and "append_all E ss (c\<lparr>ec_steps := ec_steps c @ [s], ec_head := h\<rparr>) = (Inr (), c')"
    by (auto simp: chain_append_def bindS_def Let_def split: sum.splits)
  with Cons.IH [OF this(2)] show ?case by simp
qed simp

lemma append_all_ok:
  "(\<And>s z. s \<in> set ss \<Longrightarrow> \<exists>h. link E z s = Inr h) \<Longrightarrow> \<exists>c'. append_all E ss c = (Inr (), c')"
proof (induction ss arbitrary: c)
  case (Cons s ss)
  from Cons.prems [of s "ec_head c"] obtain h where "link E (ec_head c) s = Inr h" by auto
  with Cons.IH [of "c\<lparr>ec_steps := ec_steps c @ [s], ec_head := h\<rparr>"] Cons.prems show ?case
    by (simp add: chain_append_def Let_def)
qed simp

text \<open>The preimages that the computation of a head hashes.\<close>

fun preimages :: "ethers \<Rightarrow> hex \<Rightarrow> evidence_step list \<Rightarrow> packed list list" where
  "preimages E h [] = []"
| "preimages E h (s # ss) = (case canonicalJson (step_json s) of Inl e \<Rightarrow> []
     | Inr t \<Rightarrow> [Bytes32 h, Utf8 t] # preimages E (e_keccak E [Bytes32 h, Utf8 t]) ss)"

lemma preimages_shape: "p \<in> set (preimages E h ss) \<Longrightarrow> \<exists>a t. p = [Bytes32 a, Utf8 t]"
  by (induction ss arbitrary: h) (auto split: sum.splits)

lemma recompute_snoc:
  "recompute_from E h (ss @ [s]) = bindE (recompute_from E h ss) (\<lambda>h'. link E h' s)"
proof (induction ss arbitrary: h)
  case Nil
  then show ?case by (cases "link E h s") simp_all
next
  case (Cons a ss)
  then show ?case by (cases "link E h a") simp_all
qed

lemma preimages_snoc:
  "recompute_from E h ss = Inr h' \<Longrightarrow> preimages E h (ss @ [s]) = preimages E h ss
     @ (case canonicalJson (step_json s) of Inl e \<Rightarrow> [] | Inr t \<Rightarrow> [[Bytes32 h', Utf8 t]])"
proof (induction ss arbitrary: h)
  case (Cons a ss)
  then obtain t where "canonicalJson (step_json a) = Inr t" "recompute_from E (e_keccak E [Bytes32 h, Utf8 t]) ss = Inr h'"
    by (auto simp: link_def bindE_Inr_iff)
  with Cons.IH show ?case by simp
qed (simp split: sum.split)

lemma link_Inr: "link E h s = Inr h' \<longleftrightarrow> (\<exists>t. canonicalJson (step_json s) = Inr t \<and> h' = e_keccak E [Bytes32 h, Utf8 t])"
  by (auto simp: link_def bindE_Inr_iff)

lemma recompute_binds:
  assumes "ethers_ok E" "lower z = z"
    and "recompute_from E z xs = Inr h" "recompute_from E z ys = Inr h"
    and "no_collision E (preimages E z xs @ preimages E z ys)"
    and "\<forall>p \<in> set (preimages E z xs @ preimages E z ys). e_keccak E p \<noteq> z"
  shows "map (\<lambda>s. canonicalJson (step_json s)) xs = map (\<lambda>s. canonicalJson (step_json s)) ys"
  using assms(3-6)
proof (induction xs arbitrary: ys h rule: rev_induct)
  case Nil
  show ?case
  proof (cases ys rule: rev_cases)
    case (snoc ys' y)
    with Nil.prems obtain h' t where h': "recompute_from E z ys' = Inr h'" "canonicalJson (step_json y) = Inr t"
      "z = e_keccak E [Bytes32 h', Utf8 t]"
      by (auto simp: recompute_snoc bindE_Inr_iff link_Inr)
    with Nil.prems(4) snoc show ?thesis by (auto simp: preimages_snoc)
  qed simp
next
  case (snoc x xs)
  from snoc.prems(1) obtain h1 t1 where 1: "recompute_from E z xs = Inr h1" "canonicalJson (step_json x) = Inr t1"
    "h = e_keccak E [Bytes32 h1, Utf8 t1]"
    by (auto simp: recompute_snoc bindE_Inr_iff link_Inr)
  show ?case
  proof (cases ys rule: rev_cases)
    case Nil
    with snoc.prems 1 show ?thesis by (auto simp: preimages_snoc)
  next
    case ys: (snoc ys' y)
    with snoc.prems(2) obtain h2 t2 where 2: "recompute_from E z ys' = Inr h2" "canonicalJson (step_json y) = Inr t2"
      "h = e_keccak E [Bytes32 h2, Utf8 t2]"
      by (auto simp: recompute_snoc bindE_Inr_iff link_Inr)
    have nc: "no_collision E (preimages E z xs @ [[Bytes32 h1, Utf8 t1]] @ preimages E z ys' @ [[Bytes32 h2, Utf8 t2]])"
      using snoc.prems(3) 1 2 ys by (simp add: preimages_snoc)
    from no_collisionD [OF nc, of "[Bytes32 h1, Utf8 t1]" "[Bytes32 h2, Utf8 t2]"] 1(3) 2(3)
    have eq: "lower h1 = lower h2" "t1 = t2" by simp_all
    have canon: "lower h' = h'" if "recompute_from E z zs = Inr h'" for zs h'
      using that assms(1,2) by (cases zs rule: rev_cases) (auto simp: recompute_snoc bindE_Inr_iff link_Inr ethers_okD)
    have "h1 = h2" using eq(1) canon [OF 1(1)] canon [OF 2(1)] by simp
    moreover have "no_collision E (preimages E z xs @ preimages E z ys')"
      by (rule no_collision_subset [OF nc]) auto
    moreover have "\<forall>p \<in> set (preimages E z xs @ preimages E z ys'). e_keccak E p \<noteq> z"
      using snoc.prems(4) 1 2 ys by (auto simp: preimages_snoc)
    ultimately have "map (\<lambda>s. canonicalJson (step_json s)) xs = map (\<lambda>s. canonicalJson (step_json s)) ys'"
      using snoc.IH [of h1 ys'] 1(1) 2(1) by simp
    with ys 1(2) 2(2) eq(2) show ?thesis by simp
  qed
qed

text \<open>
  C34: an evidence head binds the evidence. The head of a chain built by appends is what the
  audit path recomputes from the exported steps; and when the audit of another list of steps
  gives the same head, that list has the same canonical steps in the same order, none missing
  and none added (the hash not colliding, nor giving the zero head, on the preimages involved).
\<close>

theorem evidence_tamper_evident:
  assumes "ethers_ok E" "append_all E ss new_chain = (Inr (), c)"
    and "recompute E ts = Inr (ec_head c)"
    and "no_collision E (preimages E zero_head ss @ preimages E zero_head ts)"
    and "\<forall>p \<in> set (preimages E zero_head ss @ preimages E zero_head ts). e_keccak E p \<noteq> zero_head"
  shows "recompute E (ec_steps c) = Inr (ec_head c)
    \<and> map (\<lambda>s. canonicalJson (step_json s)) ts = map (\<lambda>s. canonicalJson (step_json s)) (ec_steps c)"
proof -
  have "lower zero_head = zero_head" by (simp add: zero_head_def lower_char_def)
  from append_all_recompute [OF assms(2)] recompute_binds [OF assms(1) this _ _ assms(4,5)] assms(3)
  show ?thesis by (simp add: recompute_def new_chain_def)
qed

definition run_steps :: "evidence_step list" where
  "run_steps = [\<lparr>es_step = ''wallet_control'', es_at = 5, es_payload = JsObj [(''proven'', JsBool True)]\<rparr>,
     \<lparr>es_step = ''issue'', es_at = 5, es_payload = JsNull\<rparr>]"

theorem evidence_tamper_evident_witness:
  "\<exists>c. append_all (toy_ethers (\<lambda>_. zero_head)) run_steps new_chain = (Inr (), c) \<and> length (ec_steps c) = 2
     \<and> recompute (toy_ethers (\<lambda>_. zero_head)) (ec_steps c) = Inr (ec_head c)"
proof -
  let ?E = "toy_ethers (\<lambda>_. zero_head)"
  have ok: "ethers_ok ?E"
    by (rule toy_ethers_ok) (simp add: zero_head_def is_bytes32_def lower_char_def list_all_length hex_digit_def)
  have "\<exists>h. link ?E z s = Inr h" if "s \<in> set run_steps" for s z
    using that by (auto simp: run_steps_def link_Inr canonicalJson_def step_json_def bindE_Inr_iff)
  then obtain c where c: "append_all ?E run_steps new_chain = (Inr (), c)"
    using append_all_ok [of run_steps ?E new_chain] by blast
  have steps: "ec_steps c = run_steps" and r: "recompute ?E run_steps = Inr (ec_head c)"
    using append_all_recompute [OF c] by (simp_all add: new_chain_def recompute_def)
  have "\<forall>p \<in> set (preimages ?E zero_head run_steps @ preimages ?E zero_head run_steps). e_keccak ?E p \<noteq> zero_head"
    by (auto simp: toy_ethers_def toy_keccak_def zero_head_def dest!: preimages_shape)
  from evidence_tamper_evident [OF ok c r toy_no_collision this] c steps show ?thesis
    by (auto simp: run_steps_def)
qed

end
