(* ===== verification/Identity.thy ===== *)
theory Identity
  imports Attrs Evidence
begin

text \<open>
  Customer identity policies, \<open>pipeline/identity-policy.ts\<close>: the validation that snapshots a
  policy and its evaluation against the bitmap of performed checks. Requirement codes stay the
  strings of the source, because the validation starts from unchecked input; a biometric policy
  that is missing or has an unknown mode is \<open>None\<close>. Texts are ASCII where \<open>trim\<close> and
  \<open>length\<close> act on them.
\<close>

unbundle bit_operations_syntax

subsection \<open>Vocabulary\<close>

type_synonym requirement = string

definition REQUIREMENTS :: "requirement list" where
  "REQUIREMENTS = [''wallet_control'', ''document_authenticity'', ''account_control'', ''face_match'', ''liveness'',
     ''authorized_representative'', ''beneficial_owner_identity'']"

definition BIOMETRICS :: "requirement list" where
  "BIOMETRICS = [''face_match'', ''liveness'']"

definition METHOD_BY_REQUIREMENT :: "requirement \<Rightarrow> string option" where
  "METHOD_BY_REQUIREMENT r = map_of [(''wallet_control'', ''WALLET_CONTROL''),
     (''document_authenticity'', ''ID_DOC_AUTHENTICITY''), (''account_control'', ''BANK_ACCOUNT''),
     (''face_match'', ''FACE_MATCH''), (''liveness'', ''LIVENESS'')] r"

record assurance_band =
  ab_level :: js_num
  ab_required :: "requirement list"
  ab_basis :: string

datatype biometric_policy = Prohibited
  | Authorized (bp_checks: "requirement list") (bp_necessityRef: string) (bp_legalBasisRef: string) (bp_approvalRef: string)

record identity_policy =
  ip_schema :: string
  ip_policyId :: string
  ip_customerRiskId :: string
  ip_status :: string
  ip_approvalRef :: "string option"
  ip_subjectKind :: string
  ip_required :: "requirement list"
  ip_bands :: "assurance_band list"
  ip_biometrics :: "biometric_policy option"

definition alnum :: "char \<Rightarrow> bool" where
  "alnum c = (let n = (of_char c :: nat) in (48 \<le> n \<and> n \<le> 57) \<or> (65 \<le> n \<and> n \<le> 90) \<or> (97 \<le> n \<and> n \<le> 122))"

text \<open>\<open>/^[A-Za-z0-9][A-Za-z0-9<extra>]{2,max}$/\<close>.\<close>

definition opaque_text :: "string \<Rightarrow> nat \<Rightarrow> string \<Rightarrow> bool" where
  "opaque_text extra most s \<longleftrightarrow> s \<noteq> [] \<and> alnum (hd s) \<and> 2 \<le> length (tl s) \<and> length (tl s) \<le> most
     \<and> list_all (\<lambda>c. alnum c \<or> c \<in> set extra) (tl s)"

definition IDENTIFIER :: "string \<Rightarrow> bool" where
  "IDENTIFIER s = opaque_text ''._:/-'' 127 s"

definition REFERENCE :: "string \<Rightarrow> bool" where
  "REFERENCE s = opaque_text ''._:/#-'' 255 s"

definition is_space :: "char \<Rightarrow> bool" where
  "is_space c = (let n = (of_char c :: nat) in n = 32 \<or> (9 \<le> n \<and> n \<le> 13))"

definition trim :: "string \<Rightarrow> string" where
  "trim s = rev (dropWhile is_space (rev (dropWhile is_space s)))"

subsection \<open>Validation\<close>

definition uniqueRequirements :: "requirement list \<Rightarrow> string \<Rightarrow> string + requirement list" where
  "uniqueRequirements rs name =
     bindE (requireE (name @ '' contains an unknown identity requirement'') (list_all (\<lambda>r. r \<in> set REQUIREMENTS) rs)) (\<lambda>_.
     bindE (requireE (name @ '' contains duplicate identity requirements'') (distinct rs)) (\<lambda>_. Inr rs))"

definition check_band :: "int list \<Rightarrow> assurance_band \<Rightarrow> string + assurance_band" where
  "check_band levels b =
     bindE (requireE ''identity assurance levels must be unique integers from 1 to 5''
       (ab_level b \<noteq> JNonInt \<and> 1 \<le> js_val (ab_level b) \<and> js_val (ab_level b) \<le> 5 \<and> js_val (ab_level b) \<notin> set levels)) (\<lambda>_.
     bindE (uniqueRequirements (ab_required b) (''identity assuranceBands['' @ decimal (int (length levels)) @ ''].required'')) (\<lambda>rs.
     bindE (requireE ''each identity assurance band must require wallet_control'' (''wallet_control'' \<in> set rs)) (\<lambda>_.
     bindE (requireE ''each identity assurance band needs a bounded basis'' (trim (ab_basis b) \<noteq> [] \<and> length (ab_basis b) \<le> 240)) (\<lambda>_.
     Inr (b\<lparr>ab_basis := trim (ab_basis b)\<rparr>)))))"

fun check_bands :: "int list \<Rightarrow> assurance_band list \<Rightarrow> string + assurance_band list" where
  "check_bands levels [] = Inr []"
| "check_bands levels (b # bs) = bindE (check_band levels b) (\<lambda>c.
     bindE (check_bands (js_val (ab_level b) # levels) bs) (\<lambda>cs. Inr (c # cs)))"

fun cumulative :: "assurance_band list \<Rightarrow> bool" where
  "cumulative (a # b # bs) \<longleftrightarrow> set (ab_required a) \<subseteq> set (ab_required b) \<and> cumulative (b # bs)"
| "cumulative _ \<longleftrightarrow> True"

definition check_biometrics :: "biometric_policy option \<Rightarrow> string + biometric_policy" where
  "check_biometrics bm = (case bm of
     None \<Rightarrow> Inl ''identity biometric policy is required''
   | Some Prohibited \<Rightarrow> Inr Prohibited
   | Some (Authorized cs n l a) \<Rightarrow>
       bindE (uniqueRequirements cs ''identity biometrics.checks'') (\<lambda>cs.
       bindE (requireE ''authorized biometrics must name face_match and/or liveness'' (cs \<noteq> [] \<and> list_all (\<lambda>c. c \<in> set BIOMETRICS) cs)) (\<lambda>_.
       bindE (requireE ''identity biometric necessityRef must be a prior decision reference'' (REFERENCE n)) (\<lambda>_.
       bindE (requireE ''identity biometric legalBasisRef must be a prior decision reference'' (REFERENCE l)) (\<lambda>_.
       bindE (requireE ''identity biometric approvalRef must be a prior decision reference'' (REFERENCE a)) (\<lambda>_.
       Inr (Authorized cs n l a)))))))"

definition defineIdentityPolicy :: "identity_policy \<Rightarrow> string + identity_policy" where
  "defineIdentityPolicy p =
     bindE (requireE ''unsupported identity policy schema'' (ip_schema p = ''proofmark-identity-policy-v1'')) (\<lambda>_.
     bindE (requireE ''identity policyId must be a stable opaque identifier'' (IDENTIFIER (ip_policyId p))) (\<lambda>_.
     bindE (requireE ''identity customerRiskId must be a stable opaque identifier'' (IDENTIFIER (ip_customerRiskId p))) (\<lambda>_.
     bindE (requireE ''identity policy status must be synthetic or approved'' (ip_status p \<in> {''synthetic'', ''approved''})) (\<lambda>_.
     bindE (requireE ''approved identity policy requires an opaque approvalRef''
       (ip_status p = ''approved'' \<longrightarrow> (case ip_approvalRef p of None \<Rightarrow> False | Some a \<Rightarrow> REFERENCE a))) (\<lambda>_.
     bindE (requireE ''synthetic identity policy cannot claim approval'' (ip_status p = ''synthetic'' \<longrightarrow> ip_approvalRef p = None)) (\<lambda>_.
     bindE (requireE ''unsupported identity subjectKind'' (ip_subjectKind p \<in> {''individual'', ''organization''})) (\<lambda>_.
     bindE (uniqueRequirements (ip_required p) ''identity required'') (\<lambda>req.
     bindE (requireE ''identity assuranceBands are required'' (ip_bands p \<noteq> [])) (\<lambda>_.
     bindE (check_bands [] (ip_bands p)) (\<lambda>bs.
     let bands = sort_key (\<lambda>b. js_val (ab_level b)) bs in
     bindE (requireE ''higher identity assurance bands must preserve every lower-band requirement'' (cumulative bands)) (\<lambda>_.
     bindE (check_biometrics (ip_biometrics p)) (\<lambda>bm.
     Inr (p\<lparr>ip_required := req, ip_bands := bands, ip_biometrics := Some bm\<rparr>)))))))))))))"

subsection \<open>Evaluation\<close>

definition method_bit :: "string \<Rightarrow> 32 word" where
  "method_bit k = (case map_of Methods k of None \<Rightarrow> 0 | Some b \<Rightarrow> b)"

definition performed :: "requirement \<Rightarrow> 32 word \<Rightarrow> bool" where
  "performed r m = (case METHOD_BY_REQUIREMENT r of None \<Rightarrow> False
     | Some k \<Rightarrow> m AND method_bit k = method_bit k)"

datatype requirement_outcome = Pass | Missing | Not_required | Unsupported

record requirement_result =
  rr_requirement :: requirement
  rr_method :: "string option"
  rr_required :: bool
  rr_performed :: bool
  rr_outcome :: requirement_outcome

record identity_evaluation =
  ie_policyId :: string
  ie_customerRiskId :: string
  ie_policyStatus :: string
  ie_approvalRef :: "string option"
  ie_subjectKind :: string
  ie_assurance :: int
  ie_assuranceBasis :: "string option"
  ie_passed :: bool
  ie_missing :: "requirement list"
  ie_violations :: "string list"
  ie_requirements :: "requirement_result list"
  ie_biometricMode :: string
  ie_authorizedChecks :: "requirement list"

definition result_of :: "identity_policy \<Rightarrow> 32 word \<Rightarrow> requirement \<Rightarrow> requirement_result" where
  "result_of p m r = (let isRequired = r \<in> set (ip_required p); didRun = performed r m in
     \<lparr>rr_requirement = r, rr_method = METHOD_BY_REQUIREMENT r, rr_required = isRequired, rr_performed = didRun,
      rr_outcome = (if \<not> isRequired then Not_required else if METHOD_BY_REQUIREMENT r = None then Unsupported
        else if didRun then Pass else Missing)\<rparr>)"

definition authorized_checks :: "identity_policy \<Rightarrow> requirement list" where
  "authorized_checks p = (case ip_biometrics p of Some (Authorized cs _ _ _) \<Rightarrow> cs | _ \<Rightarrow> [])"

definition upper_code :: "requirement \<Rightarrow> string" where
  "upper_code r = (if r = ''face_match'' then ''FACE_MATCH'' else ''LIVENESS'')"

definition violations_of :: "identity_policy \<Rightarrow> 32 word \<Rightarrow> int \<Rightarrow> string list" where
  "violations_of p m kind =
     (if (if ip_subjectKind p = ''individual'' then 1 else 2) \<noteq> kind then [''SUBJECT_KIND_MISMATCH''] else [])
     @ (if list_ex (\<lambda>r. r \<in> set BIOMETRICS) (ip_required p @ concat (map ab_required (ip_bands p)))
          \<and> (case ip_biometrics p of Some (Authorized _ _ _ _) \<Rightarrow> False | _ \<Rightarrow> True)
        then [''BIOMETRIC_AUTHORIZATION_MISSING''] else [])
     @ map (\<lambda>r. ''UNAUTHORIZED_'' @ upper_code r)
         (filter (\<lambda>r. performed r m \<and> r \<notin> set (authorized_checks p)) BIOMETRICS)"

definition earned :: "identity_policy \<Rightarrow> 32 word \<Rightarrow> assurance_band option" where
  "earned p m = (let bs = filter (\<lambda>b. list_all (\<lambda>r. performed r m) (ab_required b)) (ip_bands p) in
     if bs = [] then None else Some (last bs))"

definition evaluateIdentityPolicy :: "identity_policy \<Rightarrow> 32 word \<Rightarrow> int \<Rightarrow> string + identity_evaluation" where
  "evaluateIdentityPolicy inp m kind = bindE (defineIdentityPolicy inp) (\<lambda>p.
     let rs = map (result_of p m) REQUIREMENTS;
         missing = map rr_requirement (filter (\<lambda>x. rr_required x \<and> rr_outcome x \<noteq> Pass) rs);
         vs = violations_of p m kind; e = earned p m in
     Inr \<lparr>ie_policyId = ip_policyId p, ie_customerRiskId = ip_customerRiskId p, ie_policyStatus = ip_status p,
       ie_approvalRef = ip_approvalRef p, ie_subjectKind = ip_subjectKind p,
       ie_assurance = (case e of None \<Rightarrow> 0 | Some b \<Rightarrow> js_val (ab_level b)),
       ie_assuranceBasis = (case e of None \<Rightarrow> None | Some b \<Rightarrow> Some (ab_basis b)),
       ie_passed = (missing = [] \<and> vs = [] \<and> e \<noteq> None),
       ie_missing = missing, ie_violations = vs, ie_requirements = rs,
       ie_biometricMode = (case ip_biometrics p of Some (Authorized _ _ _ _) \<Rightarrow> ''authorized'' | _ \<Rightarrow> ''prohibited''),
       ie_authorizedChecks = authorized_checks p\<rparr>)"

definition SYNTHETIC_INDIVIDUAL_NONFACE_POLICY :: identity_policy where
  "SYNTHETIC_INDIVIDUAL_NONFACE_POLICY = \<lparr>ip_schema = ''proofmark-identity-policy-v1'',
     ip_policyId = ''proofmark-synthetic-individual-nonface-v1'', ip_customerRiskId = ''synthetic-demo-only'',
     ip_status = ''synthetic'', ip_approvalRef = None, ip_subjectKind = ''individual'',
     ip_required = [''wallet_control'', ''document_authenticity'', ''account_control''],
     ip_bands = [
       \<lparr>ab_level = JInt 1, ab_required = [''wallet_control''], ab_basis = ''wallet challenge only''\<rparr>,
       \<lparr>ab_level = JInt 2, ab_required = [''wallet_control'', ''document_authenticity''],
        ab_basis = ''wallet challenge and document authenticity''\<rparr>,
       \<lparr>ab_level = JInt 3, ab_required = [''wallet_control'', ''document_authenticity'', ''account_control''],
        ab_basis = ''wallet challenge, document authenticity, and account control''\<rparr>],
     ip_biometrics = Some Prohibited\<rparr>"

definition SYNTHETIC_SCREENING_ONLY_POLICY :: identity_policy where
  "SYNTHETIC_SCREENING_ONLY_POLICY = \<lparr>ip_schema = ''proofmark-identity-policy-v1'',
     ip_policyId = ''proofmark-synthetic-screening-only-v1'', ip_customerRiskId = ''synthetic-screening-only'',
     ip_status = ''synthetic'', ip_approvalRef = None, ip_subjectKind = ''individual'',
     ip_required = [''wallet_control''],
     ip_bands = [\<lparr>ab_level = JInt 1, ab_required = [''wallet_control''],
       ab_basis = ''wallet challenge only; no human identity claim''\<rparr>],
     ip_biometrics = Some Prohibited\<rparr>"

subsection \<open>What a passed evaluation guarantees\<close>

lemma uniqueRequirements_Inr:
  "uniqueRequirements rs f = Inr rs' \<longleftrightarrow> rs' = rs \<and> set rs \<subseteq> set REQUIREMENTS \<and> distinct rs"
  by (auto simp: uniqueRequirements_def bindE_Inr_iff list_all_iff)

lemma check_band_Inr:
  "check_band ls b = Inr c \<Longrightarrow> c = b\<lparr>ab_basis := trim (ab_basis b)\<rparr> \<and> JInt (js_val (ab_level b)) = ab_level b
     \<and> 1 \<le> js_val (ab_level b) \<and> js_val (ab_level b) \<le> 5 \<and> js_val (ab_level b) \<notin> set ls"
  by (cases "ab_level b") (auto simp: check_band_def bindE_Inr_iff uniqueRequirements_Inr)

lemma check_bands_Inr:
  "check_bands ls bs = Inr cs \<Longrightarrow> cs = map (\<lambda>b. b\<lparr>ab_basis := trim (ab_basis b)\<rparr>) bs
     \<and> (\<forall>b \<in> set bs. JInt (js_val (ab_level b)) = ab_level b \<and> 1 \<le> js_val (ab_level b) \<and> js_val (ab_level b) \<le> 5)
     \<and> distinct (map (\<lambda>b. js_val (ab_level b)) bs) \<and> (\<forall>b \<in> set bs. js_val (ab_level b) \<notin> set ls)"
proof (induction ls bs arbitrary: cs rule: check_bands.induct)
  case (2 ls b bs)
  from 2(2) obtain c ds where c: "check_band ls b = Inr c" "check_bands (js_val (ab_level b) # ls) bs = Inr ds" "cs = c # ds"
    by (auto simp: bindE_Inr_iff)
  note b = check_band_Inr [OF c(1)] and ih = 2(1) [OF c(1,2)]
  have "cs = map (\<lambda>b. b\<lparr>ab_basis := trim (ab_basis b)\<rparr>) (b # bs)" using b ih c(3) by simp
  moreover have "js_val (ab_level b) \<notin> js_val ` ab_level ` set bs" using ih by (auto simp del: js_val.simps)
  ultimately show ?case using b ih by (simp add: image_image)
qed simp

lemma cumulative_le:
  assumes "cumulative bs" "i \<le> j" "j < length bs"
  shows "set (ab_required (bs ! i)) \<subseteq> set (ab_required (bs ! j))"
  using assms
proof (induction bs arbitrary: i j rule: cumulative.induct)
  case (1 a b bs)
  then show ?case by (cases i; cases j) (force, force, force, simp)
qed (auto simp: nth_Cons')

lemma last_filter_nth:
  assumes "filter P xs \<noteq> []"
  obtains j where "j < length xs" "last (filter P xs) = xs ! j" "P (xs ! j)" "\<And>i. i < length xs \<Longrightarrow> P (xs ! i) \<Longrightarrow> i \<le> j"
  using assms
proof (induction xs arbitrary: thesis rule: rev_induct)
  case (snoc x xs)
  show ?case
  proof (cases "P x")
    case True
    show ?thesis by (rule snoc.prems(1) [of "length xs"]) (use True in auto)
  next
    case False
    with snoc.prems(2) have "filter P xs \<noteq> []" by simp
    from snoc.IH [OF _ this] obtain j where "j < length xs" "last (filter P xs) = xs ! j" "P (xs ! j)"
      "\<And>i. i < length xs \<Longrightarrow> P (xs ! i) \<Longrightarrow> i \<le> j" by blast
    then show ?thesis using False by (intro snoc.prems(1) [of j]) (auto simp: nth_append less_Suc_eq)
  qed
qed simp

text \<open>The band earned is the highest one, and the bands at or below it are exactly those whose checks ran.\<close>

lemma earned_exact:
  assumes "cumulative bs" "sorted (map (\<lambda>b. js_val (ab_level b)) bs)" "c \<in> set bs"
    and "filter (\<lambda>b. list_all (\<lambda>r. performed r m) (ab_required b)) bs \<noteq> []"
  defines "tb \<equiv> last (filter (\<lambda>b. list_all (\<lambda>r. performed r m) (ab_required b)) bs)"
  shows "list_all (\<lambda>r. performed r m) (ab_required c) \<Longrightarrow> js_val (ab_level c) \<le> js_val (ab_level tb)"
    and "js_val (ab_level c) < js_val (ab_level tb) \<Longrightarrow> list_all (\<lambda>r. performed r m) (ab_required c)"
proof -
  from last_filter_nth [OF assms(4)] obtain j where j: "j < length bs" "tb = bs ! j"
    "list_all (\<lambda>r. performed r m) (ab_required (bs ! j))"
    "\<And>i. i < length bs \<Longrightarrow> list_all (\<lambda>r. performed r m) (ab_required (bs ! i)) \<Longrightarrow> i \<le> j"
    unfolding tb_def by metis
  from assms(3) obtain i where i: "i < length bs" "c = bs ! i" by (auto simp: in_set_conv_nth)
  { assume "list_all (\<lambda>r. performed r m) (ab_required c)"
    with i j(4) have "i \<le> j" by simp
    from sorted_nth_mono [OF assms(2) this] i j show "js_val (ab_level c) \<le> js_val (ab_level tb)" by simp }
  { assume less: "js_val (ab_level c) < js_val (ab_level tb)"
    have "i \<le> j"
    proof (rule ccontr)
      assume "\<not> i \<le> j"
      with sorted_nth_mono [OF assms(2), of j i] i j less show False by simp
    qed
    with cumulative_le [OF assms(1) this j(1)] j(3) i show "list_all (\<lambda>r. performed r m) (ab_required c)"
      by (auto simp: list_all_iff) }
qed

lemma define_Inr:
  assumes "defineIdentityPolicy inp = Inr p"
  shows "ip_required p = ip_required inp \<and> set (ip_required inp) \<subseteq> set REQUIREMENTS \<and> ip_subjectKind p = ip_subjectKind inp
    \<and> ip_subjectKind inp \<in> {''individual'', ''organization''} \<and> cumulative (ip_bands p)
    \<and> sorted (map (\<lambda>b. js_val (ab_level b)) (ip_bands p))
    \<and> set (ip_bands p) = (\<lambda>b. b\<lparr>ab_basis := trim (ab_basis b)\<rparr>) ` set (ip_bands inp)
    \<and> inj_on (\<lambda>b. js_val (ab_level b)) (set (ip_bands inp))
    \<and> (\<forall>b \<in> set (ip_bands inp). JInt (js_val (ab_level b)) = ab_level b \<and> 1 \<le> js_val (ab_level b) \<and> js_val (ab_level b) \<le> 5)"
proof -
  from assms obtain bs bm where b: "check_bands [] (ip_bands inp) = Inr bs"
    and c: "cumulative (sort_key (\<lambda>b. js_val (ab_level b)) bs)"
    and p: "p = inp\<lparr>ip_bands := sort_key (\<lambda>b. js_val (ab_level b)) bs, ip_biometrics := Some bm\<rparr>"
    and r: "set (ip_required inp) \<subseteq> set REQUIREMENTS" "ip_subjectKind inp \<in> {''individual'', ''organization''}"
    by (auto simp: defineIdentityPolicy_def bindE_Inr_iff Let_def uniqueRequirements_Inr)
  from check_bands_Inr [OF b] c r show ?thesis by (simp add: p distinct_map)
qed

lemma identity_facts:
  assumes "evaluateIdentityPolicy inp m kind = Inr e" "ie_passed e"
  shows "(\<forall>r \<in> set (ip_required inp). performed r m)
    \<and> 1 \<le> ie_assurance e \<and> ie_assurance e \<le> 5
    \<and> (\<exists>b \<in> set (ip_bands inp). ab_level b = JInt (ie_assurance e))
    \<and> (\<forall>b \<in> set (ip_bands inp). js_val (ab_level b) \<le> ie_assurance e \<longleftrightarrow> (\<forall>r \<in> set (ab_required b). performed r m))
    \<and> (\<forall>r \<in> set BIOMETRICS. performed r m \<longrightarrow> r \<in> set (ie_authorizedChecks e))
    \<and> kind = (if ip_subjectKind inp = ''individual'' then 1 else 2)"
proof -
  from assms obtain p where p: "defineIdentityPolicy inp = Inr p"
    and miss: "ie_missing e = []" "violations_of p m kind = []" "earned p m \<noteq> None"
    and e: "ie_assurance e = (case earned p m of None \<Rightarrow> 0 | Some b \<Rightarrow> js_val (ab_level b))"
      "ie_missing e = map rr_requirement (filter (\<lambda>x. rr_required x \<and> rr_outcome x \<noteq> Pass) (map (result_of p m) REQUIREMENTS))"
      "ie_authorizedChecks e = authorized_checks p"
    by (auto simp: evaluateIdentityPolicy_def bindE_Inr_iff Let_def)
  note d = define_Inr [OF p]
  let ?ran = "\<lambda>b. list_all (\<lambda>r. performed r m) (ab_required b)"
  have ne: "filter ?ran (ip_bands p) \<noteq> []" and tb: "ie_assurance e = js_val (ab_level (last (filter ?ran (ip_bands p))))"
    using miss(3) e(1) by (auto simp: earned_def Let_def split: if_splits)
  from last_in_set [OF ne] have last: "last (filter ?ran (ip_bands p)) \<in> set (ip_bands p)" "?ran (last (filter ?ran (ip_bands p)))"
    by auto
  have req: "\<forall>r \<in> set (ip_required inp). performed r m"
  proof
    fix r assume "r \<in> set (ip_required inp)"
    then have "r \<in> set REQUIREMENTS" "r \<in> set (ip_required p)" using d by auto
    moreover from this(1) miss(1) have "\<not> (rr_required (result_of p m r) \<and> rr_outcome (result_of p m r) \<noteq> Pass)"
      unfolding e(2) by (auto simp: filter_empty_conv)
    ultimately show "performed r m" by (auto simp: result_of_def Let_def split: if_splits)
  qed
  have band: "js_val (ab_level b) \<le> ie_assurance e \<longleftrightarrow> (\<forall>r \<in> set (ab_required b). performed r m)" if "b \<in> set (ip_bands inp)" for b
  proof -
    let ?c = "b\<lparr>ab_basis := trim (ab_basis b)\<rparr>"
    have c: "?c \<in> set (ip_bands p)" using that d by simp
    show ?thesis
    proof (cases "js_val (ab_level b) = ie_assurance e")
      case True
      from last(1) d obtain b' where b': "b' \<in> set (ip_bands inp)"
        "last (filter ?ran (ip_bands p)) = b'\<lparr>ab_basis := trim (ab_basis b')\<rparr>" by auto
      have "js_val (ab_level b') = js_val (ab_level b)" using True tb b'(2) by simp
      moreover have "inj_on (\<lambda>b. js_val (ab_level b)) (set (ip_bands inp))" using d by blast
      ultimately have "b' = b" using b'(1) that by (simp add: inj_on_def)
      with last(2) have "?ran b" unfolding b'(2) by simp
      then show ?thesis using True by (simp add: list_all_iff)
    next
      case False
      have s: "cumulative (ip_bands p)" "sorted (map (\<lambda>b. js_val (ab_level b)) (ip_bands p))" using d by simp_all
      from earned_exact [OF s c ne] False show ?thesis unfolding tb [symmetric] by (simp add: list_all_iff) linarith
    qed
  qed
  from last(1) d obtain b' where b': "b' \<in> set (ip_bands inp)" "js_val (ab_level b') = ie_assurance e"
    using tb by auto
  with d have "1 \<le> ie_assurance e" "ie_assurance e \<le> 5" "ab_level b' = JInt (ie_assurance e)" by metis+
  moreover have "\<forall>r \<in> set BIOMETRICS. performed r m \<longrightarrow> r \<in> set (ie_authorizedChecks e)"
    using miss(2) by (auto simp: violations_of_def e(3) filter_empty_conv)
  moreover have "kind = (if ip_subjectKind inp = ''individual'' then 1 else 2)"
    using miss(2) d by (auto simp: violations_of_def split: if_splits)
  ultimately show ?thesis using req band b'(1) by blast
qed

text \<open>
  C33: what a passed identity evaluation guarantees. Every requirement of the policy is backed
  by the bit of a performed check; the assurance level is between 1 and 5, and a band of the
  policy lies at or below it exactly when all the checks of that band ran, so no higher band
  was earned and no lower one was skipped; no biometric check ran without an authorization
  that names it; and the kind of the subject is the policy's.
\<close>

theorem identity_policy_sound:
  assumes "evaluateIdentityPolicy inp m kind = Inr e" "ie_passed e"
  shows "(\<forall>r \<in> set (ip_required inp). performed r m)
    \<and> 1 \<le> ie_assurance e \<and> ie_assurance e \<le> 5
    \<and> (\<exists>b \<in> set (ip_bands inp). ab_level b = JInt (ie_assurance e))
    \<and> (\<forall>b \<in> set (ip_bands inp). js_val (ab_level b) \<le> ie_assurance e \<longleftrightarrow> (\<forall>r \<in> set (ab_required b). performed r m))
    \<and> (\<forall>r \<in> set BIOMETRICS. performed r m \<longrightarrow> r \<in> set (ie_authorizedChecks e))
    \<and> kind = (if ip_subjectKind inp = ''individual'' then 1 else 2)"
  by (rule identity_facts [OF assms])

definition run_policy :: identity_policy where
  "run_policy = \<lparr>ip_schema = ''proofmark-identity-policy-v1'', ip_policyId = ''p-1'', ip_customerRiskId = ''r-1'',
     ip_status = ''synthetic'', ip_approvalRef = None, ip_subjectKind = ''individual'', ip_required = [''wallet_control''],
     ip_bands = [\<lparr>ab_level = JInt 1, ab_required = [''wallet_control''], ab_basis = ''w''\<rparr>,
       \<lparr>ab_level = JInt 3, ab_required = [''wallet_control'', ''account_control''], ab_basis = ''a''\<rparr>],
     ip_biometrics = Some Prohibited\<rparr>"

lemma run_policy_defined: "defineIdentityPolicy run_policy = Inr run_policy"
  by (simp add: defineIdentityPolicy_def run_policy_def
      IDENTIFIER_def opaque_text_def alnum_def uniqueRequirements_def REQUIREMENTS_def check_band_def trim_def is_space_def
      check_biometrics_def)

lemma run_performed:
  "performed ''wallet_control'' 0x21" "performed ''account_control'' 0x21" "\<not> performed ''face_match'' 0x21" "\<not> performed ''liveness'' 0x21"
  by (simp_all add: performed_def METHOD_BY_REQUIREMENT_def method_bit_def Methods_def method_shifts_def)

theorem identity_policy_sound_witness:
  "\<exists>e. evaluateIdentityPolicy run_policy 0x21 1 = Inr e \<and> ie_assurance e = 3 \<and> performed ''wallet_control'' 0x21"
proof -
  obtain e where e: "evaluateIdentityPolicy run_policy 0x21 1 = Inr e" by (simp add: evaluateIdentityPolicy_def run_policy_defined Let_def)
  moreover have "ie_passed e \<and> ie_assurance e = 3"
    using e unfolding evaluateIdentityPolicy_def run_policy_defined bindE_simps
    by (auto simp: Let_def violations_of_def BIOMETRICS_def authorized_checks_def
        earned_def run_policy_def REQUIREMENTS_def result_of_def run_performed METHOD_BY_REQUIREMENT_def)
  ultimately show ?thesis using identity_policy_sound [of run_policy "0x21" 1 e] by (auto simp: run_policy_def)
qed

end
