(* ===== verification/Kr_Adapter.thy ===== *)
theory Kr_Adapter
  imports Identity
begin

text \<open>
  The identity steps of an issuance: the three-axis reconciliation (\<open>pipeline/reconcile.ts\<close>)
  and the Korean jurisdiction adapter that turns vendor results into method bits
  (\<open>pipeline/adapters/kr.ts\<close>). The vendors are the parameters that the code calls; the Unicode
  tables behind \<open>normalize('NFKC')\<close> and \<open>toUpperCase\<close> are the record \<open>unicode\<close>.
\<close>

unbundle bit_operations_syntax

subsection \<open>Reconciliation\<close>

record unicode =
  u_nfkc :: "string \<Rightarrow> string"
  u_upper :: "string \<Rightarrow> string"

record reconcile_input =
  ri_fullName :: string
  ri_dateOfBirth :: string
  ri_idDocument :: "(string \<times> string) option"
  ri_bankAccount :: "string option"

datatype axis = AxMatch | AxMismatch | AxUnavailable

record reconcile_result =
  rc_passed :: bool
  rc_declaredVsIdDoc :: axis
  rc_declaredVsBank :: axis
  rc_idDocVsBank :: axis
  rc_declaredName :: hex
  rc_idDocName :: "hex option"
  rc_bankHolderName :: "hex option"
  rc_dobMatch :: bool

definition normalizeName :: "unicode \<Rightarrow> string \<Rightarrow> string" where
  "normalizeName U s = u_upper U (filter (\<lambda>c. \<not> (is_space c \<or> c \<in> set [CHR ''.'', CHR '','', CHR 0x27, CHR 0x60, CHR ''-'']))
     (u_nfkc U s))"

definition digest_text :: "ethers \<Rightarrow> string \<Rightarrow> hex" where
  "digest_text E s = e_keccak E [Utf8 s]"

definition compare_axis :: "string option \<Rightarrow> string option \<Rightarrow> axis" where
  "compare_axis a b = (case (a, b) of (Some x, Some y) \<Rightarrow> if x = y then AxMatch else AxMismatch | _ \<Rightarrow> AxUnavailable)"

definition reconcile :: "ethers \<Rightarrow> unicode \<Rightarrow> reconcile_input \<Rightarrow> reconcile_result" where
  "reconcile E U i =
     (let dn = normalizeName U (ri_fullName i);
          idn = map_option (\<lambda>d. normalizeName U (fst d)) (ri_idDocument i);
          bn = map_option (normalizeName U) (ri_bankAccount i);
          a1 = compare_axis (Some dn) idn; a2 = compare_axis (Some dn) bn; a3 = compare_axis idn bn;
          dob = (case ri_idDocument i of None \<Rightarrow> False | Some d \<Rightarrow> ri_dateOfBirth i = snd d);
          text = (\<lambda>t. case t of Some s \<Rightarrow> if s = [] then None else Some (digest_text E s) | None \<Rightarrow> None) in
      \<lparr>rc_passed = (a1 \<noteq> AxMismatch \<and> a2 \<noteq> AxMismatch \<and> a3 \<noteq> AxMismatch \<and> (ri_idDocument i \<noteq> None \<longrightarrow> dob)),
       rc_declaredVsIdDoc = a1, rc_declaredVsBank = a2, rc_idDocVsBank = a3,
       rc_declaredName = digest_text E dn, rc_idDocName = text idn, rc_bankHolderName = text bn, rc_dobMatch = dob\<rparr>)"

subsection \<open>Inputs and results of the checks\<close>

datatype vendor_error = VendorError (ve_message: string) (ve_code: string)

record id_document_input =
  di_docType :: string
  di_image :: "string option"
  di_fullName :: "string option"
  di_birthDate :: string
  di_rrn :: "string option"
  di_issueDate :: "string option"
  di_licenseNumber :: "string option"
  di_serialNo :: "string option"

record id_document_result =
  id_docType :: string
  id_fullName :: string
  id_dateOfBirth :: string
  id_docHash :: hex
  id_authenticityChecked :: bool
  id_authentic :: bool
  id_faceMatched :: bool
  id_livenessPassed :: bool
  id_vendor_name :: string
  id_live :: bool
  id_ref :: "string option"
  id_code :: "string option"

datatype id_document_outcome = Verified id_document_result | TwoWay string

record bank_account_result =
  ba_bankCode :: string
  ba_holderName :: string
  ba_holderVerified :: bool
  ba_oneWonVerified :: bool
  ba_vendor :: string
  ba_live :: bool
  ba_ref :: "string option"

record id_document_vendor =
  iv_name :: string
  iv_live :: bool
  iv_biometricChecks :: "requirement list option"
  iv_verify :: "id_document_input \<Rightarrow> vendor_error + id_document_outcome"

record bank_account_vendor =
  bv_name :: string
  bv_live :: bool
  bv_holderName :: "string \<times> string \<times> string \<times> string \<Rightarrow> vendor_error + string option"
  bv_oneWonTransfer :: "string \<times> string \<times> string \<Rightarrow> vendor_error + string option"

record kr_adapter =
  ka_idVendor :: "id_document_vendor option"
  ka_bankVendor :: "bank_account_vendor option"
  ka_sandboxBits :: bool
  ka_biometrics :: "biometric_policy option"

record kr_result =
  kr_regime :: int
  kr_methods :: "32 word"
  kr_rejected :: "string option"
  kr_idDocument :: "(string \<times> string \<times> hex) option"
  kr_bankAccount :: "string option"
  kr_evidence :: json

definition truthy_text :: "string option \<Rightarrow> bool" where
  "truthy_text t \<longleftrightarrow> (case t of None \<Rightarrow> False | Some s \<Rightarrow> s \<noteq> [])"

definition KR_BANKS :: "string list" where
  "KR_BANKS = [''004'', ''088'', ''020'', ''081'', ''011'', ''003'', ''023'', ''027'', ''090'', ''089'', ''092'', ''002'',
     ''007'', ''031'', ''032'', ''034'', ''035'', ''037'', ''039'', ''045'', ''048'', ''050'', ''064'', ''071'']"

definition isKrBankCode :: "string \<Rightarrow> bool" where
  "isKrBankCode c \<longleftrightarrow> c \<in> set KR_BANKS"

definition dec_digit :: "char \<Rightarrow> bool" where
  "dec_digit c = (let n = (of_char c :: nat) in 48 \<le> n \<and> n \<le> 57)"

definition digits_exact :: "nat \<Rightarrow> string \<Rightarrow> bool" where
  "digits_exact n s \<longleftrightarrow> length s = n \<and> list_all dec_digit s"

definition bad_input :: "string \<Rightarrow> vendor_error" where
  "bad_input m = VendorError m ''BAD_INPUT''"

definition validateIdInput :: "id_document_input \<Rightarrow> vendor_error + unit" where
  "validateIdInput i =
     bindE (requireE (bad_input ''a document image is required'') (case di_image i of None \<Rightarrow> False | Some b \<Rightarrow> b \<noteq> [])) (\<lambda>_.
     bindE (requireE (bad_input ''fullName is required'') (case di_fullName i of None \<Rightarrow> False | Some n \<Rightarrow> trim n \<noteq> [])) (\<lambda>_.
     bindE (requireE (bad_input ''birthDate must be YYYYMMDD'') (digits_exact 8 (di_birthDate i))) (\<lambda>_.
     if di_docType i = ''RRC'' then
       bindE (requireE (bad_input ''rrn must be 13 digits'') (digits_exact 13 (case di_rrn i of None \<Rightarrow> [] | Some r \<Rightarrow> r))) (\<lambda>_.
       bindE (requireE (bad_input ''issueDate must be YYYYMMDD'') (digits_exact 8 (case di_issueDate i of None \<Rightarrow> [] | Some r \<Rightarrow> r))) (\<lambda>_.
       requireE (bad_input ''rrn and birthDate disagree'') (take 6 (the (di_rrn i)) = drop 2 (di_birthDate i))))
     else if di_docType i = ''DL'' then
       bindE (requireE (bad_input ''licenseNumber must be 12 digits'') (digits_exact 12 (case di_licenseNumber i of None \<Rightarrow> [] | Some r \<Rightarrow> r))) (\<lambda>_.
       requireE (bad_input ''serialNo must be 5 or 6 characters'') (case di_serialNo i of None \<Rightarrow> False
         | Some s \<Rightarrow> (length s = 5 \<or> length s = 6) \<and> list_all alnum s))
     else Inl (bad_input (''unknown docType '' @ di_docType i)))))"

definition isoDate :: "string \<Rightarrow> string" where
  "isoDate d = take 4 d @ ''-'' @ take 2 (drop 4 d) @ ''-'' @ take 2 (drop 6 d)"

definition ymd8 :: "string \<Rightarrow> string" where
  "ymd8 day = filter (\<lambda>c. c \<noteq> CHR ''-'') day"

definition ymd6 :: "string \<Rightarrow> string" where
  "ymd6 ymd = drop 2 ymd"

subsection \<open>The adapter\<close>

definition new_adapter :: "kr_adapter \<Rightarrow> vendor_error + kr_adapter" where
  "new_adapter A = (case ka_biometrics A of
     Some (Authorized cs n l a) \<Rightarrow>
       bindE (requireE (VendorError ''biometric authorization is incomplete'' ''BIOMETRIC_POLICY_INVALID'')
         (cs \<noteq> [] \<and> list_all REFERENCE [n, l, a])) (\<lambda>_. Inr A)
   | _ \<Rightarrow> Inr A)"

definition connected :: "kr_adapter \<Rightarrow> bool" where
  "connected A \<longleftrightarrow> ka_idVendor A \<noteq> None \<and> ka_bankVendor A \<noteq> None"

definition adapter_live :: "kr_adapter \<Rightarrow> bool" where
  "adapter_live A \<longleftrightarrow> (case (ka_idVendor A, ka_bankVendor A) of (Some v, Some b) \<Rightarrow> iv_live v \<and> bv_live b | _ \<Rightarrow> False)"

definition KR_FSC_NONFACE :: int where "KR_FSC_NONFACE = 1"
definition KR_FSC_NONFACE_SANDBOX :: int where "KR_FSC_NONFACE_SANDBOX = 2"

definition configured_regime :: "kr_adapter \<Rightarrow> int" where
  "configured_regime A = (if adapter_live A then KR_FSC_NONFACE else KR_FSC_NONFACE_SANDBOX)"

definition verifyIdDocument :: "kr_adapter \<Rightarrow> id_document_input \<Rightarrow> vendor_error + id_document_outcome" where
  "verifyIdDocument A i = (case ka_idVendor A of
     None \<Rightarrow> Inl (VendorError ''no ID document vendor configured'' ''NO_VENDOR'')
   | Some v \<Rightarrow> (case iv_biometricChecks v of
       None \<Rightarrow> Inl (VendorError ''ID vendor did not declare its biometric capabilities'' ''BIOMETRIC_POLICY_REQUIRED'')
     | Some declared \<Rightarrow>
       bindE (requireE (VendorError ''ID vendor declared an unknown biometric capability'' ''BIOMETRIC_POLICY_INVALID'')
         (list_all (\<lambda>c. c = ''face_match'' \<or> c = ''liveness'') declared)) (\<lambda>_.
       bindE (requireE (VendorError ''biometric processing is not authorized by prior necessity and legal-basis decisions'' ''BIOMETRIC_NOT_AUTHORIZED'')
         (declared = [] \<or> (case ka_biometrics A of
            Some (Authorized cs n l a) \<Rightarrow> list_all (\<lambda>c. c \<in> set cs) declared \<and> n \<noteq> [] \<and> l \<noteq> [] \<and> a \<noteq> []
          | _ \<Rightarrow> False))) (\<lambda>_.
       bindE (validateIdInput i) (\<lambda>_. iv_verify v i)))))"

definition only_digits :: "string \<Rightarrow> string" where
  "only_digits s = filter dec_digit s"

definition lookupHolder :: "unicode \<Rightarrow> kr_adapter \<Rightarrow> string \<Rightarrow> string \<Rightarrow> string \<Rightarrow> string \<Rightarrow> vendor_error + string \<times> bool" where
  "lookupHolder U A bankCode accountNumber birthDate declaredName = (case ka_bankVendor A of
     None \<Rightarrow> Inl (VendorError ''no bank account vendor configured'' ''NO_VENDOR'')
   | Some v \<Rightarrow>
     bindE (requireE (VendorError (''unknown bank code '' @ bankCode) ''BAD_BANK'') (isKrBankCode bankCode)) (\<lambda>_.
     bindE (requireE (bad_input ''birthDate must be YYMMDD'') (digits_exact 6 birthDate)) (\<lambda>_.
     bindE (requireE (bad_input ''account number must be 8 to 16 digits'')
       (8 \<le> length (only_digits accountNumber) \<and> length (only_digits accountNumber) \<le> 16)) (\<lambda>_.
     bindE (bv_holderName v (bankCode, only_digits accountNumber, birthDate, declaredName)) (\<lambda>r.
     if truthy_text r then Inr (the r, normalizeName U (the r) = normalizeName U declaredName)
     else Inl (VendorError ''the bank did not return a holder for this account and real-name number'' ''NO_HOLDER''))))))"

definition sendOneWon :: "kr_adapter \<Rightarrow> string \<Rightarrow> string \<Rightarrow> string \<Rightarrow> vendor_error + string" where
  "sendOneWon A bankCode accountNumber holder = (case ka_bankVendor A of
     None \<Rightarrow> Inl (VendorError ''no bank account vendor configured'' ''NO_VENDOR'')
   | Some v \<Rightarrow> bindE (bv_oneWonTransfer v (bankCode, only_digits accountNumber, holder)) (\<lambda>r.
     if truthy_text r then Inr (the r) else Inl (VendorError ''the transfer returned no code'' ''NO_CODE'')))"

subsection \<open>From results to bits\<close>

definition adapter_counts :: "kr_adapter \<Rightarrow> bool \<Rightarrow> bool" where
  "adapter_counts A live \<longleftrightarrow> live \<or> ka_sandboxBits A"

definition biometricAllowed :: "kr_adapter \<Rightarrow> requirement \<Rightarrow> bool" where
  "biometricAllowed A c \<longleftrightarrow> (case ka_biometrics A of Some (Authorized cs _ _ _) \<Rightarrow> c \<in> set cs | _ \<Rightarrow> False)"

definition real_results :: "id_document_result option \<Rightarrow> bank_account_result option \<Rightarrow> bool" where
  "real_results i b \<longleftrightarrow> (case (i, b) of
     (Some d, Some a) \<Rightarrow> id_live d \<and> id_authenticityChecked d \<and> id_authentic d
       \<and> ba_live a \<and> ba_holderVerified a \<and> ba_oneWonVerified a
   | _ \<Rightarrow> False)"

definition when_bit :: "bool \<Rightarrow> string \<Rightarrow> 32 word \<Rightarrow> 32 word" where
  "when_bit b k m = (if b then m OR method_bit k else m)"

definition id_bits :: "kr_adapter \<Rightarrow> id_document_result option \<Rightarrow> 32 word \<Rightarrow> 32 word" where
  "id_bits A i m = (case i of None \<Rightarrow> m | Some d \<Rightarrow>
     when_bit (adapter_counts A (id_live d) \<and> id_livenessPassed d \<and> biometricAllowed A ''liveness'') ''LIVENESS''
     (when_bit (adapter_counts A (id_live d) \<and> id_faceMatched d \<and> biometricAllowed A ''face_match'') ''FACE_MATCH''
     (when_bit (adapter_counts A (id_live d) \<and> id_authenticityChecked d \<and> id_authentic d) ''ID_DOC_AUTHENTICITY''
     (when_bit True ''ID_DOC_IMAGE'' m))))"

text \<open>A later refusal overwrites an earlier one.\<close>

definition id_rejection :: "kr_adapter \<Rightarrow> id_document_result option \<Rightarrow> string option" where
  "id_rejection A i = (case i of None \<Rightarrow> None | Some d \<Rightarrow>
     if id_livenessPassed d \<and> \<not> biometricAllowed A ''liveness'' then Some ''liveness result was not authorized before biometric processing''
     else if id_faceMatched d \<and> \<not> biometricAllowed A ''face_match'' then Some ''face match result was not authorized before biometric processing''
     else if id_authenticityChecked d \<and> \<not> id_authentic d then Some ''the issuing authority did not confirm the document''
     else None)"

definition bank_bits :: "kr_adapter \<Rightarrow> bank_account_result option \<Rightarrow> 32 word \<Rightarrow> 32 word" where
  "bank_bits A b m = (case b of None \<Rightarrow> m | Some a \<Rightarrow>
     when_bit (adapter_counts A (ba_live a) \<and> ba_holderVerified a \<and> ba_oneWonVerified a) ''BANK_ACCOUNT'' m)"

definition opt_json :: "string option \<Rightarrow> json" where
  "opt_json t = (case t of None \<Rightarrow> JsNull | Some s \<Rightarrow> JsStr s)"

definition id_evidence :: "kr_adapter \<Rightarrow> id_document_result option \<Rightarrow> json" where
  "id_evidence A i = (case i of
     None \<Rightarrow> JsObj [(''skipped'', JsBool True),
       (''reason'', JsStr (if ka_idVendor A \<noteq> None then ''no document verified'' else ''no vendor connected''))]
   | Some d \<Rightarrow> JsObj [(''docType'', JsStr (id_docType d)), (''docHash'', JsStr (id_docHash d)), (''vendor'', JsStr (id_vendor_name d)),
       (''live'', JsBool (id_live d)), (''ref'', opt_json (id_ref d)), (''code'', opt_json (id_code d)),
       (''authenticityChecked'', JsBool (id_authenticityChecked d)), (''authentic'', JsBool (id_authentic d)),
       (''faceMatched'', JsBool (id_faceMatched d)), (''livenessPassed'', JsBool (id_livenessPassed d))])"

definition bank_evidence :: "kr_adapter \<Rightarrow> bank_account_result option \<Rightarrow> json" where
  "bank_evidence A b = (case b of
     None \<Rightarrow> JsObj [(''skipped'', JsBool True),
       (''reason'', JsStr (if ka_bankVendor A \<noteq> None then ''no account verified'' else ''no vendor connected''))]
   | Some a \<Rightarrow> JsObj [(''bankCode'', JsStr (ba_bankCode a)), (''vendor'', JsStr (ba_vendor a)), (''live'', JsBool (ba_live a)),
       (''ref'', opt_json (ba_ref a)), (''holderVerified'', JsBool (ba_holderVerified a)),
       (''oneWonVerified'', JsBool (ba_oneWonVerified a))])"

definition adapter_run :: "kr_adapter \<Rightarrow> bool \<Rightarrow> id_document_result option \<Rightarrow> bank_account_result option \<Rightarrow> kr_result" where
  "adapter_run A walletControlProven i b =
     (let real = real_results i b;
          regime = (if adapter_live A \<and> \<not> ka_sandboxBits A \<and> real then KR_FSC_NONFACE else KR_FSC_NONFACE_SANDBOX) in
      \<lparr>kr_regime = regime,
       kr_methods = bank_bits A b (id_bits A i (when_bit walletControlProven ''WALLET_CONTROL'' 0)),
       kr_rejected = id_rejection A i,
       kr_idDocument = map_option (\<lambda>d. (id_fullName d, id_dateOfBirth d, id_docHash d)) i,
       kr_bankAccount = map_option ba_holderName b,
       kr_evidence = JsObj [(''regime'', JsInt regime), (''configuredRegime'', JsInt (configured_regime A)),
         (''regimeRule'', JsStr ''kr-results-v2''), (''vendorsConnected'', JsBool (connected A)),
         (''sandboxBits'', JsBool (ka_sandboxBits A)), (''liveResultsComplete'', JsBool real),
         (''idDocument'', id_evidence A i), (''bankAccount'', bank_evidence A b)]\<rparr>)"

subsection \<open>Bits come from checks\<close>

lemma method_bit_shift: "map_of method_shifts k = Some n \<Longrightarrow> method_bit k = push_bit n 1"
  by (simp add: method_bit_def Methods_def map_of_map)

lemma has_bit: "n < 32 \<Longrightarrow> w AND push_bit n 1 = push_bit n 1 \<longleftrightarrow> bit w n" for w :: "32 word"
proof
  assume "n < 32" "w AND push_bit n 1 = push_bit n 1"
  then have "bit (w AND push_bit n 1) n = bit (push_bit n 1 :: 32 word) n" by simp
  with \<open>n < 32\<close> show "bit w n" by (simp add: bit_simps)
next
  assume "bit w n"
  then show "w AND push_bit n 1 = push_bit n 1" by (intro bit_eqI) (auto simp: bit_simps)
qed

lemma performed_bit:
  "performed ''wallet_control'' m \<longleftrightarrow> bit m 0" "performed ''document_authenticity'' m \<longleftrightarrow> bit m 2"
  "performed ''face_match'' m \<longleftrightarrow> bit m 3" "performed ''liveness'' m \<longleftrightarrow> bit m 4"
  "performed ''account_control'' m \<longleftrightarrow> bit m 5"
  by (simp_all add: performed_def METHOD_BY_REQUIREMENT_def method_bit_shift method_shifts_def has_bit
      has_bit [of 0, simplified] del: push_bit_of_1)

lemma bit_when_bit:
  "map_of method_shifts k = Some n \<Longrightarrow> n' < 32 \<Longrightarrow> bit (when_bit c k m) n' \<longleftrightarrow> bit m n' \<or> c \<and> n = n'"
  by (auto simp: when_bit_def method_bit_shift bit_simps)

lemma adapter_performed:
  "performed ''wallet_control'' (kr_methods (adapter_run A w i b)) \<longleftrightarrow> w"
  "performed ''document_authenticity'' (kr_methods (adapter_run A w i b)) \<longleftrightarrow>
     (\<exists>d. i = Some d \<and> adapter_counts A (id_live d) \<and> id_authenticityChecked d \<and> id_authentic d)"
  "performed ''account_control'' (kr_methods (adapter_run A w i b)) \<longleftrightarrow>
     (\<exists>a. b = Some a \<and> adapter_counts A (ba_live a) \<and> ba_holderVerified a \<and> ba_oneWonVerified a)"
  "performed ''face_match'' (kr_methods (adapter_run A w i b)) \<longleftrightarrow>
     (\<exists>d. i = Some d \<and> adapter_counts A (id_live d) \<and> id_faceMatched d \<and> biometricAllowed A ''face_match'')"
  "performed ''liveness'' (kr_methods (adapter_run A w i b)) \<longleftrightarrow>
     (\<exists>d. i = Some d \<and> adapter_counts A (id_live d) \<and> id_livenessPassed d \<and> biometricAllowed A ''liveness'')"
proof -
  note d = adapter_run_def Let_def bank_bits_def id_bits_def performed_bit
  have k: "map_of method_shifts ''WALLET_CONTROL'' = Some 0" "map_of method_shifts ''ID_DOC_IMAGE'' = Some 1"
    "map_of method_shifts ''ID_DOC_AUTHENTICITY'' = Some 2" "map_of method_shifts ''FACE_MATCH'' = Some 3"
    "map_of method_shifts ''LIVENESS'' = Some 4" "map_of method_shifts ''BANK_ACCOUNT'' = Some 5"
    by (simp_all add: method_shifts_def)
  note b = bit_when_bit [OF k(1)] bit_when_bit [OF k(2)] bit_when_bit [OF k(3)] bit_when_bit [OF k(4)]
    bit_when_bit [OF k(5)] bit_when_bit [OF k(6)]
  show "performed ''wallet_control'' (kr_methods (adapter_run A w i b)) \<longleftrightarrow> w"
    by (cases i; cases b) (simp_all add: d b)
  show "performed ''document_authenticity'' (kr_methods (adapter_run A w i b)) \<longleftrightarrow>
     (\<exists>d. i = Some d \<and> adapter_counts A (id_live d) \<and> id_authenticityChecked d \<and> id_authentic d)"
    by (cases i; cases b) (simp_all add: d b)
  show "performed ''account_control'' (kr_methods (adapter_run A w i b)) \<longleftrightarrow>
     (\<exists>a. b = Some a \<and> adapter_counts A (ba_live a) \<and> ba_holderVerified a \<and> ba_oneWonVerified a)"
    by (cases i; cases b) (simp_all add: d b)
  show "performed ''face_match'' (kr_methods (adapter_run A w i b)) \<longleftrightarrow>
     (\<exists>d. i = Some d \<and> adapter_counts A (id_live d) \<and> id_faceMatched d \<and> biometricAllowed A ''face_match'')"
    by (cases i; cases b) (simp_all add: d b)
  show "performed ''liveness'' (kr_methods (adapter_run A w i b)) \<longleftrightarrow>
     (\<exists>d. i = Some d \<and> adapter_counts A (id_live d) \<and> id_livenessPassed d \<and> biometricAllowed A ''liveness'')"
    by (cases i; cases b) (simp_all add: d b)
qed

end
