(* ===== verification/Merkle.thy ===== *)
theory Merkle
  imports Ethers Commitment
begin

text \<open>
  The sorted-pair Merkle tree of \<open>pipeline/merkle.ts\<close> and the claim commitments of
  \<open>pipeline/claims.ts\<close>: leaves are sorted, a node hashes its two children in the order of
  their bytes, an odd tail is carried up unchanged. The proof of any disclosed claim verifies.
\<close>

datatype merkle_error = NotHexData | LeafNotFound | NoSuchClaim string | InvalidSalt

definition ZeroHash :: hex where
  "ZeroHash = ''0x'' @ replicate 64 CHR ''0''"

definition hashPair :: "ethers \<Rightarrow> hex \<Rightarrow> hex \<Rightarrow> merkle_error + hex" where
  "hashPair E a b =
     (if \<not> e_data E a \<or> \<not> e_data E b then Inl NotHexData
      else Inr (if lower a \<le> lower b then e_keccak E [Data a, Data b] else e_keccak E [Data b, Data a]))"

fun merkle_level :: "ethers \<Rightarrow> hex list \<Rightarrow> merkle_error + hex list" where
  "merkle_level E (x # y # rest) =
     bindE (hashPair E x y) (\<lambda>h. bindE (merkle_level E rest) (\<lambda>hs. Inr (h # hs)))"
| "merkle_level E xs = Inr xs"

lemma length_merkle_level: "merkle_level E xs = Inr ys \<Longrightarrow> length ys = (length xs + 1) div 2"
  by (induction E xs arbitrary: ys rule: merkle_level.induct) (auto simp: bindE_Inr_iff)

function merkle_top :: "ethers \<Rightarrow> hex list \<Rightarrow> merkle_error + hex list" where
  "merkle_top E level =
     (if length level > 1 then bindE (merkle_level E level) (merkle_top E) else Inr level)"
  by pat_completeness auto
termination
  by (relation "measure (\<lambda>(E, level). length level)") (auto dest: length_merkle_level)

declare merkle_top.simps [simp del]

definition merkleRoot :: "ethers \<Rightarrow> hex list \<Rightarrow> merkle_error + hex" where
  "merkleRoot E leaves =
     (if leaves = [] then Inr ZeroHash
      else bindE (merkle_top E (sort leaves)) (\<lambda>level. Inr (hd level)))"

function merkle_path :: "ethers \<Rightarrow> hex list \<Rightarrow> nat \<Rightarrow> merkle_error + hex list" where
  "merkle_path E level idx =
     (if length level > 1 then
        let sibling = (if idx mod 2 = 0 then idx + 1 else idx - 1);
            here = (if sibling < length level then [level ! sibling] else []) in
        bindE (merkle_level E level) (\<lambda>nxt.
        bindE (merkle_path E nxt (idx div 2)) (\<lambda>rest. Inr (here @ rest)))
      else Inr [])"
  by pat_completeness auto
termination
  by (relation "measure (\<lambda>(E, level, idx). length level)") (auto dest: length_merkle_level)

declare merkle_path.simps [simp del]

definition merkleProof :: "ethers \<Rightarrow> hex list \<Rightarrow> hex \<Rightarrow> merkle_error + hex list" where
  "merkleProof E leaves leaf =
     (case index_of leaf (sort leaves) of None \<Rightarrow> Inl LeafNotFound
      | Some idx \<Rightarrow> merkle_path E (sort leaves) idx)"

fun fold_path :: "ethers \<Rightarrow> hex \<Rightarrow> hex list \<Rightarrow> merkle_error + hex" where
  "fold_path E acc [] = Inr acc"
| "fold_path E acc (p # ps) = bindE (hashPair E acc p) (\<lambda>h. fold_path E h ps)"

definition verifyProof :: "ethers \<Rightarrow> hex \<Rightarrow> hex \<Rightarrow> hex list \<Rightarrow> merkle_error + bool" where
  "verifyProof E root leaf proof_path = bindE (fold_path E leaf proof_path) (\<lambda>acc. Inr (same acc root))"

subsection \<open>Claims\<close>

record claim =
  cl_key :: string
  cl_value :: string
  cl_salt :: hex

definition claimLeaf :: "ethers \<Rightarrow> claim \<Rightarrow> merkle_error + hex" where
  "claimLeaf E c =
     (if e_bytes32 E (cl_salt c)
      then Inr (e_abi E [AbiString (cl_key c), AbiString (cl_value c), AbiBytes32 (cl_salt c)])
      else Inl InvalidSalt)"

definition claimsRoot :: "ethers \<Rightarrow> claim list \<Rightarrow> merkle_error + hex" where
  "claimsRoot E claims = bindE (mapE (claimLeaf E) claims) (merkleRoot E)"

definition discloseClaim :: "ethers \<Rightarrow> claim list \<Rightarrow> string \<Rightarrow> merkle_error + claim \<times> hex list" where
  "discloseClaim E claims key =
     (case List.find (\<lambda>c. cl_key c = key) claims of
        None \<Rightarrow> Inl (NoSuchClaim key)
      | Some c \<Rightarrow> bindE (mapE (claimLeaf E) claims) (\<lambda>leaves.
          bindE (claimLeaf E c) (\<lambda>leaf.
          bindE (merkleProof E leaves leaf) (\<lambda>path. Inr (c, path)))))"

definition verifyDisclosure :: "ethers \<Rightarrow> hex \<Rightarrow> claim \<Rightarrow> hex list \<Rightarrow> merkle_error + bool" where
  "verifyDisclosure E root c path = bindE (claimLeaf E c) (\<lambda>leaf. verifyProof E root leaf path)"

subsection \<open>Every proof verifies\<close>

text \<open>The hash of a pair does not depend on the order of its arguments.\<close>

lemma hashPair_comm: "bytes_only E \<Longrightarrow> hashPair E a b = hashPair E b a"
  using bytes_onlyD [of E "[Data a, Data b]" "[Data b, Data a]"]
  by (auto simp: hashPair_def)

lemma merkle_level_nth:
  "merkle_level E xs = Inr ys \<Longrightarrow> j < length ys \<Longrightarrow>
     (if 2 * j + 1 < length xs then hashPair E (xs ! (2 * j)) (xs ! (2 * j + 1)) else Inr (xs ! (2 * j)))
       = Inr (ys ! j)"
proof (induction E xs arbitrary: ys j rule: merkle_level.induct)
  case (1 E x y rest)
  from "1.prems"(1) obtain h hs where h: "hashPair E x y = Inr h" "merkle_level E rest = Inr hs"
    "ys = h # hs" by (auto simp: bindE_Inr_iff)
  show ?case
  proof (cases j)
    case 0
    with h show ?thesis by simp
  next
    case (Suc i)
    with "1.prems"(2) h(3) have "i < length hs" by simp
    from "1.IH" [OF h(1) h(2) this] show ?thesis using Suc h by (simp split: if_splits)
  qed
qed auto

text \<open>One level of the walk: hashing with the sibling, where there is one, gives the parent.\<close>

lemma merkle_parent:
  assumes "bytes_only E" "merkle_level E xs = Inr ys" "idx < length xs"
  defines "sib \<equiv> if idx mod 2 = 0 then idx + 1 else idx - 1"
  shows "(if sib < length xs then hashPair E (xs ! idx) (xs ! sib) else Inr (xs ! idx)) = Inr (ys ! (idx div 2))"
    and "idx div 2 < length ys"
proof -
  show j: "idx div 2 < length ys" using length_merkle_level [OF assms(2)] assms(3) by simp
  note nth = merkle_level_nth [OF assms(2) j]
  show "(if sib < length xs then hashPair E (xs ! idx) (xs ! sib) else Inr (xs ! idx)) = Inr (ys ! (idx div 2))"
  proof (cases "idx mod 2 = 0")
    case True
    then have "2 * (idx div 2) = idx" by presburger
    with True nth show ?thesis by (simp add: sib_def split: if_splits)
  next
    case False
    then have i: "2 * (idx div 2) = idx - 1" "2 * (idx div 2) + 1 = idx" "idx - 1 < length xs"
      using assms(3) by presburger+
    with False nth assms(3) hashPair_comm [OF assms(1)] show ?thesis by (simp add: sib_def)
  qed
qed

lemma merkle_path_complete:
  assumes "bytes_only E"
  shows "merkle_top E level = Inr [r] \<Longrightarrow> idx < length level \<Longrightarrow>
     \<exists>path. merkle_path E level idx = Inr path \<and> fold_path E (level ! idx) path = Inr r"
proof (induction "length level" arbitrary: level idx rule: less_induct)
  case less
  show ?case
  proof (cases "length level > 1")
    case False
    with less.prems have "level = [r]" "idx = 0"
      by (auto simp: merkle_top.simps [of E level])
    then show ?thesis by (simp add: merkle_path.simps)
  next
    case True
    with less.prems(1) obtain nxt where n: "merkle_level E level = Inr nxt" "merkle_top E nxt = Inr [r]"
      by (auto simp: merkle_top.simps [of E level] bindE_Inr_iff)
    note parent = merkle_parent [OF assms n(1) less.prems(2)]
    have "length nxt < length level" using length_merkle_level [OF n(1)] True by simp
    from less.hyps [OF this n(2) parent(2)] obtain path where
      p: "merkle_path E nxt (idx div 2) = Inr path" "fold_path E (nxt ! (idx div 2)) path = Inr r" by blast
    let ?sib = "if idx mod 2 = 0 then idx + 1 else idx - 1"
    let ?here = "if ?sib < length level then [level ! ?sib] else []"
    have "merkle_path E level idx = Inr (?here @ path)"
      using True n(1) p(1) by (subst merkle_path.simps) (simp only: Let_def if_True bindE_simps)
    moreover have "fold_path E (level ! idx) (?here @ path) = Inr r"
      using parent(1) p(2) by (cases "?sib < length level") (simp_all del: One_nat_def)
    ultimately show ?thesis by blast
  qed
qed

definition merkle_wf :: "ethers \<Rightarrow> hex list \<times> hex \<Rightarrow> bool" where
  "merkle_wf E t \<longleftrightarrow> bytes_only E \<and> merkle_top E (fst t) = Inr [snd t]"

interpretation claims: commitment
  "merkle_wf E" snd fst "\<lambda>t i. merkle_path E (fst t) i" "verifyProof E" for E
proof unfold_locales
  fix t :: "hex list \<times> hex" and i
  assume wf: "merkle_wf E t" and i: "i < length (fst t)"
  from merkle_path_complete [of E "fst t" "snd t" i] wf i obtain path where
    p: "merkle_path E (fst t) i = Inr path" "fold_path E (fst t ! i) path = Inr (snd t)"
    by (auto simp: merkle_wf_def)
  from p(1) show "\<exists>p. merkle_path E (fst t) i = Inr p" by blast
  fix q assume "merkle_path E (fst t) i = Inr q"
  with p show "verifyProof E (snd t) (fst t ! i) q = Inr True" by (simp add: verifyProof_def)
qed

lemma merkle_top_singleton: "merkle_top E level = Inr ys \<Longrightarrow> level \<noteq> [] \<Longrightarrow> \<exists>r. ys = [r]"
proof (induction "length level" arbitrary: level rule: less_induct)
  case less
  show ?case
  proof (cases "length level > 1")
    case False
    then have "merkle_top E level = Inr level" by (simp add: merkle_top.simps [of E level])
    moreover from False less.prems(2) have "length level = 1" by (cases level) auto
    ultimately show ?thesis using less.prems(1) by (auto simp: length_Suc_conv)
  next
    case True
    with less.prems obtain nxt where n: "merkle_level E level = Inr nxt" "merkle_top E nxt = Inr ys"
      by (auto simp: merkle_top.simps [of E level] bindE_Inr_iff)
    have "length nxt < length level" "nxt \<noteq> []" using length_merkle_level [OF n(1)] True by auto
    with less.hyps n(2) show ?thesis by blast
  qed
qed

lemma merkleProof_verifies:
  assumes "bytes_only E" "merkleRoot E leaves = Inr root" "merkleProof E leaves leaf = Inr path"
  shows "verifyProof E root leaf path = Inr True"
proof -
  from assms(3) obtain i where i: "index_of leaf (sort leaves) = Some i" "merkle_path E (sort leaves) i = Inr path"
    by (auto simp: merkleProof_def split: option.splits)
  from index_of_Some [OF i(1)] have l: "i < length (sort leaves)" "sort leaves ! i = leaf" by simp_all
  then have ne: "leaves \<noteq> []" by auto
  with assms(2) obtain level where lv: "merkle_top E (sort leaves) = Inr level" "root = hd level"
    by (auto simp: merkleRoot_def bindE_Inr_iff)
  from merkle_top_singleton [OF lv(1)] ne lv(2) have "merkle_top E (sort leaves) = Inr [root]"
    using lv(1) by (metis list.sel(1) list.size(3) length_0_conv length_sort)
  then have "merkle_wf E (sort leaves, root)" using assms(1) by (simp add: merkle_wf_def)
  from claims.prove_verifies [OF this, of i path] l i(2) show ?thesis by simp
qed

text \<open>
  selective disclosure is sound for the discloser: whatever \<open>discloseClaim\<close> returns is
  the first claim with the requested key, and its path verifies against the root that the same
  claims commit to.
\<close>

theorem disclosure_verifies:
  assumes "bytes_only E" and "claimsRoot E claims = Inr root"
    and "discloseClaim E claims key = Inr (c, path)"
  shows "List.find (\<lambda>c. cl_key c = key) claims = Some c \<and> verifyDisclosure E root c path = Inr True"
proof -
  from assms(3) obtain leaves leaf where d: "List.find (\<lambda>c. cl_key c = key) claims = Some c"
    "mapE (claimLeaf E) claims = Inr leaves" "claimLeaf E c = Inr leaf" "merkleProof E leaves leaf = Inr path"
    by (auto simp: discloseClaim_def bindE_Inr_iff split: option.splits)
  from assms(2) d(2) have "merkleRoot E leaves = Inr root" by (simp add: claimsRoot_def)
  from merkleProof_verifies [OF assms(1) this d(4)] d show ?thesis
    by (simp add: verifyDisclosure_def)
qed

definition toy_claims :: "claim list" where
  "toy_claims = [\<lparr>cl_key = ''dob'', cl_value = ''1'', cl_salt = ''s''\<rparr>,
     \<lparr>cl_key = ''name'', cl_value = ''2'', cl_salt = ''t''\<rparr>]"

theorem disclosure_verifies_witness:
  "\<exists>root path. claimsRoot (toy_ethers (\<lambda>vs. ''0x11'')) toy_claims = Inr root
     \<and> verifyDisclosure (toy_ethers (\<lambda>vs. ''0x11'')) root (toy_claims ! 1) path = Inr True"
proof -
  let ?E = "toy_ethers (\<lambda>vs. ''0x11'')"
  have b: "bytes_only ?E"
    unfolding bytes_only_def toy_ethers_def
    by (intro allI impI) (simp only: ethers.select_convs, rule toy_keccak_bytes)
  have r: "\<exists>root. claimsRoot ?E toy_claims = Inr root"
    by (simp add: claimsRoot_def toy_claims_def claimLeaf_def toy_ethers_def merkleRoot_def
        merkle_top.simps hashPair_def)
  have "\<exists>path. discloseClaim ?E toy_claims ''name'' = Inr (toy_claims ! 1, path)"
    by (simp add: discloseClaim_def toy_claims_def claimLeaf_def toy_ethers_def merkleProof_def
        merkle_path.simps hashPair_def)
  with disclosure_verifies [OF b] r show ?thesis by blast
qed

end
