(* ===== verification/Issue.thy ===== *)
theory Issue
  imports Kr_Adapter Merkle
begin

text \<open>
  Issuance orchestration, \<open>pipeline/issue.ts\<close>: one run from the wallet check to the packed
  attributes, with every early return and every step of the evidence chain. The screening
  engine is the parameter \<open>aml\<close>, the random salts are a sequence, and a result carries the head
  and the exported steps of the chain at that point.
\<close>

unbundle bit_operations_syntax

subsection \<open>Requests and outcomes\<close>

record screening_subject =
  su_fullName :: string
  su_dateOfBirth :: string
  su_nationality :: string
  su_residence :: string
  su_walletAddress :: string

datatype decision = ALLOW | REVIEW | BLOCK

record screening_result =
  sc_decision :: decision
  sc_reviewReason :: "string option"
  sc_riskBand :: nat
  sc_hitCount :: nat
  sc_methodsApplied :: "32 word"
  sc_listVersions :: json
  sc_engineVersion :: string
  sc_evidence :: json
  sc_snapshotId :: "string option"

record issue_request =
  rq_wallet :: string
  rq_fullName :: string
  rq_dateOfBirth :: string
  rq_nationality :: string
  rq_residence :: string
  rq_idDocument :: "id_document_result option"
  rq_bankAccount :: "bank_account_result option"
  rq_walletControlProven :: bool
  rq_jurisdiction :: js_num
  rq_kind :: "int option"
  rq_assurance :: "int option"
  rq_identityPolicy :: identity_policy
  rq_processingPolicy :: "(string \<times> json) list option"
  rq_consentStatementHash :: "string option"
  rq_retentionPolicy :: "(string \<times> json) list option"

record issued =
  is_attrs :: hex
  is_claimsRoot :: hex
  is_evidenceHash :: hex
  is_methods :: "32 word"
  is_methodNames :: "string list"
  is_expiry :: int
  is_regime :: int
  is_claims :: "claim list"
  is_evidence :: "evidence_step list"
  is_screeningSnapshotId :: "string option"

datatype issue_outcome = Issued issued
  | Denied string hex "evidence_step list"
  | In_review string hex "evidence_step list"
  | Rejected string hex "evidence_step list"

datatype issue_error = IssueFail string | IssueMerkle merkle_error | IssueAttrs attrs_error

record issue_env =
  en_ethers :: ethers
  en_be_hex :: "int \<Rightarrow> hex"
  en_unicode :: unicode
  en_aml :: "screening_subject \<Rightarrow> string + screening_result"
  en_salt :: "nat \<Rightarrow> hex"

definition EXPIRY_DAYS_BY_BAND :: "nat \<Rightarrow> int option" where
  "EXPIRY_DAYS_BY_BAND b = map_of [(1, 365), (2, 180), (3, 90), (4, 60), (5, 30)] b"

subsection \<open>Payloads of the evidence\<close>

definition set_prop :: "string \<Rightarrow> json \<Rightarrow> (string \<times> json) list \<Rightarrow> (string \<times> json) list" where
  "set_prop k v kvs = (if k \<in> fst ` set kvs then map (\<lambda>(k', v'). (k', if k' = k then v else v')) kvs else kvs @ [(k, v)])"

definition maybe_str :: "string option \<Rightarrow> json" where
  "maybe_str t = (case t of None \<Rightarrow> JsUndefined | Some s \<Rightarrow> JsStr s)"

definition strings_json :: "string list \<Rightarrow> json" where
  "strings_json ss = JsArr (map JsStr ss)"

definition axis_text :: "axis \<Rightarrow> string" where
  "axis_text a = (case a of AxMatch \<Rightarrow> ''match'' | AxMismatch \<Rightarrow> ''mismatch'' | AxUnavailable \<Rightarrow> ''unavailable'')"

definition axes_json :: "reconcile_result \<Rightarrow> json" where
  "axes_json r = JsObj [(''declaredVsIdDoc'', JsStr (axis_text (rc_declaredVsIdDoc r))),
     (''declaredVsBank'', JsStr (axis_text (rc_declaredVsBank r))), (''idDocVsBank'', JsStr (axis_text (rc_idDocVsBank r)))]"

definition reconcile_json :: "reconcile_result \<Rightarrow> json" where
  "reconcile_json r = JsObj [(''axes'', axes_json r),
     (''digests'', JsObj [(''declaredName'', JsStr (rc_declaredName r)), (''idDocName'', maybe_str (rc_idDocName r)),
       (''bankHolderName'', maybe_str (rc_bankHolderName r)), (''dobMatch'', JsBool (rc_dobMatch r))]),
     (''passed'', JsBool (rc_passed r))]"

definition decision_text :: "decision \<Rightarrow> string" where
  "decision_text d = (case d of ALLOW \<Rightarrow> ''ALLOW'' | REVIEW \<Rightarrow> ''REVIEW'' | BLOCK \<Rightarrow> ''BLOCK'')"

definition aml_json :: "screening_result \<Rightarrow> json" where
  "aml_json s = JsObj [(''decision'', JsStr (decision_text (sc_decision s))), (''riskBand'', JsInt (int (sc_riskBand s))),
     (''hitCount'', JsInt (int (sc_hitCount s))), (''listVersions'', sc_listVersions s),
     (''engineVersion'', JsStr (sc_engineVersion s)), (''reviewReason'', maybe_str (sc_reviewReason s)),
     (''methodsApplied'', JsInt (sint (sc_methodsApplied s))), (''evidence'', sc_evidence s)]"

definition outcome_text :: "requirement_outcome \<Rightarrow> string" where
  "outcome_text r = (case r of Pass \<Rightarrow> ''pass'' | Missing \<Rightarrow> ''missing'' | Not_required \<Rightarrow> ''not-required'' | Unsupported \<Rightarrow> ''unsupported'')"

definition requirement_json :: "requirement_result \<Rightarrow> json" where
  "requirement_json r = JsObj [(''requirement'', JsStr (rr_requirement r)), (''method'', opt_json (rr_method r)),
     (''required'', JsBool (rr_required r)), (''performed'', JsBool (rr_performed r)), (''outcome'', JsStr (outcome_text (rr_outcome r)))]"

definition identity_json :: "identity_evaluation \<Rightarrow> json" where
  "identity_json e = JsObj [(''schema'', JsStr ''proofmark-identity-evaluation-v1''), (''policyId'', JsStr (ie_policyId e)),
     (''customerRiskId'', JsStr (ie_customerRiskId e)), (''policyStatus'', JsStr (ie_policyStatus e)),
     (''approvalRef'', opt_json (ie_approvalRef e)), (''subjectKind'', JsStr (ie_subjectKind e)),
     (''assurance'', JsInt (ie_assurance e)), (''assuranceScale'', JsStr ''policy-local''),
     (''assuranceBasis'', opt_json (ie_assuranceBasis e)), (''passed'', JsBool (ie_passed e)),
     (''missing'', strings_json (ie_missing e)), (''violations'', strings_json (ie_violations e)),
     (''requirements'', JsArr (map requirement_json (ie_requirements e))),
     (''biometrics'', JsObj [(''mode'', JsStr (ie_biometricMode e)), (''authorizedChecks'', strings_json (ie_authorizedChecks e))])]"

subsection \<open>The run\<close>

type_synonym 'a issuing = "(evidence_chain, issue_error, 'a) st_res"

definition record_step :: "issue_env \<Rightarrow> int \<Rightarrow> string \<Rightarrow> json \<Rightarrow> evidence_chain \<Rightarrow> hex issuing" where
  "record_step L at name payload c =
     (case chain_append (en_ethers L) \<lparr>es_step = name, es_at = at, es_payload = payload\<rparr> c of
        (Inl e, c') \<Rightarrow> (Inl (IssueFail e), c') | (Inr h, c') \<Rightarrow> (Inr h, c'))"

definition pure_step :: "issue_error + 'a \<Rightarrow> evidence_chain \<Rightarrow> 'a issuing" where
  "pure_step r c = (r, c)"

definition ending :: "(string \<Rightarrow> hex \<Rightarrow> evidence_step list \<Rightarrow> issue_outcome) \<Rightarrow> string \<Rightarrow> evidence_chain \<Rightarrow> issue_outcome issuing" where
  "ending mk reason c = (Inr (mk reason (ec_head c) (ec_steps c)), c)"

definition map_error :: "('e \<Rightarrow> 'f) \<Rightarrow> 'e + 'a \<Rightarrow> 'f + 'a" where
  "map_error f r = (case r of Inl e \<Rightarrow> Inl (f e) | Inr x \<Rightarrow> Inr x)"

definition record_policies :: "issue_env \<Rightarrow> issue_request \<Rightarrow> int \<Rightarrow> evidence_chain \<Rightarrow> unit issuing" where
  "record_policies L r at c =
     bindS (case rq_processingPolicy r of None \<Rightarrow> (Inr [], c)
       | Some kvs \<Rightarrow> record_step L at ''processing_policy'' (JsObj (set_prop ''consentStatementHash''
           (case rq_consentStatementHash r of Some h \<Rightarrow> JsStr h
            | None \<Rightarrow> (case map_of kvs ''consentStatementHash'' of Some v \<Rightarrow> v | None \<Rightarrow> JsUndefined)) kvs)) c) (\<lambda>_ c.
     bindS (case rq_retentionPolicy r of None \<Rightarrow> (Inr [], c)
       | Some kvs \<Rightarrow> record_step L at ''retention_policy'' (JsObj kvs) c) (\<lambda>_ c. (Inr (), c)))"

definition claims_of :: "issue_env \<Rightarrow> issue_request \<Rightarrow> kr_result \<Rightarrow> claim list" where
  "claims_of L r ar = map (\<lambda>(i, k, v). \<lparr>cl_key = k, cl_value = v, cl_salt = en_salt L i\<rparr>)
     (zip [0..<6] ([(''fullName'', rq_fullName r), (''dateOfBirth'', rq_dateOfBirth r), (''nationality'', rq_nationality r),
        (''residence'', rq_residence r)]
      @ (case kr_idDocument ar of None \<Rightarrow> [] | Some d \<Rightarrow> [(''idDocHash'', snd (snd d))])
      @ (case kr_bankAccount ar of None \<Rightarrow> [] | Some h \<Rightarrow> [(''accountHolder'', h)])))"

definition attrs_input :: "issue_request \<Rightarrow> kr_result \<Rightarrow> screening_result \<Rightarrow> identity_evaluation \<Rightarrow> 32 word \<Rightarrow> int \<Rightarrow> mark_attrs_input" where
  "attrs_input r ar sc ie m at = \<lparr>ai_kind = JInt (case rq_kind r of None \<Rightarrow> 1 | Some k \<Rightarrow> k), ai_assurance = JInt (ie_assurance ie),
     ai_regime = JInt (kr_regime ar), ai_jurisdiction = rq_jurisdiction r, ai_methods = JInt (sint m),
     ai_issuedAt = JInt (at div 1000),
     ai_expiry = (case EXPIRY_DAYS_BY_BAND (sc_riskBand sc) of None \<Rightarrow> JNonInt | Some d \<Rightarrow> JInt (at div 1000 + d * 86400)),
     ai_epoch = JInt 0\<rparr>"

definition commit_and_pack :: "issue_env \<Rightarrow> issue_request \<Rightarrow> kr_result \<Rightarrow> screening_result \<Rightarrow> identity_evaluation \<Rightarrow> 32 word \<Rightarrow> int
    \<Rightarrow> evidence_chain \<Rightarrow> issue_outcome issuing" where
  "commit_and_pack L r ar sc ie m at c =
     bindS (pure_step (map_error IssueMerkle (claimsRoot (en_ethers L) (claims_of L r ar))) c) (\<lambda>root c.
     bindS (record_step L at ''commitment'' (JsObj [(''claimsRoot'', JsStr root), (''claimCount'', JsInt (int (length (claims_of L r ar))))]) c) (\<lambda>_ c.
     bindS (pure_step (map_error IssueAttrs (packAttrs (en_be_hex L) (attrs_input r ar sc ie m at))) c) (\<lambda>attrs c.
     bindS (pure_step (requireE (IssueFail ''unsupported credential schema'') (validCredentialAttrs attrs (Some (JInt (at div 1000))))) c) (\<lambda>_ c.
     bindS (record_step L at ''issue'' (JsObj [(''attrs'', JsStr attrs), (''claimsRoot'', JsStr root)]) c) (\<lambda>h c.
     (Inr (Issued \<lparr>is_attrs = attrs, is_claimsRoot = root, is_evidenceHash = h, is_methods = m, is_methodNames = describeMethods m,
        is_expiry = js_val (ai_expiry (attrs_input r ar sc ie m at)), is_regime = kr_regime ar, is_claims = claims_of L r ar,
        is_evidence = ec_steps c, is_screeningSnapshotId = sc_snapshotId sc\<rparr>), c))))))"

definition apply_identity :: "issue_env \<Rightarrow> issue_request \<Rightarrow> kr_result \<Rightarrow> screening_result \<Rightarrow> int \<Rightarrow> evidence_chain \<Rightarrow> issue_outcome issuing" where
  "apply_identity L r ar sc at c = (let m = kr_methods ar OR sc_methodsApplied sc in
     bindS (pure_step (map_error IssueFail (evaluateIdentityPolicy (rq_identityPolicy r) m (case rq_kind r of None \<Rightarrow> 1 | Some k \<Rightarrow> k))) c) (\<lambda>ie c.
     bindS (record_step L at ''identity_policy'' (identity_json ie) c) (\<lambda>_ c.
     if \<not> ie_passed ie
     then ending Rejected (''identity policy requirements not met: '' @ joined (ie_missing ie @ ie_violations ie)) c
     else if (case rq_assurance r of None \<Rightarrow> False | Some a \<Rightarrow> a \<noteq> ie_assurance ie)
     then ending Rejected (''assurance does not match policy-local performed-check basis: expected '' @ decimal (ie_assurance ie)) c
     else commit_and_pack L r ar sc ie m at c)))"

definition screen_subject :: "issue_env \<Rightarrow> issue_request \<Rightarrow> kr_result \<Rightarrow> int \<Rightarrow> evidence_chain \<Rightarrow> issue_outcome issuing" where
  "screen_subject L r ar at c =
     bindS (pure_step (map_error IssueFail (en_aml L \<lparr>su_fullName = rq_fullName r, su_dateOfBirth = rq_dateOfBirth r,
       su_nationality = rq_nationality r, su_residence = rq_residence r, su_walletAddress = rq_wallet r\<rparr>)) c) (\<lambda>sc c.
     bindS (record_step L at ''aml'' (aml_json sc) c) (\<lambda>_ c.
     case sc_decision sc of
       BLOCK \<Rightarrow> ending Denied (''sanctions or high-risk decision (band '' @ decimal (int (sc_riskBand sc)) @ '')'') c
     | REVIEW \<Rightarrow> ending In_review (case sc_reviewReason sc of None \<Rightarrow> ''MANUAL_FLAG'' | Some t \<Rightarrow> t) c
     | ALLOW \<Rightarrow> apply_identity L r ar sc at c))"

definition reconcile_axes :: "issue_env \<Rightarrow> issue_request \<Rightarrow> kr_result \<Rightarrow> int \<Rightarrow> evidence_chain \<Rightarrow> issue_outcome issuing" where
  "reconcile_axes L r ar at c = (let rc = reconcile (en_ethers L) (en_unicode L)
       \<lparr>ri_fullName = rq_fullName r, ri_dateOfBirth = rq_dateOfBirth r,
        ri_idDocument = map_option (\<lambda>d. (fst d, fst (snd d))) (kr_idDocument ar), ri_bankAccount = kr_bankAccount ar\<rparr> in
     bindS (record_step L at ''reconcile'' (reconcile_json rc) c) (\<lambda>_ c.
     if \<not> rc_passed rc then ending Rejected (''reconciliation failed: '' @ stringify (axes_json rc)) c
     else screen_subject L r ar at c))"

definition runIssuance :: "issue_env \<Rightarrow> kr_adapter \<Rightarrow> issue_request \<Rightarrow> int \<Rightarrow> issue_outcome issuing" where
  "runIssuance L A r at =
     bindS (record_step L at ''wallet_control'' (JsObj [(''wallet'', JsStr (lower (rq_wallet r))),
       (''proven'', JsBool (rq_walletControlProven r))]) new_chain) (\<lambda>_ c.
     if \<not> rq_walletControlProven r then ending Rejected ''wallet control not proven'' c
     else bindS (record_policies L r at c) (\<lambda>_ c.
       let ar = adapter_run A (rq_walletControlProven r) (rq_idDocument r) (rq_bankAccount r) in
       bindS (record_step L at ''jurisdiction_adapter'' (kr_evidence ar) c) (\<lambda>_ c.
       case kr_rejected ar of Some reason \<Rightarrow> ending Rejected reason c | None \<Rightarrow> reconcile_axes L r ar at c)))"

record issue_call =
  ic_subject :: string
  ic_attrs :: hex
  ic_claimsRoot :: hex
  ic_evidenceHash :: hex

definition toIssueCall :: "ethers \<Rightarrow> string \<Rightarrow> issued \<Rightarrow> string + issue_call" where
  "toIssueCall E wallet out = (case e_getAddress E wallet of None \<Rightarrow> Inl ''invalid address''
     | Some a \<Rightarrow> Inr \<lparr>ic_subject = a, ic_attrs = is_attrs out, ic_claimsRoot = is_claimsRoot out, ic_evidenceHash = is_evidenceHash out\<rparr>)"

subsection \<open>What an issued mark stands for\<close>

definition chain_ok :: "ethers \<Rightarrow> evidence_chain \<Rightarrow> bool" where
  "chain_ok E c \<longleftrightarrow> recompute E (ec_steps c) = Inr (ec_head c)"

lemma chain_ok_new: "chain_ok E new_chain"
  by (simp add: chain_ok_def new_chain_def recompute_def)

lemma record_step_ok:
  "record_step L at n p c = (Inr h, c') \<Longrightarrow> chain_ok (en_ethers L) c \<Longrightarrow> chain_ok (en_ethers L) c' \<and> h = ec_head c'"
  by (auto simp: record_step_def chain_append_def chain_ok_def recompute_def recompute_snoc Let_def split: sum.splits prod.splits)

lemma pure_step_Inr [simp]: "pure_step r c = (Inr x, c') \<longleftrightarrow> r = Inr x \<and> c' = c"
  by (auto simp: pure_step_def)

lemma map_error_Inr [simp]: "map_error f r = Inr x \<longleftrightarrow> r = Inr x"
  by (auto simp: map_error_def split: sum.splits)

lemma ending_not_issued [simp]:
  "ending Rejected t c \<noteq> (Inr (Issued out), c')" "ending Denied t c \<noteq> (Inr (Issued out), c')"
  "ending In_review t c \<noteq> (Inr (Issued out), c')"
  by (simp_all add: ending_def)

lemma commit_issued:
  assumes "commit_and_pack L r ar sc ie m at c = (Inr (Issued out), c')" "chain_ok (en_ethers L) c"
  shows "is_methods out = m \<and> claimsRoot (en_ethers L) (is_claims out) = Inr (is_claimsRoot out)
    \<and> packAttrs (en_be_hex L) (attrs_input r ar sc ie m at) = Inr (is_attrs out)
    \<and> validCredentialAttrs (is_attrs out) (Some (JInt (at div 1000)))
    \<and> recompute (en_ethers L) (is_evidence out) = Inr (is_evidenceHash out)"
  using assms unfolding commit_and_pack_def
  by (auto elim!: bindS_Inr_E dest!: record_step_ok simp: chain_ok_def)

lemma identity_issued:
  assumes "apply_identity L r ar sc at c = (Inr (Issued out), c')" "chain_ok (en_ethers L) c"
  obtains ie c1 where "evaluateIdentityPolicy (rq_identityPolicy r) (kr_methods ar OR sc_methodsApplied sc)
      (case rq_kind r of None \<Rightarrow> 1 | Some k \<Rightarrow> k) = Inr ie" "ie_passed ie"
    "case rq_assurance r of None \<Rightarrow> True | Some a \<Rightarrow> a = ie_assurance ie"
    "commit_and_pack L r ar sc ie (kr_methods ar OR sc_methodsApplied sc) at c1 = (Inr (Issued out), c')" "chain_ok (en_ethers L) c1"
  using assms unfolding apply_identity_def Let_def
  by (auto elim!: bindS_Inr_E dest!: record_step_ok split: if_splits option.splits)

lemma screen_issued:
  assumes "screen_subject L r ar at c = (Inr (Issued out), c')" "chain_ok (en_ethers L) c"
  obtains sc c1 where "en_aml L \<lparr>su_fullName = rq_fullName r, su_dateOfBirth = rq_dateOfBirth r,
       su_nationality = rq_nationality r, su_residence = rq_residence r, su_walletAddress = rq_wallet r\<rparr> = Inr sc"
    "sc_decision sc = ALLOW" "apply_identity L r ar sc at c1 = (Inr (Issued out), c')" "chain_ok (en_ethers L) c1"
  using assms unfolding screen_subject_def
  by (auto elim!: bindS_Inr_E dest!: record_step_ok split: decision.splits)

definition screening_bits_only :: "issue_env \<Rightarrow> bool" where
  "screening_bits_only L \<longleftrightarrow> (\<forall>s sc. en_aml L s = Inr sc \<longrightarrow> sc_methodsApplied sc AND 0xffff = 0)"

lemma performed_or_screening:
  assumes "s AND 0xffff = 0" "q \<in> {''wallet_control'', ''document_authenticity'', ''face_match'', ''liveness'', ''account_control''}"
  shows "performed q (m OR s) \<longleftrightarrow> performed q m"
proof -
  have "\<not> bit s n" if "n < 16" for n
  proof
    assume "bit s n"
    moreover have "s AND mask 16 = 0" using assms(1) by (simp add: mask_eq_exp_minus_1)
    moreover have "bit (s AND mask 16) n" using \<open>bit s n\<close> that
      by (simp only: bit_and_iff bit_mask_iff) simp
    ultimately show False by (simp only: bit_0_eq bot_fun_def) simp
  qed
  then show ?thesis using assms(2) by (auto simp: performed_bit bit_or_iff)
qed

text \<open>
  C1: an issued mark stands for the checks it claims. When a run ends in \<open>ISSUED\<close>, control of the
  wallet was proven, the adapter rejected nothing, the declared details reconcile with document
  and account, screening ran and allowed the subject, the customer's identity policy passed on
  the union of the performed checks, the packed attributes are valid at the moment of issue and
  the claims root commits to the claims. If the policy requires account control, a bank result
  was handed in whose holder and one-won transfer were verified on rails that count, and if it
  requires document authenticity, the issuing authority confirmed the document; the screening
  engine is only relied on not to set identity bits. The evidence hash is what an audit
  recomputes from the exported steps.
\<close>

theorem issuance_sound:
  assumes "runIssuance L A r at = (Inr (Issued out), c)" and "screening_bits_only L"
  defines "ar \<equiv> adapter_run A (rq_walletControlProven r) (rq_idDocument r) (rq_bankAccount r)"
  shows "\<exists>sc ie. rq_walletControlProven r \<and> kr_rejected ar = None
    \<and> rc_passed (reconcile (en_ethers L) (en_unicode L)
       \<lparr>ri_fullName = rq_fullName r, ri_dateOfBirth = rq_dateOfBirth r,
        ri_idDocument = map_option (\<lambda>d. (fst d, fst (snd d))) (kr_idDocument ar), ri_bankAccount = kr_bankAccount ar\<rparr>)
    \<and> en_aml L \<lparr>su_fullName = rq_fullName r, su_dateOfBirth = rq_dateOfBirth r,
       su_nationality = rq_nationality r, su_residence = rq_residence r, su_walletAddress = rq_wallet r\<rparr> = Inr sc
    \<and> sc_decision sc = ALLOW \<and> is_methods out = kr_methods ar OR sc_methodsApplied sc
    \<and> evaluateIdentityPolicy (rq_identityPolicy r) (is_methods out) (case rq_kind r of None \<Rightarrow> 1 | Some k \<Rightarrow> k) = Inr ie \<and> ie_passed ie
    \<and> (''account_control'' \<in> set (ip_required (rq_identityPolicy r)) \<longrightarrow>
         (\<exists>a. rq_bankAccount r = Some a \<and> adapter_counts A (ba_live a) \<and> ba_holderVerified a \<and> ba_oneWonVerified a))
    \<and> (''document_authenticity'' \<in> set (ip_required (rq_identityPolicy r)) \<longrightarrow>
         (\<exists>d. rq_idDocument r = Some d \<and> adapter_counts A (id_live d) \<and> id_authenticityChecked d \<and> id_authentic d))
    \<and> packAttrs (en_be_hex L) (attrs_input r ar sc ie (is_methods out) at) = Inr (is_attrs out)
    \<and> validCredentialAttrs (is_attrs out) (Some (JInt (at div 1000)))
    \<and> claimsRoot (en_ethers L) (is_claims out) = Inr (is_claimsRoot out)
    \<and> recompute (en_ethers L) (is_evidence out) = Inr (is_evidenceHash out)"
proof -
  let ?E = "en_ethers L"
  let ?rc = "reconcile ?E (en_unicode L) \<lparr>ri_fullName = rq_fullName r, ri_dateOfBirth = rq_dateOfBirth r,
        ri_idDocument = map_option (\<lambda>d. (fst d, fst (snd d))) (kr_idDocument ar), ri_bankAccount = kr_bankAccount ar\<rparr>"
  from assms(1) obtain h c1 where w: "rq_walletControlProven r" and c1: "chain_ok ?E c1"
    and rest: "bindS (record_policies L r at c1) (\<lambda>_ c. bindS (record_step L at ''jurisdiction_adapter'' (kr_evidence ar) c) (\<lambda>_ c.
       case kr_rejected ar of Some reason \<Rightarrow> ending Rejected reason c | None \<Rightarrow> reconcile_axes L r ar at c)) = (Inr (Issued out), c)"
    unfolding runIssuance_def ar_def Let_def
    by (auto elim!: bindS_Inr_E [of "record_step _ _ _ _ new_chain"] dest!: record_step_ok simp: chain_ok_new split: if_splits)
  from rest obtain c2 where rest2: "record_policies L r at c1 = (Inr (), c2)"
    "bindS (record_step L at ''jurisdiction_adapter'' (kr_evidence ar) c2) (\<lambda>_ c.
       case kr_rejected ar of Some reason \<Rightarrow> ending Rejected reason c | None \<Rightarrow> reconcile_axes L r ar at c) = (Inr (Issued out), c)"
    by (auto elim!: bindS_Inr_E [of "record_policies L r at c1"])
  have c2: "chain_ok ?E c2"
    using rest2(1) c1 unfolding record_policies_def
    by (auto elim!: bindS_Inr_E dest!: record_step_ok split: option.splits)
  from rest2(2) c2 obtain c3 where rej: "kr_rejected ar = None" and c3: "chain_ok ?E c3"
    and r3: "reconcile_axes L r ar at c3 = (Inr (Issued out), c)"
    by (auto elim!: bindS_Inr_E dest!: record_step_ok split: option.splits)
  from r3 c3 obtain c4 where rc: "rc_passed ?rc" and c4: "chain_ok ?E c4"
    and r4: "screen_subject L r ar at c4 = (Inr (Issued out), c)"
    unfolding reconcile_axes_def Let_def by (auto elim!: bindS_Inr_E dest!: record_step_ok split: if_splits)
  from screen_issued [OF r4 c4] obtain sc c5 where sc: "en_aml L \<lparr>su_fullName = rq_fullName r, su_dateOfBirth = rq_dateOfBirth r,
       su_nationality = rq_nationality r, su_residence = rq_residence r, su_walletAddress = rq_wallet r\<rparr> = Inr sc"
    "sc_decision sc = ALLOW" and r5: "apply_identity L r ar sc at c5 = (Inr (Issued out), c)" and c5: "chain_ok ?E c5" .
  let ?m = "kr_methods ar OR sc_methodsApplied sc"
  from identity_issued [OF r5 c5] obtain ie c6 where ie: "evaluateIdentityPolicy (rq_identityPolicy r) ?m
      (case rq_kind r of None \<Rightarrow> 1 | Some k \<Rightarrow> k) = Inr ie" "ie_passed ie"
    and r6: "commit_and_pack L r ar sc ie ?m at c6 = (Inr (Issued out), c)" and c6: "chain_ok ?E c6" .
  note out = commit_issued [OF r6 c6]
  have bits: "sc_methodsApplied sc AND 0xffff = 0" using assms(2) sc(1) unfolding screening_bits_only_def by blast
  have ran: "performed q (kr_methods ar)"
    if "q \<in> {''document_authenticity'', ''account_control''}" "q \<in> set (ip_required (rq_identityPolicy r))" for q
  proof -
    have "performed q ?m" using identity_facts [OF ie, THEN conjunct1] that(2) by (rule bspec)
    moreover have "performed q ?m \<longleftrightarrow> performed q (kr_methods ar)" using that(1) by (intro performed_or_screening [OF bits]) auto
    ultimately show ?thesis by simp
  qed
  have "''account_control'' \<in> set (ip_required (rq_identityPolicy r)) \<longrightarrow>
       (\<exists>a. rq_bankAccount r = Some a \<and> adapter_counts A (ba_live a) \<and> ba_holderVerified a \<and> ba_oneWonVerified a)"
    "''document_authenticity'' \<in> set (ip_required (rq_identityPolicy r)) \<longrightarrow>
       (\<exists>d. rq_idDocument r = Some d \<and> adapter_counts A (id_live d) \<and> id_authenticityChecked d \<and> id_authentic d)"
    using ran [of "''account_control''"] ran [of "''document_authenticity''"] unfolding ar_def by (simp_all add: adapter_performed)
  with w rej rc sc ie out show ?thesis by (intro exI [of _ sc] exI [of _ ie] conjI) simp_all
qed

subsection \<open>A run that issues\<close>

definition run_issue_env :: issue_env where
  "run_issue_env = \<lparr>en_ethers = \<lparr>e_keccak = (\<lambda>_. zero_head), e_abi = (\<lambda>_. zero_head), e_bytes32 = (\<lambda>_. True), e_data = (\<lambda>_. True),
     e_getAddress = Some\<rparr>, en_be_hex = hex32, en_unicode = \<lparr>u_nfkc = (\<lambda>t. t), u_upper = (\<lambda>t. t)\<rparr>,
     en_aml = (\<lambda>_. Inr \<lparr>sc_decision = ALLOW, sc_reviewReason = None, sc_riskBand = 2, sc_hitCount = 0, sc_methodsApplied = 0x80000,
       sc_listVersions = JsObj [], sc_engineVersion = ''e'', sc_evidence = JsNull, sc_snapshotId = None\<rparr>),
     en_salt = (\<lambda>_. zero_head)\<rparr>"

definition run_adapter :: kr_adapter where
  "run_adapter = \<lparr>ka_idVendor = None, ka_bankVendor = None, ka_sandboxBits = True, ka_biometrics = None\<rparr>"

definition run_request :: issue_request where
  "run_request = \<lparr>rq_wallet = ''0xA'', rq_fullName = ''A B'', rq_dateOfBirth = ''d'', rq_nationality = ''KR'', rq_residence = ''KR'',
     rq_idDocument = None, rq_bankAccount = Some \<lparr>ba_bankCode = ''004'', ba_holderName = ''AB'', ba_holderVerified = True,
       ba_oneWonVerified = True, ba_vendor = ''demo'', ba_live = False, ba_ref = None\<rparr>,
     rq_walletControlProven = True, rq_jurisdiction = JInt 410, rq_kind = None, rq_assurance = Some 3,
     rq_identityPolicy = run_policy\<lparr>ip_required := [''wallet_control'', ''account_control'']\<rparr>,
     rq_processingPolicy = None, rq_consentStatementHash = None, rq_retentionPolicy = None\<rparr>"

definition run_issued_attrs :: mark_attrs_input where
  "run_issued_attrs = \<lparr>ai_kind = JInt 1, ai_assurance = JInt 3, ai_regime = JInt 2, ai_jurisdiction = JInt 410, ai_methods = JInt 0x80021,
     ai_issuedAt = JInt 1700000000, ai_expiry = JInt 1715552000, ai_epoch = JInt 0\<rparr>"

lemma run_attrs_valid:
  "packAttrs hex32 run_issued_attrs = Inr (hex32 (attrs_word run_issued_attrs))
   \<and> validCredentialAttrs (hex32 (attrs_word run_issued_attrs)) (Some (JInt 1700000000))"
proof
  have p: "fields_integral run_issued_attrs" "fields_fit run_issued_attrs"
    by (simp_all add: fields_integral_def fields_fit_def field_def run_issued_attrs_def)
  then show "packAttrs hex32 run_issued_attrs = Inr (hex32 (attrs_word run_issued_attrs))" by (simp add: packAttrs_Inr_iff)
  have v: "hex_val (hex32 (attrs_word run_issued_attrs)) = attrs_word run_issued_attrs"
    using hex32_ok attrs_word_bounds [OF p(2)] by (simp add: be_hex_ok_def)
  have u: "unpackAttrs (hex32 (attrs_word run_issued_attrs)) = Inr run_issued_attrs"
    using p v by (simp add: unpackAttrs_fields hex32_canonical fields_of_attrs_word)
  have "attrs_word run_issued_attrs AND 0xffffffffffffffff = 0"
    using attrs_word_fields(9) [OF p(2)] by (simp add: attr_masks)
  with u v show "validCredentialAttrs (hex32 (attrs_word run_issued_attrs)) (Some (JInt 1700000000))"
    by (simp add: validCredentialAttrs_def now_ok_def run_issued_attrs_def only_supported_def SUPPORTED_METHODS_def is_safe_def max_safe_def)
qed

lemma record_plain:
  assumes "json_plain p" "e_keccak (en_ethers L) = (\<lambda>_. k)"
  shows "record_step L at n p c = (Inr k, \<lparr>ec_steps = ec_steps c @ [\<lparr>es_step = n, es_at = at, es_payload = p\<rparr>], ec_head = k\<rparr>)"
proof -
  have "json_plain (step_json \<lparr>es_step = n, es_at = at, es_payload = p\<rparr>)" using assms(1) by (simp add: step_json_def)
  from json_plain_sortDeep [OF this] obtain w where "sortDeep (step_json \<lparr>es_step = n, es_at = at, es_payload = p\<rparr>) = Inr w" ..
  with assms(2) show ?thesis
    by (simp add: record_step_def chain_append_def link_def canonicalJson_def Let_def)
qed

lemma run_identity:
  "\<exists>ie. evaluateIdentityPolicy (run_policy\<lparr>ip_required := [''wallet_control'', ''account_control'']\<rparr>) 0x80021 1 = Inr ie \<and> ie_passed ie
     \<and> ie_assurance ie = 3"
proof -
  let ?p = "run_policy\<lparr>ip_required := [''wallet_control'', ''account_control'']\<rparr>"
  have d: "defineIdentityPolicy ?p = Inr ?p"
    by (simp add: defineIdentityPolicy_def run_policy_def
      IDENTIFIER_def opaque_text_def alnum_def uniqueRequirements_def REQUIREMENTS_def check_band_def trim_def is_space_def
      check_biometrics_def)
  have b: "performed ''wallet_control'' 0x80021" "performed ''account_control'' 0x80021" "\<not> performed ''face_match'' 0x80021"
    "\<not> performed ''liveness'' 0x80021"
    by (simp_all add: performed_bit)
  show ?thesis unfolding evaluateIdentityPolicy_def d bindE_simps
    by (simp add: Let_def violations_of_def BIOMETRICS_def authorized_checks_def
        earned_def run_policy_def REQUIREMENTS_def result_of_def b METHOD_BY_REQUIREMENT_def)
qed

lemma identity_json_plain: "json_plain (identity_json e)"
  by (auto simp: identity_json_def opt_json_def strings_json_def requirement_json_def list_all_iff split: option.splits)

lemma run_claims: "\<exists>root. claimsRoot (en_ethers run_issue_env) [a, b, c, d, e] = Inr root"
  by (simp add: claimsRoot_def claimLeaf_def run_issue_env_def merkleRoot_def hashPair_def merkle_top.simps)

lemma run_issues: "\<exists>out c. runIssuance run_issue_env run_adapter run_request 1700000000000 = (Inr (Issued out), c)"
proof -
  let ?L = run_issue_env and ?at = "1700000000000 :: int"
  have k: "e_keccak (en_ethers ?L) = (\<lambda>_. zero_head)" by (simp add: run_issue_env_def)
  note rec = record_plain [OF _ k]
  define ar where "ar = adapter_run run_adapter True None (rq_bankAccount run_request)"
  have ar: "kr_rejected ar = None" "kr_methods ar = 0x21" "kr_idDocument ar = None" "kr_bankAccount ar = Some ''AB''"
    "kr_regime ar = 2" "json_plain (kr_evidence ar)"
    by (simp_all add: ar_def adapter_run_def Let_def id_rejection_def id_bits_def bank_bits_def run_request_def when_bit_def
        method_bit_def Methods_def method_shifts_def adapter_counts_def run_adapter_def KR_FSC_NONFACE_SANDBOX_def adapter_live_def
        id_evidence_def bank_evidence_def opt_json_def)
  obtain sc where sc: "en_aml ?L = (\<lambda>_. Inr sc)" "sc_decision sc = ALLOW" "sc_methodsApplied sc = 0x80000" "sc_riskBand sc = 2"
    "json_plain (aml_json sc)" "sc_reviewReason sc = None"
    by (simp add: run_issue_env_def aml_json_def maybe_str_def)
  obtain ie where ie: "evaluateIdentityPolicy (rq_identityPolicy run_request) 0x80021 1 = Inr ie" "ie_passed ie" "ie_assurance ie = 3"
    using run_identity by (auto simp: run_request_def)
  have a: "attrs_input run_request ar sc ie 0x80021 ?at = run_issued_attrs"
    by (simp add: attrs_input_def run_issued_attrs_def run_request_def ie ar sc EXPIRY_DAYS_BY_BAND_def)
  have be: "en_be_hex ?L = hex32" by (simp add: run_issue_env_def)
  have "length (claims_of ?L run_request ar) = 5" by (simp add: claims_of_def ar)
  moreover have "\<exists>a b c d e. claims_of ?L run_request ar = [a, b, c, d, e]" by (simp add: claims_of_def ar upt_rec)
  ultimately obtain root where root: "claimsRoot (en_ethers ?L) (claims_of ?L run_request ar) = Inr root" using run_claims by metis
  have commit: "\<exists>out c'. commit_and_pack ?L run_request ar sc ie 0x80021 ?at c = (Inr (Issued out), c')" for c
    using run_attrs_valid by (simp add: commit_and_pack_def root pure_step_def map_error_def rec a be)
  have rq: "rq_walletControlProven run_request" "rq_idDocument run_request = None" "rq_kind run_request = None"
    "rq_assurance run_request = Some 3" "rq_processingPolicy run_request = None" "rq_retentionPolicy run_request = None"
    by (simp_all add: run_request_def)
  have ident: "\<exists>out c'. apply_identity ?L run_request ar sc ?at c = (Inr (Issued out), c')" for c
    using commit by (simp add: apply_identity_def Let_def ar sc rq ie pure_step_def map_error_def rec identity_json_plain)
  have screen: "\<exists>out c'. screen_subject ?L run_request ar ?at c = (Inr (Issued out), c')" for c
    using ident by (simp add: screen_subject_def sc pure_step_def map_error_def rec)
  have "rc_passed (reconcile (en_ethers ?L) (en_unicode ?L) \<lparr>ri_fullName = rq_fullName run_request,
      ri_dateOfBirth = rq_dateOfBirth run_request, ri_idDocument = None, ri_bankAccount = Some ''AB''\<rparr>)"
    by (simp add: reconcile_def Let_def normalizeName_def is_space_def run_issue_env_def run_request_def compare_axis_def)
  then have recon: "\<exists>out c'. reconcile_axes ?L run_request ar ?at c = (Inr (Issued out), c')" for c
    using screen by (simp add: reconcile_axes_def Let_def ar rec reconcile_json_def axes_json_def maybe_str_def split: option.splits)
  show ?thesis
    using recon by (simp add: runIssuance_def rec rq record_policies_def ar_def [symmetric] ar Let_def)
qed

theorem issuance_sound_witness:
  "\<exists>out c. runIssuance run_issue_env run_adapter run_request 1700000000000 = (Inr (Issued out), c)
     \<and> validCredentialAttrs (is_attrs out) (Some (JInt 1700000000))
     \<and> recompute (en_ethers run_issue_env) (is_evidence out) = Inr (is_evidenceHash out)"
proof -
  from run_issues obtain out c where r: "runIssuance run_issue_env run_adapter run_request 1700000000000 = (Inr (Issued out), c)"
    by blast
  have "screening_bits_only run_issue_env" by (simp add: screening_bits_only_def run_issue_env_def)
  from issuance_sound [OF r this] r show ?thesis by auto
qed

end
