(* ===== verification/Issuance_Journal.thy ===== *)
theory Issuance_Journal
  imports Issue
begin

text \<open>
  The durable journal of issuances, \<open>pipeline/issuance-journal.ts\<close>: the Lua script that Redis
  runs atomically, over the four kinds of keys it touches, and the client that seals entries
  and maps replies to errors. Redis time is the argument \<open>now\<close> in milliseconds; an expired
  request key is invisible. Sealing is a parameter, and a network failure may lose the request
  or only the reply. Sets that Redis returns in an unspecified order are lists.
\<close>

subsection \<open>Entries\<close>

text \<open>The policy evidence that an entry carries is kept as the JSON value it is.\<close>

datatype issuance_phase = Prepared | Submitted | Source_confirmed | Materialized | Failed

record signed_issuance =
  si_hash :: string
  si_raw :: string
  si_nonce :: int
  si_chainId :: int
  si_source :: string
  si_issuer :: string
  si_gasLimit :: "string option"

record source_confirmation =
  sf_blockNumber :: int
  sf_blockHash :: string
  sf_transactionIndex :: int
  sf_confirmedAt :: int
  sf_gasUsed :: "string option"

datatype issuer_mode = Direct | Rotating

record issuance_target =
  ta_chainId :: int
  ta_source :: string
  ta_issuer :: string
  ta_hubChainId :: int
  ta_asc :: string
  ta_issuerMode :: "issuer_mode option"
  ta_operatingKey :: "string option"
  ta_issuerKeyEpoch :: "int option"

record issuance_entry =
  et_requestId :: string
  et_wallet :: string
  et_fingerprint :: string
  et_consentVersion :: string
  et_processingPolicy :: "json option"
  et_retentionPolicy :: "json option"
  et_createdAt :: int
  et_prepareUntil :: int
  et_phase :: issuance_phase
  et_target :: issuance_target
  et_outcome :: issue_outcome
  et_assurance :: int
  et_evidenceRecord :: "string option"
  et_evidenceStored :: bool
  et_transaction :: "signed_issuance option"
  et_revertedTransactions :: "(string \<times> int \<times> int) list"
  et_sourceConfirmation :: "source_confirmation option"
  et_broadcastAcceptedAt :: "int option"
  et_materializedAt :: "int option"
  et_lastError :: "string option"

record journal_snapshot =
  sn_revision :: nat
  sn_entry :: issuance_entry

definition issued_outcome :: "issue_outcome \<Rightarrow> bool" where
  "issued_outcome oc \<longleftrightarrow> (case oc of Issued _ \<Rightarrow> True | _ \<Rightarrow> False)"

definition needsSigner :: "issuance_entry \<Rightarrow> bool" where
  "needsSigner e \<longleftrightarrow> issued_outcome (et_outcome e) \<and> (et_phase e = Prepared \<or> et_phase e = Submitted)"

definition terminal :: "issuance_entry \<Rightarrow> bool" where
  "terminal e \<longleftrightarrow> et_phase e = Failed \<or> et_phase e = Materialized"

subsection \<open>The script\<close>

record 'p request_hash =
  rh_revision :: nat
  rh_payload :: 'p
  rh_signer :: string
  rh_needsSigner :: bool
  rh_owner :: "string option"
  rh_leaseUntil :: "int option"
  rh_terminalExpiresAt :: "int option"
  rh_expireAt :: "int option"

record 'p redis =
  db_requests :: "string \<Rightarrow> 'p request_hash option"
  db_gate :: "string \<Rightarrow> string option"
  db_pending :: "(string \<times> int) list"
  db_active :: "string list"

record 'p script_args =
  sa_id :: string
  sa_owner :: string
  sa_revision :: nat
  sa_payload :: 'p
  sa_needsSigner :: bool
  sa_signer :: string
  sa_terminal :: bool

datatype journal_op = OpCreate | OpGet | OpAcquire | OpSave | OpRelease | OpPending

datatype 'p reply = Snapshot nat 'p | Code string | Ids "string list" | Broken

text \<open>A key is gone once the clock has passed its expiry.\<close>

definition live :: "int \<Rightarrow> 'p redis \<Rightarrow> string \<Rightarrow> 'p request_hash option" where
  "live now db k = (case db_requests db k of None \<Rightarrow> None
     | Some h \<Rightarrow> (case rh_expireAt h of None \<Rightarrow> Some h | Some t \<Rightarrow> if now > t then None else Some h))"

definition snapshot_reply :: "int \<Rightarrow> 'p redis \<Rightarrow> string \<Rightarrow> 'p reply" where
  "snapshot_reply now db k = (case live now db k of None \<Rightarrow> Broken | Some h \<Rightarrow> Snapshot (rh_revision h) (rh_payload h))"

definition day_ms :: int where "day_ms = 86400000"
definition lease_ms :: int where "lease_ms = 30000"

definition terminalDeadline :: "int \<Rightarrow> int option \<Rightarrow> int option \<Rightarrow> int" where
  "terminalDeadline now saved expiry =
     (let d = (case expiry of None \<Rightarrow> saved
        | Some c \<Rightarrow> if 0 < c \<and> (case saved of None \<Rightarrow> True | Some s \<Rightarrow> c < s) then Some c else saved) in
      case d of None \<Rightarrow> now + day_ms | Some t \<Rightarrow> t)"

text \<open>\<open>ZADD NX\<close> keeps the score of a member that is already there.\<close>

definition zadd_nx :: "string \<Rightarrow> int \<Rightarrow> (string \<times> int) list \<Rightarrow> (string \<times> int) list" where
  "zadd_nx k score z = (if k \<in> fst ` set z then z else z @ [(k, score)])"

definition zrem :: "string \<Rightarrow> (string \<times> int) list \<Rightarrow> (string \<times> int) list" where
  "zrem k z = filter (\<lambda>(k', _). k' \<noteq> k) z"

definition put_request :: "string \<Rightarrow> 'p request_hash option \<Rightarrow> 'p redis \<Rightarrow> 'p redis" where
  "put_request k h db = db\<lparr>db_requests := (db_requests db)(k := h)\<rparr>"

text \<open>\<open>PEXPIREAT\<close> with a time that has come deletes the key.\<close>

definition retain :: "int \<Rightarrow> 'p script_args \<Rightarrow> int \<Rightarrow> 'p request_hash \<Rightarrow> 'p redis \<Rightarrow> 'p redis" where
  "retain now a terminalUntil h db =
     (if sa_terminal a
      then put_request (sa_id a) (if terminalUntil \<le> now then None
          else Some (h\<lparr>rh_terminalExpiresAt := Some terminalUntil, rh_expireAt := Some terminalUntil\<rparr>))
        (db\<lparr>db_pending := zrem (sa_id a) (db_pending db)\<rparr>)
      else put_request (sa_id a) (Some (h\<lparr>rh_terminalExpiresAt := None, rh_expireAt := None\<rparr>))
        (db\<lparr>db_pending := zadd_nx (sa_id a) now (db_pending db)\<rparr>))"

definition gate_busy :: "'p script_args \<Rightarrow> 'p redis \<Rightarrow> bool" where
  "gate_busy a db \<longleftrightarrow> (case db_gate db (sa_signer a) of None \<Rightarrow> False | Some k \<Rightarrow> k \<noteq> sa_id a)"

definition take_gate :: "'p script_args \<Rightarrow> 'p redis \<Rightarrow> 'p redis" where
  "take_gate a db = db\<lparr>db_gate := (db_gate db)(sa_signer a := Some (sa_id a)), db_active := List.insert (sa_id a) (db_active db)\<rparr>"

definition drop_gate :: "'p script_args \<Rightarrow> 'p redis \<Rightarrow> 'p redis" where
  "drop_gate a db = db\<lparr>db_gate := (if db_gate db (sa_signer a) = Some (sa_id a) then (db_gate db)(sa_signer a := None) else db_gate db),
     db_active := filter (\<lambda>k. k \<noteq> sa_id a) (db_active db)\<rparr>"

definition lease_until :: "'p request_hash \<Rightarrow> int" where
  "lease_until h = (case rh_leaseUntil h of None \<Rightarrow> 0 | Some t \<Rightarrow> t)"

definition op_pending :: "'p redis \<Rightarrow> string list" where
  "op_pending db = db_active db @ filter (\<lambda>k. k \<notin> set (db_active db))
     (map fst (take 1000 (sort_key snd (sort_key fst (db_pending db)))))"

definition op_create :: "int \<Rightarrow> 'p script_args \<Rightarrow> 'p redis \<Rightarrow> 'p reply \<times> 'p redis" where
  "op_create now a db =
     (if live now db (sa_id a) \<noteq> None then (snapshot_reply now db (sa_id a), db)
      else if sa_terminal a \<and> sa_needsSigner a then (Code ''RETENTION_STATE_INVALID'', db)
      else let db' = retain now a (now + day_ms) \<lparr>rh_revision = 1, rh_payload = sa_payload a, rh_signer = sa_signer a,
             rh_needsSigner = sa_needsSigner a, rh_owner = None, rh_leaseUntil = None, rh_terminalExpiresAt = None,
             rh_expireAt = None\<rparr> db in
        (snapshot_reply now db' (sa_id a), db'))"

definition op_release :: "'p script_args \<Rightarrow> 'p request_hash \<Rightarrow> 'p redis \<Rightarrow> 'p reply \<times> 'p redis" where
  "op_release a h db = (Code ''released'',
     if rh_owner h = Some (sa_owner a) then put_request (sa_id a) (Some (h\<lparr>rh_owner := None, rh_leaseUntil := None\<rparr>)) db else db)"

definition op_acquire :: "int \<Rightarrow> 'p script_args \<Rightarrow> 'p request_hash \<Rightarrow> 'p redis \<Rightarrow> 'p reply \<times> 'p redis" where
  "op_acquire now a h db =
     (if lease_until h > now then (Code ''REQUEST_BUSY'', db)
      else if rh_needsSigner h \<and> gate_busy a db then (Code ''SIGNER_BUSY'', db)
      else let db1 = (if rh_needsSigner h then take_gate a db else db);
             db' = put_request (sa_id a) (Some (h\<lparr>rh_owner := Some (sa_owner a), rh_leaseUntil := Some (now + lease_ms)\<rparr>)) db1 in
        (snapshot_reply now db' (sa_id a), db'))"

definition op_save :: "int \<Rightarrow> 'p script_args \<Rightarrow> int option \<Rightarrow> 'p request_hash \<Rightarrow> 'p redis \<Rightarrow> 'p reply \<times> 'p redis" where
  "op_save now a saved h db =
     (if rh_owner h \<noteq> Some (sa_owner a) \<or> lease_until h \<le> now then (Code ''LEASE_LOST'', db)
      else if rh_revision h \<noteq> sa_revision a then (Code ''REVISION_CONFLICT'', db)
      else if sa_terminal a \<and> sa_needsSigner a then (Code ''RETENTION_STATE_INVALID'', db)
      else if sa_needsSigner a \<and> gate_busy a db then (Code ''SIGNER_BUSY'', db)
      else let db1 = (if sa_needsSigner a then take_gate a db else drop_gate a db);
             h1 = h\<lparr>rh_payload := sa_payload a, rh_needsSigner := sa_needsSigner a, rh_leaseUntil := Some (now + lease_ms),
               rh_revision := rh_revision h + 1\<rparr>;
             db' = retain now a (terminalDeadline now saved (rh_expireAt h)) h1 db1 in
        (snapshot_reply now db' (sa_id a), db'))"

definition saved_invalid :: "int \<Rightarrow> bool" where
  "saved_invalid t \<longleftrightarrow> t \<le> 0 \<or> t > max_safe"

text \<open>\<open>acl_ok\<close> is Redis's answer to \<open>acl_check_cmd\<close>.\<close>

definition journal_eval :: "bool \<Rightarrow> int \<Rightarrow> journal_op \<Rightarrow> 'p script_args \<Rightarrow> 'p redis \<Rightarrow> 'p reply \<times> 'p redis" where
  "journal_eval acl_ok now opn a db =
     (let cur = live now db (sa_id a);
          saved = (case cur of None \<Rightarrow> None | Some h \<Rightarrow> rh_terminalExpiresAt h) in
      if (opn = OpCreate \<or> opn = OpSave) \<and> sa_terminal a \<and> \<not> acl_ok then (Code ''JOURNAL_UNAVAILABLE'', db)
      else if (case saved of None \<Rightarrow> False | Some t \<Rightarrow> saved_invalid t) then (Code ''RETENTION_STATE_INVALID'', db)
      else if (case saved of None \<Rightarrow> False | Some t \<Rightarrow> t \<le> now) then (Code ''RETENTION_DEADLINE_PASSED'', db)
      else if opn = OpPending then (Ids (op_pending db), db)
      else if opn = OpCreate then op_create now a db
      else (case cur of None \<Rightarrow> (Code ''NOT_FOUND'', db)
        | Some h \<Rightarrow>
          if opn = OpGet then (snapshot_reply now db (sa_id a), db)
          else if opn = OpRelease then op_release a h db
          else if rh_signer h \<noteq> sa_signer a then (Code ''TARGET_CONFLICT'', db)
          else if opn = OpAcquire then op_acquire now a h db
          else op_save now a saved h db))"

subsection \<open>The client\<close>

record 'p codec =
  cx_encrypt :: "nat \<Rightarrow> string \<Rightarrow> issuance_entry \<Rightarrow> 'p"
  cx_decrypt :: "string \<Rightarrow> 'p \<Rightarrow> issuance_entry option"
  cx_size :: "'p \<Rightarrow> nat"
  cx_empty :: 'p
  cx_signerKey :: "int \<Rightarrow> string \<Rightarrow> string"

text \<open>Authenticated decryption gives back what was encrypted under the same associated data.\<close>

definition codec_ok :: "'p codec \<Rightarrow> bool" where
  "codec_ok C \<longleftrightarrow> (\<forall>iv k e. cx_decrypt C k (cx_encrypt C iv k e) = Some e)"

datatype network = Delivered | Request_lost | Reply_lost

record journal_call =
  jc_now :: int
  jc_acl :: bool
  jc_net :: network
  jc_iv :: nat

definition request_id :: "string \<Rightarrow> string + string" where
  "request_id k = (if is_bytes32 k then Inr (lower k) else Inl ''INVALID_REQUEST_ID'')"

definition signer_key :: "'p codec \<Rightarrow> issuance_entry \<Rightarrow> string" where
  "signer_key C e = cx_signerKey C (ta_chainId (et_target e)) (lower (ta_issuer (et_target e)))"

definition open_entry :: "'p codec \<Rightarrow> string \<Rightarrow> 'p \<Rightarrow> string + issuance_entry" where
  "open_entry C k p = (case cx_decrypt C (lower k) p of None \<Rightarrow> Inl ''JOURNAL_AUTHENTICATION_FAILED''
     | Some e \<Rightarrow> if is_bytes32 (et_requestId e) \<and> lower (et_requestId e) = lower k then Inr e
         else Inl ''JOURNAL_AUTHENTICATION_FAILED'')"

definition args_of :: "'p codec \<Rightarrow> nat \<Rightarrow> string \<Rightarrow> string \<Rightarrow> journal_snapshot option \<Rightarrow> 'p script_args" where
  "args_of C iv k owner snap = (case snap of
     None \<Rightarrow> \<lparr>sa_id = k, sa_owner = owner, sa_revision = 0, sa_payload = cx_empty C, sa_needsSigner = False, sa_signer = [],
       sa_terminal = False\<rparr>
   | Some sn \<Rightarrow> \<lparr>sa_id = k, sa_owner = owner, sa_revision = sn_revision sn,
       sa_payload = cx_encrypt C iv (lower (et_requestId (sn_entry sn))) (sn_entry sn),
       sa_needsSigner = needsSigner (sn_entry sn), sa_signer = signer_key C (sn_entry sn), sa_terminal = terminal (sn_entry sn)\<rparr>)"

definition journal_request :: "'p codec \<Rightarrow> journal_call \<Rightarrow> journal_op \<Rightarrow> string \<Rightarrow> string \<Rightarrow> journal_snapshot option
    \<Rightarrow> 'p redis \<Rightarrow> ('p redis, string, 'p reply) st_res" where
  "journal_request C jc opn k owner snap db = (case request_id k of Inl e \<Rightarrow> (Inl e, db) | Inr i \<Rightarrow>
     if (case snap of None \<Rightarrow> False | Some sn \<Rightarrow> \<not> is_bytes32 (et_requestId (sn_entry sn))) then (Inl ''INVALID_REQUEST_ID'', db)
     else let a = args_of C (jc_iv jc) i owner snap in
       if 500000 < cx_size C (sa_payload a) then (Inl ''JOURNAL_ENTRY_TOO_LARGE'', db)
       else (case (jc_net jc, journal_eval (jc_acl jc) (jc_now jc) opn a db) of
           (Request_lost, _) \<Rightarrow> (Inl ''JOURNAL_UNAVAILABLE'', db)
         | (Reply_lost, (_, db')) \<Rightarrow> (Inl ''JOURNAL_UNAVAILABLE'', db')
         | (Delivered, (Broken, db')) \<Rightarrow> (Inl ''JOURNAL_UNAVAILABLE'', db')
         | (Delivered, (r, db')) \<Rightarrow> (Inr r, db')))"

definition snapshot_from :: "'p codec \<Rightarrow> string \<Rightarrow> 'p reply \<Rightarrow> string + journal_snapshot" where
  "snapshot_from C k r = (case r of
     Snapshot n p \<Rightarrow> if n < 1 \<or> \<not> is_safe (int n) then Inl ''BAD_JOURNAL_REVISION''
       else bindE (open_entry C k p) (\<lambda>e. Inr \<lparr>sn_revision = n, sn_entry = e\<rparr>)
   | Code c \<Rightarrow> Inl (if c = [] then ''JOURNAL_UNAVAILABLE'' else c)
   | Ids ks \<Rightarrow> Inl (case ks of [] \<Rightarrow> ''JOURNAL_UNAVAILABLE'' | k' # _ \<Rightarrow> k')
   | Broken \<Rightarrow> Inl ''JOURNAL_UNAVAILABLE'')"

definition with_snapshot :: "'p codec \<Rightarrow> string \<Rightarrow> ('p redis, string, 'p reply) st_res \<Rightarrow> ('p redis, string, journal_snapshot) st_res" where
  "with_snapshot C k m = bindS m (\<lambda>r db. (snapshot_from C k r, db))"

definition journal_create :: "'p codec \<Rightarrow> journal_call \<Rightarrow> issuance_entry \<Rightarrow> 'p redis \<Rightarrow> ('p redis, string, journal_snapshot) st_res" where
  "journal_create C jc e db = with_snapshot C (et_requestId e)
     (journal_request C jc OpCreate (et_requestId e) [] (Some \<lparr>sn_revision = 0, sn_entry = e\<rparr>) db)"

definition journal_get :: "'p codec \<Rightarrow> journal_call \<Rightarrow> string \<Rightarrow> 'p redis \<Rightarrow> ('p redis, string, journal_snapshot option) st_res" where
  "journal_get C jc k db = bindS (journal_request C jc OpGet k [] None db) (\<lambda>r db.
     if r = Code ''NOT_FOUND'' then (Inr None, db)
     else (case snapshot_from C k r of Inl e \<Rightarrow> (Inl e, db) | Inr sn \<Rightarrow> (Inr (Some sn), db)))"

text \<open>\<open>between\<close> is what other clients did between the two calls of \<open>acquire\<close>.\<close>

definition journal_acquire :: "'p codec \<Rightarrow> journal_call \<Rightarrow> ('p redis \<Rightarrow> 'p redis) \<Rightarrow> journal_call \<Rightarrow> string \<Rightarrow> string \<Rightarrow> 'p redis
    \<Rightarrow> ('p redis, string, journal_snapshot) st_res" where
  "journal_acquire C jc1 between jc2 k owner db = bindS (journal_get C jc1 k db) (\<lambda>found db.
     case found of None \<Rightarrow> (Inl ''NOT_FOUND'', db)
     | Some sn \<Rightarrow> with_snapshot C k (journal_request C jc2 OpAcquire k owner (Some sn) (between db)))"

definition journal_save :: "'p codec \<Rightarrow> journal_call \<Rightarrow> journal_snapshot \<Rightarrow> string \<Rightarrow> 'p redis \<Rightarrow> ('p redis, string, journal_snapshot) st_res" where
  "journal_save C jc sn owner db = with_snapshot C (et_requestId (sn_entry sn))
     (journal_request C jc OpSave (et_requestId (sn_entry sn)) owner (Some sn) db)"

definition journal_release :: "'p codec \<Rightarrow> journal_call \<Rightarrow> string \<Rightarrow> string \<Rightarrow> 'p redis \<Rightarrow> ('p redis, string, unit) st_res" where
  "journal_release C jc k owner db = bindS (journal_request C jc OpRelease k owner None db) (\<lambda>_ db. (Inr (), db))"

definition journal_pending :: "'p codec \<Rightarrow> journal_call \<Rightarrow> 'p redis \<Rightarrow> ('p redis, string, string list) st_res" where
  "journal_pending C jc db = bindS (journal_request C jc OpPending (''0x'' @ replicate 64 CHR ''0'') [] None db) (\<lambda>r db.
     (Inr (case r of Ids ks \<Rightarrow> ks | Code c \<Rightarrow> [c] | _ \<Rightarrow> []), db))"

subsection \<open>Runs of the script\<close>

definition empty_redis :: "'p redis" where
  "empty_redis = \<lparr>db_requests = (\<lambda>_. None), db_gate = (\<lambda>_. None), db_pending = [], db_active = []\<rparr>"

text \<open>Any clients, any calls, in any order, at times that do not go back.\<close>

inductive journal_run :: "int \<Rightarrow> 'p redis \<Rightarrow> bool" where
  started: "journal_run t empty_redis"
| called: "journal_run t db \<Longrightarrow> t \<le> now \<Longrightarrow> journal_run now (snd (journal_eval acl now opn a db))"

definition gates_ok :: "'p redis \<Rightarrow> bool" where
  "gates_ok db \<longleftrightarrow>
     (\<forall>s k. db_gate db s = Some k \<longrightarrow> (\<exists>h. db_requests db k = Some h \<and> rh_signer h = s \<and> rh_needsSigner h \<and> k \<in> set (db_active db)))
   \<and> (\<forall>k \<in> set (db_active db). \<exists>h. db_requests db k = Some h \<and> db_gate db (rh_signer h) = Some k)"

definition hash_ok :: "'p request_hash \<Rightarrow> bool" where
  "hash_ok h \<longleftrightarrow> (rh_needsSigner h \<longrightarrow> rh_expireAt h = None) \<and> rh_terminalExpiresAt h = rh_expireAt h \<and> 1 \<le> rh_revision h"

definition journal_inv :: "'p redis \<Rightarrow> bool" where
  "journal_inv db \<longleftrightarrow> gates_ok db \<and> (\<forall>k h. db_requests db k = Some h \<longrightarrow> hash_ok h)"

lemma journal_inv_empty: "journal_inv empty_redis"
  by (simp add: journal_inv_def gates_ok_def empty_redis_def)

lemma live_request: "live now db k = Some h \<Longrightarrow> db_requests db k = Some h"
  by (auto simp: live_def split: option.splits if_splits)

lemma live_None: "live now db k = None \<Longrightarrow> db_requests db k = Some h \<Longrightarrow> \<exists>t. rh_expireAt h = Some t \<and> now > t"
  by (auto simp: live_def split: option.splits if_splits)

lemma put_simps [simp]:
  "db_requests (put_request k h db) = (db_requests db)(k := h)" "db_gate (put_request k h db) = db_gate db"
  "db_active (put_request k h db) = db_active db"
  by (simp_all add: put_request_def)

lemma gates_okI:
  "(\<And>s k. db_gate db s = Some k \<Longrightarrow> \<exists>h. db_requests db k = Some h \<and> rh_signer h = s \<and> rh_needsSigner h \<and> k \<in> set (db_active db))
   \<Longrightarrow> (\<And>k. k \<in> set (db_active db) \<Longrightarrow> \<exists>h. db_requests db k = Some h \<and> db_gate db (rh_signer h) = Some k) \<Longrightarrow> gates_ok db"
  unfolding gates_ok_def by blast

lemma gate_holder:
  "gates_ok db \<Longrightarrow> db_gate db s = Some k \<Longrightarrow>
     \<exists>h. db_requests db k = Some h \<and> rh_signer h = s \<and> rh_needsSigner h \<and> k \<in> set (db_active db)"
  unfolding gates_ok_def by blast

lemma active_holder:
  "gates_ok db \<Longrightarrow> k \<in> set (db_active db) \<Longrightarrow> \<exists>h. db_requests db k = Some h \<and> db_gate db (rh_signer h) = Some k"
  unfolding gates_ok_def by blast

text \<open>Replacing a request that keeps its signer and need.\<close>

lemma inv_put:
  assumes "journal_inv db" "db_requests db k = Some h" "rh_signer h' = rh_signer h" "rh_needsSigner h' = rh_needsSigner h" "hash_ok h'"
  shows "journal_inv (put_request k (Some h') db)"
proof -
  have g: "gates_ok db" using assms(1) by (simp add: journal_inv_def)
  have "gates_ok (put_request k (Some h') db)"
    by (rule gates_okI) (use gate_holder [OF g] active_holder [OF g] assms(2-4) in \<open>fastforce+\<close>)
  then show ?thesis using assms(1,5) by (auto simp: journal_inv_def)
qed

lemma inv_pending [simp]: "journal_inv (db\<lparr>db_pending := z\<rparr>) \<longleftrightarrow> journal_inv db"
  by (simp add: journal_inv_def gates_ok_def)

lemma inv_put_unheld:
  assumes "journal_inv db" "k \<notin> set (db_active db)" "\<And>s. db_gate db s \<noteq> Some k" "\<And>h. x = Some h \<Longrightarrow> hash_ok h"
  shows "journal_inv (put_request k x db)"
proof -
  have g: "gates_ok db" using assms(1) by (simp add: journal_inv_def)
  have "gates_ok (put_request k x db)"
  proof (rule gates_okI)
    fix s k' assume "db_gate (put_request k x db) s = Some k'"
    then have "db_gate db s = Some k'" "k' \<noteq> k" using assms(3) [of s] by auto
    with gate_holder [OF g this(1)] show "\<exists>h. db_requests (put_request k x db) k' = Some h \<and> rh_signer h = s \<and> rh_needsSigner h
      \<and> k' \<in> set (db_active (put_request k x db))" by simp
  next
    fix k' assume "k' \<in> set (db_active (put_request k x db))"
    then have "k' \<in> set (db_active db)" "k' \<noteq> k" using assms(2) by auto
    with active_holder [OF g this(1)] show "\<exists>h. db_requests (put_request k x db) k' = Some h
      \<and> db_gate (put_request k x db) (rh_signer h) = Some k'" by simp
  qed
  then show ?thesis using assms(1,4) by (auto simp: journal_inv_def)
qed

lemma unheld:
  assumes "journal_inv db" "db_requests db k = None \<or> (\<exists>h. db_requests db k = Some h \<and> \<not> rh_needsSigner h)"
  shows "k \<notin> set (db_active db)" "db_gate db s \<noteq> Some k"
  using assms unfolding journal_inv_def gates_ok_def by (metis option.distinct(1) option.inject)+

lemma live_unheld:
  assumes "journal_inv db" "live now db k = None"
  shows "k \<notin> set (db_active db)" "db_gate db s \<noteq> Some k"
proof -
  have "db_requests db k = None \<or> (\<exists>h. db_requests db k = Some h \<and> \<not> rh_needsSigner h)"
    using assms live_None [OF assms(2)] by (cases "db_requests db k") (auto simp: journal_inv_def hash_ok_def)
  from unheld [OF assms(1) this] show "k \<notin> set (db_active db)" "db_gate db s \<noteq> Some k" by blast+
qed

lemma take_simps [simp]:
  "db_requests (take_gate a db) = db_requests db" "db_gate (take_gate a db) = (db_gate db)(sa_signer a := Some (sa_id a))"
  "set (db_active (take_gate a db)) = insert (sa_id a) (set (db_active db))"
  by (simp_all add: take_gate_def)

lemma drop_simps [simp]:
  "db_requests (drop_gate a db) = db_requests db" "set (db_active (drop_gate a db)) = set (db_active db) - {sa_id a}"
  by (auto simp: drop_gate_def)

lemma drop_gate_Some: "db_gate (drop_gate a db) s = Some k \<longleftrightarrow> db_gate db s = Some k \<and> \<not> (s = sa_signer a \<and> k = sa_id a)"
  by (auto simp: drop_gate_def)

lemma inv_take:
  assumes "journal_inv db" "db_requests db (sa_id a) = Some h" "rh_signer h = sa_signer a" "rh_signer h' = sa_signer a"
    and "rh_needsSigner h'" "hash_ok h'" "\<not> gate_busy a db"
  shows "journal_inv (put_request (sa_id a) (Some h') (take_gate a db))"
proof -
  let ?db = "put_request (sa_id a) (Some h') (take_gate a db)"
  have g: "gates_ok db" using assms(1) by (simp add: journal_inv_def)
  have "gates_ok ?db"
  proof (rule gates_okI)
    fix s k assume k: "db_gate ?db s = Some k"
    show "\<exists>h. db_requests ?db k = Some h \<and> rh_signer h = s \<and> rh_needsSigner h \<and> k \<in> set (db_active ?db)"
    proof (cases "s = sa_signer a")
      case True
      with k assms(4,5) show ?thesis by simp
    next
      case False
      with k have "db_gate db s = Some k" by simp
      from gate_holder [OF g this] False assms(2,3) show ?thesis by auto
    qed
  next
    fix k assume "k \<in> set (db_active ?db)"
    then consider "k = sa_id a" | "k \<noteq> sa_id a" "k \<in> set (db_active db)" by auto
    then show "\<exists>h. db_requests ?db k = Some h \<and> db_gate ?db (rh_signer h) = Some k"
    proof cases
      case 2
      from active_holder [OF g this(2)] obtain h2 where h2: "db_requests db k = Some h2" "db_gate db (rh_signer h2) = Some k" by blast
      with 2(1) assms(7) have "rh_signer h2 \<noteq> sa_signer a" by (auto simp: gate_busy_def)
      with h2 2(1) show ?thesis by (intro exI [of _ h2]) simp
    qed (simp add: assms(4))
  qed
  then show ?thesis using assms(1,6) by (auto simp: journal_inv_def)
qed

lemma inv_drop:
  assumes "journal_inv db" "db_requests db (sa_id a) = Some h" "rh_signer h = sa_signer a"
    and "\<And>h'. x = Some h' \<Longrightarrow> hash_ok h'"
  shows "journal_inv (put_request (sa_id a) x (drop_gate a db))"
proof (rule inv_put_unheld)
  have g: "gates_ok db" using assms(1) by (simp add: journal_inv_def)
  have only: "s = sa_signer a" if "db_gate db s = Some (sa_id a)" for s
    using gate_holder [OF g that] assms(2,3) by auto
  have "gates_ok (drop_gate a db)"
  proof (rule gates_okI)
    fix s k assume "db_gate (drop_gate a db) s = Some k"
    then have "db_gate db s = Some k" "k \<noteq> sa_id a" using only by (auto simp: drop_gate_Some)
    with gate_holder [OF g this(1)] show "\<exists>h. db_requests (drop_gate a db) k = Some h \<and> rh_signer h = s \<and> rh_needsSigner h
      \<and> k \<in> set (db_active (drop_gate a db))" by simp
  next
    fix k assume "k \<in> set (db_active (drop_gate a db))"
    then have "k \<in> set (db_active db)" "k \<noteq> sa_id a" by auto
    with active_holder [OF g this(1)] show "\<exists>h. db_requests (drop_gate a db) k = Some h
      \<and> db_gate (drop_gate a db) (rh_signer h) = Some k" by (auto simp: drop_gate_Some)
  qed
  then show "journal_inv (drop_gate a db)" using assms(1) by (simp add: journal_inv_def)
  show "sa_id a \<notin> set (db_active (drop_gate a db))" by simp
  show "db_gate (drop_gate a db) s \<noteq> Some (sa_id a)" for s using only by (auto simp: drop_gate_Some)
qed (rule assms(4))

lemma inv_retain:
  assumes "\<And>x. (\<And>h'. x = Some h' \<Longrightarrow> hash_ok h' \<and> rh_signer h' = rh_signer h \<and> rh_needsSigner h' = rh_needsSigner h) \<Longrightarrow>
      sa_terminal a \<or> (\<exists>h'. x = Some h') \<Longrightarrow> journal_inv (put_request (sa_id a) x db)"
    and "1 \<le> rh_revision h" "sa_terminal a \<longrightarrow> \<not> rh_needsSigner h"
  shows "journal_inv (retain now a t h db)"
proof -
  have sw: "put_request k x (db\<lparr>db_pending := z\<rparr>) = put_request k x db\<lparr>db_pending := z\<rparr>" for k x z
    by (simp add: put_request_def)
  show ?thesis
  proof (cases "sa_terminal a")
    case True
    show ?thesis unfolding retain_def sw if_P [OF True] inv_pending
      by (rule assms(1)) (use True assms(2,3) in \<open>auto simp: hash_ok_def split: if_splits\<close>)
  next
    case False
    show ?thesis unfolding retain_def sw if_not_P [OF False] inv_pending
      by (rule assms(1)) (use assms(2) in \<open>auto simp: hash_ok_def\<close>)
  qed
qed

lemma op_create_inv: "journal_inv db \<Longrightarrow> journal_inv (snd (op_create now a db))"
  by (auto simp: op_create_def Let_def intro!: inv_retain inv_put_unheld dest: live_unheld)

lemma op_release_inv: "journal_inv db \<Longrightarrow> db_requests db (sa_id a) = Some h \<Longrightarrow> journal_inv (snd (op_release a h db))"
  by (auto simp: op_release_def intro!: inv_put) (simp add: journal_inv_def hash_ok_def)

lemma op_acquire_inv:
  assumes "journal_inv db" "db_requests db (sa_id a) = Some h" "rh_signer h = sa_signer a"
  shows "journal_inv (snd (op_acquire now a h db))"
proof -
  have "hash_ok h" using assms by (auto simp: journal_inv_def)
  with assms show ?thesis
    by (cases "rh_needsSigner h")
      (auto simp: op_acquire_def Let_def hash_ok_def intro!: inv_put [OF assms(1,2)] inv_take [OF assms(1-3)])
qed

lemma op_save_inv:
  assumes "journal_inv db" "db_requests db (sa_id a) = Some h" "rh_signer h = sa_signer a"
  shows "journal_inv (snd (op_save now a saved h db))"
  by (auto simp: op_save_def Let_def assms intro!: inv_retain inv_drop inv_take)

lemma journal_eval_inv: "journal_inv db \<Longrightarrow> journal_inv (snd (journal_eval acl now opn a db))"
  by (auto simp: journal_eval_def Let_def op_create_inv op_release_inv op_acquire_inv op_save_inv dest!: live_request split: option.splits)

lemma journal_run_inv: "journal_run t db \<Longrightarrow> journal_inv db"
  by (induction rule: journal_run.induct) (simp_all add: journal_inv_empty journal_eval_inv)

subsection \<open>What the gate and the fence promise\<close>

text \<open>
  C12: the gate of a signer is exclusive and outlives every lease. In every state that any
  sequence of script calls can reach, two requests of the same signer that are both on the
  active list are the same request; it is the one the gate names, it still needs its signer, and
  its key carries no expiry, so no passage of time can free the gate or lose the request.
\<close>

theorem signer_gate_exclusive:
  assumes "journal_run t db" "k \<in> set (db_active db)" "k' \<in> set (db_active db)"
    and "db_requests db k = Some h" "db_requests db k' = Some h'" "rh_signer h = rh_signer h'"
  shows "k = k' \<and> db_gate db (rh_signer h) = Some k \<and> rh_needsSigner h \<and> (\<forall>now. live now db k = Some h)"
proof -
  from journal_run_inv [OF assms(1)] have g: "gates_ok db" and ok: "hash_ok h"
    using assms(4) by (auto simp: journal_inv_def)
  from active_holder [OF g assms(2)] active_holder [OF g assms(3)] assms(4-6)
  have gate: "db_gate db (rh_signer h) = Some k" "db_gate db (rh_signer h) = Some k'" by auto
  from gate_holder [OF g gate(1)] assms(4) have "rh_needsSigner h" by auto
  with ok gate assms(4) show ?thesis by (auto simp: live_def hash_ok_def)
qed

lemma retain_gate [simp]: "db_gate (retain now a t h db) = db_gate db"
  by (simp add: retain_def)

lemma gate_change:
  assumes "db_gate db s = Some k" "db_gate (snd (journal_eval acl now opn a db)) s \<noteq> Some k"
  obtains h where "opn = OpSave" "sa_id a = k" "\<not> sa_needsSigner a" "live now db k = Some h"
    "rh_owner h = Some (sa_owner a)" "now < lease_until h" "rh_revision h = sa_revision a" "rh_signer h = s"
proof -
  have take: "db_gate (take_gate a db) s = Some k" if "\<not> gate_busy a db"
    using that assms(1) by (auto simp: gate_busy_def)
  have drop: "s = sa_signer a \<and> k = sa_id a" if "db_gate (drop_gate a db) s \<noteq> Some k"
    using that assms(1) by (auto simp: drop_gate_def split: if_splits)
  show ?thesis
  proof (cases "\<exists>h. live now db (sa_id a) = Some h \<and> opn = OpSave \<and> rh_signer h = sa_signer a
      \<and> db_gate (snd (op_save now a (rh_terminalExpiresAt h) h db)) s \<noteq> Some k")
    case True
    then obtain h where h: "live now db (sa_id a) = Some h" "opn = OpSave" "rh_signer h = sa_signer a"
      and g: "db_gate (snd (op_save now a (rh_terminalExpiresAt h) h db)) s \<noteq> Some k" by blast
    have "\<not> sa_needsSigner a \<and> rh_owner h = Some (sa_owner a) \<and> now < lease_until h \<and> rh_revision h = sa_revision a
        \<and> db_gate (drop_gate a db) s \<noteq> Some k"
      using g take assms(1) by (auto simp: op_save_def Let_def split: if_splits)
    with drop h that show ?thesis by auto
  next
    case False
    then have "db_gate (snd (journal_eval acl now opn a db)) s = Some k"
      using assms(1) take
      by (cases opn) (auto simp: journal_eval_def Let_def op_create_def op_release_def op_acquire_def split: option.splits)
    with assms(2) show ?thesis by simp
  qed
qed

lemma op_save_Snapshot:
  assumes "op_save now a saved h db = (Snapshot n p, db')" "db_requests db (sa_id a) = Some h" "rh_signer h = sa_signer a"
  shows "rh_owner h = Some (sa_owner a) \<and> now < lease_until h \<and> rh_revision h = sa_revision a \<and> n = sa_revision a + 1 \<and> p = sa_payload a
    \<and> (sa_needsSigner a \<longrightarrow> db_gate db' (sa_signer a) = Some (sa_id a) \<and> \<not> gate_busy a db)
    \<and> (\<exists>h'. db_requests db' (sa_id a) = Some h' \<and> rh_revision h' = sa_revision a + 1 \<and> rh_payload h' = sa_payload a
        \<and> rh_owner h' = Some (sa_owner a) \<and> rh_signer h' = sa_signer a)
    \<and> (\<forall>k. k \<noteq> sa_id a \<longrightarrow> db_requests db' k = db_requests db k)"
  using assms
  by (auto simp: op_save_def Let_def retain_def snapshot_reply_def live_def split: if_splits option.splits)

lemma eval_save_Snapshot:
  assumes "journal_eval acl now OpSave a db = (Snapshot n p, db')"
  obtains h where "live now db (sa_id a) = Some h" "rh_signer h = sa_signer a"
    "op_save now a (rh_terminalExpiresAt h) h db = (Snapshot n p, db')"
  using assms by (auto simp: journal_eval_def Let_def split: if_splits option.splits)

text \<open>
  C13: saving is fenced. A save that succeeds was made by the owner of an unexpired lease on the
  latest revision; it stores exactly the payload that was sent under the next revision, touches
  no other request, and holds the signer's gate if the entry still needs the signer. After it no
  save of the same request on the old revision can succeed, whatever the time, so of two
  owners that read the same snapshot at most one writes. Nothing else frees a gate: a call
  after which a gate no longer names its request is a save of that request, by the owner of its
  lease, of an entry that no longer needs the signer.
\<close>

theorem journal_save_fenced:
  assumes "journal_eval acl now OpSave a db = (Snapshot n p, db')"
  shows "(\<exists>h. live now db (sa_id a) = Some h \<and> rh_owner h = Some (sa_owner a) \<and> now < lease_until h \<and> rh_revision h = sa_revision a)
    \<and> n = sa_revision a + 1 \<and> p = sa_payload a
    \<and> (\<exists>h'. db_requests db' (sa_id a) = Some h' \<and> rh_payload h' = sa_payload a \<and> rh_revision h' = n)
    \<and> (\<forall>k. k \<noteq> sa_id a \<longrightarrow> db_requests db' k = db_requests db k)
    \<and> (sa_needsSigner a \<longrightarrow> db_gate db' (sa_signer a) = Some (sa_id a))
    \<and> (\<forall>acl' now' b m q. sa_id b = sa_id a \<longrightarrow> sa_revision b = sa_revision a \<longrightarrow> fst (journal_eval acl' now' OpSave b db') \<noteq> Snapshot m q)
    \<and> (\<forall>s k. db_gate db s = Some k \<longrightarrow> db_gate db' s \<noteq> Some k \<longrightarrow> k = sa_id a \<and> \<not> sa_needsSigner a)"
proof -
  from eval_save_Snapshot [OF assms] obtain h where h: "live now db (sa_id a) = Some h" "rh_signer h = sa_signer a"
    "op_save now a (rh_terminalExpiresAt h) h db = (Snapshot n p, db')" .
  note sv = op_save_Snapshot [OF h(3) live_request [OF h(1)] h(2)]
  have again: "fst (journal_eval acl' now' OpSave b db') \<noteq> Snapshot m q"
    if "sa_id b = sa_id a" "sa_revision b = sa_revision a" for acl' now' b m q
  proof
    assume "fst (journal_eval acl' now' OpSave b db') = Snapshot m q"
    then obtain db2 where "journal_eval acl' now' OpSave b db' = (Snapshot m q, db2)" by (metis prod.collapse)
    from eval_save_Snapshot [OF this] obtain h2 where h2: "live now' db' (sa_id b) = Some h2" "rh_signer h2 = sa_signer b"
      "op_save now' b (rh_terminalExpiresAt h2) h2 db' = (Snapshot m q, db2)" .
    from op_save_Snapshot [OF h2(3) live_request [OF h2(1)] h2(2)] live_request [OF h2(1)] sv that show False by auto
  qed
  have gate: "k = sa_id a \<and> \<not> sa_needsSigner a" if "db_gate db s = Some k" "db_gate db' s \<noteq> Some k" for s k
    using gate_change [OF that(1), of acl now OpSave a] that(2) assms by (metis snd_conv)
  from sv h again gate show ?thesis by (intro conjI) blast+
qed

definition run_args :: "nat script_args" where
  "run_args = \<lparr>sa_id = ''a'', sa_owner = ''o'', sa_revision = 1, sa_payload = 7, sa_needsSigner = True, sa_signer = ''s'',
     sa_terminal = False\<rparr>"

definition run_created :: "nat redis" where
  "run_created = snd (journal_eval True 0 OpCreate run_args empty_redis)"

definition run_acquired :: "nat redis" where
  "run_acquired = snd (journal_eval True 10 OpAcquire run_args run_created)"

lemmas run_redis_defs = run_args_def run_created_def run_acquired_def journal_eval_def live_def empty_redis_def op_create_def
  op_acquire_def op_save_def retain_def put_request_def snapshot_reply_def lease_until_def gate_busy_def take_gate_def lease_ms_def

lemma run_acquired_run: "journal_run 10 run_acquired"
  unfolding run_acquired_def run_created_def
  by (rule journal_run.called [OF journal_run.called [OF journal_run.started [of 0]]]) simp_all

theorem signer_gate_exclusive_witness:
  "\<exists>h. db_requests run_acquired ''a'' = Some h \<and> db_gate run_acquired ''s'' = Some ''a'' \<and> live 999999999999 run_acquired ''a'' = Some h"
proof -
  have a: "''a'' \<in> set (db_active run_acquired)" by (simp add: run_redis_defs)
  obtain h where h: "db_requests run_acquired ''a'' = Some h" "rh_signer h = ''s''" by (simp add: run_redis_defs)
  from signer_gate_exclusive [OF run_acquired_run a a h(1) h(1) HOL.refl] h show ?thesis by auto
qed

theorem journal_save_fenced_witness:
  "\<exists>db'. journal_eval True 20 OpSave run_args run_acquired = (Snapshot 2 7, db') \<and> db_gate db' ''s'' = Some ''a''
     \<and> fst (journal_eval True 21 OpSave run_args db') \<noteq> Snapshot 3 7"
proof -
  obtain db' where d: "journal_eval True 20 OpSave run_args run_acquired = (Snapshot 2 7, db')"
    by (simp add: run_redis_defs)
  have a: "sa_needsSigner run_args" "sa_signer run_args = ''s''" "sa_id run_args = ''a''" by (simp_all add: run_args_def)
  from journal_save_fenced [OF d] a d show ?thesis by auto
qed

end
