(* ===== verification/Issuance_Delivery.thy ===== *)
theory Issuance_Delivery
  imports Issuance_Journal
begin

text \<open>
  One bounded step of the delivery of an issuance, \<open>pipeline/issuance-delivery.ts\<close>. The journal
  is the model's own; before each call to it any other clients may have acted (\<open>de_between\<close>),
  and each call has its own time and network outcome. Transport, evidence sink and budget are
  parameters whose calls answer or throw. The trace records the effects that matter for safety:
  every successful save, with the database right after it, and every broadcast.
\<close>

subsection \<open>Environment and state\<close>

datatype delivery_error = JournalError string | BudgetError string | OtherError string

datatype issuance_receipt = ReceiptPending | ReceiptReverted source_confirmation | ReceiptSuccess source_confirmation

record issuance_transport =
  tr_assertTarget :: "issuance_entry \<Rightarrow> delivery_error + unit"
  tr_processed :: "issuance_entry \<Rightarrow> delivery_error + bool"
  tr_prepare :: "issuance_entry \<Rightarrow> delivery_error + signed_issuance"
  tr_broadcast :: "signed_issuance \<Rightarrow> delivery_error + unit"
  tr_receipt :: "nat \<Rightarrow> issuance_entry \<Rightarrow> delivery_error + issuance_receipt"
  tr_materialized :: "issuance_entry \<Rightarrow> source_confirmation \<Rightarrow> delivery_error + bool"

record evidence_sink =
  sk_put :: "issuance_entry \<Rightarrow> delivery_error + unit"
  sk_assertMayBroadcast :: "nat \<Rightarrow> issuance_entry \<Rightarrow> delivery_error + unit"
  sk_sourceConfirmed :: "issuance_entry \<Rightarrow> source_confirmation \<Rightarrow> delivery_error + unit"
  sk_materialized :: "issuance_entry \<Rightarrow> delivery_error + unit"

record issuance_budget =
  bu_reserve :: "string \<Rightarrow> string \<Rightarrow> int \<Rightarrow> delivery_error + unit"
  bu_reconcile :: "string \<Rightarrow> string \<Rightarrow> int \<Rightarrow> delivery_error + unit"

record 'p delivery_env =
  de_codec :: "'p codec"
  de_calls :: "nat \<Rightarrow> journal_call"
  de_between :: "nat \<Rightarrow> 'p redis \<Rightarrow> 'p redis"
  de_now :: "nat \<Rightarrow> int"
  de_owner :: string
  de_transport :: issuance_transport
  de_evidence :: evidence_sink
  de_budget :: "issuance_budget option"
  de_rawGasLimit :: "string \<Rightarrow> int option"
  de_retryFailed :: bool

datatype 'p delivery_event = EvSaved journal_snapshot "'p redis" | EvBroadcast signed_issuance

record 'p delivery =
  dl_db :: "'p redis"
  dl_calls :: nat
  dl_snap :: journal_snapshot
  dl_entry :: issuance_entry
  dl_trace :: "'p delivery_event list"

type_synonym ('p, 'a) delivering = "('p delivery, delivery_error, 'a) st_res"

definition journal_do :: "'p delivery_env \<Rightarrow> (journal_call \<Rightarrow> 'p redis \<Rightarrow> ('p redis, string, 'a) st_res) \<Rightarrow> 'p delivery
    \<Rightarrow> ('p, 'a) delivering" where
  "journal_do E f S = (case f (de_calls E (dl_calls S)) (de_between E (dl_calls S) (dl_db S)) of
     (r, db) \<Rightarrow> (map_error JournalError r, S\<lparr>dl_db := db, dl_calls := dl_calls S + 1\<rparr>))"

definition ask :: "delivery_error + 'a \<Rightarrow> 'p delivery \<Rightarrow> ('p, 'a) delivering" where
  "ask r S = (r, S)"

definition edit :: "(issuance_entry \<Rightarrow> issuance_entry) \<Rightarrow> 'p delivery \<Rightarrow> 'p delivery" where
  "edit f S = S\<lparr>dl_entry := f (dl_entry S)\<rparr>"

definition save_entry :: "'p delivery_env \<Rightarrow> 'p delivery \<Rightarrow> ('p, unit) delivering" where
  "save_entry E S = bindS (journal_do E (\<lambda>jc. journal_save (de_codec E) jc
       \<lparr>sn_revision = sn_revision (dl_snap S), sn_entry = dl_entry S\<rparr> (de_owner E)) S) (\<lambda>sn S.
     (Inr (), S\<lparr>dl_snap := sn, dl_entry := sn_entry sn, dl_trace := dl_trace S @ [EvSaved sn (dl_db S)]\<rparr>))"

definition fail_with :: "'p delivery_env \<Rightarrow> string \<Rightarrow> 'p delivery \<Rightarrow> ('p, unit) delivering" where
  "fail_with E code S = save_entry E (edit (\<lambda>e. e\<lparr>et_phase := Failed, et_lastError := Some code\<rparr>) S)"

subsection \<open>The stages of a step\<close>

definition store_evidence :: "'p delivery_env \<Rightarrow> 'p delivery \<Rightarrow> ('p, unit) delivering" where
  "store_evidence E S = (if et_evidenceStored (dl_entry S) then (Inr (), S)
     else bindS (ask (sk_put (de_evidence E) (dl_entry S)) S) (\<lambda>_ S.
       save_entry E (edit (\<lambda>e. e\<lparr>et_evidenceStored := True\<rparr>) S)))"

definition may_retry :: "'p delivery_env \<Rightarrow> issuance_entry \<Rightarrow> bool" where
  "may_retry E e \<longleftrightarrow> de_retryFailed E \<and> et_lastError e = Some ''SOURCE_REVERTED''"

definition reopened :: "int \<Rightarrow> issuance_entry \<Rightarrow> issuance_entry" where
  "reopened now e = e\<lparr>et_revertedTransactions := et_revertedTransactions e @ (case et_transaction e of None \<Rightarrow> []
       | Some t \<Rightarrow> [(si_hash t, si_nonce t, now)]),
     et_transaction := None, et_sourceConfirmation := None, et_broadcastAcceptedAt := None, et_phase := Prepared, et_lastError := None\<rparr>"

text \<open>\<open>True\<close> when the step goes on.\<close>

definition reopen_failed :: "'p delivery_env \<Rightarrow> 'p delivery \<Rightarrow> ('p, bool) delivering" where
  "reopen_failed E S = (if et_phase (dl_entry S) \<noteq> Failed then (Inr True, S)
     else if \<not> may_retry E (dl_entry S) then (Inr False, S)
     else bindS (save_entry E (edit (reopened (de_now E 1)) S)) (\<lambda>_ S. (Inr True, S)))"

definition all_digits :: "string \<Rightarrow> bool" where
  "all_digits s \<longleftrightarrow> s \<noteq> [] \<and> list_all dec_digit s"

definition dec_val :: "string \<Rightarrow> int" where
  "dec_val s = foldl (\<lambda>acc c. 10 * acc + digit_val c) 0 s"

definition gasLimitOf :: "'p delivery_env \<Rightarrow> signed_issuance \<Rightarrow> delivery_error + int" where
  "gasLimitOf E t = (case si_gasLimit t of
     Some g \<Rightarrow> (if all_digits g then Inr (dec_val g)
       else (case de_rawGasLimit E (si_raw t) of Some n \<Rightarrow> Inr n | None \<Rightarrow> Inl (JournalError ''GAS_LIMIT_MISSING'')))
   | None \<Rightarrow> (case de_rawGasLimit E (si_raw t) of Some n \<Rightarrow> Inr n | None \<Rightarrow> Inl (JournalError ''GAS_LIMIT_MISSING'')))"

definition reserve_gas :: "'p delivery_env \<Rightarrow> signed_issuance \<Rightarrow> issuance_entry \<Rightarrow> delivery_error + bool" where
  "reserve_gas E t e = (case de_budget E of None \<Rightarrow> Inr False
     | Some b \<Rightarrow> bindE (gasLimitOf E t) (\<lambda>g. bindE (bu_reserve b (si_hash t) (ta_issuer (et_target e)) g) (\<lambda>_. Inr True)))"

definition outcome_expiry :: "issue_outcome \<Rightarrow> int" where
  "outcome_expiry oc = (case oc of Issued i \<Rightarrow> is_expiry i | _ \<Rightarrow> 0)"

text \<open>Sign when nothing is signed yet: \<open>None\<close> when the step ends here, otherwise whether gas was reserved.\<close>

definition sign_if_needed :: "'p delivery_env \<Rightarrow> 'p delivery \<Rightarrow> ('p, bool option) delivering" where
  "sign_if_needed E S = (let e = dl_entry S in
     if et_transaction e \<noteq> None then (Inr (Some False), S)
     else if de_now E 2 \<ge> et_prepareUntil e \<or> outcome_expiry (et_outcome e) * 1000 \<le> de_now E 3
     then bindS (fail_with E ''PREPARATION_EXPIRED'' S) (\<lambda>_ S. (Inr None, S))
     else bindS (ask (tr_processed (de_transport E) e) S) (\<lambda>used S.
       if used then bindS (fail_with E ''REQUEST_ALREADY_USED_UNRECONCILED'' S) (\<lambda>_ S. (Inr None, S))
       else bindS (ask (sk_assertMayBroadcast (de_evidence E) 0 e) S) (\<lambda>_ S.
         bindS (ask (tr_prepare (de_transport E) e) S) (\<lambda>t S.
         bindS (ask (requireE (JournalError ''TARGET_CONFLICT'') (si_chainId t = ta_chainId (et_target e)
           \<and> same (si_source t) (ta_source (et_target e)) \<and> same (si_issuer t) (ta_issuer (et_target e)))) S) (\<lambda>_ S.
         bindS (ask (reserve_gas E t e) S) (\<lambda>reserved S.
         bindS (save_entry E (edit (\<lambda>e. e\<lparr>et_transaction := Some t\<rparr>) S)) (\<lambda>_ S. (Inr (Some reserved), S))))))))"

definition send_signed :: "'p delivery_env \<Rightarrow> signed_issuance \<Rightarrow> 'p delivery \<Rightarrow> 'p delivery" where
  "send_signed E t S = (let S1 = S\<lparr>dl_trace := dl_trace S @ [EvBroadcast t]\<rparr> in
     case tr_broadcast (de_transport E) t of
       Inr _ \<Rightarrow> edit (\<lambda>e. e\<lparr>et_broadcastAcceptedAt := (case et_broadcastAcceptedAt e of None \<Rightarrow> Some (de_now E 4) | a \<Rightarrow> a),
         et_lastError := None\<rparr>) S1
     | Inl _ \<Rightarrow> edit (\<lambda>e. e\<lparr>et_lastError := Some ''BROADCAST_UNCONFIRMED''\<rparr>) S1)"

definition obtain_receipt :: "'p delivery_env \<Rightarrow> 'p delivery \<Rightarrow> ('p, issuance_receipt) delivering" where
  "obtain_receipt E S = bindS (ask (tr_receipt (de_transport E) 0 (dl_entry S)) S) (\<lambda>rc S.
     if rc \<noteq> ReceiptPending then (Inr rc, S)
     else bindS (ask (sk_assertMayBroadcast (de_evidence E) 1 (dl_entry S)) S) (\<lambda>_ S.
       bindS (save_entry E (edit (\<lambda>e. e\<lparr>et_phase := Submitted, et_sourceConfirmation := None\<rparr>) S)) (\<lambda>_ S.
       bindS (ask (sk_assertMayBroadcast (de_evidence E) 2 (dl_entry S)) S) (\<lambda>_ S.
       bindS (save_entry E (case et_transaction (dl_entry S) of None \<Rightarrow> S | Some t \<Rightarrow> send_signed E t S)) (\<lambda>_ S.
       ask (tr_receipt (de_transport E) 1 (dl_entry S)) S)))))"

definition confirmation_of :: "issuance_receipt \<Rightarrow> source_confirmation option" where
  "confirmation_of rc = (case rc of ReceiptPending \<Rightarrow> None | ReceiptReverted c \<Rightarrow> Some c | ReceiptSuccess c \<Rightarrow> Some c)"

definition reconcile_gas :: "'p delivery_env \<Rightarrow> issuance_entry \<Rightarrow> source_confirmation \<Rightarrow> delivery_error + unit" where
  "reconcile_gas E e c = (case de_budget E of None \<Rightarrow> Inr ()
     | Some b \<Rightarrow> (case sf_gasUsed c of
         None \<Rightarrow> Inl (JournalError ''GAS_USED_MISSING'')
       | Some g \<Rightarrow> if \<not> all_digits g then Inl (JournalError ''GAS_USED_MISSING'')
           else (case et_transaction e of
               Some t \<Rightarrow> bu_reconcile b (si_hash t) (ta_issuer (et_target e)) (dec_val g)
             | None \<Rightarrow> Inl (OtherError ''TypeError''))))"

definition settle_success :: "'p delivery_env \<Rightarrow> source_confirmation \<Rightarrow> 'p delivery \<Rightarrow> ('p, unit) delivering" where
  "settle_success E c S =
     bindS (ask (sk_sourceConfirmed (de_evidence E) (dl_entry S) c) S) (\<lambda>_ S.
     if et_phase (dl_entry S) = Materialized then ask (sk_materialized (de_evidence E) (dl_entry S)) S
     else bindS (save_entry E (edit (\<lambda>e. e\<lparr>et_phase := Source_confirmed, et_sourceConfirmation := Some c, et_lastError := None\<rparr>) S)) (\<lambda>_ S.
       bindS (ask (tr_materialized (de_transport E) (dl_entry S) c) S) (\<lambda>applied S.
       if \<not> applied then (Inr (), S)
       else bindS (ask (sk_materialized (de_evidence E) (dl_entry S)) S) (\<lambda>_ S.
         save_entry E (edit (\<lambda>e. e\<lparr>et_phase := Materialized,
           et_materializedAt := (case et_materializedAt e of None \<Rightarrow> Some (de_now E 5) | m \<Rightarrow> m), et_lastError := None\<rparr>) S)))))"

definition deliver :: "'p delivery_env \<Rightarrow> 'p delivery \<Rightarrow> ('p, unit) delivering" where
  "deliver E S = bindS (obtain_receipt E S) (\<lambda>rc S.
     case confirmation_of rc of None \<Rightarrow> (Inr (), S)
     | Some c \<Rightarrow> bindS (ask (reconcile_gas E (dl_entry S) c) S) (\<lambda>_ S.
         (case rc of
            ReceiptReverted _ \<Rightarrow> save_entry E (edit (\<lambda>e. e\<lparr>et_phase := Failed, et_lastError := Some ''SOURCE_REVERTED'',
              et_sourceConfirmation := Some c\<rparr>) S)
          | _ \<Rightarrow> settle_success E c S)))"

definition deliver_signed :: "'p delivery_env \<Rightarrow> 'p delivery \<Rightarrow> ('p, unit) delivering" where
  "deliver_signed E S = bindS (sign_if_needed E S) (\<lambda>signed S. case signed of None \<Rightarrow> (Inr (), S)
     | Some reserved \<Rightarrow>
       bindS (ask (case et_transaction (dl_entry S) of None \<Rightarrow> Inr False
         | Some t \<Rightarrow> if reserved then Inr True else reserve_gas E t (dl_entry S)) S) (\<lambda>_ S. deliver E S))"

definition deliver_approved :: "'p delivery_env \<Rightarrow> 'p delivery \<Rightarrow> ('p, unit) delivering" where
  "deliver_approved E S = (if \<not> issued_outcome (et_outcome (dl_entry S)) then fail_with E ''NOT_APPROVED'' S
     else bindS (ask (tr_assertTarget (de_transport E) (dl_entry S)) S) (\<lambda>_ S.
       bindS (reopen_failed E S) (\<lambda>go S. if go then deliver_signed E S else (Inr (), S))))"

definition advance_body :: "'p delivery_env \<Rightarrow> 'p delivery \<Rightarrow> ('p, unit) delivering" where
  "advance_body E S = (let e = dl_entry S in
     if et_phase e = Failed \<and> \<not> may_retry E e then (Inr (), S)
     else if et_phase e = Prepared \<and> et_transaction e = None \<and> issued_outcome (et_outcome e) \<and> de_now E 0 \<ge> et_prepareUntil e
     then fail_with E ''PREPARATION_EXPIRED'' S
     else bindS (store_evidence E S) (\<lambda>_ S. deliver_approved E S))"

text \<open>The handler of an error that is neither the journal's nor the budget's.\<close>

definition recover_step :: "'p delivery_env \<Rightarrow> string \<Rightarrow> 'p delivery \<Rightarrow> ('p, journal_snapshot) delivering" where
  "recover_step E k S = bindS (journal_do E (\<lambda>jc. journal_get (de_codec E) jc k) S) (\<lambda>found S.
     case found of None \<Rightarrow> (Inl (JournalError ''NOT_FOUND''), S)
     | Some cur \<Rightarrow>
       if sn_revision cur = sn_revision (dl_snap S) \<and> et_phase (sn_entry cur) \<noteq> Failed
       then journal_do E (\<lambda>jc. journal_save (de_codec E) jc
         (cur\<lparr>sn_entry := (sn_entry cur)\<lparr>et_lastError := Some ''DEPENDENCY_UNAVAILABLE''\<rparr>\<rparr>) (de_owner E)) S
       else (Inr cur, S))"

definition release_quietly :: "'p delivery_env \<Rightarrow> string \<Rightarrow> 'p delivery \<Rightarrow> 'p delivery" where
  "release_quietly E k S = snd (journal_do E (\<lambda>jc. journal_release (de_codec E) jc k (de_owner E)) S)"

definition advanceIssuance :: "'p delivery_env \<Rightarrow> string \<Rightarrow> 'p redis
    \<Rightarrow> (delivery_error + journal_snapshot) \<times> 'p redis \<times> 'p delivery_event list" where
  "advanceIssuance E k db =
     (case journal_acquire (de_codec E) (de_calls E 0) (de_between E 1) (de_calls E 1) k (de_owner E) (de_between E 0 db) of
        (Inl e, db') \<Rightarrow> (Inl (JournalError e), db', [])
      | (Inr sn, db') \<Rightarrow>
        let S = \<lparr>dl_db = db', dl_calls = 2, dl_snap = sn, dl_entry = sn_entry sn, dl_trace = []\<rparr>;
            (r, S') = (case advance_body E S of
                (Inr _, S1) \<Rightarrow> (Inr (dl_snap S1), S1)
              | (Inl (OtherError _), S1) \<Rightarrow> recover_step E k S1
              | (Inl e, S1) \<Rightarrow> (Inl e, S1));
            S2 = release_quietly E k S'
        in (r, dl_db S2, dl_trace S2))"

subsection \<open>Nothing leaves before it is durable\<close>

text \<open>The database holds the entry, and the gate of its signer if it needs one.\<close>

definition durable_entry :: "'p codec \<Rightarrow> issuance_entry \<Rightarrow> 'p redis \<Rightarrow> bool" where
  "durable_entry C e db \<longleftrightarrow> (\<exists>h. db_requests db (lower (et_requestId e)) = Some h
     \<and> cx_decrypt C (lower (et_requestId e)) (rh_payload h) = Some e
     \<and> (needsSigner e \<longrightarrow> db_gate db (rh_signer h) = Some (lower (et_requestId e))))"

text \<open>Reading a trace from the left with the entry of the latest save.\<close>

fun sends_ok :: "'p codec \<Rightarrow> issuance_entry option \<Rightarrow> 'p delivery_event list \<Rightarrow> bool" where
  "sends_ok C prev [] = True"
| "sends_ok C prev (EvSaved sn db # tr) = (durable_entry C (sn_entry sn) db \<and> sends_ok C (Some (sn_entry sn)) tr)"
| "sends_ok C prev (EvBroadcast t # tr) =
     ((\<exists>e. prev = Some e \<and> et_transaction e = Some t \<and> et_phase e = Submitted \<and> needsSigner e) \<and> sends_ok C prev tr)"

fun last_saved :: "issuance_entry option \<Rightarrow> 'p delivery_event list \<Rightarrow> issuance_entry option" where
  "last_saved prev [] = prev"
| "last_saved prev (EvSaved sn db # tr) = last_saved (Some (sn_entry sn)) tr"
| "last_saved prev (EvBroadcast t # tr) = last_saved prev tr"

fun sends :: "'p delivery_event list \<Rightarrow> signed_issuance list" where
  "sends [] = []"
| "sends (EvSaved sn db # tr) = sends tr"
| "sends (EvBroadcast t # tr) = t # sends tr"

lemma sends_ok_append: "sends_ok C prev (tr @ us) \<longleftrightarrow> sends_ok C prev tr \<and> sends_ok C (last_saved prev tr) us"
  by (induction C prev tr rule: sends_ok.induct) auto

lemma last_saved_append: "last_saved prev (tr @ us) = last_saved (last_saved prev tr) us"
  by (induction prev tr rule: last_saved.induct) auto

lemma sends_append [simp]: "sends (tr @ us) = sends tr @ sends us"
  by (induction tr rule: sends.induct) auto

lemma journal_save_ok:
  assumes "journal_save C jc sn owner db = (Inr sn', db')" "codec_ok C"
  shows "sn_entry sn' = sn_entry sn \<and> durable_entry C (sn_entry sn) db'"
proof -
  let ?k = "et_requestId (sn_entry sn)"
  let ?a = "args_of C (jc_iv jc) (lower ?k) owner (Some sn)"
  from assms(1) obtain r where r: "journal_request C jc OpSave ?k owner (Some sn) db = (Inr r, db')" "snapshot_from C ?k r = Inr sn'"
    unfolding journal_save_def with_snapshot_def by (auto elim!: bindS_Inr_E)
  then have ev: "journal_eval (jc_acl jc) (jc_now jc) OpSave ?a db = (r, db')"
    by (auto simp: journal_request_def request_id_def Let_def split: if_splits network.splits reply.splits prod.splits)
  from r(2) obtain n p where p: "r = Snapshot n p" "open_entry C ?k p = Inr (sn_entry sn')"
    by (auto simp: snapshot_from_def bindE_Inr_iff split: reply.splits if_splits)
  from eval_save_Snapshot [OF ev [unfolded p(1)]] obtain h where h: "live (jc_now jc) db (sa_id ?a) = Some h" "rh_signer h = sa_signer ?a"
    "op_save (jc_now jc) ?a (rh_terminalExpiresAt h) h db = (Snapshot n p, db')" .
  note sv = op_save_Snapshot [OF h(3) live_request [OF h(1)] h(2)]
  have a: "sa_id ?a = lower ?k" "sa_payload ?a = cx_encrypt C (jc_iv jc) (lower ?k) (sn_entry sn)" "sa_needsSigner ?a = needsSigner (sn_entry sn)"
    by (simp_all add: args_of_def)
  have dec: "cx_decrypt C (lower ?k) (sa_payload ?a) = Some (sn_entry sn)" using assms(2) by (simp add: a codec_ok_def)
  have "sn_entry sn' = sn_entry sn"
    using p(2) sv dec by (auto simp: open_entry_def split: option.splits if_splits)
  moreover have "durable_entry C (sn_entry sn) db'"
    unfolding durable_entry_def using sv dec a by auto
  ultimately show ?thesis by blast
qed

definition calm :: "'p codec \<Rightarrow> nat \<Rightarrow> 'p delivery \<Rightarrow> bool" where
  "calm C n S \<longleftrightarrow> sends_ok C None (dl_trace S) \<and> length (sends (dl_trace S)) \<le> n"

definition sound :: "'p codec \<Rightarrow> nat \<Rightarrow> 'p delivery \<Rightarrow> bool" where
  "sound C n S \<longleftrightarrow> calm C n S \<and> issued_outcome (et_outcome (dl_entry S))"

lemma journal_do_keeps: "journal_do E f S = (r, S') \<Longrightarrow> dl_trace S' = dl_trace S \<and> dl_entry S' = dl_entry S \<and> dl_snap S' = dl_snap S"
  by (auto simp: journal_do_def split: prod.splits)

lemma save_entry_cases:
  assumes "save_entry E S = (r, S')" "codec_ok (de_codec E)"
  shows "dl_entry S' = dl_entry S"
    and "dl_trace S' = dl_trace S \<or> (\<exists>sn db. dl_trace S' = dl_trace S @ [EvSaved sn db] \<and> sn_entry sn = dl_entry S
           \<and> durable_entry (de_codec E) (dl_entry S) db)"
    and "r = Inr u \<Longrightarrow> last_saved None (dl_trace S') = Some (dl_entry S)"
proof -
  let ?f = "\<lambda>jc. journal_save (de_codec E) jc \<lparr>sn_revision = sn_revision (dl_snap S), sn_entry = dl_entry S\<rparr> (de_owner E)"
  obtain q S1 where q: "journal_do E ?f S = (q, S1)" by fastforce
  note k = journal_do_keeps [OF q]
  have "dl_entry S' = dl_entry S \<and> (dl_trace S' = dl_trace S \<or> (\<exists>sn db. dl_trace S' = dl_trace S @ [EvSaved sn db] \<and> sn_entry sn = dl_entry S
           \<and> durable_entry (de_codec E) (dl_entry S) db)) \<and> (r = Inr u \<longrightarrow> last_saved None (dl_trace S') = Some (dl_entry S))"
  proof (cases q)
    case (Inl e)
    with assms(1) q k show ?thesis by (auto simp: save_entry_def)
  next
    case (Inr sn)
    with assms(1) q have S': "S' = S1\<lparr>dl_snap := sn, dl_entry := sn_entry sn, dl_trace := dl_trace S1 @ [EvSaved sn (dl_db S1)]\<rparr>"
      by (simp add: save_entry_def)
    from q Inr have "?f (de_calls E (dl_calls S)) (de_between E (dl_calls S) (dl_db S)) = (Inr sn, dl_db S1)"
      by (auto simp: journal_do_def split: prod.splits)
    from journal_save_ok [OF this assms(2)] S' k show ?thesis by (auto simp: last_saved_append)
  qed
  then show "dl_entry S' = dl_entry S" "dl_trace S' = dl_trace S \<or> (\<exists>sn db. dl_trace S' = dl_trace S @ [EvSaved sn db] \<and> sn_entry sn = dl_entry S
           \<and> durable_entry (de_codec E) (dl_entry S) db)" "r = Inr u \<Longrightarrow> last_saved None (dl_trace S') = Some (dl_entry S)"
    by auto
qed

lemma sound_edit: "sound C n S \<Longrightarrow> et_outcome (f (dl_entry S)) = et_outcome (dl_entry S) \<Longrightarrow> sound C n (edit f S)"
  by (simp add: sound_def calm_def edit_def)

lemma snd_ask [simp]: "snd (ask r S) = S"
  by (simp add: ask_def)

lemma ask_Inr: "ask r S = (Inr x, S') \<longleftrightarrow> r = Inr x \<and> S' = S"
  by (auto simp: ask_def)

lemma sound_save: "sound (de_codec E) n S \<Longrightarrow> codec_ok (de_codec E) \<Longrightarrow> sound (de_codec E) n (snd (save_entry E S))"
proof -
  assume a: "sound (de_codec E) n S" "codec_ok (de_codec E)"
  obtain r S' where s: "save_entry E S = (r, S')" by fastforce
  from save_entry_cases (1, 2) [OF s a(2)] a(1) s show ?thesis
    by (auto simp: sound_def calm_def sends_ok_append)
qed

lemma sound_edit_save:
  "sound (de_codec E) n S \<Longrightarrow> codec_ok (de_codec E) \<Longrightarrow> et_outcome (f (dl_entry S)) = et_outcome (dl_entry S)
   \<Longrightarrow> sound (de_codec E) n (snd (save_entry E (edit f S)))"
  by (intro sound_save sound_edit)

lemma calm_edit_save:
  assumes "calm (de_codec E) n S" "codec_ok (de_codec E)"
  shows "calm (de_codec E) n (snd (save_entry E (edit f S)))"
proof -
  obtain r S' where s: "save_entry E (edit f S) = (r, S')" by fastforce
  from save_entry_cases (2) [OF s assms(2)] assms(1) s show ?thesis
    by (auto simp: calm_def sends_ok_append edit_def)
qed

lemma calm_fail: "calm (de_codec E) n S \<Longrightarrow> codec_ok (de_codec E) \<Longrightarrow> calm (de_codec E) n (snd (fail_with E c S))"
  unfolding fail_with_def by (rule calm_edit_save)

lemma sound_fail: "sound (de_codec E) n S \<Longrightarrow> codec_ok (de_codec E) \<Longrightarrow> sound (de_codec E) n (snd (fail_with E c S))"
  unfolding fail_with_def by (rule sound_edit_save) simp_all

lemma step_sound:
  "sound (de_codec E) n (snd m) \<Longrightarrow> (\<And>x S. m = (Inr x, S) \<Longrightarrow> sound (de_codec E) n S \<Longrightarrow> sound (de_codec E) n (snd (k x S)))
   \<Longrightarrow> sound (de_codec E) n (snd (bindS m k))"
  by (rule bindS_keeps) auto

lemma step_calm:
  "calm C n (snd m) \<Longrightarrow> (\<And>x S. m = (Inr x, S) \<Longrightarrow> calm C n S \<Longrightarrow> calm C n (snd (k x S))) \<Longrightarrow> calm C n (snd (bindS m k))"
  by (rule bindS_keeps) auto

lemma sound_store: "sound (de_codec E) n S \<Longrightarrow> codec_ok (de_codec E) \<Longrightarrow> sound (de_codec E) n (snd (store_evidence E S))"
  unfolding store_evidence_def by (auto intro!: step_sound sound_edit_save)

lemma calm_store: "calm (de_codec E) n S \<Longrightarrow> codec_ok (de_codec E) \<Longrightarrow> calm (de_codec E) n (snd (store_evidence E S))"
  unfolding store_evidence_def by (auto intro!: step_calm calm_edit_save)

lemma sound_reopen: "sound (de_codec E) n S \<Longrightarrow> codec_ok (de_codec E) \<Longrightarrow> sound (de_codec E) n (snd (reopen_failed E S))"
  unfolding reopen_failed_def by (auto intro!: step_sound sound_edit_save simp: reopened_def)

lemma sound_sign: "sound (de_codec E) n S \<Longrightarrow> codec_ok (de_codec E) \<Longrightarrow> sound (de_codec E) n (snd (sign_if_needed E S))"
  unfolding sign_if_needed_def Let_def by (auto intro!: step_sound sound_edit_save sound_fail)

text \<open>A broadcast right after a successful save of the submitted entry is sound.\<close>

lemma sound_send:
  assumes "sound C n S" "et_transaction (dl_entry S) = Some t" "et_phase (dl_entry S) = Submitted"
    "last_saved None (dl_trace S) = Some (dl_entry S)"
  shows "sound C (Suc n) (send_signed E t S)"
  using assms
  by (auto simp: send_signed_def sound_def calm_def Let_def edit_def sends_ok_append needsSigner_def split: sum.splits)

lemma sound_more: "sound C n S \<Longrightarrow> n \<le> m \<Longrightarrow> sound C m S"
  by (auto simp: sound_def calm_def)

lemma sound_sent:
  assumes "save_entry E (edit f S) = (Inr (), S1)" "codec_ok (de_codec E)" "sound (de_codec E) n (edit f S)"
    "et_phase (f (dl_entry S)) = Submitted"
  shows "sound (de_codec E) (Suc n) (case et_transaction (dl_entry S1) of None \<Rightarrow> S1 | Some t \<Rightarrow> send_signed E t S1)"
proof -
  note sv = save_entry_cases [OF assms(1, 2)]
  have so: "sound (de_codec E) n S1" using sound_save [OF assms(3, 2)] assms(1) by simp
  have ph: "et_phase (dl_entry S1) = Submitted" "last_saved None (dl_trace S1) = Some (dl_entry S1)"
    using sv(1) sv(3) [OF HOL.refl] assms(4) by (simp_all add: edit_def)
  show ?thesis
  proof (cases "et_transaction (dl_entry S1)")
    case None
    with sound_more [OF so, of "Suc n"] show ?thesis by simp
  next
    case (Some t)
    with sound_send [OF so Some ph] show ?thesis by simp
  qed
qed

lemma sound_obtain:
  assumes "sound (de_codec E) 0 S" "codec_ok (de_codec E)"
  shows "sound (de_codec E) (Suc 0) (snd (obtain_receipt E S))"
proof -
  let ?f = "\<lambda>e. e\<lparr>et_phase := Submitted, et_sourceConfirmation := None\<rparr>"
  obtain r S1 where s: "save_entry E (edit ?f S) = (r, S1)" by fastforce
  have so: "sound (de_codec E) 0 (edit ?f S)" using assms(1) by (rule sound_edit) simp
  have S1: "sound (de_codec E) (Suc 0) S1" using sound_more [OF sound_save [OF so assms(2)], of "Suc 0"] s by simp
  have S: "sound (de_codec E) (Suc 0) S" using sound_more [OF assms(1), of "Suc 0"] by simp
  have sent: "r = Inr () \<Longrightarrow> sound (de_codec E) (Suc 0)
     (snd (save_entry E (case et_transaction (dl_entry S1) of None \<Rightarrow> S1 | Some t \<Rightarrow> send_signed E t S1)))"
    using sound_sent [of E ?f S S1 0] s so assms(2) by (intro sound_save) simp_all
  show ?thesis
    unfolding obtain_receipt_def
    by (auto intro!: step_sound S S1 sent simp: ask_Inr s)
qed

lemma sound_settle: "sound (de_codec E) n S \<Longrightarrow> codec_ok (de_codec E) \<Longrightarrow> sound (de_codec E) n (snd (settle_success E c S))"
  unfolding settle_success_def by (auto intro!: step_sound sound_edit_save)

lemma sound_deliver:
  assumes "sound (de_codec E) 0 S" "codec_ok (de_codec E)"
  shows "sound (de_codec E) (Suc 0) (snd (deliver E S))"
  unfolding deliver_def
  by (auto intro!: step_sound sound_obtain sound_edit_save sound_settle assms split: option.split issuance_receipt.split)

lemma sound_calm: "sound C n S \<Longrightarrow> calm C n S"
  by (simp add: sound_def)

lemma calm_more: "calm C n S \<Longrightarrow> n \<le> m \<Longrightarrow> calm C m S"
  by (simp add: calm_def)

lemma calm_signed:
  assumes "sound (de_codec E) 0 S" "codec_ok (de_codec E)"
  shows "calm (de_codec E) (Suc 0) (snd (deliver_signed E S))"
  unfolding deliver_signed_def
proof (rule bindS_keeps)
  note sg = sound_sign [OF assms]
  show "calm (de_codec E) (Suc 0) (snd (sign_if_needed E S))"
    by (rule calm_more [OF sound_calm [OF sg]]) simp
  fix x S1 assume "sign_if_needed E S = (Inr x, S1)"
  with sg have so: "sound (de_codec E) 0 S1" by simp
  have c1: "calm (de_codec E) (Suc 0) S1" by (rule calm_more [OF sound_calm [OF so]]) simp
  show "calm (de_codec E) (Suc 0) (snd (case x of None \<Rightarrow> (Inr (), S1)
           | Some reserved \<Rightarrow>
             bindS (ask (case et_transaction (dl_entry S1) of None \<Rightarrow> Inr False
               | Some t \<Rightarrow> if reserved then Inr True else reserve_gas E t (dl_entry S1)) S1) (\<lambda>_ S. deliver E S)))"
    using c1 sound_calm [OF sound_deliver [OF so assms(2)]]
    by (cases x) (auto intro!: step_calm simp: ask_Inr)
qed

lemma calm_reopened:
  assumes "sound (de_codec E) 0 S" "codec_ok (de_codec E)"
  shows "calm (de_codec E) (Suc 0) (snd (bindS (reopen_failed E S) (\<lambda>go S. if go then deliver_signed E S else (Inr (), S))))"
proof (rule bindS_keeps)
  note rs = sound_reopen [OF assms]
  show "calm (de_codec E) (Suc 0) (snd (reopen_failed E S))"
    by (rule calm_more [OF sound_calm [OF rs]]) simp
  fix x S1 assume "reopen_failed E S = (Inr x, S1)"
  with rs have so: "sound (de_codec E) 0 S1" by simp
  from calm_signed [OF so assms(2)] calm_more [OF sound_calm [OF so], of "Suc 0"]
  show "calm (de_codec E) (Suc 0) (snd (if x then deliver_signed E S1 else (Inr (), S1)))" by simp
qed

lemma calm_approved:
  assumes "calm (de_codec E) 0 S" "codec_ok (de_codec E)"
  shows "calm (de_codec E) (Suc 0) (snd (deliver_approved E S))"
proof (cases "issued_outcome (et_outcome (dl_entry S))")
  case True
  with assms(1) have so: "sound (de_codec E) 0 S" by (simp add: sound_def)
  show ?thesis using True calm_more [OF assms(1), of "Suc 0"]
    by (auto simp: deliver_approved_def ask_Inr intro!: bindS_keeps [where P = "calm (de_codec E) (Suc 0)" and m = "ask r S" for r]
        calm_reopened [OF so assms(2)])
next
  case False
  with calm_fail [OF calm_more [OF assms(1), of "Suc 0"] assms(2)] show ?thesis by (simp add: deliver_approved_def)
qed

lemma calm_body:
  assumes "calm (de_codec E) 0 S" "codec_ok (de_codec E)"
  shows "calm (de_codec E) (Suc 0) (snd (advance_body E S))"
proof -
  note c = calm_more [OF assms(1), of "Suc 0", simplified]
  have st: "calm (de_codec E) 0 (snd (store_evidence E S))" by (rule calm_store [OF assms])
  have "calm (de_codec E) (Suc 0) (snd (bindS (store_evidence E S) (\<lambda>_ S. deliver_approved E S)))"
  proof (rule bindS_keeps)
    show "calm (de_codec E) (Suc 0) (snd (store_evidence E S))" by (rule calm_more [OF st]) simp
    fix x S1 assume "store_evidence E S = (Inr x, S1)"
    with st have "calm (de_codec E) 0 S1" by simp
    then show "calm (de_codec E) (Suc 0) (snd (deliver_approved E S1))" by (rule calm_approved [OF _ assms(2)])
  qed
  with c calm_fail [OF c assms(2)] show ?thesis by (simp add: advance_body_def Let_def)
qed

lemma journal_do_trace: "dl_trace (snd (journal_do E f S)) = dl_trace S"
  by (auto simp: journal_do_def split: prod.splits)

lemma recover_trace: "dl_trace (snd (recover_step E k S)) = dl_trace S"
  unfolding recover_step_def
  by (rule bindS_keeps [where P = "\<lambda>S'. dl_trace S' = dl_trace S"])
     (auto simp: journal_do_trace dest: journal_do_keeps split: option.splits)

text \<open>
  C9: nothing leaves before it is durable. Whatever other clients do between the calls of one
  delivery step, and whatever the network, the transport, the evidence sink and the budget
  answer, the step broadcasts at most one transaction, and the last successful save before the
  broadcast stored an entry that holds exactly this transaction in phase submitted, with the
  signer's gate naming this request. So signed bytes that could not be saved never leave, and a
  crash after the broadcast finds the same transaction in the journal.
\<close>

theorem broadcast_after_save:
  assumes "codec_ok (de_codec E)" "advanceIssuance E k db = (r, db', tr)"
  shows "sends_ok (de_codec E) None tr \<and> length (sends tr) \<le> 1"
proof -
  obtain q d where acq: "journal_acquire (de_codec E) (de_calls E 0) (de_between E 1) (de_calls E 1) k (de_owner E) (de_between E 0 db) = (q, d)"
    by fastforce
  show ?thesis
  proof (cases q)
    case (Inl e)
    with assms(2) acq show ?thesis by (simp add: advanceIssuance_def)
  next
    case (Inr sn)
    let ?S = "\<lparr>dl_db = d, dl_calls = 2, dl_snap = sn, dl_entry = sn_entry sn, dl_trace = []\<rparr>"
    obtain b S1 where b: "advance_body E ?S = (b, S1)" by fastforce
    have "calm (de_codec E) 0 ?S" by (simp add: calm_def)
    from calm_body [OF this assms(1)] b have c: "calm (de_codec E) (Suc 0) S1" by simp
    have "tr = dl_trace S1"
      using assms(2) acq Inr b
      by (auto simp: advanceIssuance_def Let_def release_quietly_def journal_do_trace split: sum.splits prod.splits delivery_error.splits
          dest: arg_cong [where f = "\<lambda>x. dl_trace (snd x)"] simp: recover_trace)
    with c show ?thesis by (simp add: calm_def)
  qed
qed

definition run_rid :: string where
  "run_rid = ''0x'' @ replicate 64 (CHR ''7'')"

lemma run_rid_ok: "is_bytes32 run_rid" "lower run_rid = run_rid"
  by (simp_all add: run_rid_def is_bytes32_def hex_digit_def lower_def lower_char_def list_all_iff)

definition run_tx :: signed_issuance where
  "run_tx = \<lparr>si_hash = ''h'', si_raw = ''r'', si_nonce = 0, si_chainId = 1, si_source = ''a'', si_issuer = ''i'', si_gasLimit = None\<rparr>"

definition run_entry :: issuance_entry where
  "run_entry = \<lparr>et_requestId = run_rid, et_wallet = ''w'', et_fingerprint = ''f'', et_consentVersion = ''1'',
     et_processingPolicy = None, et_retentionPolicy = None, et_createdAt = 0,
     et_prepareUntil = 9000, et_phase = Submitted,
     et_target = \<lparr>ta_chainId = 1, ta_source = ''a'', ta_issuer = ''i'', ta_hubChainId = 2, ta_asc = ''h'',
       ta_issuerMode = None, ta_operatingKey = None, ta_issuerKeyEpoch = None\<rparr>,
     et_outcome = Issued \<lparr>is_attrs = [], is_claimsRoot = [], is_evidenceHash = [], is_methods = 1, is_methodNames = [], is_expiry = 99,
       is_regime = 1, is_claims = [], is_evidence = [], is_screeningSnapshotId = None\<rparr>,
     et_assurance = 1, et_evidenceRecord = None, et_evidenceStored = True, et_transaction = Some run_tx, et_revertedTransactions = [],
     et_sourceConfirmation = None, et_broadcastAcceptedAt = None, et_materializedAt = None, et_lastError = None\<rparr>"

definition run_env :: "issuance_entry delivery_env" where
  "run_env = \<lparr>de_codec = \<lparr>cx_encrypt = (\<lambda>_ _ e. e), cx_decrypt = (\<lambda>_ e. Some e), cx_size = (\<lambda>_. 0), cx_empty = run_entry,
       cx_signerKey = (\<lambda>_ _. ''s'')\<rparr>,
     de_calls = (\<lambda>_. \<lparr>jc_now = 10, jc_acl = True, jc_net = Delivered, jc_iv = 0\<rparr>), de_between = (\<lambda>_ db. db), de_now = (\<lambda>_. 10),
     de_owner = ''o'',
     de_transport = \<lparr>tr_assertTarget = (\<lambda>_. Inr ()), tr_processed = (\<lambda>_. Inr False), tr_prepare = (\<lambda>_. Inr run_tx),
       tr_broadcast = (\<lambda>_. Inr ()), tr_receipt = (\<lambda>_ _. Inr ReceiptPending), tr_materialized = (\<lambda>_ _. Inr False)\<rparr>,
     de_evidence = \<lparr>sk_put = (\<lambda>_. Inr ()), sk_assertMayBroadcast = (\<lambda>_ _. Inr ()), sk_sourceConfirmed = (\<lambda>_ _. Inr ()),
       sk_materialized = (\<lambda>_. Inr ())\<rparr>,
     de_budget = None, de_rawGasLimit = (\<lambda>_. None), de_retryFailed = False\<rparr>"

definition run_redis :: "issuance_entry redis" where
  "run_redis = snd (journal_create (de_codec run_env) (de_calls run_env 0) run_entry empty_redis)"

lemmas run_client_defs = journal_request_def request_id_def args_of_def snapshot_from_def with_snapshot_def open_entry_def
  journal_create_def journal_acquire_def journal_get_def journal_save_def journal_release_def signer_key_def

lemmas run_script_defs = journal_eval_def live_def empty_redis_def op_create_def op_acquire_def op_save_def op_release_def retain_def
  put_request_def snapshot_reply_def lease_until_def gate_busy_def take_gate_def lease_ms_def

lemmas run_stage_defs = advanceIssuance_def advance_body_def deliver_approved_def deliver_signed_def sign_if_needed_def reopen_failed_def
  store_evidence_def deliver_def obtain_receipt_def save_entry_def send_signed_def reserve_gas_def release_quietly_def journal_do_def ask_def edit_def

lemma run_env_sends: "sends (snd (snd (advanceIssuance run_env run_rid run_redis))) = [run_tx]"
  by (simp add: run_redis_def run_stage_defs run_script_defs run_client_defs run_env_def run_entry_def run_rid_ok Let_def
    needsSigner_def terminal_def issued_outcome_def map_error_def is_safe_def max_safe_def bindE_def confirmation_of_def)

theorem broadcast_after_save_witness:
  "sends_ok (de_codec run_env) None (snd (snd (advanceIssuance run_env run_rid run_redis)))
   \<and> length (sends (snd (snd (advanceIssuance run_env run_rid run_redis)))) = 1"
proof -
  obtain r db tr where a: "advanceIssuance run_env run_rid run_redis = (r, db, tr)" by (metis prod.collapse)
  have "codec_ok (de_codec run_env)" by (simp add: codec_ok_def run_env_def)
  from broadcast_after_save [OF this a] a run_env_sends show ?thesis by simp
qed

end
