(* ===== verification/Issuance_Budget.thy ===== *)
theory Issuance_Budget
  imports Issuance_Journal
begin

text \<open>
  The gas budget of an issuer, \<open>pipeline/issuance-budget.ts\<close>: one ledger per issuer and UTC
  day, and one reservation record per request, both written by a Lua script that Redis runs
  atomically. Keys that have expired are invisible. All numbers are integers below \<open>2 ^ 53\<close>,
  which the script's doubles represent exactly. The main lemmas show that a ledger is at every
  time the exact sum of what the day's reservations hold.
\<close>

subsection \<open>Ledgers and reservations\<close>

record ledger =
  lg_day :: int
  lg_gas :: int
  lg_tx :: int
  lg_expireAt :: int

record reservation =
  rv_issuer :: string
  rv_day :: int
  rv_reserved :: int
  rv_used :: "int option"
  rv_ledgerGas :: int
  rv_ledgerTx :: int
  rv_expireAt :: "int option"

record budget_db =
  bd_ledgers :: "string \<Rightarrow> ledger option"
  bd_requests :: "string \<Rightarrow> reservation option"

record budget_limits =
  bl_gas :: int
  bl_tx :: int

text \<open>
  \<open>tostring\<close> prints a number with \<open>%.14g\<close>, which switches to the exponent form at
  \<open>10 ^ 14\<close>; \<open>BigInt\<close> refuses that form. A value that \<open>HGET\<close> returns was stored in full.
\<close>

datatype gas_text = Decimal int | Exponent

definition lua_tostring :: "int \<Rightarrow> gas_text" where
  "lua_tostring n = (if n < 10 ^ 14 then Decimal n else Exponent)"

datatype budget_reply = Totals gas_text int | Done | Refused string

definition utc_day :: "int \<Rightarrow> int" where
  "utc_day now = now div 86400000"

text \<open>
  A key is gone from the millisecond of its deadline on; Redis itself may keep it for one
  millisecond more.
\<close>

definition live_ledger :: "int \<Rightarrow> budget_db \<Rightarrow> string \<Rightarrow> ledger option" where
  "live_ledger now db i = (case bd_ledgers db i of None \<Rightarrow> None
     | Some l \<Rightarrow> if now < lg_expireAt l then Some l else None)"

definition live_reservation :: "int \<Rightarrow> budget_db \<Rightarrow> string \<Rightarrow> reservation option" where
  "live_reservation now db q = (case bd_requests db q of None \<Rightarrow> None
     | Some r \<Rightarrow> (case rv_expireAt r of None \<Rightarrow> Some r | Some t \<Rightarrow> if now < t then Some r else None))"

text \<open>The totals count only if the ledger is today's.\<close>

definition totals :: "int \<Rightarrow> budget_db \<Rightarrow> string \<Rightarrow> int \<times> int" where
  "totals now db i = (case live_ledger now db i of None \<Rightarrow> (0, 0)
     | Some l \<Rightarrow> if lg_day l = utc_day now then (lg_gas l, lg_tx l) else (0, 0))"

subsection \<open>The script\<close>

definition budget_reserve :: "budget_limits \<Rightarrow> int \<Rightarrow> string \<Rightarrow> string \<Rightarrow> int \<Rightarrow> budget_db \<Rightarrow> budget_reply \<times> budget_db" where
  "budget_reserve B now i q amount db = (case live_reservation now db q of
     Some r \<Rightarrow> (if rv_issuer r \<noteq> i \<or> rv_reserved r \<noteq> amount then (Refused ''BUDGET_REQUEST_CONFLICT'', db)
       else (Totals (Decimal (rv_ledgerGas r)) (rv_ledgerTx r), db))
   | None \<Rightarrow> (case totals now db i of (gas, tx) \<Rightarrow>
       if amount \<le> 0 \<or> amount > bl_gas B then (Refused ''DAILY_GAS_BUDGET_EXCEEDED'', db)
       else if gas + amount > bl_gas B then (Refused ''DAILY_GAS_BUDGET_EXCEEDED'', db)
       else if tx + 1 > bl_tx B then (Refused ''DAILY_TRANSACTION_BUDGET_EXCEEDED'', db)
       else let day = utc_day now in
         (Totals (lua_tostring (gas + amount)) (tx + 1),
          \<lparr>bd_ledgers = (bd_ledgers db)(i \<mapsto> \<lparr>lg_day = day, lg_gas = gas + amount, lg_tx = tx + 1, lg_expireAt = (day + 3) * 86400000\<rparr>),
           bd_requests = (bd_requests db)(q \<mapsto> \<lparr>rv_issuer = i, rv_day = day, rv_reserved = amount, rv_used = None,
             rv_ledgerGas = gas + amount, rv_ledgerTx = tx + 1, rv_expireAt = None\<rparr>)\<rparr>)))"

definition lower_ledger :: "int \<Rightarrow> string \<Rightarrow> int \<Rightarrow> budget_db \<Rightarrow> budget_db" where
  "lower_ledger now i gas db = (case live_ledger now db i of None \<Rightarrow> db
     | Some l \<Rightarrow> db\<lparr>bd_ledgers := (bd_ledgers db)(i \<mapsto> l\<lparr>lg_gas := gas\<rparr>)\<rparr>)"

definition budget_reconcile :: "int \<Rightarrow> string \<Rightarrow> string \<Rightarrow> int \<Rightarrow> budget_db \<Rightarrow> budget_reply \<times> budget_db" where
  "budget_reconcile now i q amount db = (case live_reservation now db q of
     None \<Rightarrow> (Refused ''BUDGET_RESERVATION_MISSING'', db)
   | Some r \<Rightarrow>
     if rv_issuer r \<noteq> i then (Refused ''BUDGET_REQUEST_CONFLICT'', db)
     else if amount > rv_reserved r then (Refused ''BUDGET_ACTUAL_EXCEEDS_RESERVATION'', db)
     else (case rv_used r of
       Some u \<Rightarrow> ((if u \<noteq> amount then Refused ''BUDGET_REQUEST_CONFLICT'' else Done), db)
     | None \<Rightarrow>
       let day = utc_day now;
           today = (case live_ledger now db i of None \<Rightarrow> False | Some l \<Rightarrow> lg_day l = day) \<and> rv_day r = day;
           gas = fst (totals now db i) - rv_reserved r + amount
       in if today \<and> gas < 0 then (Refused ''BUDGET_STATE_INVALID'', db)
          else let db1 = (if today then lower_ledger now i gas db else db) in
            (Done, db1\<lparr>bd_requests := (bd_requests db1)(q \<mapsto> r\<lparr>rv_used := Some amount, rv_expireAt := Some (now + 172800000)\<rparr>)\<rparr>)))"

datatype budget_op = Reserve | Reconcile | Status

definition budget_eval :: "budget_limits \<Rightarrow> int \<Rightarrow> budget_op \<Rightarrow> string \<Rightarrow> string \<Rightarrow> int \<Rightarrow> budget_db \<Rightarrow> budget_reply \<times> budget_db" where
  "budget_eval B now opn i q amount db =
     (if opn = Status then (case totals now db i of (gas, tx) \<Rightarrow> (Totals (lua_tostring gas) tx, db))
      else if amount < 0 then (Refused ''INVALID_BUDGET_INPUT'', db)
      else if opn = Reserve then budget_reserve B now i q amount db
      else budget_reconcile now i q amount db)"

subsection \<open>The client\<close>

record budget_status =
  bs_reservedGas :: int
  bs_transactionCount :: int

record budget_client =
  bc_limits :: budget_limits
  bc_address :: "string \<Rightarrow> string option"
  bc_digest :: "string \<Rightarrow> string \<Rightarrow> string"

text \<open>\<open>bc_address\<close> is \<open>isAddress\<close> with \<open>getAddress\<close>, \<open>bc_digest\<close> the keyed digest of a kind and a value.\<close>

definition safeInteger :: "string \<Rightarrow> int \<Rightarrow> string + int" where
  "safeInteger name v = (if v < 0 \<or> v > max_safe then Inl (''INVALID_'' @ name) else Inr v)"

definition zero_address :: string where
  "zero_address = ''0x'' @ replicate 40 CHR ''0''"

definition budget_config :: "int \<Rightarrow> js_num \<Rightarrow> string + budget_limits" where
  "budget_config gas tx = (if \<not> js_safe tx \<or> js_val tx < 1 then Inl ''INVALID_BUDGET_CONFIG''
     else bindE (safeInteger ''BUDGET_CONFIG'' gas) (\<lambda>g. if g < 1 then Inl ''INVALID_BUDGET_CONFIG''
       else Inr \<lparr>bl_gas = g, bl_tx = js_val tx\<rparr>))"

definition budget_run :: "budget_client \<Rightarrow> network \<Rightarrow> int \<Rightarrow> budget_op \<Rightarrow> string \<Rightarrow> string \<Rightarrow> int \<Rightarrow> budget_db
    \<Rightarrow> (budget_db, string, budget_reply) st_res" where
  "budget_run K net now opn issuer requestId amount db = (case bc_address K issuer of
     None \<Rightarrow> (Inl ''INVALID_BUDGET_INPUT'', db)
   | Some a \<Rightarrow> if issuer = zero_address \<or> \<not> is_bytes32 requestId then (Inl ''INVALID_BUDGET_INPUT'', db)
     else (case safeInteger ''BUDGET_INPUT'' amount of Inl e \<Rightarrow> (Inl e, db)
       | Inr n \<Rightarrow> (case (net, budget_eval (bc_limits K) now opn (bc_digest K ''issuer'' (lower a))
             (bc_digest K ''request'' (lower requestId)) n db) of
           (Request_lost, _) \<Rightarrow> (Inl ''BUDGET_UNAVAILABLE'', db)
         | (Reply_lost, (_, db')) \<Rightarrow> (Inl ''BUDGET_UNAVAILABLE'', db')
         | (Delivered, (r, db')) \<Rightarrow> (Inr r, db'))))"

definition statusResult :: "budget_reply \<Rightarrow> string + budget_status" where
  "statusResult r = (case r of
     Refused c \<Rightarrow> Inl c
   | Totals (Decimal g) t \<Rightarrow> if g < 0 \<or> \<not> is_safe t \<or> t < 0 then Inl ''BUDGET_STATE_INVALID''
       else Inr \<lparr>bs_reservedGas = g, bs_transactionCount = t\<rparr>
   | _ \<Rightarrow> Inl ''BUDGET_STATE_INVALID'')"

definition client_reserve :: "budget_client \<Rightarrow> network \<Rightarrow> int \<Rightarrow> string \<Rightarrow> string \<Rightarrow> int \<Rightarrow> budget_db \<Rightarrow> (budget_db, string, budget_status) st_res" where
  "client_reserve K net now issuer requestId gas db =
     bindS (budget_run K net now Reserve issuer requestId gas db) (\<lambda>r db. (statusResult r, db))"

definition client_reconcile :: "budget_client \<Rightarrow> network \<Rightarrow> int \<Rightarrow> string \<Rightarrow> string \<Rightarrow> int \<Rightarrow> budget_db \<Rightarrow> (budget_db, string, unit) st_res" where
  "client_reconcile K net now issuer requestId gas db =
     bindS (budget_run K net now Reconcile issuer requestId gas db) (\<lambda>r db. ((case r of Refused c \<Rightarrow> Inl c | _ \<Rightarrow> Inr ()), db))"

definition client_status :: "budget_client \<Rightarrow> network \<Rightarrow> int \<Rightarrow> string \<Rightarrow> budget_db \<Rightarrow> (budget_db, string, budget_status) st_res" where
  "client_status K net now issuer db =
     bindS (budget_run K net now Status issuer (''0x'' @ replicate 64 CHR ''0'') 0 db) (\<lambda>r db. (statusResult r, db))"

subsection \<open>Runs of the script\<close>

definition empty_budget :: budget_db where
  "empty_budget = \<lparr>bd_ledgers = (\<lambda>_. None), bd_requests = (\<lambda>_. None)\<rparr>"

inductive budget_reach :: "budget_limits \<Rightarrow> int \<Rightarrow> budget_db \<Rightarrow> bool" for B where
  opened: "budget_reach B t empty_budget"
| called: "budget_reach B t db \<Longrightarrow> t \<le> now \<Longrightarrow> budget_reach B now (snd (budget_eval B now opn i q amount db))"

text \<open>What a reservation holds: the gas used once it is known, the whole limit before.\<close>

definition charge :: "reservation \<Rightarrow> int" where
  "charge r = (case rv_used r of None \<Rightarrow> rv_reserved r | Some u \<Rightarrow> u)"

definition charged :: "budget_db \<Rightarrow> string \<Rightarrow> int \<Rightarrow> string set" where
  "charged db i day = {q. \<exists>r. bd_requests db q = Some r \<and> rv_issuer r = i \<and> rv_day r = day}"

definition held :: "budget_db \<Rightarrow> string \<Rightarrow> int \<Rightarrow> int" where
  "held db i day = (\<Sum>q \<in> charged db i day. charge (the (bd_requests db q)))"

definition row_ok :: "int \<Rightarrow> reservation \<Rightarrow> bool" where
  "row_ok t r \<longleftrightarrow> rv_day r \<le> utc_day t \<and> 0 \<le> charge r \<and> charge r \<le> rv_reserved r
     \<and> (case rv_expireAt r of None \<Rightarrow> rv_used r = None | Some e \<Rightarrow> rv_day r + 2 \<le> utc_day e)"

definition ledger_ok :: "int \<Rightarrow> ledger \<Rightarrow> bool" where
  "ledger_ok t l \<longleftrightarrow> lg_day l \<le> utc_day t \<and> lg_expireAt l = (lg_day l + 3) * 86400000"

definition day_totals :: "budget_db \<Rightarrow> string \<Rightarrow> int \<Rightarrow> int \<times> int" where
  "day_totals db i day = (case bd_ledgers db i of None \<Rightarrow> (0, 0)
     | Some l \<Rightarrow> if lg_day l = day then (lg_gas l, lg_tx l) else (0, 0))"

definition exact_day :: "budget_limits \<Rightarrow> budget_db \<Rightarrow> int \<Rightarrow> string \<Rightarrow> bool" where
  "exact_day B db day i \<longleftrightarrow> day_totals db i day = (held db i day, int (card (charged db i day)))
     \<and> held db i day \<le> bl_gas B \<and> int (card (charged db i day)) \<le> bl_tx B"

definition budget_inv :: "budget_limits \<Rightarrow> int \<Rightarrow> budget_db \<Rightarrow> bool" where
  "budget_inv B t db \<longleftrightarrow> finite (dom (bd_requests db))
     \<and> (\<forall>q r. bd_requests db q = Some r \<longrightarrow> row_ok t r)
     \<and> (\<forall>i l. bd_ledgers db i = Some l \<longrightarrow> ledger_ok t l)
     \<and> (\<forall>i. exact_day B db (utc_day t) i)"

definition limits_ok :: "budget_limits \<Rightarrow> bool" where
  "limits_ok B \<longleftrightarrow> 1 \<le> bl_gas B \<and> bl_gas B \<le> max_safe \<and> 1 \<le> bl_tx B \<and> bl_tx B \<le> max_safe"

subsection \<open>The ledger is exact\<close>

lemma budget_config_ok: "budget_config gas tx = Inr B \<Longrightarrow> limits_ok B"
  by (cases tx) (auto simp: budget_config_def limits_ok_def safeInteger_def is_safe_def bindE_def split: if_splits)

lemma exact_untouched:
  assumes "limits_ok B" "charged db i day = {}" "\<And>l. bd_ledgers db i = Some l \<Longrightarrow> lg_day l \<noteq> day"
  shows "exact_day B db day i"
  using assms by (auto simp: exact_day_def day_totals_def held_def limits_ok_def split: option.splits)

lemma budget_inv_empty: "limits_ok B \<Longrightarrow> budget_inv B t empty_budget"
  by (auto simp: budget_inv_def empty_budget_def charged_def intro!: exact_untouched)

lemma utc_day_mono: "t \<le> now \<Longrightarrow> utc_day t \<le> utc_day now"
  by (simp add: utc_day_def zdiv_mono1)

lemma budget_inv_row: "budget_inv B t db \<Longrightarrow> bd_requests db q = Some r \<Longrightarrow> row_ok t r"
  by (auto simp: budget_inv_def)

lemma budget_inv_ledger: "budget_inv B t db \<Longrightarrow> bd_ledgers db i = Some l \<Longrightarrow> ledger_ok t l"
  by (auto simp: budget_inv_def)

lemma budget_inv_exact: "budget_inv B t db \<Longrightarrow> exact_day B db (utc_day t) i"
  by (auto simp: budget_inv_def)

lemma row_later: "row_ok t r \<Longrightarrow> t \<le> now \<Longrightarrow> row_ok now r"
  using utc_day_mono [of t now] by (auto simp: row_ok_def)

lemma ledger_later: "ledger_ok t l \<Longrightarrow> t \<le> now \<Longrightarrow> ledger_ok now l"
  using utc_day_mono [of t now] by (auto simp: ledger_ok_def)

lemma budget_inv_later:
  assumes "budget_inv B t db" "t \<le> now" "limits_ok B"
  shows "budget_inv B now db"
proof -
  have "exact_day B db (utc_day now) i" for i
  proof (cases "utc_day t = utc_day now")
    case True
    with budget_inv_exact [OF assms(1)] show ?thesis by simp
  next
    case False
    with utc_day_mono [OF assms(2)] have d: "utc_day t < utc_day now" by simp
    have "charged db i (utc_day now) = {}"
      using d by (auto simp: charged_def row_ok_def dest!: budget_inv_row [OF assms(1)])
    then show ?thesis
      using d by (intro exact_untouched [OF assms(3)]) (auto simp: ledger_ok_def dest!: budget_inv_ledger [OF assms(1)])
  qed
  with assms row_later ledger_later show ?thesis unfolding budget_inv_def by blast
qed

lemma today_live:
  assumes "budget_inv B now db" "bd_ledgers db i = Some l" "lg_day l = utc_day now"
  shows "live_ledger now db i = Some l"
proof -
  from budget_inv_ledger [OF assms(1, 2)] assms(3) have "lg_expireAt l = (utc_day now + 3) * 86400000"
    by (simp add: ledger_ok_def)
  moreover have "now < (utc_day now + 3) * 86400000" unfolding utc_day_def by presburger
  ultimately show ?thesis using assms(2) by (simp add: live_ledger_def)
qed

lemma totals_today: "budget_inv B now db \<Longrightarrow> totals now db i = day_totals db i (utc_day now)"
  using today_live [of B now db i] by (cases "bd_ledgers db i") (auto simp: totals_def day_totals_def live_ledger_def)

lemma totals_held: "budget_inv B now db \<Longrightarrow> totals now db i = (held db i (utc_day now), int (card (charged db i (utc_day now))))"
  using budget_inv_exact [of B now db i] by (simp add: totals_today exact_day_def)

lemma dead_not_charged:
  assumes "budget_inv B now db" "live_reservation now db q = None"
  shows "q \<notin> charged db i (utc_day now)"
proof
  assume "q \<in> charged db i (utc_day now)"
  then obtain r where r: "bd_requests db q = Some r" "rv_day r = utc_day now" by (auto simp: charged_def)
  with assms(2) obtain e where e: "rv_expireAt r = Some e" "e \<le> now"
    by (auto simp: live_reservation_def split: option.splits if_splits)
  from budget_inv_row [OF assms(1) r(1)] r(2) e utc_day_mono [OF e(2)] show False by (simp add: row_ok_def)
qed

lemma charged_finite: "budget_inv B t db \<Longrightarrow> finite (charged db i day)"
  by (rule finite_subset [of _ "dom (bd_requests db)"]) (auto simp: charged_def budget_inv_def)

lemma charged_put:
  assumes "bd_requests db' = (bd_requests db)(q \<mapsto> r)"
  shows "charged db' i day = (if rv_issuer r = i \<and> rv_day r = day then insert q (charged db i day) else charged db i day - {q})"
  using assms by (auto simp: charged_def)

lemma held_other:
  assumes "bd_requests db' = (bd_requests db)(q \<mapsto> r)" "q \<notin> S"
  shows "(\<Sum>k \<in> S. charge (the (bd_requests db' k))) = (\<Sum>k \<in> S. charge (the (bd_requests db k)))"
  using assms by (intro sum.cong) auto

lemma held_put:
  assumes "bd_requests db' = (bd_requests db)(q \<mapsto> r)" "finite (charged db i day)"
  shows "held db' i day = (if rv_issuer r = i \<and> rv_day r = day then charge r else 0)
      + (\<Sum>k \<in> charged db i day - {q}. charge (the (bd_requests db k)))"
proof -
  have "held db' i day = (if rv_issuer r = i \<and> rv_day r = day then charge r else 0)
      + (\<Sum>k \<in> charged db i day - {q}. charge (the (bd_requests db' k)))"
    using assms by (simp add: held_def charged_put [OF assms(1)] sum.insert_remove)
  with held_other [OF assms(1), of "charged db i day - {q}"] show ?thesis by simp
qed

lemma held_without: "q \<notin> charged db i day \<Longrightarrow> (\<Sum>k \<in> charged db i day - {q}. charge (the (bd_requests db k))) = held db i day"
  by (simp add: held_def)

lemma reserve_exact:
  assumes inv: "budget_inv B now db" and dead: "live_reservation now db q = None" and t: "totals now db i = (gas, tx)"
    and lim: "0 \<le> amount" "gas + amount \<le> bl_gas B" "tx + 1 \<le> bl_tx B"
    and db': "bd_requests db' = (bd_requests db)(q \<mapsto> r)" "bd_ledgers db' = (bd_ledgers db)(i \<mapsto> l)"
    and r: "rv_issuer r = i" "rv_day r = utc_day now" "charge r = amount"
    and l: "lg_day l = utc_day now" "lg_gas l = gas + amount" "lg_tx l = tx + 1"
  shows "exact_day B db' (utc_day now) j"
proof -
  note q = dead_not_charged [OF inv dead]
  note fin = charged_finite [OF inv]
  note h = held_put [OF db'(1) fin, of _ "utc_day now", unfolded held_without [OF q]] charged_put [OF db'(1), of _ "utc_day now"]
  show ?thesis
  proof (cases "j = i")
    case True
    have th: "gas = held db i (utc_day now)" "tx = int (card (charged db i (utc_day now)))"
      using t totals_held [OF inv, of i] by simp_all
    have "held db' i (utc_day now) = gas + amount" using h(1) [of i] r th by simp
    moreover have "int (card (charged db' i (utc_day now))) = tx + 1" using h(2) [of i] r th q fin by simp
    ultimately show ?thesis using True lim l db'(2) by (simp add: exact_day_def day_totals_def)
  next
    case False
    with h r q [of j] have "held db' j (utc_day now) = held db j (utc_day now)" "charged db' j (utc_day now) = charged db j (utc_day now)"
      by auto
    with budget_inv_exact [OF inv, of j] False db'(2) show ?thesis by (simp add: exact_day_def day_totals_def)
  qed
qed

lemma reserve_keeps:
  assumes inv: "budget_inv B now db"
  shows "budget_inv B now (snd (budget_reserve B now i q amount db))"
proof (cases "live_reservation now db q")
  case (Some r)
  with inv show ?thesis by (simp add: budget_reserve_def)
next
  case dead: None
  obtain gas tx where t: "totals now db i = (gas, tx)" by fastforce
  show ?thesis
  proof (cases "amount \<le> 0 \<or> amount > bl_gas B \<or> gas + amount > bl_gas B \<or> tx + 1 > bl_tx B")
    case True
    with inv dead t show ?thesis by (auto simp: budget_reserve_def)
  next
    case False
    let ?day = "utc_day now"
    let ?l = "\<lparr>lg_day = ?day, lg_gas = gas + amount, lg_tx = tx + 1, lg_expireAt = (?day + 3) * 86400000\<rparr>"
    let ?r = "\<lparr>rv_issuer = i, rv_day = ?day, rv_reserved = amount, rv_used = None, rv_ledgerGas = gas + amount, rv_ledgerTx = tx + 1,
      rv_expireAt = None\<rparr>"
    let ?db = "\<lparr>bd_ledgers = (bd_ledgers db)(i \<mapsto> ?l), bd_requests = (bd_requests db)(q \<mapsto> ?r)\<rparr>"
    have e: "snd (budget_reserve B now i q amount db) = ?db"
      using False dead t by (simp add: budget_reserve_def Let_def)
    have "exact_day B ?db ?day j" for j
      by (rule reserve_exact [OF inv dead t, of amount _ ?r ?l]) (use False in \<open>simp_all add: charge_def\<close>)
    moreover have "row_ok now ?r" "ledger_ok now ?l" using False by (simp_all add: row_ok_def charge_def ledger_ok_def)
    ultimately show ?thesis unfolding e using inv by (auto simp: budget_inv_def)
  qed
qed

lemma charged_ledger:
  assumes "budget_inv B now db" "q \<in> charged db i (utc_day now)"
  obtains l where "bd_ledgers db i = Some l" "lg_day l = utc_day now" "live_ledger now db i = Some l"
proof -
  have "card (charged db i (utc_day now)) \<noteq> 0" using assms charged_finite [OF assms(1)] by auto
  then have "day_totals db i (utc_day now) \<noteq> (0, 0)"
    using budget_inv_exact [OF assms(1), of i] by (simp add: exact_day_def)
  then obtain l where "bd_ledgers db i = Some l" "lg_day l = utc_day now"
    by (auto simp: day_totals_def split: option.splits if_splits)
  with today_live [OF assms(1)] that show thesis by blast
qed

lemma held_split:
  assumes "budget_inv B now db" "bd_requests db q = Some r" "q \<in> charged db i day"
  shows "held db i day = charge r + (\<Sum>k \<in> charged db i day - {q}. charge (the (bd_requests db k)))"
  using assms(2) sum.remove [OF charged_finite [OF assms(1)] assms(3), of "\<lambda>k. charge (the (bd_requests db k))"]
  by (simp add: held_def)

lemma rest_nonneg: "budget_inv B now db \<Longrightarrow> 0 \<le> (\<Sum>k \<in> charged db i day - S. charge (the (bd_requests db k)))"
  by (rule sum_nonneg) (auto simp: charged_def row_ok_def dest: budget_inv_row)

lemma reconcile_exact:
  assumes inv: "budget_inv B now db" and q: "bd_requests db q = Some r" "rv_issuer r' = rv_issuer r" "rv_day r' = rv_day r"
    and le: "charge r' \<le> charge r"
    and db': "bd_requests db' = (bd_requests db)(q \<mapsto> r')"
    and led: "day_totals db' (rv_issuer r) (utc_day now) =
       (fst (day_totals db (rv_issuer r) (utc_day now)) + (if rv_day r = utc_day now then charge r' - charge r else 0),
        snd (day_totals db (rv_issuer r) (utc_day now)))"
    and other: "\<And>j. j \<noteq> rv_issuer r \<Longrightarrow> bd_ledgers db' j = bd_ledgers db j"
  shows "exact_day B db' (utc_day now) j"
proof -
  have same_set: "charged db' i d = charged db i d" for i d
    using q by (auto simp: charged_def db')
  show ?thesis
  proof (cases "j = rv_issuer r \<and> rv_day r = utc_day now")
    case True
    then have m: "q \<in> charged db j (utc_day now)" using q by (simp add: charged_def)
    have "held db' j (utc_day now) = held db j (utc_day now) + charge r' - charge r"
      using held_put [OF db' charged_finite [OF inv], of j "utc_day now"] held_split [OF inv q(1) m] True q by simp
    with budget_inv_exact [OF inv, of j] True led le same_set show ?thesis by (simp add: exact_day_def)
  next
    case False
    then have m: "q \<notin> charged db j (utc_day now)" using q by (auto simp: charged_def)
    then have "held db' j (utc_day now) = held db j (utc_day now)"
      using held_put [OF db' charged_finite [OF inv], of j "utc_day now"] held_without [OF m] False q by auto
    moreover have "day_totals db' j (utc_day now) = day_totals db j (utc_day now)"
      using False led other [of j] by (cases "j = rv_issuer r") (simp_all add: day_totals_def)
    ultimately show ?thesis using budget_inv_exact [OF inv, of j] same_set by (simp add: exact_day_def)
  qed
qed

lemma live_reservation_Some: "live_reservation now db q = Some r \<Longrightarrow> bd_requests db q = Some r"
  by (auto simp: live_reservation_def split: option.splits if_splits)

lemma reconcile_keeps:
  assumes inv: "budget_inv B now db" and a: "0 \<le> amount"
  shows "budget_inv B now (snd (budget_reconcile now i q amount db))"
proof (cases "\<exists>r. live_reservation now db q = Some r \<and> rv_issuer r = i \<and> amount \<le> rv_reserved r \<and> rv_used r = None")
  case False
  with inv show ?thesis by (auto simp: budget_reconcile_def split: option.splits)
next
  case True
  then obtain r where r: "live_reservation now db q = Some r" "rv_issuer r = i" "amount \<le> rv_reserved r" "rv_used r = None" by blast
  note q = live_reservation_Some [OF r(1)]
  let ?day = "utc_day now"
  let ?r = "r\<lparr>rv_used := Some amount, rv_expireAt := Some (now + 172800000)\<rparr>"
  have c: "charge r = rv_reserved r" "charge ?r = amount" using r(4) by (simp_all add: charge_def)
  have row: "row_ok now ?r" using budget_inv_row [OF inv q] r(3) a c
    by (auto simp: row_ok_def utc_day_def)
  have ex: "budget_inv B now db'" if rq: "bd_requests db' = (bd_requests db)(q \<mapsto> ?r)"
    and led: "\<And>l. bd_ledgers db' i = Some l \<Longrightarrow> ledger_ok now l"
    and tot: "day_totals db' i ?day = (fst (day_totals db i ?day) + (if rv_day r = ?day then amount - rv_reserved r else 0), snd (day_totals db i ?day))"
    and other: "\<And>j. j \<noteq> i \<Longrightarrow> bd_ledgers db' j = bd_ledgers db j" for db'
  proof -
    have "exact_day B db' ?day j" for j
      by (rule reconcile_exact [OF inv q, of ?r]) (use rq tot other r c in simp_all)
    moreover have "ledger_ok now l" if "bd_ledgers db' j = Some l" for j l
      using that led other [of j] budget_inv_ledger [OF inv] by (cases "j = i") auto
    ultimately show ?thesis using inv rq row by (auto simp: budget_inv_def)
  qed
  show ?thesis
  proof (cases "rv_day r = ?day")
    case True
    then have m: "q \<in> charged db i ?day" using q r(2) by (simp add: charged_def)
    from charged_ledger [OF inv m] obtain l where l: "bd_ledgers db i = Some l" "lg_day l = ?day" "live_ledger now db i = Some l" .
    have t: "fst (totals now db i) = lg_gas l" "day_totals db i ?day = (lg_gas l, lg_tx l)" using l by (simp_all add: totals_def day_totals_def)
    have g: "0 \<le> lg_gas l - rv_reserved r + amount"
      using budget_inv_exact [OF inv, of i] t(2) held_split [OF inv q m] rest_nonneg [OF inv] c a by (simp add: exact_day_def)
    have "snd (budget_reconcile now i q amount db) = db\<lparr>bd_ledgers := (bd_ledgers db)(i \<mapsto> l\<lparr>lg_gas := lg_gas l - rv_reserved r + amount\<rparr>),
        bd_requests := (bd_requests db)(q \<mapsto> ?r)\<rparr>"
      using r l t g True by (simp add: budget_reconcile_def Let_def lower_ledger_def)
    then show ?thesis
      using l t True budget_inv_ledger [OF inv l(1)] by (auto simp: day_totals_def ledger_ok_def intro!: ex)
  next
    case False
    have "snd (budget_reconcile now i q amount db) = db\<lparr>bd_requests := (bd_requests db)(q \<mapsto> ?r)\<rparr>"
      using r False by (simp add: budget_reconcile_def Let_def)
    then show ?thesis
      using False budget_inv_ledger [OF inv] by (auto simp: day_totals_def intro!: ex)
  qed
qed

lemma budget_reach_inv: "budget_reach B t db \<Longrightarrow> limits_ok B \<Longrightarrow> budget_inv B t db"
proof (induction rule: budget_reach.induct)
  case (opened t)
  then show ?case by (rule budget_inv_empty)
next
  case (called t db now opn i q amount)
  with budget_inv_later have "budget_inv B now db" by blast
  with reserve_keeps [OF this] reconcile_keeps [OF this] show ?case
    by (auto simp: budget_eval_def split: prod.splits)
qed

text \<open>
  A total of \<open>10 ^ 14\<close> or more, which the configuration allows, is stored but cannot be read back:
  the script prints it in exponent form and the client takes the reply for a corrupt state.
\<close>

lemma large_total_unreadable:
  assumes "budget_inv B now db" "10 ^ 14 \<le> held db i (utc_day now)"
  shows "statusResult (fst (budget_eval B now Status i q amount db)) = Inl ''BUDGET_STATE_INVALID''"
  using assms totals_held [OF assms(1), of i] by (simp add: budget_eval_def lua_tostring_def statusResult_def)

text \<open>
  C18: the daily gas budget holds exactly. In every state that any calls of the script can reach
  under one configuration, the totals it reports for an issuer and the present UTC day are the
  sum and the number of what that day's reservations hold (the gas limit while the outcome is
  unknown, the gas used once it is), they are within the configured limits, and a further
  reservation of a new request is refused exactly when it would exceed a limit.
\<close>

theorem budget_exact:
  assumes "budget_config gas tx = Inr B" "budget_reach B now db"
  shows "totals now db i = (held db i (utc_day now), int (card (charged db i (utc_day now))))
    \<and> held db i (utc_day now) \<le> gas \<and> int (card (charged db i (utc_day now))) \<le> js_val tx
    \<and> (\<forall>q amount. live_reservation now db q = None \<longrightarrow> 0 < amount \<longrightarrow>
         (\<exists>g n. fst (budget_eval B now Reserve i q amount db) = Totals g n) \<longleftrightarrow>
           held db i (utc_day now) + amount \<le> gas \<and> int (card (charged db i (utc_day now))) < js_val tx)"
proof -
  have B: "bl_gas B = gas" "bl_tx B = js_val tx"
    using assms(1) by (auto simp: budget_config_def safeInteger_def bindE_def split: if_splits)
  note inv = budget_reach_inv [OF assms(2) budget_config_ok [OF assms(1)]]
  note t = totals_held [OF inv, of i]
  have h: "0 \<le> held db i (utc_day now)" using rest_nonneg [OF inv, of i "utc_day now" "{}"] by (simp add: held_def)
  have "(\<exists>g n. fst (budget_eval B now Reserve i q amount db) = Totals g n) \<longleftrightarrow>
       held db i (utc_day now) + amount \<le> gas \<and> int (card (charged db i (utc_day now))) < js_val tx"
    if "live_reservation now db q = None" "0 < amount" for q amount
    using that t B h by (auto simp: budget_eval_def budget_reserve_def Let_def)
  with budget_inv_exact [OF inv, of i] t B show ?thesis by (auto simp: exact_day_def)
qed

definition run_budget :: budget_db where
  "run_budget = snd (budget_eval \<lparr>bl_gas = 100, bl_tx = 2\<rparr> 5 Reconcile ''i'' ''q'' 40
     (snd (budget_eval \<lparr>bl_gas = 100, bl_tx = 2\<rparr> 3 Reserve ''i'' ''q'' 90 empty_budget)))"

theorem budget_exact_witness:
  "totals 5 run_budget ''i'' = (40, 1)
   \<and> (\<exists>g n. fst (budget_eval \<lparr>bl_gas = 100, bl_tx = 2\<rparr> 5 Reserve ''i'' ''p'' 60 run_budget) = Totals g n)
   \<and> \<not> (\<exists>g n. fst (budget_eval \<lparr>bl_gas = 100, bl_tx = 2\<rparr> 5 Reserve ''i'' ''p'' 61 run_budget) = Totals g n)"
proof -
  have c: "budget_config 100 (JInt 2) = Inr \<lparr>bl_gas = 100, bl_tx = 2\<rparr>"
    by (simp add: budget_config_def safeInteger_def is_safe_def max_safe_def bindE_def)
  have r: "budget_reach \<lparr>bl_gas = 100, bl_tx = 2\<rparr> 5 run_budget"
    unfolding run_budget_def
    by (rule budget_reach.called [OF budget_reach.called [OF budget_reach.opened [of _ 0]]]) simp_all
  have d: "totals 5 run_budget ''i'' = (40, 1)" "live_reservation 5 run_budget ''p'' = None"
    by (simp_all add: run_budget_def budget_eval_def budget_reserve_def budget_reconcile_def empty_budget_def totals_def live_ledger_def
        live_reservation_def utc_day_def Let_def lower_ledger_def)
  from budget_exact [OF c r, of "''i''"] d show ?thesis by simp
qed

end
