(* ===== verification/Vault_Atomic.thy ===== *)
theory Vault_Atomic
  imports Prelude
begin

text \<open>
  The atomic file writes of \<open>pipeline/vault-atomic.ts\<close>. The only file whose content matters is
  the destination; the temporary file is removed or left behind as an orphan. A write is a fixed
  sequence of calls of the file system, and the argument names the call that fails, if any does.
\<close>

datatype fs_call = OpenTmp | WriteTmp | SyncTmp | CloseTmp | Publish | DropTmp | OpenDir | SyncDir | CloseDir

datatype vault_write_error = VaultWriteError

text \<open>\<open>Publish\<close> is the rename of the first write and the link of the second.\<close>

definition before_publish :: "fs_call \<Rightarrow> bool" where
  "before_publish c \<longleftrightarrow> c = OpenTmp \<or> c = WriteTmp \<or> c = SyncTmp \<or> c = CloseTmp \<or> c = Publish"

definition writeVaultEnvelope :: "fs_call option \<Rightarrow> 'a \<Rightarrow> 'a option \<Rightarrow> ('a option, vault_write_error, unit) st_res" where
  "writeVaultEnvelope failing v file = (case failing of
     None \<Rightarrow> (Inr (), Some v)
   | Some DropTmp \<Rightarrow> (Inr (), Some v)
   | Some c \<Rightarrow> (Inl VaultWriteError, if before_publish c then file else Some v))"

text \<open>The link refuses a destination that exists; here a failed removal of the temporary name counts.\<close>

definition writeVaultEnvelopeExclusive :: "fs_call option \<Rightarrow> 'a \<Rightarrow> 'a option \<Rightarrow> ('a option, vault_write_error, unit) st_res" where
  "writeVaultEnvelopeExclusive failing v file =
     (if file \<noteq> None then (Inl VaultWriteError, file)
      else (case failing of
        None \<Rightarrow> (Inr (), Some v)
      | Some c \<Rightarrow> (Inl VaultWriteError, if before_publish c then file else Some v)))"

lemma write_acknowledged: "writeVaultEnvelope fc v file = (Inr u, file') \<Longrightarrow> file' = Some v"
  by (auto simp: writeVaultEnvelope_def split: option.splits fs_call.splits)

lemma write_either: "snd (writeVaultEnvelope fc v file) = file \<or> snd (writeVaultEnvelope fc v file) = Some v"
  by (auto simp: writeVaultEnvelope_def split: option.splits fs_call.splits)

lemma write_exclusive_keeps: "file \<noteq> None \<Longrightarrow> snd (writeVaultEnvelopeExclusive fc v file) = file"
  by (simp add: writeVaultEnvelopeExclusive_def)

end
