(* ===== verification/Publication.thy ===== *)
theory Publication
  imports Vault_Atomic Ethers
begin

text \<open>
  The journal of epoch publications, \<open>pipeline/epoch-publication-journal.ts\<close>, and the bounded
  recovery step over it, \<open>advancePublication\<close> of \<open>pipeline/epoch-publication-delivery.ts\<close>.
  One process at a time holds the lock file; the state in memory is written whole, under
  authenticated encryption that binds the scope. Decoding calldata and signed transactions,
  address checksums and the hash that names an intent are parameters.
\<close>

subsection \<open>Values\<close>

record publication_scope =
  ps_chainId :: int
  ps_source :: string
  ps_publisher :: string

record availability =
  av_version :: int
  av_seedHash :: string
  av_replicaCount :: int

record publication_intent =
  pi_calldata :: string
  pi_blockNumber :: int
  pi_blockHash :: string
  pi_availability :: "availability option"
  pi_createdAt :: int

record publication_confirmation =
  pc_transactionHash :: string
  pc_blockNumber :: int
  pc_blockHash :: string
  pc_status :: int
  pc_confirmations :: int
  pc_observedAt :: int

record publication_tx =
  pt_raw :: string
  pt_hash :: string
  pt_nonce :: int

text \<open>The reason of an abandonment is a constant of the type.\<close>

record publication_entry =
  pe_id :: string
  pe_intent :: publication_intent
  pe_transaction :: "publication_tx option"
  pe_confirmation :: "publication_confirmation option"
  pe_abandonment :: "int option"

record publication_state =
  pb_scope :: publication_scope
  pb_entries :: "publication_entry list"

record parsed_tx =
  px_isSigned :: bool
  px_hash :: "string option"
  px_from :: "string option"
  px_to :: "string option"
  px_chainId :: int
  px_value :: int
  px_data :: string
  px_nonce :: int
  px_serialized :: string

text \<open>\<open>pv_call\<close> is the name of the call when the calldata parses and encodes back to itself.\<close>

record publication_env =
  pv_address :: "string \<Rightarrow> string option"
  pv_call :: "string \<Rightarrow> string option"
  pv_parse :: "string \<Rightarrow> parsed_tx option"
  pv_id :: "publication_scope \<Rightarrow> publication_intent \<Rightarrow> string"

definition int_min :: "int \<Rightarrow> int \<Rightarrow> bool" where
  "int_min n m \<longleftrightarrow> is_safe n \<and> m \<le> n"

definition lower_hex :: "char \<Rightarrow> bool" where
  "lower_hex c = (let n = (of_char c :: nat) in (48 \<le> n \<and> n \<le> 57) \<or> (97 \<le> n \<and> n \<le> 102))"

definition lower_hash :: "string \<Rightarrow> bool" where
  "lower_hash s \<longleftrightarrow> length s = 66 \<and> take 2 s = ''0x'' \<and> list_all lower_hex (drop 2 s)"

definition zero_addr :: string where
  "zero_addr = ''0x'' @ replicate 40 CHR ''0''"

definition scope_address :: "publication_env \<Rightarrow> string \<Rightarrow> string + string" where
  "scope_address V a = (case pv_address V a of None \<Rightarrow> Inl ''PUBLICATION_SCOPE_INVALID''
     | Some c \<Rightarrow> if lower c = zero_addr then Inl ''PUBLICATION_SCOPE_INVALID'' else Inr (lower c))"

definition scopeValue :: "publication_env \<Rightarrow> publication_scope \<Rightarrow> string + publication_scope" where
  "scopeValue V s = bindE (requireE ''PUBLICATION_SCOPE_INVALID'' (int_min (ps_chainId s) 1)) (\<lambda>_.
     bindE (scope_address V (ps_source s)) (\<lambda>src. bindE (scope_address V (ps_publisher s)) (\<lambda>pub.
     Inr \<lparr>ps_chainId = ps_chainId s, ps_source = src, ps_publisher = pub\<rparr>)))"

definition calldata_ok :: "string \<Rightarrow> bool" where
  "calldata_ok d \<longleftrightarrow> take 2 d = ''0x'' \<and> 2 < length d \<and> even (length d) \<and> list_all lower_hex (drop 2 d) \<and> length d \<le> 524290"

definition availability_ok :: "availability \<Rightarrow> bool" where
  "availability_ok a \<longleftrightarrow> av_version a = 1 \<and> length (av_seedHash a) = 64 \<and> list_all lower_hex (av_seedHash a)
     \<and> int_min (av_replicaCount a) 2"

definition intent_ok :: "publication_env \<Rightarrow> publication_intent \<Rightarrow> bool" where
  "intent_ok V p \<longleftrightarrow> calldata_ok (pi_calldata p) \<and> int_min (pi_createdAt p) 0 \<and> int_min (pi_blockNumber p) 1
     \<and> lower_hash (pi_blockHash p) \<and> (case pi_availability p of None \<Rightarrow> True | Some a \<Rightarrow> availability_ok a)
     \<and> (pv_call V (pi_calldata p) = Some ''publishEpoch'' \<or> pv_call V (pi_calldata p) = Some ''publishEpochForIssuers'')"

definition intentValue :: "publication_env \<Rightarrow> publication_intent \<Rightarrow> string + publication_intent" where
  "intentValue V p = (if intent_ok V p then Inr p else Inl ''PUBLICATION_INTENT_INVALID'')"

definition boundTransaction :: "publication_env \<Rightarrow> publication_scope \<Rightarrow> string \<Rightarrow> publication_intent \<Rightarrow> string + publication_tx" where
  "boundTransaction V s raw p = (if 532480 < length raw then Inl ''PUBLICATION_TRANSACTION_MISMATCH''
     else (case pv_parse V raw of None \<Rightarrow> Inl ''PUBLICATION_TRANSACTION_MISMATCH''
     | Some x \<Rightarrow> (case (px_hash x, px_from x, px_to x) of
         (Some h, Some f, Some t) \<Rightarrow>
           if px_isSigned x \<and> px_chainId x = ps_chainId s \<and> lower f = ps_publisher s \<and> lower t = ps_source s
             \<and> px_value x = 0 \<and> px_data x = pi_calldata p \<and> int_min (px_nonce x) 0
           then Inr \<lparr>pt_raw = px_serialized x, pt_hash = h, pt_nonce = px_nonce x\<rparr>
           else Inl ''PUBLICATION_TRANSACTION_MISMATCH''
       | _ \<Rightarrow> Inl ''PUBLICATION_TRANSACTION_MISMATCH'')))"

subsection \<open>Validation\<close>

definition confirmation_ok :: "publication_entry \<Rightarrow> publication_confirmation \<Rightarrow> bool" where
  "confirmation_ok e c \<longleftrightarrow> (case pe_transaction e of None \<Rightarrow> False | Some t \<Rightarrow> pc_transactionHash c = pt_hash t)
     \<and> int_min (pc_blockNumber c) 1 \<and> lower_hash (pc_blockHash c) \<and> (pc_status c = 0 \<or> pc_status c = 1)
     \<and> int_min (pc_confirmations c) 1 \<and> int_min (pc_observedAt c) (pi_createdAt (pe_intent e))"

definition validate_entry :: "publication_env \<Rightarrow> publication_scope \<Rightarrow> string list \<Rightarrow> bool \<Rightarrow> publication_entry \<Rightarrow> string + unit" where
  "validate_entry V s ids is_last e =
     bindE (intentValue V (pe_intent e)) (\<lambda>p.
     bindE (requireE ''PUBLICATION_JOURNAL_UNAVAILABLE'' (pe_id e = pv_id V s p \<and> pe_id e \<notin> set ids)) (\<lambda>_.
     case pe_abandonment e of
       Some at \<Rightarrow> requireE ''PUBLICATION_ABANDONMENT_INVALID''
         (pe_transaction e = None \<and> pe_confirmation e = None \<and> int_min at (pi_createdAt p))
     | None \<Rightarrow>
       bindE (case pe_transaction e of None \<Rightarrow> Inr ()
         | Some t \<Rightarrow> bindE (boundTransaction V s (pt_raw t) p) (\<lambda>b. requireE ''PUBLICATION_TRANSACTION_MISMATCH'' (t = b))) (\<lambda>_.
       case pe_confirmation e of
         None \<Rightarrow> requireE ''PUBLICATION_JOURNAL_UNAVAILABLE'' is_last
       | Some c \<Rightarrow> requireE ''PUBLICATION_CONFIRMATION_INVALID'' (confirmation_ok e c))))"

fun validate_entries :: "publication_env \<Rightarrow> publication_scope \<Rightarrow> string list \<Rightarrow> publication_entry list \<Rightarrow> string + unit" where
  "validate_entries V s ids [] = Inr ()"
| "validate_entries V s ids (e # es) = bindE (validate_entry V s ids (es = []) e) (\<lambda>_. validate_entries V s (pe_id e # ids) es)"

definition validate_state :: "publication_env \<Rightarrow> publication_scope \<Rightarrow> publication_state \<Rightarrow> string + unit" where
  "validate_state V s st = (if pb_scope st \<noteq> s \<or> 1000 < length (pb_entries st) then Inl ''PUBLICATION_JOURNAL_UNAVAILABLE''
     else validate_entries V s [] (pb_entries st))"

subsection \<open>The journal object\<close>

text \<open>
  \<open>pj_file\<close> and \<open>pj_lock\<close> are the two files; the rest is the object in memory. The file
  holds a sealed state: opening it under another scope or key fails, as reading garbage does.
\<close>

record publication_journal =
  pj_file :: "publication_state option"
  pj_lock :: bool
  pj_state :: publication_state
  pj_scope :: publication_scope
  pj_closed :: bool
  pj_poisoned :: bool

type_synonym 'a publishing = "(publication_journal, string, 'a) st_res"

definition assertOpen :: "publication_journal \<Rightarrow> string + unit" where
  "assertOpen J = (if pj_closed J then Inl ''PUBLICATION_JOURNAL_CLOSED''
     else if pj_poisoned J then Inl ''PUBLICATION_WRITE_UNCONFIRMED'' else Inr ())"

text \<open>\<open>readable\<close>: the file decrypts under this key, \<open>fits\<close>: the sealed state is within 8 MB.\<close>

definition close_journal :: "bool \<Rightarrow> bool \<Rightarrow> publication_journal \<Rightarrow> unit publishing" where
  "close_journal close_ok unlink_ok J =
     (if pj_closed J then (Inr (), J)
      else if \<not> close_ok then (Inl ''PUBLICATION_WRITE_UNCONFIRMED'', J\<lparr>pj_closed := True, pj_poisoned := True\<rparr>)
      else if pj_poisoned J then (Inr (), J\<lparr>pj_closed := True\<rparr>)
      else if \<not> unlink_ok then (Inl ''PUBLICATION_WRITE_UNCONFIRMED'', J\<lparr>pj_closed := True, pj_poisoned := True\<rparr>)
      else (Inr (), J\<lparr>pj_closed := True, pj_lock := False\<rparr>))"

definition open_journal :: "publication_env \<Rightarrow> nat \<Rightarrow> publication_scope \<Rightarrow> bool \<Rightarrow> bool \<Rightarrow> publication_state option \<Rightarrow> bool
    \<Rightarrow> string + publication_journal" where
  "open_journal V secret_length s readable close_ok file lock =
     bindE (scopeValue V s) (\<lambda>sc.
     if secret_length < 32 then Inl ''PUBLICATION_JOURNAL_CONFIG''
     else if lock then Inl ''PUBLICATION_JOURNAL_BUSY''
     else let J = \<lparr>pj_file = file, pj_lock = True, pj_state = \<lparr>pb_scope = sc, pb_entries = []\<rparr>, pj_scope = sc, pj_closed = False,
         pj_poisoned = False\<rparr> in
       (case file of None \<Rightarrow> Inr J
        | Some st \<Rightarrow> if readable \<and> validate_state V sc st = Inr () then Inr (J\<lparr>pj_state := st\<rparr>)
            else if close_ok then Inl ''PUBLICATION_JOURNAL_UNAVAILABLE'' else Inl ''PUBLICATION_WRITE_UNCONFIRMED''))"

definition save_state :: "publication_env \<Rightarrow> fs_call option \<Rightarrow> bool \<Rightarrow> publication_state \<Rightarrow> publication_journal \<Rightarrow> unit publishing" where
  "save_state V failing fits next J = (case bindE (assertOpen J) (\<lambda>_. validate_state V (pj_scope J) next) of
     Inl e \<Rightarrow> (Inl e, J)
   | Inr _ \<Rightarrow> if \<not> fits then (Inl ''PUBLICATION_JOURNAL_CAPACITY'', J)
       else (case writeVaultEnvelope failing next (pj_file J) of
           (Inl _, file) \<Rightarrow> (Inl ''PUBLICATION_WRITE_UNCONFIRMED'', J\<lparr>pj_file := file, pj_poisoned := True\<rparr>)
         | (Inr _, file) \<Rightarrow> (Inr (), J\<lparr>pj_file := file, pj_state := next\<rparr>)))"

definition find_entry :: "string \<Rightarrow> publication_entry list \<Rightarrow> publication_entry option" where
  "find_entry k es = List.find (\<lambda>e. pe_id e = k) es"

fun update_first :: "string \<Rightarrow> publication_entry \<Rightarrow> publication_entry list \<Rightarrow> publication_entry list" where
  "update_first k e' [] = []"
| "update_first k e' (e # es) = (if pe_id e = k then e' # es else e # update_first k e' es)"

definition with_entries :: "publication_state \<Rightarrow> publication_entry list \<Rightarrow> publication_state" where
  "with_entries st es = st\<lparr>pb_entries := es\<rparr>"

definition pending_entry :: "publication_entry \<Rightarrow> bool" where
  "pending_entry e \<longleftrightarrow> pe_confirmation e = None \<and> pe_abandonment e = None"

definition journal_snapshot_entries :: "publication_journal \<Rightarrow> publication_entry list publishing" where
  "journal_snapshot_entries J = (bindE (assertOpen J) (\<lambda>_. Inr (pb_entries (pj_state J))), J)"

definition begin_publication :: "publication_env \<Rightarrow> fs_call option \<Rightarrow> bool \<Rightarrow> publication_intent \<Rightarrow> publication_journal
    \<Rightarrow> publication_entry publishing" where
  "begin_publication V failing fits p J = (case bindE (assertOpen J) (\<lambda>_. intentValue V p) of
     Inl e \<Rightarrow> (Inl e, J)
   | Inr p \<Rightarrow> let k = pv_id V (pj_scope J) p; es = pb_entries (pj_state J) in
       (case find_entry k es of Some e \<Rightarrow> (Inr e, J)
        | None \<Rightarrow> if \<exists>e \<in> set es. pending_entry e then (Inl ''PUBLICATION_PENDING'', J)
            else if 1000 \<le> length es then (Inl ''PUBLICATION_JOURNAL_CAPACITY'', J)
            else let e = \<lparr>pe_id = k, pe_intent = p, pe_transaction = None, pe_confirmation = None, pe_abandonment = None\<rparr> in
              bindS (save_state V failing fits (with_entries (pj_state J) (es @ [e])) J) (\<lambda>_ J. (Inr e, J))))"

text \<open>The part that prepare, confirm and abandon share: replace one entry and save.\<close>

definition replace_entry :: "publication_env \<Rightarrow> fs_call option \<Rightarrow> bool \<Rightarrow> string \<Rightarrow> publication_entry \<Rightarrow> publication_journal
    \<Rightarrow> publication_entry publishing" where
  "replace_entry V failing fits k e J = bindS (save_state V failing fits
     (with_entries (pj_state J) (update_first k e (pb_entries (pj_state J)))) J) (\<lambda>_ J. (Inr e, J))"

definition prepare_publication :: "publication_env \<Rightarrow> fs_call option \<Rightarrow> bool \<Rightarrow> string \<Rightarrow> string \<Rightarrow> publication_journal
    \<Rightarrow> publication_entry publishing" where
  "prepare_publication V failing fits k raw J = (case assertOpen J of Inl e \<Rightarrow> (Inl e, J)
   | Inr _ \<Rightarrow> (case find_entry k (pb_entries (pj_state J)) of None \<Rightarrow> (Inl ''PUBLICATION_NOT_FOUND'', J)
     | Some e \<Rightarrow> if pe_abandonment e \<noteq> None then (Inl ''PUBLICATION_ABANDONED'', J)
         else (case boundTransaction V (pj_scope J) raw (pe_intent e) of Inl c \<Rightarrow> (Inl c, J)
           | Inr t \<Rightarrow> (case pe_transaction e of
               Some t' \<Rightarrow> if pt_raw t' \<noteq> pt_raw t then (Inl ''PUBLICATION_REPLACEMENT_FORBIDDEN'', J) else (Inr e, J)
             | None \<Rightarrow> if \<exists>x \<in> set (pb_entries (pj_state J)). map_option pt_nonce (pe_transaction x) = Some (pt_nonce t)
                 then (Inl ''PUBLICATION_NONCE_REUSED'', J)
                 else replace_entry V failing fits k (e\<lparr>pe_transaction := Some t\<rparr>) J))))"

definition confirm_publication :: "publication_env \<Rightarrow> fs_call option \<Rightarrow> bool \<Rightarrow> string \<Rightarrow> publication_confirmation
    \<Rightarrow> publication_journal \<Rightarrow> publication_entry publishing" where
  "confirm_publication V failing fits k c J = (case assertOpen J of Inl e \<Rightarrow> (Inl e, J)
   | Inr _ \<Rightarrow> (case find_entry k (pb_entries (pj_state J)) of None \<Rightarrow> (Inl ''PUBLICATION_NOT_FOUND'', J)
     | Some e \<Rightarrow> (case pe_confirmation e of
           Some c' \<Rightarrow> if c' \<noteq> c then (Inl ''PUBLICATION_CONFIRMATION_CONFLICT'', J) else (Inr e, J)
         | None \<Rightarrow> replace_entry V failing fits k (e\<lparr>pe_confirmation := Some c\<rparr>) J)))"

definition abandonUnsigned :: "publication_env \<Rightarrow> fs_call option \<Rightarrow> bool \<Rightarrow> string \<Rightarrow> int \<Rightarrow> publication_journal
    \<Rightarrow> publication_entry publishing" where
  "abandonUnsigned V failing fits k at J = (case assertOpen J of Inl e \<Rightarrow> (Inl e, J)
   | Inr _ \<Rightarrow> (case find_entry k (pb_entries (pj_state J)) of None \<Rightarrow> (Inl ''PUBLICATION_NOT_FOUND'', J)
     | Some e \<Rightarrow> if pe_transaction e \<noteq> None \<or> pe_confirmation e \<noteq> None then (Inl ''PUBLICATION_SIGNED_CANNOT_ABANDON'', J)
         else if pe_abandonment e \<noteq> None then (Inr e, J)
         else replace_entry V failing fits k (e\<lparr>pe_abandonment := Some at\<rparr>) J))"

subsection \<open>The recovery step\<close>

datatype publication_observation = Absent | Confirming | Confirmed publication_confirmation

text \<open>Each call of the transport has its number within the step; a call that throws ends the step.\<close>

record publication_transport =
  pp_observe :: "nat \<Rightarrow> publication_entry \<Rightarrow> string + publication_observation"
  pp_assertReady :: "nat \<Rightarrow> publication_entry \<Rightarrow> string + unit"
  pp_prepare :: "publication_entry \<Rightarrow> string + string"
  pp_broadcast :: "publication_entry \<Rightarrow> string + unit"

definition reobservePublication :: "publication_transport \<Rightarrow> publication_entry \<Rightarrow> publication_confirmation \<Rightarrow> string + publication_confirmation" where
  "reobservePublication T e c =
     (if pe_abandonment e \<noteq> None \<or> map_option pt_hash (pe_transaction e) \<noteq> Some (pc_transactionHash c) \<or> pc_status c \<noteq> 1
      then Inl ''PUBLICATION_CONFIRMATION_CHANGED''
      else bindE (pp_observe T 0 e) (\<lambda>ob. case ob of
          Confirmed d \<Rightarrow> if pc_status d = 1 \<and> pc_transactionHash d = pc_transactionHash c \<and> pc_blockNumber d = pc_blockNumber c
              \<and> pc_blockHash d = pc_blockHash c then Inr d else Inl ''PUBLICATION_CONFIRMATION_CHANGED''
        | _ \<Rightarrow> Inl ''PUBLICATION_CONFIRMATION_CHANGED''))"

definition finish_observation :: "publication_env \<Rightarrow> fs_call option \<Rightarrow> bool \<Rightarrow> string \<Rightarrow> publication_entry \<Rightarrow> publication_observation
    \<Rightarrow> publication_journal \<Rightarrow> publication_observation publishing" where
  "finish_observation V failing fits k e ob J = (case (pe_confirmation e, ob) of
     (Some c, Confirmed d) \<Rightarrow>
       if pc_transactionHash d = pc_transactionHash c \<and> pc_blockHash d = pc_blockHash c \<and> pc_blockNumber d = pc_blockNumber c
         \<and> pc_status d = pc_status c then (Inr ob, J) else (Inl ''PUBLICATION_CONFIRMATION_CHANGED'', J)
   | (Some c, _) \<Rightarrow> (Inl ''PUBLICATION_CONFIRMATION_CHANGED'', J)
   | (None, Confirmed d) \<Rightarrow> bindS (confirm_publication V failing fits k d J) (\<lambda>_ J. (Inr ob, J))
   | (None, _) \<Rightarrow> (Inr ob, J))"

definition lift_call :: "string + 'a \<Rightarrow> publication_journal \<Rightarrow> 'a publishing" where
  "lift_call r J = (r, J)"

text \<open>The result comes with the entry that was handed to the network, if one was.\<close>

definition send_publication :: "publication_env \<Rightarrow> fs_call option \<Rightarrow> bool \<Rightarrow> publication_transport \<Rightarrow> string \<Rightarrow> publication_entry
    \<Rightarrow> publication_journal \<Rightarrow> (publication_observation \<times> publication_entry option) publishing" where
  "send_publication V failing fits T k e J =
     bindS (lift_call (pp_assertReady T 1 e) J) (\<lambda>_ J.
     bindS (lift_call (pp_observe T 1 e) J) (\<lambda>ob J.
     if ob \<noteq> Absent then bindS (finish_observation V failing fits k e ob J) (\<lambda>ob J. (Inr (ob, None), J))
     else bindS (journal_snapshot_entries J) (\<lambda>_ J.
       bindS (lift_call (pp_observe T 2 e) J) (\<lambda>ob J.
       bindS (finish_observation V failing fits k e ob J) (\<lambda>ob J. (Inr (ob, Some e), J))))))"

definition advancePublication :: "publication_env \<Rightarrow> fs_call option \<Rightarrow> fs_call option \<Rightarrow> bool \<Rightarrow> publication_transport \<Rightarrow> string
    \<Rightarrow> publication_journal \<Rightarrow> (publication_observation \<times> publication_entry option) publishing" where
  "advancePublication V f1 f2 fits T k J =
     bindS (journal_snapshot_entries J) (\<lambda>es J. case find_entry k es of
       None \<Rightarrow> (Inl ''PUBLICATION_NOT_FOUND'', J)
     | Some e \<Rightarrow> if pe_abandonment e \<noteq> None then (Inl ''PUBLICATION_ABANDONED'', J)
       else bindS (lift_call (pp_observe T 0 e) J) (\<lambda>ob J.
         if pe_confirmation e \<noteq> None \<or> ob \<noteq> Absent
         then bindS (finish_observation V f2 fits k e ob J) (\<lambda>ob J. (Inr (ob, None), J))
         else bindS (lift_call (pp_assertReady T 0 e) J) (\<lambda>_ J.
           bindS (journal_snapshot_entries J) (\<lambda>_ J.
           bindS (if pe_transaction e \<noteq> None then (Inr e, J)
             else bindS (lift_call (pp_prepare T e) J) (\<lambda>raw J. prepare_publication V f1 fits k raw J)) (\<lambda>e J.
           send_publication V f2 fits T k e J)))))"

subsection \<open>Steps\<close>

text \<open>
  A process may stop at any point: what is left is the file, and the next process opens it once
  the operator has removed the lock.
\<close>

inductive pub_step :: "publication_env \<Rightarrow> publication_journal \<Rightarrow> publication_journal \<Rightarrow> bool" for V where
  begun: "pub_step V J (snd (begin_publication V failing fits p J))"
| prepared: "pub_step V J (snd (prepare_publication V failing fits k raw J))"
| confirmed: "pub_step V J (snd (confirm_publication V failing fits k c J))"
| abandoned: "pub_step V J (snd (abandonUnsigned V failing fits k at J))"
| closed: "pub_step V J (snd (close_journal cl ul J))"
| reopened: "open_journal V n s readable cl (pj_file J) False = Inr J' \<Longrightarrow> pub_step V J J'"

definition pub_start :: "publication_env \<Rightarrow> publication_journal \<Rightarrow> bool" where
  "pub_start V J \<longleftrightarrow> (\<exists>n s r cl. open_journal V n s r cl None False = Inr J)"

definition keeps_entry :: "publication_entry \<Rightarrow> publication_entry \<Rightarrow> bool" where
  "keeps_entry e e' \<longleftrightarrow> pe_id e' = pe_id e \<and> pe_intent e' = pe_intent e
     \<and> (pe_transaction e \<noteq> None \<longrightarrow> pe_transaction e' = pe_transaction e)
     \<and> (pe_confirmation e \<noteq> None \<longrightarrow> pe_confirmation e' = pe_confirmation e)
     \<and> (pe_abandonment e \<noteq> None \<longrightarrow> pe_abandonment e' = pe_abandonment e)"

definition extends :: "publication_entry list \<Rightarrow> publication_entry list \<Rightarrow> bool" where
  "extends es es' \<longleftrightarrow> (\<forall>e \<in> set es. \<exists>e' \<in> set es'. keeps_entry e e')"

definition nonces_ok :: "publication_entry list \<Rightarrow> bool" where
  "nonces_ok es \<longleftrightarrow> (\<forall>x \<in> set es. \<forall>y \<in> set es. \<forall>t u. pe_transaction x = Some t \<longrightarrow> pe_transaction y = Some u
     \<longrightarrow> pt_nonce t = pt_nonce u \<longrightarrow> x = y)"

definition good_state :: "publication_env \<Rightarrow> publication_scope \<Rightarrow> publication_state \<Rightarrow> bool" where
  "good_state V s st \<longleftrightarrow> validate_state V s st = Inr () \<and> nonces_ok (pb_entries st)"

definition pub_inv :: "publication_env \<Rightarrow> publication_journal \<Rightarrow> bool" where
  "pub_inv V J \<longleftrightarrow> good_state V (pj_scope J) (pj_state J)
     \<and> (case pj_file J of None \<Rightarrow> pb_entries (pj_state J) = []
        | Some f \<Rightarrow> good_state V (pj_scope J) f \<and> extends (pb_entries (pj_state J)) (pb_entries f))"

lemma keeps_refl [simp]: "keeps_entry e e"
  by (simp add: keeps_entry_def)

lemma keeps_trans: "keeps_entry e e' \<Longrightarrow> keeps_entry e' e'' \<Longrightarrow> keeps_entry e e''"
  by (auto simp: keeps_entry_def)

lemma extends_refl [simp]: "extends es es"
  unfolding extends_def using keeps_refl by blast

lemma extends_subset: "set es \<subseteq> set es' \<Longrightarrow> extends es es'"
  unfolding extends_def using keeps_refl by blast

lemma extends_Nil [simp]: "extends [] es"
  by (simp add: extends_def)

lemma extends_trans: "extends a b \<Longrightarrow> extends b c \<Longrightarrow> extends a c"
  unfolding extends_def by (meson keeps_trans)

lemma valid_entries:
  "validate_entries V s ids es = Inr () \<Longrightarrow> distinct (map pe_id es) \<and> (\<forall>e \<in> set es. pe_id e \<notin> set ids)
     \<and> (\<forall>e \<in> set es. pending_entry e \<longrightarrow> e = last es)"
proof (induction es arbitrary: ids)
  case Nil
  then show ?case by simp
next
  case (Cons e es)
  from Cons.prems have v: "validate_entry V s ids (es = []) e = Inr ()" and rest: "validate_entries V s (pe_id e # ids) es = Inr ()"
    by (auto simp: bindE_Inr_iff)
  from v have "pe_id e \<notin> set ids" "pending_entry e \<longrightarrow> es = []"
    by (auto simp: validate_entry_def bindE_Inr_iff pending_entry_def requireE_def split: option.splits if_splits)
  with Cons.IH [OF rest] show ?case by (auto simp: last_ConsR)
qed

lemma good_distinct: "good_state V s st \<Longrightarrow> distinct (map pe_id (pb_entries st))"
  using valid_entries by (auto simp: good_state_def validate_state_def split: if_splits)

lemma good_pending: "good_state V s st \<Longrightarrow> e \<in> set (pb_entries st) \<Longrightarrow> pending_entry e \<Longrightarrow> e = last (pb_entries st)"
  using valid_entries by (auto simp: good_state_def validate_state_def split: if_splits)

definition advances :: "publication_env \<Rightarrow> publication_journal \<Rightarrow> publication_journal \<Rightarrow> bool" where
  "advances V J J' \<longleftrightarrow> pub_inv V J' \<and> extends (pb_entries (pj_state J)) (pb_entries (pj_state J'))"

lemma advances_same: "pub_inv V J \<Longrightarrow> advances V J J"
  by (simp add: advances_def)

lemma save_advances:
  assumes inv: "pub_inv V J" and ext: "extends (pb_entries (pj_state J)) es" and n: "nonces_ok es"
  shows "advances V J (snd (save_state V failing fits (with_entries (pj_state J) es) J))"
proof (cases "bindE (assertOpen J) (\<lambda>_. validate_state V (pj_scope J) (with_entries (pj_state J) es)) = Inr () \<and> fits")
  case False
  then have "snd (save_state V failing fits (with_entries (pj_state J) es) J) = J"
    by (auto simp: save_state_def split: sum.splits)
  with inv show ?thesis by (simp add: advances_same)
next
  case True
  then have v: "bindE (assertOpen J) (\<lambda>_. validate_state V (pj_scope J) (with_entries (pj_state J) es)) = Inr ()" "fits" by simp_all
  let ?st = "with_entries (pj_state J) es"
  have es: "pb_entries ?st = es" by (simp add: with_entries_def)
  have g: "good_state V (pj_scope J) ?st" using v(1) n by (auto simp: good_state_def es bindE_Inr_iff)
  obtain r f where w: "writeVaultEnvelope failing ?st (pj_file J) = (r, f)" by fastforce
  have either: "f = pj_file J \<or> f = Some ?st" using write_either [of failing ?st "pj_file J"] w by simp
  show ?thesis
  proof (cases r)
    case (Inl x)
    with v w have "snd (save_state V failing fits ?st J) = J\<lparr>pj_file := f, pj_poisoned := True\<rparr>" by (simp add: save_state_def)
    then show ?thesis using either inv g ext es by (auto simp: advances_def pub_inv_def split: option.splits)
  next
    case (Inr x)
    with w have "f = Some ?st" using write_acknowledged by fastforce
    with v w Inr have "snd (save_state V failing fits ?st J) = J\<lparr>pj_file := Some ?st, pj_state := ?st\<rparr>" by (simp add: save_state_def)
    then show ?thesis using g ext es by (simp add: advances_def pub_inv_def)
  qed
qed

lemma update_first_set:
  "distinct (map pe_id es) \<Longrightarrow> find_entry k es = Some e \<Longrightarrow> set (update_first k e' es) = insert e' (set es - {e}) \<and> e \<in> set es \<and> pe_id e = k"
proof (induction es)
  case Nil
  then show ?case by (simp add: find_entry_def)
next
  case (Cons x es)
  show ?case
  proof (cases "pe_id x = k")
    case True
    with Cons.prems have "e = x" by (simp add: find_entry_def)
    moreover have "x \<notin> set es" using Cons.prems(1) by auto
    ultimately show ?thesis using True by auto
  next
    case False
    with Cons.prems have f: "find_entry k es = Some e" "distinct (map pe_id es)" by (simp_all add: find_entry_def)
    from Cons.IH [OF f(2, 1)] False show ?thesis by auto
  qed
qed

lemma bindS_tail: "snd (bindS m (\<lambda>_ s. (Inr e, s))) = snd m"
  by (cases m) (auto simp: bindS_def split: sum.splits)

lemma replace_advances:
  assumes inv: "pub_inv V J" and f: "find_entry k (pb_entries (pj_state J)) = Some e" and k: "keeps_entry e e'"
    and n: "\<And>t u x. pe_transaction e' = Some t \<Longrightarrow> x \<in> set (pb_entries (pj_state J)) \<Longrightarrow> pe_transaction x = Some u
      \<Longrightarrow> pt_nonce u = pt_nonce t \<Longrightarrow> x = e"
  shows "advances V J (snd (replace_entry V failing fits k e' J))"
proof -
  let ?es = "pb_entries (pj_state J)"
  have g: "good_state V (pj_scope J) (pj_state J)" using inv by (simp add: pub_inv_def)
  note s = update_first_set [OF good_distinct [OF g] f, of e']
  have "extends ?es (update_first k e' ?es)" unfolding extends_def
  proof
    fix x assume "x \<in> set ?es"
    then show "\<exists>y \<in> set (update_first k e' ?es). keeps_entry x y"
      using s k by (cases "x = e") (auto intro: bexI [of _ x])
  qed
  moreover have "nonces_ok (update_first k e' ?es)"
    unfolding nonces_ok_def
  proof (intro ballI allI impI)
    fix x y t u
    assume x: "x \<in> set (update_first k e' ?es)" "pe_transaction x = Some t"
      and y: "y \<in> set (update_first k e' ?es)" "pe_transaction y = Some u" and tu: "pt_nonce t = pt_nonce u"
    have other: "False" if "z \<in> set ?es - {e}" "pe_transaction z = Some v" "pe_transaction e' = Some w" "pt_nonce v = pt_nonce w" for z v w
      using n [OF that(3), of z v] that by simp
    show "x = y"
    proof (cases "x = e' \<or> y = e'")
      case True
      then show ?thesis using x y tu s other [of y u t] other [of x t u] by auto
    next
      case False
      then have "x \<in> set ?es" "y \<in> set ?es" using x y s by auto
      then show ?thesis using g x(2) y(2) tu unfolding good_state_def nonces_ok_def by blast
    qed
  qed
  ultimately have "advances V J (snd (save_state V failing fits (with_entries (pj_state J) (update_first k e' ?es)) J))"
    by (rule save_advances [OF inv])
  then show ?thesis by (simp add: replace_entry_def bindS_tail)
qed

lemma reopen_advances:
  assumes inv: "pub_inv V J" and o: "open_journal V n s readable cl (pj_file J) False = Inr J'"
  shows "advances V J J'"
proof -
  from o obtain sc where sc: "scopeValue V s = Inr sc" by (auto simp: open_journal_def bindE_Inr_iff)
  show ?thesis
  proof (cases "pj_file J")
    case None
    with o sc inv show ?thesis
      by (auto simp: open_journal_def bindE_def Let_def advances_def pub_inv_def good_state_def validate_state_def nonces_ok_def split: if_splits)
  next
    case (Some f)
    with o sc have J': "pj_state J' = f" "pj_scope J' = sc" "pj_file J' = Some f" "validate_state V sc f = Inr ()"
      by (auto simp: open_journal_def bindE_def Let_def split: if_splits)
    with inv Some show ?thesis by (simp add: advances_def pub_inv_def good_state_def)
  qed
qed

lemma begin_advances:
  assumes inv: "pub_inv V J"
  shows "advances V J (snd (begin_publication V failing fits p J))"
proof -
  have "advances V J (snd (save_state V failing fits (with_entries (pj_state J) (pb_entries (pj_state J) @ [e])) J))"
    if "pe_transaction e = None" for e
    using that inv by (intro save_advances extends_subset) (auto simp: pub_inv_def good_state_def nonces_ok_def)
  then show ?thesis
    using advances_same [OF inv]
    by (auto simp: begin_publication_def Let_def bindS_tail split: sum.splits option.splits)
qed

lemma prepare_advances:
  assumes inv: "pub_inv V J"
  shows "advances V J (snd (prepare_publication V failing fits k raw J))"
proof -
  have "advances V J (snd (replace_entry V failing fits k (e\<lparr>pe_transaction := Some t\<rparr>) J))"
    if "find_entry k (pb_entries (pj_state J)) = Some e" "pe_transaction e = None"
      "\<not> (\<exists>x \<in> set (pb_entries (pj_state J)). map_option pt_nonce (pe_transaction x) = Some (pt_nonce t))" for e t
    by (rule replace_advances [OF inv that(1)]) (use that in \<open>auto simp: keeps_entry_def\<close>)
  then show ?thesis
    using advances_same [OF inv] by (auto simp: prepare_publication_def split: sum.splits option.splits)
qed

lemma inv_nonces: "pub_inv V J \<Longrightarrow> nonces_ok (pb_entries (pj_state J))"
  by (simp add: pub_inv_def good_state_def)

lemma found_in: "find_entry k es = Some e \<Longrightarrow> e \<in> set es"
  by (auto simp: find_entry_def find_Some_iff)

lemma confirm_advances:
  assumes inv: "pub_inv V J"
  shows "advances V J (snd (confirm_publication V failing fits k c J))"
proof -
  have "advances V J (snd (replace_entry V failing fits k (e\<lparr>pe_confirmation := Some c\<rparr>) J))"
    if "find_entry k (pb_entries (pj_state J)) = Some e" "pe_confirmation e = None" for e
    by (rule replace_advances [OF inv that(1)])
       (use that inv_nonces [OF inv] found_in [OF that(1)] in \<open>auto simp: keeps_entry_def nonces_ok_def\<close>)
  then show ?thesis
    using advances_same [OF inv] by (auto simp: confirm_publication_def split: sum.splits option.splits)
qed

lemma abandon_advances:
  assumes inv: "pub_inv V J"
  shows "advances V J (snd (abandonUnsigned V failing fits k at J))"
proof -
  have "advances V J (snd (replace_entry V failing fits k (e\<lparr>pe_abandonment := Some at\<rparr>) J))"
    if "find_entry k (pb_entries (pj_state J)) = Some e" "pe_transaction e = None" "pe_abandonment e = None" for e
    by (rule replace_advances [OF inv that(1)]) (use that in \<open>auto simp: keeps_entry_def\<close>)
  then show ?thesis
    using advances_same [OF inv] by (auto simp: abandonUnsigned_def split: sum.splits option.splits)
qed

lemma close_advances: "pub_inv V J \<Longrightarrow> advances V J (snd (close_journal cl ul J))"
  by (auto simp: close_journal_def advances_def pub_inv_def split: option.splits)

lemma pub_step_advances: "pub_step V J J' \<Longrightarrow> pub_inv V J \<Longrightarrow> advances V J J'"
  by (erule pub_step.cases)
     (simp_all add: begin_advances prepare_advances confirm_advances abandon_advances close_advances reopen_advances)

lemma pub_steps_advance: "(pub_step V)\<^sup>*\<^sup>* J J' \<Longrightarrow> pub_inv V J \<Longrightarrow> advances V J J'"
proof (induction rule: rtranclp_induct)
  case base
  then show ?case by (rule advances_same)
next
  case (step K K')
  then have "advances V J K" "advances V K K'" using pub_step_advances by (auto simp: advances_def)
  then show ?case unfolding advances_def by (meson extends_trans)
qed

lemma pub_start_inv: "pub_start V J \<Longrightarrow> pub_inv V J"
  by (auto simp: pub_start_def open_journal_def bindE_Inr_iff Let_def pub_inv_def good_state_def validate_state_def nonces_ok_def
      split: if_splits)

text \<open>
  C17: a publication is never replaced and a nonce never reused. From an empty journal, over any
  sequence of calls with any failing writes, closings, crashes and reopenings: no two entries
  hold signed transactions with the same nonce, at most the last entry is open, and whatever
  the journal showed at an earlier time is still in it later, every signed transaction,
  confirmation and abandonment unchanged.
\<close>

theorem publication_never_replaced:
  assumes "pub_start V J0" "(pub_step V)\<^sup>*\<^sup>* J0 J" "(pub_step V)\<^sup>*\<^sup>* J J'"
  shows "nonces_ok (pb_entries (pj_state J')) \<and> (\<forall>e \<in> set (pb_entries (pj_state J')). pending_entry e \<longrightarrow> e = last (pb_entries (pj_state J')))
    \<and> extends (pb_entries (pj_state J)) (pb_entries (pj_state J'))"
proof -
  have J: "pub_inv V J" using pub_steps_advance [OF assms(2) pub_start_inv [OF assms(1)]] by (simp add: advances_def)
  from pub_steps_advance [OF assms(3) J] have a: "pub_inv V J'" "extends (pb_entries (pj_state J)) (pb_entries (pj_state J'))"
    by (simp_all add: advances_def)
  then have "good_state V (pj_scope J') (pj_state J')" by (simp add: pub_inv_def)
  with a(2) good_pending show ?thesis by (auto simp: good_state_def)
qed

definition run_pub_env :: publication_env where
  "run_pub_env = \<lparr>pv_address = Some, pv_call = (\<lambda>_. Some ''publishEpoch''),
     pv_parse = (\<lambda>raw. Some \<lparr>px_isSigned = True, px_hash = Some raw, px_from = Some ''p'', px_to = Some ''s'', px_chainId = 1, px_value = 0,
       px_data = ''0x00'', px_nonce = int (length raw), px_serialized = raw\<rparr>),
     pv_id = (\<lambda>_. pi_calldata)\<rparr>"

definition run_intent :: publication_intent where
  "run_intent = \<lparr>pi_calldata = ''0x00'', pi_blockNumber = 5, pi_blockHash = ''0x'' @ replicate 64 CHR ''a'', pi_availability = None, pi_createdAt = 7\<rparr>"

definition run_pub_open :: publication_journal where
  "run_pub_open = \<lparr>pj_file = None, pj_lock = True, pj_state = \<lparr>pb_scope = \<lparr>ps_chainId = 1, ps_source = ''s'', ps_publisher = ''p''\<rparr>,
     pb_entries = []\<rparr>, pj_scope = \<lparr>ps_chainId = 1, ps_source = ''s'', ps_publisher = ''p''\<rparr>, pj_closed = False, pj_poisoned = False\<rparr>"

definition run_pub_signed :: publication_journal where
  "run_pub_signed = snd (prepare_publication run_pub_env None True ''0x00'' ''abc'' (snd (begin_publication run_pub_env None True run_intent run_pub_open)))"

text \<open>A failing save of another signature, then an attempt to abandon.\<close>

definition run_pub_later :: publication_journal where
  "run_pub_later = snd (abandonUnsigned run_pub_env None True ''0x00'' 9
     (snd (prepare_publication run_pub_env (Some SyncDir) True ''0x00'' ''other'' run_pub_signed)))"

lemma run_pub_start: "pub_start run_pub_env run_pub_open"
  unfolding pub_start_def
  by (intro exI [of _ 32] exI [of _ "\<lparr>ps_chainId = 1, ps_source = ''s'', ps_publisher = ''p''\<rparr>"] exI [of _ True])
     (simp add: open_journal_def scopeValue_def scope_address_def run_pub_env_def run_pub_open_def bindE_def requireE_def int_min_def
       is_safe_def max_safe_def lower_def lower_char_def zero_addr_def Let_def)

lemma run_intent_ok: "intent_ok run_pub_env run_intent"
  by (simp add: intent_ok_def run_intent_def run_pub_env_def calldata_ok_def int_min_def is_safe_def max_safe_def lower_hash_def
      lower_hex_def list_all_iff)

lemma run_pub_tx:
  "boundTransaction run_pub_env \<lparr>ps_chainId = 1, ps_source = ''s'', ps_publisher = ''p''\<rparr> ''abc'' run_intent
     = Inr \<lparr>pt_raw = ''abc'', pt_hash = ''abc'', pt_nonce = 3\<rparr>"
  "pv_id run_pub_env s run_intent = ''0x00''"
  by (simp_all add: boundTransaction_def run_pub_env_def run_intent_def lower_def lower_char_def int_min_def is_safe_def max_safe_def)

definition run_pub_item :: "publication_tx option \<Rightarrow> publication_entry" where
  "run_pub_item t = \<lparr>pe_id = ''0x00'', pe_intent = run_intent, pe_transaction = t, pe_confirmation = None, pe_abandonment = None\<rparr>"

lemma run_pub_item_simps [simp]:
  "pe_id (run_pub_item t) = ''0x00''" "pe_intent (run_pub_item t) = run_intent" "pe_transaction (run_pub_item t) = t"
  "pe_confirmation (run_pub_item t) = None" "pe_abandonment (run_pub_item t) = None"
  "(run_pub_item t)\<lparr>pe_transaction := u\<rparr> = run_pub_item u"
  by (simp_all add: run_pub_item_def)

lemma run_pub_save:
  assumes "pj_scope J = \<lparr>ps_chainId = 1, ps_source = ''s'', ps_publisher = ''p''\<rparr>" "pb_scope (pj_state J) = pj_scope J"
    "\<not> pj_closed J" "\<not> pj_poisoned J" "t = None \<or> t = Some \<lparr>pt_raw = ''abc'', pt_hash = ''abc'', pt_nonce = 3\<rparr>"
  shows "save_state run_pub_env None True (with_entries (pj_state J) [run_pub_item t]) J
     = (Inr (), J\<lparr>pj_file := Some (with_entries (pj_state J) [run_pub_item t]), pj_state := with_entries (pj_state J) [run_pub_item t]\<rparr>)"
proof -
  have "validate_entries run_pub_env (pj_scope J) [] [run_pub_item t] = Inr ()"
    using assms(1, 5) by (auto simp: validate_entry_def intentValue_def run_intent_ok run_pub_tx bindE_def)
  then have "validate_state run_pub_env (pj_scope J) (with_entries (pj_state J) [run_pub_item t]) = Inr ()"
    using assms(2) by (simp add: validate_state_def with_entries_def del: validate_entries.simps)
  then show ?thesis using assms(3, 4) by (simp add: save_state_def assertOpen_def bindE_def writeVaultEnvelope_def)
qed

lemma run_pub_begun:
  "snd (begin_publication run_pub_env None True run_intent run_pub_open) =
     run_pub_open\<lparr>pj_file := Some (with_entries (pj_state run_pub_open) [run_pub_item None]),
       pj_state := with_entries (pj_state run_pub_open) [run_pub_item None]\<rparr>"
proof -
  have "begin_publication run_pub_env None True run_intent run_pub_open =
      bindS (save_state run_pub_env None True (with_entries (pj_state run_pub_open) [run_pub_item None]) run_pub_open)
        (\<lambda>_ J. (Inr (run_pub_item None), J))"
    by (simp add: begin_publication_def assertOpen_def bindE_def intentValue_def run_intent_ok run_pub_tx find_entry_def Let_def
        run_pub_item_def run_pub_open_def)
  moreover note run_pub_save [of run_pub_open None]
  moreover have "pj_scope run_pub_open = \<lparr>ps_chainId = 1, ps_source = ''s'', ps_publisher = ''p''\<rparr>"
    "pb_scope (pj_state run_pub_open) = pj_scope run_pub_open" "\<not> pj_closed run_pub_open" "\<not> pj_poisoned run_pub_open"
    by (simp_all add: run_pub_open_def)
  ultimately show ?thesis by simp
qed

lemma run_pub_entry: "\<exists>e \<in> set (pb_entries (pj_state run_pub_signed)). map_option pt_nonce (pe_transaction e) = Some 3"
proof -
  let ?J = "snd (begin_publication run_pub_env None True run_intent run_pub_open)"
  have J: "pj_scope ?J = \<lparr>ps_chainId = 1, ps_source = ''s'', ps_publisher = ''p''\<rparr>" "pb_scope (pj_state ?J) = pj_scope ?J"
    "\<not> pj_closed ?J" "\<not> pj_poisoned ?J" "pb_entries (pj_state ?J) = [run_pub_item None]"
    unfolding run_pub_begun by (simp_all add: run_pub_open_def with_entries_def)
  have "snd (prepare_publication run_pub_env None True ''0x00'' ''abc'' ?J) = snd (save_state run_pub_env None True
      (with_entries (pj_state ?J) [run_pub_item (Some \<lparr>pt_raw = ''abc'', pt_hash = ''abc'', pt_nonce = 3\<rparr>)]) ?J)"
    using J by (simp add: prepare_publication_def assertOpen_def find_entry_def run_pub_tx replace_entry_def bindS_tail)
  then show ?thesis
    using run_pub_save [OF J(1-4), of "Some \<lparr>pt_raw = ''abc'', pt_hash = ''abc'', pt_nonce = 3\<rparr>"]
    by (simp add: run_pub_signed_def with_entries_def)
qed

theorem publication_never_replaced_witness:
  "\<exists>e \<in> set (pb_entries (pj_state run_pub_later)). map_option pt_nonce (pe_transaction e) = Some 3"
proof -
  have a: "(pub_step run_pub_env)\<^sup>*\<^sup>* run_pub_open run_pub_signed"
    unfolding run_pub_signed_def
    by (rule converse_rtranclp_into_rtranclp [OF pub_step.begun [of _ _ None True run_intent] r_into_rtranclp [of "pub_step run_pub_env"]]) (rule pub_step.prepared)
  have b: "(pub_step run_pub_env)\<^sup>*\<^sup>* run_pub_signed run_pub_later"
    unfolding run_pub_later_def
    by (rule converse_rtranclp_into_rtranclp [OF pub_step.prepared [of _ _ "Some SyncDir" True "''0x00''" "''other''"] r_into_rtranclp [of "pub_step run_pub_env"]])
      (rule pub_step.abandoned)
  from publication_never_replaced [OF run_pub_start a b]
  have "extends (pb_entries (pj_state run_pub_signed)) (pb_entries (pj_state run_pub_later))" by blast
  with run_pub_entry show ?thesis unfolding extends_def keeps_entry_def by fastforce
qed

end
