(* ===== verification/Worker_Store.thy ===== *)
theory Worker_Store
  imports Prelude "HOL-Library.AList"
begin

text \<open>
  The worker's durable state, \<open>worker/store.ts\<close>: the persisted record, the atomic commit
  with its failure modes, and every operation of \<open>Store\<close>. The file on disk and the copy in
  memory are both part of the state, because a commit may fail before or after the rename.
  Integers of the state file are \<open>int\<close>; the tests of \<open>Number.isSafeInteger\<close> on them are kept.
  A missing optional array (\<open>relayHistory\<close>, \<open>sourceCheckpoints\<close>, \<open>sourceRewinds\<close>) is the empty list:
  the code reads all three through \<open>?? []\<close>, \<open>?.length\<close> or \<open>??=\<close>.
\<close>

subsection \<open>Data\<close>

datatype job_state = Discovered | Attested | Submitted | Done | Skipped | Dead

datatype relay_status = Success | Reverted

record relay_outcome =
  ro_hash :: string
  ro_nonce :: int
  ro_status :: relay_status
  ro_blockNumber :: int
  ro_blockHash :: string

record skip_observation =
  so_blockNumber :: int
  so_blockHash :: string
  so_confirmations :: int
  so_observedAt :: int

record job =
  txHash :: string
  blockNumber :: int
  blockHash :: "string option"
  transactionIndex :: "int option"
  action :: int
  eventName :: string
  logCount :: int
  state :: job_state
  attempts :: int
  lastError :: "string option"
  ascTxHash :: "string option"
  queryId :: "string option"
  discoveredAt :: int
  updatedAt :: int
  skipObservation :: "skip_observation option"
  relayHistory :: "relay_outcome list"

record worker_scope =
  sourceChainId :: int
  hubChainId :: int
  chainKey :: int
  source :: string
  asc :: string
  signer :: string
  startBlock :: int

record relay_envelope =
  sourceTxHash :: string
  r_queryId :: string
  r_hash :: string
  r_raw :: string
  r_nonce :: int
  r_chainId :: int
  r_to :: string
  r_signer :: string
  r_data :: string

record source_checkpoint =
  height :: int
  cp_hash :: string

record source_rewind =
  rw_at :: int
  rw_from :: int
  rw_to :: int
  orphanedTxs :: "string list"

record store_data =
  version :: int
  cursor :: int
  jobs :: "(string \<times> job) list"
  scope :: "worker_scope option"
  relay :: "relay_envelope option"
  sourceCheckpoints :: "source_checkpoint list"
  sourceHold :: "string option"
  hubStartNonce :: "int option"
  hubHold :: "string option"
  sourceRewinds :: "source_rewind list"

datatype store_error =
    StoreWriteError
  | SourceSafetyError string
  | HubSafetyError string
  | PlainError string

text \<open>JavaScript truthiness of an optional string.\<close>

fun truthy :: "string option \<Rightarrow> bool" where
  "truthy None = False"
| "truthy (Some s) = (s \<noteq> [])"

subsection \<open>The file and the commit\<close>

record store =
  mem :: store_data
  disk :: "store_data option"

definition empty_data :: store_data where
  "empty_data = \<lparr>version = 1, cursor = 0, jobs = [], scope = None, relay = None, sourceCheckpoints = [],
     sourceHold = None, hubStartNonce = None, hubHold = None, sourceRewinds = []\<rparr>"

definition relay_consistent :: "store_data \<Rightarrow> bool" where
  "relay_consistent d = (case relay d of
     None \<Rightarrow> True
   | Some r \<Rightarrow> (case map_of (jobs d) (sourceTxHash r) of
       None \<Rightarrow> False
     | Some j \<Rightarrow> state j = Submitted \<and> ascTxHash j = Some (r_hash r) \<and> queryId j = Some (r_queryId r)))"

fun load :: "store_data option \<Rightarrow> store_error + store_data" where
  "load None = Inr empty_data"
| "load (Some d) =
     bindE (requireE (PlainError ''unknown state file version'') (version d = 1)) (\<lambda>_.
     bindE (requireE (PlainError ''INCONSISTENT_RELAY_STATE'') (relay_consistent d)) (\<lambda>_.
     Inr d))"

definition reload :: "store \<Rightarrow> (store, store_error, unit) st_res" where
  "reload s = (case load (disk s) of Inl e \<Rightarrow> (Inl e, s) | Inr d \<Rightarrow> (Inr (), s\<lparr>mem := d\<rparr>))"

text \<open>
  How a write may end: it completes; it fails before the rename, and the old file stays; or
  the rename has happened and only the directory sync fails. In the last two cases the code
  reloads what the file now holds and reports the error.
\<close>

datatype write_outcome = Written | NotRenamed | RenamedNotSynced

fun commit :: "write_outcome \<Rightarrow> store_data \<Rightarrow> store \<Rightarrow> (store, store_error, unit) st_res" where
  "commit Written d s = (Inr (), s\<lparr>mem := d, disk := Some d\<rparr>)"
| "commit NotRenamed d s = bindS (reload s) (\<lambda>_ s'. (Inl StoreWriteError, s'))"
| "commit RenamedNotSynced d s =
     bindS (reload (s\<lparr>mem := d, disk := Some d\<rparr>)) (\<lambda>_ s'. (Inl StoreWriteError, s'))"

text \<open>An operation that computes the next data, or throws, and then commits it.\<close>

definition committing :: "write_outcome \<Rightarrow> (store_data \<Rightarrow> store_error + store_data) \<Rightarrow> store
    \<Rightarrow> (store, store_error, unit) st_res" where
  "committing w f s = (case f (mem s) of Inl e \<Rightarrow> (Inl e, s) | Inr d \<Rightarrow> commit w d s)"

subsection \<open>Operations\<close>

definition bindScope :: "write_outcome \<Rightarrow> worker_scope \<Rightarrow> store \<Rightarrow> (store, store_error, unit) st_res" where
  "bindScope w sc s =
     (case scope (mem s) of
        Some sc' \<Rightarrow> if sc' \<noteq> sc then (Inl (PlainError ''WORKER_STATE_SCOPE_MISMATCH''), s) else (Inr (), s)
      | None \<Rightarrow>
          if cursor (mem s) \<noteq> 0 \<or> jobs (mem s) \<noteq> []
          then (Inl (PlainError ''LEGACY_WORKER_STATE_REQUIRES_RECONCILIATION''), s)
          else commit w ((mem s)\<lparr>scope := Some sc\<rparr>) s)"

definition assertSourceReady :: "store_data \<Rightarrow> store_error + unit" where
  "assertSourceReady d = (if truthy (sourceHold d) then Inl (SourceSafetyError (the (sourceHold d))) else Inr ())"

definition assertHubReady :: "store_data \<Rightarrow> store_error + unit" where
  "assertHubReady d = (if truthy (hubHold d) then Inl (HubSafetyError (the (hubHold d))) else Inr ())"

definition holdSource :: "write_outcome \<Rightarrow> string \<Rightarrow> store \<Rightarrow> (store, store_error, 'a) st_res" where
  "holdSource w reason s = bindS (commit w ((mem s)\<lparr>sourceHold := Some reason\<rparr>) s)
     (\<lambda>_ s'. (Inl (SourceSafetyError reason), s'))"

definition holdHub :: "write_outcome \<Rightarrow> string \<Rightarrow> store \<Rightarrow> (store, store_error, 'a) st_res" where
  "holdHub w reason s = bindS (commit w ((mem s)\<lparr>hubHold := Some reason\<rparr>) s)
     (\<lambda>_ s'. (Inl (HubSafetyError reason), s'))"

definition initializeHubSigner :: "write_outcome \<Rightarrow> js_num \<Rightarrow> store \<Rightarrow> (store, store_error, unit) st_res" where
  "initializeHubSigner w startNonce s =
     (case assertHubReady (mem s) of Inl e \<Rightarrow> (Inl e, s) | Inr _ \<Rightarrow>
      if \<not> js_safe startNonce \<or> js_val startNonce < 0 then (Inl (HubSafetyError ''HUB_SIGNER_BASELINE_INVALID''), s)
      else (case hubStartNonce (mem s) of
        Some n \<Rightarrow> if n \<noteq> js_val startNonce then (Inl (HubSafetyError ''HUB_SIGNER_BASELINE_MISMATCH''), s) else (Inr (), s)
      | None \<Rightarrow> commit w ((mem s)\<lparr>hubStartNonce := Some (js_val startNonce)\<rparr>) s))"

definition initializeSource :: "write_outcome \<Rightarrow> source_checkpoint \<Rightarrow> store \<Rightarrow> (store, store_error, unit) st_res" where
  "initializeSource w checkpoint s =
     (case assertSourceReady (mem s) of Inl e \<Rightarrow> (Inl e, s) | Inr _ \<Rightarrow>
      if sourceCheckpoints (mem s) \<noteq> [] then (Inr (), s)
      else if jobs (mem s) \<noteq> [] \<or> (cursor (mem s) \<noteq> 0 \<and> cursor (mem s) \<noteq> height checkpoint)
      then (Inl (SourceSafetyError ''UNHASHED_SOURCE_STATE_REQUIRES_RECONCILIATION''), s)
      else commit w ((mem s)\<lparr>cursor := height checkpoint, sourceCheckpoints := [checkpoint]\<rparr>) s)"

text \<open>The loop of \<open>commitSourceRange\<close> over the jobs of the range.\<close>

definition coordinates_ok :: "int \<Rightarrow> int \<Rightarrow> job \<Rightarrow> bool" where
  "coordinates_ok from to_h j \<longleftrightarrow> truthy (blockHash j)
     \<and> (case transactionIndex j of None \<Rightarrow> False | Some i \<Rightarrow> is_safe i)
     \<and> from \<le> blockNumber j \<and> blockNumber j \<le> to_h"

fun merge_jobs :: "int \<Rightarrow> int \<Rightarrow> int \<Rightarrow> job list \<Rightarrow> (string \<times> job) list \<Rightarrow> store_error + (string \<times> job) list" where
  "merge_jobs from to_h now [] js = Inr js"
| "merge_jobs from to_h now (j # rest) js =
     bindE (requireE (SourceSafetyError ''INVALID_SOURCE_JOB_COORDINATES'') (coordinates_ok from to_h j)) (\<lambda>_.
     case map_of js (txHash j) of
       Some old \<Rightarrow>
         bindE (requireE (SourceSafetyError ''SOURCE_TX_RELOCATION_NOT_RECONCILED'')
             (blockHash old = blockHash j \<and> blockNumber old = blockNumber j)) (\<lambda>_.
         merge_jobs from to_h now rest js)
     | None \<Rightarrow> merge_jobs from to_h now rest
         (AList.update (txHash j) (j\<lparr>discoveredAt := now, updatedAt := now\<rparr>) js))"

text \<open>The verified initial anchor and the 128 most recent range boundaries.\<close>

definition trim_checkpoints :: "source_checkpoint list \<Rightarrow> source_checkpoint list" where
  "trim_checkpoints cs = (if length cs > 129 then hd cs # drop (length cs - 128) cs else cs)"

definition source_range :: "int \<Rightarrow> source_checkpoint \<Rightarrow> job list \<Rightarrow> int \<Rightarrow> store_data \<Rightarrow> store_error + store_data" where
  "source_range from end_cp new now d =
     bindE (assertSourceReady d) (\<lambda>_. bindE (assertHubReady d) (\<lambda>_.
     bindE (requireE (SourceSafetyError ''SOURCE_SCAN_CURSOR_CONFLICT'')
       (from = cursor d + 1 \<and> from \<le> height end_cp)) (\<lambda>_.
     bindE (merge_jobs from (height end_cp) now new (jobs d)) (\<lambda>js.
     Inr (d\<lparr>jobs := js, sourceCheckpoints := trim_checkpoints (sourceCheckpoints d @ [end_cp]),
       cursor := height end_cp\<rparr>)))))"

definition commitSourceRange :: "write_outcome \<Rightarrow> int \<Rightarrow> source_checkpoint \<Rightarrow> job list \<Rightarrow> int \<Rightarrow> store
    \<Rightarrow> (store, store_error, unit) st_res" where
  "commitSourceRange w from end_cp new now = committing w (source_range from end_cp new now)"

text \<open>A job with any trace of a signed relay, or a state that only a relay leads to.\<close>

definition relayed :: "job \<Rightarrow> bool" where
  "relayed j \<longleftrightarrow> truthy (ascTxHash j) \<or> truthy (queryId j) \<or> relayHistory j \<noteq> []
     \<or> state j \<in> {Submitted, Done, Skipped}"

definition affected_jobs :: "source_checkpoint \<Rightarrow> store_data \<Rightarrow> job list" where
  "affected_jobs ancestor d = filter (\<lambda>j. blockNumber j > height ancestor) (map snd (jobs d))"

definition drop_jobs :: "job list \<Rightarrow> (string \<times> job) list \<Rightarrow> (string \<times> job) list" where
  "drop_jobs gone js = filter (\<lambda>(k, _). k \<notin> txHash ` set gone) js"

definition rewound :: "source_checkpoint \<Rightarrow> int \<Rightarrow> store_data \<Rightarrow> store_data" where
  "rewound ancestor now d =
     d\<lparr>jobs := drop_jobs (affected_jobs ancestor d) (jobs d),
       sourceRewinds := sourceRewinds d @ [\<lparr>rw_at = now, rw_from = cursor d, rw_to = height ancestor,
          orphanedTxs = map txHash (affected_jobs ancestor d)\<rparr>],
       cursor := height ancestor,
       sourceCheckpoints := filter (\<lambda>c. height c \<le> height ancestor) (sourceCheckpoints d)\<rparr>"

definition rewindUnsignedSource :: "write_outcome \<Rightarrow> source_checkpoint \<Rightarrow> int \<Rightarrow> store
    \<Rightarrow> (store, store_error, nat) st_res" where
  "rewindUnsignedSource w ancestor now s =
     (case assertSourceReady (mem s) of Inl e \<Rightarrow> (Inl e, s) | Inr _ \<Rightarrow>
      if ancestor \<notin> set (sourceCheckpoints (mem s)) then (Inl (SourceSafetyError ''UNKNOWN_SOURCE_ANCESTOR''), s)
      else if list_ex relayed (affected_jobs ancestor (mem s))
      then holdSource w ''SOURCE_REORG_TOUCHES_RELAYED_JOB'' s
      else bindS (commit w (rewound ancestor now (mem s)) s)
        (\<lambda>_ s'. (Inr (length (affected_jobs ancestor (mem s))), s')))"

definition reserve :: "relay_envelope \<Rightarrow> int \<Rightarrow> store_data \<Rightarrow> store_error + store_data" where
  "reserve r now d =
     bindE (assertSourceReady d) (\<lambda>_. bindE (assertHubReady d) (\<lambda>_.
     bindE (requireE (PlainError ''RELAY_NONCE_UNRESOLVED'') (relay d = None)) (\<lambda>_.
     case map_of (jobs d) (sourceTxHash r) of
       None \<Rightarrow> Inl (PlainError ''RELAY_JOB_NOT_PENDING'')
     | Some j \<Rightarrow>
         bindE (requireE (PlainError ''RELAY_JOB_NOT_PENDING'') (state j \<notin> {Done, Dead, Skipped})) (\<lambda>_.
         Inr (d\<lparr>relay := Some r, jobs := AList.update (sourceTxHash r)
            (j\<lparr>state := Submitted, ascTxHash := Some (r_hash r), queryId := Some (r_queryId r), updatedAt := now\<rparr>)
            (jobs d)\<rparr>)))))"

definition reserveRelay :: "write_outcome \<Rightarrow> relay_envelope \<Rightarrow> int \<Rightarrow> store \<Rightarrow> (store, store_error, unit) st_res" where
  "reserveRelay w r now = committing w (reserve r now)"

record relay_receipt =
  rc_status :: relay_status
  rc_blockNumber :: int
  rc_blockHash :: string

definition finished_job :: "relay_envelope \<Rightarrow> relay_receipt \<Rightarrow> int \<Rightarrow> job \<Rightarrow> job" where
  "finished_job r rc now j =
     j\<lparr>relayHistory := relayHistory j @ [\<lparr>ro_hash = r_hash r, ro_nonce = r_nonce r, ro_status = rc_status rc,
          ro_blockNumber = rc_blockNumber rc, ro_blockHash = rc_blockHash rc\<rparr>],
       state := (if rc_status rc = Success then Done else Dead),
       lastError := (if rc_status rc = Success then None else Some ''ASC_TRANSACTION_REVERTED_REVIEW_REQUIRED''),
       updatedAt := now\<rparr>"

text \<open>\<open>next.jobs[relay.sourceTxHash]\<close> is dereferenced; a missing entry is the \<open>TypeError\<close> below.\<close>

definition finish :: "string \<Rightarrow> relay_receipt \<Rightarrow> int \<Rightarrow> store_data \<Rightarrow> store_error + store_data" where
  "finish h rc now d =
     bindE (assertHubReady d) (\<lambda>_.
     case relay d of
       None \<Rightarrow> Inl (PlainError ''RELAY_STATE_CONFLICT'')
     | Some r \<Rightarrow>
         bindE (requireE (PlainError ''RELAY_STATE_CONFLICT'') (r_hash r = h)) (\<lambda>_.
         case map_of (jobs d) (sourceTxHash r) of
           None \<Rightarrow> Inl (PlainError ''TypeError'')
         | Some j \<Rightarrow> Inr (d\<lparr>jobs := AList.update (sourceTxHash r) (finished_job r rc now j) (jobs d), relay := None\<rparr>)))"

definition finishRelay :: "write_outcome \<Rightarrow> string \<Rightarrow> relay_receipt \<Rightarrow> int \<Rightarrow> store \<Rightarrow> (store, store_error, unit) st_res" where
  "finishRelay w h rc now = committing w (finish h rc now)"

definition setCursor :: "write_outcome \<Rightarrow> int \<Rightarrow> store \<Rightarrow> (store, store_error, unit) st_res" where
  "setCursor w block s = (if block < cursor (mem s) then (Inr (), s) else commit w ((mem s)\<lparr>cursor := block\<rparr>) s)"

definition add_job :: "write_outcome \<Rightarrow> job \<Rightarrow> int \<Rightarrow> store \<Rightarrow> (store, store_error, job) st_res" where
  "add_job w j now s = (case map_of (jobs (mem s)) (txHash j) of
       Some old \<Rightarrow> (Inr old, s)
     | None \<Rightarrow> (let j' = j\<lparr>discoveredAt := now, updatedAt := now\<rparr> in
         bindS (commit w ((mem s)\<lparr>jobs := AList.update (txHash j) j' (jobs (mem s))\<rparr>) s) (\<lambda>_ s'. (Inr j', s'))))"

text \<open>
  \<open>Partial<Job>\<close> with the fields that a caller of \<open>update\<close> sets; a field of the patch that is
  absent leaves the job's field alone.
\<close>

record patch =
  p_state :: "job_state option"
  p_attempts :: "int option"
  p_lastError :: "string option"
  p_ascTxHash :: "string option"
  p_queryId :: "string option"
  p_skipObservation :: "skip_observation option"

definition no_patch :: patch where
  "no_patch = \<lparr>p_state = None, p_attempts = None, p_lastError = None, p_ascTxHash = None, p_queryId = None,
     p_skipObservation = None\<rparr>"

definition or_else :: "'a option \<Rightarrow> 'a option \<Rightarrow> 'a option" where
  "or_else p old = (case p of None \<Rightarrow> old | Some x \<Rightarrow> Some x)"

definition assign :: "patch \<Rightarrow> int \<Rightarrow> job \<Rightarrow> job" where
  "assign p now j =
     j\<lparr>state := (case p_state p of None \<Rightarrow> state j | Some x \<Rightarrow> x),
       attempts := (case p_attempts p of None \<Rightarrow> attempts j | Some x \<Rightarrow> x),
       lastError := or_else (p_lastError p) (lastError j), ascTxHash := or_else (p_ascTxHash p) (ascTxHash j),
       queryId := or_else (p_queryId p) (queryId j),
       skipObservation := or_else (p_skipObservation p) (skipObservation j), updatedAt := now\<rparr>"

definition update_job :: "write_outcome \<Rightarrow> string \<Rightarrow> patch \<Rightarrow> int \<Rightarrow> store \<Rightarrow> (store, store_error, unit) st_res" where
  "update_job w tx p now s =
     (if (\<exists>r \<in> set_option (relay (mem s)). sourceTxHash r = tx) \<and> p_state p \<noteq> None \<and> p_state p \<noteq> Some Submitted
      then (Inl (PlainError ''UNRESOLVED_RELAY_CANNOT_BE_DROPPED''), s)
      else (case map_of (jobs (mem s)) tx of
          None \<Rightarrow> (Inr (), s)
        | Some j \<Rightarrow> commit w ((mem s)\<lparr>jobs := AList.update tx (assign p now j) (jobs (mem s))\<rparr>) s))"

definition owns_relay :: "store_data \<Rightarrow> job \<Rightarrow> bool" where
  "owns_relay d j = (case relay d of None \<Rightarrow> False | Some r \<Rightarrow> txHash j = sourceTxHash r)"

text \<open>The comparator is a stable sort on a boolean: the owner first, the others in their order.\<close>

definition pending :: "store_data \<Rightarrow> job list" where
  "pending d = (let js = filter (\<lambda>j. state j \<noteq> Done \<and> state j \<noteq> Dead \<and> state j \<noteq> Skipped) (map snd (jobs d)) in
     filter (owns_relay d) js @ filter (\<lambda>j. \<not> owns_relay d j) js)"

definition state_count :: "store_data \<Rightarrow> job_state \<Rightarrow> nat" where
  "state_count d st = length (filter (\<lambda>j. state j = st) (map snd (jobs d)))"

definition jobsReadyForDispatch :: "store_data \<Rightarrow> (string \<Rightarrow> bool) \<Rightarrow> nat \<Rightarrow> job list" where
  "jobsReadyForDispatch d reserved limit = take limit (filter (\<lambda>j. \<not> reserved (txHash j)) (pending d))"

end
