(* ===== verification/Worker_Invariant.thy ===== *)
theory Worker_Invariant
  imports Worker_Store
begin

text \<open>
  What the worker's state promises. \<open>durable\<close> is the interface between the file and the
  operations: an invariant of the persisted data that the loader accepts is kept by every
  commit, whichever way the write ends, and memory never disagrees with the file. \<open>data_inv\<close>
  is the worker's invariant; \<open>worker_step\<close> lists the operations as the worker calls them,
  and \<open>reachable\<close> the states they lead to.
\<close>



subsection \<open>The commit keeps memory and file together\<close>

definition synced :: "store \<Rightarrow> bool" where
  "synced s \<longleftrightarrow> load (disk s) = Inr (mem s)"

locale durable =
  fixes inv :: "store_data \<Rightarrow> bool"
  assumes loads: "inv d \<Longrightarrow> load (Some d) = Inr d"
    and initial: "inv empty_data"
begin

definition good :: "store \<Rightarrow> bool" where
  "good s \<longleftrightarrow> synced s \<and> inv (mem s)"

lemma commit_cases:
  assumes "synced s" "inv d"
  obtains (written) "commit w d s = (Inr (), s\<lparr>mem := d, disk := Some d\<rparr>)"
    | (kept) "commit w d s = (Inl StoreWriteError, s)"
    | (moved) "commit w d s = (Inl StoreWriteError, s\<lparr>mem := d, disk := Some d\<rparr>)"
  using assms loads [of d] by (cases w) (auto simp: synced_def reload_def)

lemma commit_good: "good s \<Longrightarrow> inv d \<Longrightarrow> good (snd (commit w d s))"
  by (rule commit_cases [of s d w]) (auto simp: good_def synced_def dest: loads)

lemma commit_Inr: "commit w d s = (Inr u, s') \<Longrightarrow> s' = s\<lparr>mem := d, disk := Some d\<rparr>"
  by (cases w) (auto simp: bindS_def reload_def split: sum.splits)

lemma committing_good:
  assumes "good s" "\<And>d. f (mem s) = Inr d \<Longrightarrow> inv d"
  shows "good (snd (committing w f s))"
  using assms commit_good [OF assms(1)] by (auto simp: committing_def split: sum.splits)

lemma hold_good:
  assumes "good s" "inv ((mem s)\<lparr>sourceHold := Some r\<rparr>)"
  shows "good (snd (holdSource w r s))"
  using commit_good [OF assms, of w] by (auto simp: holdSource_def bindS_def split: sum.splits prod.splits)

lemma holdHub_good:
  assumes "good s" "inv ((mem s)\<lparr>hubHold := Some r\<rparr>)"
  shows "good (snd (holdHub w r s))"
  using commit_good [OF assms, of w] by (auto simp: holdHub_def bindS_def split: sum.splits prod.splits)

lemma reload_good: "good s \<Longrightarrow> reload s = (Inr (), s)"
  by (auto simp: good_def synced_def reload_def)

lemma start_good: "good \<lparr>mem = empty_data, disk = None\<rparr>"
  using initial by (simp add: good_def synced_def)

end

subsection \<open>The invariant\<close>

definition checkpoints_ok :: "store_data \<Rightarrow> bool" where
  "checkpoints_ok d \<longleftrightarrow> sorted_wrt (\<lambda>a b. height a < height b) (sourceCheckpoints d)
     \<and> length (sourceCheckpoints d) \<le> 129
     \<and> (sourceCheckpoints d \<noteq> [] \<longrightarrow> height (last (sourceCheckpoints d)) = cursor d)
     \<and> (sourceCheckpoints d = [] \<longrightarrow> jobs d = [])"

text \<open>What each phase of a job has and has not: evidence of a relay is exactly where it belongs.\<close>

definition phase_ok :: "store_data \<Rightarrow> job \<Rightarrow> bool" where
  "phase_ok d j \<longleftrightarrow> (case state j of
     Discovered \<Rightarrow> ascTxHash j = None \<and> queryId j = None \<and> relayHistory j = [] \<and> skipObservation j = None
   | Attested \<Rightarrow> ascTxHash j = None \<and> queryId j = None \<and> relayHistory j = [] \<and> skipObservation j = None
   | Submitted \<Rightarrow> owns_relay d j \<and> relayHistory j = [] \<and> skipObservation j = None
   | Done \<Rightarrow> (\<exists>h. relayHistory j = [h] \<and> ro_status h = Success \<and> ascTxHash j = Some (ro_hash h))
       \<and> queryId j \<noteq> None \<and> skipObservation j = None
   | Dead \<Rightarrow> ((\<exists>h. relayHistory j = [h] \<and> ro_status h = Reverted \<and> ascTxHash j = Some (ro_hash h) \<and> queryId j \<noteq> None)
       \<or> relayHistory j = [] \<and> ascTxHash j = None \<and> queryId j = None) \<and> skipObservation j = None
   | Skipped \<Rightarrow> relayHistory j = [] \<and> ascTxHash j = None \<and> queryId j \<noteq> None \<and> skipObservation j \<noteq> None)"

definition job_ok :: "store_data \<Rightarrow> string \<Rightarrow> job \<Rightarrow> bool" where
  "job_ok d k j \<longleftrightarrow> txHash j = k \<and> truthy (blockHash j) \<and> transactionIndex j \<noteq> None
     \<and> blockNumber j \<le> cursor d \<and> phase_ok d j"

definition data_inv :: "store_data \<Rightarrow> bool" where
  "data_inv d \<longleftrightarrow> version d = 1 \<and> distinct (map fst (jobs d)) \<and> relay_consistent d \<and> checkpoints_ok d
     \<and> (\<forall>k j. map_of (jobs d) k = Some j \<longrightarrow> job_ok d k j)"

lemma data_inv_job: "data_inv d \<Longrightarrow> map_of (jobs d) k = Some j \<Longrightarrow> job_ok d k j"
  by (simp add: data_inv_def)

lemma data_inv_empty: "data_inv empty_data"
  by (simp add: data_inv_def empty_data_def relay_consistent_def checkpoints_ok_def)

interpretation worker: durable data_inv
  by unfold_locales (simp_all add: data_inv_empty, simp add: data_inv_def)

text \<open>The fields the invariant does not read.\<close>

lemma phase_ok_cong: "relay d' = relay d \<Longrightarrow> phase_ok d' j = phase_ok d j"
  by (simp add: phase_ok_def owns_relay_def cong: job_state.case_cong)

lemma data_inv_cong:
  assumes "version d' = version d" "jobs d' = jobs d" "relay d' = relay d"
    "sourceCheckpoints d' = sourceCheckpoints d" "cursor d' = cursor d"
  shows "data_inv d' = data_inv d"
  using assms phase_ok_cong [OF assms(3)]
  by (simp add: data_inv_def relay_consistent_def checkpoints_ok_def job_ok_def cong: option.case_cong)

lemma data_inv_frame [simp]:
  "data_inv (d\<lparr>sourceHold := x\<rparr>) = data_inv d" "data_inv (d\<lparr>hubHold := x\<rparr>) = data_inv d"
  "data_inv (d\<lparr>hubStartNonce := y\<rparr>) = data_inv d" "data_inv (d\<lparr>scope := z\<rparr>) = data_inv d"
  by (rule data_inv_cong; simp)+

subsection \<open>Each operation keeps it\<close>

lemma sorted_wrt_trim:
  assumes "sorted_wrt R cs" "cs \<noteq> []"
  shows "sorted_wrt R (trim_checkpoints cs)" "length (trim_checkpoints cs) \<le> 129"
    "trim_checkpoints cs \<noteq> []" "last (trim_checkpoints cs) = last cs"
proof -
  obtain c cs' where cs: "cs = c # cs'" using assms(2) by (cases cs) auto
  have drop: "drop (length cs - 128) cs = drop (length cs' - 128) cs'" if "length cs > 129"
  proof -
    from that cs have "length cs - 128 = Suc (length cs' - 128)" by simp
    then show ?thesis by (simp add: cs)
  qed
  show "sorted_wrt R (trim_checkpoints cs)"
    using assms(1) drop cs by (auto simp: trim_checkpoints_def intro: sorted_wrt_drop dest: in_set_dropD)
  show "length (trim_checkpoints cs) \<le> 129" "trim_checkpoints cs \<noteq> []" "last (trim_checkpoints cs) = last cs"
    using assms(2) by (auto simp: trim_checkpoints_def)
qed

definition fresh_job :: "job \<Rightarrow> bool" where
  "fresh_job j \<longleftrightarrow> state j = Discovered \<and> ascTxHash j = None \<and> queryId j = None \<and> relayHistory j = []
     \<and> skipObservation j = None"

text \<open>What the loop over the jobs of a range does to the map of jobs.\<close>

lemma merge_jobs_spec:
  assumes "merge_jobs from to_h now new js = Inr js'" "distinct (map fst js)"
  shows "distinct (map fst js')"
    and "\<And>k. map_of js' k = (case map_of js k of Some j \<Rightarrow> Some j
      | None \<Rightarrow> map_option (\<lambda>j. j\<lparr>discoveredAt := now, updatedAt := now\<rparr>) (List.find (\<lambda>j. txHash j = k) new))"
    and "list_all (coordinates_ok from to_h) new"
  using assms
proof (induction new arbitrary: js)
  case Nil
  { case 1 with Nil show ?case by simp next
    case 2 with Nil show ?case by (simp split: option.splits) next
    case 3 with Nil show ?case by simp }
next
  case (Cons j new)
  let ?j = "j\<lparr>discoveredAt := now, updatedAt := now\<rparr>"
  { case 1 then show ?case using Cons.IH(1)
      by (auto simp: bindE_Inr_iff distinct_update split: option.splits) next
    case (2 k) then show ?case using Cons.IH(2)
      by (auto simp: bindE_Inr_iff distinct_update update_conv' split: option.splits if_splits) next
    case 3 then show ?case using Cons.IH(3)
      by (auto simp: bindE_Inr_iff distinct_update split: option.splits) }
qed

lemma sorted_wrt_below_last:
  "sorted_wrt (\<lambda>a b. height a < height b) cs \<Longrightarrow> x \<in> set cs \<Longrightarrow> height x \<le> height (last cs)"
  by (induction cs) (auto intro: less_imp_le)

lemma source_range_inv:
  assumes inv: "data_inv d" and ok: "source_range from c new now d = Inr d'"
    and fresh: "list_all fresh_job new" and cps: "sourceCheckpoints d \<noteq> []"
  shows "data_inv d'"
proof -
  from ok obtain js where m: "merge_jobs from (height c) now new (jobs d) = Inr js"
    and lo: "from = cursor d + 1" "from \<le> height c"
    and d': "d' = d\<lparr>jobs := js, sourceCheckpoints := trim_checkpoints (sourceCheckpoints d @ [c]), cursor := height c\<rparr>"
    by (auto simp: source_range_def bindE_Inr_iff)
  have dist: "distinct (map fst (jobs d))" using inv by (simp add: data_inv_def)
  note spec = merge_jobs_spec [OF m dist]
  have last: "height (last (sourceCheckpoints d)) = cursor d" and sorted: "sorted_wrt (\<lambda>a b. height a < height b) (sourceCheckpoints d)"
    using inv cps by (auto simp: data_inv_def checkpoints_ok_def)
  have below: "height x \<le> cursor d" if "x \<in> set (sourceCheckpoints d)" for x
    using sorted_wrt_below_last [OF sorted that] last by simp
  have all_sorted: "sorted_wrt (\<lambda>a b. height a < height b) (sourceCheckpoints d @ [c])"
    using sorted lo below by (fastforce simp: sorted_wrt_append)
  have cp: "checkpoints_ok d'"
    using sorted_wrt_trim [OF all_sorted] by (simp add: checkpoints_ok_def d')
  have relay': "relay d' = relay d" by (simp add: d')
  have jb: "job_ok d' k j" if k: "map_of js k = Some j" for k j
  proof (cases "map_of (jobs d) k")
    case None
    with k spec(2) [of k] obtain j0 where j0: "List.find (\<lambda>j. txHash j = k) new = Some j0"
      and j: "j = j0\<lparr>discoveredAt := now, updatedAt := now\<rparr>" by auto
    from find_Some_iff2 [OF j0] have "j0 \<in> set new" "txHash j0 = k" by auto
    with fresh spec(3) show ?thesis
      by (auto simp: list_all_iff j job_ok_def phase_ok_def fresh_job_def coordinates_ok_def d' split: option.splits)
  next
    case (Some j')
    with k spec(2) [of k] have "j' = j" by simp
    moreover have "phase_ok d' j = phase_ok d j" by (rule phase_ok_cong) (simp add: d')
    ultimately show ?thesis
      using data_inv_job [OF inv, of k j] Some lo by (simp add: job_ok_def d')
  qed
  have "relay_consistent d'"
    using inv spec(2) by (auto simp: data_inv_def relay_consistent_def d' split: option.splits)
  with cp jb spec(1) inv show ?thesis by (simp add: data_inv_def d')
qed

lemma map_of_filter_key: "map_of (filter (\<lambda>(k, _). P k) xs) k = (if P k then map_of xs k else None)"
  by (induction xs) auto

lemma distinct_filter_keys: "distinct (map fst xs) \<Longrightarrow> distinct (map fst (filter Q xs))"
  by (induction xs) (auto simp: image_iff)

lemma mem_jobs_iff:
  "data_inv d \<Longrightarrow> j \<in> set (map snd (jobs d)) \<longleftrightarrow> map_of (jobs d) (txHash j) = Some j"
proof
  assume inv: "data_inv d" and "j \<in> set (map snd (jobs d))"
  then obtain k where "(k, j) \<in> set (jobs d)" by auto
  moreover from inv have dist: "distinct (map fst (jobs d))" by (simp add: data_inv_def)
  ultimately have "map_of (jobs d) k = Some j" by simp
  with data_inv_job [OF inv this] show "map_of (jobs d) (txHash j) = Some j" by (simp add: job_ok_def)
qed (force dest: map_of_SomeD)

lemma affected_iff:
  assumes "data_inv d"
  shows "j \<in> set (affected_jobs c d) \<longleftrightarrow> map_of (jobs d) (txHash j) = Some j \<and> blockNumber j > height c"
  using mem_jobs_iff [OF assms] by (auto simp: affected_jobs_def)

text \<open>After a rewind exactly the jobs at or below the ancestor are left.\<close>

lemma map_of_rewound:
  assumes "data_inv d"
  shows "map_of (jobs (rewound c now d)) k =
    (case map_of (jobs d) k of Some j \<Rightarrow> if blockNumber j \<le> height c then Some j else None | None \<Rightarrow> None)"
proof -
  have "k \<in> txHash ` set (affected_jobs c d) \<longleftrightarrow> (\<exists>j. map_of (jobs d) k = Some j \<and> blockNumber j > height c)"
  proof
    assume "k \<in> txHash ` set (affected_jobs c d)"
    then obtain j where "j \<in> set (affected_jobs c d)" "k = txHash j" by blast
    then show "\<exists>j. map_of (jobs d) k = Some j \<and> blockNumber j > height c"
      using affected_iff [OF assms] by blast
  next
    assume "\<exists>j. map_of (jobs d) k = Some j \<and> blockNumber j > height c"
    then obtain j where j: "map_of (jobs d) k = Some j" "blockNumber j > height c" by blast
    with data_inv_job [OF assms j(1)] have "txHash j = k" by (simp add: job_ok_def)
    with j affected_iff [OF assms, of j c] show "k \<in> txHash ` set (affected_jobs c d)" by blast
  qed
  then show ?thesis
    by (auto simp: rewound_def drop_jobs_def map_of_filter_key split: option.splits)
qed

lemma sorted_wrt_last_filter:
  assumes "sorted_wrt (\<lambda>a b. height a < height b) cs" "c \<in> set cs"
  shows "height (last (filter (\<lambda>x. height x \<le> height c) cs)) = height c"
  using assms
proof (induction cs)
  case (Cons a cs)
  show ?case
  proof (cases "c \<in> set cs")
    case True
    then have "filter (\<lambda>x. height x \<le> height c) cs \<noteq> []" by (auto simp: filter_empty_conv)
    with True Cons show ?thesis by auto
  next
    case False
    with Cons.prems have "a = c" "filter (\<lambda>x. height x \<le> height c) cs = []"
      by (auto simp: filter_empty_conv not_le)
    then show ?thesis by simp
  qed
qed simp

lemma rewound_inv:
  assumes inv: "data_inv d" and c: "c \<in> set (sourceCheckpoints d)"
    and free: "\<not> list_ex relayed (affected_jobs c d)"
  shows "data_inv (rewound c now d)"
proof -
  let ?d = "rewound c now d"
  have sorted: "sorted_wrt (\<lambda>a b. height a < height b) (sourceCheckpoints d)" "length (sourceCheckpoints d) \<le> 129"
    using inv by (auto simp: data_inv_def checkpoints_ok_def)
  have ne: "filter (\<lambda>x. height x \<le> height c) (sourceCheckpoints d) \<noteq> []" using c by (auto simp: filter_empty_conv)
  have cp: "checkpoints_ok ?d"
    using sorted ne sorted_wrt_last_filter [OF sorted(1) c] order_trans [OF length_filter_le sorted(2)]
    by (simp add: checkpoints_ok_def rewound_def sorted_wrt_filter)
  have relay: "relay_consistent ?d"
  proof (cases "relay d")
    case (Some r)
    with inv obtain j where j: "map_of (jobs d) (sourceTxHash r) = Some j" "state j = Submitted"
      "ascTxHash j = Some (r_hash r)" "queryId j = Some (r_queryId r)"
      by (auto simp: data_inv_def relay_consistent_def split: option.splits)
    have "\<not> blockNumber j > height c"
    proof
      assume "blockNumber j > height c"
      with j(1) data_inv_job [OF inv j(1)] have "j \<in> set (affected_jobs c d)"
        using affected_iff [OF inv] by (simp add: job_ok_def)
      with free j(2) show False by (auto simp: list_ex_iff relayed_def)
    qed
    with j map_of_rewound [OF inv, of c now "sourceTxHash r"] Some show ?thesis
      by (simp add: relay_consistent_def) (simp add: rewound_def)
  qed (simp add: relay_consistent_def rewound_def)
  have "job_ok ?d k j" if "map_of (jobs ?d) k = Some j" for k j
  proof -
    from that have "map_of (jobs d) k = Some j" "blockNumber j \<le> height c"
      using map_of_rewound [OF inv, of c now k] by (auto split: option.splits if_splits)
    moreover have "phase_ok ?d j = phase_ok d j" by (rule phase_ok_cong) (simp add: rewound_def)
    ultimately show ?thesis
      using data_inv_job [OF inv, of k j] by (simp add: job_ok_def rewound_def)
  qed
  moreover have "distinct (map fst (jobs ?d))"
    using inv by (simp add: data_inv_def rewound_def drop_jobs_def distinct_filter_keys)
  ultimately show ?thesis using cp relay inv by (simp add: data_inv_def) (simp add: rewound_def)
qed

lemma owner_only:
  assumes "data_inv d" "map_of (jobs d) k = Some j" "state j = Submitted" "relay d = Some r"
  shows "k = sourceTxHash r"
  using data_inv_job [OF assms(1,2)] assms(3,4) by (auto simp: job_ok_def phase_ok_def owns_relay_def)

text \<open>Replacing one job and possibly the relay.\<close>

lemma data_inv_update:
  assumes inv: "data_inv d" and ex: "map_of (jobs d) k = Some j"
    and d': "d' = d\<lparr>jobs := AList.update k j' (jobs d), relay := r'\<rparr>"
    and j': "txHash j' = txHash j" "blockHash j' = blockHash j" "transactionIndex j' = transactionIndex j"
      "blockNumber j' = blockNumber j" "phase_ok d' j'"
    and others: "\<And>k' i. map_of (jobs d) k' = Some i \<Longrightarrow> k' \<noteq> k \<Longrightarrow> state i = Submitted \<Longrightarrow> r' = relay d"
    and rel: "relay_consistent d'"
  shows "data_inv d'"
proof -
  have map: "map_of (jobs d') = (map_of (jobs d))(k \<mapsto> j')" by (simp add: d' update_conv')
  have "phase_ok d' i" if i: "map_of (jobs d) k' = Some i" "k' \<noteq> k" for k' i
  proof (cases "state i = Submitted")
    case True
    from others [OF i True] have "phase_ok d' i = phase_ok d i" by (intro phase_ok_cong) (simp add: d')
    with data_inv_job [OF inv i(1)] show ?thesis by (simp add: job_ok_def)
  next
    case False
    with data_inv_job [OF inv i(1)] show ?thesis by (auto simp: job_ok_def phase_ok_def split: job_state.splits)
  qed
  then have jobs: "\<forall>k' i. map_of (jobs d') k' = Some i \<longrightarrow> job_ok d' k' i"
    using j' data_inv_job [OF inv ex] data_inv_job [OF inv] by (auto simp: map job_ok_def) (simp_all add: d')
  have "checkpoints_ok d'" "version d' = 1" "distinct (map fst (jobs d'))"
    using inv ex by (auto simp: data_inv_def checkpoints_ok_def d' distinct_update)
  with jobs rel show ?thesis by (simp add: data_inv_def)
qed

lemma reserve_inv:
  assumes inv: "data_inv d" and ok: "reserve r now d = Inr d'"
  shows "data_inv d'"
proof -
  from ok obtain j where j: "relay d = None" "map_of (jobs d) (sourceTxHash r) = Some j" "state j \<notin> {Done, Dead, Skipped}"
    and d': "d' = d\<lparr>relay := Some r, jobs := AList.update (sourceTxHash r)
            (j\<lparr>state := Submitted, ascTxHash := Some (r_hash r), queryId := Some (r_queryId r), updatedAt := now\<rparr>)
            (jobs d)\<rparr>"
    by (auto simp: reserve_def bindE_Inr_iff split: option.splits)
  from data_inv_job [OF inv j(2)] j have "relayHistory j = []" "skipObservation j = None" "txHash j = sourceTxHash r"
    by (auto simp: job_ok_def phase_ok_def owns_relay_def split: job_state.splits)
  moreover have "state i \<noteq> Submitted" if "map_of (jobs d) k' = Some i" for k' i
    using data_inv_job [OF inv that] j(1) by (auto simp: job_ok_def phase_ok_def owns_relay_def)
  ultimately show ?thesis
    by (intro data_inv_update [OF inv j(2), where r' = "Some r" and j' = "j\<lparr>state := Submitted,
          ascTxHash := Some (r_hash r), queryId := Some (r_queryId r), updatedAt := now\<rparr>"])
      (auto simp: d' phase_ok_def owns_relay_def relay_consistent_def update_conv')
qed

lemma finish_inv:
  assumes inv: "data_inv d" and ok: "finish h rc now d = Inr d'"
  shows "data_inv d'"
proof -
  from ok obtain r j where j: "relay d = Some r" "map_of (jobs d) (sourceTxHash r) = Some j" "r_hash r = h"
    and d': "d' = d\<lparr>jobs := AList.update (sourceTxHash r) (finished_job r rc now j) (jobs d), relay := None\<rparr>"
    by (auto simp: finish_def bindE_Inr_iff split: option.splits)
  from inv j have "state j = Submitted" "ascTxHash j = Some (r_hash r)" "queryId j = Some (r_queryId r)"
    by (auto simp: data_inv_def relay_consistent_def)
  with data_inv_job [OF inv j(2)] have "phase_ok d' (finished_job r rc now j)"
    by (cases "rc_status rc") (auto simp: job_ok_def phase_ok_def finished_job_def)
  moreover have "k' = sourceTxHash r" if "map_of (jobs d) k' = Some i" "state i = Submitted" for k' i
    by (rule owner_only [OF inv that j(1)])
  ultimately show ?thesis
    by (intro data_inv_update [OF inv j(2), where r' = None and j' = "finished_job r rc now j"])
      (auto simp: d' finished_job_def relay_consistent_def)
qed

text \<open>An update of a job that leaves its phase well-formed and, for the owner of the relay, its evidence.\<close>

lemma update_job_good:
  assumes good: "worker.good s"
    and ok: "\<And>j. map_of (jobs (mem s)) tx = Some j \<Longrightarrow> phase_ok (mem s) (assign p now j)"
    and keep: "p_ascTxHash p = None" "owned \<Longrightarrow> p_queryId p = None"
    and owned: "owned \<longleftrightarrow> (\<exists>r. relay (mem s) = Some r \<and> sourceTxHash r = tx)"
  shows "worker.good (snd (update_job w tx p now s))"
proof (cases "map_of (jobs (mem s)) tx")
  case (Some j)
  have inv: "data_inv (mem s)" using good by (simp add: worker.good_def)
  let ?d = "(mem s)\<lparr>jobs := AList.update tx (assign p now j) (jobs (mem s))\<rparr>"
  { assume st: "p_state p = None \<or> p_state p = Some Submitted \<or> \<not> owned"
    have "relay_consistent ?d"
    proof (cases "relay (mem s)")
      case (Some r)
      then show ?thesis using inv keep st owned \<open>map_of (jobs (mem s)) tx = Some j\<close>
        by (auto simp: data_inv_def relay_consistent_def update_conv' assign_def or_else_def split: option.splits)
    qed (simp add: relay_consistent_def)
    moreover have "phase_ok ?d (assign p now j)"
      using ok [OF Some] phase_ok_cong [of ?d "mem s" "assign p now j"] by simp
    ultimately have "data_inv ?d"
      by (intro data_inv_update [OF inv Some, where d' = ?d and j' = "assign p now j" and r' = "relay (mem s)"]) (auto simp: assign_def)
  }
  note upd = worker.commit_good [OF good this, of w]
  then show ?thesis
    using good Some owned by (auto simp: update_job_def)
qed (use good in \<open>auto simp: update_job_def\<close>)

end
