(* ===== verification/Worker_Props.thy ===== *)
theory Worker_Props
  imports Worker_Invariant
begin

text \<open>
  The worker as a state machine over its store: \<open>worker_step\<close> has one rule per call the
  worker makes on \<open>Store\<close> (\<open>worker.ts\<close>, \<open>relay.ts\<close>, \<open>source-scan.ts\<close>, \<open>recovery.ts\<close>), with
  the conditions its callers establish, any arguments otherwise, any clock and any outcome of
  the write. A restart is the rule \<open>reopen\<close>.
\<close>

definition initial_store :: store where
  "initial_store = \<lparr>mem = empty_data, disk = None\<rparr>"

text \<open>The patches of the worker's calls of \<open>update\<close>.\<close>

definition attested_patch :: patch where
  "attested_patch = no_patch\<lparr>p_state := Some Attested\<rparr>"

definition skipped_patch :: "string \<Rightarrow> skip_observation \<Rightarrow> patch" where
  "skipped_patch q obs = no_patch\<lparr>p_state := Some Skipped, p_queryId := Some q, p_skipObservation := Some obs\<rparr>"

definition error_patch :: "string \<Rightarrow> patch" where
  "error_patch e = no_patch\<lparr>p_lastError := Some e\<rparr>"

definition pending_relay_patch :: patch where
  "pending_relay_patch = no_patch\<lparr>p_state := Some Submitted, p_lastError := Some ''RELAY_RECONCILIATION_PENDING''\<rparr>"

definition retry_patch :: "int \<Rightarrow> string \<Rightarrow> patch" where
  "retry_patch n e = no_patch\<lparr>p_attempts := Some n, p_lastError := Some e\<rparr>"

definition dead_patch :: "int \<Rightarrow> string \<Rightarrow> patch" where
  "dead_patch n e = no_patch\<lparr>p_state := Some Dead, p_attempts := Some n, p_lastError := Some e\<rparr>"

definition job_in :: "store \<Rightarrow> string \<Rightarrow> job_state set \<Rightarrow> bool" where
  "job_in s tx sts \<longleftrightarrow> (\<exists>j. map_of (jobs (mem s)) tx = Some j \<and> state j \<in> sts)"

inductive worker_step :: "store \<Rightarrow> store \<Rightarrow> bool" where
  reopen: "worker_step s (snd (reload s))"
| bind: "worker_step s (snd (bindScope w sc s))"
| hold_source: "worker_step s (snd (holdSource w r s :: (store, store_error, unit) st_res))"
| hold_hub: "worker_step s (snd (holdHub w r s :: (store, store_error, unit) st_res))"
| init_hub: "worker_step s (snd (initializeHubSigner w n s))"
| init_source: "worker_step s (snd (initializeSource w c s))"
| scan_range: "list_all fresh_job new \<Longrightarrow> sourceCheckpoints (mem s) \<noteq> []
    \<Longrightarrow> worker_step s (snd (commitSourceRange w lo c new now s))"
| rewind: "worker_step s (snd (rewindUnsignedSource w c now s))"
| reserve_relay: "worker_step s (snd (reserveRelay w r now s))"
| finish_relay: "worker_step s (snd (finishRelay w h rc now s))"
| attest: "job_in s tx {Discovered} \<Longrightarrow> worker_step s (snd (update_job w tx attested_patch now s))"
| skip: "job_in s tx {Discovered, Attested} \<Longrightarrow> worker_step s (snd (update_job w tx (skipped_patch q obs) now s))"
| broadcast_failed: "worker_step s (snd (update_job w tx (error_patch e) now s))"
| relay_pending: "relay (mem s) = Some r \<Longrightarrow> sourceTxHash r = tx
    \<Longrightarrow> worker_step s (snd (update_job w tx pending_relay_patch now s))"
| retry: "worker_step s (snd (update_job w tx (retry_patch n e) now s))"
| give_up: "job_in s tx {Discovered, Attested} \<Longrightarrow> worker_step s (snd (update_job w tx (dead_patch n e) now s))"

inductive reachable :: "store \<Rightarrow> bool" where
  start: "reachable initial_store"
| step: "reachable s \<Longrightarrow> worker_step s s' \<Longrightarrow> reachable s'"

inductive_cases worker_stepE: "worker_step s s'"

lemmas patch_defs = attested_patch_def skipped_patch_def error_patch_def pending_relay_patch_def
  retry_patch_def dead_patch_def no_patch_def assign_def or_else_def

lemma initialized_inv:
  "data_inv d \<Longrightarrow> sourceCheckpoints d = [] \<Longrightarrow> jobs d = [] \<Longrightarrow> data_inv (d\<lparr>cursor := height c, sourceCheckpoints := [c]\<rparr>)"
  by (auto simp: data_inv_def checkpoints_ok_def relay_consistent_def split: option.splits)

lemma st_case_snd: "snd (case x of Inl e \<Rightarrow> f e | Inr y \<Rightarrow> g y) = (case x of Inl e \<Rightarrow> snd (f e) | Inr y \<Rightarrow> snd (g y))"
  by (simp split: sum.splits)

lemma snd_bindS [simp]: "snd (bindS m (\<lambda>x s. (f x s, s))) = snd m"
  by (auto simp: bindS_def split: sum.splits prod.splits)

lemma worker_step_good:
  assumes "worker_step s s'" "worker.good s"
  shows "worker.good s'"
  using assms
proof (induction rule: worker_step.induct)
  case (reopen s)
  then show ?case by (simp add: worker.reload_good)
next
  case (bind s w sc)
  then show ?case using worker.commit_good [of s "(mem s)\<lparr>scope := Some sc\<rparr>" w]
    by (auto simp: bindScope_def worker.good_def split: option.splits)
next
  case (hold_source s w r)
  then show ?case using worker.hold_good [of s r w] by (simp add: worker.good_def)
next
  case (hold_hub s w r)
  then show ?case using worker.holdHub_good [of s r w] by (simp add: worker.good_def)
next
  case (init_hub s w n)
  then show ?case using worker.commit_good [of s "(mem s)\<lparr>hubStartNonce := Some (js_val n)\<rparr>" w]
    by (auto simp: initializeHubSigner_def worker.good_def split: option.splits sum.splits)
next
  case (init_source s w c)
  then show ?case
    using worker.commit_good [of s "(mem s)\<lparr>cursor := height c, sourceCheckpoints := [c]\<rparr>" w] initialized_inv [of "mem s" c]
    by (auto simp: initializeSource_def worker.good_def split: sum.splits)
next
  case (scan_range new s w lo c now)
  then have "data_inv (mem s)" by (simp add: worker.good_def)
  then show ?case using scan_range source_range_inv [of "mem s" lo c new now]
    unfolding commitSourceRange_def by (intro worker.committing_good) auto
next
  case (rewind s w c now)
  then have inv: "data_inv (mem s)" by (simp add: worker.good_def)
  have "worker.good (snd (bindS (commit w (rewound c now (mem s)) s)
      (\<lambda>_ s'. (Inr (length (affected_jobs c (mem s))), s'))))"
    if "c \<in> set (sourceCheckpoints (mem s))" "\<not> list_ex relayed (affected_jobs c (mem s))"
    using worker.commit_good [OF rewind rewound_inv [OF inv that, of now], of w] by simp
  then show ?case using worker.hold_good [of s _ w] rewind inv
    by (auto simp: rewindUnsignedSource_def split: sum.splits)
next
  case (reserve_relay s w r now)
  then have "data_inv (mem s)" by (simp add: worker.good_def)
  then show ?case using reserve_relay reserve_inv [of "mem s" r now]
    unfolding reserveRelay_def by (intro worker.committing_good) auto
next
  case (finish_relay s w h rc now)
  then have "data_inv (mem s)" by (simp add: worker.good_def)
  then show ?case using finish_relay finish_inv [of "mem s" h rc now]
    unfolding finishRelay_def by (intro worker.committing_good) auto
next
  case (attest s tx w now)
  then have inv: "data_inv (mem s)" by (simp add: worker.good_def)
  from attest show ?case using data_inv_job [OF inv, of tx]
    by (intro update_job_good [OF attest(2)])
      (auto simp: patch_defs job_in_def job_ok_def phase_ok_def owns_relay_def)
next
  case (skip s tx w q obs now)
  then have inv: "data_inv (mem s)" by (simp add: worker.good_def)
  from skip have "\<nexists>r. relay (mem s) = Some r \<and> sourceTxHash r = tx"
    using inv by (auto simp: job_in_def data_inv_def relay_consistent_def split: option.splits)
  then show ?case using skip data_inv_job [OF inv, of tx]
    by (intro update_job_good [OF skip(2)]) (auto simp: patch_defs job_in_def job_ok_def phase_ok_def)
next
  case (broadcast_failed s w tx e now)
  then have inv: "data_inv (mem s)" by (simp add: worker.good_def)
  show ?case using data_inv_job [OF inv, of tx]
    by (intro update_job_good [OF broadcast_failed]) (auto simp: patch_defs job_ok_def phase_ok_def owns_relay_def
        split: job_state.splits option.splits)
next
  case (relay_pending s r tx w now)
  then have inv: "data_inv (mem s)" by (simp add: worker.good_def)
  from relay_pending show ?case using data_inv_job [OF inv, of tx] inv
    by (intro update_job_good [OF relay_pending(3)])
      (auto simp: patch_defs job_ok_def phase_ok_def owns_relay_def data_inv_def relay_consistent_def split: option.splits)
next
  case (retry s w tx n e now)
  then have inv: "data_inv (mem s)" by (simp add: worker.good_def)
  show ?case using data_inv_job [OF inv, of tx]
    by (intro update_job_good [OF retry]) (auto simp: patch_defs job_ok_def phase_ok_def owns_relay_def
        split: job_state.splits option.splits)
next
  case (give_up s tx w n e now)
  then have inv: "data_inv (mem s)" by (simp add: worker.good_def)
  from give_up show ?case using data_inv_job [OF inv, of tx]
    by (intro update_job_good [OF give_up(2)])
      (auto simp: patch_defs job_in_def job_ok_def phase_ok_def owns_relay_def)
qed

lemma reachable_good: "reachable s \<Longrightarrow> worker.good s"
proof (induction rule: reachable.induct)
  case start
  then show ?case using worker.start_good by (simp add: initial_store_def)
next
  case (step s s')
  then show ?case by (blast intro: worker_step_good)
qed

subsection \<open>A run\<close>

definition run_job :: job where
  "run_job = \<lparr>txHash = ''0x1'', blockNumber = 5, blockHash = Some ''0xb'', transactionIndex = Some 2, action = 0,
     eventName = ''MarkIssued'', logCount = 1, state = Discovered, attempts = 0, lastError = None, ascTxHash = None,
     queryId = None, discoveredAt = 0, updatedAt = 0, skipObservation = None, relayHistory = []\<rparr>"

definition run_relay :: relay_envelope where
  "run_relay = \<lparr>sourceTxHash = ''0x1'', r_queryId = ''0xq'', r_hash = ''0xh'', r_raw = ''0xr'', r_nonce = 0,
     r_chainId = 102031, r_to = ''0xa'', r_signer = ''0xs'', r_data = ''0xd''\<rparr>"

definition run_anchor :: source_checkpoint where
  "run_anchor = \<lparr>height = 4, cp_hash = ''0xc''\<rparr>"

definition run_end :: source_checkpoint where
  "run_end = \<lparr>height = 6, cp_hash = ''0xe''\<rparr>"

definition run_scanned :: store where
  "run_scanned = snd (commitSourceRange Written 5 run_end [run_job] 7
     (snd (initializeSource Written run_anchor initial_store)))"

definition run_reserved :: store where
  "run_reserved = snd (reserveRelay RenamedNotSynced run_relay 8 run_scanned)"

lemmas run_defs = initial_store_def empty_data_def initializeSource_def assertSourceReady_def assertHubReady_def
  commitSourceRange_def committing_def source_range_def coordinates_ok_def trim_checkpoints_def is_safe_def max_safe_def
  run_job_def run_anchor_def run_end_def run_relay_def reserveRelay_def reserve_def reload_def relay_consistent_def

lemma run_initialized_eq: "snd (initializeSource Written run_anchor initial_store) =
    (let d = empty_data\<lparr>cursor := 4, sourceCheckpoints := [run_anchor]\<rparr> in \<lparr>mem = d, disk = Some d\<rparr>)"
  by (simp add: run_defs Let_def)

lemma run_scanned_eq: "run_scanned =
    (let d = empty_data\<lparr>cursor := 6, sourceCheckpoints := [run_anchor, run_end],
       jobs := [(''0x1'', run_job\<lparr>discoveredAt := 7, updatedAt := 7\<rparr>)]\<rparr> in \<lparr>mem = d, disk = Some d\<rparr>)"
  unfolding run_scanned_def run_initialized_eq by (simp add: run_defs Let_def)

lemma run_reserved_eq: "run_reserved =
    (let d = empty_data\<lparr>cursor := 6, sourceCheckpoints := [run_anchor, run_end], relay := Some run_relay,
       jobs := [(''0x1'', run_job\<lparr>discoveredAt := 7, updatedAt := 8, state := Submitted, ascTxHash := Some ''0xh'',
         queryId := Some ''0xq''\<rparr>)]\<rparr> in \<lparr>mem = d, disk = Some d\<rparr>)"
  unfolding run_reserved_def run_scanned_eq by (simp add: run_defs Let_def)

lemma run_scanned_reachable: "reachable run_scanned"
proof -
  have "reachable (snd (initializeSource Written run_anchor initial_store))"
    by (rule reachable.step [OF reachable.start worker_step.init_source])
  then show ?thesis unfolding run_scanned_def
    by (rule reachable.step, intro worker_step.scan_range) (simp_all add: run_initialized_eq fresh_job_def run_job_def Let_def)
qed

lemma run_reserved_reachable: "reachable run_reserved"
  unfolding run_reserved_def by (rule reachable.step [OF run_scanned_reachable worker_step.reserve_relay])

subsection \<open>Properties\<close>

text \<open>
  C14: crash safety. In every state the worker can reach, by any sequence of its operations
  with any clock and any write failing before or after the rename, the file on disk loads and
  gives exactly the data in memory, and that data satisfies the worker's invariant: one entry
  per job, the unresolved relay owned by a submitted job that records its hash and query, the
  last checkpoint at the cursor, and relay evidence on a job exactly where its state says.
\<close>

theorem worker_state_sound:
  assumes "reachable s"
  shows "load (disk s) = Inr (mem s) \<and> data_inv (mem s)"
  using reachable_good [OF assms] by (simp_all add: worker.good_def synced_def)

theorem worker_state_sound_witness:
  "load (disk run_reserved) = Inr (mem run_reserved) \<and> data_inv (mem run_reserved) \<and> relay (mem run_reserved) \<noteq> None"
  using worker_state_sound [OF run_reserved_reachable] by (simp add: run_reserved_eq Let_def)

text \<open>The relay after each operation that is not \<open>finishRelay\<close>.\<close>

lemma mem_commit: "synced s \<Longrightarrow> mem (snd (commit w d s)) = mem s \<or> mem (snd (commit w d s)) = d"
  by (cases w) (auto simp: synced_def reload_def bindE_Inr_iff split: sum.splits)

lemma commit_relay: "synced s \<Longrightarrow> relay d = relay (mem s) \<Longrightarrow> relay (mem (snd (commit w d s))) = relay (mem s)"
  using mem_commit [of s w d] by auto

lemma mem_committing:
  assumes "synced s"
  obtains "mem (snd (committing w f s)) = mem s" | d where "f (mem s) = Inr d" "mem (snd (committing w f s)) = d"
proof (cases "f (mem s)")
  case (Inl e)
  then show ?thesis using that by (simp add: committing_def)
next
  case (Inr d)
  with mem_commit [OF assms, of w d] that show ?thesis by (auto simp: committing_def)
qed

lemma step_relay:
  assumes "synced s"
  shows "relay (mem (snd (bindScope w sc s))) = relay (mem s)"
    and "relay (mem (snd (holdSource w r s :: (store, store_error, 'x) st_res))) = relay (mem s)"
    and "relay (mem (snd (holdHub w r s :: (store, store_error, 'x) st_res))) = relay (mem s)"
    and "relay (mem (snd (initializeHubSigner w n s))) = relay (mem s)"
    and "relay (mem (snd (initializeSource w c s))) = relay (mem s)"
    and "relay (mem (snd (commitSourceRange w lo c new now s))) = relay (mem s)"
    and "relay (mem (snd (rewindUnsignedSource w c now s))) = relay (mem s)"
    and "relay (mem (snd (update_job w tx p now s))) = relay (mem s)"
  using commit_relay [OF assms]
  by (auto simp: bindScope_def holdSource_def holdHub_def initializeHubSigner_def initializeSource_def
      commitSourceRange_def committing_def source_range_def rewindUnsignedSource_def update_job_def rewound_def bindE_Inr_iff
      split: option.splits sum.splits)

text \<open>
  a signed relay is never lost. While a relay is unresolved, no operation of the worker,
  no restart and no failing write removes or replaces it, other than \<open>finishRelay\<close> called with
  that relay's own transaction hash and a final receipt.
\<close>

theorem unresolved_relay_kept:
  assumes "reachable s" "relay (mem s) = Some r" "worker_step s s'"
  shows "relay (mem s') = Some r \<or> (\<exists>w rc now. s' = snd (finishRelay w (r_hash r) rc now s) \<and> relay (mem s') = None)"
proof -
  have sync: "synced s" using reachable_good [OF assms(1)] by (simp add: worker.good_def)
  from assms(3) show ?thesis
  proof cases
    case reopen
    with sync show ?thesis using assms(2) by (simp add: reload_def synced_def)
  next
    case (reserve_relay w r' now)
    with assms(2) show ?thesis
      by (cases rule: mem_committing [OF sync, of w "reserve r' now"])
        (auto simp: reserveRelay_def reserve_def bindE_Inr_iff)
  next
    case (finish_relay w h rc now)
    then show ?thesis
    proof (cases rule: mem_committing [OF sync, of w "finish h rc now"])
      case (2 d)
      from 2(1) have "h = r_hash r" "relay d = None"
        using assms(2) by (auto simp: finish_def bindE_Inr_iff split: option.splits)
      with 2 finish_relay show ?thesis by (auto simp: finishRelay_def)
    qed (simp_all add: finishRelay_def assms(2))
  qed (simp_all add: step_relay [OF sync] assms(2))
qed

theorem unresolved_relay_kept_witness:
  "let s' = snd (update_job RenamedNotSynced ''0x1'' (error_patch ''e'') 9 run_reserved) in
   relay (mem s') = Some run_relay
     \<or> (\<exists>w rc now. s' = snd (finishRelay w (r_hash run_relay) rc now run_reserved) \<and> relay (mem s') = None)"
proof -
  have "relay (mem run_reserved) = Some run_relay" by (simp add: run_reserved_eq Let_def)
  from unresolved_relay_kept [OF run_reserved_reachable this worker_step.broadcast_failed]
  show ?thesis unfolding Let_def .
qed

lemma rewind_facts:
  fixes c :: source_checkpoint
  assumes "reachable s"
  defines "gone \<equiv> affected_jobs c (mem s)"
  shows "fst (rewindUnsignedSource w c now s) = Inr n \<Longrightarrow>
      n = length gone \<and> \<not> list_ex relayed gone
      \<and> (\<forall>k. map_of (jobs (mem (snd (rewindUnsignedSource w c now s)))) k =
          (case map_of (jobs (mem s)) k of Some j \<Rightarrow> if blockNumber j \<le> height c then Some j else None | None \<Rightarrow> None))
      \<and> cursor (mem (snd (rewindUnsignedSource w c now s))) = height c
      \<and> orphanedTxs (last (sourceRewinds (mem (snd (rewindUnsignedSource w c now s))))) = map txHash gone"
    and "list_ex relayed gone \<Longrightarrow>
      (\<exists>e. fst (rewindUnsignedSource w c now s) = Inl e)
      \<and> jobs (mem (snd (rewindUnsignedSource w c now s))) = jobs (mem s)
      \<and> (w = Written \<longrightarrow> assertSourceReady (mem s) = Inr () \<longrightarrow> c \<in> set (sourceCheckpoints (mem s)) \<longrightarrow>
          sourceHold (mem (snd (rewindUnsignedSource w c now s))) = Some ''SOURCE_REORG_TOUCHES_RELAYED_JOB'')"
proof -
  from reachable_good [OF assms(1)] have inv: "data_inv (mem s)" and sync: "synced s"
    by (simp_all add: worker.good_def)
  {
    assume ret: "fst (rewindUnsignedSource w c now s) = Inr n"
    then have ok: "\<not> list_ex relayed gone" "n = length gone"
      and r: "snd (rewindUnsignedSource w c now s) = snd (commit w (rewound c now (mem s)) s)"
      and w: "fst (commit w (rewound c now (mem s)) s) = Inr ()"
      by (auto simp: rewindUnsignedSource_def holdSource_def bindS_def gone_def split: sum.splits if_splits prod.splits)
    from w have "mem (snd (rewindUnsignedSource w c now s)) = rewound c now (mem s)"
      unfolding r by (cases w) (auto simp: bindS_def split: sum.splits prod.splits)
    with ok map_of_rewound [OF inv] show "n = length gone \<and> \<not> list_ex relayed gone
      \<and> (\<forall>k. map_of (jobs (mem (snd (rewindUnsignedSource w c now s)))) k =
          (case map_of (jobs (mem s)) k of Some j \<Rightarrow> if blockNumber j \<le> height c then Some j else None | None \<Rightarrow> None))
      \<and> cursor (mem (snd (rewindUnsignedSource w c now s))) = height c
      \<and> orphanedTxs (last (sourceRewinds (mem (snd (rewindUnsignedSource w c now s))))) = map txHash gone"
      by (simp add: gone_def) (simp add: rewound_def)
  next
    assume rel: "list_ex relayed gone"
    have "jobs (mem (snd (holdSource w r s :: (store, store_error, nat) st_res))) = jobs (mem s)" for r
      using mem_commit [OF sync, of w "(mem s)\<lparr>sourceHold := Some r\<rparr>"] by (auto simp: holdSource_def)
    moreover have "\<exists>e. fst (holdSource w r s :: (store, store_error, nat) st_res) = Inl e" for r
      by (auto simp: holdSource_def bindS_def split: sum.splits prod.splits)
    ultimately show "(\<exists>e. fst (rewindUnsignedSource w c now s) = Inl e)
      \<and> jobs (mem (snd (rewindUnsignedSource w c now s))) = jobs (mem s)
      \<and> (w = Written \<longrightarrow> assertSourceReady (mem s) = Inr () \<longrightarrow> c \<in> set (sourceCheckpoints (mem s)) \<longrightarrow>
          sourceHold (mem (snd (rewindUnsignedSource w c now s))) = Some ''SOURCE_REORG_TOUCHES_RELAYED_JOB'')"
      using rel by (auto simp: rewindUnsignedSource_def gone_def holdSource_def split: sum.splits)
  }
qed

text \<open>
  C15: rewinding after a fork never discards signed work. When \<open>rewindUnsignedSource\<close> returns,
  the count it returns is that of the jobs above the ancestor, none of them had any trace of a
  relay, exactly the jobs at or below the ancestor are left, the cursor is at the ancestor, and
  the orphaned transactions are recorded. When a job above the ancestor does carry such a
  trace, it does not return: it keeps every job and leaves the store on hold.
\<close>

theorem rewind_keeps_relayed:
  assumes "reachable s"
  shows "(case rewindUnsignedSource w c now s of
      (Inr n, s') \<Rightarrow> n = length (affected_jobs c (mem s)) \<and> \<not> list_ex relayed (affected_jobs c (mem s))
        \<and> (\<forall>k. map_of (jobs (mem s')) k = (case map_of (jobs (mem s)) k of
              Some j \<Rightarrow> if blockNumber j \<le> height c then Some j else None | None \<Rightarrow> None))
        \<and> cursor (mem s') = height c
        \<and> orphanedTxs (last (sourceRewinds (mem s'))) = map txHash (affected_jobs c (mem s))
    | (Inl e, s') \<Rightarrow> True)
    \<and> (list_ex relayed (affected_jobs c (mem s)) \<longrightarrow>
      (\<exists>e s'. rewindUnsignedSource w c now s = (Inl e, s') \<and> jobs (mem s') = jobs (mem s)
        \<and> (w = Written \<and> \<not> truthy (sourceHold (mem s)) \<and> c \<in> set (sourceCheckpoints (mem s)) \<longrightarrow>
            sourceHold (mem s') = Some ''SOURCE_REORG_TOUCHES_RELAYED_JOB'')))"
  using rewind_facts [OF assms, where c = c and w = w and now = now]
  by (cases "rewindUnsignedSource w c now s") (auto simp: assertSourceReady_def split: sum.splits)

theorem rewind_keeps_relayed_witness:
  "fst (rewindUnsignedSource Written run_anchor 9 run_scanned) = Inr 1
     \<and> map_of (jobs (mem (snd (rewindUnsignedSource Written run_anchor 9 run_scanned)))) ''0x1'' = None
     \<and> jobs (mem (snd (rewindUnsignedSource Written run_anchor 9 run_reserved))) = jobs (mem run_reserved)"
proof -
  have "fst (rewindUnsignedSource Written run_anchor 9 run_scanned) = Inr 1"
    by (simp add: run_scanned_eq Let_def rewindUnsignedSource_def assertSourceReady_def empty_data_def affected_jobs_def
        run_anchor_def run_job_def relayed_def)
  moreover have "list_ex relayed (affected_jobs run_anchor (mem run_reserved))"
    by (simp add: run_reserved_eq Let_def affected_jobs_def run_anchor_def run_job_def relayed_def empty_data_def)
  ultimately show ?thesis
    using rewind_keeps_relayed [OF run_scanned_reachable, where w = Written and c = run_anchor and now = 9]
      rewind_keeps_relayed [OF run_reserved_reachable, where w = Written and c = run_anchor and now = 9]
    by (auto simp: run_scanned_eq Let_def empty_data_def run_job_def run_anchor_def split: prod.splits sum.splits)
qed

lemma source_range_facts:
  assumes "reachable s" "fst (commitSourceRange w lo c new now s) = Inr ()"
  defines "s' \<equiv> snd (commitSourceRange w lo c new now s)"
  shows "lo = cursor (mem s) + 1" "cursor (mem s') = height c" "cursor (mem s) < height c"
    and "j \<in> set new \<Longrightarrow> \<exists>i. map_of (jobs (mem s')) (txHash j) = Some i \<and> lo \<le> blockNumber j \<and> blockNumber j \<le> height c"
    and "map_of (jobs (mem s)) k = Some i \<Longrightarrow> map_of (jobs (mem s')) k = Some i"
    and "map_of (jobs (mem s')) k = Some i \<Longrightarrow> map_of (jobs (mem s)) k = Some i \<or> k \<in> txHash ` set new"
proof -
  from reachable_good [OF assms(1)] have inv: "data_inv (mem s)" by (simp add: worker.good_def)
  from assms(2) obtain d where d: "source_range lo c new now (mem s) = Inr d" and "fst (commit w d s) = Inr ()"
    and "s' = snd (commit w d s)"
    by (auto simp: commitSourceRange_def committing_def s'_def split: sum.splits)
  then have s': "mem s' = d" by (cases w) (auto simp: bindS_def split: sum.splits prod.splits)
  from d obtain js where m: "merge_jobs lo (height c) now new (jobs (mem s)) = Inr js" "jobs d = js" "cursor d = height c"
    and lo: "lo = cursor (mem s) + 1" "lo \<le> height c"
    by (auto simp: source_range_def bindE_Inr_iff)
  have "distinct (map fst (jobs (mem s)))" using inv by (simp add: data_inv_def)
  note spec = merge_jobs_spec [OF m(1) this]
  show "lo = cursor (mem s) + 1" "cursor (mem s') = height c" "cursor (mem s) < height c"
    using lo m by (simp_all add: s')
  show "map_of (jobs (mem s')) k = Some i" if "map_of (jobs (mem s)) k = Some i"
    using that spec(2) [of k] by (simp add: s' m)
  show "map_of (jobs (mem s)) k = Some i \<or> k \<in> txHash ` set new" if "map_of (jobs (mem s')) k = Some i"
    using that spec(2) [of k] by (auto simp: s' m dest!: find_Some_iff2 split: option.splits)
  show "\<exists>i. map_of (jobs (mem s')) (txHash j) = Some i \<and> lo \<le> blockNumber j \<and> blockNumber j \<le> height c" if "j \<in> set new"
  proof -
    have "List.find (\<lambda>i. txHash i = txHash j) new \<noteq> None" using that by (auto simp: find_None_iff)
    then have "\<exists>i. map_of js (txHash j) = Some i" using spec(2) [of "txHash j"] by (auto split: option.splits)
    with that spec(3) show ?thesis by (auto simp: s' m list_all_iff coordinates_ok_def)
  qed
qed

text \<open>
  a scanned range is recorded completely, exactly once and without moving anything. When
  \<open>commitSourceRange\<close> returns, the range began right after the cursor, the cursor is at its
  end, every job of the range has an entry for its transaction at its own block, and every
  earlier entry is unchanged.
\<close>

theorem source_range_complete:
  assumes "reachable s" "commitSourceRange w lo c new now s = (Inr (), s')"
  shows "lo = cursor (mem s) + 1 \<and> cursor (mem s') = height c \<and> cursor (mem s) < height c
    \<and> (\<forall>j \<in> set new. \<exists>i. map_of (jobs (mem s')) (txHash j) = Some i \<and> lo \<le> blockNumber j \<and> blockNumber j \<le> height c)
    \<and> (\<forall>k i. map_of (jobs (mem s)) k = Some i \<longrightarrow> map_of (jobs (mem s')) k = Some i)
    \<and> (\<forall>k i. map_of (jobs (mem s')) k = Some i \<longrightarrow> map_of (jobs (mem s)) k = Some i \<or> k \<in> txHash ` set new)"
  using source_range_facts [OF assms(1), of w lo c new now] assms(2) by simp

theorem source_range_complete_witness:
  "cursor (mem run_scanned) = height run_end \<and> (\<exists>i. map_of (jobs (mem run_scanned)) ''0x1'' = Some i)"
proof -
  let ?s = "snd (initializeSource Written run_anchor initial_store)"
  have r: "reachable ?s" by (rule reachable.step [OF reachable.start worker_step.init_source])
  have "commitSourceRange Written 5 run_end [run_job] 7 ?s = (Inr (), run_scanned)"
    unfolding run_scanned_def run_initialized_eq by (simp add: run_defs Let_def)
  from source_range_complete [OF r this] show ?thesis by (simp add: run_job_def)
qed

lemma pending_facts:
  assumes "reachable s"
  shows "distinct (pending (mem s))"
    and "j \<in> set (pending (mem s)) \<longleftrightarrow> map_of (jobs (mem s)) (txHash j) = Some j \<and> state j \<notin> {Done, Skipped, Dead}"
    and "relay (mem s) = Some r \<Longrightarrow> pending (mem s) \<noteq> [] \<and> txHash (hd (pending (mem s))) = sourceTxHash r"
    and "length (jobsReadyForDispatch (mem s) busy room) \<le> room"
    and "j \<in> set (jobsReadyForDispatch (mem s) busy room) \<Longrightarrow> j \<in> set (pending (mem s)) \<and> \<not> busy (txHash j)"
proof -
  from reachable_good [OF assms] have inv: "data_inv (mem s)" by (simp add: worker.good_def)
  have "inj_on snd (set (jobs (mem s)))"
  proof (rule inj_onI)
    fix x y assume xy: "x \<in> set (jobs (mem s))" "y \<in> set (jobs (mem s))" "snd x = snd y"
    have "txHash (snd z) = fst z" if "z \<in> set (jobs (mem s))" for z
      using inv data_inv_job [OF inv, of "fst z" "snd z"] that by (simp add: data_inv_def job_ok_def)
    with xy show "x = y" by (metis prod_eqI)
  qed
  moreover have "distinct (jobs (mem s))" using inv by (auto simp: data_inv_def distinct_map)
  ultimately have "distinct (map snd (jobs (mem s)))" by (simp add: distinct_map)
  then show "distinct (pending (mem s))" by (auto simp: pending_def Let_def)
  show "j \<in> set (pending (mem s)) \<longleftrightarrow> map_of (jobs (mem s)) (txHash j) = Some j \<and> state j \<notin> {Done, Skipped, Dead}"
    using mem_jobs_iff [OF inv, of j] by (auto simp: pending_def Let_def)
  show "pending (mem s) \<noteq> [] \<and> txHash (hd (pending (mem s))) = sourceTxHash r" if r: "relay (mem s) = Some r"
  proof -
    from inv r obtain i where i: "map_of (jobs (mem s)) (sourceTxHash r) = Some i" "state i = Submitted"
      by (auto simp: data_inv_def relay_consistent_def split: option.splits)
    let ?f = "filter (owns_relay (mem s)) (filter (\<lambda>j. state j \<noteq> Done \<and> state j \<noteq> Dead \<and> state j \<noteq> Skipped) (map snd (jobs (mem s))))"
    from i data_inv_job [OF inv i(1)] have "i \<in> set ?f"
      using mem_jobs_iff [OF inv, of i] r by (auto simp: owns_relay_def job_ok_def)
    note ne = in_filter_hd [OF this]
    from ne(2) r have "txHash (hd ?f) = sourceTxHash r" unfolding owns_relay_def by (simp del: filter_filter)
    with ne(1) show ?thesis unfolding pending_def Let_def by (simp add: hd_append del: filter_filter)
  qed
  show "length (jobsReadyForDispatch (mem s) busy room) \<le> room" by (simp add: jobsReadyForDispatch_def)
  show "j \<in> set (jobsReadyForDispatch (mem s) busy room) \<Longrightarrow> j \<in> set (pending (mem s)) \<and> \<not> busy (txHash j)"
    by (auto simp: jobsReadyForDispatch_def dest: in_set_takeD)
qed

text \<open>
  dispatch. The pending list holds exactly the jobs that are not done, skipped or dead,
  each once; the owner of an unresolved relay is its first element, so waiting attestations
  cannot starve it; and what is handed to the pool is never a job already running and never
  more than the pool has room for.
\<close>

theorem pending_dispatch:
  assumes "reachable s"
  shows "distinct (pending (mem s))
    \<and> set (pending (mem s)) = {j. map_of (jobs (mem s)) (txHash j) = Some j \<and> state j \<notin> {Done, Skipped, Dead}}
    \<and> (\<forall>r. relay (mem s) = Some r \<longrightarrow> pending (mem s) \<noteq> [] \<and> txHash (hd (pending (mem s))) = sourceTxHash r)
    \<and> length (jobsReadyForDispatch (mem s) busy room) \<le> room
    \<and> (\<forall>j \<in> set (jobsReadyForDispatch (mem s) busy room). j \<in> set (pending (mem s)) \<and> \<not> busy (txHash j))"
  using pending_facts [OF assms] by blast

theorem pending_dispatch_witness:
  "pending (mem run_reserved) \<noteq> [] \<and> txHash (hd (pending (mem run_reserved))) = ''0x1''
     \<and> length (jobsReadyForDispatch (mem run_reserved) (\<lambda>_. False) 8) \<le> 8"
proof -
  have "relay (mem run_reserved) = Some run_relay" by (simp add: run_reserved_eq Let_def)
  with pending_dispatch [OF run_reserved_reachable, of "\<lambda>_. False" 8]
  show ?thesis by (simp add: run_relay_def)
qed

end
