(* ===== verification/Relay.thy ===== *)
theory Relay
  imports Worker_Props
begin

text \<open>
  The relay sender, \<open>worker/relay.ts\<close>. Every \<open>await\<close> of \<open>RelaySender.step\<close> is a parameter: a
  function from the store at that moment to the outcome of the call and the store when the
  code resumes, so that a guard's own writes and whatever other tasks did in between are
  both covered. \<open>sent\<close> logs each broadcast with the bytes of the file at that moment. The
  observations that \<open>EvmRelayTransport\<close> makes of the hub are functions of the RPC answers.
\<close>

subsection \<open>Results and the sender's state\<close>

datatype relay_error = StoreError store_error | WorkerStopped | RelayBusy | RelayFailed string

datatype query_status = Unprocessed | QueryPending | Confirmed

record query_observation =
  qo_status :: query_status
  qo_blockNumber :: int
  qo_blockHash :: string
  qo_confirmations :: int
  qo_observedAt :: int

type_synonym receipt = "relay_receipt option"

record sender =
  st :: store
  active :: bool
  sent :: "(relay_envelope \<times> store_data option) list"

type_synonym 'a await = "store \<Rightarrow> (store, relay_error, 'a) st_res"

record relay_env =
  stopped1 :: bool
  guardHub :: "unit await"
  stopped2 :: bool
  observe1 :: "query_observation await"
  guardSkip :: "unit await"
  observe2 :: "query_observation await"
  stopped3 :: bool
  guardSign :: "unit await"
  prepare :: "relay_envelope await"
  guardReserve :: "unit await"
  receipt1 :: "relay_envelope \<Rightarrow> receipt await"
  guardBroadcast :: "unit await"
  broadcast :: "relay_envelope \<Rightarrow> unit await"
  receipt2 :: "relay_envelope \<Rightarrow> receipt await"
  guardFinish :: "unit await"
  processed_at :: "string \<Rightarrow> int \<Rightarrow> bool await"
  receipt3 :: "relay_envelope \<Rightarrow> receipt await"
  stopped4 :: bool

record preparation =
  pr_queryId :: string
  pr_data :: string
  pr_gasLimit :: int

text \<open>The clock and the outcome of the one store write of each kind that a step makes.\<close>

record step_io =
  io_now :: int
  io_write :: write_outcome
  io_fail_write :: write_outcome
  io_finish_write :: write_outcome

definition await :: "'a await \<Rightarrow> sender \<Rightarrow> (sender, relay_error, 'a) st_res" where
  "await f S = (case f (st S) of (r, s) \<Rightarrow> (r, S\<lparr>st := s\<rparr>))"

definition on_store :: "(store \<Rightarrow> (store, store_error, 'a) st_res) \<Rightarrow> sender \<Rightarrow> (sender, relay_error, 'a) st_res" where
  "on_store f S = (case f (st S) of (Inl e, s) \<Rightarrow> (Inl (StoreError e), S\<lparr>st := s\<rparr>) | (Inr x, s) \<Rightarrow> (Inr x, S\<lparr>st := s\<rparr>))"

definition throwIfStopped :: "bool \<Rightarrow> sender \<Rightarrow> (sender, relay_error, unit) st_res" where
  "throwIfStopped aborted S = (if aborted then (Inl WorkerStopped, S) else (Inr (), S))"

definition failing :: "relay_error \<Rightarrow> bool \<Rightarrow> sender \<Rightarrow> (sender, relay_error, unit) st_res" where
  "failing e bad S = (if bad then (Inl e, S) else (Inr (), S))"

definition source_ready :: "sender \<Rightarrow> (sender, relay_error, unit) st_res" where
  "source_ready S = on_store (\<lambda>s. (assertSourceReady (mem s), s)) S"

definition hub_ready :: "sender \<Rightarrow> (sender, relay_error, unit) st_res" where
  "hub_ready S = on_store (\<lambda>s. (assertHubReady (mem s), s)) S"

subsection \<open>One step of the sender\<close>

text \<open>The confirmed branch: the query was processed already, so the job is skipped.\<close>

definition skip_processed :: "relay_env \<Rightarrow> step_io \<Rightarrow> string \<Rightarrow> preparation \<Rightarrow> query_observation \<Rightarrow> sender
    \<Rightarrow> (sender, relay_error, unit) st_res" where
  "skip_processed E io tx prep query S =
     bindS (await (guardSkip E) S) (\<lambda>_ S.
     bindS (await (observe2 E) S) (\<lambda>final S.
     if qo_status final \<noteq> Confirmed \<or> qo_blockNumber final \<noteq> qo_blockNumber query \<or> qo_blockHash final \<noteq> qo_blockHash query
     then (Inr (), S)
     else bindS (throwIfStopped (stopped3 E) S) (\<lambda>_ S.
       bindS (source_ready S) (\<lambda>_ S.
       on_store (update_job (io_write io) tx (skipped_patch (pr_queryId prep)
          \<lparr>so_blockNumber = qo_blockNumber final, so_blockHash = qo_blockHash final,
           so_confirmations = qo_confirmations final, so_observedAt = qo_observedAt final\<rparr>) (io_now io)) S))))"

text \<open>Signing and the durable reservation; \<open>None\<close> when the step ends without a relay.\<close>

definition sign_and_reserve :: "relay_env \<Rightarrow> step_io \<Rightarrow> string \<Rightarrow> preparation option \<Rightarrow> sender
    \<Rightarrow> (sender, relay_error, relay_envelope option) st_res" where
  "sign_and_reserve E io tx prep S = (case prep of
     None \<Rightarrow> (Inl (RelayFailed ''RELAY_PREPARATION_REQUIRED''), S)
   | Some p \<Rightarrow>
     bindS (await (guardHub E) S) (\<lambda>_ S.
     bindS (throwIfStopped (stopped2 E) S) (\<lambda>_ S.
     bindS (hub_ready S) (\<lambda>_ S.
     bindS (await (observe1 E) S) (\<lambda>query S.
     case qo_status query of
       QueryPending \<Rightarrow> (Inr None, S)
     | Confirmed \<Rightarrow> bindS (skip_processed E io tx p query S) (\<lambda>_ S. (Inr None, S))
     | Unprocessed \<Rightarrow>
         bindS (await (guardSign E) S) (\<lambda>_ S.
         bindS (await (prepare E) S) (\<lambda>r S.
         bindS (failing (RelayFailed ''RELAY_PREPARATION_CONFLICT'')
           (sourceTxHash r \<noteq> tx \<or> r_queryId r \<noteq> pr_queryId p \<or> r_data r \<noteq> pr_data p) S) (\<lambda>_ S.
         bindS (await (guardReserve E) S) (\<lambda>_ S.
         bindS (on_store (reserveRelay (io_write io) r (io_now io)) S) (\<lambda>_ S.
         (Inr (Some r), S)))))))))))"

text \<open>A failed broadcast is recorded on the job and is not an error of the step.\<close>

definition try_broadcast :: "relay_env \<Rightarrow> step_io \<Rightarrow> string \<Rightarrow> relay_envelope \<Rightarrow> sender
    \<Rightarrow> (sender, relay_error, unit) st_res" where
  "try_broadcast E io tx r S =
     (let S1 = S\<lparr>sent := sent S @ [(r, disk (st S))]\<rparr> in
      case await (broadcast E r) S1 of
        (Inr _, S2) \<Rightarrow> (Inr (), S2)
      | (Inl _, S2) \<Rightarrow> on_store (update_job (io_fail_write io) tx (error_patch ''ASC_BROADCAST_UNCONFIRMED'') (io_now io)) S2)"

definition first_receipt :: "relay_env \<Rightarrow> step_io \<Rightarrow> string \<Rightarrow> relay_envelope \<Rightarrow> sender
    \<Rightarrow> (sender, relay_error, receipt) st_res" where
  "first_receipt E io tx r S =
     bindS (await (receipt1 E r) S) (\<lambda>rc S.
     case rc of
       Some _ \<Rightarrow> (Inr rc, S)
     | None \<Rightarrow>
         bindS (await (guardBroadcast E) S) (\<lambda>_ S.
         bindS (source_ready S) (\<lambda>_ S.
         bindS (try_broadcast E io tx r S) (\<lambda>_ S.
         await (receipt2 E r) S))))"

definition settle :: "relay_env \<Rightarrow> step_io \<Rightarrow> relay_envelope \<Rightarrow> receipt \<Rightarrow> sender \<Rightarrow> (sender, relay_error, unit) st_res" where
  "settle E io r rc S = (case rc of
     None \<Rightarrow> (Inr (), S)
   | Some rc \<Rightarrow>
     bindS (await (guardFinish E) S) (\<lambda>_ S.
     bindS (if rc_status rc = Success then await (processed_at E (r_queryId r) (rc_blockNumber rc)) S else (Inr True, S)) (\<lambda>ok S.
     bindS (failing (RelayFailed ''ASC_QUERY_NOT_CONFIRMED'') (\<not> ok) S) (\<lambda>_ S.
     bindS (await (receipt3 E r) S) (\<lambda>final S.
     if final \<noteq> Some rc then (Inr (), S)
     else bindS (throwIfStopped (stopped4 E) S) (\<lambda>_ S.
       bindS (source_ready S) (\<lambda>_ S. bindS (hub_ready S) (\<lambda>_ S.
       on_store (finishRelay (io_finish_write io) (r_hash r) rc (io_now io)) S))))))))"

definition step_body :: "relay_env \<Rightarrow> step_io \<Rightarrow> string \<Rightarrow> preparation option \<Rightarrow> sender
    \<Rightarrow> (sender, relay_error, unit) st_res" where
  "step_body E io tx prep S =
     bindS (source_ready S) (\<lambda>_ S. bindS (hub_ready S) (\<lambda>_ S.
     bindS (failing (RelayFailed ''RELAY_JOB_NOT_PENDING'') (\<not> job_in (st S) tx {Discovered, Attested, Submitted}) S) (\<lambda>_ S.
     bindS (case relay (mem (st S)) of Some r \<Rightarrow> (Inr (Some r), S) | None \<Rightarrow> sign_and_reserve E io tx prep S) (\<lambda>r S.
     case r of
       None \<Rightarrow> (Inr (), S)
     | Some r \<Rightarrow> bindS (first_receipt E io tx r S) (settle E io r)))))"

definition sender_step :: "relay_env \<Rightarrow> step_io \<Rightarrow> string \<Rightarrow> preparation option \<Rightarrow> sender
    \<Rightarrow> (sender, relay_error, unit) st_res" where
  "sender_step E io tx prep S =
     bindS (throwIfStopped (stopped1 E) S) (\<lambda>_ S.
     if active S \<or> (\<exists>r \<in> set_option (relay (mem (st S))). sourceTxHash r \<noteq> tx)
     then (Inl RelayBusy, S)
     else (case step_body E io tx prep (S\<lparr>active := True\<rparr>) of (res, S') \<Rightarrow> (res, S'\<lparr>active := False\<rparr>)))"

subsection \<open>The signed envelope\<close>

text \<open>What \<open>ethers.Transaction.from(relay.raw)\<close> reads; a parameter of the model.\<close>

record signed_tx =
  tx_signed :: bool
  tx_hash :: string
  tx_nonce :: int
  tx_chainId :: int
  tx_to :: "string option"
  tx_from :: string
  tx_data :: string
  tx_value :: int

definition validateRelay :: "(string \<Rightarrow> signed_tx) \<Rightarrow> relay_envelope \<Rightarrow> int \<Rightarrow> string \<Rightarrow> string \<Rightarrow> relay_error + unit" where
  "validateRelay parse r chain asc_addr signer_addr =
     (let tx = parse (r_raw r) in
      requireE (RelayFailed ''RELAY_SIGNATURE_TARGET_MISMATCH'')
        (tx_signed tx \<and> tx_hash tx = r_hash r \<and> tx_nonce tx = r_nonce r \<and> tx_chainId tx = chain
         \<and> r_chainId r = chain \<and> map_option lower (tx_to tx) = Some (lower asc_addr) \<and> lower (r_to r) = lower asc_addr
         \<and> lower (tx_from tx) = lower signer_addr \<and> lower (r_signer r) = lower signer_addr
         \<and> tx_data tx = r_data r \<and> tx_value tx = 0))"

record populated_tx =
  pt_raw :: string
  pt_nonce :: int
  pt_chainId :: int

definition hub_chain_id :: int where
  "hub_chain_id = 102031"

text \<open>\<open>populateTransaction\<close> and \<open>signTransaction\<close> are the parameter \<open>sign\<close>, with \<open>None\<close> when they throw.\<close>

definition prepare_relay :: "(string \<Rightarrow> signed_tx) \<Rightarrow> (string \<Rightarrow> string) \<Rightarrow> (string \<Rightarrow> string \<Rightarrow> int \<Rightarrow> populated_tx option)
    \<Rightarrow> string \<Rightarrow> string \<Rightarrow> string \<Rightarrow> string \<Rightarrow> string \<Rightarrow> int \<Rightarrow> relay_error + relay_envelope" where
  "prepare_relay parse keccak sign asc_addr wallet tx q dat gas =
     (case sign asc_addr dat gas of
        None \<Rightarrow> Inl (RelayFailed ''signing failed'')
      | Some t \<Rightarrow>
          (let r = \<lparr>sourceTxHash = tx, r_queryId = q, r_hash = keccak (pt_raw t), r_raw = pt_raw t, r_nonce = pt_nonce t,
             r_chainId = pt_chainId t, r_to = asc_addr, r_signer = wallet, r_data = dat\<rparr> in
           bindE (validateRelay parse r hub_chain_id asc_addr wallet) (\<lambda>_. Inr r)))"

subsection \<open>Observing the hub\<close>

record hub_block =
  hb_number :: int
  hb_hash :: "string option"

definition is_hash :: "string option \<Rightarrow> bool" where
  "is_hash h = (case h of None \<Rightarrow> False | Some s \<Rightarrow> is_bytes32 s)"

text \<open>The answers to the reads of one sample, in order.\<close>

record sample_reads =
  sr_block :: "hub_block option"
  sr_value :: "bool option"
  sr_finalHead :: js_num
  sr_again :: "hub_block option"
  sr_now :: int

record sample_result =
  sp_value :: bool
  sp_observation :: query_observation

definition block_at :: "int \<Rightarrow> hub_block option \<Rightarrow> bool" where
  "block_at h b = (case b of None \<Rightarrow> False | Some b \<Rightarrow> hb_number b = h)"

definition sample :: "sample_reads \<Rightarrow> int \<Rightarrow> string option \<Rightarrow> relay_error + sample_result" where
  "sample R h expected =
     (case sr_block R of
        None \<Rightarrow> Inl (RelayFailed ''ASC_QUERY_OBSERVATION_CHANGED'')
      | Some b \<Rightarrow>
        if hb_number b \<noteq> h \<or> \<not> is_hash (hb_hash b) \<or> (expected \<noteq> None \<and> hb_hash b \<noteq> expected)
        then Inl (RelayFailed ''ASC_QUERY_OBSERVATION_CHANGED'')
        else (case sr_value R of
            None \<Rightarrow> Inl (RelayFailed ''ASC_QUERY_OBSERVATION_UNAVAILABLE'')
          | Some v \<Rightarrow>
            if sr_again R \<noteq> Some b \<or> \<not> js_safe (sr_finalHead R) \<or> js_val (sr_finalHead R) < h
            then Inl (RelayFailed ''ASC_QUERY_OBSERVATION_CHANGED'')
            else Inr \<lparr>sp_value = v, sp_observation = \<lparr>qo_status = QueryPending, qo_blockNumber = h,
              qo_blockHash = the (hb_hash b), qo_confirmations = js_val (sr_finalHead R) - h + 1, qo_observedAt = sr_now R\<rparr>\<rparr>))"

text \<open>\<open>expected\<close> binds a recheck to the block of an earlier observation.\<close>

definition observe_again :: "int \<Rightarrow> int \<Rightarrow> sample_reads \<Rightarrow> query_observation \<Rightarrow> relay_error + query_observation" where
  "observe_again depth head R expected =
     bindE (requireE (RelayFailed ''ASC_QUERY_OBSERVATION_UNAVAILABLE'')
       (qo_status expected = Confirmed \<and> is_safe (qo_blockNumber expected) \<and> 0 \<le> qo_blockNumber expected
        \<and> is_bytes32 (qo_blockHash expected))) (\<lambda>_.
     if head - qo_blockNumber expected + 1 < depth then Inr (expected\<lparr>qo_status := QueryPending\<rparr>)
     else bindE (sample R (qo_blockNumber expected) (Some (qo_blockHash expected))) (\<lambda>r.
       Inr ((sp_observation r)\<lparr>qo_status :=
         (if sp_value r \<and> qo_confirmations (sp_observation r) \<ge> depth then Confirmed else QueryPending)\<rparr>)))"

definition observe_first :: "int \<Rightarrow> int \<Rightarrow> sample_reads \<Rightarrow> bool \<Rightarrow> sample_reads \<Rightarrow> relay_error + query_observation" where
  "observe_first depth head R code_empty R' =
     bindE (sample R head None) (\<lambda>latest.
     if \<not> sp_value latest then Inr ((sp_observation latest)\<lparr>qo_status := Unprocessed\<rparr>)
     else let h = head - depth + 1 in
       if h < 0 \<or> code_empty then Inr ((sp_observation latest)\<lparr>qo_status := QueryPending\<rparr>)
       else bindE (if h = head then Inr latest else sample R' h None) (\<lambda>stable.
         Inr ((sp_observation stable)\<lparr>qo_status :=
           (if sp_value stable \<and> qo_confirmations (sp_observation stable) \<ge> depth then Confirmed else QueryPending)\<rparr>)))"

definition observeProcessed :: "int \<Rightarrow> js_num \<Rightarrow> sample_reads \<Rightarrow> bool \<Rightarrow> sample_reads \<Rightarrow> query_observation option
    \<Rightarrow> relay_error + query_observation" where
  "observeProcessed depth head R code_empty R' expected =
     bindE (requireE (RelayFailed ''ASC_QUERY_OBSERVATION_UNAVAILABLE'') (js_safe head \<and> 0 \<le> js_val head)) (\<lambda>_.
     case expected of
       Some q \<Rightarrow> observe_again depth (js_val head) R q
     | None \<Rightarrow> observe_first depth (js_val head) R code_empty R')"

record chain_receipt =
  cr_hash :: string
  cr_from :: string
  cr_to :: "string option"
  cr_status :: "int option"
  cr_blockNumber :: int
  cr_blockHash :: string

text \<open>\<open>receipt\<close>: a receipt counts once its block is the canonical one at the required depth, twice read.\<close>

definition relay_receipt_of :: "int \<Rightarrow> relay_envelope \<Rightarrow> chain_receipt option \<Rightarrow> hub_block option \<Rightarrow> js_num \<Rightarrow> hub_block option
    \<Rightarrow> relay_error + receipt" where
  "relay_receipt_of depth r rc block head checked = (case rc of
     None \<Rightarrow> Inr None
   | Some c \<Rightarrow>
     bindE (requireE (RelayFailed ''RELAY_RECEIPT_MISMATCH'')
       (is_safe (cr_blockNumber c) \<and> 0 \<le> cr_blockNumber c \<and> is_bytes32 (cr_blockHash c))) (\<lambda>_.
     let here = Some \<lparr>hb_number = cr_blockNumber c, hb_hash = Some (cr_blockHash c)\<rparr> in
     if \<not> js_safe head \<or> js_val head < cr_blockNumber c \<or> block \<noteq> here
        \<or> js_val head - cr_blockNumber c + 1 < depth
     then Inr None
     else bindE (requireE (RelayFailed ''RELAY_RECEIPT_MISMATCH'')
         (cr_hash c = r_hash r \<and> lower (cr_from c) = lower (r_signer r) \<and> map_option lower (cr_to c) = Some (lower (r_to r))
          \<and> cr_status c \<in> {Some 0, Some 1})) (\<lambda>_.
       if checked \<noteq> here then Inr None
       else Inr (Some \<lparr>rc_status = (if cr_status c = Some 1 then Success else Reverted),
           rc_blockNumber = cr_blockNumber c, rc_blockHash = cr_blockHash c\<rparr>))))"

end
