(* ===== verification/Relay_Props.thy ===== *)
theory Relay_Props
  imports Relay
begin

text \<open>
  What the relay sender guarantees: it broadcasts nothing that the file does not already hold,
  releases a signer nonce only after two agreeing final receipts, never runs twice at once, and
  treats a query as confirmed only at the required depth of one block read twice.
\<close>

subsection \<open>Stepping through the binds\<close>

lemma sent_simps [simp]:
  "sent (snd (await f S)) = sent S" "sent (snd (on_store g S)) = sent S" "sent (snd (throwIfStopped b S)) = sent S"
  "sent (snd (failing e b S)) = sent S" "sent (snd (source_ready S)) = sent S" "sent (snd (hub_ready S)) = sent S"
  by (auto simp: await_def on_store_def throwIfStopped_def failing_def source_ready_def hub_ready_def
      split: prod.splits sum.splits)

lemma sent_bindS: "sent (snd m) = l \<Longrightarrow> (\<And>x s. sent s = l \<Longrightarrow> sent (snd (k x s)) = l) \<Longrightarrow> sent (snd (bindS m k)) = l"
  by (rule bindS_keeps) auto

lemma ready_store [simp]:
  "st (snd (source_ready S)) = st S" "st (snd (hub_ready S)) = st S"
  "st (snd (throwIfStopped b S)) = st S" "st (snd (failing e b S)) = st S"
  by (auto simp: throwIfStopped_def failing_def source_ready_def hub_ready_def on_store_def split: sum.splits)

lemma ready_eq:
  "source_ready S = (Inr u, S') \<Longrightarrow> S' = S" "hub_ready S = (Inr u, S') \<Longrightarrow> S' = S"
  "throwIfStopped b S = (Inr u, S') \<Longrightarrow> S' = S \<and> \<not> b" "failing e b S = (Inr u, S') \<Longrightarrow> S' = S \<and> \<not> b"
  by (auto simp: throwIfStopped_def failing_def source_ready_def hub_ready_def on_store_def split: sum.splits if_splits)

lemma ready_if:
  "source_ready S = (if truthy (sourceHold (mem (st S)))
     then (Inl (StoreError (SourceSafetyError (the (sourceHold (mem (st S)))))), S) else (Inr (), S))"
  "hub_ready S = (if truthy (hubHold (mem (st S)))
     then (Inl (StoreError (HubSafetyError (the (hubHold (mem (st S)))))), S) else (Inr (), S))"
  by (simp_all add: source_ready_def hub_ready_def on_store_def assertSourceReady_def assertHubReady_def)

lemma await_st: "st (snd (await f S)) = snd (f (st S))"
  by (auto simp: await_def split: prod.splits)

lemma on_store_st: "st (snd (on_store g S)) = snd (g (st S))"
  by (auto simp: on_store_def split: prod.splits sum.splits)

lemma await_Inr: "await f S = (Inr x, S') \<Longrightarrow> fst (f (st S)) = Inr x \<and> S' = S\<lparr>st := snd (f (st S))\<rparr>"
  by (auto simp: await_def split: prod.splits)

lemma sent_skip [simp]: "sent (snd (skip_processed E io tx p q S)) = sent S"
  unfolding skip_processed_def by (intro sent_bindS) (auto intro!: sent_bindS)

lemma sent_sign [simp]: "sent (snd (sign_and_reserve E io tx prep S)) = sent S"
  unfolding sign_and_reserve_def by (auto intro!: sent_bindS split: option.splits query_status.splits)

lemma sent_settle [simp]: "sent (snd (settle E io r rc S)) = sent S"
  unfolding settle_def by (auto intro!: sent_bindS split: option.splits)

subsection \<open>Durable before broadcast\<close>

definition durable_relay :: "relay_envelope \<Rightarrow> store \<Rightarrow> bool" where
  "durable_relay r s \<longleftrightarrow> (\<exists>d. disk s = Some d \<and> relay d = Some r)"

lemma synced_durable: "synced s \<Longrightarrow> relay (mem s) = Some r \<Longrightarrow> durable_relay r s"
  by (cases "disk s") (auto simp: synced_def durable_relay_def empty_data_def bindE_Inr_iff
      dest!: arg_cong [where f = relay])

lemma reserve_durable: "reserveRelay w r now s = (Inr u, s') \<Longrightarrow> durable_relay r s'"
  by (auto simp: reserveRelay_def committing_def reserve_def durable_relay_def bindE_Inr_iff
      dest!: worker.commit_Inr split: sum.splits option.splits)

lemma sign_durable:
  assumes "sign_and_reserve E io tx prep S = (Inr (Some r), S')"
  shows "durable_relay r (st S') \<and> sourceTxHash r = tx"
proof -
  from assms obtain S2 where "sourceTxHash r = tx"
    and res: "on_store (reserveRelay (io_write io) r (io_now io)) S2 = (Inr (), S')"
    unfolding sign_and_reserve_def
    by (auto elim!: bindS_Inr_E dest!: ready_eq split: option.splits query_status.splits)
  with res show ?thesis
    by (auto simp: on_store_def dest!: reserve_durable split: prod.splits sum.splits)
qed

text \<open>The same facts in the form of an equation for the result.\<close>

lemma sent_eqs:
  "await f S = (x, S') \<Longrightarrow> sent S' = sent S" "sign_and_reserve E io tx prep S = (y, S') \<Longrightarrow> sent S' = sent S"
  using sent_simps(1) [of f S] sent_sign [of E io tx prep S] by auto

lemma first_receipt_sent:
  assumes "durable_relay r (st S)"
    and "\<And>s. durable_relay r s \<Longrightarrow> durable_relay r (snd (receipt1 E r s))"
    and "\<And>s. durable_relay r s \<Longrightarrow> durable_relay r (snd (guardBroadcast E s))"
  shows "\<exists>new. sent (snd (first_receipt E io tx r S)) = sent S @ new \<and> (\<forall>(r', f) \<in> set new. r' = r \<and> (\<exists>d. f = Some d \<and> relay d = Some r))"
  unfolding first_receipt_def
proof (rule bindS_keeps)
  fix rc S1 assume "await (receipt1 E r) S = (Inr rc, S1)"
  then have S1: "durable_relay r (st S1)" "sent S1 = sent S" using assms by (auto dest!: await_Inr)
  let ?P = "\<lambda>S'. \<exists>new. sent S' = sent S @ new \<and> (\<forall>(r', f) \<in> set new. r' = r \<and> (\<exists>d. f = Some d \<and> relay d = Some r))"
  show "?P (snd (case rc of Some _ \<Rightarrow> (Inr rc, S1) | None \<Rightarrow>
      bindS (await (guardBroadcast E) S1) (\<lambda>_ S. bindS (source_ready S) (\<lambda>_ S.
         bindS (try_broadcast E io tx r S) (\<lambda>_ S. await (receipt2 E r) S)))))"
  proof (cases rc)
    case None
    show ?thesis unfolding None option.case
    proof (rule bindS_keeps)
      fix x S2 assume "await (guardBroadcast E) S1 = (Inr x, S2)"
      then have S2: "durable_relay r (st S2)" "sent S2 = sent S" using assms S1 by (auto dest!: await_Inr)
      show "?P (snd (bindS (source_ready S2) (\<lambda>_ S. bindS (try_broadcast E io tx r S) (\<lambda>_ S. await (receipt2 E r) S))))"
      proof (rule bindS_keeps)
        fix y S3 assume "source_ready S2 = (Inr y, S3)"
        then have [simp]: "S3 = S2" by (rule ready_eq)
        obtain d where d: "disk (st S2) = Some d" "relay d = Some r" using S2(1) by (auto simp: durable_relay_def)
        have t: "sent (snd (try_broadcast E io tx r S2)) = sent S @ [(r, Some d)]"
          using d S2(2) by (auto simp: try_broadcast_def Let_def dest!: sent_eqs split: prod.splits sum.splits)
        show "?P (snd (bindS (try_broadcast E io tx r S3) (\<lambda>_ S. await (receipt2 E r) S)))"
          by (rule bindS_keeps) (use t d(2) in \<open>auto intro!: exI [of _ "[(r, Some d)]"] dest!: arg_cong [where f = snd]\<close>)
      qed (use S2 in simp)
    qed (use S1 in simp)
  qed (use S1 in simp)
qed simp

lemma step_body_cases:
  obtains (refused) e where "step_body E io tx prep S = (Inl e, S)"
  | (run) "step_body E io tx prep S =
      bindS (case relay (mem (st S)) of Some r \<Rightarrow> (Inr (Some r), S) | None \<Rightarrow> sign_and_reserve E io tx prep S) (\<lambda>r S.
        case r of None \<Rightarrow> (Inr (), S) | Some r \<Rightarrow> bindS (first_receipt E io tx r S) (settle E io r))"
proof -
  consider (hold) "truthy (sourceHold (mem (st S)))" | (hub) "\<not> truthy (sourceHold (mem (st S)))" "truthy (hubHold (mem (st S)))"
    | (ok) "\<not> truthy (sourceHold (mem (st S)))" "\<not> truthy (hubHold (mem (st S)))" by blast
  then show ?thesis
  proof cases
    case ok
    then show ?thesis
      by (cases "job_in (st S) tx {Discovered, Attested, Submitted}")
        (auto simp: step_body_def ready_if failing_def intro: refused run)
  qed (auto simp: step_body_def ready_if intro: refused)
qed

text \<open>
  C16: nothing is broadcast that the file does not already hold. Whatever the hub answers and
  whenever it fails, each transaction a step of the sender broadcasts is, at that moment, the
  unresolved relay of the state file on disk, and belongs to the job of the step; the only
  thing asked of the calls in between is that they do not overwrite that record.
\<close>

theorem broadcast_is_durable:
  assumes "synced (st S)"
    and "\<And>r s. durable_relay r s \<Longrightarrow> durable_relay r (snd (receipt1 E r s))"
    and "\<And>r s. durable_relay r s \<Longrightarrow> durable_relay r (snd (guardBroadcast E s))"
  shows "\<exists>new. sent (snd (sender_step E io tx prep S)) = sent S @ new
     \<and> (\<forall>(r, f) \<in> set new. sourceTxHash r = tx \<and> (\<exists>d. f = Some d \<and> relay d = Some r))"
proof -
  let ?P = "\<lambda>S'. \<exists>new. sent S' = sent S @ new \<and> (\<forall>(r, f) \<in> set new. sourceTxHash r = tx \<and> (\<exists>d. f = Some d \<and> relay d = Some r))"
  have body: "?P (snd (step_body E io tx prep S0))"
    if S0: "st S0 = st S" "sent S0 = sent S" and own: "\<And>r. relay (mem (st S)) = Some r \<Longrightarrow> sourceTxHash r = tx" for S0
  proof (cases rule: step_body_cases [of E io tx prep S0])
    case run
    let ?m = "case relay (mem (st S0)) of Some r \<Rightarrow> (Inr (Some r), S0) | None \<Rightarrow> sign_and_reserve E io tx prep S0"
    show ?thesis unfolding run
    proof (rule bindS_keeps)
      show "?P (snd ?m)" using S0 by (simp split: option.splits)
    next
      fix r S4 assume m: "?m = (Inr r, S4)"
      have sent4: "sent S4 = sent S" using m S0 by (auto dest: sent_eqs split: option.splits)
      show "?P (snd (case r of None \<Rightarrow> (Inr (), S4) | Some r \<Rightarrow> bindS (first_receipt E io tx r S4) (settle E io r)))"
      proof (cases r)
        case (Some r')
        have d: "durable_relay r' (st S4)" "sourceTxHash r' = tx"
          using m Some S0 own synced_durable [OF assms(1)] by (auto dest!: sign_durable split: option.splits)
        from first_receipt_sent [of r' S4 E io tx, OF d(1) assms(2,3)] sent4 d(2)
        have f: "?P (snd (first_receipt E io tx r' S4))" by fastforce
        show ?thesis unfolding Some option.case
          by (rule bindS_keeps) (use f in \<open>auto dest!: arg_cong [where f = snd]\<close>)
      qed (use sent4 in simp)
    qed
  qed (use S0 in simp)
  have "?P (snd (sender_step E io tx prep S))" unfolding sender_step_def
  proof (rule bindS_keeps)
    fix u S1 assume "throwIfStopped (stopped1 E) S = (Inr u, S1)"
    then have [simp]: "S1 = S" by (auto dest: ready_eq)
    show "?P (snd (if active S1 \<or> (\<exists>r \<in> set_option (relay (mem (st S1))). sourceTxHash r \<noteq> tx) then (Inl RelayBusy, S1)
        else (case step_body E io tx prep (S1\<lparr>active := True\<rparr>) of (res, S') \<Rightarrow> (res, S'\<lparr>active := False\<rparr>))))"
    proof (cases "active S \<or> (\<exists>r \<in> set_option (relay (mem (st S))). sourceTxHash r \<noteq> tx)")
      case False
      then show ?thesis using body [of "S\<lparr>active := True\<rparr>"] by (auto split: prod.splits)
    qed simp
  qed simp
  then show ?thesis .
qed

subsection \<open>A concrete run\<close>

definition answering :: "'a \<Rightarrow> 'a await" where
  "answering x s = (Inr x, s)"

definition run_query :: query_observation where
  "run_query = \<lparr>qo_status = Unprocessed, qo_blockNumber = 10, qo_blockHash = ''0xb'', qo_confirmations = 1, qo_observedAt = 9\<rparr>"

definition run_receipt :: relay_receipt where
  "run_receipt = \<lparr>rc_status = Success, rc_blockNumber = 12, rc_blockHash = ''0xc''\<rparr>"

definition run_env :: relay_env where
  "run_env = \<lparr>stopped1 = False, guardHub = answering (), stopped2 = False, observe1 = answering run_query,
     guardSkip = answering (), observe2 = answering run_query, stopped3 = False, guardSign = answering (),
     prepare = answering run_relay, guardReserve = answering (), receipt1 = (\<lambda>_. answering None),
     guardBroadcast = answering (), broadcast = (\<lambda>_. answering ()), receipt2 = (\<lambda>_. answering (Some run_receipt)),
     guardFinish = answering (), processed_at = (\<lambda>_ _. answering True), receipt3 = (\<lambda>_. answering (Some run_receipt)),
     stopped4 = False\<rparr>"

definition run_io :: step_io where
  "run_io = \<lparr>io_now = 9, io_write = Written, io_fail_write = Written, io_finish_write = Written\<rparr>"

definition run_prep :: preparation where
  "run_prep = \<lparr>pr_queryId = ''0xq'', pr_data = ''0xd'', pr_gasLimit = 21000\<rparr>"

definition run_sender :: sender where
  "run_sender = \<lparr>st = run_scanned, active = False, sent = []\<rparr>"

lemmas step_defs = sender_step_def step_body_def sign_and_reserve_def first_receipt_def try_broadcast_def settle_def
  source_ready_def hub_ready_def on_store_def await_def throwIfStopped_def failing_def answering_def

lemmas run_step_defs = run_env_def run_io_def run_prep_def run_query_def run_receipt_def run_sender_def

lemma run_step:
  "fst (sender_step run_env run_io ''0x1'' (Some run_prep) run_sender) = Inr ()"
  "map fst (sent (snd (sender_step run_env run_io ''0x1'' (Some run_prep) run_sender))) = [run_relay]"
  "map_option state (map_of (jobs (mem (st (snd (sender_step run_env run_io ''0x1'' (Some run_prep) run_sender))))) ''0x1'') = Some Done"
  by (simp_all add: step_defs run_step_defs run_scanned_eq Let_def run_defs job_in_def finishRelay_def finish_def
      finished_job_def)

theorem broadcast_is_durable_witness:
  "\<exists>f d. sent (snd (sender_step run_env run_io ''0x1'' (Some run_prep) run_sender)) = [(run_relay, f)]
     \<and> f = Some d \<and> relay d = Some run_relay"
proof -
  have "synced (st run_sender)"
    by (simp add: run_sender_def run_scanned_eq Let_def synced_def relay_consistent_def empty_data_def)
  from broadcast_is_durable [OF this, of run_env run_io "''0x1''" "Some run_prep"]
  have "\<forall>(r, f) \<in> set (sent (snd (sender_step run_env run_io ''0x1'' (Some run_prep) run_sender))).
      \<exists>d. f = Some d \<and> relay d = Some r"
    by (auto simp: run_env_def answering_def run_sender_def)
  with run_step(2) show ?thesis by (auto simp: map_eq_Cons_conv)
qed

subsection \<open>Releasing a nonce\<close>

text \<open>The other tasks of the worker leave a sound store and do not touch the relay: only the sender does.\<close>

definition undisturbed :: "'a await \<Rightarrow> bool" where
  "undisturbed f \<longleftrightarrow> (\<forall>s. worker.good s \<longrightarrow> worker.good (snd (f s)) \<and> relay (mem (snd (f s))) = relay (mem s))"

lemma undisturbedD:
  "undisturbed f \<Longrightarrow> worker.good (st S) \<Longrightarrow> await f S = (x, S') \<Longrightarrow>
     worker.good (st S') \<and> relay (mem (st S')) = relay (mem (st S))"
  using await_st [of f S] by (auto simp: undisturbed_def)

definition holding :: "relay_envelope \<Rightarrow> sender \<Rightarrow> bool" where
  "holding r S \<longleftrightarrow> worker.good (st S) \<and> relay (mem (st S)) = Some r"

lemma holding_await: "undisturbed f \<Longrightarrow> holding r S \<Longrightarrow> await f S = (x, S') \<Longrightarrow> holding r S'"
  by (auto simp: holding_def dest: undisturbedD)

lemma holding_snd: "(\<And>y T. m = (y, T) \<Longrightarrow> holding r T) \<Longrightarrow> holding r (snd m)"
  by (cases m) simp

lemma holding_after: "undisturbed f \<Longrightarrow> holding r S \<Longrightarrow> holding r (snd (await f S))"
  by (rule holding_snd) (rule holding_await)

lemma holding_error_update: "holding r S \<Longrightarrow> holding r (snd (on_store (update_job w tx (error_patch e) now) S))"
  using step_relay(8) [of "st S" w tx "error_patch e" now] worker_step_good [OF worker_step.broadcast_failed, of "st S" w tx e now]
  by (simp add: holding_def on_store_st worker.good_def)

lemma holding_broadcast:
  assumes "undisturbed (broadcast E r)" "holding r S" "try_broadcast E io tx r S = (x, S')"
  shows "holding r S'"
proof -
  let ?S = "S\<lparr>sent := sent S @ [(r, disk (st S))]\<rparr>"
  have h: "holding r ?S" using assms(2) by (simp add: holding_def)
  show ?thesis
  proof (cases "await (broadcast E r) ?S")
    case (Pair y S2)
    with holding_await [OF assms(1) h] have "holding r S2" by blast
    with assms(3) Pair holding_error_update [of r S2] show ?thesis
      by (auto simp: try_broadcast_def Let_def split: sum.splits dest!: arg_cong [where f = snd])
  qed
qed

lemma holding_after_broadcast: "undisturbed (broadcast E r) \<Longrightarrow> holding r S \<Longrightarrow> holding r (snd (try_broadcast E io tx r S))"
  by (rule holding_snd) (rule holding_broadcast)

text \<open>If a chain of binds loses the relay, its first link did not, so a later one did.\<close>

lemma holding_bind:
  assumes "bindS m k = (x, S')" "\<not> holding r S'" "holding r (snd m)"
  obtains y T where "m = (Inr y, T)" "holding r T" "k y T = (x, S')"
  using assms(1)
proof (cases rule: bindS_E)
  case (fail e)
  with assms(2,3) show ?thesis by simp
next
  case (ok y T)
  with assms(3) that show ?thesis by simp
qed

lemma holding_first_receipt:
  assumes "undisturbed (receipt1 E r)" "undisturbed (guardBroadcast E)" "undisturbed (broadcast E r)" "undisturbed (receipt2 E r)"
    and "holding r S" "first_receipt E io tx r S = (x, S')"
  shows "holding r S'"
proof (rule ccontr)
  assume dead: "\<not> holding r S'"
  from holding_bind [OF assms(6) [unfolded first_receipt_def] dead holding_after [OF assms(1,5)]]
  obtain rc1 S1 where h1: "holding r S1" and k1: "(case rc1 of Some _ \<Rightarrow> (Inr rc1, S1) | None \<Rightarrow>
         bindS (await (guardBroadcast E) S1) (\<lambda>_ S. bindS (source_ready S) (\<lambda>_ S.
         bindS (try_broadcast E io tx r S) (\<lambda>_ S. await (receipt2 E r) S)))) = (x, S')" by blast
  then have "rc1 = None" using dead by (cases rc1) auto
  with holding_bind [OF k1 [unfolded this option.case] dead holding_after [OF assms(2) h1]]
  obtain S2 where h2: "holding r S2" and k2: "bindS (source_ready S2) (\<lambda>_ S.
         bindS (try_broadcast E io tx r S) (\<lambda>_ S. await (receipt2 E r) S)) = (x, S')" by blast
  then have "bindS (try_broadcast E io tx r S2) (\<lambda>_ S. await (receipt2 E r) S) = (x, S')"
    using dead by (auto simp: ready_if split: if_splits)
  from holding_bind [OF this dead holding_after_broadcast [OF assms(3) h2]] obtain S3 where
    "holding r S3" "await (receipt2 E r) S3 = (x, S')" by blast
  with holding_await [OF assms(4)] dead show False by blast
qed

lemma first_receipt_source:
  assumes "first_receipt E io tx r S = (Inr rc, S')"
  shows "\<exists>s. fst (receipt1 E r s) = Inr rc \<or> fst (receipt2 E r s) = Inr rc"
proof -
  from assms obtain rc1 S1 where r1: "await (receipt1 E r) S = (Inr rc1, S1)"
    and k: "(case rc1 of Some _ \<Rightarrow> (Inr rc1, S1) | None \<Rightarrow>
         bindS (await (guardBroadcast E) S1) (\<lambda>_ S. bindS (source_ready S) (\<lambda>_ S.
         bindS (try_broadcast E io tx r S) (\<lambda>_ S. await (receipt2 E r) S)))) = (Inr rc, S')"
    unfolding first_receipt_def by (rule bindS_Inr_E)
  show ?thesis
  proof (cases rc1)
    case None
    with k obtain S3 where "await (receipt2 E r) S3 = (Inr rc, S')" by (auto elim!: bindS_Inr_E)
    from await_Inr [OF this] show ?thesis by blast
  qed (use k await_Inr [OF r1] in auto)
qed

lemma holding_settle:
  assumes "undisturbed (guardFinish E)" "\<And>n. undisturbed (processed_at E (r_queryId r) n)" "undisturbed (receipt3 E r)"
    and "holding r S" "settle E io r rc S = (x, S')" "\<not> holding r S'"
  shows "\<exists>c s s'. rc = Some c \<and> fst (receipt3 E r s) = Inr (Some c)
     \<and> (rc_status c = Success \<longrightarrow> fst (processed_at E (r_queryId r) (rc_blockNumber c) s') = Inr True)"
proof -
  note dead = assms(6)
  then obtain c where c: "rc = Some c" using assms(4,5) by (cases rc) (auto simp: settle_def)
  let ?tail = "\<lambda>S. bindS (await (receipt3 E r) S) (\<lambda>final S. if final \<noteq> Some c then (Inr (), S)
     else bindS (throwIfStopped (stopped4 E) S) (\<lambda>_ S. bindS (source_ready S) (\<lambda>_ S. bindS (hub_ready S) (\<lambda>_ S.
       on_store (finishRelay (io_finish_write io) (r_hash r) c (io_now io)) S))))"
  let ?p = "\<lambda>S. if rc_status c = Success then await (processed_at E (r_queryId r) (rc_blockNumber c)) S else (Inr True, S)"
  let ?rest = "\<lambda>ok S. bindS (failing (RelayFailed ''ASC_QUERY_NOT_CONFIRMED'') (\<not> ok) S) (\<lambda>_ S. ?tail S)"
  from holding_bind [OF assms(5) [unfolded settle_def c option.case] dead holding_after [OF assms(1,4)]]
  obtain S1 where h1: "holding r S1" and k1: "bindS (?p S1) ?rest = (x, S')" by blast
  have hp: "holding r (snd (?p S1))" using h1 holding_after [OF assms(2) h1] by simp
  from holding_bind [OF k1 dead hp] obtain ok S2 where p: "?p S1 = (Inr ok, S2)" and h2: "holding r S2"
    and k2: "?rest ok S2 = (x, S')" by blast
  with dead have ok: ok by (auto simp: failing_def split: if_splits)
  with k2 have "?tail S2 = (x, S')" by (simp add: failing_def)
  then obtain final S3 where f3: "await (receipt3 E r) S2 = (Inr final, S3)" and h3: "holding r S3"
    and k3: "(if final \<noteq> Some c then (Inr (), S3) else bindS (throwIfStopped (stopped4 E) S3) (\<lambda>_ S.
       bindS (source_ready S) (\<lambda>_ S. bindS (hub_ready S) (\<lambda>_ S.
       on_store (finishRelay (io_finish_write io) (r_hash r) c (io_now io)) S)))) = (x, S')"
    by (rule holding_bind [OF _ dead holding_after [OF assms(3) h2]])
  from k3 have "final \<noteq> Some c \<longrightarrow> S' = S3" by (cases "final = Some c") auto
  with dead h3 await_Inr [OF f3] have "fst (receipt3 E r (st S2)) = Inr (Some c)" by auto
  moreover have "rc_status c = Success \<longrightarrow> fst (processed_at E (r_queryId r) (rc_blockNumber c) (st S1)) = Inr True"
    using p ok by (auto dest!: await_Inr split: if_splits)
  ultimately show ?thesis using c by blast
qed

text \<open>
  C11: a signer nonce is released only on settled evidence. If a relay is unresolved when a
  step begins and resolved when it ends, then a receipt of that relay at final depth was read
  twice in the step with the same status, block and hash, and for a success the query itself
  was read as processed at that block. Every refusal, disagreement, stop or failed write in
  between leaves the relay, and so the nonce, held.
\<close>

theorem nonce_released_on_receipts:
  assumes "worker.good (st S)" "relay (mem (st S)) = Some r"
    and "undisturbed (receipt1 E r)" "undisturbed (guardBroadcast E)" "undisturbed (broadcast E r)" "undisturbed (receipt2 E r)"
    and "undisturbed (guardFinish E)" "\<And>n. undisturbed (processed_at E (r_queryId r) n)" "undisturbed (receipt3 E r)"
    and "relay (mem (st (snd (sender_step E io tx prep S)))) = None"
  shows "\<exists>c s s' s''. (fst (receipt1 E r s) = Inr (Some c) \<or> fst (receipt2 E r s) = Inr (Some c))
     \<and> fst (receipt3 E r s') = Inr (Some c)
     \<and> (rc_status c = Success \<longrightarrow> fst (processed_at E (r_queryId r) (rc_blockNumber c) s'') = Inr True)"
proof -
  let ?S = "S\<lparr>active := True\<rparr>"
  have h: "holding r ?S" using assms(1,2) by (simp add: holding_def)
  have "\<not> holding r (snd (step_body E io tx prep ?S))"
    using assms(2,10) by (auto simp: sender_step_def throwIfStopped_def holding_def split: if_splits prod.splits)
  then obtain x S' where b: "step_body E io tx prep ?S = (x, S')" and dead: "\<not> holding r S'"
    by (cases "step_body E io tx prep ?S") auto
  have k: "bindS (first_receipt E io tx r ?S) (settle E io r) = (x, S')"
    using assms(2) h b dead by (cases rule: step_body_cases [of E io tx prep ?S]) auto
  have "holding r (snd (first_receipt E io tx r ?S))"
    by (rule holding_snd) (rule holding_first_receipt [OF assms(3-6) h])
  from holding_bind [OF k dead this] obtain rc T
    where T: "first_receipt E io tx r ?S = (Inr rc, T)" "holding r T" "settle E io r rc T = (x, S')" by blast
  from holding_settle [OF assms(7-9) T(2,3) dead] first_receipt_source [OF T(1)] show ?thesis by blast
qed

theorem nonce_released_on_receipts_witness:
  "\<exists>c s s' s''. (fst (receipt1 run_env run_relay s) = Inr (Some c) \<or> fst (receipt2 run_env run_relay s) = Inr (Some c))
     \<and> fst (receipt3 run_env run_relay s') = Inr (Some c)
     \<and> (rc_status c = Success \<longrightarrow> fst (processed_at run_env (r_queryId run_relay) (rc_blockNumber c) s'') = Inr True)"
proof -
  let ?S = "\<lparr>st = run_reserved, active = False, sent = []\<rparr>"
  have u: "undisturbed (answering x)" for x :: "'x" by (simp add: undisturbed_def answering_def)
  have good: "worker.good (st ?S)" using reachable_good [OF run_reserved_reachable] by simp
  have rel: "relay (mem (st ?S)) = Some run_relay" by (simp add: run_reserved_eq Let_def)
  have "relay (mem (st (snd (sender_step run_env run_io ''0x1'' None ?S)))) = None"
    by (simp add: step_defs run_step_defs run_reserved_eq Let_def run_defs job_in_def finishRelay_def finish_def)
  from nonce_released_on_receipts [OF good rel _ _ _ _ _ _ _ this] show ?thesis by (simp add: run_env_def u)
qed

text \<open>
  a query is reported as confirmed only at depth. When \<open>observeProcessed\<close> answers
  \<open>confirmed\<close>, one block with a well-formed hash was read twice with the same number and hash,
  the query was read as processed at it, the head was at least the configured number of
  confirmations above it, and a recheck answers for the block of the first observation.
\<close>

theorem confirmed_query_at_depth:
  assumes "observeProcessed depth head R code_empty R' expected = Inr q" "qo_status q = Confirmed"
  shows "\<exists>reads b. reads \<in> {R, R'} \<and> sr_block reads = Some b \<and> sr_again reads = Some b \<and> sr_value reads = Some True
     \<and> hb_number b = qo_blockNumber q \<and> hb_hash b = Some (qo_blockHash q) \<and> is_bytes32 (qo_blockHash q)
     \<and> qo_confirmations q = js_val (sr_finalHead reads) - qo_blockNumber q + 1 \<and> depth \<le> qo_confirmations q
     \<and> (\<forall>e. expected = Some e \<longrightarrow> qo_blockNumber q = qo_blockNumber e \<and> qo_blockHash q = qo_blockHash e)"
proof -
  have sample: "\<exists>b. sr_block T = Some b \<and> sr_again T = Some b \<and> sr_value T = Some (sp_value r) \<and> hb_number b = h
      \<and> hb_hash b = Some (qo_blockHash (sp_observation r)) \<and> is_bytes32 (qo_blockHash (sp_observation r))
      \<and> qo_blockNumber (sp_observation r) = h \<and> qo_confirmations (sp_observation r) = js_val (sr_finalHead T) - h + 1
      \<and> (\<forall>x. ex = Some x \<longrightarrow> qo_blockHash (sp_observation r) = x)"
    if "sample T h ex = Inr r" for T h ex r
    using that by (auto simp: sample_def is_hash_def split: option.splits if_splits)
  show ?thesis
  proof (cases expected)
    case (Some e)
    with assms obtain r where "sample R (qo_blockNumber e) (Some (qo_blockHash e)) = Inr r" "sp_value r"
      "depth \<le> qo_confirmations (sp_observation r)" "q = (sp_observation r)\<lparr>qo_status := Confirmed\<rparr>"
      by (auto simp: observeProcessed_def observe_again_def bindE_Inr_iff split: if_splits)
    with sample [of R "qo_blockNumber e"] Some show ?thesis by (intro exI [of _ R]) fastforce
  next
    case None
    with assms obtain T h r where "T \<in> {R, R'}" "sample T h None = Inr r" "sp_value r"
      "depth \<le> qo_confirmations (sp_observation r)" "q = (sp_observation r)\<lparr>qo_status := Confirmed\<rparr>"
      by (auto simp: observeProcessed_def observe_first_def bindE_Inr_iff Let_def split: if_splits)
    with sample [of T h None] None show ?thesis by (intro exI [of _ T]) fastforce
  qed
qed

definition zero_hash :: string where
  "zero_hash = ''0x'' @ replicate 64 (CHR ''0'')"

lemma zero_hash_bytes32: "is_bytes32 zero_hash"
  by (simp add: is_bytes32_def zero_hash_def hex_digit_def list_all_iff)

definition run_reads :: "int \<Rightarrow> sample_reads" where
  "run_reads h = (let b = \<lparr>hb_number = h, hb_hash = Some zero_hash\<rparr> in
     \<lparr>sr_block = Some b, sr_value = Some True, sr_finalHead = JInt 10, sr_again = Some b, sr_now = 3\<rparr>)"

theorem confirmed_query_at_depth_witness:
  "\<exists>q. observeProcessed 2 (JInt 10) (run_reads 10) False (run_reads 9) None = Inr q \<and> 2 \<le> qo_confirmations q
     \<and> is_bytes32 (qo_blockHash q)"
proof -
  let ?q = "\<lparr>qo_status = Confirmed, qo_blockNumber = 9, qo_blockHash = zero_hash, qo_confirmations = 2, qo_observedAt = 3\<rparr>"
  have run: "observeProcessed 2 (JInt 10) (run_reads 10) False (run_reads 9) None = Inr ?q"
    by (simp add: observeProcessed_def observe_first_def sample_def run_reads_def Let_def is_hash_def zero_hash_bytes32
        is_safe_def max_safe_def)
  from confirmed_query_at_depth [OF this] run show ?thesis by auto
qed

end
