(* ===== verification/Source_Scan.thy ===== *)
theory Source_Scan
  imports Worker_Props
begin

text \<open>
  Scanning the source chain, \<open>worker/source-events.ts\<close> and \<open>worker/source-scan.ts\<close>. Decoding a
  log is \<open>parse\<close>, a parameter that gives the event's name (\<open>None\<close> when \<open>parseLog\<close> throws or
  answers null). Every read of the chain is a field of \<open>source_reads\<close>, separately for each
  moment at which the code asks.
\<close>

subsection \<open>Grouping the events of a range\<close>

definition EVENT_TO_ACTION :: "(string \<times> int) list" where
  "EVENT_TO_ACTION = [(''MarkIssued'', 0), (''KeyedMarkIssued'', 0), (''MarkRevoked'', 1), (''SanctionDenied'', 2),
     (''RosterEpochPublished'', 3), (''IssuerKeyCompromised'', 4), (''SanctionDenialCorrected'', 5)]"

definition WATCHED_EVENTS :: "string list" where
  "WATCHED_EVENTS = map fst EVENT_TO_ACTION"

record source_log =
  l_address :: string
  l_topics :: "string list"
  l_data :: string
  transactionHash :: string
  l_blockNumber :: int
  l_blockHash :: string
  l_index :: int
  l_transactionIndex :: js_num
  removed :: bool

record event_group =
  g_txHash :: string
  g_blockNumber :: int
  g_action :: int
  g_names :: "string list"
  g_logCount :: int

text \<open>The watched event of a log of the source contract, if it is one.\<close>

definition watched :: "(source_log \<Rightarrow> string option) \<Rightarrow> string \<Rightarrow> source_log \<Rightarrow> string option" where
  "watched parse src l = (if lower (l_address l) \<noteq> lower src then None
     else (case parse l of None \<Rightarrow> None | Some n \<Rightarrow> if n \<in> set WATCHED_EVENTS then Some n else None))"

definition add_name :: "string \<Rightarrow> string list \<Rightarrow> string list" where
  "add_name n ns = (if n \<in> set ns then ns else ns @ [n])"

definition add_log :: "source_log \<Rightarrow> string \<Rightarrow> (string \<times> event_group) list \<Rightarrow> string + (string \<times> event_group) list" where
  "add_log l n gs =
     (let g = (case map_of gs (transactionHash l) of
          Some g \<Rightarrow> g
        | None \<Rightarrow> \<lparr>g_txHash = transactionHash l, g_blockNumber = l_blockNumber l,
            g_action = the (map_of EVENT_TO_ACTION n), g_names = [], g_logCount = 0\<rparr>) in
      bindE (requireE ''inconsistent source transaction block'' (g_blockNumber g = l_blockNumber l)) (\<lambda>_.
      Inr (AList.update (transactionHash l) (g\<lparr>g_names := add_name n (g_names g), g_logCount := g_logCount g + 1\<rparr>) gs)))"

fun group_logs :: "(source_log \<Rightarrow> string option) \<Rightarrow> string \<Rightarrow> source_log list \<Rightarrow> (string \<times> event_group) list
    \<Rightarrow> string + (string \<times> event_group) list" where
  "group_logs parse src [] gs = Inr gs"
| "group_logs parse src (l # ls) gs = (case watched parse src l of
     None \<Rightarrow> group_logs parse src ls gs
   | Some n \<Rightarrow> bindE (add_log l n gs) (group_logs parse src ls))"

text \<open>The comparator of the sort: block number, then log index.\<close>

definition log_order :: "source_log \<Rightarrow> int \<times> int" where
  "log_order l = (l_blockNumber l, l_index l)"

definition sort_logs :: "source_log list \<Rightarrow> source_log list" where
  "sort_logs ls = sort_key l_blockNumber (sort_key l_index ls)"

definition join_plus :: "string list \<Rightarrow> string" where
  "join_plus ns = (case ns of [] \<Rightarrow> [] | n # rest \<Rightarrow> n @ concat (map (\<lambda>m. CHR ''+'' # m) rest))"

definition groupSourceEvents :: "(source_log \<Rightarrow> string option) \<Rightarrow> string \<Rightarrow> source_log list \<Rightarrow> string + event_group list" where
  "groupSourceEvents parse src raw =
     bindE (group_logs parse src (sort_logs raw) []) (\<lambda>gs. Inr (map snd gs))"

subsection \<open>Protocol versions\<close>

text \<open>A version read from a contract: \<open>None\<close> when the call throws, otherwise \<open>Number(version)\<close>.\<close>

definition requireAtomicReceipts :: "js_num option \<Rightarrow> string + unit" where
  "requireAtomicReceipts v = (case v of
     None \<Rightarrow> Inl ''ASC does not expose atomic receipt processing v2''
   | Some n \<Rightarrow> requireE ''unsupported ASC transaction processing version'' (n = JInt 2))"

definition requireBothV1 :: "string \<Rightarrow> string \<Rightarrow> js_num option \<Rightarrow> js_num option \<Rightarrow> string + unit" where
  "requireBothV1 missing bad src hub = (case (src, hub) of
     (Some a, Some b) \<Rightarrow> requireE bad (a = JInt 1 \<and> b = JInt 1)
   | _ \<Rightarrow> Inl missing)"

definition requireIssuerKeyProvenance :: "js_num option \<Rightarrow> js_num option \<Rightarrow> string + unit" where
  "requireIssuerKeyProvenance = requireBothV1 ''issuer-key provenance unavailable'' ''unsupported issuer-key provenance''"

definition requireDenialCorrection :: "js_num option \<Rightarrow> js_num option \<Rightarrow> string + unit" where
  "requireDenialCorrection = requireBothV1 ''denial-correction governance unavailable'' ''unsupported denial-correction governance''"

subsection \<open>One scan step\<close>

record src_block =
  sb_number :: js_num
  sb_hash :: "string option"

definition validBlock :: "src_block option \<Rightarrow> int option \<Rightarrow> bool" where
  "validBlock b h = (case b of None \<Rightarrow> False | Some b \<Rightarrow>
     js_safe (sb_number b) \<and> 0 \<le> js_val (sb_number b) \<and> (case h of None \<Rightarrow> True | Some n \<Rightarrow> sb_number b = JInt n)
     \<and> (case sb_hash b of None \<Rightarrow> False | Some x \<Rightarrow> is_bytes32 x))"

definition hash_of :: "src_block option \<Rightarrow> string" where
  "hash_of b = (case b of None \<Rightarrow> [] | Some b \<Rightarrow> (case sb_hash b of None \<Rightarrow> [] | Some x \<Rightarrow> x))"

definition number_of :: "src_block option \<Rightarrow> int" where
  "number_of b = (case b of None \<Rightarrow> 0 | Some b \<Rightarrow> js_val (sb_number b))"

record source_reads =
  rd_head :: js_num
  rd_finalized :: "src_block option"
  rd_anchor :: "src_block option"
  rd_current :: "src_block option"
  rd_walk :: "int \<Rightarrow> src_block option"
  rd_end :: "src_block option"
  rd_logs :: "int \<Rightarrow> int \<Rightarrow> source_log list"
  rd_log_block :: "int \<Rightarrow> src_block option"
  rd_end_again :: "src_block option"
  rd_start_again :: "src_block option"
  rd_final_again :: "src_block option"
  rd_head_again :: js_num

record scan_options =
  op_address :: string
  op_startBlock :: js_num
  op_confirmations :: js_num
  op_chunk :: js_num
  op_beforeRewind :: "store_error option"

record scan_result =
  scanned :: bool
  scan_jobs :: nat
  scan_rewound :: nat

definition settings_ok :: "scan_options \<Rightarrow> bool" where
  "settings_ok opt \<longleftrightarrow> list_all (\<lambda>n. js_safe n \<and> 1 \<le> js_val n) [op_startBlock opt, op_confirmations opt, op_chunk opt]"

definition fail_if :: "store_error \<Rightarrow> bool \<Rightarrow> store \<Rightarrow> (store, store_error, unit) st_res" where
  "fail_if e bad s = (if bad then (Inl e, s) else (Inr (), s))"

text \<open>\<open>blocks\<close> and \<open>locations\<close>, the two maps the loop over the logs builds.\<close>

definition coordinate_ok :: "string \<Rightarrow> int \<Rightarrow> int \<Rightarrow> source_log \<Rightarrow> bool" where
  "coordinate_ok addr lo hi l \<longleftrightarrow> \<not> removed l \<and> lower (l_address l) = lower addr \<and> lo \<le> l_blockNumber l \<and> l_blockNumber l \<le> hi
     \<and> js_safe (l_transactionIndex l) \<and> 0 \<le> js_val (l_transactionIndex l)"

fun check_logs :: "(int \<Rightarrow> src_block option) \<Rightarrow> string \<Rightarrow> int \<Rightarrow> int \<Rightarrow> source_log list
    \<Rightarrow> (int \<times> string) list \<Rightarrow> (string \<times> string \<times> int) list \<Rightarrow> store_error + (string \<times> string \<times> int) list" where
  "check_logs blk addr lo hi [] blocks locs = Inr locs"
| "check_logs blk addr lo hi (l # ls) blocks locs =
     bindE (requireE (SourceSafetyError ''SOURCE_LOG_COORDINATE_MISMATCH'') (coordinate_ok addr lo hi l)) (\<lambda>_.
     bindE (case map_of blocks (l_blockNumber l) of
         Some _ \<Rightarrow> Inr blocks
       | None \<Rightarrow> bindE (requireE (SourceSafetyError ''SOURCE_LOG_BLOCK_UNAVAILABLE'')
             (validBlock (blk (l_blockNumber l)) (Some (l_blockNumber l)))) (\<lambda>_.
           Inr (AList.update (l_blockNumber l) (hash_of (blk (l_blockNumber l))) blocks))) (\<lambda>blocks'.
     bindE (requireE (SourceSafetyError ''SOURCE_LOG_HASH_MISMATCH'') (map_of blocks' (l_blockNumber l) = Some (l_blockHash l))) (\<lambda>_.
     bindE (requireE (SourceSafetyError ''SOURCE_TRANSACTION_COORDINATE_MISMATCH'')
       (case map_of locs (transactionHash l) of None \<Rightarrow> True
        | Some (bh, ti) \<Rightarrow> bh = l_blockHash l \<and> ti = js_val (l_transactionIndex l))) (\<lambda>_.
     check_logs blk addr lo hi ls blocks'
       (AList.update (transactionHash l) (l_blockHash l, js_val (l_transactionIndex l)) locs)))))"

definition job_of_group :: "(string \<times> string \<times> int) list \<Rightarrow> event_group \<Rightarrow> job" where
  "job_of_group locs g = \<lparr>txHash = g_txHash g, blockNumber = g_blockNumber g,
     blockHash = map_option fst (map_of locs (g_txHash g)), transactionIndex = map_option snd (map_of locs (g_txHash g)),
     action = g_action g, eventName = join_plus (g_names g), logCount = g_logCount g, state = Discovered, attempts = 0,
     lastError = None, ascTxHash = None, queryId = None, discoveredAt = 0, updatedAt = 0, skipObservation = None,
     relayHistory = []\<rparr>"

definition ancestor_of :: "source_reads \<Rightarrow> int \<Rightarrow> source_checkpoint list \<Rightarrow> source_checkpoint option" where
  "ancestor_of R safeHead cps = List.find (\<lambda>c. validBlock (rd_walk R (height c)) (Some (height c))
     \<and> hash_of (rd_walk R (height c)) = cp_hash c \<and> number_of (rd_walk R (height c)) \<le> safeHead) (rev cps)"

text \<open>A last checkpoint that is no longer canonical is rewound to the newest one that still is.\<close>

definition rewind_if_forked :: "source_reads \<Rightarrow> scan_options \<Rightarrow> write_outcome \<Rightarrow> int \<Rightarrow> int \<Rightarrow> store
    \<Rightarrow> (store, store_error, nat) st_res" where
  "rewind_if_forked R opt w now safeHead s =
     (let cps = sourceCheckpoints (mem s) in
      if hash_of (rd_current R) = cp_hash (last cps) then (Inr 0, s)
      else (case op_beforeRewind opt of
          Some e \<Rightarrow> (Inl e, s)
        | None \<Rightarrow> (case ancestor_of R safeHead cps of
            None \<Rightarrow> holdSource w ''SOURCE_REORG_BEYOND_VERIFIED_ANCHOR'' s
          | Some c \<Rightarrow> rewindUnsignedSource w c now s)))"

definition range_unchanged :: "source_reads \<Rightarrow> int \<Rightarrow> int \<Rightarrow> source_checkpoint \<Rightarrow> bool" where
  "range_unchanged R confs hi start \<longleftrightarrow>
     validBlock (rd_end_again R) (Some hi) \<and> hash_of (rd_end_again R) = hash_of (rd_end R)
     \<and> validBlock (rd_start_again R) (Some (height start)) \<and> hash_of (rd_start_again R) = cp_hash start
     \<and> validBlock (rd_final_again R) None \<and> js_safe (rd_head_again R)
     \<and> number_of (rd_final_again R) \<le> js_val (rd_head_again R) \<and> hi \<le> number_of (rd_final_again R)
     \<and> hi \<le> js_val (rd_head_again R) - confs"

text \<open>Reading one range of logs and committing it.\<close>

definition range_jobs :: "(source_log \<Rightarrow> string option) \<Rightarrow> source_reads \<Rightarrow> scan_options \<Rightarrow> int \<Rightarrow> int \<Rightarrow> source_checkpoint
    \<Rightarrow> store_error + job list" where
  "range_jobs parse R opt lo hi start =
     bindE (requireE (SourceSafetyError ''SOURCE_RANGE_END_UNAVAILABLE'') (validBlock (rd_end R) (Some hi))) (\<lambda>_.
     bindE (check_logs (rd_log_block R) (op_address opt) lo hi (rd_logs R lo hi) [] []) (\<lambda>locs.
     bindE (requireE (SourceSafetyError ''SOURCE_RANGE_CHANGED_DURING_SCAN'')
       (range_unchanged R (js_val (op_confirmations opt)) hi start)) (\<lambda>_.
     case groupSourceEvents parse (op_address opt) (rd_logs R lo hi) of
       Inl e \<Rightarrow> Inl (PlainError e)
     | Inr gs \<Rightarrow> Inr (map (job_of_group locs) gs))))"

definition scan_range_step :: "(source_log \<Rightarrow> string option) \<Rightarrow> source_reads \<Rightarrow> scan_options \<Rightarrow> write_outcome \<Rightarrow> int \<Rightarrow> int
    \<Rightarrow> nat \<Rightarrow> store \<Rightarrow> (store, store_error, scan_result) st_res" where
  "scan_range_step parse R opt w now safeHead rw s =
     (let lo = cursor (mem s) + 1; hi = min (lo + js_val (op_chunk opt) - 1) safeHead in
      if lo > safeHead then (Inr \<lparr>scanned = False, scan_jobs = 0, scan_rewound = rw\<rparr>, s)
      else (case range_jobs parse R opt lo hi (last (sourceCheckpoints (mem s))) of
          Inl e \<Rightarrow> (Inl e, s)
        | Inr js \<Rightarrow> (case assertHubReady (mem s) of
            Inl e \<Rightarrow> (Inl e, s)
          | Inr _ \<Rightarrow> bindS (commitSourceRange w lo \<lparr>height = hi, cp_hash = hash_of (rd_end R)\<rparr> js now s)
              (\<lambda>_ s. (Inr \<lparr>scanned = True, scan_jobs = length js, scan_rewound = rw\<rparr>, s)))))"

definition scan_checked :: "(source_log \<Rightarrow> string option) \<Rightarrow> source_reads \<Rightarrow> scan_options \<Rightarrow> write_outcome \<Rightarrow> write_outcome
    \<Rightarrow> int \<Rightarrow> int \<Rightarrow> store \<Rightarrow> (store, store_error, scan_result) st_res" where
  "scan_checked parse R opt w2 w3 now safeHead s =
     bindS (fail_if (SourceSafetyError ''SOURCE_CHECKPOINT_CURSOR_MISMATCH'')
       (height (last (sourceCheckpoints (mem s))) \<noteq> cursor (mem s)) s) (\<lambda>_ s.
     bindS (fail_if (SourceSafetyError ''SOURCE_CHECKPOINT_UNAVAILABLE'')
       (\<not> validBlock (rd_current R) (Some (height (last (sourceCheckpoints (mem s)))))) s) (\<lambda>_ s.
     bindS (rewind_if_forked R opt w2 now safeHead s) (\<lambda>rw s.
     scan_range_step parse R opt w3 now safeHead rw s)))"

definition scanSourceStep :: "(source_log \<Rightarrow> string option) \<Rightarrow> source_reads \<Rightarrow> scan_options \<Rightarrow> write_outcome \<Rightarrow> write_outcome
    \<Rightarrow> write_outcome \<Rightarrow> int \<Rightarrow> store \<Rightarrow> (store, store_error, scan_result) st_res" where
  "scanSourceStep parse R opt w1 w2 w3 now s =
     (case assertSourceReady (mem s) of Inl e \<Rightarrow> (Inl e, s) | Inr _ \<Rightarrow>
     (case assertHubReady (mem s) of Inl e \<Rightarrow> (Inl e, s) | Inr _ \<Rightarrow>
     if \<not> settings_ok opt then (Inl (SourceSafetyError ''INVALID_SOURCE_SCAN_SETTINGS''), s)
     else if \<not> js_safe (rd_head R) \<or> \<not> validBlock (rd_finalized R) None \<or> number_of (rd_finalized R) > js_val (rd_head R)
     then (Inl (SourceSafetyError ''SOURCE_FINALITY_UNCONFIRMED''), s)
     else
       let safeHead = min (number_of (rd_finalized R)) (js_val (rd_head R) - js_val (op_confirmations opt));
           anchor_h = js_val (op_startBlock opt) - 1 in
       if sourceCheckpoints (mem s) \<noteq> [] then scan_checked parse R opt w2 w3 now safeHead s
       else if anchor_h > safeHead then (Inr \<lparr>scanned = False, scan_jobs = 0, scan_rewound = 0\<rparr>, s)
       else if \<not> validBlock (rd_anchor R) (Some anchor_h) then (Inl (SourceSafetyError ''SOURCE_ANCHOR_UNAVAILABLE''), s)
       else bindS (initializeSource w1 \<lparr>height = anchor_h, cp_hash = hash_of (rd_anchor R)\<rparr> s) (\<lambda>_ s.
         scan_checked parse R opt w2 w3 now safeHead s)))"

end
