(* ===== verification/Worker_Support.thy ===== *)
theory Worker_Support
  imports Ethers "HOL-Library.Word" Complex_Main
begin

text \<open>
  The worker's small parts: the bounded pool (\<open>worker/pool.ts\<close>), retry with backoff
  (\<open>worker/retry.ts\<close>), the query identity and the transaction index of a Merkle proof
  (\<open>worker/proof.ts\<close>), integer settings (\<open>worker/settings.ts\<close>), the process lease
  (\<open>worker/lease.ts\<close>) and the attestation wait (\<open>worker/attestation.ts\<close>).
\<close>

unbundle bit_operations_syntax

subsection \<open>The pool\<close>

record pool =
  capacity :: nat
  tasks :: "string list"
  accepting :: bool

definition new_pool :: "js_num \<Rightarrow> string + pool" where
  "new_pool c = bindE (requireE ''pool capacity must be a positive safe integer'' (js_safe c \<and> 1 \<le> js_val c)) (\<lambda>_.
     Inr \<lparr>capacity = nat (js_val c), tasks = [], accepting = True\<rparr>)"

definition available :: "pool \<Rightarrow> nat" where
  "available p = (if accepting p then capacity p - length (tasks p) else 0)"

definition tryRun :: "string \<Rightarrow> pool \<Rightarrow> bool \<times> pool" where
  "tryRun jid p =
     (if \<not> accepting p \<or> jid \<in> set (tasks p) \<or> length (tasks p) \<ge> capacity p then (False, p)
      else (True, p\<lparr>tasks := tasks p @ [jid]\<rparr>))"

text \<open>The \<open>finally\<close> of a task, whether its work resolved or was rejected.\<close>

definition task_done :: "string \<Rightarrow> pool \<Rightarrow> pool" where
  "task_done jid p = p\<lparr>tasks := removeAll jid (tasks p)\<rparr>"

definition stop_pool :: "pool \<Rightarrow> pool" where
  "stop_pool p = p\<lparr>accepting := False\<rparr>"

inductive pool_step :: "pool \<Rightarrow> pool \<Rightarrow> bool" where
  "pool_step p (snd (tryRun jid p))"
| "pool_step p (task_done jid p)"
| "pool_step p (stop_pool p)"

definition pool_inv :: "pool \<Rightarrow> bool" where
  "pool_inv p \<longleftrightarrow> distinct (tasks p) \<and> length (tasks p) \<le> capacity p"

lemma pool_step_inv: "pool_step p q \<Longrightarrow> pool_inv p \<Longrightarrow> pool_inv q \<and> capacity q = capacity p"
  by (induction rule: pool_step.induct)
    (auto simp: tryRun_def task_done_def stop_pool_def pool_inv_def distinct_removeAll intro: order_trans [OF length_removeAll_less_eq])

lemma pool_steps_inv: "pool_step\<^sup>*\<^sup>* p q \<Longrightarrow> pool_inv p \<Longrightarrow> pool_inv q \<and> capacity q = capacity p"
  by (induction rule: rtranclp_induct) (auto dest: pool_step_inv)

text \<open>
  the pool runs each job at most once at a time and never more than its capacity. After
  any sequence of reservations, completions and stops from a new pool, its tasks are distinct
  and within the capacity; a reservation succeeds exactly when the pool accepts, the job is
  not running and a place is free, and once the pool has stopped none succeeds.
\<close>

theorem pool_bounded:
  assumes "new_pool c = Inr p0" "pool_step\<^sup>*\<^sup>* p0 p"
  shows "distinct (tasks p) \<and> length (tasks p) + available p \<le> nat (js_val c)
     \<and> (fst (tryRun jid p) \<longleftrightarrow> accepting p \<and> jid \<notin> set (tasks p) \<and> 0 < available p)
     \<and> (\<not> accepting p \<longrightarrow> (\<forall>q. pool_step\<^sup>*\<^sup>* p q \<longrightarrow> \<not> fst (tryRun jid q)))"
proof -
  from assms(1) have p0: "pool_inv p0" "capacity p0 = nat (js_val c)"
    by (auto simp: new_pool_def bindE_Inr_iff pool_inv_def)
  with pool_steps_inv [OF assms(2)] have p: "pool_inv p" "capacity p = nat (js_val c)" by auto
  have "\<not> accepting q" if "pool_step\<^sup>*\<^sup>* p q" "\<not> accepting p" for q
    using that by (induction rule: rtranclp_induct)
      (auto elim!: pool_step.cases simp: tryRun_def task_done_def stop_pool_def)
  with p show ?thesis by (auto simp: pool_inv_def available_def tryRun_def)
qed

theorem pool_bounded_witness:
  "distinct (tasks (snd (tryRun ''0x1'' \<lparr>capacity = 2, tasks = [], accepting = True\<rparr>)))"
proof -
  have "new_pool (JInt 2) = Inr \<lparr>capacity = 2, tasks = [], accepting = True\<rparr>"
    by (simp add: new_pool_def is_safe_def max_safe_def)
  from pool_bounded [OF this r_into_rtranclp [of pool_step, OF pool_step.intros(1)]] show ?thesis by blast
qed

subsection \<open>Retry with backoff\<close>

record backoff =
  baseMs :: nat
  maxMs :: nat
  factor :: nat

text \<open>\<open>jitter\<close> is \<open>Math.random()\<close>; numbers are exact here.\<close>

definition delayFor :: "backoff \<Rightarrow> real \<Rightarrow> nat \<Rightarrow> int" where
  "delayFor b jitter n = \<lfloor>real (min (maxMs b) (baseMs b * factor b ^ n)) * (1 / 2 + jitter * (1 / 2))\<rfloor>"

text \<open>
  The loop of \<open>withRetry\<close> from attempt \<open>i\<close> on. \<open>runs\<close> are the outcomes of the calls,
  \<open>aborted\<close> whether the signal is set at the check of that number; the delay before a retry is
  the one of \<open>delayFor\<close> and has no other effect. With no attempts the loop is not entered and
  \<open>throw last\<close> throws the undefined value.
\<close>

datatype 'e retry_failure = Worker_Stopped | Last_Error 'e | Last_Undefined

fun with_retry :: "nat \<Rightarrow> nat \<Rightarrow> (nat \<Rightarrow> 'e + 'a) \<Rightarrow> (nat \<Rightarrow> bool) \<Rightarrow> ('e retry_failure + 'a) \<times> nat" where
  "with_retry i 0 runs aborted = (Inl Last_Undefined, i)"
| "with_retry i (Suc k) runs aborted =
     (if aborted (3 * i) then (Inl Worker_Stopped, i)
      else if aborted (3 * i + 1) then (Inl Worker_Stopped, i + 1)
      else (case runs i of
          Inr x \<Rightarrow> (Inr x, i + 1)
        | Inl e \<Rightarrow> if k = 0 then (Inl (Last_Error e), i + 1)
            else if aborted (3 * i + 2) then (Inl Worker_Stopped, i + 1)
            else with_retry (i + 1) k runs aborted))"

lemma with_retry_first:
  "runs j = Inr x \<Longrightarrow> i \<le> j \<Longrightarrow> j < i + k \<Longrightarrow> \<forall>m. i \<le> m \<and> m < j \<longrightarrow> (\<exists>e. runs m = Inl e) \<Longrightarrow>
     with_retry i k runs (\<lambda>_. False) = (Inr x, j + 1)"
proof (induction k arbitrary: i)
  case (Suc k)
  show ?case
  proof (cases "i = j")
    case True
    with Suc.prems(1) show ?thesis by simp
  next
    case False
    with Suc.prems obtain e where "runs i = Inl e" "k \<noteq> 0" "i < j" by (cases "k = 0") force+
    with Suc.IH [of "Suc i"] Suc.prems show ?thesis by simp
  qed
qed simp

lemma with_retry_last:
  "0 < k \<Longrightarrow> \<forall>m. i \<le> m \<and> m < i + k \<longrightarrow> (\<exists>e. runs m = Inl e) \<Longrightarrow>
     \<exists>e. runs (i + k - 1) = Inl e \<and> with_retry i k runs (\<lambda>_. False) = (Inl (Last_Error e), i + k)"
proof (induction k arbitrary: i)
  case (Suc k)
  then obtain e where e: "runs i = Inl e" by force
  show ?case
  proof (cases k)
    case 0
    with e show ?thesis by simp
  next
    case (Suc k')
    with Suc.IH [of "Suc i"] Suc.prems(2) e show ?thesis by simp
  qed
qed simp

text \<open>
  C40: retrying is bounded and keeps the first success. Without cancellation, \<open>withRetry\<close>
  returns the result of the first call that succeeds and makes no further one; when every call
  fails it makes exactly the configured number and throws the last error. Every delay in
  between is at least half, rounded down, and at most the whole of the capped exponential.
\<close>

theorem retry_bounded:
  assumes "0 < k" "0 \<le> jitter" "jitter < 1"
  shows "(\<forall>j < k. (\<forall>i < j. \<exists>e. runs i = Inl e) \<longrightarrow> (\<forall>x. runs j = Inr x \<longrightarrow> with_retry 0 k runs (\<lambda>_. False) = (Inr x, j + 1)))
     \<and> ((\<forall>i < k. \<exists>e. runs i = Inl e) \<longrightarrow>
          (\<exists>e. runs (k - 1) = Inl e \<and> with_retry 0 k runs (\<lambda>_. False) = (Inl (Last_Error e), k)))
     \<and> int (min (maxMs b) (baseMs b * factor b ^ n)) div 2 \<le> delayFor b jitter n \<and> delayFor b jitter n \<le> int (min (maxMs b) (baseMs b * factor b ^ n))"
proof -
  let ?m = "min (maxMs b) (baseMs b * factor b ^ n)"
  have "real ?m * (1 / 2 + jitter * (1 / 2)) \<le> real ?m * 1" by (intro mult_left_mono) (use assms in auto)
  then have le: "delayFor b jitter n \<le> int ?m" unfolding delayFor_def by linarith
  have half: "real ?m * (1 / 2) \<le> real ?m * (1 / 2 + jitter * (1 / 2))"
    using assms(2) by (intro mult_left_mono) auto
  have "2 * (int ?m div 2) \<le> int ?m" by simp
  then have "real_of_int (2 * (int ?m div 2)) \<le> real_of_int (int ?m)" by (rule of_int_le_iff [THEN iffD2])
  then have "real_of_int (int ?m div 2) \<le> real ?m * (1 / 2)" by simp
  with half have "int ?m div 2 \<le> delayFor b jitter n" unfolding delayFor_def le_floor_iff by linarith
  then show ?thesis using le with_retry_first [of runs _ _ 0 k] with_retry_last [of k 0 runs] assms(1) by auto
qed

theorem retry_bounded_witness:
  "with_retry 0 5 (\<lambda>i. if i < 2 then Inl ''e'' else Inr i) (\<lambda>_. False) = (Inr 2, 3)"
proof -
  let ?runs = "\<lambda>i. if i < 2 then Inl ''e'' else Inr i"
  have "with_retry 0 5 ?runs (\<lambda>_. False) = (Inr 2, 2 + 1)"
    by (rule retry_bounded [where jitter = 0, THEN conjunct1, rule_format]) simp_all
  then show ?thesis by simp
qed

subsection \<open>Proof identity\<close>

text \<open>The loop runs from the last sibling down to the first; \<open>isLeft\<close> bits only.\<close>

definition txIndexFromProof :: "bool list \<Rightarrow> int" where
  "txIndexFromProof siblings = foldl (\<lambda>idx b. push_bit 1 idx OR (if b then 1 else 0)) 0 (rev siblings)"

text \<open>\<open>zeroPadValue(toBeHex(n), w)\<close> throws for a negative \<open>n\<close> and for one that does not fit.\<close>

definition computeQueryId :: "ethers \<Rightarrow> int \<Rightarrow> int \<Rightarrow> int \<Rightarrow> string + hex" where
  "computeQueryId E chain h idx =
     bindE (requireE ''value out of range'' (0 \<le> chain \<and> chain < 2 ^ 256 \<and> 0 \<le> h \<and> h < 2 ^ 64 \<and> 0 \<le> idx \<and> idx < 2 ^ 256)) (\<lambda>_.
     Inr (e_keccak E [Uint256 chain, Uint64 h, Uint256 idx]))"

text \<open>The index bits of a leaf, lowest level first: a left sibling at a level where the index is odd.\<close>

fun path_bits :: "nat \<Rightarrow> nat \<Rightarrow> bool list" where
  "path_bits 0 n = []"
| "path_bits (Suc d) n = odd n # path_bits d (n div 2)"

lemma push_or_bit: "push_bit 1 idx OR (if b then 1 else 0) = 2 * idx + of_bool b" for idx :: int
  by (cases b) (simp_all add: push_bit_eq_mult or_one_eq flip: mult.commute)

lemma txIndex_Cons: "txIndexFromProof (b # bs) = 2 * txIndexFromProof bs + of_bool b"
  using push_or_bit by (simp add: txIndexFromProof_def)

lemma txIndex_path_bits: "txIndexFromProof (path_bits d n) = int (n mod 2 ^ d)"
proof (induction d arbitrary: n)
  case 0
  show ?case by (simp add: txIndexFromProof_def)
next
  case (Suc d)
  have "n mod 2 ^ Suc d = 2 * (n div 2 mod 2 ^ d) + n mod 2"
    by (simp add: mod_mult2_eq [of n 2 "2 ^ d"])
  then show ?case by (simp add: txIndex_Cons Suc.IH mod_2_eq_odd)
qed

text \<open>
  the worker names the query the contract will name. From the left/right bits of the
  Merkle path of transaction \<open>n\<close> in a tree of depth \<open>d\<close>, \<open>txIndexFromProof\<close> recovers \<open>n\<close>; and two
  queries share an identity only if chain, block height and transaction index all agree.
\<close>

theorem query_identity:
  assumes "n < 2 ^ d" "computeQueryId E c h i = Inr q" "computeQueryId E c' h' i' = Inr q"
    and "no_collision E [[Uint256 c, Uint64 h, Uint256 i], [Uint256 c', Uint64 h', Uint256 i']]"
  shows "txIndexFromProof (path_bits d n) = int n \<and> c = c' \<and> h = h' \<and> i = i'"
proof -
  have "map norm_packed [Uint256 c, Uint64 h, Uint256 i] = map norm_packed [Uint256 c', Uint64 h', Uint256 i']"
    using assms(2,3) by (intro no_collisionD [OF assms(4)]) (auto simp: computeQueryId_def bindE_Inr_iff)
  then show ?thesis using assms(1) by (simp add: txIndex_path_bits)
qed

theorem query_identity_witness:
  "txIndexFromProof (path_bits 4 5) = 5 \<and> \<not> (\<exists>q. computeQueryId (toy_ethers (\<lambda>_. [])) 1 7 5 = Inr q
     \<and> computeQueryId (toy_ethers (\<lambda>_. [])) 1 7 6 = Inr q)"
proof -
  have "\<not> (computeQueryId (toy_ethers (\<lambda>_. [])) 1 7 5 = Inr q \<and> computeQueryId (toy_ethers (\<lambda>_. [])) 1 7 6 = Inr q)" for q
    using query_identity [of 5 4 "toy_ethers (\<lambda>_. [])" 1 7 5 q 1 7 6] toy_no_collision by auto
  moreover have "computeQueryId (toy_ethers (\<lambda>_. [])) 1 7 5 = computeQueryId (toy_ethers (\<lambda>_. [])) 1 7 5" ..
  moreover obtain q where "computeQueryId (toy_ethers (\<lambda>_. [])) 1 7 5 = Inr q" by (simp add: computeQueryId_def)
  ultimately show ?thesis using query_identity [of 5 4 "toy_ethers (\<lambda>_. [])" 1 7 5 q 1 7 5] toy_no_collision by auto
qed

subsection \<open>Settings, lease and attestation wait\<close>

text \<open>\<open>Number(raw)\<close> is the parameter \<open>number\<close>.\<close>

definition integerSetting :: "(string \<Rightarrow> js_num) \<Rightarrow> string option \<Rightarrow> js_num \<Rightarrow> int \<Rightarrow> string + int" where
  "integerSetting number raw fallback least =
     (let v = (case raw of None \<Rightarrow> fallback | Some s \<Rightarrow> if s = [] then fallback else number s) in
      bindE (requireE ''must be a safe integer'' (js_safe v \<and> least \<le> js_val v)) (\<lambda>_. Inr (js_val v)))"

text \<open>
  The lock files of the host: \<open>openSync(path, 'wx')\<close> fails if the file exists; the returned
  closure removes it once.
\<close>

definition acquireWorkerLease :: "string \<Rightarrow> bool \<Rightarrow> string set \<Rightarrow> (string set, string, unit) st_res" where
  "acquireWorkerLease path write_ok locks =
     (if path \<in> locks then (Inl ''WORKER_LEASE_UNAVAILABLE'', locks)
      else if \<not> write_ok then (Inl ''WORKER_LEASE_WRITE_FAILED'', locks)
      else (Inr (), insert path locks))"

definition release_lease :: "string \<Rightarrow> bool \<Rightarrow> string set \<Rightarrow> bool \<times> string set" where
  "release_lease path released locks = (if released then (True, locks) else (True, locks - {path}))"

text \<open>
  \<open>waitFor\<close>: one poll per step, \<open>Inl e\<close> a poll whose retries are exhausted. The fuel is the
  number of polls observed; \<open>None\<close> means that the wait is still going on after them.
\<close>

fun waitFor :: "int \<Rightarrow> (string + int) list \<Rightarrow> (string + unit) option" where
  "waitFor h [] = None"
| "waitFor h (Inl e # polls) = (if e = ''WORKER_STOPPED'' then Some (Inl e) else waitFor h polls)"
| "waitFor h (Inr latest # polls) = (if latest \<ge> h then Some (Inr ()) else waitFor h polls)"

definition attested_height_ok :: "js_num option \<Rightarrow> string + int" where
  "attested_height_ok v = (case v of
     None \<Rightarrow> Inl ''ATTESTED_HEIGHT_INVALID''
   | Some n \<Rightarrow> bindE (requireE ''ATTESTED_HEIGHT_INVALID'' (js_safe n \<and> 0 \<le> js_val n)) (\<lambda>_. Inr (js_val n)))"

end
