(* ===== verification/Worker_Loop.thy ===== *)
theory Worker_Loop
  imports Relay_Props Source_Scan Worker_Support
begin

text \<open>
  Processing one job, \<open>worker/worker.ts\<close>: the canonicality check of the source block, the steps
  from discovery through attestation, proof and submission, the policy for failures, and the
  dispatch of pending jobs into the pool. Awaits are parameters as in \<open>Relay\<close>.
\<close>

subsection \<open>Canonical source blocks\<close>

text \<open>\<open>assertCanonicalJob\<close> once its two reads are in; a fork under a job that owns a signature is held.\<close>

definition assertCanonicalJob :: "write_outcome \<Rightarrow> src_block option \<Rightarrow> src_block option \<Rightarrow> bool \<Rightarrow> job \<Rightarrow> sender
    \<Rightarrow> (sender, relay_error, unit) st_res" where
  "assertCanonicalJob w block final aborted j S =
     bindS (source_ready S) (\<lambda>_ S.
     bindS (failing (StoreError (SourceSafetyError ''SOURCE_JOB_MISSING_HASH_COORDINATES''))
       (\<not> truthy (blockHash j) \<or> (case transactionIndex j of None \<Rightarrow> True | Some i \<Rightarrow> \<not> is_safe i)) S) (\<lambda>_ S.
     bindS (failing (StoreError (SourceSafetyError ''SOURCE_JOB_CANONICALITY_UNCONFIRMED''))
       ((case block of None \<Rightarrow> True | Some b \<Rightarrow> \<not> truthy (sb_hash b) \<or> sb_number b \<noteq> JInt (blockNumber j))
        \<or> (case final of None \<Rightarrow> True | Some b \<Rightarrow> \<not> truthy (sb_hash b) \<or> js_val (sb_number b) < blockNumber j)) S) (\<lambda>_ S.
     if Some (hash_of block) \<noteq> blockHash j
     then (if truthy (ascTxHash j) then on_store (holdSource w ''SOURCE_REORG_TOUCHES_RELAYED_JOB'') S
           else (Inl (StoreError (SourceSafetyError ''SOURCE_JOB_NOT_CANONICAL_FINALIZED'')), S))
     else throwIfStopped aborted S)))"

subsection \<open>Processing\<close>

record proof_data =
  pf_chainKey :: int
  pf_headerNumber :: int
  pf_siblings :: "bool list"
  pf_args :: string
  pf_roots :: "nat option"

record process_env =
  pe_canonical :: "job \<Rightarrow> unit await"
  pe_wait :: "int \<Rightarrow> unit await"
  pe_canonical_again :: "job \<Rightarrow> unit await"
  pe_proof :: "string \<Rightarrow> proof_data await"
  pe_estimate :: "string \<Rightarrow> int option await"
  pe_stopping :: bool
  pe_step :: relay_env
  pe_step_io :: step_io
  pe_attest_write :: write_outcome
  pe_now :: int

text \<open>\<open>(est * 135n) / 100n\<close>, or the fallback when the estimation throws.\<close>

definition estimateGas :: "int option \<Rightarrow> nat \<Rightarrow> int" where
  "estimateGas est blocks = (case est of Some g \<Rightarrow> g * 135 div 100 | None \<Rightarrow> 21000 + int blocks * 5000 + 400000)"

text \<open>
  Waiting for the attestation of a discovered job. \<open>update\<close> finds the job gone only if a rewind
  removed it meanwhile.
\<close>

definition attest_if_discovered :: "process_env \<Rightarrow> job \<Rightarrow> sender \<Rightarrow> (sender, relay_error, unit) st_res" where
  "attest_if_discovered E j S = (if state j \<noteq> Discovered then (Inr (), S)
     else bindS (await (pe_wait E (blockNumber j)) S) (\<lambda>_ S.
       bindS (await (pe_canonical_again E j) S) (\<lambda>_ S.
       on_store (update_job (pe_attest_write E) (txHash j) attested_patch (pe_now E)) S)))"

definition submit_proof :: "ethers \<Rightarrow> int \<Rightarrow> process_env \<Rightarrow> job \<Rightarrow> sender \<Rightarrow> (sender, relay_error, unit) st_res" where
  "submit_proof X key E j S =
     bindS (await (pe_proof E (txHash j)) S) (\<lambda>pf S.
     bindS (failing (RelayFailed ''SOURCE_PROOF_COORDINATE_CHANGED'')
       (pf_chainKey pf \<noteq> key \<or> pf_headerNumber pf \<noteq> blockNumber j) S) (\<lambda>_ S.
     bindS (failing (StoreError (SourceSafetyError ''SOURCE_PROOF_TX_INDEX_CHANGED''))
       (Some (txIndexFromProof (pf_siblings pf)) \<noteq> transactionIndex j) S) (\<lambda>_ S.
     case computeQueryId X (pf_chainKey pf) (pf_headerNumber pf) (txIndexFromProof (pf_siblings pf)) of
       Inl e \<Rightarrow> (Inl (RelayFailed e), S)
     | Inr q \<Rightarrow>
       bindS (await (pe_estimate E (pf_args pf)) S) (\<lambda>est S.
       if pe_stopping E then (Inr (), S)
       else sender_step (pe_step E) (pe_step_io E) (txHash j)
         (Some \<lparr>pr_queryId = q, pr_data = pf_args pf,
            pr_gasLimit = estimateGas est (case pf_roots pf of None \<Rightarrow> 1 | Some n \<Rightarrow> n)\<rparr>) S))))"

definition process :: "ethers \<Rightarrow> int \<Rightarrow> process_env \<Rightarrow> job \<Rightarrow> sender \<Rightarrow> (sender, relay_error, unit) st_res" where
  "process X key E j S = (case relay (mem (st S)) of
     Some r \<Rightarrow> if sourceTxHash r = txHash j then sender_step (pe_step E) (pe_step_io E) (txHash j) None S
       else (Inl RelayBusy, S)
   | None \<Rightarrow>
     if state j = Submitted \<or> truthy (ascTxHash j)
     then (Inl (RelayFailed ''LEGACY_SUBMISSION_REQUIRES_RECONCILIATION''), S)
     else bindS (await (pe_canonical E j) S) (\<lambda>_ S.
       bindS (attest_if_discovered E j S) (\<lambda>_ S. submit_proof X key E j S)))"

subsection \<open>The policy for failures\<close>

definition error_message :: "relay_error \<Rightarrow> string" where
  "error_message e = (case e of
     RelayFailed m \<Rightarrow> m
   | WorkerStopped \<Rightarrow> ''WORKER_STOPPED''
   | RelayBusy \<Rightarrow> ''RELAY_NONCE_UNRESOLVED''
   | StoreError (SourceSafetyError m) \<Rightarrow> m
   | StoreError (HubSafetyError m) \<Rightarrow> m
   | StoreError (PlainError m) \<Rightarrow> m
   | StoreError StoreWriteError \<Rightarrow> ''WORKER_STATE_WRITE_FAILED'')"

definition fatal :: "relay_error \<Rightarrow> bool" where
  "fatal e \<longleftrightarrow> e = StoreError StoreWriteError \<or> (\<exists>m. e = StoreError (SourceSafetyError m))"

definition current_attempts :: "string \<Rightarrow> store_data \<Rightarrow> int" where
  "current_attempts tx d = (case map_of (jobs d) tx of None \<Rightarrow> 0 | Some j \<Rightarrow> attempts j)"

text \<open>The \<open>catch\<close> of \<open>processReserved\<close>. \<open>Inl\<close> is rethrown and stops the worker.\<close>

definition on_failure :: "nat \<Rightarrow> bool \<Rightarrow> write_outcome \<Rightarrow> int \<Rightarrow> string \<Rightarrow> relay_error \<Rightarrow> sender
    \<Rightarrow> (sender, relay_error, unit) st_res" where
  "on_failure maxAttempts stopping w now tx e S =
     (if fatal e then (Inl e, S)
      else if stopping \<or> e = RelayBusy then (Inr (), S)
      else if map_option sourceTxHash (relay (mem (st S))) = Some tx
      then on_store (update_job w tx pending_relay_patch now) S
      else let n = current_attempts tx (mem (st S)) + 1 in
        if int maxAttempts \<le> n then on_store (update_job w tx (dead_patch n (error_message e)) now) S
        else on_store (update_job w tx (retry_patch n (error_message e)) now) S)"

definition processReserved :: "ethers \<Rightarrow> int \<Rightarrow> nat \<Rightarrow> process_env \<Rightarrow> bool \<Rightarrow> write_outcome \<Rightarrow> job \<Rightarrow> sender
    \<Rightarrow> (sender, relay_error, unit) st_res" where
  "processReserved X key maxAttempts E stopping w j S = (case process X key E j S of
     (Inr _, S') \<Rightarrow> (Inr (), S')
   | (Inl e, S') \<Rightarrow> on_failure maxAttempts stopping w (pe_now E) (txHash j) e S')"

text \<open>What a dispatched task does first: it rereads the job and drops a finished one.\<close>

definition run_dispatched :: "ethers \<Rightarrow> int \<Rightarrow> nat \<Rightarrow> (job \<Rightarrow> process_env) \<Rightarrow> bool \<Rightarrow> write_outcome \<Rightarrow> string \<Rightarrow> sender
    \<Rightarrow> (sender, relay_error, unit) st_res" where
  "run_dispatched X key maxAttempts E stopping w tx S = (case map_of (jobs (mem (st S))) tx of
     None \<Rightarrow> (Inr (), S)
   | Some j \<Rightarrow> if state j \<in> {Done, Dead, Skipped} \<or> stopping then (Inr (), S)
       else processReserved X key maxAttempts (E j) stopping w j S)"

fun dispatch_all :: "string list \<Rightarrow> pool \<Rightarrow> pool" where
  "dispatch_all [] p = p"
| "dispatch_all (tx # txs) p = dispatch_all txs (snd (tryRun tx p))"

definition schedulePending :: "bool \<Rightarrow> store_data \<Rightarrow> pool \<Rightarrow> pool" where
  "schedulePending stopping d p = (if stopping then p
     else dispatch_all (map txHash (jobsReadyForDispatch d (\<lambda>tx. tx \<in> set (tasks p)) (available p))) p)"

subsection \<open>Preflight\<close>

record preflight_reads =
  pf_sourceChainId :: int
  pf_hubChainId :: int
  pf_expectedKey :: int
  pf_sourceContract :: string

definition preflight_binding :: "preflight_reads \<Rightarrow> int \<Rightarrow> string \<Rightarrow> string \<Rightarrow> string \<Rightarrow> int \<Rightarrow> string + worker_scope" where
  "preflight_binding R key src_addr asc_addr wallet start =
     bindE (requireE ''unsupported worker source/hub chain binding''
       (pf_sourceChainId R = 11155111 \<and> pf_hubChainId R = 102031 \<and> key = 1)) (\<lambda>_.
     bindE (requireE ''ASC expectedChainKey does not match worker config'' (pf_expectedKey R = key)) (\<lambda>_.
     bindE (requireE ''ASC sourceContract does not match worker config'' (lower (pf_sourceContract R) = lower src_addr)) (\<lambda>_.
     Inr \<lparr>sourceChainId = 11155111, hubChainId = 102031, chainKey = key, source = lower src_addr, asc = lower asc_addr,
       signer = lower wallet, startBlock = start\<rparr>)))"

subsection \<open>Lemmas\<close>

lemma update_job_step_relay:
  assumes "synced (st S)"
  shows "relay (mem (st (snd (on_store (update_job w tx p now) S)))) = relay (mem (st S))"
  using step_relay(8) [OF assms] by (simp add: on_store_st)

lemma map_of_update_job:
  assumes "synced s" "map_of (jobs (mem s)) tx = Some j"
  shows "map_of (jobs (mem (snd (update_job w tx p now s)))) tx \<in> {Some j, Some (assign p now j)}"
  using mem_commit [OF assms(1), of w "(mem s)\<lparr>jobs := AList.update tx (assign p now j) (jobs (mem s))\<rparr>"] assms(2)
  by (auto simp: update_job_def update_conv' split: option.splits)

text \<open>
  a failure is counted, kept or fatal, and never loses a signature. After a failed
  attempt on a job, the unresolved relay is the one there was; a job that owns it stays
  submitted with its signature; a job without one is marked dead only if its attempts have
  reached the limit, and otherwise stays in its state; write failures and source-safety errors
  are rethrown without touching the store, and a busy relay costs no attempt.
\<close>

theorem failure_policy:
  assumes "worker.good (st S)" "map_of (jobs (mem (st S))) tx = Some j" "unfinished_job = (state j \<in> {Discovered, Attested})"
    and "on_failure maxAttempts stopping w now tx e S = (res, S')"
  shows "relay (mem (st S')) = relay (mem (st S))
     \<and> (\<exists>j'. map_of (jobs (mem (st S'))) tx = Some j'
          \<and> ascTxHash j' = ascTxHash j \<and> queryId j' = queryId j \<and> relayHistory j' = relayHistory j
          \<and> (unfinished_job \<longrightarrow> state j' = state j \<or> (state j' = Dead \<and> int maxAttempts \<le> attempts j'))
          \<and> (state j = Submitted \<and> map_option sourceTxHash (relay (mem (st S))) = Some tx \<longrightarrow> state j' = Submitted))
     \<and> (fatal e \<longrightarrow> res = Inl e \<and> S' = S) \<and> (e = RelayBusy \<longrightarrow> res = Inr () \<and> S' = S)"
proof -
  have sync: "synced (st S)" using assms(1) by (simp add: worker.good_def)
  have upd: "relay (mem (st T)) = relay (mem (st S)) \<and> map_of (jobs (mem (st T))) tx \<in> {Some j, Some (assign p now j)}"
    if "on_store (update_job w tx p now) S = (r, T)" for p r T
    using that update_job_step_relay [OF sync, of w tx p now] map_of_update_job [OF sync assms(2), of w p now] on_store_st [of "update_job w tx p now" S]
    by auto
  show ?thesis
  proof (cases "fatal e \<or> stopping \<or> e = RelayBusy")
    case True
    with assms(2,4) show ?thesis by (auto simp: on_failure_def fatal_def split: if_splits)
  next
    case False
    then have nf: "\<not> fatal e" "e \<noteq> RelayBusy" by auto
    let ?n = "current_attempts tx (mem (st S)) + 1"
    show ?thesis
    proof (cases "map_option sourceTxHash (relay (mem (st S))) = Some tx")
      case True
      from False True assms(4) have "on_store (update_job w tx pending_relay_patch now) S = (res, S')"
        by (simp add: on_failure_def Let_def del: map_option_eq_Some)
      from upd [OF this] have new: "relay (mem (st S')) = relay (mem (st S))"
        "map_of (jobs (mem (st S'))) tx \<in> {Some j, Some (assign pending_relay_patch now j)}" by blast+
      from True assms(1,2) have "state j = Submitted"
        by (auto simp: worker.good_def data_inv_def relay_consistent_def)
      with new show ?thesis using nf assms(3) by (auto simp: patch_defs)
    next
      case notowner: False
      show ?thesis
      proof (cases "int maxAttempts \<le> ?n")
        case True
        from False notowner True assms(4) have "on_store (update_job w tx (dead_patch ?n (error_message e)) now) S = (res, S')"
          by (simp add: on_failure_def Let_def del: map_option_eq_Some)
        from upd [OF this] have new: "relay (mem (st S')) = relay (mem (st S))"
          "map_of (jobs (mem (st S'))) tx \<in> {Some j, Some (assign (dead_patch ?n (error_message e)) now j)}" by blast+
        from new nf notowner True show ?thesis by (auto simp: patch_defs)
      next
        case less: False
        from False notowner less assms(4) have "on_store (update_job w tx (retry_patch ?n (error_message e)) now) S = (res, S')"
          by (simp add: on_failure_def Let_def del: map_option_eq_Some)
        from upd [OF this] have new: "relay (mem (st S')) = relay (mem (st S))"
          "map_of (jobs (mem (st S'))) tx \<in> {Some j, Some (assign (retry_patch ?n (error_message e)) now j)}" by blast+
        from new nf notowner show ?thesis by (auto simp: patch_defs)
      qed
    qed
  qed
qed

theorem failure_policy_witness:
  "\<exists>j'. map_of (jobs (mem (st (snd (on_failure 8 False Written 9 ''0x1'' (RelayFailed ''rpc'')
        \<lparr>st = run_reserved, active = False, sent = []\<rparr>))))) ''0x1'' = Some j' \<and> state j' = Submitted"
proof -
  let ?S = "\<lparr>st = run_reserved, active = False, sent = []\<rparr> :: sender"
  let ?j = "run_job\<lparr>discoveredAt := 7, updatedAt := 8, state := Submitted, ascTxHash := Some ''0xh'', queryId := Some ''0xq''\<rparr>"
  have good: "worker.good (st ?S)" using reachable_good [OF run_reserved_reachable] by simp
  have j: "map_of (jobs (mem (st ?S))) ''0x1'' = Some ?j" by (simp add: run_reserved_eq Let_def)
  have rel: "map_option sourceTxHash (relay (mem (st ?S))) = Some ''0x1''" by (simp add: run_reserved_eq Let_def run_relay_def)
  obtain res S' where f: "on_failure 8 False Written 9 ''0x1'' (RelayFailed ''rpc'') ?S = (res, S')" by fastforce
  from failure_policy [OF good j refl f] rel show ?thesis unfolding f by auto
qed

end
