(* ===== verification/Recovery.thy ===== *)
theory Recovery
  imports Relay_Props
begin

text \<open>
  Recovery of the hub signer, \<open>worker/recovery.ts\<close>. The hub's answers are a record of
  functions, with a second read of each block. \<open>snap\<close> is the snapshot taken on entry and \<open>s\<close>
  the store once the awaits are over: a hold is written to \<open>s\<close>, and evidence that changed in
  the meantime makes the sample void.
\<close>

record hub_reads =
  hr_blockNumber :: js_num
  hr_receipt :: "string \<Rightarrow> chain_receipt option"
  hr_block :: "int \<Rightarrow> hub_block option"
  hr_block_again :: "int \<Rightarrow> hub_block option"
  hr_processed :: "string \<Rightarrow> int \<Rightarrow> bool option"
  hr_latest :: js_num
  hr_pending :: js_num

text \<open>How a check stops: the store is put on hold, or an error is thrown without one.\<close>

datatype stop = Hold string | Throw string

definition nat_num :: "js_num \<Rightarrow> bool" where
  "nat_num x \<longleftrightarrow> js_safe x \<and> 0 \<le> js_val x"

definition integer :: "int \<Rightarrow> bool" where
  "integer n \<longleftrightarrow> is_safe n \<and> 0 \<le> n"

text \<open>The part of a snapshot that \<open>evidenceIdentity\<close> serialises, its terminal jobs by key.\<close>

definition terminal_job :: "job \<Rightarrow> bool" where
  "terminal_job j \<longleftrightarrow> state j \<in> {Done, Dead, Skipped}"

definition evidence_of :: "job \<Rightarrow> string \<times> job_state \<times> string option \<times> string option \<times> relay_outcome list \<times> skip_observation option" where
  "evidence_of j = (txHash j, state j, ascTxHash j, queryId j, relayHistory j, skipObservation j)"

definition evidenceIdentity :: "store_data \<Rightarrow> int option \<times> string option \<times> relay_envelope option
    \<times> (string \<times> job_state \<times> string option \<times> string option \<times> relay_outcome list \<times> skip_observation option) list" where
  "evidenceIdentity d = (hubStartNonce d, hubHold d, relay d,
     map evidence_of (sort_key txHash (filter terminal_job (map snd (jobs d)))))"

subsection \<open>Reconciliation\<close>

definition has_history :: "job \<Rightarrow> stop + unit" where
  "has_history j =
     (if state j \<in> {Done, Dead}
      then requireE (Hold ''HUB_TERMINAL_HISTORY_REQUIRES_RECONCILIATION'')
        (length (relayHistory j) = 1 \<and> truthy (queryId j) \<and> truthy (ascTxHash j))
      else requireE (Hold ''HUB_TERMINAL_HISTORY_REQUIRES_RECONCILIATION'') (relayHistory j = []))"

definition terminal_pairs :: "store_data \<Rightarrow> (job \<times> relay_outcome) list" where
  "terminal_pairs d = sort_key (\<lambda>p. ro_nonce (snd p))
     (map (\<lambda>j. (j, hd (relayHistory j))) (filter (\<lambda>j. state j \<in> {Done, Dead}) (map snd (jobs d))))"

fun nonces_from :: "int \<Rightarrow> (job \<times> relay_outcome) list \<Rightarrow> stop + unit" where
  "nonces_from n [] = Inr ()"
| "nonces_from n ((j, h) # rest) =
     bindE (requireE (Hold ''HUB_NONCE_HISTORY_REQUIRES_RECONCILIATION'') (integer (ro_nonce h) \<and> ro_nonce h = n)) (\<lambda>_.
     nonces_from (n + 1) rest)"

definition canonical_terminal :: "hub_reads \<Rightarrow> int \<Rightarrow> int \<Rightarrow> string \<Rightarrow> string \<Rightarrow> job \<times> relay_outcome \<Rightarrow> stop + unit" where
  "canonical_terminal H confs head signer_addr asc_addr p = (case p of (j, h) \<Rightarrow>
     (case hr_receipt H (ro_hash h) of
        None \<Rightarrow> Inl (Hold ''HUB_TERMINAL_HISTORY_NOT_CANONICAL'')
      | Some c \<Rightarrow>
        bindE (requireE (Hold ''HUB_TERMINAL_HISTORY_NOT_CANONICAL'')
          (cr_hash c = ro_hash h \<and> lower (cr_from c) = signer_addr \<and> map_option lower (cr_to c) = Some asc_addr
           \<and> cr_status c = Some (if ro_status h = Success then 1 else 0) \<and> cr_blockNumber c = ro_blockNumber h
           \<and> cr_blockHash c = ro_blockHash h \<and> integer (cr_blockNumber c) \<and> is_bytes32 (cr_blockHash c)
           \<and> cr_blockNumber c \<le> head \<and> confs \<le> head - cr_blockNumber c + 1)) (\<lambda>_.
        let here = Some \<lparr>hb_number = cr_blockNumber c, hb_hash = Some (cr_blockHash c)\<rparr> in
        bindE (requireE (Hold ''HUB_TERMINAL_HISTORY_NOT_CANONICAL'') (hr_block H (cr_blockNumber c) = here)) (\<lambda>_.
        bindE (if ro_status h = Success
               then (case hr_processed H (the (queryId j)) (cr_blockNumber c) of
                   None \<Rightarrow> Inl (Throw ''HUB_RECOVERY_OBSERVATION_UNAVAILABLE'')
                 | Some ok \<Rightarrow> requireE (Hold ''HUB_TERMINAL_QUERY_NOT_CANONICAL'') ok)
               else Inr ()) (\<lambda>_.
        requireE (Hold ''HUB_TERMINAL_HISTORY_NOT_CANONICAL'') (hr_block_again H (cr_blockNumber c) = here))))))"

text \<open>\<open>!await hub.processed\<close>: a missing answer counts as false here.\<close>

definition canonical_skip :: "hub_reads \<Rightarrow> int \<Rightarrow> int \<Rightarrow> job \<Rightarrow> stop + unit" where
  "canonical_skip H confs head j =
     (if state j \<noteq> Skipped then Inr ()
      else (case skipObservation j of
         None \<Rightarrow> Inl (Hold ''HUB_SKIP_OBSERVATION_NOT_CANONICAL'')
       | Some ob \<Rightarrow>
         bindE (requireE (Hold ''HUB_SKIP_OBSERVATION_NOT_CANONICAL'')
           (truthy (queryId j) \<and> integer (so_blockNumber ob) \<and> is_bytes32 (so_blockHash ob)
            \<and> so_blockNumber ob \<le> head \<and> confs \<le> head - so_blockNumber ob + 1)) (\<lambda>_.
         let here = Some \<lparr>hb_number = so_blockNumber ob, hb_hash = Some (so_blockHash ob)\<rparr> in
         bindE (requireE (Hold ''HUB_SKIP_OBSERVATION_NOT_CANONICAL'')
           (hr_block H (so_blockNumber ob) = here \<and> hr_processed H (the (queryId j)) (so_blockNumber ob) = Some True)) (\<lambda>_.
         requireE (Hold ''HUB_SKIP_OBSERVATION_NOT_CANONICAL'') (hr_block_again H (so_blockNumber ob) = here)))))"

fun eachE :: "('a \<Rightarrow> 'e + unit) \<Rightarrow> 'a list \<Rightarrow> 'e + unit" where
  "eachE f [] = Inr ()"
| "eachE f (x # xs) = bindE (f x) (\<lambda>_. eachE f xs)"

definition nonce_check :: "store_data \<Rightarrow> int \<Rightarrow> int \<Rightarrow> int \<Rightarrow> stop + unit" where
  "nonce_check snap expected latest pend =
     requireE (Hold ''HUB_SIGNER_NONCE_DIVERGED'')
       (case relay snap of
          Some r \<Rightarrow> r_nonce r = expected \<and> latest \<in> {expected, expected + 1} \<and> pend \<in> {expected, expected + 1}
        | None \<Rightarrow> latest = expected \<and> pend = expected)"

definition reconcile_checks :: "hub_reads \<Rightarrow> js_num \<Rightarrow> store_data \<Rightarrow> store_data \<Rightarrow> stop + unit" where
  "reconcile_checks H confirmations snap later =
     bindE (requireE (Throw ''HUB_RECOVERY_SETTINGS_INVALID'') (js_safe confirmations \<and> 1 \<le> js_val confirmations)) (\<lambda>_.
     case scope snap of
       None \<Rightarrow> Inl (Throw ''HUB_RECOVERY_SCOPE_UNBOUND'')
     | Some sc \<Rightarrow>
     (case hubStartNonce snap of
       None \<Rightarrow> Inl (Hold ''HUB_SIGNER_BASELINE_REQUIRES_RECONCILIATION'')
     | Some baseline \<Rightarrow>
       bindE (requireE (Hold ''HUB_SIGNER_BASELINE_REQUIRES_RECONCILIATION'') (integer baseline)) (\<lambda>_.
       bindE (eachE has_history (map snd (jobs snap))) (\<lambda>_.
       let terminal = terminal_pairs snap in
       bindE (nonces_from baseline terminal) (\<lambda>_.
       bindE (requireE (Throw ''HUB_RECOVERY_OBSERVATION_UNAVAILABLE'') (nat_num (hr_blockNumber H))) (\<lambda>_.
       let head = js_val (hr_blockNumber H); confs = js_val confirmations in
       bindE (eachE (canonical_terminal H confs head (lower (signer sc)) (lower (asc sc))) terminal) (\<lambda>_.
       bindE (eachE (canonical_skip H confs head) (map snd (jobs snap))) (\<lambda>_.
       bindE (requireE (Throw ''HUB_RECOVERY_OBSERVATION_UNAVAILABLE'')
         (nat_num (hr_latest H) \<and> nat_num (hr_pending H) \<and> js_val (hr_latest H) \<le> js_val (hr_pending H))) (\<lambda>_.
       if evidenceIdentity later \<noteq> evidenceIdentity snap then Inr ()
       else nonce_check snap (baseline + int (length terminal)) (js_val (hr_latest H)) (js_val (hr_pending H)))))))))))"

definition stop_with :: "write_outcome \<Rightarrow> stop + unit \<Rightarrow> store \<Rightarrow> (store, store_error, unit) st_res" where
  "stop_with w r s = (case r of
     Inr _ \<Rightarrow> (Inr (), s)
   | Inl (Hold reason) \<Rightarrow> holdHub w reason s
   | Inl (Throw code) \<Rightarrow> (Inl (HubSafetyError code), s))"

definition reconcileHubRecovery :: "write_outcome \<Rightarrow> hub_reads \<Rightarrow> js_num \<Rightarrow> store_data \<Rightarrow> store
    \<Rightarrow> (store, store_error, unit) st_res" where
  "reconcileHubRecovery w H confirmations snap s = (case assertHubReady snap of
     Inl e \<Rightarrow> (Inl e, s)
   | Inr _ \<Rightarrow> stop_with w (reconcile_checks H confirmations snap (mem s)) s)"

subsection \<open>The explicit bootstrap\<close>

definition never_signed :: "store_data \<Rightarrow> bool" where
  "never_signed d \<longleftrightarrow> hubStartNonce d = None \<and> relay d = None
     \<and> (\<forall>j \<in> set (map snd (jobs d)). \<not> truthy (ascTxHash j) \<and> relayHistory j = []
          \<and> state j \<notin> {Submitted, Done, Dead})"

definition initializeHubRecovery :: "write_outcome \<Rightarrow> hub_reads \<Rightarrow> store \<Rightarrow> (store, store_error, unit) st_res" where
  "initializeHubRecovery w H s = (case assertHubReady (mem s) of
     Inl e \<Rightarrow> (Inl e, s)
   | Inr _ \<Rightarrow>
     if scope (mem s) = None \<or> \<not> never_signed (mem s)
     then holdHub w ''HUB_SIGNER_BASELINE_REQUIRES_RECONCILIATION'' s
     else if \<not> nat_num (hr_latest H) \<or> \<not> nat_num (hr_pending H)
     then (Inl (HubSafetyError ''HUB_RECOVERY_OBSERVATION_UNAVAILABLE''), s)
     else if js_val (hr_latest H) \<noteq> 0 \<or> js_val (hr_pending H) \<noteq> 0
     then holdHub w ''HUB_SIGNER_BASELINE_REQUIRES_RECONCILIATION'' s
     else initializeHubSigner w (JInt 0) s)"

subsection \<open>Lemmas\<close>

lemma eachE_Inr_iff: "eachE f xs = Inr u \<longleftrightarrow> (\<forall>x \<in> set xs. f x = Inr ())"
  by (induction xs) (auto simp: bindE_Inr_iff)

lemma eachE_const_error:
  assumes "\<And>x. f x = Inr () \<or> f x = Inl e" "x \<in> set xs" "f x \<noteq> Inr ()"
  shows "eachE f xs = Inl e"
  using assms(2)
proof (induction xs)
  case (Cons y ys)
  then show ?case using assms(1) [of y] assms(3) by auto
qed simp

lemma nonces_from_Inr:
  "nonces_from n ps = Inr u \<Longrightarrow> map (\<lambda>p. ro_nonce (snd p)) ps = map (\<lambda>i. n + int i) [0..<length ps]"
proof (induction ps arbitrary: n)
  case (Cons p ps)
  obtain j h where p: "p = (j, h)" by (cases p)
  with Cons have "ro_nonce h = n" "map (\<lambda>p. ro_nonce (snd p)) ps = map (\<lambda>i. n + 1 + int i) [0..<length ps]"
    by (auto simp: bindE_Inr_iff)
  moreover have "[0..<length (p # ps)] = 0 # map Suc [0..<length ps]"
    by (simp add: upt_conv_Cons map_Suc_upt del: upt_Suc)
  ultimately show ?case by (simp add: p comp_def del: upt_Suc)
qed simp

lemma reconcile_ok:
  assumes "reconcile_checks H confirmations snap later = Inr ()"
  obtains sc baseline where "scope snap = Some sc" "hubStartNonce snap = Some baseline"
    "\<forall>j \<in> set (map snd (jobs snap)). has_history j = Inr ()"
    "nonces_from baseline (terminal_pairs snap) = Inr ()"
    "\<forall>p \<in> set (terminal_pairs snap). canonical_terminal H (js_val confirmations) (js_val (hr_blockNumber H))
       (lower (signer sc)) (lower (asc sc)) p = Inr ()"
    "\<forall>j \<in> set (map snd (jobs snap)). canonical_skip H (js_val confirmations) (js_val (hr_blockNumber H)) j = Inr ()"
    "evidenceIdentity later = evidenceIdentity snap \<longrightarrow>
       nonce_check snap (baseline + int (length (terminal_pairs snap))) (js_val (hr_latest H)) (js_val (hr_pending H)) = Inr ()"
  using assms unfolding reconcile_checks_def Let_def
  by (auto simp: bindE_Inr_iff eachE_Inr_iff split: option.splits if_splits)

lemma terminal_pairs_set:
  "(j, h) \<in> set (terminal_pairs d) \<longleftrightarrow> j \<in> set (map snd (jobs d)) \<and> state j \<in> {Done, Dead} \<and> h = hd (relayHistory j)"
  by (auto simp: terminal_pairs_def)

text \<open>
  C37: reconciliation accounts for every nonce before the worker may sign. When it accepts a
  store whose evidence did not move, the nonces of the finished relays are exactly the
  numbers from the baseline on, each used once; every finished relay has a canonical receipt
  of the bound signer to the bound contract at the required depth with the recorded status;
  and the chain's next nonce is the next free number, or at most one more when one signed relay
  is unresolved and holds exactly that number.
\<close>

theorem reconcile_accounts_nonces:
  assumes "reconcileHubRecovery w H confirmations (mem s) s = (Inr (), s')"
  shows "s' = s \<and> (\<exists>sc baseline. scope (mem s) = Some sc \<and> hubStartNonce (mem s) = Some baseline
     \<and> map (\<lambda>p. ro_nonce (snd p)) (terminal_pairs (mem s)) = map (\<lambda>i. baseline + int i) [0..<length (terminal_pairs (mem s))]
     \<and> (\<forall>j \<in> set (map snd (jobs (mem s))). state j \<in> {Done, Dead} \<longrightarrow> (\<exists>h c. relayHistory j = [h]
          \<and> hr_receipt H (ro_hash h) = Some c \<and> lower (cr_from c) = lower (signer sc)
          \<and> map_option lower (cr_to c) = Some (lower (asc sc)) \<and> cr_status c = Some (if ro_status h = Success then 1 else 0)
          \<and> js_val confirmations \<le> js_val (hr_blockNumber H) - cr_blockNumber c + 1))
     \<and> (case relay (mem s) of
          None \<Rightarrow> js_val (hr_latest H) = baseline + int (length (terminal_pairs (mem s))) \<and> js_val (hr_pending H) = js_val (hr_latest H)
        | Some r \<Rightarrow> r_nonce r = baseline + int (length (terminal_pairs (mem s)))
            \<and> js_val (hr_latest H) - r_nonce r \<in> {0, 1} \<and> js_val (hr_pending H) - r_nonce r \<in> {0, 1}))"
proof -
  from assms have ok: "reconcile_checks H confirmations (mem s) (mem s) = Inr ()" "s' = s"
    by (auto simp: reconcileHubRecovery_def stop_with_def holdHub_def bindS_def
        split: sum.splits stop.splits prod.splits)
  from ok(1) obtain sc baseline where r: "scope (mem s) = Some sc" "hubStartNonce (mem s) = Some baseline"
    "\<forall>j \<in> set (map snd (jobs (mem s))). has_history j = Inr ()" "nonces_from baseline (terminal_pairs (mem s)) = Inr ()"
    "\<forall>p \<in> set (terminal_pairs (mem s)). canonical_terminal H (js_val confirmations) (js_val (hr_blockNumber H))
       (lower (signer sc)) (lower (asc sc)) p = Inr ()"
    "nonce_check (mem s) (baseline + int (length (terminal_pairs (mem s)))) (js_val (hr_latest H)) (js_val (hr_pending H)) = Inr ()"
    by (rule reconcile_ok) blast
  have "\<exists>h c. relayHistory j = [h] \<and> hr_receipt H (ro_hash h) = Some c \<and> lower (cr_from c) = lower (signer sc)
          \<and> map_option lower (cr_to c) = Some (lower (asc sc)) \<and> cr_status c = Some (if ro_status h = Success then 1 else 0)
          \<and> js_val confirmations \<le> js_val (hr_blockNumber H) - cr_blockNumber c + 1"
    if j: "j \<in> set (map snd (jobs (mem s)))" "state j \<in> {Done, Dead}" for j
  proof -
    from r(3) j have "length (relayHistory j) = 1" by (fastforce simp: has_history_def)
    then obtain h where h: "relayHistory j = [h]" by (auto simp: length_Suc_conv)
    with j terminal_pairs_set [of j h "mem s"] r(5) have "canonical_terminal H (js_val confirmations)
      (js_val (hr_blockNumber H)) (lower (signer sc)) (lower (asc sc)) (j, h) = Inr ()" by simp
    with h show ?thesis by (auto simp: canonical_terminal_def bindE_Inr_iff split: option.splits)
  qed
  moreover have "case relay (mem s) of
          None \<Rightarrow> js_val (hr_latest H) = baseline + int (length (terminal_pairs (mem s))) \<and> js_val (hr_pending H) = js_val (hr_latest H)
        | Some r \<Rightarrow> r_nonce r = baseline + int (length (terminal_pairs (mem s)))
            \<and> js_val (hr_latest H) - r_nonce r \<in> {0, 1} \<and> js_val (hr_pending H) - r_nonce r \<in> {0, 1}"
    using r(6) by (auto simp: nonce_check_def split: option.splits)
  ultimately show ?thesis using ok(2) r(1,2) nonces_from_Inr [OF r(4)] by blast
qed

text \<open>
  C39: a job that is dead-lettered by exhausted retries, with no relay ever signed for it, puts
  the whole worker on hold at the next reconciliation: its empty relay history is taken for a
  lost one, whatever the hub answers.
\<close>

theorem dead_letter_holds_hub:
  assumes "j \<in> set (map snd (jobs (mem s)))" "state j = Dead" "relayHistory j = []"
    and "\<not> truthy (hubHold (mem s))" "js_safe confirmations" "1 \<le> js_val confirmations"
    and "scope (mem s) \<noteq> None" "hubStartNonce (mem s) = Some n" "integer n"
  shows "fst (reconcileHubRecovery Written H confirmations (mem s) s)
       = Inl (HubSafetyError ''HUB_TERMINAL_HISTORY_REQUIRES_RECONCILIATION'')
     \<and> hubHold (mem (snd (reconcileHubRecovery Written H confirmations (mem s) s)))
       = Some ''HUB_TERMINAL_HISTORY_REQUIRES_RECONCILIATION''"
proof -
  have "eachE has_history (map snd (jobs (mem s))) = Inl (Hold ''HUB_TERMINAL_HISTORY_REQUIRES_RECONCILIATION'')"
    by (rule eachE_const_error [OF _ assms(1)]) (auto simp: has_history_def requireE_def assms(2,3))
  with assms(4-9) show ?thesis
    by (auto simp: reconcileHubRecovery_def reconcile_checks_def assertHubReady_def stop_with_def holdHub_def)
qed

subsection \<open>Witnesses\<close>

definition idle_hub :: hub_reads where
  "idle_hub = \<lparr>hr_blockNumber = JInt 20, hr_receipt = (\<lambda>_. None), hr_block = (\<lambda>_. None), hr_block_again = (\<lambda>_. None),
     hr_processed = (\<lambda>_ _. None), hr_latest = JInt 0, hr_pending = JInt 1\<rparr>"

definition run_scope :: worker_scope where
  "run_scope = \<lparr>sourceChainId = 11155111, hubChainId = 102031, chainKey = 1, source = ''0xs'', asc = ''0xa'',
     signer = ''0xb'', startBlock = 5\<rparr>"

definition run_ready :: "store \<Rightarrow> store" where
  "run_ready s = s\<lparr>mem := (mem s)\<lparr>scope := Some run_scope, hubStartNonce := Some 0\<rparr>\<rparr>"

theorem reconcile_accounts_nonces_witness:
  "js_val (hr_pending idle_hub) - r_nonce run_relay \<in> {0, 1}"
proof -
  have "reconcileHubRecovery Written idle_hub (JInt 6) (mem (run_ready run_reserved)) (run_ready run_reserved)
      = (Inr (), run_ready run_reserved)"
    by (simp add: reconcileHubRecovery_def reconcile_checks_def run_ready_def run_reserved_eq Let_def empty_data_def
        assertHubReady_def is_safe_def max_safe_def integer_def has_history_def terminal_pairs_def run_job_def
        canonical_skip_def nat_num_def idle_hub_def nonce_check_def stop_with_def run_relay_def)
  from reconcile_accounts_nonces [OF this] show ?thesis
    by (auto simp: run_ready_def run_reserved_eq Let_def)
qed

definition run_dead :: store where
  "run_dead = run_ready (snd (update_job Written ''0x1'' (dead_patch 8 ''e'') 9 run_scanned))"

theorem dead_letter_holds_hub_witness:
  "hubHold (mem (snd (reconcileHubRecovery Written idle_hub (JInt 6) (mem run_dead) run_dead)))
     = Some ''HUB_TERMINAL_HISTORY_REQUIRES_RECONCILIATION''"
  using dead_letter_holds_hub [of "assign (dead_patch 8 ''e'') 9 (run_job\<lparr>discoveredAt := 7, updatedAt := 7\<rparr>)" run_dead
      "JInt 6" 0 idle_hub]
  by (simp add: run_dead_def run_ready_def run_scanned_eq Let_def update_job_def patch_defs run_job_def empty_data_def
      is_safe_def max_safe_def integer_def)

end
