(* ===== verification/Scan_Props.thy ===== *)
theory Scan_Props
  imports Source_Scan Recovery
begin

text \<open>
  The scan is sound and complete for the range it commits: final, hash-pinned at both ends, and
  with a job for the transaction of every watched event.
\<close>

subsection \<open>Grouping\<close>

definition groups_ok :: "(string \<times> event_group) list \<Rightarrow> bool" where
  "groups_ok gs \<longleftrightarrow> distinct (map fst gs) \<and> (\<forall>k g. map_of gs k = Some g \<longrightarrow> g_txHash g = k)"

definition total :: "(string \<times> event_group) list \<Rightarrow> int" where
  "total gs = sum_list (map (\<lambda>p. g_logCount (snd p)) gs)"

lemma total_update:
  assumes "distinct (map fst gs)"
  shows "total (AList.update k g gs) = total gs + g_logCount g - (case map_of gs k of None \<Rightarrow> 0 | Some g' \<Rightarrow> g_logCount g')"
  using assms by (induction gs) (auto simp: total_def split: option.splits)

lemma add_log_spec:
  assumes "add_log l n gs = Inr gs'" "groups_ok gs"
  shows "groups_ok gs'" "total gs' = total gs + 1"
    "\<exists>g. map_of gs' (transactionHash l) = Some g \<and> g_blockNumber g = l_blockNumber l"
    "map_of gs k = Some g0 \<Longrightarrow> \<exists>g. map_of gs' k = Some g \<and> g_blockNumber g = g_blockNumber g0"
proof -
  have d: "distinct (map fst gs)" using assms(2) by (simp add: groups_ok_def)
  define g where "g = (case map_of gs (transactionHash l) of Some g \<Rightarrow> g
        | None \<Rightarrow> \<lparr>g_txHash = transactionHash l, g_blockNumber = l_blockNumber l,
            g_action = the (map_of EVENT_TO_ACTION n), g_names = [], g_logCount = 0\<rparr>)"
  from assms(1) have gs': "g_blockNumber g = l_blockNumber l"
    "gs' = AList.update (transactionHash l) (g\<lparr>g_names := add_name n (g_names g), g_logCount := g_logCount g + 1\<rparr>) gs"
    unfolding add_log_def Let_def g_def [symmetric] by (auto simp: bindE_Inr_iff)
  have g: "g_txHash g = transactionHash l" "map_of gs (transactionHash l) = Some g \<or> map_of gs (transactionHash l) = None"
    "g_logCount g = (case map_of gs (transactionHash l) of None \<Rightarrow> 0 | Some g' \<Rightarrow> g_logCount g')"
    using assms(2) by (auto simp: g_def groups_ok_def split: option.splits)
  show "groups_ok gs'" using assms(2) g(1) gs'(2) by (auto simp: groups_ok_def distinct_update update_conv' split: if_splits)
  show "total gs' = total gs + 1" using g(3) total_update [OF d] by (simp add: gs'(2))
  show "\<exists>g. map_of gs' (transactionHash l) = Some g \<and> g_blockNumber g = l_blockNumber l"
    using gs' by (simp add: update_conv')
  show "\<exists>g. map_of gs' k = Some g \<and> g_blockNumber g = g_blockNumber g0" if "map_of gs k = Some g0"
    using g(2) gs' that by (auto simp: update_conv')
qed

lemma group_logs_spec:
  assumes "group_logs parse src ls gs = Inr gs'" "groups_ok gs"
  shows "groups_ok gs' \<and> total gs' = total gs + int (length (filter (\<lambda>l. watched parse src l \<noteq> None) ls))
    \<and> (\<forall>k g0. map_of gs k = Some g0 \<longrightarrow> (\<exists>g. map_of gs' k = Some g \<and> g_blockNumber g = g_blockNumber g0))
    \<and> (\<forall>l \<in> set ls. watched parse src l \<noteq> None \<longrightarrow>
        (\<exists>g. map_of gs' (transactionHash l) = Some g \<and> g_blockNumber g = l_blockNumber l))"
  using assms
proof (induction ls arbitrary: gs)
  case (Cons l ls)
  show ?case
  proof (cases "watched parse src l")
    case None
    with Cons show ?thesis by simp
  next
    case (Some n)
    with Cons.prems obtain gs1 where a: "add_log l n gs = Inr gs1" and r: "group_logs parse src ls gs1 = Inr gs'"
      by (auto simp: bindE_Inr_iff)
    note s = add_log_spec [OF a Cons.prems(2)]
    note IH = Cons.IH [OF r s(1)]
    from IH s(3) have "\<exists>g. map_of gs' (transactionHash l) = Some g \<and> g_blockNumber g = l_blockNumber l" by fastforce
    moreover have "\<forall>k g0. map_of gs k = Some g0 \<longrightarrow> (\<exists>g. map_of gs' k = Some g \<and> g_blockNumber g = g_blockNumber g0)"
      using IH s(4) by fastforce
    ultimately show ?thesis using IH s(2) Some by simp
  qed
qed simp

lemma set_sort_logs [simp]: "set (sort_logs ls) = set ls"
  by (simp add: sort_logs_def)

lemma length_filter_sort_logs: "length (filter P (sort_logs ls)) = length (filter P ls)"
  by (simp add: sort_logs_def length_filter_sort_key)

lemma groups_facts:
  assumes "groupSourceEvents parse src raw = Inr gs"
  shows "distinct (map g_txHash gs)
    \<and> (\<forall>l \<in> set raw. watched parse src l \<noteq> None \<longrightarrow>
        (\<exists>g \<in> set gs. g_txHash g = transactionHash l \<and> g_blockNumber g = l_blockNumber l))
    \<and> sum_list (map g_logCount gs) = int (length (filter (\<lambda>l. watched parse src l \<noteq> None) raw))"
proof -
  from assms obtain m where m: "group_logs parse src (sort_logs raw) [] = Inr m" "gs = map snd m"
    by (auto simp: groupSourceEvents_def bindE_Inr_iff)
  from group_logs_spec [OF m(1)] have s: "groups_ok m"
    "total m = int (length (filter (\<lambda>l. watched parse src l \<noteq> None) (sort_logs raw)))"
    "\<forall>l \<in> set raw. watched parse src l \<noteq> None \<longrightarrow> (\<exists>g. map_of m (transactionHash l) = Some g \<and> g_blockNumber g = l_blockNumber l)"
    by (simp_all add: groups_ok_def total_def)
  have key: "g_txHash (snd p) = fst p" if "p \<in> set m" for p
    using s(1) that by (cases p) (auto simp: groups_ok_def)
  then have "map g_txHash gs = map fst m" by (simp add: m(2))
  with s(1) have "distinct (map g_txHash gs)" by (simp add: groups_ok_def)
  moreover have "\<exists>g \<in> set gs. g_txHash g = transactionHash l \<and> g_blockNumber g = l_blockNumber l"
    if l: "l \<in> set raw" "watched parse src l \<noteq> None" for l
  proof -
    from s(3) l obtain g where "map_of m (transactionHash l) = Some g" "g_blockNumber g = l_blockNumber l" by blast
    with key [OF map_of_SomeD] show ?thesis by (force simp: m(2) dest: map_of_SomeD)
  qed
  ultimately show ?thesis using s(2) by (simp add: m(2) total_def comp_def length_filter_sort_logs)
qed

text \<open>
  grouping loses and doubles nothing. There is exactly one group for each transaction that
  has a watched event of the source contract, at the block of its events, and the log counts
  of the groups add up to the number of watched events.
\<close>

theorem groups_exact:
  assumes "groupSourceEvents parse src raw = Inr gs"
  shows "distinct (map g_txHash gs)
    \<and> (\<forall>l \<in> set raw. watched parse src l \<noteq> None \<longrightarrow>
        (\<exists>g \<in> set gs. g_txHash g = transactionHash l \<and> g_blockNumber g = l_blockNumber l))
    \<and> sum_list (map g_logCount gs) = int (length (filter (\<lambda>l. watched parse src l \<noteq> None) raw))"
  using groups_facts [OF assms] .

definition run_log :: source_log where
  "run_log = \<lparr>l_address = ''0x7'', l_topics = [], l_data = [], transactionHash = ''0x1'', l_blockNumber = 5,
     l_blockHash = zero_hash, l_index = 3, l_transactionIndex = JInt 2, removed = False\<rparr>"

definition run_parse :: "source_log \<Rightarrow> string option" where
  "run_parse l = Some ''MarkIssued''"

lemma run_groups: "groupSourceEvents run_parse ''0x7'' [run_log, run_log] =
    Inr [\<lparr>g_txHash = ''0x1'', g_blockNumber = 5, g_action = 0, g_names = [''MarkIssued''], g_logCount = 2\<rparr>]"
  by (simp add: groupSourceEvents_def sort_logs_def run_log_def run_parse_def watched_def lower_def lower_char_def
      WATCHED_EVENTS_def EVENT_TO_ACTION_def add_log_def add_name_def)

theorem groups_exact_witness:
  "sum_list (map g_logCount [\<lparr>g_txHash = ''0x1'', g_blockNumber = 5, g_action = 0, g_names = [''MarkIssued''], g_logCount = 2\<rparr>])
     = int (length (filter (\<lambda>l. watched run_parse ''0x7'' l \<noteq> None) [run_log, run_log]))"
  using groups_exact [OF run_groups] by blast

subsection \<open>The loop over the logs\<close>

lemma check_logs_locations:
  assumes "check_logs blk addr lo hi ls blocks locs = Inr locs'"
  shows "(\<forall>k v. map_of locs k = Some v \<longrightarrow> map_of locs' k = Some v)
    \<and> (\<forall>l \<in> set ls. map_of locs' (transactionHash l) = Some (l_blockHash l, js_val (l_transactionIndex l)))"
  using assms
proof (induction ls arbitrary: blocks locs)
  case (Cons l ls)
  let ?loc = "(l_blockHash l, js_val (l_transactionIndex l))"
  let ?locs = "AList.update (transactionHash l) ?loc locs"
  from Cons.prems obtain blocks' where rest: "check_logs blk addr lo hi ls blocks' ?locs = Inr locs'"
    and old: "case map_of locs (transactionHash l) of None \<Rightarrow> True
        | Some (bh, ti) \<Rightarrow> bh = l_blockHash l \<and> ti = js_val (l_transactionIndex l)"
    by (auto simp: bindE_Inr_iff)
  have keep: "map_of ?locs k = Some v" if "map_of locs k = Some v" for k v
    using that old by (cases v) (auto simp: update_conv' split: option.splits)
  have here: "map_of ?locs (transactionHash l) = Some ?loc" by (simp add: update_conv')
  from Cons.IH [OF rest] keep here show ?case by simp
qed simp

lemma check_logs_coordinates:
  "check_logs blk addr lo hi ls blocks locs = Inr locs' \<Longrightarrow> l \<in> set ls \<Longrightarrow> coordinate_ok addr lo hi l"
  by (induction ls arbitrary: blocks locs) (auto simp: bindE_Inr_iff)

lemma merge_jobs_recorded:
  assumes "merge_jobs lo hi now new js = Inr js'" "distinct (map fst js)" "j \<in> set new"
  shows "\<exists>i. map_of js' (txHash j) = Some i \<and> blockHash i = blockHash j \<and> blockNumber i = blockNumber j"
  using assms
proof (induction new arbitrary: js)
  case (Cons a new)
  show ?case
  proof (cases "j \<in> set new")
    case True
    with Cons.prems Cons.IH show ?thesis
      by (auto simp: bindE_Inr_iff distinct_update split: option.splits)
  next
    case False
    with Cons.prems have [simp]: "j = a" by simp
    show ?thesis
    proof (cases "map_of js (txHash a)")
      case None
      let ?js = "AList.update (txHash a) (a\<lparr>discoveredAt := now, updatedAt := now\<rparr>) js"
      from Cons.prems None have m: "merge_jobs lo hi now new ?js = Inr js'" by (auto simp: bindE_Inr_iff)
      have "map_of js' (txHash a) = Some (a\<lparr>discoveredAt := now, updatedAt := now\<rparr>)"
        using merge_jobs_spec(2) [OF m, of "txHash a"] Cons.prems(2) by (simp add: distinct_update update_conv')
      then show ?thesis by simp
    next
      case (Some i)
      with Cons.prems have m: "merge_jobs lo hi now new js = Inr js'" "blockHash i = blockHash a \<and> blockNumber i = blockNumber a"
        by (auto simp: bindE_Inr_iff)
      with merge_jobs_spec(2) [OF m(1) Cons.prems(2), of "txHash a"] Some show ?thesis by simp
    qed
  qed
qed simp

subsection \<open>The step\<close>

lemma commit_range_recorded:
  assumes "worker.good s" "commitSourceRange w lo c new now s = (Inr (), s')" "j \<in> set new"
  shows "\<exists>i. map_of (jobs (mem s')) (txHash j) = Some i \<and> blockHash i = blockHash j \<and> blockNumber i = blockNumber j"
proof -
  from assms(2) have d: "source_range lo c new now (mem s) = Inr (mem s')"
    by (auto simp: commitSourceRange_def committing_def dest!: worker.commit_Inr split: sum.splits)
  then obtain js where js: "merge_jobs lo (height c) now new (jobs (mem s)) = Inr js"
    and m: "mem s' = (mem s)\<lparr>jobs := js, sourceCheckpoints := trim_checkpoints (sourceCheckpoints (mem s) @ [c]), cursor := height c\<rparr>"
    by (auto simp: source_range_def bindE_Inr_iff)
  moreover from assms(1) have "distinct (map fst (jobs (mem s)))" by (simp add: worker.good_def data_inv_def)
  ultimately show "\<exists>i. map_of (jobs (mem s')) (txHash j) = Some i \<and> blockHash i = blockHash j \<and> blockNumber i = blockNumber j"
    using merge_jobs_recorded [OF js _ assms(3)] by simp
qed

lemma commit_range_checkpoint:
  assumes "commitSourceRange w lo c new now s = (Inr (), s')"
  shows "cursor (mem s') = height c \<and> last (sourceCheckpoints (mem s')) = c"
proof -
  from assms have "source_range lo c new now (mem s) = Inr (mem s')"
    by (auto simp: commitSourceRange_def committing_def dest!: worker.commit_Inr split: sum.splits)
  then obtain js where "(mem s)\<lparr>jobs := js, sourceCheckpoints := trim_checkpoints (sourceCheckpoints (mem s) @ [c]),
      cursor := height c\<rparr> = mem s'"
    by (auto simp: source_range_def bindE_Inr_iff)
  from this [symmetric] show ?thesis by (simp add: trim_checkpoints_def)
qed

text \<open>The scan makes only steps of the worker, so it keeps the invariant.\<close>

lemma good_init: "worker.good s \<Longrightarrow> worker.good (snd (initializeSource w c s))"
  by (rule worker_step_good [OF worker_step.init_source])

lemma good_hold: "worker.good s \<Longrightarrow> worker.good (snd (holdSource w r s))"
  by (rule worker.hold_good) (simp_all add: worker.good_def)

lemma good_rewind: "worker.good s \<Longrightarrow> worker.good (snd (rewind_if_forked R opt w now safeHead s))"
  using worker_step_good [OF worker_step.rewind, of s]
  by (auto simp: rewind_if_forked_def Let_def good_hold split: option.splits)

lemma job_of_group_fresh [simp]: "fresh_job (job_of_group locs g)"
  by (simp add: fresh_job_def job_of_group_def)

lemma range_jobs_fresh: "range_jobs parse R opt lo hi c = Inr js \<Longrightarrow> list_all fresh_job js"
  by (cases "groupSourceEvents parse (op_address opt) (rd_logs R lo hi)") (auto simp: range_jobs_def bindE_Inr_iff list_all_iff)

subsection \<open>Where the range starts\<close>

text \<open>A recorded checkpoint whose block still has the recorded hash, at a final height.\<close>

definition canonical_checkpoint :: "source_reads \<Rightarrow> int \<Rightarrow> source_checkpoint \<Rightarrow> bool" where
  "canonical_checkpoint R safeHead c \<longleftrightarrow> validBlock (rd_walk R (height c)) (Some (height c))
     \<and> hash_of (rd_walk R (height c)) = cp_hash c \<and> height c \<le> safeHead"

text \<open>
  The checkpoint after which the scan goes on: the last one recorded (or the configured anchor, in
  an empty store) while its block has the recorded hash; after a fork the highest one that is
  still canonical.
\<close>

definition start_checkpoints :: "source_reads \<Rightarrow> scan_options \<Rightarrow> store_data \<Rightarrow> source_checkpoint list" where
  "start_checkpoints R opt d = (if sourceCheckpoints d = []
     then [\<lparr>height = js_val (op_startBlock opt) - 1, cp_hash = hash_of (rd_anchor R)\<rparr>] else sourceCheckpoints d)"

definition resumes_at :: "source_reads \<Rightarrow> int \<Rightarrow> source_checkpoint list \<Rightarrow> source_checkpoint \<Rightarrow> bool" where
  "resumes_at R safeHead cps c \<longleftrightarrow> c \<in> set cps \<and>
     (if hash_of (rd_current R) = cp_hash (last cps) then c = last cps
      else canonical_checkpoint R safeHead c \<and> (\<forall>x \<in> set cps. height c < height x \<longrightarrow> \<not> canonical_checkpoint R safeHead x))"

definition jobs_kept_to :: "int \<Rightarrow> store_data \<Rightarrow> store_data \<Rightarrow> bool" where
  "jobs_kept_to h d d' \<longleftrightarrow> (\<forall>k j. map_of (jobs d) k = Some j \<longrightarrow> blockNumber j \<le> h \<longrightarrow> map_of (jobs d') k = Some j)"

lemma sorted_heights_unique:
  "sorted_wrt (\<lambda>a b. height a < height b) cs \<Longrightarrow> x \<in> set cs \<Longrightarrow> y \<in> set cs \<Longrightarrow> height x = height y \<Longrightarrow> x = y"
  for cs :: "source_checkpoint list"
  by (induction cs) auto

lemma find_rev_highest:
  fixes cs :: "source_checkpoint list"
  assumes "sorted_wrt (\<lambda>a b. height a < height b) cs" "List.find P (rev cs) = Some c"
  shows "c \<in> set cs \<and> P c \<and> (\<forall>x \<in> set cs. height c < height x \<longrightarrow> \<not> P x)"
  using assms
proof (induction cs rule: rev_induct)
  case (snoc a cs)
  show ?case
  proof (cases "P a")
    case True
    with snoc.prems have "c = a" by simp
    with True snoc.prems(1) show ?thesis by (auto simp: sorted_wrt_append)
  next
    case False
    with snoc show ?thesis by (auto simp: sorted_wrt_append)
  qed
qed simp

lemma ancestor_highest:
  assumes "sorted_wrt (\<lambda>a b. height a < height b) cps" "ancestor_of R safeHead cps = Some c"
  shows "c \<in> set cps \<and> canonical_checkpoint R safeHead c \<and> (\<forall>x \<in> set cps. height c < height x \<longrightarrow> \<not> canonical_checkpoint R safeHead x)"
proof -
  have "validBlock b (Some h) \<Longrightarrow> number_of b = h" for b h
    by (auto simp: validBlock_def number_of_def split: option.splits)
  then have "(validBlock (rd_walk R (height x)) (Some (height x)) \<and> hash_of (rd_walk R (height x)) = cp_hash x
      \<and> number_of (rd_walk R (height x)) \<le> safeHead) = canonical_checkpoint R safeHead x" for x
    unfolding canonical_checkpoint_def by metis
  with find_rev_highest [OF assms(1) assms(2) [unfolded ancestor_of_def]] show ?thesis by simp
qed

lemma rewind_start:
  assumes good: "worker.good s" and r: "rewind_if_forked R opt w now safeHead s = (Inr n, s1)"
    and ne: "sourceCheckpoints (mem s) \<noteq> []"
  obtains c where "resumes_at R safeHead (sourceCheckpoints (mem s)) c" "last (sourceCheckpoints (mem s1)) = c"
    "cursor (mem s1) = height c" "jobs_kept_to (height c) (mem s) (mem s1)"
proof (cases "hash_of (rd_current R) = cp_hash (last (sourceCheckpoints (mem s)))")
  case True
  with r have "s1 = s" by (simp add: rewind_if_forked_def Let_def)
  moreover have "height (last (sourceCheckpoints (mem s))) = cursor (mem s)"
    using good ne by (simp add: worker.good_def data_inv_def checkpoints_ok_def)
  ultimately show ?thesis using True ne
    by (intro that [of "last (sourceCheckpoints (mem s))"]) (simp_all add: resumes_at_def jobs_kept_to_def)
next
  case False
  from good have inv: "data_inv (mem s)" by (simp add: worker.good_def)
  then have sorted: "sorted_wrt (\<lambda>a b. height a < height b) (sourceCheckpoints (mem s))"
    by (simp add: data_inv_def checkpoints_ok_def)
  from False r obtain c where a: "ancestor_of R safeHead (sourceCheckpoints (mem s)) = Some c"
    and rw: "rewindUnsignedSource w c now s = (Inr n, s1)"
    by (auto simp: rewind_if_forked_def Let_def holdSource_def bindS_Inr split: option.splits sum.splits)
  note c = ancestor_highest [OF sorted a]
  from rw have m: "mem s1 = rewound c now (mem s)"
    by (auto simp: rewindUnsignedSource_def holdSource_def bindS_Inr dest!: worker.commit_Inr split: sum.splits if_splits)
  let ?f = "filter (\<lambda>x. height x \<le> height c) (sourceCheckpoints (mem s))"
  have "?f \<noteq> []" using c by (auto simp: filter_empty_conv)
  then have "last ?f \<in> set ?f" by (rule last_in_set)
  then have l: "last ?f = c"
    using sorted_heights_unique [OF sorted, of "last ?f" c] c sorted_wrt_last_filter [OF sorted] by auto
  show ?thesis
  proof (rule that [of c])
    show "resumes_at R safeHead (sourceCheckpoints (mem s)) c" using c False by (simp add: resumes_at_def)
    show "last (sourceCheckpoints (mem s1)) = c" "cursor (mem s1) = height c"
      using l by (simp_all add: m rewound_def)
    show "jobs_kept_to (height c) (mem s) (mem s1)" by (simp add: jobs_kept_to_def m map_of_rewound [OF inv])
  qed
qed

lemma commit_range_kept:
  assumes "worker.good s" "commitSourceRange w lo c new now s = (Inr (), s')"
  shows "jobs_kept_to h (mem s) (mem s')"
proof -
  from assms(2) have "source_range lo c new now (mem s) = Inr (mem s')"
    by (auto simp: commitSourceRange_def committing_def dest!: worker.commit_Inr split: sum.splits)
  then obtain js where js: "merge_jobs lo (height c) now new (jobs (mem s)) = Inr js"
    and m: "mem s' = (mem s)\<lparr>jobs := js, sourceCheckpoints := trim_checkpoints (sourceCheckpoints (mem s) @ [c]), cursor := height c\<rparr>"
    by (auto simp: source_range_def bindE_Inr_iff)
  from assms(1) have "distinct (map fst (jobs (mem s)))" by (simp add: worker.good_def data_inv_def)
  from merge_jobs_spec(2) [OF js this] m show ?thesis by (simp add: jobs_kept_to_def)
qed

lemma init_start:
  assumes "initializeSource w c s = (Inr u, s0)" "sourceCheckpoints (mem s) = []"
  shows "sourceCheckpoints (mem s0) = [c] \<and> jobs (mem s0) = jobs (mem s)"
  using assms by (auto simp: initializeSource_def dest!: worker.commit_Inr split: sum.splits if_splits)

lemma scan_reaches_range:
  assumes "worker.good s" "scanSourceStep parse R opt w1 w2 w3 now s = (Inr res, s')" "scanned res"
  shows "\<exists>s0. worker.good s0 \<and> sourceCheckpoints (mem s0) = start_checkpoints R opt (mem s) \<and> jobs (mem s0) = jobs (mem s)
    \<and> scan_checked parse R opt w2 w3 now (min (number_of (rd_finalized R)) (js_val (rd_head R) - js_val (op_confirmations opt))) s0
        = (Inr res, s')"
proof (cases "sourceCheckpoints (mem s) = []")
  case False
  with assms(2) show ?thesis
    by (intro exI [of _ s]) (simp add: assms(1) scanSourceStep_def Let_def start_checkpoints_def split: sum.splits if_splits)
next
  case True
  let ?a = "\<lparr>height = js_val (op_startBlock opt) - 1, cp_hash = hash_of (rd_anchor R)\<rparr>"
  from True assms(2,3) obtain u s0 where i: "initializeSource w1 ?a s = (Inr u, s0)"
    and r: "scan_checked parse R opt w2 w3 now (min (number_of (rd_finalized R)) (js_val (rd_head R) - js_val (op_confirmations opt))) s0
        = (Inr res, s')"
    by (auto simp: scanSourceStep_def Let_def bindS_Inr split: sum.splits if_splits)
  have "worker.good s0" using good_init [OF assms(1), of w1 ?a] by (simp add: i)
  with init_start [OF i True] r True show ?thesis by (intro exI [of _ s0]) (simp add: start_checkpoints_def)
qed

text \<open>
  C32: a scanned range is contiguous, final and complete. When a scan step reports a range, there is
  a checkpoint after which it started: the last recorded one (in an empty store the configured
  anchor), or after a fork the highest recorded one that is still canonical. The range is every
  block from the one after that checkpoint to the new cursor: no block is skipped, at most a chunk
  is taken, no job at or under the checkpoint is lost, and every watched event of the logs of
  exactly this range has its transaction recorded as a job at the event's own block. The new cursor
  is no later than the finalized block and the confirmation depth under the head, before and
  after the logs were read; the checkpoint at the cursor is the end block with one hash, read
  twice, and the start still has its hash.
\<close>

theorem scan_final_and_complete:
  assumes "worker.good s" "scanSourceStep parse R opt w1 w2 w3 now s = (Inr res, s')" "scanned res"
  shows "(\<exists>c. resumes_at R (min (number_of (rd_finalized R)) (js_val (rd_head R) - js_val (op_confirmations opt)))
            (start_checkpoints R opt (mem s)) c
       \<and> height c < cursor (mem s') \<and> cursor (mem s') \<le> height c + js_val (op_chunk opt)
       \<and> hash_of (rd_start_again R) = cp_hash c
       \<and> jobs_kept_to (height c) (mem s) (mem s')
       \<and> (\<forall>l \<in> set (rd_logs R (height c + 1) (cursor (mem s'))). watched parse (op_address opt) l \<noteq> None \<longrightarrow>
            (\<exists>j. map_of (jobs (mem s')) (transactionHash l) = Some j \<and> blockHash j = Some (l_blockHash l)
               \<and> blockNumber j = l_blockNumber l)))
     \<and> cursor (mem s') \<le> number_of (rd_finalized R)
     \<and> cursor (mem s') \<le> js_val (rd_head R) - js_val (op_confirmations opt)
     \<and> cursor (mem s') \<le> number_of (rd_final_again R)
     \<and> cursor (mem s') \<le> js_val (rd_head_again R) - js_val (op_confirmations opt)
     \<and> last (sourceCheckpoints (mem s')) = \<lparr>height = cursor (mem s'), cp_hash = hash_of (rd_end R)\<rparr>
     \<and> hash_of (rd_end_again R) = hash_of (rd_end R) \<and> is_bytes32 (hash_of (rd_end R))"
proof -
  let ?safe = "min (number_of (rd_finalized R)) (js_val (rd_head R) - js_val (op_confirmations opt))"
  note scan_reaches_range [OF assms]
  then obtain s0 where s0: "worker.good s0" "sourceCheckpoints (mem s0) = start_checkpoints R opt (mem s)" "jobs (mem s0) = jobs (mem s)"
    and r0: "scan_checked parse R opt w2 w3 now ?safe s0 = (Inr res, s')" by blast
  then obtain s1 rw where w: "rewind_if_forked R opt w2 now ?safe s0 = (Inr rw, s1)"
    and r: "scan_range_step parse R opt w3 now ?safe rw s1 = (Inr res, s')"
    by (auto simp: scan_checked_def bindS_Inr fail_if_def split: if_splits)
  have s1: "worker.good s1" using good_rewind [OF s0(1), of R opt w2 now ?safe] by (simp add: w)
  have "sourceCheckpoints (mem s0) \<noteq> []" by (simp add: s0(2) start_checkpoints_def)
  from rewind_start [OF s0(1) w this] obtain c where c: "resumes_at R ?safe (start_checkpoints R opt (mem s)) c"
    "last (sourceCheckpoints (mem s1)) = c" "cursor (mem s1) = height c" "jobs_kept_to (height c) (mem s0) (mem s1)"
    by (metis s0(2))
  have chunk: "1 \<le> js_val (op_chunk opt)"
    using assms(2) by (auto simp: scanSourceStep_def settings_ok_def split: sum.splits if_splits)
  define hi where "hi = min (height c + 1 + js_val (op_chunk opt) - 1) ?safe"
  from r assms(3) obtain js where js: "range_jobs parse R opt (height c + 1) hi c = Inr js" and lo: "height c < ?safe"
    and k: "commitSourceRange w3 (height c + 1) \<lparr>height = hi, cp_hash = hash_of (rd_end R)\<rparr> js now s1 = (Inr (), s')"
    by (auto simp: scan_range_step_def Let_def hi_def c(2,3) not_le bindS_Inr split: if_splits sum.splits)
  let ?logs = "rd_logs R (height c + 1) hi"
  from js obtain locs gs where e: "validBlock (rd_end R) (Some hi)"
    and l: "check_logs (rd_log_block R) (op_address opt) (height c + 1) hi ?logs [] [] = Inr locs"
    and u: "range_unchanged R (js_val (op_confirmations opt)) hi c"
    and g: "groupSourceEvents parse (op_address opt) ?logs = Inr gs" and jsd: "js = map (job_of_group locs) gs"
    by (cases "groupSourceEvents parse (op_address opt) ?logs") (auto simp: range_jobs_def bindE_Inr_iff)
  note cp = commit_range_checkpoint [OF k]
  have job: "\<exists>j. map_of (jobs (mem s')) (transactionHash l) = Some j \<and> blockHash j = Some (l_blockHash l) \<and> blockNumber j = l_blockNumber l"
    if l': "l \<in> set ?logs" "watched parse (op_address opt) l \<noteq> None" for l
  proof -
    from groups_facts [OF g] l' obtain gr where
      gr: "gr \<in> set gs" "g_txHash gr = transactionHash l" "g_blockNumber gr = l_blockNumber l" by blast
    have "job_of_group locs gr \<in> set js" using gr(1) by (simp add: jsd)
    from commit_range_recorded [OF s1 k this] gr check_logs_locations [OF l] l'(1)
    show ?thesis by (simp add: job_of_group_def)
  qed
  have kept: "jobs_kept_to (height c) (mem s) (mem s')"
    using c(4) commit_range_kept [OF s1 k] by (simp add: jobs_kept_to_def s0(3))
  have "is_bytes32 (hash_of (rd_end R))" using e by (auto simp: validBlock_def hash_of_def split: option.splits)
  moreover have "hi \<le> number_of (rd_finalized R)" "hi \<le> js_val (rd_head R) - js_val (op_confirmations opt)"
    "height c < hi" "hi \<le> height c + js_val (op_chunk opt)"
    using lo chunk unfolding hi_def by linarith+
  ultimately show ?thesis using cp u job c(1) kept by (auto simp: range_unchanged_def intro!: exI [of _ c])
qed

definition run_block :: "int \<Rightarrow> src_block option" where
  "run_block n = Some \<lparr>sb_number = JInt n, sb_hash = Some zero_hash\<rparr>"

definition run_source :: source_reads where
  "run_source = \<lparr>rd_head = JInt 20, rd_finalized = run_block 8, rd_anchor = run_block 4, rd_current = run_block 4,
     rd_walk = run_block, rd_end = run_block 8, rd_logs = (\<lambda>_ _. [run_log, run_log]), rd_log_block = run_block,
     rd_end_again = run_block 8, rd_start_again = run_block 4, rd_final_again = run_block 9, rd_head_again = JInt 21\<rparr>"

definition run_options :: scan_options where
  "run_options = \<lparr>op_address = ''0x7'', op_startBlock = JInt 5, op_confirmations = JInt 4, op_chunk = JInt 500,
     op_beforeRewind = None\<rparr>"

lemma run_scan: "\<exists>res s'. scanSourceStep run_parse run_source run_options Written Written Written 9 initial_store = (Inr res, s')
    \<and> scanned res"
proof -
  have valid: "validBlock (run_block n) (Some n)" "validBlock (run_block n) None" if "0 \<le> n" "n < 10" for n
    using that by (auto simp: validBlock_def run_block_def is_safe_def max_safe_def zero_hash_bytes32)
  have hash: "hash_of (run_block n) = zero_hash" "number_of (run_block n) = n" for n
    by (simp_all add: hash_of_def number_of_def run_block_def)
  have logs: "check_logs run_block ''0x7'' 5 8 [run_log, run_log] [] [] = Inr [(''0x1'', zero_hash, 2)]"
    by (simp add: run_log_def coordinate_ok_def is_safe_def max_safe_def valid hash)
  have unchanged: "range_unchanged run_source 4 8 \<lparr>height = 4, cp_hash = zero_hash\<rparr>"
    by (simp add: range_unchanged_def run_source_def valid hash is_safe_def max_safe_def)
  show ?thesis
    using logs unchanged zero_hash_bytes32
    by (simp add: scanSourceStep_def initial_store_def empty_data_def assertSourceReady_def assertHubReady_def settings_ok_def
        run_options_def is_safe_def max_safe_def run_source_def valid hash initializeSource_def scan_checked_def fail_if_def
        rewind_if_forked_def scan_range_step_def range_jobs_def run_groups Let_def commitSourceRange_def committing_def
        source_range_def job_of_group_def coordinates_ok_def zero_hash_def)
qed

theorem scan_final_and_complete_witness:
  "\<exists>c. resumes_at run_source (min (number_of (rd_finalized run_source)) (js_val (rd_head run_source) - js_val (op_confirmations run_options)))
       (start_checkpoints run_source run_options (mem initial_store)) c
     \<and> height c < cursor (mem (snd (scanSourceStep run_parse run_source run_options Written Written Written 9 initial_store)))"
proof -
  from run_scan obtain res s' where r: "scanSourceStep run_parse run_source run_options Written Written Written 9 initial_store = (Inr res, s')"
    "scanned res" by blast
  have good: "worker.good initial_store" by (rule reachable_good [OF reachable.start])
  from scan_final_and_complete [OF good r] show ?thesis unfolding r(1) snd_conv by blast
qed

end
