(* ===== verification/Health.thy ===== *)
theory Health
  imports Prelude Complex_Main
begin

text \<open>
  The worker's live self-report (\<open>worker/health.ts\<close>) and the probe that reads it
  (\<open>worker/health-probe.ts\<close>). Clock readings are milliseconds as real numbers; the report
  floors them. A parsed response is a record of its fifteen fields with unvalidated numbers and
  strings, next to the flag that says whether its own keys are exactly those fifteen.
\<close>

subsection \<open>The self-report\<close>

datatype phase = STARTING | RUNNING | STOPPING

fun phase_name :: "phase \<Rightarrow> string" where
  "phase_name STARTING = ''STARTING''"
| "phase_name RUNNING = ''RUNNING''"
| "phase_name STOPPING = ''STOPPING''"

record worker_health =
  h_phase :: phase
  h_started :: real
  h_scanAt :: "real option"
  h_scanFailed :: bool
  h_scans :: int
  h_errors :: int
  h_maxScanAgeMs :: int

definition health_settings_invalid :: string where
  "health_settings_invalid = ''WORKER_HEALTH_SETTINGS_INVALID''"

definition new_health :: "js_num \<Rightarrow> real \<Rightarrow> string + worker_health" where
  "new_health maxAge now = bindE (requireE health_settings_invalid (js_safe maxAge \<and> 0 < js_val maxAge)) (\<lambda>_.
     Inr \<lparr>h_phase = STARTING, h_started = now, h_scanAt = None, h_scanFailed = False, h_scans = 0, h_errors = 0,
       h_maxScanAgeMs = js_val maxAge\<rparr>)"

definition health_running :: "worker_health \<Rightarrow> worker_health" where
  "health_running h = (if h_phase h \<noteq> STOPPING then h\<lparr>h_phase := RUNNING\<rparr> else h)"

definition health_stopping :: "worker_health \<Rightarrow> worker_health" where
  "health_stopping h = h\<lparr>h_phase := STOPPING\<rparr>"

definition scanCompleted :: "real \<Rightarrow> worker_health \<Rightarrow> worker_health" where
  "scanCompleted now h = h\<lparr>h_scanAt := Some now, h_scans := h_scans h + 1, h_scanFailed := False\<rparr>"

definition scanError :: "worker_health \<Rightarrow> worker_health" where
  "scanError h = h\<lparr>h_errors := h_errors h + 1, h_scanFailed := True\<rparr>"

record self_report =
  sr_version :: js_num
  sr_scope :: string
  sr_status :: string
  sr_phase :: string
  sr_eventLoop :: string
  sr_uptimeMs :: js_num
  sr_lastSourceScanAgeMs :: "js_num option"
  sr_maxScanAgeMs :: js_num
  sr_completedSourceScans :: js_num
  sr_sourceScanErrors :: js_num
  sr_inFlight :: js_num
  sr_chainLag :: string
  sr_hubDelivery :: string
  sr_externalAvailability :: string

definition health_status :: "worker_health \<Rightarrow> int option \<Rightarrow> string" where
  "health_status h age = (if h_phase h \<noteq> RUNNING then phase_name (h_phase h)
     else if h_scanFailed h then ''SOURCE_SCAN_ERROR''
     else (case age of None \<Rightarrow> ''SOURCE_SCAN_NOT_OBSERVED''
       | Some a \<Rightarrow> if a \<ge> h_maxScanAgeMs h then ''SOURCE_SCAN_STALE'' else ''LOCAL_SCAN_RECENT''))"

definition health_report :: "js_num \<Rightarrow> real \<Rightarrow> worker_health \<Rightarrow> string + self_report" where
  "health_report inFlight now h =
     bindE (requireE ''WORKER_HEALTH_STATE_INVALID'' (js_safe inFlight \<and> 0 \<le> js_val inFlight)) (\<lambda>_.
     let age = map_option (\<lambda>t. \<lfloor>now - t\<rfloor>) (h_scanAt h) in
     bindE (requireE ''WORKER_HEALTH_CLOCK_INVALID''
       (h_started h \<le> now \<and> (case age of None \<Rightarrow> True | Some a \<Rightarrow> 0 \<le> a))) (\<lambda>_.
     Inr \<lparr>sr_version = JInt 1, sr_scope = ''live-worker-self-report'', sr_status = health_status h age,
       sr_phase = phase_name (h_phase h), sr_eventLoop = ''RESPONDING'', sr_uptimeMs = JInt \<lfloor>now - h_started h\<rfloor>,
       sr_lastSourceScanAgeMs = map_option JInt age, sr_maxScanAgeMs = JInt (h_maxScanAgeMs h),
       sr_completedSourceScans = JInt (h_scans h), sr_sourceScanErrors = JInt (h_errors h), sr_inFlight = inFlight,
       sr_chainLag = ''NOT_CHECKED'', sr_hubDelivery = ''NOT_CHECKED'', sr_externalAvailability = ''NOT_CHECKED''\<rparr>))"

definition http_status :: "self_report \<Rightarrow> int" where
  "http_status r = (if sr_status r = ''LOCAL_SCAN_RECENT'' then 200 else 503)"

text \<open>A port or an age of the environment: digits only, positive, safe; \<open>number\<close> is \<open>Number\<close>.\<close>

definition positive_setting :: "(string \<Rightarrow> js_num) \<Rightarrow> string option \<Rightarrow> bool" where
  "positive_setting number raw = (case raw of None \<Rightarrow> False
     | Some s \<Rightarrow> s \<noteq> [] \<and> list_all (\<lambda>c. c \<in> set ''0123456789'') s \<and> js_safe (number s) \<and> 0 < js_val (number s))"

text \<open>\<open>trim\<close> is \<open>String.prototype.trim\<close>; the settings are absent when no port is given.\<close>

definition blank :: "(string \<Rightarrow> string) \<Rightarrow> string option \<Rightarrow> bool" where
  "blank trim raw = (case raw of None \<Rightarrow> True | Some s \<Rightarrow> trim s = [])"

definition workerHealthSettings :: "(string \<Rightarrow> string) \<Rightarrow> (string \<Rightarrow> js_num) \<Rightarrow> string option \<Rightarrow> string option
    \<Rightarrow> string + (int \<times> int) option" where
  "workerHealthSettings trim number port maxAge =
     (if blank trim port then bindE (requireE health_settings_invalid (blank trim maxAge)) (\<lambda>_. Inr None)
      else bindE (requireE health_settings_invalid (positive_setting number port
          \<and> js_val (number (the port)) \<le> 65535 \<and> positive_setting number maxAge)) (\<lambda>_.
        Inr (Some (js_val (number (the port)), js_val (number (the maxAge))))))"

subsection \<open>The probe\<close>

definition probe_invalid :: string where
  "probe_invalid = ''WORKER_PROBE_INVALID_RESPONSE''"

definition counter_ok :: "js_num \<Rightarrow> bool" where
  "counter_ok n \<longleftrightarrow> js_safe n \<and> 0 \<le> js_val n"

definition expected_status :: "self_report \<Rightarrow> int \<Rightarrow> string" where
  "expected_status r expectedAge =
     (if sr_phase r \<noteq> ''RUNNING'' then sr_phase r
      else if sr_status r = ''SOURCE_SCAN_ERROR'' \<and> 0 < js_val (sr_sourceScanErrors r) then ''SOURCE_SCAN_ERROR''
      else (case sr_lastSourceScanAgeMs r of None \<Rightarrow> ''SOURCE_SCAN_NOT_OBSERVED''
        | Some a \<Rightarrow> if js_val a \<ge> expectedAge then ''SOURCE_SCAN_STALE'' else ''LOCAL_SCAN_RECENT''))"

text \<open>\<open>own_keys\<close>: the value is an object whose own keys are exactly the fields of the report.\<close>

definition validateWorkerSelfReport :: "bool \<Rightarrow> self_report \<Rightarrow> int \<Rightarrow> js_num \<Rightarrow> string + self_report" where
  "validateWorkerSelfReport own_keys r httpStatus expectedAge =
     bindE (requireE probe_invalid own_keys) (\<lambda>_.
     bindE (requireE probe_invalid (sr_version r = JInt 1 \<and> sr_scope r = ''live-worker-self-report''
       \<and> sr_eventLoop r = ''RESPONDING'' \<and> sr_chainLag r = ''NOT_CHECKED'' \<and> sr_hubDelivery r = ''NOT_CHECKED''
       \<and> sr_externalAvailability r = ''NOT_CHECKED'')) (\<lambda>_.
     bindE (requireE probe_invalid (list_all counter_ok
       [sr_uptimeMs r, sr_completedSourceScans r, sr_sourceScanErrors r, sr_inFlight r])) (\<lambda>_.
     bindE (requireE probe_invalid (js_safe expectedAge \<and> 0 < js_val expectedAge \<and> sr_maxScanAgeMs r = expectedAge)) (\<lambda>_.
     bindE (requireE probe_invalid (case sr_lastSourceScanAgeMs r of None \<Rightarrow> True
       | Some a \<Rightarrow> js_safe a \<and> 0 \<le> js_val a \<and> js_val a \<le> js_val (sr_uptimeMs r))) (\<lambda>_.
     bindE (requireE probe_invalid ((sr_lastSourceScanAgeMs r = None) = (sr_completedSourceScans r = JInt 0))) (\<lambda>_.
     bindE (requireE probe_invalid (sr_phase r \<in> {''STARTING'', ''RUNNING'', ''STOPPING''})) (\<lambda>_.
     bindE (requireE probe_invalid (sr_status r = expected_status r (js_val expectedAge) \<and> httpStatus = http_status r)) (\<lambda>_.
     Inr r))))))))"

datatype probe_status = PROBE_RECENT | ATTENTION_REQUIRED | UNAVAILABLE

text \<open>
  The outcome once the body is read: the deadline is checked first, then the report, then
  whether the scan has gone stale while the response was under way.
\<close>

definition probe_outcome :: "real \<Rightarrow> int \<Rightarrow> js_num \<Rightarrow> string + self_report \<Rightarrow> probe_status \<times> string" where
  "probe_outcome elapsed timeoutMs maxAge parsed =
     (if real_of_int timeoutMs \<le> elapsed then (UNAVAILABLE, ''DEADLINE_EXCEEDED'')
      else (case parsed of
          Inl _ \<Rightarrow> (UNAVAILABLE, ''INVALID_RESPONSE'')
        | Inr r \<Rightarrow>
            if sr_status r = ''LOCAL_SCAN_RECENT''
               \<and> real_of_int (js_val maxAge) \<le> real_of_int (case sr_lastSourceScanAgeMs r of None \<Rightarrow> 0 | Some a \<Rightarrow> js_val a) + elapsed
            then (ATTENTION_REQUIRED, ''SCAN_AGE_BOUND_EXCEEDED'')
            else if sr_status r = ''LOCAL_SCAN_RECENT'' then (PROBE_RECENT, sr_status r)
            else (ATTENTION_REQUIRED, sr_status r)))"

definition workerProbeSettings :: "(string \<Rightarrow> js_num) \<Rightarrow> string option \<Rightarrow> string option \<Rightarrow> string option
    \<Rightarrow> string + int \<times> int \<times> int" where
  "workerProbeSettings number port timeout age =
     bindE (requireE ''WORKER_PROBE_SETTINGS_INVALID''
       (positive_setting number port \<and> positive_setting number timeout \<and> positive_setting number age)) (\<lambda>_.
     bindE (requireE ''WORKER_PROBE_SETTINGS_INVALID''
       (js_val (number (the port)) \<le> 65535 \<and> js_val (number (the timeout)) \<le> 60000)) (\<lambda>_.
     Inr (js_val (number (the port)), js_val (number (the timeout)), js_val (number (the age)))))"

subsection \<open>The report as the worker drives it\<close>

inductive health_run :: "int \<Rightarrow> real \<Rightarrow> worker_health \<Rightarrow> bool" for maxAge :: int where
  created: "new_health (JInt maxAge) t = Inr h \<Longrightarrow> health_run maxAge t h"
| started_running: "health_run maxAge t h \<Longrightarrow> t \<le> t' \<Longrightarrow> health_run maxAge t' (health_running h)"
| stopped: "health_run maxAge t h \<Longrightarrow> t \<le> t' \<Longrightarrow> health_run maxAge t' (health_stopping h)"
| scan_done: "health_run maxAge t h \<Longrightarrow> t \<le> t' \<Longrightarrow> health_run maxAge t' (scanCompleted t' h)"
| scan_failed: "health_run maxAge t h \<Longrightarrow> t \<le> t' \<Longrightarrow> health_run maxAge t' (scanError h)"

definition health_inv :: "int \<Rightarrow> real \<Rightarrow> worker_health \<Rightarrow> bool" where
  "health_inv maxAge t h \<longleftrightarrow> h_maxScanAgeMs h = maxAge \<and> 0 < maxAge \<and> is_safe maxAge \<and> h_started h \<le> t
     \<and> 0 \<le> h_scans h \<and> 0 \<le> h_errors h \<and> (h_scanFailed h \<longrightarrow> 0 < h_errors h)
     \<and> (case h_scanAt h of None \<Rightarrow> h_scans h = 0 | Some u \<Rightarrow> 0 < h_scans h \<and> h_started h \<le> u \<and> u \<le> t)"

lemma health_run_inv: "health_run maxAge t h \<Longrightarrow> health_inv maxAge t h"
proof (induction rule: health_run.induct)
  case (created t h)
  then show ?case by (auto simp: new_health_def bindE_Inr_iff health_inv_def)
qed (auto simp: health_inv_def health_running_def health_stopping_def scanCompleted_def scanError_def split: option.splits)

text \<open>
  the probe accepts what the worker reports. Whatever sequence of starts, scans, failures
  and stops the worker went through on a clock that does not run backwards, the report it
  serves, with the HTTP status it serves it under, passes the probe's validation for the same
  age bound and comes out unchanged, as long as its counters are safe integers.
\<close>

theorem health_report_validates:
  assumes "health_run maxAge t h" "t \<le> now" "health_report inFlight now h = Inr r"
    and "is_safe (h_scans h)" "is_safe (h_errors h)" "is_safe \<lfloor>now - h_started h\<rfloor>"
  shows "validateWorkerSelfReport True r (http_status r) (JInt maxAge) = Inr r
     \<and> (sr_status r = ''LOCAL_SCAN_RECENT'' \<longrightarrow> h_phase h = RUNNING \<and> \<not> h_scanFailed h
          \<and> (\<exists>u. h_scanAt h = Some u \<and> \<lfloor>now - u\<rfloor> < maxAge))"
proof -
  note inv = health_run_inv [OF assms(1)]
  from assms(3) have flight: "counter_ok inFlight" and st: "h_started h \<le> now"
    and r: "r = \<lparr>sr_version = JInt 1, sr_scope = ''live-worker-self-report'',
       sr_status = health_status h (map_option (\<lambda>t. \<lfloor>now - t\<rfloor>) (h_scanAt h)),
       sr_phase = phase_name (h_phase h), sr_eventLoop = ''RESPONDING'', sr_uptimeMs = JInt \<lfloor>now - h_started h\<rfloor>,
       sr_lastSourceScanAgeMs = map_option JInt (map_option (\<lambda>t. \<lfloor>now - t\<rfloor>) (h_scanAt h)), sr_maxScanAgeMs = JInt (h_maxScanAgeMs h),
       sr_completedSourceScans = JInt (h_scans h), sr_sourceScanErrors = JInt (h_errors h), sr_inFlight = inFlight,
       sr_chainLag = ''NOT_CHECKED'', sr_hubDelivery = ''NOT_CHECKED'', sr_externalAvailability = ''NOT_CHECKED''\<rparr>"
    by (auto simp: health_report_def Let_def bindE_Inr_iff counter_ok_def)
  have up: "0 \<le> \<lfloor>now - h_started h\<rfloor>" using st by simp
  show ?thesis
  proof (cases "h_scanAt h")
    case None
    then show ?thesis using inv flight up assms(4-6)
      by (cases "h_phase h") (auto simp: r validateWorkerSelfReport_def health_status_def expected_status_def counter_ok_def
          health_inv_def http_status_def)
  next
    case (Some u)
    have age: "0 \<le> \<lfloor>now - u\<rfloor>" "\<lfloor>now - u\<rfloor> \<le> \<lfloor>now - h_started h\<rfloor>"
      using inv Some assms(2) by (auto simp: health_inv_def intro: floor_mono)
    have between: "is_safe a" if "0 \<le> a" "a \<le> b" "is_safe b" for a b
      using that by (simp add: is_safe_def max_safe_def)
    have "is_safe \<lfloor>now - u\<rfloor>" by (rule between [OF age assms(6)])
    then show ?thesis using Some inv flight up age assms(4-6)
      by (cases "h_phase h") (auto simp: r validateWorkerSelfReport_def health_status_def expected_status_def counter_ok_def
          health_inv_def http_status_def)
  qed
qed

definition run_health :: worker_health where
  "run_health = scanCompleted 5 (health_running \<lparr>h_phase = STARTING, h_started = 0, h_scanAt = None, h_scanFailed = False,
     h_scans = 0, h_errors = 0, h_maxScanAgeMs = 100\<rparr>)"

theorem health_report_validates_witness:
  "\<exists>r. health_report (JInt 0) 25 run_health = Inr r \<and> sr_status r = ''LOCAL_SCAN_RECENT''
     \<and> validateWorkerSelfReport True r (http_status r) (JInt 100) = Inr r"
proof -
  let ?h = "\<lparr>h_phase = STARTING, h_started = 0, h_scanAt = None, h_scanFailed = False, h_scans = 0, h_errors = 0,
    h_maxScanAgeMs = 100\<rparr>"
  have "health_run 100 0 ?h" by (rule health_run.created) (simp add: new_health_def is_safe_def max_safe_def)
  from health_run.started_running [OF this, of 0] have "health_run 100 0 (health_running ?h)" by simp
  from health_run.scan_done [OF this, of 5] have run: "health_run 100 5 run_health" by (simp add: run_health_def)
  obtain r where r: "health_report (JInt 0) 25 run_health = Inr r" "sr_status r = ''LOCAL_SCAN_RECENT''"
    by (simp add: health_report_def run_health_def scanCompleted_def health_running_def is_safe_def max_safe_def health_status_def)
  from health_report_validates [OF run _ r(1)] r show ?thesis
    by (auto simp: run_health_def scanCompleted_def health_running_def is_safe_def max_safe_def)
qed

end
