(* ===== verification/Monitor.thy ===== *)
theory Monitor
  imports Scan_Props Health
begin

text \<open>
  Offline and service monitoring: the diagnostics over a state file (\<open>worker/monitor.ts\<close>), the
  thresholds over one observation of the worker and both chains (\<open>worker/service-monitor.ts\<close>)
  and the audit of a window of recorded observations (\<open>worker/service-evidence.ts\<close>). The parsed
  state file has the shape of the store's data; \<open>is_address\<close> is \<open>ethers.isAddress\<close>.
\<close>

subsection \<open>State diagnostics\<close>

record finding =
  f_code :: string
  f_tx :: "string option"
  f_ageMs :: "int option"

record distribution =
  sampleCount :: nat
  p50 :: "int option"
  p95 :: "int option"
  p99 :: "int option"

record state_report =
  sp_status :: string
  sp_cursor :: int
  sp_checkpoints :: nat
  sp_totalJobs :: nat
  sp_states :: "job_state \<Rightarrow> nat"
  sp_oldestPendingAgeMs :: int
  sp_findingCount :: nat
  sp_findings :: "finding list"
  sp_findingsTruncated :: bool
  sp_completed :: nat
  sp_skipped :: nat
  sp_failed :: nat
  sp_failureRatePpm :: "int option"
  sp_completedLatency :: distribution
  sp_skippedLatency :: distribution
  sp_failedLatency :: distribution
  sp_pendingAge :: distribution
  sp_overduePendingAge :: distribution
  sp_attempts :: distribution
  sp_attemptsTotal :: int
  sp_retriedJobs :: nat

definition monitor_error :: string where
  "monitor_error = ''INVALID_WORKER_MONITOR_STATE''"

definition requireThat :: "bool \<Rightarrow> string + unit" where
  "requireThat ok = requireE monitor_error ok"

definition real_address :: "(string \<Rightarrow> bool) \<Rightarrow> string \<Rightarrow> bool" where
  "real_address is_address a \<longleftrightarrow> is_address a \<and> lower a \<noteq> ''0x0000000000000000000000000000000000000000''"

definition scope_matches :: "(string \<Rightarrow> bool) \<Rightarrow> worker_scope \<Rightarrow> worker_scope \<Rightarrow> bool" where
  "scope_matches is_address expected sc \<longleftrightarrow>
     list_all (\<lambda>f. integer (f expected) \<and> 0 < f expected \<and> f sc = f expected) [sourceChainId, hubChainId, chainKey, startBlock]
   \<and> list_all (\<lambda>f. real_address is_address (f expected) \<and> real_address is_address (f sc) \<and> lower (f sc) = lower (f expected))
       [source, asc, signer]"

fun checkpoints_increase :: "int \<Rightarrow> source_checkpoint list \<Rightarrow> bool" where
  "checkpoints_increase prev [] = True"
| "checkpoints_increase prev (c # cs) =
     (integer (height c) \<and> prev < height c \<and> is_bytes32 (cp_hash c) \<and> checkpoints_increase (height c) cs)"

definition job_entry_ok :: "worker_scope \<Rightarrow> int \<Rightarrow> int \<Rightarrow> string \<Rightarrow> job \<Rightarrow> bool" where
  "job_entry_ok expected cur now key j \<longleftrightarrow>
     is_bytes32 key \<and> txHash j = key \<and> integer (blockNumber j) \<and> startBlock expected \<le> blockNumber j \<and> blockNumber j \<le> cur
     \<and> is_hash (blockHash j) \<and> (case transactionIndex j of None \<Rightarrow> False | Some i \<Rightarrow> integer i)
     \<and> integer (discoveredAt j) \<and> integer (updatedAt j) \<and> discoveredAt j \<le> updatedAt j \<and> updatedAt j \<le> now
     \<and> integer (attempts j) \<and> integer (action j) \<and> action j \<le> 5 \<and> integer (logCount j) \<and> 0 < logCount j
     \<and> (case skipObservation j of None \<Rightarrow> True | Some ob \<Rightarrow> integer (so_blockNumber ob) \<and> is_bytes32 (so_blockHash ob)
          \<and> integer (so_confirmations ob) \<and> 0 < so_confirmations ob \<and> integer (so_observedAt ob)
          \<and> so_observedAt ob \<le> updatedAt j \<and> state j = Skipped)"

definition unfinished :: "job \<Rightarrow> bool" where
  "unfinished j \<longleftrightarrow> state j \<notin> {Done, Skipped, Dead}"

definition job_findings :: "int \<Rightarrow> int \<Rightarrow> relay_envelope option \<Rightarrow> int \<Rightarrow> string \<times> job \<Rightarrow> finding list" where
  "job_findings maxAge maxAttempts rel now p = (case p of (key, j) \<Rightarrow>
     (let age = now - discoveredAt j; add = \<lambda>c a. \<lparr>f_code = c, f_tx = Some key, f_ageMs = a\<rparr> in
      (if state j = Skipped \<and> skipObservation j = None then [add ''SKIP_WITHOUT_CONFIRMED_OBSERVATION'' None] else [])
      @ (if state j = Dead then [add ''DEAD_LETTER'' (Some age)]
         else if unfinished j then
           (if age \<ge> maxAge then [add ''JOB_OVERDUE'' (Some age)] else [])
           @ (if attempts j \<ge> maxAttempts then [add ''RETRY_THRESHOLD_REACHED'' None] else [])
           @ (if truthy (lastError j) then [add ''PENDING_JOB_ERROR'' None] else [])
           @ (if state j = Submitted \<and> map_option sourceTxHash rel \<noteq> Some key then [add ''SUBMITTED_WITHOUT_RELAY_ENVELOPE'' None] else [])
         else [])))"

definition hold_findings :: "store_data \<Rightarrow> finding list" where
  "hold_findings d = (let add = \<lambda>c. \<lparr>f_code = c, f_tx = None, f_ageMs = None\<rparr> in
     (if truthy (sourceHold d) then [add ''SOURCE_SAFETY_HOLD''] else [])
     @ (if hubStartNonce d = None then [add ''HUB_SIGNER_BASELINE_MISSING''] else [])
     @ (if truthy (hubHold d) then [add ''HUB_SAFETY_HOLD''] else []))"

definition relay_entry_ok :: "(string \<Rightarrow> bool) \<Rightarrow> worker_scope \<Rightarrow> store_data \<Rightarrow> relay_envelope \<Rightarrow> bool" where
  "relay_entry_ok is_address expected d r \<longleftrightarrow>
     is_bytes32 (sourceTxHash r) \<and> is_bytes32 (r_hash r) \<and> is_bytes32 (r_queryId r) \<and> integer (r_nonce r)
     \<and> r_chainId r = hubChainId expected \<and> real_address is_address (r_to r) \<and> real_address is_address (r_signer r)
     \<and> lower (r_to r) = lower (asc expected) \<and> lower (r_signer r) = lower (signer expected)
     \<and> (case map_of (jobs d) (sourceTxHash r) of None \<Rightarrow> False
        | Some j \<Rightarrow> state j = Submitted \<and> ascTxHash j = Some (r_hash r) \<and> queryId j = Some (r_queryId r))"

definition relay_findings :: "store_data \<Rightarrow> int \<Rightarrow> finding list" where
  "relay_findings d now = (case relay d of None \<Rightarrow> []
     | Some r \<Rightarrow> (case map_of (jobs d) (sourceTxHash r) of None \<Rightarrow> []
       | Some j \<Rightarrow> [\<lparr>f_code = ''RELAY_NONCE_UNRESOLVED'', f_tx = Some (sourceTxHash r), f_ageMs = Some (now - discoveredAt j)\<rparr>]))"

text \<open>\<open>sorted[Math.ceil(n * k / 100) - 1]\<close>, the nearest-rank percentile.\<close>

definition percentile :: "nat \<Rightarrow> int list \<Rightarrow> int option" where
  "percentile k xs = (if xs = [] then None else Some (sort xs ! ((length xs * k + 99) div 100 - 1)))"

definition distribution_of :: "int list \<Rightarrow> distribution" where
  "distribution_of xs = \<lparr>sampleCount = length xs, p50 = percentile 50 xs, p95 = percentile 95 xs, p99 = percentile 99 xs\<rparr>"

definition latencies :: "job_state \<Rightarrow> job list \<Rightarrow> int list" where
  "latencies sta js = map (\<lambda>j. updatedAt j - discoveredAt j) (filter (\<lambda>j. state j = sta) js)"

definition state_report_of :: "store_data \<Rightarrow> int \<Rightarrow> int \<Rightarrow> int \<Rightarrow> state_report" where
  "state_report_of d maxAge maxAttempts now =
     (let js = map snd (jobs d);
          fs = hold_findings d @ concat (map (job_findings maxAge maxAttempts (relay d) now) (jobs d)) @ relay_findings d now;
          done = latencies Done js; skip = latencies Skipped js; dead = latencies Dead js;
          pend = map (\<lambda>j. now - discoveredAt j) (filter unfinished js);
          terminal = length done + length skip + length dead in
      \<lparr>sp_status = (if fs \<noteq> [] then ''ATTENTION_REQUIRED'' else ''NO_LOCAL_FINDINGS''), sp_cursor = cursor d,
        sp_checkpoints = length (sourceCheckpoints d), sp_totalJobs = length (jobs d), sp_states = state_count d,
        sp_oldestPendingAgeMs = foldl max 0 pend, sp_findingCount = length fs, sp_findings = take 100 fs,
        sp_findingsTruncated = (100 < length fs), sp_completed = length done, sp_skipped = length skip, sp_failed = length dead,
        sp_failureRatePpm = (if terminal = 0 then None else Some (int (length dead) * 1000000 div int terminal)),
        sp_completedLatency = distribution_of done, sp_skippedLatency = distribution_of skip,
        sp_failedLatency = distribution_of dead, sp_pendingAge = distribution_of pend,
        sp_overduePendingAge = distribution_of (filter (\<lambda>a. maxAge \<le> a) pend),
        sp_attempts = distribution_of (map attempts js), sp_attemptsTotal = sum_list (map attempts js),
        sp_retriedJobs = length (filter (\<lambda>j. 0 < attempts j) js)\<rparr>)"

definition monitorWorker :: "(string \<Rightarrow> bool) \<Rightarrow> store_data \<Rightarrow> worker_scope \<Rightarrow> int \<Rightarrow> int \<Rightarrow> int \<Rightarrow> string + state_report" where
  "monitorWorker is_address d expected maxAge maxAttempts now =
     bindE (requireThat (integer now \<and> integer maxAge \<and> 0 < maxAge \<and> integer maxAttempts \<and> 0 < maxAttempts)) (\<lambda>_.
     bindE (requireThat (version d = 1 \<and> integer (cursor d))) (\<lambda>_.
     bindE (requireThat (case scope d of None \<Rightarrow> False | Some sc \<Rightarrow> scope_matches is_address expected sc)) (\<lambda>_.
     bindE (requireThat (sourceCheckpoints d \<noteq> [] \<and> length (sourceCheckpoints d) \<le> 129
       \<and> checkpoints_increase (- 1) (sourceCheckpoints d) \<and> height (hd (sourceCheckpoints d)) = startBlock expected - 1
       \<and> height (last (sourceCheckpoints d)) = cursor d)) (\<lambda>_.
     bindE (requireThat (case hubStartNonce d of None \<Rightarrow> True | Some n \<Rightarrow> integer n)) (\<lambda>_.
     bindE (requireThat (\<forall>(k, j) \<in> set (jobs d). job_entry_ok expected (cursor d) now k j)) (\<lambda>_.
     bindE (requireThat (case relay d of None \<Rightarrow> True | Some r \<Rightarrow> relay_entry_ok is_address expected d r)) (\<lambda>_.
     Inr (state_report_of d maxAge maxAttempts now))))))))"

subsection \<open>One observation of the service\<close>

record service_thresholds =
  sourceMaxBlockLag :: int
  sourceMaxHeadAgeSeconds :: int
  hubMaxHeadAgeSeconds :: int
  hubMinBalanceWei :: int
  hubMaxGasPriceWei :: int
  hubMaxNonceBacklog :: int

record chain_head =
  ch_chainId :: int
  ch_blockNumber :: int
  ch_timestamp :: int

record hub_sample = chain_head +
  latestNonce :: int
  pendingNonce :: int
  balanceWei :: int
  gasPriceWei :: int

text \<open>A JSON-RPC quantity, \<open>/^0x(?:0|[1-9a-fA-F][0-9a-fA-F]*)$/\<close>.\<close>

definition quantity :: "string \<Rightarrow> string + int" where
  "quantity s = bindE (requireE ''WORKER_SERVICE_RPC_INVALID''
     (take 2 s = ''0x'' \<and> drop 2 s \<noteq> [] \<and> list_all hex_digit (drop 2 s) \<and> (drop 2 s = ''0'' \<or> hd (drop 2 s) \<noteq> CHR ''0''))) (\<lambda>_.
     Inr (hex_val s))"

definition safeQuantity :: "string \<Rightarrow> string + int" where
  "safeQuantity s = bindE (quantity s) (\<lambda>n. bindE (requireE ''WORKER_SERVICE_RPC_INVALID'' (n \<le> max_safe)) (\<lambda>_. Inr n))"

datatype service_status = SERVICE_OK | SERVICE_ATTENTION | SERVICE_UNAVAILABLE

definition service_findings :: "service_thresholds \<Rightarrow> bool \<Rightarrow> state_report \<Rightarrow> chain_head \<Rightarrow> hub_sample \<Rightarrow> int \<Rightarrow> string list" where
  "service_findings t recent rep src hub nowSeconds =
     (if recent then [] else [''WORKER_SELF_REPORT_ATTENTION''])
     @ (if 0 < sp_findingCount rep then [''LOCAL_STATE_ATTENTION''] else [])
     @ (if sourceMaxBlockLag t \<le> ch_blockNumber src - sp_cursor rep then [''SOURCE_CURSOR_LAG''] else [])
     @ (if sourceMaxHeadAgeSeconds t \<le> nowSeconds - ch_timestamp src then [''SOURCE_HEAD_STALE''] else [])
     @ (if hubMaxHeadAgeSeconds t \<le> nowSeconds - ch_timestamp hub then [''HUB_HEAD_STALE''] else [])
     @ (if balanceWei hub < hubMinBalanceWei t then [''HUB_BALANCE_LOW''] else [])
     @ (if hubMaxGasPriceWei t \<le> gasPriceWei hub then [''HUB_GAS_PRICE_HIGH''] else [])
     @ (if hubMaxNonceBacklog t \<le> pendingNonce hub - latestNonce hub then [''HUB_NONCE_BACKLOG''] else [])"

text \<open>
  \<open>probeWorkerService\<close> once its three reads are in; \<open>late\<close> says that the deadline passed. A
  timestamp in the future throws inside the \<open>try\<close> and is reported as unavailable.
\<close>

definition service_outcome :: "worker_scope \<Rightarrow> service_thresholds \<Rightarrow> bool \<Rightarrow> probe_status \<Rightarrow> state_report \<Rightarrow> chain_head
    \<Rightarrow> hub_sample \<Rightarrow> int \<Rightarrow> service_status \<times> string list" where
  "service_outcome sc t late health rep src hub now =
     (if late \<or> health = UNAVAILABLE \<or> ch_chainId src \<noteq> sourceChainId sc \<or> ch_chainId hub \<noteq> hubChainId sc
         \<or> ch_blockNumber src < sp_cursor rep \<or> pendingNonce hub < latestNonce hub
      then (SERVICE_UNAVAILABLE, [])
      else if ch_timestamp src > now div 1000 \<or> ch_timestamp hub > now div 1000 then (SERVICE_UNAVAILABLE, [])
      else let fs = service_findings t (health = PROBE_RECENT) rep src hub (now div 1000) in
        (if fs \<noteq> [] then SERVICE_ATTENTION else SERVICE_OK, fs))"

subsection \<open>The audit of a window\<close>

record service_report =
  sv_status :: service_status
  sv_deploymentDigest :: string
  sv_observedAt :: int
  sv_elapsedMs :: int
  sv_totalJobs :: "nat option"

record audit_settings =
  maxRunGapMs :: int
  requiredWindowMs :: int
  targetMinJobs :: int

definition is_digest :: "string \<Rightarrow> bool" where
  "is_digest s \<longleftrightarrow> length s = 64 \<and> list_all (\<lambda>c. c \<in> set ''0123456789abcdef'') s"

record audit_report =
  au_ok :: bool
  au_findings :: "string list"
  au_sampleCount :: nat
  au_latestAgeMs :: "int option"
  au_maxRetainedJobs :: nat

definition audit_window :: "service_report list \<Rightarrow> int \<Rightarrow> service_report option \<times> service_report list" where
  "audit_window runs boundary =
     (let old = filter (\<lambda>r. sv_observedAt r \<le> boundary) runs;
          before = (if old = [] then None else Some (last old)) in
      (before, (case before of None \<Rightarrow> [] | Some b \<Rightarrow> [b]) @ filter (\<lambda>r. sv_observedAt r > boundary) runs))"

fun has_gap :: "int \<Rightarrow> service_report list \<Rightarrow> bool" where
  "has_gap gap (a # b # rest) = (sv_observedAt b - sv_observedAt a \<ge> gap \<or> has_gap gap (b # rest))"
| "has_gap gap _ = False"

definition audit_findings :: "audit_settings \<Rightarrow> int \<Rightarrow> service_report list \<Rightarrow> service_report option \<Rightarrow> service_report list \<Rightarrow> string list" where
  "audit_findings a now runs before window =
     (if runs = [] then [''PROBE_NEVER_RECORDED''] else [])
     @ (if runs \<noteq> [] \<and> maxRunGapMs a \<le> now - sv_observedAt (last runs) then [''PROBE_RUN_MISSED''] else [])
     @ (if has_gap (maxRunGapMs a) window then [''PROBE_RUN_GAP''] else [])
     @ (if before = None then [''STAGING_WINDOW_INCOMPLETE''] else [])
     @ (if list_ex (\<lambda>r. sv_status r = SERVICE_ATTENTION) window then [''ATTENTION_SAMPLES_PRESENT''] else [])
     @ (if list_ex (\<lambda>r. sv_status r = SERVICE_UNAVAILABLE) window then [''UNAVAILABLE_SAMPLES_PRESENT''] else [])
     @ (if int (foldl max 0 (map (\<lambda>r. case sv_totalJobs r of None \<Rightarrow> 0 | Some n \<Rightarrow> n) window)) < targetMinJobs a
        then [''TARGET_LOAD_NOT_OBSERVED''] else [])"

definition auditWorkerServiceEvidence :: "service_report list \<Rightarrow> string \<Rightarrow> audit_settings \<Rightarrow> int \<Rightarrow> string + audit_report" where
  "auditWorkerServiceEvidence reports dig a now =
     bindE (requireE ''WORKER_SERVICE_EVIDENCE_SETTINGS_INVALID'' (is_digest dig \<and> integer now \<and> integer (maxRunGapMs a)
       \<and> 0 < maxRunGapMs a \<and> integer (requiredWindowMs a) \<and> 0 < requiredWindowMs a \<and> integer (targetMinJobs a))) (\<lambda>_.
     bindE (requireE ''WORKER_SERVICE_EVIDENCE_SCOPE_MISMATCH''
       (list_all (\<lambda>r. sv_deploymentDigest r = dig \<and> sv_observedAt r \<le> now) reports)) (\<lambda>_.
     let runs = sort_key sv_observedAt reports;
         (before, window) = audit_window runs (now - requiredWindowMs a);
         fs = audit_findings a now runs before window in
     Inr \<lparr>au_ok = (fs = []), au_findings = fs, au_sampleCount = length window,
       au_latestAgeMs = (if runs = [] then None else Some (now - sv_observedAt (last runs))),
       au_maxRetainedJobs = foldl max 0 (map (\<lambda>r. case sv_totalJobs r of None \<Rightarrow> 0 | Some n \<Rightarrow> n) window)\<rparr>))"

definition serviceEvidenceAuditSettings :: "(string \<Rightarrow> js_num) \<Rightarrow> string option \<Rightarrow> string option \<Rightarrow> string option \<Rightarrow> string option
    \<Rightarrow> string + audit_settings" where
  "serviceEvidenceAuditSettings number interval missed staging load_target =
     (let read = (\<lambda>raw least. case raw of
            None \<Rightarrow> Inl ''WORKER_SERVICE_EVIDENCE_SETTINGS_INVALID''
          | Some s \<Rightarrow> bindE (requireE ''WORKER_SERVICE_EVIDENCE_SETTINGS_INVALID'' (s \<noteq> [] \<and> list_all (\<lambda>c. c \<in> set ''0123456789'') s
              \<and> js_safe (number s) \<and> least \<le> js_val (number s))) (\<lambda>_. Inr (js_val (number s)))) in
      bindE (read interval 1) (\<lambda>i. bindE (read missed 1) (\<lambda>m. bindE (read staging (7 * 24 * 60 * 60)) (\<lambda>s.
      bindE (requireE ''WORKER_SERVICE_EVIDENCE_SETTINGS_INVALID'' (i < m)) (\<lambda>_.
      bindE (read load_target 0) (\<lambda>j. Inr \<lparr>maxRunGapMs = m * 1000, requiredWindowMs = s * 1000, targetMinJobs = j\<rparr>))))))"

subsection \<open>Properties\<close>

text \<open>
  silence means health. When the monitor accepts a state file and finds nothing, there is
  no safety hold on either chain, the signer baseline is set, no relay is unresolved, no job is
  dead, none that is unfinished is past its age or retry limit or carries an error, every
  skip has its confirmed observation, and every job lies between the start block and the
  cursor.
\<close>

theorem no_findings_healthy:
  assumes "monitorWorker is_address d expected maxAge maxAttempts now = Inr rep" "sp_findingCount rep = 0"
  shows "\<not> truthy (sourceHold d) \<and> \<not> truthy (hubHold d) \<and> hubStartNonce d \<noteq> None \<and> relay d = None
     \<and> (\<forall>(k, j) \<in> set (jobs d). state j \<noteq> Dead \<and> state j \<noteq> Submitted
          \<and> (unfinished j \<longrightarrow> now - discoveredAt j < maxAge \<and> attempts j < maxAttempts \<and> \<not> truthy (lastError j))
          \<and> (state j = Skipped \<longrightarrow> skipObservation j \<noteq> None)
          \<and> startBlock expected \<le> blockNumber j \<and> blockNumber j \<le> cursor d)"
proof -
  from assms(1) have rep: "rep = state_report_of d maxAge maxAttempts now"
    and ok: "\<forall>(k, j) \<in> set (jobs d). job_entry_ok expected (cursor d) now k j"
      "case relay d of None \<Rightarrow> True | Some r \<Rightarrow> relay_entry_ok is_address expected d r"
    unfolding monitorWorker_def requireThat_def by (auto simp: bindE_Inr_iff simp del: job_entry_ok_def)
  from assms(2) have none: "hold_findings d = []" "relay_findings d now = []"
    "\<forall>p \<in> set (jobs d). job_findings maxAge maxAttempts (relay d) now p = []"
    by (simp_all add: rep state_report_of_def Let_def)
  have rel: "relay d = None"
    using none(2) ok(2) by (auto simp: relay_findings_def relay_entry_ok_def split: option.splits)
  have "state j \<noteq> Dead \<and> state j \<noteq> Submitted
          \<and> (unfinished j \<longrightarrow> now - discoveredAt j < maxAge \<and> attempts j < maxAttempts \<and> \<not> truthy (lastError j))
          \<and> (state j = Skipped \<longrightarrow> skipObservation j \<noteq> None)
          \<and> startBlock expected \<le> blockNumber j \<and> blockNumber j \<le> cursor d" if "(k, j) \<in> set (jobs d)" for k j
  proof -
    from none(3) that have "job_findings maxAge maxAttempts None now (k, j) = []" by (simp add: rel)
    moreover from ok(1) that have "job_entry_ok expected (cursor d) now k j" by blast
    ultimately show ?thesis
      by (cases "state j") (auto simp: job_findings_def Let_def unfinished_def job_entry_ok_def split: if_splits)
  qed
  with none(1) rel show ?thesis by (auto simp: hold_findings_def Let_def split: if_splits)
qed

lemma ceil_hundredth:
  fixes m n :: nat
  assumes "1 \<le> m" "m \<le> n * 100"
  shows "(m + 99) div 100 - 1 < n \<and> m \<le> 100 * Suc ((m + 99) div 100 - 1) \<and> 100 * ((m + 99) div 100 - 1) < m"
proof -
  obtain q r where "m + 99 = 100 * q + r" "r < 100" "(m + 99) div 100 = q"
    by (metis mod_less_divisor mult_div_mod_eq zero_less_numeral)
  with assms show ?thesis by auto
qed

lemma sorted_nth_count:
  assumes "sorted xs" "i < length xs"
  shows "i < length (filter (\<lambda>x. x \<le> xs ! i) xs)"
proof -
  have "\<forall>x \<in> set (take (Suc i) xs). x \<le> xs ! i"
    using assms by (auto simp: in_set_conv_nth less_Suc_eq_le intro!: sorted_nth_mono)
  then have "filter (\<lambda>x. x \<le> xs ! i) (take (Suc i) xs) = take (Suc i) xs" by (simp add: filter_id_conv)
  moreover have "length (filter (\<lambda>x. x \<le> xs ! i) xs)
      = length (filter (\<lambda>x. x \<le> xs ! i) (take (Suc i) xs)) + length (filter (\<lambda>x. x \<le> xs ! i) (drop (Suc i) xs))"
    by (metis append_take_drop_id filter_append length_append)
  ultimately show ?thesis using assms(2) by simp
qed

text \<open>
  the reported percentiles are nearest-rank percentiles: for every non-empty sample and
  every percentage from 1 to 100, the value is one of the samples, at least that share of the
  samples is no larger, and the share strictly below it is smaller than the percentage.
\<close>

theorem percentile_nearest_rank:
  assumes "xs \<noteq> []" "1 \<le> k" "k \<le> 100"
  shows "\<exists>v. percentile k xs = Some v \<and> v \<in> set xs
     \<and> k * length xs \<le> 100 * length (filter (\<lambda>x. x \<le> v) xs)
     \<and> 100 * length (filter (\<lambda>x. x < v) xs) < k * length xs"
proof -
  let ?i = "(length xs * k + 99) div 100 - 1" and ?s = "sort xs"
  have pos: "0 < length xs" using assms(1) by simp
  then have "1 \<le> length xs * k" using assms(2) by (simp add: Suc_le_eq)
  moreover have "length xs * k \<le> length xs * 100" using assms(3) by simp
  ultimately have i: "?i < length xs" "length xs * k \<le> 100 * Suc ?i" "100 * ?i < length xs * k"
    using ceil_hundredth [of "length xs * k" "length xs"] by blast+
  let ?v = "?s ! ?i"
  have "?v \<in> set xs" using i(1) nth_mem [of ?i ?s] by simp
  moreover have "Suc ?i \<le> length (filter (\<lambda>x. x \<le> ?v) xs)"
    using sorted_nth_count [of ?s ?i] i(1) length_filter_sort_key [of "\<lambda>x. x \<le> ?v" "\<lambda>x. x" xs] by simp
  moreover have "length (filter (\<lambda>x. x < ?v) xs) \<le> ?i"
  proof -
    have "length (filter (\<lambda>x. x < ?v) ?s) = card {j. j < length ?s \<and> ?s ! j < ?v}" by (rule length_filter_conv_card)
    also have "{j. j < length ?s \<and> ?s ! j < ?v} \<subseteq> {..<?i}"
      using i(1) by (auto simp: not_le [symmetric] intro: sorted_nth_mono)
    then have "card {j. j < length ?s \<and> ?s ! j < ?v} \<le> ?i"
      using card_mono [of "{..<?i}" "{j. j < length ?s \<and> ?s ! j < ?v}"] by simp
    finally show ?thesis using length_filter_sort_key [of "\<lambda>x. x < ?v" "\<lambda>x. x" xs] by simp
  qed
  moreover have "percentile k xs = Some ?v" using assms(1) by (simp add: percentile_def)
  ultimately show ?thesis using i by (intro exI [of _ ?v]) (auto simp: mult.commute)
qed

theorem percentile_nearest_rank_witness:
  "\<exists>v. percentile 95 [3, 1, 2] = Some v \<and> 95 * length [3, 1, 2 :: int] \<le> 100 * length (filter (\<lambda>x. x \<le> v) [3, 1, 2])"
proof -
  have "[3, 1, 2 :: int] \<noteq> []" by simp
  from percentile_nearest_rank [OF this, of 95] show ?thesis by fastforce
qed

definition run_file :: store_data where
  "run_file = \<lparr>version = 1, cursor = 6, jobs = [(zero_hash, run_job\<lparr>txHash := zero_hash, blockHash := Some zero_hash, state := Done,
       discoveredAt := 7, updatedAt := 9\<rparr>)], scope = Some run_scope, relay = None,
     sourceCheckpoints = [\<lparr>height = 4, cp_hash = zero_hash\<rparr>, \<lparr>height = 6, cp_hash = zero_hash\<rparr>],
     sourceHold = None, hubStartNonce = Some 0, hubHold = None, sourceRewinds = []\<rparr>"

theorem no_findings_healthy_witness:
  "monitorWorker (\<lambda>_. True) run_file run_scope 100 3 10 = Inr (state_report_of run_file 100 3 10)
     \<and> list_all (\<lambda>(k, j). state j \<noteq> Dead \<and> blockNumber j \<le> cursor run_file) (jobs run_file)"
proof -
  have m: "monitorWorker (\<lambda>_. True) run_file run_scope 100 3 10 = Inr (state_report_of run_file 100 3 10)"
    by (simp add: monitorWorker_def requireThat_def integer_def is_safe_def max_safe_def run_file_def run_scope_def
        scope_matches_def real_address_def job_entry_ok_def is_hash_def zero_hash_bytes32 run_job_def lower_def lower_char_def)
  have "sp_findingCount (state_report_of run_file 100 3 10) = 0"
    by (simp add: state_report_of_def Let_def run_file_def hold_findings_def job_findings_def relay_findings_def run_job_def
        unfinished_def)
  from no_findings_healthy [OF m this] m show ?thesis unfolding list_all_iff by fastforce
qed

end
