(* ===== verification/Names.thy ===== *)
theory Names
  imports Prelude
begin

text \<open>
  The name normalisation of the screening engine (\<open>src/aml/normalize.ts\<close>) and its
  romanisation of Hangul (\<open>src/aml/romanize.ts\<close>). A JavaScript string is its list of
  Unicode code points. The Unicode tables that the standard library consults
  (\<open>toLowerCase\<close>, \<open>toUpperCase\<close>, \<open>normalize('NFD')\<close>, \<open>normalize('NFC')\<close> and the classes
  \<open>\p{L}\<close>, \<open>\p{N}\<close>) are the fields of a record, an argument of the definitions.
\<close>

type_synonym ustring = "nat list"

record unicode =
  to_lower :: "ustring \<Rightarrow> ustring"
  to_upper :: "ustring \<Rightarrow> ustring"
  to_nfd :: "ustring \<Rightarrow> ustring"
  to_nfc :: "ustring \<Rightarrow> ustring"
  letter :: "nat \<Rightarrow> bool"
  number :: "nat \<Rightarrow> bool"

abbreviation ascii :: "string \<Rightarrow> ustring" where
  "ascii s \<equiv> map of_char s"

text \<open>\<open>[...new Set(xs)]\<close>: the first occurrence of every element, in order.\<close>

definition set_list :: "'a list \<Rightarrow> 'a list" where
  "set_list xs = rev (remdups (rev xs))"

lemma set_set_list [simp]: "set (set_list xs) = set xs"
  by (simp add: set_list_def)

lemma distinct_set_list [simp]: "distinct (set_list xs)"
  by (simp add: set_list_def)

lemma set_list_eq_Nil [simp]: "set_list xs = [] \<longleftrightarrow> xs = []"
  by (simp add: set_list_def)

lemma length_set_list: "length (set_list xs) = card (set xs)"
  by (simp add: set_list_def length_remdups_card_conv)

subsection \<open>Normalisation\<close>

text \<open>The white space of \<open>\s\<close> and \<open>trim\<close>.\<close>

definition js_space :: "nat \<Rightarrow> bool" where
  "js_space c \<longleftrightarrow> (9 \<le> c \<and> c \<le> 13) \<or> c = 32 \<or> c = 160 \<or> c = 5760 \<or> (8192 \<le> c \<and> c \<le> 8202)
     \<or> c = 8232 \<or> c = 8233 \<or> c = 8239 \<or> c = 8287 \<or> c = 12288 \<or> c = 65279"

definition trim :: "ustring \<Rightarrow> ustring" where
  "trim s = rev (dropWhile js_space (rev (dropWhile js_space s)))"

definition INVISIBLE :: "nat \<Rightarrow> bool" where
  "INVISIBLE c \<longleftrightarrow> (8203 \<le> c \<and> c \<le> 8207) \<or> (8234 \<le> c \<and> c \<le> 8238) \<or> (8288 \<le> c \<and> c \<le> 8292)
     \<or> c = 65279 \<or> c = 173 \<or> c = 847"

definition HOMOGLYPH :: "(nat \<times> nat) list" where
  "HOMOGLYPH =
    [(1072, 97), (1074, 98), (1089, 99), (1077, 101), (1085, 104), (1082, 107), (1084, 109), (1086, 111),
     (1088, 112), (1090, 116), (1093, 120), (1091, 121), (1110, 105), (1112, 106), (1109, 115), (1040, 97),
     (1042, 98), (1057, 99), (1045, 101), (1053, 104), (1050, 107), (1052, 109), (1054, 111), (1056, 112),
     (1058, 116), (1061, 120), (1059, 121), (1030, 105), (1032, 106), (1029, 115), (945, 97), (946, 98),
     (949, 101), (953, 105), (954, 107), (957, 118), (959, 111), (961, 112), (964, 116), (965, 117),
     (967, 120), (913, 97), (914, 98), (917, 101), (921, 105), (922, 107), (924, 109), (925, 110),
     (927, 111), (929, 112), (932, 116), (933, 121), (935, 120), (918, 122), (919, 104)]"

definition toHalfWidth :: "ustring \<Rightarrow> ustring" where
  "toHalfWidth s = map (\<lambda>c. if 65281 \<le> c \<and> c \<le> 65374 then c - 65248 else if c = 12288 then 32 else c) s"

definition homoglyph :: "nat \<Rightarrow> nat" where
  "homoglyph ch = (case map_of HOMOGLYPH ch of Some l \<Rightarrow> l | None \<Rightarrow> ch)"

definition mapHomoglyphs :: "ustring \<Rightarrow> ustring" where
  "mapHomoglyphs s = map homoglyph s"

text \<open>\<open>s.replace(/\s+/g, ' ')\<close>.\<close>

fun squash_spaces :: "bool \<Rightarrow> ustring \<Rightarrow> ustring" where
  "squash_spaces in_run [] = []"
| "squash_spaces in_run (c # cs) =
     (if js_space c then (if in_run then squash_spaces True cs else 32 # squash_spaces True cs)
      else c # squash_spaces False cs)"

definition normalizeName :: "unicode \<Rightarrow> ustring \<Rightarrow> ustring" where
  "normalizeName u raw =
     (let s = filter (\<lambda>c. \<not> INVISIBLE c) raw;
          s = toHalfWidth s;
          s = to_lower u s;
          s = mapHomoglyphs s;
          s = filter (\<lambda>c. \<not> (768 \<le> c \<and> c \<le> 879)) (to_nfd u s);
          s = map (\<lambda>c. if c \<in> {39, 96, 180, 699, 700} then 39 else c) s;
          s = map (\<lambda>c. if letter u c \<or> number u c \<or> js_space c \<or> c = 39 \<or> c = 45 then c else 32) s
      in trim (squash_spaces False s))"

definition token_separator :: "nat \<Rightarrow> bool" where
  "token_separator c \<longleftrightarrow> js_space c \<or> c = 39 \<or> c = 45"

text \<open>\<open>split(/[\s'-]+/)\<close> followed by the filter of the empty pieces.\<close>

fun split_tokens :: "ustring \<Rightarrow> ustring \<Rightarrow> ustring list" where
  "split_tokens cur [] = (if cur = [] then [] else [cur])"
| "split_tokens cur (c # cs) =
     (if token_separator c then (if cur = [] then split_tokens [] cs else cur # split_tokens [] cs)
      else split_tokens (cur @ [c]) cs)"

definition tokenize :: "ustring \<Rightarrow> ustring list" where
  "tokenize normalized = split_tokens [] normalized"

definition TITLES :: "ustring list" where
  "TITLES = map (\<lambda>s. ascii s)
    [''mr'', ''mrs'', ''ms'', ''dr'', ''prof'', ''sheikh'', ''haji'', ''al'', ''el'', ''bin'',
     ''ibn'', ''abu'', ''von'', ''van'', ''de'', ''del'', ''della'', ''di'', ''da'', ''dos'',
     ''das'', ''la'', ''le'']"

definition contentTokens :: "ustring list \<Rightarrow> ustring list" where
  "contentTokens tokens = (let kept = filter (\<lambda>t. t \<notin> set TITLES) tokens in if kept \<noteq> [] then kept else tokens)"

text \<open>The UTF-16 code units of a string, which \<open>slice\<close> and the order \<open><\<close> of strings see.\<close>

definition utf16 :: "ustring \<Rightarrow> nat list" where
  "utf16 s = concat (map (\<lambda>c. if c < 65536 then [c]
     else [55296 + (c - 65536) div 1024, 56320 + (c - 65536) mod 1024]) s)"

definition normalizeCountry :: "unicode \<Rightarrow> ustring \<Rightarrow> ustring" where
  "normalizeCountry u v = take 2 (utf16 (to_upper u (trim v)))"

definition ascii_digit :: "nat \<Rightarrow> bool" where
  "ascii_digit c \<longleftrightarrow> 48 \<le> c \<and> c \<le> 57"

definition ascii_letter :: "nat \<Rightarrow> bool" where
  "ascii_letter c \<longleftrightarrow> (65 \<le> c \<and> c \<le> 90) \<or> (97 \<le> c \<and> c \<le> 122)"

definition MONTHS :: "ustring list" where
  "MONTHS = map (\<lambda>s. ascii s) [''jan'', ''feb'', ''mar'', ''apr'', ''may'', ''jun'', ''jul'', ''aug'', ''sep'',
     ''oct'', ''nov'', ''dec'']"

definition padStart2 :: "ustring \<Rightarrow> ustring" where
  "padStart2 s = (if length s < 2 then replicate (2 - length s) 48 @ s else s)"

definition two_digits :: "nat \<Rightarrow> ustring" where
  "two_digits n = [48 + n div 10, 48 + n mod 10]"

text \<open>The patterns \<open>/^(\d{4})-(\d{2})-(\d{2})$/\<close>, \<open>/^(\d{4})$/\<close> and the search \<open>/(\d{4})/\<close>.\<close>

definition is_ymd :: "ustring \<Rightarrow> bool" where
  "is_ymd s \<longleftrightarrow> length s = 10 \<and> list_all ascii_digit (take 4 s) \<and> s ! 4 = 45
     \<and> list_all ascii_digit (take 2 (drop 5 s)) \<and> s ! 7 = 45 \<and> list_all ascii_digit (drop 8 s)"

definition is_year :: "ustring \<Rightarrow> bool" where
  "is_year s \<longleftrightarrow> length s = 4 \<and> list_all ascii_digit s"

fun find_year :: "ustring \<Rightarrow> ustring option" where
  "find_year [] = None"
| "find_year (c # cs) = (if is_year (take 4 (c # cs)) then Some (take 4 (c # cs)) else find_year cs)"

text \<open>\<open>/^(\d{1,2})\s+([A-Za-z]{3})\s+(\d{4})$/\<close>: the day, the month word and the year.\<close>

definition match_dmy :: "ustring \<Rightarrow> (ustring \<times> ustring \<times> ustring) option" where
  "match_dmy s =
     (let day = takeWhile ascii_digit s; r1 = dropWhile ascii_digit s;
          r2 = dropWhile js_space r1; mon = takeWhile ascii_letter r2;
          r3 = dropWhile ascii_letter r2; year = dropWhile js_space r3
      in if (length day = 1 \<or> length day = 2) \<and> r2 \<noteq> r1 \<and> length mon = 3 \<and> year \<noteq> r3 \<and> is_year year
         then Some (day, mon, year) else None)"

definition lower_ascii :: "nat \<Rightarrow> nat" where
  "lower_ascii c = (if 65 \<le> c \<and> c \<le> 90 then c + 32 else c)"

definition normalizeDob :: "ustring \<Rightarrow> ustring option" where
  "normalizeDob raw = (if raw = [] then None
     else let s = trim raw in
       if is_ymd s then Some s
       else case Option.bind (match_dmy s) (\<lambda>(day, mon, year).
              map_option (\<lambda>mo. year @ ascii ''-'' @ two_digits (Suc mo) @ ascii ''-'' @ padStart2 day)
                (index_of (map lower_ascii mon) MONTHS)) of
            Some v \<Rightarrow> Some v
          | None \<Rightarrow> if is_year s then Some s else find_year s)"

subsection \<open>Romanisation\<close>

definition CHO :: "string list" where
  "CHO = [''g'', ''kk'', ''n'', ''d'', ''tt'', ''r'', ''m'', ''b'', ''pp'', ''s'',
     ''ss'', '''', ''j'', ''jj'', ''ch'', ''k'', ''t'', ''p'', ''h'']"

definition JUNG :: "string list" where
  "JUNG = [''a'', ''ae'', ''ya'', ''yae'', ''eo'', ''e'', ''yeo'', ''ye'', ''o'', ''wa'',
     ''wae'', ''oe'', ''yo'', ''u'', ''wo'', ''we'', ''wi'', ''yu'', ''eu'', ''ui'',
     ''i'']"

definition JONG :: "string list" where
  "JONG = ['''', ''k'', ''k'', ''k'', ''n'', ''n'', ''n'', ''t'', ''l'', ''l'',
     ''l'', ''l'', ''l'', ''l'', ''l'', ''l'', ''m'', ''p'', ''p'', ''t'',
     ''t'', ''ng'', ''t'', ''t'', ''k'', ''t'', ''p'', ''t'']"

definition SURNAME_VARIANTS :: "(nat \<times> string list) list" where
  "SURNAME_VARIANTS =
    [(44608, [''kim'', ''gim'']), (51060, [''lee'', ''yi'', ''rhee'', ''ri'', ''i'']), (48149, [''park'', ''pak'', ''bak'']),
     (52572, [''choi'', ''choe'', ''chwe'']), (51221, [''jung'', ''jeong'', ''chung'', ''jong'']), (44053, [''kang'', ''gang'']),
     (51312, [''cho'', ''jo'']), (50980, [''yoon'', ''yun'']), (51109, [''jang'', ''chang'']),
     (51076, [''lim'', ''im'', ''rim'']), (54620, [''han'']), (50724, [''oh'', ''o'']),
     (49436, [''seo'', ''suh'', ''so'']), (49888, [''shin'', ''sin'']), (44428, [''kwon'', ''gwon'']),
     (54889, [''hwang'']), (50504, [''ahn'', ''an'']), (49569, [''song'']),
     (51204, [''jeon'', ''jun'', ''chun'']), (54861, [''hong'']), (50976, [''yoo'', ''yu'', ''ryu'']),
     (44256, [''ko'', ''go'']), (47928, [''moon'', ''mun'']), (50577, [''yang'']),
     (49552, [''son'', ''sohn'']), (48176, [''bae'', ''pae'']), (48177, [''baek'', ''paek'', ''back'']),
     (45432, [''noh'', ''no'', ''roh'']), (54728, [''heo'', ''hur'', ''huh'']), (49900, [''shim'', ''sim''])]"

definition DPRK_VARIANTS :: "(nat \<times> string list) list" where
  "DPRK_VARIANTS =
    [(44608, [''kim'']), (47532, [''ri'', ''li'', ''lee'']), (48149, [''pak'']),
     (52572, [''choe'']), (51221, [''jong'', ''jung'']), (51452, [''ju'', ''chu'']),
     (51008, [''un'', ''eun'']), (51068, [''il'']), (49457, [''song'', ''sung'']),
     (52384, [''chol'', ''cheol'']), (50689, [''yong'', ''young'']), (45224, [''nam''])]"

definition isHangulSyllable :: "nat \<Rightarrow> bool" where
  "isHangulSyllable ch \<longleftrightarrow> 44032 \<le> ch \<and> ch \<le> 55203"

definition syllableRR :: "nat \<Rightarrow> ustring" where
  "syllableRR ch = (let c = ch - 44032; cho = c div (21 * 28); jung = c mod (21 * 28) div 28; jong = c mod 28
     in ascii (CHO ! cho @ JUNG ! jung @ JONG ! jong))"

definition hasHangul :: "ustring \<Rightarrow> bool" where
  "hasHangul s = list_ex isHangulSyllable s"

definition variants_of :: "(nat \<times> string list) list \<Rightarrow> nat \<Rightarrow> ustring list" where
  "variants_of table ch = (case map_of table ch of Some vs \<Rightarrow> map (\<lambda>s. ascii s) vs | None \<Rightarrow> [])"

definition cartesian :: "ustring list list \<Rightarrow> ustring list list" where
  "cartesian arrs = foldl (\<lambda>acc cur. concat (map (\<lambda>a. map (\<lambda>c. a @ [c]) cur) acc)) [[]] (take 4 arrs)"

fun join :: "ustring \<Rightarrow> ustring list \<Rightarrow> ustring" where
  "join sep [] = []"
| "join sep [x] = x"
| "join sep (x # y # ys) = x @ sep @ join sep (y # ys)"

definition spellings :: "ustring list \<Rightarrow> ustring list" where
  "spellings parts = [join [] parts, join (ascii '' '') parts, join (ascii ''-'') parts]"

definition romanizeVariants :: "ustring \<Rightarrow> ustring list" where
  "romanizeVariants name = (case filter isHangulSyllable (filter (\<lambda>c. \<not> js_space c) name) of
     [] \<Rightarrow> []
   | surname # given \<Rightarrow>
       let surnameForms = set_list (syllableRR surname # variants_of SURNAME_VARIANTS surname
             @ variants_of DPRK_VARIANTS surname);
           givenForms = (if given = [] then []
             else set_list (spellings (map syllableRR given)
               @ concat (map spellings (cartesian (map (\<lambda>g. syllableRR g # variants_of DPRK_VARIANTS g) given)))));
           out = concat (map (\<lambda>s. if givenForms = [] then [s]
             else concat (map (\<lambda>g. [s @ ascii '' '' @ g, g @ ascii '' '' @ s]) givenForms)) surnameForms)
       in set_list (out @ [concat (map syllableRR (surname # given))]))"

subsection \<open>Properties\<close>

lemma set_split_tokens: "t \<in> set (split_tokens cur cs) \<Longrightarrow> t \<noteq> []"
  by (induction cs arbitrary: cur) (auto split: if_splits)

lemma tokenize_nonempty: "t \<in> set (tokenize s) \<Longrightarrow> t \<noteq> []"
  unfolding tokenize_def by (rule set_split_tokens)

lemma contentTokens_subset: "set (contentTokens ts) \<subseteq> set ts"
  by (auto simp: contentTokens_def Let_def)

lemma contentTokens_eq_Nil [simp]: "contentTokens ts = [] \<longleftrightarrow> ts = []"
  by (auto simp: contentTokens_def Let_def)

lemma normalizeName_invisible:
  "normalizeName u (xs @ c # ys) = normalizeName u (xs @ ys)" if "INVISIBLE c"
  using that by (simp add: normalizeName_def)

lemma hangul_indices:
  assumes "isHangulSyllable ch"
  shows "(ch - 44032) div (21 * 28) < length CHO" "(ch - 44032) mod (21 * 28) div 28 < length JUNG"
    "(ch - 44032) mod 28 < length JONG"
proof -
  have c: "ch - 44032 < 11172" using assms unfolding isHangulSyllable_def by linarith
  then show "(ch - 44032) div (21 * 28) < length CHO" by (simp add: CHO_def less_mult_imp_div_less)
  show "(ch - 44032) mod (21 * 28) div 28 < length JUNG" by (simp add: JUNG_def less_mult_imp_div_less)
  show "(ch - 44032) mod 28 < length JONG" by (simp add: JONG_def)
qed

text \<open>
  The capital entries of the homoglyph table are never consulted, because the name is lower
  cased first: a Greek capital Mu, which the table maps to the Latin \<open>m\<close>, stays a Greek
  letter, since the table has no small Mu.
\<close>

lemma capital_mu_not_mapped:
  assumes "to_lower u [924] = [956]" "to_nfd u [956] = [956]" "letter u 956"
  shows "map_of HOMOGLYPH 924 = Some 109" "normalizeName u [924] = [956]"
proof -
  have "homoglyph 956 = 956" by (simp add: homoglyph_def HOMOGLYPH_def)
  then show "map_of HOMOGLYPH 924 = Some 109" "normalizeName u [924] = [956]"
    using assms by (simp_all add: HOMOGLYPH_def)
      (simp add: normalizeName_def INVISIBLE_def toHalfWidth_def mapHomoglyphs_def js_space_def trim_def)
qed

end
