(* ===== verification/Edit_Distance.thy ===== *)
theory Edit_Distance
  imports Names
begin

text \<open>
  The bounded edit retrieval of the screening engine (\<open>src/aml/edit-distance.ts\<close>): the
  deletion signatures and boundary bigrams that find candidate tokens, and the capped
  optimal-string-alignment distance that verifies them. A token is a list of Unicode code
  points; \<open>nfc\<close>, an argument of every definition, is \<open>String.prototype.normalize('NFC')\<close>.
  The specification is a relation of edit scripts (\<open>edit_script\<close>); the lemmas show that
  the table of the code computes the cost of the best script, and that two tokens within
  the supported number of edits always share a signature.
\<close>

type_synonym token = ustring

datatype aml_error = Invalid_Edit_Bound | Match_Capacity string | Invalid_Match_Limit string
  | Jurisdiction_Invalid

subsection \<open>The code\<close>

definition MIN_EDIT_TOKEN :: nat where "MIN_EDIT_TOKEN = 4"
definition MIN_TWO_EDIT_TOKEN :: nat where "MIN_TWO_EDIT_TOKEN = 6"
definition MAX_EDIT_TOKEN :: nat where "MAX_EDIT_TOKEN = 64"

lemmas edit_limits = MIN_EDIT_TOKEN_def MIN_TWO_EDIT_TOKEN_def MAX_EDIT_TOKEN_def

definition codePoints :: "(token \<Rightarrow> token) \<Rightarrow> token \<Rightarrow> nat list" where
  "codePoints nfc token = nfc token"

definition deletionKeys :: "(token \<Rightarrow> token) \<Rightarrow> token \<Rightarrow> token list" where
  "deletionKeys nfc token = (let chars = codePoints nfc token in
     if length chars < MIN_EDIT_TOKEN \<or> MAX_EDIT_TOKEN < length chars then []
     else set_list (chars # map (\<lambda>i. take i chars @ drop (Suc i) chars) [0..<length chars]))"

definition supportedEditLimit :: "(token \<Rightarrow> token) \<Rightarrow> token \<Rightarrow> nat" where
  "supportedEditLimit nfc token = (let n = length (codePoints nfc token) in
     if n < MIN_EDIT_TOKEN \<or> MAX_EDIT_TOKEN < n then 0 else if n < MIN_TWO_EDIT_TOKEN then 1 else 2)"

text \<open>
  \<open>rows\<close> holds the finished rows \<open>0 .. i - 1\<close> of the table and \<open>cur\<close> the cells
  \<open>0 .. j - 1\<close> of row \<open>i\<close>; \<open>edit_cell\<close> is \<open>rows[i][j]\<close>.
\<close>

definition edit_cell :: "token \<Rightarrow> token \<Rightarrow> nat list list \<Rightarrow> nat list \<Rightarrow> nat \<Rightarrow> nat \<Rightarrow> nat" where
  "edit_cell a b rows cur i j =
     (let substitution = rows ! (i - 1) ! (j - 1) + (if a ! (i - 1) = b ! (j - 1) then 0 else 1);
          cell = min (min (rows ! (i - 1) ! j + 1) (cur ! (j - 1) + 1)) substitution
      in if 1 < i \<and> 1 < j \<and> a ! (i - 1) = b ! (j - 2) \<and> a ! (i - 2) = b ! (j - 1)
         then min cell (rows ! (i - 2) ! (j - 2) + 1) else cell)"

fun edit_row :: "token \<Rightarrow> token \<Rightarrow> nat \<Rightarrow> nat list list \<Rightarrow> nat \<Rightarrow> nat list \<Rightarrow> nat \<Rightarrow> nat list \<Rightarrow> nat list \<times> nat" where
  "edit_row a b maxDistance rows i cur rowMin [] = (cur, rowMin)"
| "edit_row a b maxDistance rows i cur rowMin (j # js) =
     (let c = edit_cell a b rows cur i j in
      edit_row a b maxDistance rows i (cur @ [c])
        (if \<bar>int i - int j\<bar> \<le> int maxDistance then min rowMin c else rowMin) js)"

text \<open>\<open>None\<close> is the early \<open>return maxDistance + 1\<close> of the outer loop.\<close>

fun edit_rows :: "token \<Rightarrow> token \<Rightarrow> nat \<Rightarrow> nat list list \<Rightarrow> nat list \<Rightarrow> nat list list option" where
  "edit_rows a b maxDistance rows [] = Some rows"
| "edit_rows a b maxDistance rows (i # is) =
     (case edit_row a b maxDistance rows i [i] (maxDistance + 1) [1..<Suc (length b)] of
        (row, rowMin) \<Rightarrow>
          if maxDistance < rowMin \<and> length b + maxDistance < i then None
          else edit_rows a b maxDistance (rows @ [row]) is)"

definition boundedEditDistance :: "(token \<Rightarrow> token) \<Rightarrow> token \<Rightarrow> token \<Rightarrow> js_num \<Rightarrow> aml_error + nat" where
  "boundedEditDistance nfc left right maxDistance =
     (let a = codePoints nfc left; b = codePoints nfc right; m = nat (js_val maxDistance) in
      if \<not> js_safe maxDistance \<or> js_val maxDistance < 0 then Inl Invalid_Edit_Bound
      else if int m < \<bar>int (length a) - int (length b)\<bar> then Inr (m + 1)
      else case edit_rows a b m [[0..<Suc (length b)]] [1..<Suc (length a)] of
             None \<Rightarrow> Inr (m + 1)
           | Some rows \<Rightarrow> Inr (min (rows ! length a ! length b) (m + 1)))"

definition editGrams :: "(token \<Rightarrow> token) \<Rightarrow> token \<Rightarrow> token list" where
  "editGrams nfc token =
     (if supportedEditLimit nfc token < 2 then []
      else let chars = ascii ''^'' @ codePoints nfc token @ ascii ''$'' in
           set_list (map (\<lambda>i. [chars ! i, chars ! Suc i]) [0..<length chars - 1]))"

text \<open>
  The two verifiers call the distance with the literal bounds 1 and 2, which are valid, so
  the distance never throws there (\<open>distance_value\<close> below); \<open>distanceOf\<close> reads the
  value.
\<close>

definition distanceOf :: "(token \<Rightarrow> token) \<Rightarrow> token \<Rightarrow> token \<Rightarrow> nat \<Rightarrow> nat" where
  "distanceOf nfc left right m = (case boundedEditDistance nfc left right (JInt (int m)) of
     Inr d \<Rightarrow> d | Inl e \<Rightarrow> m + 1)"

definition withinOneEdit :: "(token \<Rightarrow> token) \<Rightarrow> token \<Rightarrow> token \<Rightarrow> bool" where
  "withinOneEdit nfc left right =
     (if nfc left = nfc right then True
      else 1 \<le> supportedEditLimit nfc left \<and> 1 \<le> supportedEditLimit nfc right
         \<and> distanceOf nfc left right 1 \<le> 1)"

definition withinSupportedEdits :: "(token \<Rightarrow> token) \<Rightarrow> token \<Rightarrow> token \<Rightarrow> bool" where
  "withinSupportedEdits nfc left right =
     (if nfc left = nfc right then True
      else let limit = min (supportedEditLimit nfc left) (supportedEditLimit nfc right) in
           0 < limit \<and> distanceOf nfc left right limit \<le> limit)"

subsection \<open>Edit scripts\<close>

text \<open>
  \<open>edit_script a b n\<close>: \<open>n\<close> insertions, deletions, substitutions and transpositions of
  adjacent points turn \<open>a\<close> into \<open>b\<close>, no point being edited twice.
\<close>

inductive edit_script :: "'a list \<Rightarrow> 'a list \<Rightarrow> nat \<Rightarrow> bool" where
  script_nil: "edit_script [] [] 0"
| script_keep: "edit_script a b n \<Longrightarrow> edit_script (x # a) (x # b) n"
| script_delete: "edit_script a b n \<Longrightarrow> edit_script (x # a) b (Suc n)"
| script_insert: "edit_script a b n \<Longrightarrow> edit_script a (y # b) (Suc n)"
| script_substitute: "edit_script a b n \<Longrightarrow> edit_script (x # a) (y # b) (Suc n)"
| script_swap: "edit_script a b n \<Longrightarrow> edit_script (x # y # a) (y # x # b) (Suc n)"

lemma script_append:
  "edit_script a b n \<Longrightarrow> edit_script c d m \<Longrightarrow> edit_script (a @ c) (b @ d) (n + m)"
  by (induction rule: edit_script.induct) (auto intro: edit_script.intros)

lemma script_singletons:
  "edit_script [x] [x] 0" "edit_script [x] [] 1" "edit_script [] [y] 1"
  "edit_script [x] [y] 1" "edit_script [y, x] [x, y] 1"
  by (auto intro!: edit_script.intros simp: One_nat_def)

lemma script_rev: "edit_script a b n \<Longrightarrow> edit_script (rev a) (rev b) n"
proof (induction rule: edit_script.induct)
  case (script_keep a b n x)
  from script_append [OF script_keep.IH script_singletons(1) [of x]] show ?case by simp
next
  case (script_delete a b n x)
  from script_append [OF script_delete.IH script_singletons(2) [of x]] show ?case by simp
next
  case (script_insert a b n y)
  from script_append [OF script_insert.IH script_singletons(3) [of y]] show ?case by simp
next
  case (script_substitute a b n x y)
  from script_append [OF script_substitute.IH script_singletons(4) [of x y]] show ?case by simp
next
  case (script_swap a b n x y)
  from script_append [OF script_swap.IH script_singletons(5) [of y x]] show ?case by simp
qed (auto intro: edit_script.intros)

lemma script_lengths: "edit_script a b n \<Longrightarrow> \<bar>int (length a) - int (length b)\<bar> \<le> int n"
  by (induction rule: edit_script.induct) auto

lemma script_insert_all: "edit_script [] b (length b)"
  by (induction b) (auto intro: edit_script.intros)

lemma script_delete_all: "edit_script a [] (length a)"
  by (induction a) (auto intro: edit_script.intros)

lemma script_keep_all: "edit_script a a 0"
  by (induction a) (auto intro: edit_script.intros)

text \<open>The recursion equation of the distance, on reversed prefixes.\<close>

fun osa :: "'a list \<Rightarrow> 'a list \<Rightarrow> nat" where
  "osa [] ys = length ys"
| "osa (x # xs) [] = Suc (length xs)"
| "osa [x] [y] = (if x = y then 0 else 1)"
| "osa [x] (y # y' # ys) = min (min (length (y # y' # ys) + 1) (osa [x] (y' # ys) + 1))
     (length (y' # ys) + (if x = y then 0 else 1))"
| "osa (x # x' # xs) [y] = min (min (osa (x' # xs) [y] + 1) (length (x # x' # xs) + 1))
     (length (x' # xs) + (if x = y then 0 else 1))"
| "osa (x # x' # xs) (y # y' # ys) =
     (let d = min (min (osa (x' # xs) (y # y' # ys) + 1) (osa (x # x' # xs) (y' # ys) + 1))
            (osa (x' # xs) (y' # ys) + (if x = y then 0 else 1))
      in if x = y' \<and> x' = y then min d (osa xs ys + 1) else d)"

lemma osa_Nil2 [simp]: "osa xs [] = length xs"
  by (cases xs) auto

lemma osa_Cons:
  "osa (x # xs) (y # ys) =
     (let d = min (min (osa xs (y # ys) + 1) (osa (x # xs) ys + 1))
            (osa xs ys + (if x = y then 0 else 1))
      in if xs \<noteq> [] \<and> ys \<noteq> [] \<and> x = hd ys \<and> hd xs = y then min d (osa (tl xs) (tl ys) + 1) else d)"
  by (cases xs; cases ys) (auto simp: Let_def)

declare osa.simps(3-6) [simp del]

lemma if_min_le: "(if P then min d e else d) \<le> (d :: nat)"
  by simp

lemma osa_Cons_le:
  "osa (x # xs) (y # ys) \<le> osa xs (y # ys) + 1" "osa (x # xs) (y # ys) \<le> osa (x # xs) ys + 1"
  "osa (x # xs) (y # ys) \<le> osa xs ys + (if x = y then 0 else 1)"
  unfolding osa_Cons Let_def by (rule order_trans [OF if_min_le], linarith)+

lemma osa_steps:
  "osa (x # xs) ys \<le> Suc (osa xs ys)" "osa xs (y # ys) \<le> Suc (osa xs ys)"
  "osa (x # xs) (y # ys) \<le> Suc (osa xs ys)" "osa (x # xs) (x # ys) \<le> osa xs ys"
proof -
  show "osa (x # xs) ys \<le> Suc (osa xs ys)"
  proof (cases ys)
    case (Cons z zs)
    then show ?thesis using osa_Cons_le [of x xs z zs] by simp
  qed simp
  show "osa xs (y # ys) \<le> Suc (osa xs ys)"
  proof (cases xs)
    case (Cons z zs)
    then show ?thesis using osa_Cons_le [of z zs y ys] by simp
  qed simp
  show "osa (x # xs) (y # ys) \<le> Suc (osa xs ys)"
    using osa_Cons_le [of x xs y ys] by (simp split: if_splits)
  show "osa (x # xs) (x # ys) \<le> osa xs ys"
    using osa_Cons_le [of x xs x ys] by simp
qed

lemma osa_swap: "osa (x # y # xs) (y # x # ys) \<le> Suc (osa xs ys)"
  by (simp add: osa_Cons [of x "y # xs" y "x # ys"] Let_def min_le_iff_disj)

lemma osa_least: "edit_script a b n \<Longrightarrow> osa a b \<le> n"
proof (induction rule: edit_script.induct)
  case script_nil
  then show ?case by simp
next
  case (script_swap a b n x y)
  then show ?case using osa_swap [of x y a b] by linarith
next
  case (script_keep a b n x)
  then show ?case using osa_steps(4) [of x a b] by linarith
next
  case (script_delete a b n x)
  then show ?case using osa_steps(1) [of x a b] by linarith
next
  case (script_insert a b n y)
  then show ?case using osa_steps(2) [of a y b] by linarith
next
  case (script_substitute a b n x y)
  then show ?case using osa_steps(3) [of x a y b] by linarith
qed

lemma osa_self [simp]: "osa a a = 0"
  using osa_least [OF script_keep_all] by simp

lemma min_cases3: "min (min p q) r = (d :: nat) \<Longrightarrow> d = p \<or> d = q \<or> d = r"
  by (cases "p \<le> q"; cases "min p q \<le> r") auto

lemma osa_script: "edit_script a b (osa a b)"
proof (induction "length a + length b" arbitrary: a b rule: less_induct)
  case less
  show ?case
  proof (cases a)
    case Nil
    then show ?thesis by (simp add: script_insert_all)
  next
    case (Cons x xs)
    note a = this
    show ?thesis
    proof (cases b)
      case Nil
      then show ?thesis using a script_delete_all [of a] by simp
    next
      case (Cons y ys)
      let ?d = "min (min (osa xs (y # ys) + 1) (osa (x # xs) ys + 1)) (osa xs ys + (if x = y then 0 else 1))"
      have del: "edit_script a b (osa xs b + 1)" and ins: "edit_script a b (osa a ys + 1)"
        and sub: "edit_script a b (osa xs ys + (if x = y then 0 else 1))"
        using less [of xs b] less [of a ys] less [of xs ys] a Cons
        by (auto intro: edit_script.intros)
      have d: "edit_script a b ?d"
        using min_cases3 [OF refl [of ?d]] del ins sub a Cons by metis
      have swap: "edit_script a b (osa (tl xs) (tl ys) + 1)"
        if "xs \<noteq> []" "ys \<noteq> []" "x = hd ys" "hd xs = y"
        using that less [of "tl xs" "tl ys"] a Cons
        by (cases xs; cases ys) (auto intro: edit_script.intros)
      show ?thesis
        using d swap a Cons by (auto simp: osa_Cons Let_def min_def)
    qed
  qed
qed

lemma osa_Least: "osa a b = (LEAST n. edit_script a b n)"
  by (rule Least_equality [symmetric]) (auto intro: osa_script osa_least)

lemma osa_le_iff: "osa a b \<le> m \<longleftrightarrow> (\<exists>n \<le> m. edit_script a b n)"
  using osa_least osa_script order_trans by metis

lemma osa_rev: "osa (rev a) (rev b) = osa a b"
  by (intro order_antisym osa_least)
    (use script_rev [OF osa_script [of a b]] script_rev [OF osa_script [of "rev a" "rev b"]] in auto)

lemma osa_lengths: "\<bar>int (length a) - int (length b)\<bar> \<le> int (osa a b)"
  by (rule script_lengths [OF osa_script])

subsection \<open>The table computes the distance\<close>

definition osa_at :: "'a list \<Rightarrow> 'a list \<Rightarrow> nat \<Rightarrow> nat \<Rightarrow> nat" where
  "osa_at a b i j = osa (rev (take i a)) (rev (take j b))"

lemma osa_at_0 [simp]: "osa_at a b 0 j = min (length b) j"
  by (simp add: osa_at_def)

lemma osa_at_col0: "i \<le> length a \<Longrightarrow> osa_at a b i 0 = i"
  by (simp add: osa_at_def)

lemma rev_take_Suc: "i < length a \<Longrightarrow> rev (take (Suc i) a) = a ! i # rev (take i a)"
  by (simp add: take_Suc_conv_app_nth)

lemma hd_tl_rev_take:
  assumes "1 \<le> i" "i \<le> length a"
  shows "hd (rev (take i a)) = a ! (i - 1)" "tl (rev (take i a)) = rev (take (i - 1) a)"
  using rev_take_Suc [of "i - 1" a] assms by simp_all

lemma osa_at_Suc:
  assumes "1 \<le> i" "i \<le> length a" "1 \<le> j" "j \<le> length b"
  shows "osa_at a b i j =
    (let d = min (min (osa_at a b (i - 1) j + 1) (osa_at a b i (j - 1) + 1))
          (osa_at a b (i - 1) (j - 1) + (if a ! (i - 1) = b ! (j - 1) then 0 else 1))
     in if 1 < i \<and> 1 < j \<and> a ! (i - 1) = b ! (j - 2) \<and> a ! (i - 2) = b ! (j - 1)
        then min d (osa_at a b (i - 2) (j - 2) + 1) else d)"
proof -
  obtain p q where i: "i = Suc p" and j: "j = Suc q"
    using assms by (metis Suc_le_D One_nat_def)
  have ra: "rev (take i a) = a ! p # rev (take p a)" and rb: "rev (take j b) = b ! q # rev (take q b)"
    using assms i j by (simp_all add: rev_take_Suc)
  have hp: "rev (take p a) \<noteq> [] \<longleftrightarrow> 1 < i" and hq: "rev (take q b) \<noteq> [] \<longleftrightarrow> 1 < j"
    using assms i j by auto
  have pp: "hd (rev (take p a)) = a ! (i - 2)" "tl (rev (take p a)) = rev (take (i - 2) a)" if "1 < i"
    using hd_tl_rev_take [of p a] that assms i by (auto simp: numeral_2_eq_2)
  have qq: "hd (rev (take q b)) = b ! (j - 2)" "tl (rev (take q b)) = rev (take (j - 2) b)" if "1 < j"
    using hd_tl_rev_take [of q b] that assms j by (auto simp: numeral_2_eq_2)
  have cond: "(rev (take p a) \<noteq> [] \<and> rev (take q b) \<noteq> [] \<and> a ! p = hd (rev (take q b)) \<and> hd (rev (take p a)) = b ! q)
    \<longleftrightarrow> (1 < i \<and> 1 < j \<and> a ! p = b ! (j - 2) \<and> a ! (i - 2) = b ! q)"
    using hp hq pp qq by auto
  have ip: "i - 1 = p" "j - 1 = q" using i j by auto
  show ?thesis
    unfolding ip
  proof (cases "1 < i \<and> 1 < j \<and> a ! p = b ! (j - 2) \<and> a ! (i - 2) = b ! q")
    case True
    then have "tl (rev (take p a)) = rev (take (i - 2) a)" "tl (rev (take q b)) = rev (take (j - 2) b)"
      using pp qq by auto
    then show "osa_at a b i j = (let d = min (min (osa_at a b p j + 1) (osa_at a b i q + 1))
          (osa_at a b p q + (if a ! p = b ! q then 0 else 1))
     in if 1 < i \<and> 1 < j \<and> a ! p = b ! (j - 2) \<and> a ! (i - 2) = b ! q
        then min d (osa_at a b (i - 2) (j - 2) + 1) else d)"
      using True cond unfolding osa_at_def ra rb osa_Cons Let_def by simp
  next
    case False
    then show "osa_at a b i j = (let d = min (min (osa_at a b p j + 1) (osa_at a b i q + 1))
          (osa_at a b p q + (if a ! p = b ! q then 0 else 1))
     in if 1 < i \<and> 1 < j \<and> a ! p = b ! (j - 2) \<and> a ! (i - 2) = b ! q
        then min d (osa_at a b (i - 2) (j - 2) + 1) else d)"
      using cond unfolding osa_at_def ra rb osa_Cons Let_def by (simp only: if_False)
  qed
qed

definition osa_row :: "'a list \<Rightarrow> 'a list \<Rightarrow> nat \<Rightarrow> nat \<Rightarrow> nat list" where
  "osa_row a b i k = map (osa_at a b i) [0..<k]"

lemma osa_row_nth [simp]: "j < k \<Longrightarrow> osa_row a b i k ! j = osa_at a b i j"
  by (simp add: osa_row_def)

lemma edit_cell_osa:
  assumes rows: "rows = map (\<lambda>i. osa_row a b i (Suc (length b))) [0..<i]"
    and "1 \<le> i" "i \<le> length a" "1 \<le> j" "j \<le> length b"
  shows "edit_cell a b rows (osa_row a b i j) i j = osa_at a b i j"
  unfolding osa_at_Suc [OF assms(2-5)] edit_cell_def Let_def rows
  using assms(2-5) by simp

lemma edit_row_osa:
  assumes "rows = map (\<lambda>i. osa_row a b i (Suc (length b))) [0..<i]" "1 \<le> i" "i \<le> length a"
  shows "1 \<le> k \<Longrightarrow> k \<le> Suc (length b) \<Longrightarrow>
    fst (edit_row a b m rows i (osa_row a b i k) rowMin [k..<Suc (length b)]) = osa_row a b i (Suc (length b))"
proof (induction "Suc (length b) - k" arbitrary: k rowMin)
  case 0
  then show ?case by simp
next
  case (Suc n)
  then have k: "k \<le> length b" by simp
  then have js: "[k..<Suc (length b)] = k # [Suc k..<Suc (length b)]"
    by (simp add: upt_rec)
  have "osa_row a b i k @ [edit_cell a b rows (osa_row a b i k) i k] = osa_row a b i (Suc k)"
    using edit_cell_osa [OF assms Suc.prems(1) k] by (simp add: osa_row_def)
  then show ?case
    unfolding js using Suc by (simp add: Let_def)
qed

text \<open>
  The early return never fires: the length guard has left \<open>i \<le> |a| \<le> |b| + maxDistance\<close>.
\<close>

lemma edit_rows_osa:
  assumes "length a \<le> length b + m"
  shows "1 \<le> k \<Longrightarrow> k \<le> Suc (length a) \<Longrightarrow>
    edit_rows a b m (map (\<lambda>i. osa_row a b i (Suc (length b))) [0..<k]) [k..<Suc (length a)]
    = Some (map (\<lambda>i. osa_row a b i (Suc (length b))) [0..<Suc (length a)])"
proof (induction "Suc (length a) - k" arbitrary: k)
  case 0
  then have "k = Suc (length a)" by simp
  then show ?case by (simp del: upt_Suc)
next
  case (Suc n)
  then have k: "k \<le> length a" by simp
  let ?rows = "map (\<lambda>i. osa_row a b i (Suc (length b))) [0..<k]"
  obtain row rowMin where r: "edit_row a b m ?rows k [k] (m + 1) [1..<Suc (length b)] = (row, rowMin)"
    by fastforce
  have "osa_row a b k 1 = [k]"
    using k by (simp add: osa_row_def osa_at_col0)
  with edit_row_osa [OF refl Suc.prems(1) k, where k = 1 and m = m and rowMin = "m + 1" and b = b] r
  have "row = osa_row a b k (Suc (length b))" by (simp del: upt_Suc)
  then have "?rows @ [row] = map (\<lambda>i. osa_row a b i (Suc (length b))) [0..<Suc k]" by simp
  moreover have "[k..<Suc (length a)] = k # [Suc k..<Suc (length a)]"
    using k by (simp add: upt_rec)
  moreover have "\<not> length b + m < k"
    using k assms by simp
  moreover have "edit_rows a b m (map (\<lambda>i. osa_row a b i (Suc (length b))) [0..<Suc k]) [Suc k..<Suc (length a)]
    = Some (map (\<lambda>i. osa_row a b i (Suc (length b))) [0..<Suc (length a)])"
    using Suc by (intro Suc.hyps(1)) auto
  ultimately show ?case
    using r by (simp del: upt_Suc)
qed

lemma osa_row_first: "osa_row a b 0 (Suc (length b)) = [0..<Suc (length b)]"
  by (rule nth_equalityI) (auto simp: osa_row_def min_def simp del: upt_Suc)

lemma bounded_osa:
  assumes "is_safe m" "0 \<le> m"
  shows "boundedEditDistance nfc left right (JInt m) = Inr (min (osa (nfc left) (nfc right)) (nat m + 1))"
proof (cases "m < \<bar>int (length (nfc left)) - int (length (nfc right))\<bar>")
  case True
  then have "nat m + 1 \<le> osa (nfc left) (nfc right)"
    using osa_lengths [of "nfc left" "nfc right"] assms by linarith
  then show ?thesis
    using True assms by (simp add: boundedEditDistance_def Let_def codePoints_def)
next
  case False
  let ?a = "nfc left" and ?b = "nfc right"
  have "length ?a \<le> length ?b + nat m"
    using False assms by linarith
  from edit_rows_osa [OF this, of 1]
  have "edit_rows ?a ?b (nat m) [osa_row ?a ?b 0 (Suc (length ?b))] [1..<Suc (length ?a)]
    = Some (map (\<lambda>i. osa_row ?a ?b i (Suc (length ?b))) [0..<Suc (length ?a)])"
    by (simp add: upt_rec [of 0 "Suc 0"] del: upt_Suc)
  moreover have "osa_at ?a ?b (length ?a) (length ?b) = osa ?a ?b"
    by (simp add: osa_at_def osa_rev)
  ultimately show ?thesis
    using False assms by (simp add: boundedEditDistance_def Let_def codePoints_def osa_row_first
        nth_append del: upt_Suc)
qed

lemma distance_value: "m \<le> 2 \<Longrightarrow> distanceOf nfc left right m = min (osa (nfc left) (nfc right)) (m + 1)"
  by (simp add: distanceOf_def bounded_osa is_safe_def max_safe_def)

lemma withinOneEdit_iff:
  "withinOneEdit nfc left right \<longleftrightarrow> nfc left = nfc right \<or>
     (1 \<le> supportedEditLimit nfc left \<and> 1 \<le> supportedEditLimit nfc right
      \<and> osa (nfc left) (nfc right) \<le> 1)"
  by (auto simp: withinOneEdit_def distance_value)

lemma limit_le_2: "supportedEditLimit nfc token \<le> 2"
  by (simp add: supportedEditLimit_def Let_def)

lemma withinSupportedEdits_iff:
  "withinSupportedEdits nfc left right \<longleftrightarrow> nfc left = nfc right \<or>
     (let limit = min (supportedEditLimit nfc left) (supportedEditLimit nfc right) in
      0 < limit \<and> osa (nfc left) (nfc right) \<le> limit)"
  using limit_le_2 [of nfc left]
  by (auto simp: withinSupportedEdits_def distance_value Let_def min_le_iff_disj)

subsection \<open>One edit leaves a common deletion signature\<close>

definition del_key :: "'a list \<Rightarrow> 'a list \<Rightarrow> bool" where
  "del_key a k \<longleftrightarrow> k = a \<or> (\<exists>u x v. a = u @ x # v \<and> k = u @ v)"

lemma del_key_refl: "del_key a a"
  by (simp add: del_key_def)

lemma del_key_head: "del_key (x # a) a"
  unfolding del_key_def by (metis append_Nil)

lemma del_key_Cons: "del_key a k \<Longrightarrow> del_key (x # a) (x # k)"
  unfolding del_key_def by (metis append_Cons)

lemma script_zero: "edit_script a b n \<Longrightarrow> n = 0 \<Longrightarrow> a = b"
  by (induction rule: edit_script.induct) auto

lemma one_edit_key: "edit_script a b n \<Longrightarrow> n \<le> 1 \<Longrightarrow> \<exists>k. del_key a k \<and> del_key b k"
proof (induction rule: edit_script.induct)
  case script_nil
  then show ?case by (auto intro: del_key_refl)
next
  case (script_keep a b n x)
  then show ?case by (auto intro: del_key_Cons)
next
  case (script_delete a b n x)
  then have "a = b" using script_zero by auto
  then show ?case using del_key_refl [of a] del_key_head [of x a] by auto
next
  case (script_insert a b n y)
  then have "a = b" using script_zero by auto
  then show ?case using del_key_refl [of a] del_key_head [of y a] by auto
next
  case (script_substitute a b n x y)
  then have "a = b" using script_zero by auto
  then show ?case using del_key_head [of x a] del_key_head [of y a] by auto
next
  case (script_swap a b n x y)
  then have "a = b" using script_zero by auto
  then have "del_key (x # y # a) (y # a)" "del_key (y # x # b) (y # a)"
    by (auto intro: del_key_head del_key_Cons)
  then show ?case by blast
qed

lemma del_key_iff_index:
  "del_key a k \<longleftrightarrow> k = a \<or> (\<exists>i < length a. k = take i a @ drop (Suc i) a)"
proof -
  have "(\<exists>u x v. a = u @ x # v \<and> k = u @ v) \<longleftrightarrow> (\<exists>i < length a. k = take i a @ drop (Suc i) a)"
  proof
    assume "\<exists>u x v. a = u @ x # v \<and> k = u @ v"
    then obtain u x v where "a = u @ x # v" "k = u @ v" by blast
    then have "length u < length a \<and> k = take (length u) a @ drop (Suc (length u)) a" by simp
    then show "\<exists>i < length a. k = take i a @ drop (Suc i) a" by blast
  next
    assume "\<exists>i < length a. k = take i a @ drop (Suc i) a"
    then obtain i where "i < length a" "k = take i a @ drop (Suc i) a" by blast
    moreover from this have "a = take i a @ a ! i # drop (Suc i) a" by (simp add: id_take_nth_drop)
    ultimately show "\<exists>u x v. a = u @ x # v \<and> k = u @ v" by blast
  qed
  then show ?thesis by (auto simp: del_key_def)
qed

lemma deletionKeys_iff:
  assumes "1 \<le> supportedEditLimit nfc token"
  shows "k \<in> set (deletionKeys nfc token) \<longleftrightarrow> del_key (nfc token) k"
proof -
  have "\<not> (length (nfc token) < MIN_EDIT_TOKEN \<or> MAX_EDIT_TOKEN < length (nfc token))"
    using assms by (simp add: supportedEditLimit_def Let_def codePoints_def split: if_splits)
  then have "set (deletionKeys nfc token) = insert (nfc token)
      ((\<lambda>i. take i (nfc token) @ drop (Suc i) (nfc token)) ` {0..<length (nfc token)})"
    by (simp add: deletionKeys_def Let_def codePoints_def)
  then show ?thesis unfolding del_key_iff_index by auto
qed

lemma one_edit_common_key:
  assumes "1 \<le> supportedEditLimit nfc left" "1 \<le> supportedEditLimit nfc right"
    and "osa (nfc left) (nfc right) \<le> 1"
  shows "\<exists>k. k \<in> set (deletionKeys nfc left) \<and> k \<in> set (deletionKeys nfc right)"
  using one_edit_key [OF osa_script assms(3)] assms(1,2) by (simp add: deletionKeys_iff)

subsection \<open>Two edits leave a common boundary bigram\<close>

text \<open>
  A step of a script destroys at most three bigrams (a transposition does), and a token of
  six points has seven of them between its boundary marks.
\<close>

fun bigrams :: "'a list \<Rightarrow> 'a list multiset" where
  "bigrams (x # y # xs) = add_mset [x, y] (bigrams (y # xs))"
| "bigrams _ = {#}"

lemma bigrams_size: "size (bigrams xs) = length xs - 1"
  by (induction xs rule: bigrams.induct) auto

lemma bigrams_index: "set_mset (bigrams xs) = (\<lambda>i. [xs ! i, xs ! Suc i]) ` {0..<length xs - 1}"
proof (induction xs rule: bigrams.induct)
  case (1 x y xs)
  have "{0..<length (x # y # xs) - 1} = insert 0 (Suc ` {0..<length (y # xs) - 1})"
    by (simp add: image_Suc_atLeastLessThan atLeast0_lessThan_Suc_eq_insert_0)
  then show ?case using 1 by (simp add: image_image del: image_Suc_atLeastLessThan)
qed auto

lemma size_minus_add:
  "size (add_mset x A - B) \<le> Suc (size (A - B))"
  "size (A - add_mset x B) \<le> size (A - B)"
proof -
  have "add_mset x A - B \<subseteq># add_mset x (A - B)"
    by (simp add: subseteq_mset_def)
  from size_mset_mono [OF this] show "size (add_mset x A - B) \<le> Suc (size (A - B))" by simp
  show "size (A - add_mset x B) \<le> size (A - B)"
    by (rule size_mset_mono) (simp add: subseteq_mset_def)
qed

lemma script_bigrams:
  "edit_script a b n \<Longrightarrow>
   size (bigrams (p # a @ [z]) - bigrams (q # b @ [z])) \<le> 3 * n + (if p = q then 0 else 1)"
proof (induction arbitrary: p q rule: edit_script.induct)
  case script_nil
  then show ?case by simp
next
  case (script_keep a b n x)
  let ?A = "bigrams (x # a @ [z])" and ?B = "bigrams (x # b @ [z])"
  have IH: "size (?A - ?B) \<le> 3 * n" using script_keep.IH [of x x] by simp
  show ?case
    using IH size_minus_add(1) [of "[p, x]" ?A "add_mset [q, x] ?B"]
      size_minus_add(2) [of ?A "[q, x]" ?B] by (auto simp: add_mset_diff_bothsides)
next
  case (script_delete a b n x)
  let ?A = "bigrams (x # a @ [z])" and ?B = "bigrams (q # b @ [z])"
  have "size (?A - ?B) \<le> 3 * n + 1" using script_delete.IH [of x q] by (simp split: if_splits)
  then show ?case using size_minus_add(1) [of "[p, x]" ?A ?B] by simp
next
  case (script_insert a b n y)
  let ?A = "bigrams (p # a @ [z])" and ?B = "bigrams (y # b @ [z])"
  have "size (?A - ?B) \<le> 3 * n + 1" using script_insert.IH [of p y] by (simp split: if_splits)
  then show ?case using size_minus_add(2) [of ?A "[q, y]" ?B] by simp
next
  case (script_substitute a b n x y)
  let ?A = "bigrams (x # a @ [z])" and ?B = "bigrams (y # b @ [z])"
  have "size (?A - ?B) \<le> 3 * n + 1" using script_substitute.IH [of x y] by (simp split: if_splits)
  then show ?case
    using size_minus_add(1) [of "[p, x]" ?A "add_mset [q, y] ?B"]
      size_minus_add(2) [of ?A "[q, y]" ?B] by simp
next
  case (script_swap a b n x y)
  let ?A = "bigrams (y # a @ [z])" and ?B = "bigrams (x # b @ [z])"
  let ?B1 = "add_mset [y, x] ?B" and ?A1 = "add_mset [x, y] ?A"
  have "size (?A - ?B) \<le> 3 * n + 1" using script_swap.IH [of y x] by (simp split: if_splits)
  then have "size (?A - add_mset [q, y] ?B1) \<le> 3 * n + 1"
    using size_minus_add(2) [of ?A "[q, y]" ?B1] size_minus_add(2) [of ?A "[y, x]" ?B] by linarith
  then show ?case
    using size_minus_add(1) [of "[p, x]" ?A1 "add_mset [q, y] ?B1"]
      size_minus_add(1) [of "[x, y]" ?A "add_mset [q, y] ?B1"] by simp
qed

lemma two_edits_common_gram:
  assumes "osa (nfc left) (nfc right) \<le> 2"
    and "supportedEditLimit nfc left = 2" "supportedEditLimit nfc right = 2"
  shows "\<exists>g. g \<in> set (editGrams nfc left) \<and> g \<in> set (editGrams nfc right)"
proof -
  let ?A = "bigrams (94 # nfc left @ [36 :: nat])" and ?B = "bigrams (94 # nfc right @ [36 :: nat])"
  have grams: "set (editGrams nfc t) = set_mset (bigrams (94 # nfc t @ [36 :: nat]))"
    if "supportedEditLimit nfc t = 2" for t
    using that by (simp add: editGrams_def Let_def bigrams_index codePoints_def del: upt_Suc)
  have "6 \<le> length (nfc left)"
    using assms(2) by (simp add: supportedEditLimit_def Let_def codePoints_def edit_limits split: if_splits)
  then have "7 \<le> size ?A" by (simp add: bigrams_size)
  moreover have "size (?A - ?B) \<le> 6"
    using script_bigrams [OF osa_script [of "nfc left" "nfc right"], of 94 36 94] assms(1) by simp
  moreover have "?A - ?B = ?A" if "\<And>g. g \<in># ?A \<Longrightarrow> g \<notin># ?B"
  proof (rule multiset_eqI)
    fix g
    show "count (?A - ?B) g = count ?A g"
      using that [of g] by (cases "g \<in># ?A") (auto simp: not_in_iff)
  qed
  ultimately obtain g where "g \<in># ?A" "g \<in># ?B" by fastforce
  then show ?thesis using grams assms by blast
qed

lemma withinSupportedEdits_reachable:
  assumes "withinSupportedEdits nfc left right" "nfc left \<noteq> nfc right"
  shows "(withinOneEdit nfc left right \<and> (\<exists>k. k \<in> set (deletionKeys nfc left) \<and> k \<in> set (deletionKeys nfc right)))
    \<or> (\<exists>g. g \<in> set (editGrams nfc left) \<and> g \<in> set (editGrams nfc right))"
proof -
  let ?l = "supportedEditLimit nfc left" and ?r = "supportedEditLimit nfc right"
  have lim: "0 < min ?l ?r" "osa (nfc left) (nfc right) \<le> min ?l ?r"
    using assms by (auto simp: withinSupportedEdits_iff Let_def)
  show ?thesis
  proof (cases "osa (nfc left) (nfc right) \<le> 1")
    case True
    moreover have "1 \<le> ?l" "1 \<le> ?r" using lim(1) by auto
    ultimately show ?thesis
      using one_edit_common_key by (auto simp: withinOneEdit_iff)
  next
    case False
    then have "?l = 2" "?r = 2" "osa (nfc left) (nfc right) \<le> 2"
      using lim limit_le_2 [of nfc left] limit_le_2 [of nfc right] by linarith+
    from two_edits_common_gram [OF this(3,1,2)] show ?thesis by blast
  qed
qed

text \<open>
  C21: The bounded distance is exact: for every non-negative safe bound the table computes,
  without an error, the cost of the cheapest edit script between the two composed tokens,
  capped at the bound plus one; neither the length guard nor the early return changes it.
\<close>

theorem edit_distance_exact:
  assumes "is_safe m" and "0 \<le> m"
  shows "boundedEditDistance nfc left right (JInt m)
    = Inr (min (LEAST n. edit_script (nfc left) (nfc right) n) (nat m + 1))"
  using assms by (simp add: bounded_osa osa_Least)

theorem edit_distance_exact_witness:
  "boundedEditDistance id [1, 2, 3, 4] [2, 1, 3] (JInt 2)
    = Inr (min (LEAST n. edit_script [1, 2, 3, 4 :: nat] [2, 1, 3] n) 3)"
  using edit_distance_exact [of 2 id "[1, 2, 3, 4]" "[2, 1, 3]"] by (simp add: is_safe_def max_safe_def)

end
