(* ===== verification/Name_Score.thy ===== *)
theory Name_Score
  imports Edit_Distance Complex_Main
begin

text \<open>
  The three name scores of the screening engine: token overlap (\<open>nameScore\<close> of
  \<open>src/aml/match.ts\<close>), the greedy edited-token score and the missing-token score
  (\<open>editNameScore\<close> and \<open>missingTokenNameScore\<close> of \<open>src/aml/edit-distance.ts\<close>). Scores are
  exact rationals; the rounding of the program's doubles is not modelled.
\<close>

subsection \<open>The code\<close>

definition nameScore :: "token list \<Rightarrow> token list \<Rightarrow> rat" where
  "nameScore a b =
     (let A = set_list a; B = set_list b; inter = length (filter (\<lambda>t. t \<in> set B) A) in
      if inter = 0 then 0
      else let jac = of_nat inter / of_nat (length A + length B - inter); small = min (length A) (length B) in
        if small < 3 then jac
        else let contain = of_nat inter / of_nat small * (95 / 100);
                 ratio = of_nat small / of_nat (max (length A) (length B))
             in max jac (contain * (6 / 10 + 4 / 10 * ratio)))"

definition pair_score :: "(token \<Rightarrow> token) \<Rightarrow> token \<Rightarrow> token \<Rightarrow> rat" where
  "pair_score nfc x y = 1 - of_nat (distanceOf nfc x y 2)
     / of_nat (max (length (codePoints nfc x)) (length (codePoints nfc y)))"

text \<open>The string order \<open><\<close> compares UTF-16 code units.\<close>

definition js_less :: "token \<Rightarrow> token \<Rightarrow> bool" where
  "js_less x y \<longleftrightarrow> utf16 x < utf16 y"

record greedy =
  usedA :: "nat list"
  usedB :: "nat list"
  total :: rat

definition use_pair :: "nat \<Rightarrow> nat \<Rightarrow> rat \<Rightarrow> greedy \<Rightarrow> greedy" where
  "use_pair i j s g = \<lparr>usedA = i # usedA g, usedB = j # usedB g, total = total g + s\<rparr>"

text \<open>The exact pairs, then the pairs of unused tokens within the supported edits.\<close>

definition exact_step :: "token list \<Rightarrow> token list \<Rightarrow> nat \<Rightarrow> greedy \<Rightarrow> greedy" where
  "exact_step a b i g = (case index_of (a ! i) b of Some j \<Rightarrow> use_pair i j 1 g | None \<Rightarrow> g)"

definition edit_pairs :: "(token \<Rightarrow> token) \<Rightarrow> token list \<Rightarrow> token list \<Rightarrow> greedy \<Rightarrow> (nat \<times> nat \<times> rat) list" where
  "edit_pairs nfc a b g = concat (map (\<lambda>i. if i \<in> set (usedA g) then [] else
     map (\<lambda>j. (i, j, pair_score nfc (a ! i) (b ! j)))
       (filter (\<lambda>j. j \<notin> set (usedB g) \<and> withinSupportedEdits nfc (a ! i) (b ! j)) [0..<length b])) [0..<length a])"

definition pair_before :: "token list \<Rightarrow> token list \<Rightarrow> nat \<times> nat \<times> rat \<Rightarrow> nat \<times> nat \<times> rat \<Rightarrow> bool" where
  "pair_before a b x y = (case (x, y) of ((xi, xj, xs), (yi, yj, ys)) \<Rightarrow>
     ys < xs \<or> (xs = ys \<and> (js_less (a ! xi) (a ! yi)
       \<or> (\<not> js_less (a ! yi) (a ! xi) \<and> js_less (b ! xj) (b ! yj)))))"

definition greedy_step :: "nat \<times> nat \<times> rat \<Rightarrow> greedy \<Rightarrow> greedy" where
  "greedy_step p g = (case p of (i, j, s) \<Rightarrow>
     if i \<notin> set (usedA g) \<and> j \<notin> set (usedB g) then use_pair i j s g else g)"

definition editNameScore :: "(token \<Rightarrow> token) \<Rightarrow> token list \<Rightarrow> token list \<Rightarrow> rat" where
  "editNameScore nfc left right =
     (let a = set_list left; b = set_list right in
      if a = [] \<or> b = [] then 0
      else let g = fold (exact_step a b) [0..<length a] \<lparr>usedA = [], usedB = [], total = 0\<rparr>;
               g' = fold greedy_step (sort_by (pair_before a b) (edit_pairs nfc a b g)) g
           in total g' / of_nat (max (length a) (length b)))"

text \<open>The best unused partner of one token of the smaller name, with its score.\<close>

fun best_partner :: "(token \<Rightarrow> token) \<Rightarrow> token \<Rightarrow> token list \<Rightarrow> nat list \<Rightarrow> (nat \<times> rat) option \<Rightarrow> nat list \<Rightarrow> (nat \<times> rat) option" where
  "best_partner nfc tok large used best [] = best"
| "best_partner nfc tok large used best (j # js) =
     best_partner nfc tok large used
       (if j \<notin> set used \<and> withinSupportedEdits nfc tok (large ! j)
        then let s = pair_score nfc tok (large ! j) in
          (case best of None \<Rightarrow> if - 1 < s then Some (j, s) else None
           | Some (k, bestScore) \<Rightarrow> if bestScore < s then Some (j, s) else best)
        else best) js"

fun missing_similarity :: "(token \<Rightarrow> token) \<Rightarrow> token list \<Rightarrow> token list \<Rightarrow> nat list \<Rightarrow> rat \<Rightarrow> rat option" where
  "missing_similarity nfc large [] used sim = Some sim"
| "missing_similarity nfc large (tok # toks) used sim =
     (case best_partner nfc tok large used None [0..<length large] of
        None \<Rightarrow> None
      | Some (j, s) \<Rightarrow> missing_similarity nfc large toks (j # used) (sim + s))"

definition missingTokenNameScore :: "(token \<Rightarrow> token) \<Rightarrow> token list \<Rightarrow> token list \<Rightarrow> rat" where
  "missingTokenNameScore nfc left right =
     (let a = set_list left; b = set_list right in
      if \<bar>int (length a) - int (length b)\<bar> \<noteq> 1 \<or> min (length a) (length b) < 2 then 0
      else let small = (if length a < length b then a else b);
               large = (if length a < length b then b else a)
           in case missing_similarity nfc large small [] 0 of
                None \<Rightarrow> 0
              | Some sim \<Rightarrow> 82 / 100 * (sim / of_nat (length small)))"

subsection \<open>A positive score comes from a pair of tokens within the supported edits\<close>

definition near_pair :: "(token \<Rightarrow> token) \<Rightarrow> token list \<Rightarrow> token list \<Rightarrow> bool" where
  "near_pair nfc a b \<longleftrightarrow> (\<exists>x \<in> set a. \<exists>y \<in> set b. withinSupportedEdits nfc x y)"

lemma near_pairI:
  "i < length a \<Longrightarrow> j < length b \<Longrightarrow> withinSupportedEdits nfc (a ! i) (b ! j) \<Longrightarrow> near_pair nfc a b"
  unfolding near_pair_def using nth_mem by blast

lemma near_pair_set_list [simp]: "near_pair nfc (set_list a) (set_list b) \<longleftrightarrow> near_pair nfc a b"
  by (simp add: near_pair_def)

lemma withinSupportedEdits_refl [simp]: "withinSupportedEdits nfc x x"
  by (simp add: withinSupportedEdits_def)

lemma script_sym: "edit_script a b n \<Longrightarrow> edit_script b a n"
  by (induction rule: edit_script.induct) (auto intro: edit_script.intros)

lemma osa_sym: "osa a b = osa b a"
  by (rule order_antisym [OF osa_least [OF script_sym [OF osa_script]] osa_least [OF script_sym [OF osa_script]]])

lemma withinSupportedEdits_sym: "withinSupportedEdits nfc x y \<Longrightarrow> withinSupportedEdits nfc y x"
  unfolding withinSupportedEdits_iff Let_def osa_sym [of "nfc x" "nfc y"]
    min.commute [of "supportedEditLimit nfc x"] by auto

lemma near_pair_sym: "near_pair nfc a b \<Longrightarrow> near_pair nfc b a"
  using withinSupportedEdits_sym unfolding near_pair_def by blast

lemma nameScore_shared:
  assumes "nameScore a b \<noteq> 0"
  shows "\<exists>t \<in> set a. t \<in> set b"
proof -
  have "filter (\<lambda>t. t \<in> set (set_list b)) (set_list a) \<noteq> []"
    using assms by (auto simp: nameScore_def Let_def)
  then show ?thesis by (auto simp: filter_empty_conv)
qed

lemma nameScore_near: "nameScore a b \<noteq> 0 \<Longrightarrow> near_pair nfc a b"
  unfolding near_pair_def using nameScore_shared withinSupportedEdits_refl by blast

lemma edit_pairs_near:
  assumes "(i, j, s) \<in> set (edit_pairs nfc a b g)"
  shows "i < length a" "j < length b" "withinSupportedEdits nfc (a ! i) (b ! j)" "s = pair_score nfc (a ! i) (b ! j)"
  using assms by (auto simp: edit_pairs_def split: if_splits)

lemma exact_fold_near:
  assumes "\<not> near_pair nfc a b" "set is \<subseteq> {0..<length a}"
  shows "fold (exact_step a b) is g = g"
proof -
  have "exact_step a b i g = g" if i: "i < length a" for i g
  proof (cases "index_of (a ! i) b")
    case (Some j)
    from index_of_Some [OF this] i have "near_pair nfc a b"
      by (intro near_pairI [of i a j b]) auto
    with assms(1) show ?thesis by blast
  qed (simp add: exact_step_def)
  then show ?thesis using assms(2) by (induction "is" arbitrary: g) auto
qed

lemma editNameScore_near:
  assumes "editNameScore nfc a b \<noteq> 0"
  shows "near_pair nfc a b"
proof (rule ccontr)
  assume not_near: "\<not> near_pair nfc a b"
  let ?a = "set_list a" and ?b = "set_list b" and ?g = "\<lparr>usedA = [], usedB = [], total = 0\<rparr> :: greedy"
  have nn: "\<not> near_pair nfc ?a ?b" using not_near by simp
  have exact: "fold (exact_step ?a ?b) [0..<length ?a] ?g = ?g"
    by (rule exact_fold_near [OF nn]) auto
  have "edit_pairs nfc ?a ?b ?g = []"
  proof (rule ccontr)
    assume "edit_pairs nfc ?a ?b ?g \<noteq> []"
    then obtain i j s where "(i, j, s) \<in> set (edit_pairs nfc ?a ?b ?g)" by (metis list.set_sel(1) prod_cases3)
    from near_pairI [OF edit_pairs_near(1-3) [OF this]] nn show False by blast
  qed
  then have "editNameScore nfc a b = 0"
    unfolding editNameScore_def Let_def exact by (simp add: sort_by_def)
  with assms show False by simp
qed

lemma best_partner_near:
  assumes "best_partner nfc tok large used best js = Some (j, s)" "set js \<subseteq> {0..<length large}"
    and "\<And>k r. best = Some (k, r) \<Longrightarrow> k < length large \<and> k \<notin> set used \<and> withinSupportedEdits nfc tok (large ! k)
      \<and> r = pair_score nfc tok (large ! k)"
  shows "j < length large \<and> j \<notin> set used \<and> withinSupportedEdits nfc tok (large ! j) \<and> s = pair_score nfc tok (large ! j)"
  using assms
proof (induction js arbitrary: best)
  case Nil
  then show ?case by simp
next
  case (Cons k js)
  show ?case
    by (rule Cons.IH [OF Cons.prems(1) [unfolded best_partner.simps]])
      (use Cons.prems in \<open>auto simp: Let_def split: if_splits option.splits prod.splits\<close>)
qed

lemma missing_similarity_near:
  assumes "missing_similarity nfc large (tok # toks) used sim = Some r"
  shows "\<exists>j < length large. withinSupportedEdits nfc tok (large ! j)"
proof -
  from assms obtain j s where "best_partner nfc tok large used None [0..<length large] = Some (j, s)"
    by (auto split: option.splits)
  from best_partner_near [OF this] show ?thesis by auto
qed

lemma missingTokenNameScore_near:
  assumes "missingTokenNameScore nfc a b \<noteq> 0"
  shows "near_pair nfc a b"
proof -
  let ?a = "set_list a" and ?b = "set_list b"
  let ?small = "if length ?a < length ?b then ?a else ?b" and ?large = "if length ?a < length ?b then ?b else ?a"
  from assms obtain r where r: "missing_similarity nfc ?large ?small [] 0 = Some r" and two: "2 \<le> min (length ?a) (length ?b)"
    unfolding missingTokenNameScore_def Let_def by (auto split: if_splits option.splits)
  from two obtain tok toks where small: "?small = tok # toks"
    by (cases ?small) (auto split: if_splits)
  from missing_similarity_near [OF r [unfolded small]]
  obtain j where j: "j < length ?large" "withinSupportedEdits nfc tok (?large ! j)" by blast
  have "near_pair nfc ?small ?large"
    using near_pairI [of 0 ?small j ?large] j small by simp
  then show ?thesis
    using near_pair_sym by (auto split: if_splits)
qed

subsection \<open>Bounds\<close>

lemma pair_score_bounds:
  assumes "withinSupportedEdits nfc x y"
  shows "0 \<le> pair_score nfc x y" "pair_score nfc x y \<le> 1"
proof -
  show "pair_score nfc x y \<le> 1" by (simp add: pair_score_def)
  have "distanceOf nfc x y 2 \<le> max (length (nfc x)) (length (nfc y))"
  proof (cases "nfc x = nfc y")
    case True
    then show ?thesis by (simp add: distance_value)
  next
    case False
    then have "1 \<le> supportedEditLimit nfc x"
      using assms by (simp add: withinSupportedEdits_iff Let_def)
    then have "4 \<le> length (nfc x)"
      by (simp add: supportedEditLimit_def Let_def codePoints_def edit_limits split: if_splits)
    then show ?thesis by (simp add: distance_value)
  qed
  then show "0 \<le> pair_score nfc x y"
    by (simp add: pair_score_def codePoints_def divide_le_eq)
qed

end
