(* ===== verification/Identity_Compare.thy ===== *)
theory Identity_Compare
  imports Names
begin

text \<open>
  The comparison of supplied identity descriptors with a list entry
  (\<open>src/aml/identity.ts\<close>): dates of birth at day or year precision, countries, and the two
  predicates the screening decision reads.
\<close>

datatype comparison = Match | Year_Match | Conflict | Missing | Invalid

record identity_comparison =
  dobResult :: comparison
  nationalityResult :: comparison

datatype precision_of = Day | Year

definition digits_value :: "ustring \<Rightarrow> nat" where
  "digits_value s = foldl (\<lambda>n c. 10 * n + (c - 48)) 0 s"

definition leap_year :: "nat \<Rightarrow> bool" where
  "leap_year y \<longleftrightarrow> (4 dvd y \<and> \<not> 100 dvd y) \<or> 400 dvd y"

definition month_days :: "nat \<Rightarrow> nat \<Rightarrow> nat" where
  "month_days y m = (if m = 2 then (if leap_year y then 29 else 28)
     else if m \<in> {4, 6, 9, 11} then 30 else 31)"

text \<open>
  \<open>Date.UTC\<close> carries an overflowing month or day into the next unit, so its components
  agree with the written ones exactly for a date of the calendar.
\<close>

definition calendar_date :: "nat \<Rightarrow> nat \<Rightarrow> nat \<Rightarrow> bool" where
  "calendar_date y m d \<longleftrightarrow> 1 \<le> m \<and> m \<le> 12 \<and> 1 \<le> d \<and> d \<le> month_days y m"

definition precision :: "ustring \<Rightarrow> precision_of option" where
  "precision v =
     (if is_year v \<and> v ! 0 \<noteq> 48 then Some Year
      else if \<not> (is_ymd v \<and> v ! 0 \<noteq> 48) then None
      else if calendar_date (digits_value (take 4 v)) (digits_value (take 2 (drop 5 v))) (digits_value (drop 8 v))
           then Some Day else None)"

definition compareDob :: "ustring option \<Rightarrow> ustring list \<Rightarrow> comparison" where
  "compareDob subject listed = (case subject of
     None \<Rightarrow> Missing
   | Some v \<Rightarrow>
     if v = [] then Missing
     else case precision v of
       None \<Rightarrow> Invalid
     | Some p \<Rightarrow>
       if listed = [] then Missing
       else let valid = filter (\<lambda>l. precision l \<noteq> None) listed in
         if valid = [] then Invalid
         else if p = Day \<and> list_ex (\<lambda>l. precision l = Some Day \<and> l = v) valid then Match
         else if list_ex (\<lambda>l. take 4 l = take 4 v \<and> (p = Year \<or> precision l = Some Year)) valid then Year_Match
         else Conflict)"

definition country_code :: "ustring \<Rightarrow> bool" where
  "country_code s \<longleftrightarrow> length s = 2 \<and> list_all (\<lambda>c. 65 \<le> c \<and> c \<le> 90) s"

definition compareIdentity :: "ustring option \<Rightarrow> ustring \<Rightarrow> ustring list \<Rightarrow> ustring list \<Rightarrow> identity_comparison" where
  "compareIdentity dob nationality listedDobs listedCountries =
     \<lparr>dobResult = compareDob dob listedDobs,
      nationalityResult =
        (if nationality = [] \<or> listedCountries = [] then Missing
         else if \<not> country_code nationality \<or> \<not> list_ex country_code listedCountries then Invalid
         else if nationality \<in> set listedCountries then Match else Conflict)\<rparr>"

definition identityConflicts :: "identity_comparison \<Rightarrow> bool" where
  "identityConflicts c \<longleftrightarrow> dobResult c = Conflict \<or> nationalityResult c = Conflict"

definition identityUnusable :: "identity_comparison \<Rightarrow> bool" where
  "identityUnusable c \<longleftrightarrow> dobResult c = Invalid \<or> nationalityResult c = Invalid"

subsection \<open>Properties\<close>

lemma compareDob_match_iff:
  "compareDob dob listed = Match \<longleftrightarrow> (\<exists>v. dob = Some v \<and> precision v = Some Day \<and> v \<in> set listed)"
proof -
  have empty: "precision [] = None" by (simp add: precision_def is_year_def is_ymd_def)
  show ?thesis
    by (cases dob) (use empty in \<open>auto simp: compareDob_def Let_def list_ex_iff filter_empty_conv
        split: option.splits if_splits\<close>)
qed

lemma compareDob_year:
  "compareDob dob listed = Year_Match \<Longrightarrow>
   \<exists>v l. dob = Some v \<and> l \<in> set listed \<and> take 4 l = take 4 v \<and> (precision v = Some Year \<or> precision l = Some Year)"
  by (cases dob) (auto simp: compareDob_def Let_def list_ex_iff split: option.splits if_splits)

lemma nationality_not_year [simp]:
  "nationalityResult (compareIdentity dob nat' dobs countries) \<noteq> Year_Match"
  by (simp add: compareIdentity_def)

end
