(* ===== verification/Aml_Match.thy ===== *)
theory Aml_Match
  imports Name_Score Identity_Compare
begin

text \<open>
  The matcher (\<open>src/aml/match.ts\<close>): the corpus with its token, deletion-signature, bigram
  and wallet indexes, the retrieval of candidate names under the query limits, and the
  hits of one screening input. A JavaScript \<open>Map\<close> is an association list in insertion
  order, a \<open>Set\<close> a list without repetitions, and every capacity error is a value.
\<close>

subsection \<open>Entries, limits and the corpus\<close>

datatype list_id = OFAC_SDN | UN_CONSOLIDATED | EU_FSF

record sanction_entry =
  listId :: list_id
  entryId :: ustring
  primaryName :: ustring
  entryNames :: "ustring list"
  entryDobs :: "ustring list"
  entryCountries :: "ustring list"
  cryptoAddresses :: "ustring list"

type_synonym match_limits = "(string \<times> js_num) list"

definition DEFAULT_MATCH_LIMITS :: match_limits where
  "DEFAULT_MATCH_LIMITS =
    [(''maxIndexNames'', JInt 250000), (''maxIndexTokenPostings'', JInt 1500000),
     (''maxIndexGramPostings'', JInt 3000000), (''maxQueryTokens'', JInt 64),
     (''maxQueryTokenPostings'', JInt 300000), (''maxVocabularyCandidates'', JInt 100000),
     (''maxCandidateNames'', JInt 100000)]"

definition limitsOf :: "match_limits \<Rightarrow> aml_error + match_limits" where
  "limitsOf overrides =
     (let limits = foldl (\<lambda>m (k, v). AList.update k v m) DEFAULT_MATCH_LIMITS overrides in
      case List.find (\<lambda>(k, v). \<not> js_safe v \<or> js_val v < 1) limits of
        Some (k, v) \<Rightarrow> Inl (Invalid_Match_Limit k)
      | None \<Rightarrow> Inr limits)"

definition limit_of :: "match_limits \<Rightarrow> string \<Rightarrow> nat" where
  "limit_of limits k = (case map_of limits k of Some v \<Rightarrow> nat (js_val v) | None \<Rightarrow> 0)"

record indexed_name =
  entryIdx :: nat
  norm :: ustring
  tokens :: "token list"
  isAlias :: bool

record corpus =
  entries :: "sanction_entry list"
  names :: "indexed_name list"
  byToken :: "(token \<times> nat list) list"
  byDeletion :: "(token \<times> token list) list"
  byGram :: "(token \<times> token list) list"
  limits :: match_limits
  byWallet :: "(ustring \<times> nat) list"

definition evm_address :: "ustring \<Rightarrow> bool" where
  "evm_address s \<longleftrightarrow> length s = 42 \<and> take 2 s = ascii ''0x''
     \<and> list_all (\<lambda>c. ascii_digit c \<or> (65 \<le> c \<and> c \<le> 70) \<or> (97 \<le> c \<and> c \<le> 102)) (drop 2 s)"

text \<open>\<open>let l = m.get(k); if (!l) m.set(k, l = []); l.push(v)\<close>.\<close>

definition map_push :: "'k \<Rightarrow> 'v \<Rightarrow> ('k \<times> 'v list) list \<Rightarrow> ('k \<times> 'v list) list" where
  "map_push k v m = AList.update k ((case map_of m k of Some l \<Rightarrow> l | None \<Rightarrow> []) @ [v]) m"

definition get_list :: "('k \<times> 'v list) list \<Rightarrow> 'k \<Rightarrow> 'v list" where
  "get_list m k = (case map_of m k of Some l \<Rightarrow> l | None \<Rightarrow> [])"

subsection \<open>Building the corpus\<close>

type_synonym build = "corpus \<times> nat"

fun add_postings :: "nat \<Rightarrow> token list \<Rightarrow> build \<Rightarrow> aml_error + build" where
  "add_postings idx [] st = Inr st"
| "add_postings idx (t # ts) (c, postings) =
     (let c' = c\<lparr>byToken := map_push t idx (byToken c)\<rparr> in
      if limit_of (limits c) ''maxIndexTokenPostings'' < Suc postings
      then Inl (Match_Capacity ''index token postings'')
      else add_postings idx ts (c', Suc postings))"

definition add_name :: "unicode \<Rightarrow> nat \<Rightarrow> nat \<Rightarrow> ustring \<Rightarrow> build \<Rightarrow> aml_error + build" where
  "add_name u ei ni raw st =
     (let (c, postings) = st; nm = normalizeName u raw; toks = contentTokens (tokenize nm) in
      if nm = [] then Inr st
      else if toks = [] then Inr st
      else let idx = length (names c);
               c' = c\<lparr>names := names c @ [\<lparr>entryIdx = ei, norm = nm, tokens = toks, isAlias = (0 < ni)\<rparr>]\<rparr> in
        if limit_of (limits c) ''maxIndexNames'' < length (names c')
        then Inl (Match_Capacity ''index names'')
        else add_postings idx (set_list toks) (c', postings))"

fun add_names :: "unicode \<Rightarrow> nat \<Rightarrow> nat \<Rightarrow> ustring list \<Rightarrow> build \<Rightarrow> aml_error + build" where
  "add_names u ei ni [] st = Inr st"
| "add_names u ei ni (raw # raws) st =
     bindE (add_name u ei ni raw st) (\<lambda>st'. add_names u ei (Suc ni) raws st')"

definition add_wallets :: "nat \<Rightarrow> sanction_entry \<Rightarrow> corpus \<Rightarrow> corpus" where
  "add_wallets ei e c = foldl (\<lambda>c a. if evm_address a
     then c\<lparr>byWallet := AList.update (map lower_ascii a) ei (byWallet c)\<rparr> else c) c (cryptoAddresses e)"

fun add_entries :: "unicode \<Rightarrow> nat \<Rightarrow> sanction_entry list \<Rightarrow> build \<Rightarrow> aml_error + build" where
  "add_entries u ei [] st = Inr st"
| "add_entries u ei (e # es) (c, postings) =
     bindE (add_names u ei 0 (entryNames e) (add_wallets ei e c, postings))
       (\<lambda>st'. add_entries u (Suc ei) es st')"

definition add_deletions :: "(token \<Rightarrow> token) \<Rightarrow> corpus \<Rightarrow> corpus" where
  "add_deletions nfc c = foldl (\<lambda>c t. foldl (\<lambda>c k. c\<lparr>byDeletion := map_push k t (byDeletion c)\<rparr>) c
     (deletionKeys nfc t)) c (map fst (byToken c))"

fun push_grams :: "token \<Rightarrow> token list \<Rightarrow> build \<Rightarrow> aml_error + build" where
  "push_grams t [] st = Inr st"
| "push_grams t (g # gs) (c, postings) =
     (let c' = c\<lparr>byGram := map_push g t (byGram c)\<rparr> in
      if limit_of (limits c) ''maxIndexGramPostings'' < Suc postings
      then Inl (Match_Capacity ''index gram postings'')
      else push_grams t gs (c', Suc postings))"

fun add_grams :: "(token \<Rightarrow> token) \<Rightarrow> token list \<Rightarrow> build \<Rightarrow> aml_error + build" where
  "add_grams nfc [] st = Inr st"
| "add_grams nfc (t # ts) st = bindE (push_grams t (editGrams nfc t) st) (\<lambda>st'. add_grams nfc ts st')"

definition buildCorpus :: "unicode \<Rightarrow> sanction_entry list \<Rightarrow> match_limits \<Rightarrow> aml_error + corpus" where
  "buildCorpus u es overrides =
     bindE (limitsOf overrides) (\<lambda>ls.
     bindE (add_entries u 0 es (\<lparr>entries = es, names = [], byToken = [], byDeletion = [], byGram = [],
       limits = ls, byWallet = []\<rparr>, 0)) (\<lambda>(c, postings).
     bindE (add_grams (to_nfc u) (map fst (byToken c)) (add_deletions (to_nfc u) c, 0)) (\<lambda>(c', grams).
     Inr c')))"

subsection \<open>Candidates of a query\<close>

datatype match_type = Exact | Fuzzy | Alias | Romanized | Wallet

record candidate =
  candEntry :: sanction_entry
  candName :: ustring
  candScore :: rat
  candType :: match_type

definition set_add :: "'a \<Rightarrow> 'a list \<Rightarrow> 'a list" where
  "set_add x xs = (if x \<in> set xs then xs else xs @ [x])"

text \<open>The visits counted so far and the set being built.\<close>

type_synonym 'a visited = "nat \<times> 'a list"

fun visit_deletions :: "(token \<Rightarrow> token) \<Rightarrow> nat \<Rightarrow> token \<Rightarrow> token list \<Rightarrow> token visited \<Rightarrow> aml_error + token visited" where
  "visit_deletions nfc maxVisits tok [] st = Inr st"
| "visit_deletions nfc maxVisits tok (near # nears) (visits, matching) =
     (if maxVisits < Suc visits then Inl (Match_Capacity ''query token postings'')
      else visit_deletions nfc maxVisits tok nears
        (Suc visits, if withinOneEdit nfc tok near then set_add near matching else matching))"

fun visit_grams :: "nat \<Rightarrow> nat \<Rightarrow> token list \<Rightarrow> token visited \<Rightarrow> aml_error + token visited" where
  "visit_grams maxVisits maxVocabulary [] st = Inr st"
| "visit_grams maxVisits maxVocabulary (near # nears) (visits, vocabulary) =
     (if maxVisits < Suc visits then Inl (Match_Capacity ''query token postings'')
      else let vocabulary' = set_add near vocabulary in
        if maxVocabulary < length vocabulary' then Inl (Match_Capacity ''query vocabulary candidates'')
        else visit_grams maxVisits maxVocabulary nears (Suc visits, vocabulary'))"

definition expand_token :: "(token \<Rightarrow> token) \<Rightarrow> corpus \<Rightarrow> token \<Rightarrow> token visited \<Rightarrow> aml_error + token visited" where
  "expand_token nfc c tok st =
     bindE (visit_deletions nfc (limit_of (limits c) ''maxQueryTokenPostings'') tok
       (concat (map (get_list (byDeletion c)) (deletionKeys nfc tok))) st) (\<lambda>(visits, matching).
     bindE (visit_grams (limit_of (limits c) ''maxQueryTokenPostings'') (limit_of (limits c) ''maxVocabularyCandidates'')
       (concat (map (get_list (byGram c)) (editGrams nfc tok))) (visits, [])) (\<lambda>(visits', vocabulary).
     Inr (visits', foldl (\<lambda>m near. if withinSupportedEdits nfc tok near then set_add near m else m)
       matching vocabulary)))"

fun expand_tokens :: "(token \<Rightarrow> token) \<Rightarrow> corpus \<Rightarrow> token list \<Rightarrow> token visited \<Rightarrow> aml_error + token visited" where
  "expand_tokens nfc c [] st = Inr st"
| "expand_tokens nfc c (t # ts) st = bindE (expand_token nfc c t st) (\<lambda>st'. expand_tokens nfc c ts st')"

fun collect_names :: "nat \<Rightarrow> nat list \<Rightarrow> nat list \<Rightarrow> aml_error + nat list" where
  "collect_names maxNames [] cands = Inr cands"
| "collect_names maxNames (ni # nis) cands =
     (let cands' = set_add ni cands in
      if maxNames < length cands' then Inl (Match_Capacity ''query candidate names'')
      else collect_names maxNames nis cands')"

fun visit_tokens :: "corpus \<Rightarrow> token list \<Rightarrow> nat visited \<Rightarrow> aml_error + nat visited" where
  "visit_tokens c [] st = Inr st"
| "visit_tokens c (t # ts) (visits, cands) =
     (case map_of (byToken c) t of
        None \<Rightarrow> visit_tokens c ts (visits, cands)
      | Some l \<Rightarrow>
          let visits' = visits + length l in
          if limit_of (limits c) ''maxQueryTokenPostings'' < visits'
          then Inl (Match_Capacity ''query token postings'')
          else bindE (collect_names (limit_of (limits c) ''maxCandidateNames'') l cands)
            (\<lambda>cands'. visit_tokens c ts (visits', cands')))"

definition name_score_of :: "(token \<Rightarrow> token) \<Rightarrow> match_type \<Rightarrow> token list \<Rightarrow> token list \<Rightarrow> rat" where
  "name_score_of nfc ty query toks =
     max (max (nameScore query toks) (if ty = Romanized then 0 else editNameScore nfc query toks))
       (if ty = Romanized then 0 else missingTokenNameScore nfc query toks)"

definition keep_best :: "(token \<Rightarrow> token) \<Rightarrow> corpus \<Rightarrow> token list \<Rightarrow> match_type \<Rightarrow> rat
    \<Rightarrow> (nat \<times> candidate) list \<Rightarrow> nat \<Rightarrow> (nat \<times> candidate) list" where
  "keep_best nfc c query ty minScore best ni =
     (let n = names c ! ni; s = name_score_of nfc ty query (tokens n) in
      if s < minScore then best
      else let cand = \<lparr>candEntry = entries c ! entryIdx n, candName = norm n, candScore = s,
                 candType = (if isAlias n \<and> ty = Fuzzy then Alias else ty)\<rparr> in
        case map_of best (entryIdx n) of
          None \<Rightarrow> AList.update (entryIdx n) cand best
        | Some prev \<Rightarrow> if candScore prev < s then AList.update (entryIdx n) cand best else best)"

definition candidatesFor :: "(token \<Rightarrow> token) \<Rightarrow> corpus \<Rightarrow> token list \<Rightarrow> match_type \<Rightarrow> rat \<Rightarrow> aml_error + candidate list" where
  "candidatesFor nfc c query ty minScore =
     (if limit_of (limits c) ''maxQueryTokens'' < length query then Inl (Match_Capacity ''query tokens'')
      else bindE (if ty = Romanized then Inr (0, set_list query)
          else expand_tokens nfc c (set_list query) (0, set_list query)) (\<lambda>(visits, matching).
        bindE (visit_tokens c matching (visits, [])) (\<lambda>(visits', cands).
        Inr (sort_by (\<lambda>x y. candScore y < candScore x)
          (map snd (foldl (keep_best nfc c query ty minScore) [] cands))))))"

subsection \<open>The hits of an input\<close>

record match_input =
  fullName :: ustring
  romanizedName :: "ustring option"
  dob :: "ustring option"
  nationality :: ustring
  walletAddress :: ustring

datatype support = By_Dob | By_Nationality | By_Wallet

record screening_hit =
  hitList :: list_id
  listVersion :: int
  hitEntry :: ustring
  matchedName :: ustring
  score :: rat
  matchType :: match_type
  corroborated :: bool
  corroboration :: "support list option"
  identityComparison :: "identity_comparison option"
  directNameScore :: "rat option"
  inferredNameScore :: "rat option"

definition list_name :: "list_id \<Rightarrow> ustring" where
  "list_name l = (case l of OFAC_SDN \<Rightarrow> ascii ''OFAC_SDN'' | UN_CONSOLIDATED \<Rightarrow> ascii ''UN_CONSOLIDATED''
     | EU_FSF \<Rightarrow> ascii ''EU_FSF'')"

definition hit_key :: "sanction_entry \<Rightarrow> ustring" where
  "hit_key e = list_name (listId e) @ ascii '':'' @ entryId e"

text \<open>\<open>Number(x.toFixed(3))\<close>.\<close>

definition toFixed3 :: "rat \<Rightarrow> rat" where
  "toFixed3 x = of_int \<lfloor>x * 1000 + 1 / 2\<rfloor> / 1000"

definition max_score :: "rat option \<Rightarrow> rat \<Rightarrow> rat option" where
  "max_score old s = Some (max (case old of Some r \<Rightarrow> r | None \<Rightarrow> 0) s)"

text \<open>
  The hits with their \<open>byEntry\<close> keys: every hit is entered under exactly one key, and a
  later candidate of the same key updates the hit in place.
\<close>

type_synonym keyed_hits = "(ustring \<times> screening_hit) list"

definition new_hit :: "match_input \<Rightarrow> candidate \<Rightarrow> match_type \<Rightarrow> screening_hit" where
  "new_hit input c ty =
     (let e = candEntry c;
          cmp = compareIdentity (dob input) (nationality input) (entryDobs e) (entryCountries e);
          corro = (if dobResult cmp = Match \<or> dobResult cmp = Year_Match then [By_Dob] else [])
            @ (if nationalityResult cmp = Match then [By_Nationality] else [])
      in \<lparr>hitList = listId e, listVersion = 0, hitEntry = entryId e, matchedName = candName c,
          score = toFixed3 (candScore c), matchType = ty,
          corroborated = (corro \<noteq> [] \<and> \<not> identityConflicts cmp \<and> \<not> identityUnusable cmp),
          corroboration = (if corro \<noteq> [] then Some corro else None), identityComparison = Some cmp,
          directNameScore = (if ty = Romanized then None else Some (candScore c)),
          inferredNameScore = (if ty = Romanized then Some (candScore c) else None)\<rparr>)"

definition merge_hit :: "candidate \<Rightarrow> match_type \<Rightarrow> screening_hit \<Rightarrow> screening_hit" where
  "merge_hit c ty prev =
     (let h = (if ty = Romanized
               then prev\<lparr>inferredNameScore := max_score (inferredNameScore prev) (candScore c)\<rparr>
               else prev\<lparr>directNameScore := max_score (directNameScore prev) (candScore c)\<rparr>)
      in if score prev < candScore c
         then h\<lparr>score := candScore c, matchType := ty, matchedName := candName c\<rparr> else h)"

definition push_hit :: "match_input \<Rightarrow> keyed_hits \<Rightarrow> candidate \<times> match_type \<Rightarrow> keyed_hits" where
  "push_hit input hits ct =
     (let (c, ty) = ct; key = hit_key (candEntry c) in
      case map_of hits key of
        Some prev \<Rightarrow> if matchType prev = Wallet then hits else AList.update key (merge_hit c ty prev) hits
      | None \<Rightarrow> AList.update key (new_hit input c ty) hits)"

definition wallet_hits :: "unicode \<Rightarrow> corpus \<Rightarrow> match_input \<Rightarrow> keyed_hits" where
  "wallet_hits u c input =
     (let w = to_lower u (walletAddress input) in
      if evm_address w \<and> list_all (\<lambda>ch. \<not> (65 \<le> ch \<and> ch \<le> 70)) w
      then case map_of (byWallet c) w of
          None \<Rightarrow> []
        | Some ei \<Rightarrow> let e = entries c ! ei in
            [(hit_key e @ ascii '':wallet'',
              \<lparr>hitList = listId e, listVersion = 0, hitEntry = entryId e, matchedName = primaryName e,
               score = 1, matchType = Wallet, corroborated = True, corroboration = Some [By_Wallet],
               identityComparison = None, directNameScore = None, inferredNameScore = None\<rparr>)]
      else [])"

definition direct_type :: "candidate \<Rightarrow> match_type" where
  "direct_type c = (if 999 / 1000 \<le> candScore c then Exact else candType c)"

fun push_names :: "unicode \<Rightarrow> corpus \<Rightarrow> match_input \<Rightarrow> ustring list \<Rightarrow> keyed_hits \<Rightarrow> aml_error + keyed_hits" where
  "push_names u c input [] hits = Inr hits"
| "push_names u c input (supplied # rest) hits =
     (let toks = contentTokens (tokenize (normalizeName u supplied)) in
      if toks \<noteq> []
      then bindE (candidatesFor (to_nfc u) c toks Fuzzy (72 / 100)) (\<lambda>cs.
        push_names u c input rest (foldl (push_hit input) hits (map (\<lambda>c. (c, direct_type c)) cs)))
      else push_names u c input rest hits)"

fun push_variants :: "unicode \<Rightarrow> corpus \<Rightarrow> match_input \<Rightarrow> ustring list \<Rightarrow> keyed_hits \<Rightarrow> aml_error + keyed_hits" where
  "push_variants u c input [] hits = Inr hits"
| "push_variants u c input (v # rest) hits =
     (let toks = contentTokens (tokenize (normalizeName u v)) in
      if toks = [] then push_variants u c input rest hits
      else bindE (candidatesFor (to_nfc u) c toks Romanized (85 / 100)) (\<lambda>cs.
        push_variants u c input rest (foldl (push_hit input) hits (map (\<lambda>c. (c, Romanized)) cs))))"

definition supplied_names :: "match_input \<Rightarrow> ustring list" where
  "supplied_names input = set_list (filter (\<lambda>v. v \<noteq> [])
     (fullName input # (case romanizedName input of Some r \<Rightarrow> [r] | None \<Rightarrow> [])))"

definition screenNames :: "unicode \<Rightarrow> corpus \<Rightarrow> match_input \<Rightarrow> aml_error + screening_hit list" where
  "screenNames u c input =
     bindE (push_names u c input (supplied_names input) (wallet_hits u c input)) (\<lambda>hits.
     bindE (if hasHangul (fullName input) then push_variants u c input (romanizeVariants (fullName input)) hits
       else Inr hits) (\<lambda>hits'.
     Inr (sort_by (\<lambda>a b. score b < score a) (map snd hits'))))"

end
