(* ===== verification/Aml_Provenance.thy ===== *)
theory Aml_Provenance
  imports Aml_Match
begin

text \<open>
  The provenance gate of the sanctions lists (\<open>src/aml/provenance.ts\<close>), the reader of the
  baked index (\<open>src/aml/index-format.ts\<close>) and the jurisdiction table
  (\<open>src/aml/jurisdiction.ts\<close>): every screen starts by checking that the lists are complete,
  unaltered and fresh. Arguments of the definitions stand for the standard library:
  \<open>instant\<close> is the time of a canonical ISO string (\<open>Date.parse\<close> followed by the
  \<open>toISOString\<close> comparison), \<open>number_of\<close> the value of \<open>Number(s)\<close> when it is finite,
  \<open>origin_path\<close> the origin and path of an https URL, and \<open>sha\<close> the SHA-256 of the
  canonical JSON text.
\<close>

subsection \<open>Sources\<close>

datatype provenance_error = Bad_Freshness_Policy | Unsupported_Provenance | Manifest_Hash_Mismatch
  | Bad_Timestamp | Future_Snapshot | Bad_Source list_id | Bad_Chronology list_id | Stale_Source list_id
  | Bad_Url | Bad_Max_Age | Index_Too_Large | Unsupported_Index | Bad_Build_Time | Entry_Hash_Mismatch
  | Bad_Index_Entry | Duplicate_Index_Entry | Bad_Index_Field | Inconsistent_Index list_id
  | Bad_Jurisdiction_Table | Evidence_Key_Required | Not_Implemented | Corpus_Provenance_Mismatch

definition LIST_IDS :: "list_id list" where
  "LIST_IDS = [OFAC_SDN, UN_CONSOLIDATED, EU_FSF]"

definition PARSER_VERSION :: string where "PARSER_VERSION = ''proofmark-lists-2''"
definition MAX_AGE_HOURS :: rat where "MAX_AGE_HOURS = 168"

definition source_url :: "list_id \<Rightarrow> string" where
  "source_url l = (case l of
     OFAC_SDN \<Rightarrow> ''https://www.treasury.gov/ofac/downloads/sdn.xml''
   | UN_CONSOLIDATED \<Rightarrow> ''https://scsanctions.un.org/resources/xml/en/consolidated.xml''
   | EU_FSF \<Rightarrow> ''https://webgate.ec.europa.eu/fsd/fsf/public/files/xmlFullSanctionsList_1_1/content?token=dG9rZW4tMjAxNw'')"

record source_evidence =
  sourceUrl :: string
  effectiveUrl :: string
  effectiveUrlSha256 :: string
  fetchedAt :: string
  checkedAt :: string
  publishedAt :: "string option"
  httpLastModified :: "string option"
  sourceSha256 :: string
  sourceBytes :: js_num
  entryCount :: js_num

record list_provenance =
  provenanceVersion :: int
  parserVersion :: string
  createdAt :: string
  sources :: "(list_id \<times> source_evidence) list"
  snapshotId :: string

definition lower_hex :: "char \<Rightarrow> bool" where
  "lower_hex c \<longleftrightarrow> hex_digit c \<and> lower_char c = c"

definition is_sha256 :: "string \<Rightarrow> bool" where
  "is_sha256 s \<longleftrightarrow> length s = 64 \<and> list_all lower_hex s"

definition control_char :: "char \<Rightarrow> bool" where
  "control_char c \<longleftrightarrow> (of_char c :: nat) \<le> 32 \<or> (of_char c :: nat) = 127"

definition publicEffectiveUrl :: "(string \<Rightarrow> string option) \<Rightarrow> string \<Rightarrow> provenance_error + string" where
  "publicEffectiveUrl origin_path v =
     (if 16384 < length v \<or> list_ex control_char v then Inl Bad_Url
      else case origin_path v of Some p \<Rightarrow> Inr p | None \<Rightarrow> Inl Bad_Url)"

definition timestamp :: "(string \<Rightarrow> int option) \<Rightarrow> string \<Rightarrow> provenance_error + int" where
  "timestamp instant v = (case instant v of Some ms \<Rightarrow> Inr ms | None \<Rightarrow> Inl Bad_Timestamp)"

definition blank :: "string \<Rightarrow> bool" where
  "blank s \<longleftrightarrow> list_all (\<lambda>c. js_space (of_char c)) s"

definition freshnessHours :: "(string \<Rightarrow> rat option) \<Rightarrow> string option \<Rightarrow> provenance_error + rat" where
  "freshnessHours number_of env = (let v = (case env of Some s \<Rightarrow> s | None \<Rightarrow> ''168'') in
     case number_of v of
       None \<Rightarrow> Inl Bad_Max_Age
     | Some h \<Rightarrow> if blank v \<or> h \<le> 0 \<or> MAX_AGE_HOURS < h then Inl Bad_Max_Age else Inr h)"

datatype sanctions_use = Screen_Use | Issuance_Use | Rescreen_Use | Epoch_Use

definition USE_MAX_AGE_ENV :: "sanctions_use \<Rightarrow> string" where
  "USE_MAX_AGE_ENV use = (case use of
     Screen_Use \<Rightarrow> ''SANCTIONS_SCREEN_MAX_AGE_HOURS'' | Issuance_Use \<Rightarrow> ''SANCTIONS_ISSUANCE_MAX_AGE_HOURS''
   | Rescreen_Use \<Rightarrow> ''SANCTIONS_RESCREEN_MAX_AGE_HOURS'' | Epoch_Use \<Rightarrow> ''SANCTIONS_EPOCH_MAX_AGE_HOURS'')"

definition freshnessHoursFor :: "(string \<Rightarrow> rat option) \<Rightarrow> (string \<Rightarrow> string option) \<Rightarrow> sanctions_use \<Rightarrow> provenance_error + rat" where
  "freshnessHoursFor number_of env use = freshnessHours number_of
     (case env (USE_MAX_AGE_ENV use) of Some v \<Rightarrow> Some v | None \<Rightarrow> env ''SANCTIONS_MAX_AGE_HOURS'')"

definition same_keys :: "('k \<times> 'v) list \<Rightarrow> 'k list \<Rightarrow> bool" where
  "same_keys m ks \<longleftrightarrow> distinct (map fst m) \<and> set (map fst m) = set ks"

definition source_wellformed :: "(string \<Rightarrow> string option) \<Rightarrow> list_id \<Rightarrow> source_evidence \<Rightarrow> bool" where
  "source_wellformed origin_path l s \<longleftrightarrow> sourceUrl s = source_url l
     \<and> publicEffectiveUrl origin_path (effectiveUrl s) = Inr (effectiveUrl s)
     \<and> is_sha256 (effectiveUrlSha256 s) \<and> is_sha256 (sourceSha256 s)
     \<and> js_safe (sourceBytes s) \<and> 0 < js_val (sourceBytes s)
     \<and> js_safe (entryCount s) \<and> 0 < js_val (entryCount s) \<and> publishedAt s = None"

text \<open>
  An invalid transport URL throws its own error inside the test of the source; the other
  failures of the test throw the source's.
\<close>

definition check_source :: "(string \<Rightarrow> int option) \<Rightarrow> (string \<Rightarrow> string option) \<Rightarrow> int \<Rightarrow> rat \<Rightarrow> int
    \<Rightarrow> list_provenance \<Rightarrow> list_id \<Rightarrow> provenance_error + unit" where
  "check_source instant origin_path now maxAge created p l =
     (case map_of (sources p) l of
        None \<Rightarrow> Inl (Bad_Source l)
      | Some s \<Rightarrow>
          if sourceUrl s = source_url l \<and> publicEffectiveUrl origin_path (effectiveUrl s) = Inl Bad_Url then Inl Bad_Url
          else bindE (requireE (Bad_Source l) (source_wellformed origin_path l s)) (\<lambda>_.
            bindE (timestamp instant (fetchedAt s)) (\<lambda>fetched.
            bindE (timestamp instant (checkedAt s)) (\<lambda>checked.
            bindE (requireE (Bad_Chronology l) (fetched = checked \<and> checked \<le> created \<and> checked \<le> now)) (\<lambda>_.
            requireE (Stale_Source l) (of_int (now - checked) \<le> maxAge * 3600000))))))"

fun check_sources :: "(string \<Rightarrow> int option) \<Rightarrow> (string \<Rightarrow> string option) \<Rightarrow> int \<Rightarrow> rat \<Rightarrow> int
    \<Rightarrow> list_provenance \<Rightarrow> list_id list \<Rightarrow> provenance_error + unit" where
  "check_sources instant origin_path now maxAge created p [] = Inr ()"
| "check_sources instant origin_path now maxAge created p (l # ls) =
     bindE (check_source instant origin_path now maxAge created p l) (\<lambda>_.
       check_sources instant origin_path now maxAge created p ls)"

definition assertProvenance :: "(list_provenance \<Rightarrow> string) \<Rightarrow> (string \<Rightarrow> int option) \<Rightarrow> (string \<Rightarrow> string option)
    \<Rightarrow> list_provenance \<Rightarrow> int \<Rightarrow> rat option \<Rightarrow> provenance_error + unit" where
  "assertProvenance sha instant origin_path p now maxAgeHours =
     (case maxAgeHours of
        None \<Rightarrow> Inl Bad_Freshness_Policy
      | Some maxAge \<Rightarrow>
          if maxAge \<le> 0 \<or> MAX_AGE_HOURS < maxAge then Inl Bad_Freshness_Policy
          else bindE (requireE Unsupported_Provenance (provenanceVersion p = 2 \<and> parserVersion p = PARSER_VERSION
              \<and> same_keys (sources p) LIST_IDS)) (\<lambda>_.
            bindE (requireE Manifest_Hash_Mismatch (snapshotId p = sha (p\<lparr>snapshotId := []\<rparr>))) (\<lambda>_.
            bindE (timestamp instant (createdAt p)) (\<lambda>created.
            bindE (requireE Future_Snapshot (created \<le> now)) (\<lambda>_.
            check_sources instant origin_path now maxAge created p LIST_IDS)))))"

text \<open>\<open>parseInt(sha256.slice(0, 8), 16)\<close> of every source.\<close>

definition listVersionsOf :: "list_provenance \<Rightarrow> (list_id \<times> int) list" where
  "listVersionsOf p = map (\<lambda>l. (l, case map_of (sources p) l of
     Some s \<Rightarrow> foldl (\<lambda>acc c. 16 * acc + digit_val c) 0 (take 8 (sourceSha256 s)) | None \<Rightarrow> 0)) LIST_IDS"

subsection \<open>The baked index\<close>

record slim_entry =
  slimList :: js_num
  slimId :: ustring
  slimPrimary :: ustring
  slimNames :: "ustring list"
  slimDobs :: "ustring list"
  slimCountries :: "ustring list"
  slimWallets :: "ustring list"
  slimType :: nat

record index_file =
  indexVersion :: int
  builtAt :: string
  provenance :: list_provenance
  entriesSha256 :: string
  indexVersions :: "(list_id \<times> int) list"
  indexCounts :: "(list_id \<times> int) list"
  sourceUpdatedAt :: "(list_id \<times> string) list"
  indexEntries :: "slim_entry list"

definition INDEX_VERSION :: int where "INDEX_VERSION = 3"

definition lower_wallet :: "ustring \<Rightarrow> bool" where
  "lower_wallet w \<longleftrightarrow> evm_address w \<and> list_all (\<lambda>c. \<not> (65 \<le> c \<and> c \<le> 70)) w"

definition slim_ok :: "slim_entry \<Rightarrow> bool" where
  "slim_ok e \<longleftrightarrow> js_safe (slimList e) \<and> 0 \<le> js_val (slimList e) \<and> js_val (slimList e) < int (length LIST_IDS)
     \<and> slimType e \<le> 2 \<and> slimId e \<noteq> [] \<and> slimPrimary e \<noteq> [] \<and> slimNames e \<noteq> []
     \<and> list_all (\<lambda>n. n \<noteq> []) (slimNames e) \<and> list_all lower_wallet (slimWallets e)"

definition entry_of_slim :: "slim_entry \<Rightarrow> sanction_entry" where
  "entry_of_slim e = \<lparr>listId = LIST_IDS ! nat (js_val (slimList e)), entryId = slimId e, primaryName = slimPrimary e,
     entryNames = slimNames e, entryDobs = slimDobs e, entryCountries = slimCountries e, cryptoAddresses = slimWallets e\<rparr>"

fun read_entries :: "slim_entry list \<Rightarrow> sanction_entry list \<Rightarrow> provenance_error + sanction_entry list" where
  "read_entries [] acc = Inr acc"
| "read_entries (e # es) acc =
     (if \<not> slim_ok e then Inl Bad_Index_Entry
      else let entry = entry_of_slim e in
        if hit_key entry \<in> hit_key ` set acc then Inl Duplicate_Index_Entry
        else read_entries es (acc @ [entry]))"

definition count_of :: "sanction_entry list \<Rightarrow> list_id \<Rightarrow> int" where
  "count_of es l = int (length (filter (\<lambda>e. listId e = l) es))"

definition source_consistent :: "index_file \<Rightarrow> sanction_entry list \<Rightarrow> list_id \<Rightarrow> bool" where
  "source_consistent f es l \<longleftrightarrow> (case map_of (sources (provenance f)) l of
     None \<Rightarrow> False
   | Some s \<Rightarrow> 0 < count_of es l \<and> JInt (count_of es l) = entryCount s
       \<and> map_of (indexCounts f) l = Some (count_of es l)
       \<and> map_of (indexVersions f) l = map_of (listVersionsOf (provenance f)) l
       \<and> map_of (sourceUpdatedAt f) l = Some (checkedAt s))"

text \<open>
  \<open>readIndex\<close> from the decompressed and parsed text on; \<open>compressed\<close> is the size of the
  file and \<open>sha_entries\<close> the hash of the JSON text of the entries.
\<close>

definition readIndex :: "(list_provenance \<Rightarrow> string) \<Rightarrow> (slim_entry list \<Rightarrow> string) \<Rightarrow> (string \<Rightarrow> int option)
    \<Rightarrow> (string \<Rightarrow> string option) \<Rightarrow> rat option \<Rightarrow> nat \<Rightarrow> index_file \<Rightarrow> int \<Rightarrow> provenance_error + sanction_entry list" where
  "readIndex sha sha_entries instant origin_path maxAge compressed f now =
     bindE (requireE Index_Too_Large (compressed \<le> 32 * 1024 * 1024)) (\<lambda>_.
     bindE (requireE Unsupported_Index (indexVersion f = INDEX_VERSION)) (\<lambda>_.
     bindE (assertProvenance sha instant origin_path (provenance f) now maxAge) (\<lambda>_.
     bindE (case (instant (builtAt f), instant (createdAt (provenance f))) of
         (Some built, Some created) \<Rightarrow> requireE Bad_Build_Time (built \<le> now \<and> created \<le> built)
       | _ \<Rightarrow> Inl Bad_Build_Time) (\<lambda>_.
     bindE (requireE Entry_Hash_Mismatch (sha_entries (indexEntries f) = entriesSha256 f)) (\<lambda>_.
     bindE (read_entries (indexEntries f) []) (\<lambda>es.
     bindE (requireE Bad_Index_Field (same_keys (indexCounts f) LIST_IDS \<and> same_keys (indexVersions f) LIST_IDS
       \<and> same_keys (sourceUpdatedAt f) LIST_IDS)) (\<lambda>_.
     case List.find (\<lambda>l. \<not> source_consistent f es l) LIST_IDS of
       Some l \<Rightarrow> Inl (Inconsistent_Index l)
     | None \<Rightarrow> Inr es)))))))"

subsection \<open>Jurisdictions\<close>

record jurisdiction_table =
  tableVersion :: int
  tableSnapshot :: string
  tableSource :: string
  callForActionUrl :: string
  increasedMonitoringUrl :: string
  asOf :: string
  verifiedAt :: string
  verified :: bool
  callForAction :: "string list"
  increasedMonitoring :: "string list"

definition fatf_body :: jurisdiction_table where
  "fatf_body = \<lparr>tableVersion = 1, tableSnapshot = [],
     tableSource = ''https://www.fatf-gafi.org/en/publications/High-risk-and-other-monitored-jurisdictions/increased-monitoring-june-2026.html'',
     callForActionUrl = ''https://www.fatf-gafi.org/en/publications/High-risk-and-other-monitored-jurisdictions/call-for-action-june-2026.html'',
     increasedMonitoringUrl = ''https://www.fatf-gafi.org/en/publications/High-risk-and-other-monitored-jurisdictions/increased-monitoring-june-2026.html'',
     asOf = ''2026-06-19'', verifiedAt = ''2026-09-07T15:00:00.000Z'', verified = True,
     callForAction = [''KP'', ''IR'', ''MM''],
     increasedMonitoring = [''AO'', ''BO'', ''BA'', ''BG'', ''CM'', ''CI'', ''CD'', ''HT'', ''IQ'', ''KE'', ''KW'', ''LA'',
       ''LB'', ''MC'', ''NP'', ''PG'', ''SS'', ''SY'', ''VE'', ''VN'', ''VG'', ''YE'']\<rparr>"

definition FATF :: "(jurisdiction_table \<Rightarrow> string) \<Rightarrow> jurisdiction_table" where
  "FATF table_id = fatf_body\<lparr>tableSnapshot := table_id fatf_body\<rparr>"

definition MAX_FATF_AGE_DAYS :: rat where "MAX_FATF_AGE_DAYS = 180"

definition fatfFreshnessDays :: "(string \<Rightarrow> rat option) \<Rightarrow> string option \<Rightarrow> provenance_error + rat" where
  "fatfFreshnessDays number_of env = (let v = (case env of Some s \<Rightarrow> s | None \<Rightarrow> ''120'') in
     case number_of v of
       None \<Rightarrow> Inl Bad_Max_Age
     | Some d \<Rightarrow> if blank v \<or> d \<le> 0 \<or> MAX_FATF_AGE_DAYS < d then Inl Bad_Max_Age else Inr d)"

definition iso_codes :: "string list \<Rightarrow> bool" where
  "iso_codes codes \<longleftrightarrow> codes \<noteq> [] \<and> list_all (\<lambda>c. country_code (ascii c)) codes"

definition assertJurisdictionTable :: "(jurisdiction_table \<Rightarrow> string) \<Rightarrow> (string \<Rightarrow> int option) \<Rightarrow> jurisdiction_table
    \<Rightarrow> int \<Rightarrow> rat option \<Rightarrow> provenance_error + unit" where
  "assertJurisdictionTable table_id instant v now maxAgeDays =
     (case (maxAgeDays, instant (verifiedAt v)) of
        (Some maxAge, Some observed) \<Rightarrow> requireE Bad_Jurisdiction_Table
          (0 < maxAge \<and> maxAge \<le> MAX_FATF_AGE_DAYS \<and> tableVersion v = 1 \<and> verified v
           \<and> tableSnapshot v = table_id (v\<lparr>tableSnapshot := []\<rparr>) \<and> asOf v = ''2026-06-19''
           \<and> observed \<le> now \<and> of_int (now - observed) \<le> maxAge * 86400000
           \<and> callForActionUrl v = callForActionUrl fatf_body \<and> increasedMonitoringUrl v = increasedMonitoringUrl fatf_body
           \<and> tableSource v = increasedMonitoringUrl v \<and> iso_codes (callForAction v) \<and> iso_codes (increasedMonitoring v)
           \<and> distinct (callForAction v) \<and> distinct (increasedMonitoring v)
           \<and> list_all (\<lambda>c. c \<notin> set (increasedMonitoring v)) (callForAction v))
      | _ \<Rightarrow> Inl Bad_Jurisdiction_Table)"

text \<open>The level of a country; the table is asserted again on every call.\<close>

definition jurisdiction_level :: "(ustring \<Rightarrow> ustring) \<Rightarrow> ustring \<Rightarrow> nat" where
  "jurisdiction_level upper iso2 = (let c = upper iso2 in
     if c \<in> (\<lambda>s. ascii s) ` set (callForAction fatf_body) then 2
     else if c \<in> (\<lambda>s. ascii s) ` set (increasedMonitoring fatf_body) then 1 else 0)"

definition jurisdictionRisk :: "(jurisdiction_table \<Rightarrow> string) \<Rightarrow> (string \<Rightarrow> int option) \<Rightarrow> (ustring \<Rightarrow> ustring)
    \<Rightarrow> int \<Rightarrow> rat option \<Rightarrow> ustring \<Rightarrow> provenance_error + nat" where
  "jurisdictionRisk table_id instant upper now maxAgeDays iso2 =
     bindE (assertJurisdictionTable table_id instant (FATF table_id) now maxAgeDays) (\<lambda>_.
     Inr (jurisdiction_level upper iso2))"

end
