(* ===== verification/Aml_Retrieval.thy ===== *)
theory Aml_Retrieval
  imports Aml_Match
begin

text \<open>
  The indexes of the corpus lose nothing: the names, postings, signatures and bigrams that
  \<open>buildCorpus\<close> enters, and the proof that the candidates which \<open>candidatesFor\<close> retrieves
  through them are those of an exhaustive scan of every listed name.
\<close>

declare map_of_eq_Some_iff [simp del]

subsection \<open>Maps of lists\<close>

lemma get_list_push [simp]:
  "get_list (map_push k v m) k' = (if k = k' then get_list m k @ [v] else get_list m k')"
  by (simp add: get_list_def map_push_def AList.update_conv')

lemma push_keys: "set (map fst (map_push k v m)) = insert k (set (map fst m))"
  by (simp add: map_push_def AList.dom_update [of k _ m, unfolded dom_map_of_conv_image_fst, simplified] del: AList.dom_update)

lemma get_list_map_of: "x \<in> set (get_list m k) \<Longrightarrow> map_of m k = Some (get_list m k)"
  by (cases "map_of m k") (auto simp: get_list_def)

lemma get_list_key: "x \<in> set (get_list m k) \<Longrightarrow> k \<in> set (map fst m)"
  by (drule get_list_map_of, drule map_of_SomeD, drule imageI [of _ _ fst]) simp

subsection \<open>What building the corpus enters\<close>

definition corpus_extends :: "corpus \<Rightarrow> corpus \<Rightarrow> bool" where
  "corpus_extends c c' \<longleftrightarrow> entries c' = entries c \<and> limits c' = limits c
     \<and> (\<exists>ns. names c' = names c @ ns)
     \<and> (\<forall>t. set (get_list (byToken c) t) \<subseteq> set (get_list (byToken c') t))"

lemma corpus_extends_refl [simp]: "corpus_extends c c"
  by (simp add: corpus_extends_def)

lemma corpus_extends_trans: "corpus_extends a b \<Longrightarrow> corpus_extends b c \<Longrightarrow> corpus_extends a c"
  unfolding corpus_extends_def by (auto intro: order_trans)

definition indexed :: "corpus \<Rightarrow> bool" where
  "indexed c \<longleftrightarrow> (\<forall>i < length (names c). entryIdx (names c ! i) < length (entries c) \<and>
     (\<forall>t \<in> set (tokens (names c ! i)). i \<in> set (get_list (byToken c) t)))
     \<and> (\<forall>t i. i \<in> set (get_list (byToken c) t) \<longrightarrow> i < length (names c))"

definition listed :: "corpus \<Rightarrow> nat \<Rightarrow> token list \<Rightarrow> bool" where
  "listed c ei toks \<longleftrightarrow> (\<exists>i < length (names c). entryIdx (names c ! i) = ei \<and> tokens (names c ! i) = toks)"

lemma listed_corpus: "listed c ei toks \<Longrightarrow> corpus_extends c c' \<Longrightarrow> listed c' ei toks"
  unfolding listed_def corpus_extends_def by (force simp: nth_append)

lemma add_postings_adds:
  "add_postings idx ts (c, n) = Inr (c', n') \<Longrightarrow>
   names c' = names c \<and> entries c' = entries c \<and> limits c' = limits c
   \<and> (\<forall>t. set (get_list (byToken c') t) = set (get_list (byToken c) t) \<union> (if t \<in> set ts then {idx} else {}))"
proof (induction ts arbitrary: c n)
  case Nil
  then show ?case by simp
next
  case (Cons t ts)
  let ?c = "c\<lparr>byToken := map_push t idx (byToken c)\<rparr>"
  from Cons.prems have "add_postings idx ts (?c, Suc n) = Inr (c', n')"
    by (auto simp: Let_def split: if_splits)
  from Cons.IH [OF this] show ?case by auto
qed

lemma add_name_adds:
  assumes "add_name u ei ni raw (c, n) = Inr (c', n')" "indexed c" "ei < length (entries c)"
  shows "indexed c' \<and> corpus_extends c c' \<and>
    (contentTokens (tokenize (normalizeName u raw)) \<noteq> [] \<longrightarrow>
      listed c' ei (contentTokens (tokenize (normalizeName u raw))))"
proof -
  let ?nm = "normalizeName u raw"
  let ?toks = "contentTokens (tokenize ?nm)"
  show ?thesis
  proof (cases "?nm = [] \<or> ?toks = []")
    case True
    then have "?toks = []" by (auto simp: tokenize_def)
    moreover have "add_name u ei ni raw (c, n) = Inr (c, n)"
      using True by (auto simp: add_name_def Let_def)
    ultimately show ?thesis using assms by auto
  next
    case False
    let ?name = "\<lparr>entryIdx = ei, norm = ?nm, tokens = ?toks, isAlias = (0 < ni)\<rparr>"
    let ?c = "c\<lparr>names := names c @ [?name]\<rparr>"
    from assms(1) False have "add_postings (length (names c)) (set_list ?toks) (?c, n) = Inr (c', n')"
      by (auto simp: add_name_def Let_def split: if_splits)
    from add_postings_adds [OF this]
    have c': "names c' = names c @ [?name]" "entries c' = entries c" "limits c' = limits c"
      and post: "\<And>t. set (get_list (byToken c') t)
        = set (get_list (byToken c) t) \<union> (if t \<in> set ?toks then {length (names c)} else {})"
      by auto
    have "indexed c'"
      using assms(2,3) unfolding indexed_def c' post
      by (auto simp: nth_append less_Suc_eq)
    moreover have "corpus_extends c c'"
      unfolding corpus_extends_def c' post by auto
    moreover have "listed c' ei ?toks"
      unfolding listed_def c' by (rule exI [of _ "length (names c)"]) simp
    ultimately show ?thesis by blast
  qed
qed

lemma add_names_adds:
  "add_names u ei ni raws (c, n) = Inr (c', n') \<Longrightarrow> indexed c \<Longrightarrow> ei < length (entries c) \<Longrightarrow>
   indexed c' \<and> corpus_extends c c' \<and> (\<forall>raw \<in> set raws. contentTokens (tokenize (normalizeName u raw)) \<noteq> [] \<longrightarrow>
      listed c' ei (contentTokens (tokenize (normalizeName u raw))))"
proof (induction raws arbitrary: ni c n)
  case Nil
  then show ?case by simp
next
  case (Cons raw raws)
  from Cons.prems(1) obtain c1 n1 where
    1: "add_name u ei ni raw (c, n) = Inr (c1, n1)" and 2: "add_names u ei (Suc ni) raws (c1, n1) = Inr (c', n')"
    by (auto simp: bindE_Inr_iff)
  note one = add_name_adds [OF 1 Cons.prems(2,3)]
  then have "ei < length (entries c1)" using Cons.prems(3) by (simp add: corpus_extends_def)
  with Cons.IH [OF 2] one listed_corpus corpus_extends_trans show ?case by (metis set_ConsD)
qed

lemma add_wallets_keeps:
  "names (add_wallets ei e c) = names c" "entries (add_wallets ei e c) = entries c"
  "limits (add_wallets ei e c) = limits c" "byToken (add_wallets ei e c) = byToken c"
proof -
  have "names (foldl (\<lambda>c a. if evm_address a then c\<lparr>byWallet := AList.update (map lower_ascii a) ei (byWallet c)\<rparr> else c) c as) = names c
    \<and> entries (foldl (\<lambda>c a. if evm_address a then c\<lparr>byWallet := AList.update (map lower_ascii a) ei (byWallet c)\<rparr> else c) c as) = entries c
    \<and> limits (foldl (\<lambda>c a. if evm_address a then c\<lparr>byWallet := AList.update (map lower_ascii a) ei (byWallet c)\<rparr> else c) c as) = limits c
    \<and> byToken (foldl (\<lambda>c a. if evm_address a then c\<lparr>byWallet := AList.update (map lower_ascii a) ei (byWallet c)\<rparr> else c) c as) = byToken c" for as
    by (induction as arbitrary: c) auto
  then show "names (add_wallets ei e c) = names c" "entries (add_wallets ei e c) = entries c"
    "limits (add_wallets ei e c) = limits c" "byToken (add_wallets ei e c) = byToken c"
    by (simp_all add: add_wallets_def)
qed

lemma add_wallets_extends: "corpus_extends c (add_wallets ei e c)" "indexed (add_wallets ei e c) \<longleftrightarrow> indexed c"
  by (simp_all add: corpus_extends_def indexed_def add_wallets_keeps)

lemma add_entries_adds:
  "add_entries u ei es (c, n) = Inr (c', n') \<Longrightarrow> indexed c \<Longrightarrow> ei + length es \<le> length (entries c) \<Longrightarrow>
   indexed c' \<and> corpus_extends c c' \<and> (\<forall>k < length es. \<forall>raw \<in> set (entryNames (es ! k)).
      contentTokens (tokenize (normalizeName u raw)) \<noteq> [] \<longrightarrow>
      listed c' (ei + k) (contentTokens (tokenize (normalizeName u raw))))"
proof (induction es arbitrary: ei c n)
  case Nil
  then show ?case by simp
next
  case (Cons e es)
  let ?c = "add_wallets ei e c"
  from Cons.prems(1) obtain c1 n1 where
    1: "add_names u ei 0 (entryNames e) (?c, n) = Inr (c1, n1)" and 2: "add_entries u (Suc ei) es (c1, n1) = Inr (c', n')"
    by (auto simp: bindE_Inr_iff)
  have one: "indexed c1 \<and> corpus_extends ?c c1 \<and> (\<forall>raw \<in> set (entryNames e). contentTokens (tokenize (normalizeName u raw)) \<noteq> [] \<longrightarrow>
      listed c1 ei (contentTokens (tokenize (normalizeName u raw))))"
    using Cons.prems by (intro add_names_adds [OF 1]) (auto simp: add_wallets_extends add_wallets_keeps)
  then have len: "Suc ei + length es \<le> length (entries c1)"
    using Cons.prems(3) by (simp add: corpus_extends_def add_wallets_keeps)
  note rest = Cons.IH [OF 2 conjunct1 [OF one] len]
  have "corpus_extends c c'"
    using one rest add_wallets_extends(1) [of c ei e] corpus_extends_trans by blast
  moreover have "listed c' (ei + k) (contentTokens (tokenize (normalizeName u raw)))"
    if "k < length (e # es)" "raw \<in> set (entryNames ((e # es) ! k))" "contentTokens (tokenize (normalizeName u raw)) \<noteq> []" for k raw
  proof (cases k)
    case 0
    then show ?thesis using that one rest listed_corpus by auto
  next
    case (Suc m)
    then have "m < length es" "raw \<in> set (entryNames (es ! m))" using that by auto
    then have "listed c' (Suc ei + m) (contentTokens (tokenize (normalizeName u raw)))"
      using rest that(3) by blast
    then show ?thesis using Suc by simp
  qed
  ultimately show ?case using rest by blast
qed

subsection \<open>Signatures and bigrams\<close>

definition push_deletion :: "token \<Rightarrow> corpus \<Rightarrow> token \<Rightarrow> corpus" where
  "push_deletion t c k = c\<lparr>byDeletion := map_push k t (byDeletion c)\<rparr>"

lemma add_deletions_alt:
  "add_deletions nfc c = foldl (\<lambda>c t. foldl (push_deletion t) c (deletionKeys nfc t)) c (map fst (byToken c))"
  by (simp add: add_deletions_def push_deletion_def [abs_def])

lemma push_deletions:
  "let c' = foldl (push_deletion t) c ks in names c' = names c \<and> entries c' = entries c \<and> limits c' = limits c
   \<and> byToken c' = byToken c \<and> byGram c' = byGram c
   \<and> (\<forall>k. set (get_list (byDeletion c') k) = set (get_list (byDeletion c) k) \<union> (if k \<in> set ks then {t} else {}))"
  by (induction ks arbitrary: c) (auto simp: Let_def push_deletion_def)

lemma fold_deletions:
  "let c' = foldl (\<lambda>c t. foldl (push_deletion t) c (deletionKeys nfc t)) c ts in
   names c' = names c \<and> entries c' = entries c \<and> limits c' = limits c \<and> byToken c' = byToken c
   \<and> (\<forall>k t. t \<in> set (get_list (byDeletion c') k) \<longleftrightarrow> t \<in> set (get_list (byDeletion c) k) \<or> (t \<in> set ts \<and> k \<in> set (deletionKeys nfc t)))"
proof (induction ts arbitrary: c)
  case Nil
  then show ?case by simp
next
  case (Cons t ts)
  from Cons.IH [of "foldl (push_deletion t) c (deletionKeys nfc t)"] push_deletions [of t c "deletionKeys nfc t"]
  show ?case by (auto simp: Let_def split: if_splits)
qed

lemma push_grams_adds:
  "push_grams t gs (c, n) = Inr (c', n') \<Longrightarrow> names c' = names c \<and> entries c' = entries c \<and> limits c' = limits c
   \<and> byToken c' = byToken c \<and> byDeletion c' = byDeletion c
   \<and> (\<forall>g. set (get_list (byGram c') g) = set (get_list (byGram c) g) \<union> (if g \<in> set gs then {t} else {}))"
proof (induction gs arbitrary: c n)
  case Nil
  then show ?case by simp
next
  case (Cons g gs)
  let ?c = "c\<lparr>byGram := map_push g t (byGram c)\<rparr>"
  from Cons.prems have "push_grams t gs (?c, Suc n) = Inr (c', n')"
    by (auto simp: Let_def split: if_splits)
  from Cons.IH [OF this] show ?case by auto
qed

lemma add_grams_adds:
  "add_grams nfc ts (c, n) = Inr (c', n') \<Longrightarrow> names c' = names c \<and> entries c' = entries c \<and> limits c' = limits c
   \<and> byToken c' = byToken c \<and> byDeletion c' = byDeletion c
   \<and> (\<forall>g t. t \<in> set (get_list (byGram c') g) \<longleftrightarrow> t \<in> set (get_list (byGram c) g) \<or> (t \<in> set ts \<and> g \<in> set (editGrams nfc t)))"
proof (induction ts arbitrary: c n)
  case Nil
  then show ?case by simp
next
  case (Cons t ts)
  from Cons.prems obtain c1 n1 where
    1: "push_grams t (editGrams nfc t) (c, n) = Inr (c1, n1)" and 2: "add_grams nfc ts (c1, n1) = Inr (c', n')"
    by (auto simp: bindE_Inr_iff)
  from push_grams_adds [OF 1] Cons.IH [OF 2] show ?case by (auto split: if_splits)
qed

text \<open>What the built corpus holds, as the rest of the development uses it.\<close>

lemma buildCorpus_indexes:
  assumes "buildCorpus u es overrides = Inr c"
  shows "entries c = es" "indexed c"
    "\<And>t k. t \<in> set (map fst (byToken c)) \<Longrightarrow> k \<in> set (deletionKeys (to_nfc u) t) \<Longrightarrow> t \<in> set (get_list (byDeletion c) k)"
    "\<And>t g. t \<in> set (map fst (byToken c)) \<Longrightarrow> g \<in> set (editGrams (to_nfc u) t) \<Longrightarrow> t \<in> set (get_list (byGram c) g)"
    "\<And>k raw. k < length es \<Longrightarrow> raw \<in> set (entryNames (es ! k)) \<Longrightarrow> contentTokens (tokenize (normalizeName u raw)) \<noteq> [] \<Longrightarrow>
      listed c k (contentTokens (tokenize (normalizeName u raw)))"
proof -
  from assms obtain ls c1 n1 n2 where
    1: "add_entries u 0 es (\<lparr>entries = es, names = [], byToken = [], byDeletion = [], byGram = [],
       limits = ls, byWallet = []\<rparr>, 0) = Inr (c1, n1)" and
    2: "add_grams (to_nfc u) (map fst (byToken c1)) (add_deletions (to_nfc u) c1, 0) = Inr (c, n2)"
    unfolding buildCorpus_def by (auto elim!: bindE_Inr_cases)
  have one: "indexed c1" "entries c1 = es"
    "\<And>k raw. k < length es \<Longrightarrow> raw \<in> set (entryNames (es ! k)) \<Longrightarrow> contentTokens (tokenize (normalizeName u raw)) \<noteq> [] \<Longrightarrow>
      listed c1 k (contentTokens (tokenize (normalizeName u raw)))"
    using add_entries_adds [OF 1] by (auto simp: indexed_def get_list_def corpus_extends_def)
  note del = fold_deletions [of "to_nfc u" c1 "map fst (byToken c1)", folded add_deletions_alt, unfolded Let_def]
  note gram = add_grams_adds [OF 2]
  have same: "names c = names c1" "entries c = entries c1" "byToken c = byToken c1"
    "byDeletion c = byDeletion (add_deletions (to_nfc u) c1)"
    using del gram by auto
  show "entries c = es" "indexed c"
    using one same by (simp_all add: indexed_def)
  show "t \<in> set (get_list (byDeletion c) k)" if "t \<in> set (map fst (byToken c))" "k \<in> set (deletionKeys (to_nfc u) t)" for t k
    using that del same by auto
  show "t \<in> set (get_list (byGram c) g)" if "t \<in> set (map fst (byToken c))" "g \<in> set (editGrams (to_nfc u) t)" for t g
    using that gram same by auto
  show "listed c k (contentTokens (tokenize (normalizeName u raw)))"
    if "k < length es" "raw \<in> set (entryNames (es ! k))" "contentTokens (tokenize (normalizeName u raw)) \<noteq> []" for k raw
    using one(3) [OF that] same by (simp add: listed_def)
qed

subsection \<open>Retrieval\<close>

lemma set_set_add [simp]: "set (set_add x xs) = insert x (set xs)"
  by (auto simp: set_add_def)

lemma visit_deletions_adds:
  "visit_deletions nfc m tok nears (v, matching) = Inr (v', matching') \<Longrightarrow>
   set matching' = set matching \<union> {t \<in> set nears. withinOneEdit nfc tok t}"
proof (induction nears arbitrary: v matching)
  case Nil
  then show ?case by simp
next
  case (Cons near nears)
  from Cons.prems have "visit_deletions nfc m tok nears
     (Suc v, if withinOneEdit nfc tok near then set_add near matching else matching) = Inr (v', matching')"
    by (auto split: if_splits)
  from Cons.IH [OF this] show ?case by auto
qed

lemma visit_grams_adds:
  "visit_grams m mv nears (v, voc) = Inr (v', voc') \<Longrightarrow> set voc' = set voc \<union> set nears"
proof (induction nears arbitrary: v voc)
  case Nil
  then show ?case by simp
next
  case (Cons near nears)
  from Cons.prems have "visit_grams m mv nears (Suc v, set_add near voc) = Inr (v', voc')"
    by (auto simp: Let_def split: if_splits)
  from Cons.IH [OF this] show ?case by auto
qed

lemma fold_supported:
  "set (foldl (\<lambda>m near. if withinSupportedEdits nfc tok near then set_add near m else m) matching voc)
   = set matching \<union> {t \<in> set voc. withinSupportedEdits nfc tok t}"
  by (induction voc arbitrary: matching) auto

text \<open>The vocabulary tokens that the signatures and bigrams of a query token reach.\<close>

definition reaches :: "(token \<Rightarrow> token) \<Rightarrow> corpus \<Rightarrow> token \<Rightarrow> token \<Rightarrow> bool" where
  "reaches nfc c tok t \<longleftrightarrow>
     (withinOneEdit nfc tok t \<and> (\<exists>k \<in> set (deletionKeys nfc tok). t \<in> set (get_list (byDeletion c) k)))
     \<or> (withinSupportedEdits nfc tok t \<and> (\<exists>g \<in> set (editGrams nfc tok). t \<in> set (get_list (byGram c) g)))"

lemma expand_token_adds:
  assumes "expand_token nfc c tok (v, matching) = Inr (v', matching')"
  shows "set matching' = set matching \<union> Collect (reaches nfc c tok)"
proof -
  from assms obtain v1 m1 v2 voc where
    1: "visit_deletions nfc (limit_of (limits c) ''maxQueryTokenPostings'') tok
       (concat (map (get_list (byDeletion c)) (deletionKeys nfc tok))) (v, matching) = Inr (v1, m1)" and
    2: "visit_grams (limit_of (limits c) ''maxQueryTokenPostings'') (limit_of (limits c) ''maxVocabularyCandidates'')
       (concat (map (get_list (byGram c)) (editGrams nfc tok))) (v1, []) = Inr (v2, voc)" and
    3: "matching' = foldl (\<lambda>m near. if withinSupportedEdits nfc tok near then set_add near m else m) m1 voc"
    unfolding expand_token_def by (auto elim!: bindE_Inr_cases)
  show ?thesis
    unfolding 3 fold_supported visit_deletions_adds [OF 1] visit_grams_adds [OF 2] reaches_def by auto
qed

lemma expand_tokens_adds:
  "expand_tokens nfc c ts (v, matching) = Inr (v', matching') \<Longrightarrow>
   set matching' = set matching \<union> {t. \<exists>tok \<in> set ts. reaches nfc c tok t}"
proof (induction ts arbitrary: v matching)
  case Nil
  then show ?case by simp
next
  case (Cons tok ts)
  from Cons.prems obtain v1 m1 where
    1: "expand_token nfc c tok (v, matching) = Inr (v1, m1)" and 2: "expand_tokens nfc c ts (v1, m1) = Inr (v', matching')"
    by (auto elim!: bindE_Inr_cases)
  show ?case
    unfolding Cons.IH [OF 2] expand_token_adds [OF 1] by auto
qed

lemma collect_names_adds:
  "collect_names m nis cands = Inr cands' \<Longrightarrow> set cands' = set cands \<union> set nis"
  by (induction nis arbitrary: cands) (auto simp: Let_def split: if_splits)

lemma visit_tokens_adds:
  "visit_tokens c ts (v, cands) = Inr (v', cands') \<Longrightarrow>
   set cands' = set cands \<union> (\<Union>t \<in> set ts. set (get_list (byToken c) t))"
proof (induction ts arbitrary: v cands)
  case Nil
  then show ?case by simp
next
  case (Cons t ts)
  show ?case
  proof (cases "map_of (byToken c) t")
    case None
    then show ?thesis using Cons by (auto simp: get_list_def)
  next
    case (Some l)
    from Cons.prems Some obtain c1 where
      1: "collect_names (limit_of (limits c) ''maxCandidateNames'') l cands = Inr c1" and
      2: "visit_tokens c ts (v + length l, c1) = Inr (v', cands')"
      by (auto simp: Let_def split: if_splits elim!: bindE_Inr_cases)
    from Cons.IH [OF 2] collect_names_adds [OF 1] Some show ?thesis by (auto simp: get_list_def)
  qed
qed

subsection \<open>The best candidate of each entry\<close>

definition score_at :: "(token \<Rightarrow> token) \<Rightarrow> corpus \<Rightarrow> token list \<Rightarrow> match_type \<Rightarrow> nat \<Rightarrow> rat" where
  "score_at nfc c query ty i = name_score_of nfc ty query (tokens (names c ! i))"

definition best_ok :: "(token \<Rightarrow> token) \<Rightarrow> corpus \<Rightarrow> token list \<Rightarrow> match_type \<Rightarrow> rat \<Rightarrow> nat set \<Rightarrow> (nat \<times> candidate) list \<Rightarrow> bool" where
  "best_ok nfc c query ty minScore seen best \<longleftrightarrow> distinct (map fst best)
     \<and> (\<forall>ei cand. map_of best ei = Some cand \<longrightarrow> candEntry cand = entries c ! ei \<and>
          (\<exists>i \<in> seen. entryIdx (names c ! i) = ei \<and> candScore cand = score_at nfc c query ty i \<and> minScore \<le> candScore cand))
     \<and> (\<forall>i \<in> seen. minScore \<le> score_at nfc c query ty i \<longrightarrow>
          (\<exists>cand. map_of best (entryIdx (names c ! i)) = Some cand \<and> score_at nfc c query ty i \<le> candScore cand))"

lemma keep_best_ok:
  assumes "best_ok nfc c query ty minScore seen best"
  shows "best_ok nfc c query ty minScore (insert ni seen) (keep_best nfc c query ty minScore best ni)"
proof -
  let ?ei = "entryIdx (names c ! ni)" and ?s = "score_at nfc c query ty ni"
  have s: "name_score_of nfc ty query (tokens (names c ! ni)) = ?s" by (simp add: score_at_def)
  show ?thesis
  proof (cases "?s < minScore")
    case True
    then show ?thesis using assms by (simp add: keep_best_def s best_ok_def Let_def)
  next
    case False
    define cand where "cand = \<lparr>candEntry = entries c ! ?ei, candName = norm (names c ! ni), candScore = ?s,
      candType = (if isAlias (names c ! ni) \<and> ty = Fuzzy then Alias else ty)\<rparr>"
    have upd: "best_ok nfc c query ty minScore (insert ni seen) (AList.update ?ei cand best)"
      if "\<And>prev. map_of best ?ei = Some prev \<Longrightarrow> candScore prev < ?s"
    proof -
      have d: "distinct (map fst (AList.update ?ei cand best))"
        using assms by (simp add: best_ok_def distinct_update)
      have cand: "candEntry cand = entries c ! ?ei" "candScore cand = ?s" by (simp_all add: cand_def)
      show ?thesis
        unfolding best_ok_def AList.update_conv'
      proof (intro conjI allI impI ballI)
        show "distinct (map fst (AList.update ?ei cand best))" by (rule d)
      next
        fix ei x assume x: "((map_of best)(?ei \<mapsto> cand)) ei = Some x"
        show "candEntry x = entries c ! ei" using x cand assms by (auto simp: best_ok_def split: if_splits)
        show "\<exists>i \<in> insert ni seen. entryIdx (names c ! i) = ei \<and> candScore x = score_at nfc c query ty i \<and> minScore \<le> candScore x"
          using x cand False assms by (auto simp: best_ok_def split: if_splits)
      next
        fix i assume i: "i \<in> insert ni seen" "minScore \<le> score_at nfc c query ty i"
        show "\<exists>x. ((map_of best)(?ei \<mapsto> cand)) (entryIdx (names c ! i)) = Some x \<and> score_at nfc c query ty i \<le> candScore x"
        proof (cases "i = ni")
          case True
          then show ?thesis using cand by simp
        next
          case nni: False
          with i assms obtain x where x: "map_of best (entryIdx (names c ! i)) = Some x" "score_at nfc c query ty i \<le> candScore x"
            unfolding best_ok_def by blast
          show ?thesis
          proof (cases "entryIdx (names c ! i) = ?ei")
            case True
            with x that [of x] have "score_at nfc c query ty i \<le> ?s" by simp
            then show ?thesis using True cand by simp
          qed (use x in simp)
        qed
      qed
    qed
    show ?thesis
    proof (cases "map_of best ?ei")
      case None
      then show ?thesis using upd False by (simp add: keep_best_def s Let_def cand_def)
    next
      case (Some prev)
      show ?thesis
      proof (cases "candScore prev < ?s")
        case True
        then show ?thesis using upd Some False by (simp add: keep_best_def s Let_def cand_def)
      next
        case ge: False
        then have "keep_best nfc c query ty minScore best ni = best"
          using Some False by (simp add: keep_best_def s Let_def)
        moreover have "best_ok nfc c query ty minScore (insert ni seen) best"
          using assms Some ge by (auto simp: best_ok_def not_less)
        ultimately show ?thesis by simp
      qed
    qed
  qed
qed

lemma fold_best_ok:
  "best_ok nfc c query ty minScore seen best \<Longrightarrow>
   best_ok nfc c query ty minScore (seen \<union> set nis) (foldl (keep_best nfc c query ty minScore) best nis)"
proof (induction nis arbitrary: seen best)
  case Nil
  then show ?case by simp
next
  case (Cons ni nis)
  from Cons.IH [OF keep_best_ok [OF Cons.prems]] show ?case by simp
qed

lemma keep_best_type:
  assumes "\<forall>x \<in> set best. candType (snd x) \<in> {ty, Alias}"
  shows "\<forall>x \<in> set (keep_best nfc c query ty minScore best ni). candType (snd x) \<in> {ty, Alias}"
proof -
  have upd: "\<forall>x \<in> set (AList.update k v best). candType (snd x) \<in> {ty, Alias}" if "candType v \<in> {ty, Alias}" for k v
  proof -
    have "set (AList.update k v best) \<subseteq> insert (k, v) (set best)"
      by (induction best) auto
    then show ?thesis using that assms by auto
  qed
  let ?n = "names c ! ni"
  let ?cand = "\<lparr>candEntry = entries c ! entryIdx ?n, candName = norm ?n,
    candScore = name_score_of nfc ty query (tokens ?n), candType = (if isAlias ?n \<and> ty = Fuzzy then Alias else ty)\<rparr>"
  have "keep_best nfc c query ty minScore best ni = best
    \<or> keep_best nfc c query ty minScore best ni = AList.update (entryIdx ?n) ?cand best"
    by (simp add: keep_best_def Let_def split: option.split)
  moreover have "candType ?cand \<in> {ty, Alias}" by simp
  ultimately show ?thesis
    using assms upd [of ?cand "entryIdx ?n"] by auto
qed

lemma candidates_not_romanized:
  assumes "candidatesFor nfc c query ty minScore = Inr cs" "x \<in> set cs" "ty \<noteq> Romanized"
  shows "candType x \<noteq> Romanized"
proof -
  have "\<forall>x \<in> set (foldl (keep_best nfc c query ty minScore) best nis). candType (snd x) \<in> {ty, Alias}"
    if "\<forall>x \<in> set best. candType (snd x) \<in> {ty, Alias}" for best nis
    using that
  proof (induction nis arbitrary: best)
    case (Cons ni nis)
    from Cons.IH [OF keep_best_type [OF Cons.prems]] show ?case by simp
  qed simp
  from this [of "[]"] assms show ?thesis
    unfolding candidatesFor_def by (fastforce split: if_splits(2) elim!: bindE_Inr_cases)
qed

subsection \<open>The index search and the exhaustive scan\<close>

lemma name_score_near:
  assumes "name_score_of nfc ty query toks \<noteq> 0"
  shows "near_pair nfc query toks"
proof (rule ccontr)
  assume "\<not> near_pair nfc query toks"
  then have "nameScore query toks = 0" "editNameScore nfc query toks = 0" "missingTokenNameScore nfc query toks = 0"
    using nameScore_near editNameScore_near missingTokenNameScore_near by blast+
  with assms show False by (simp add: name_score_of_def)
qed

definition vocabulary :: "corpus \<Rightarrow> token set" where
  "vocabulary c = set (map fst (byToken c))"

definition best_score :: "(token \<Rightarrow> token) \<Rightarrow> corpus \<Rightarrow> token list \<Rightarrow> match_type \<Rightarrow> nat \<Rightarrow> rat" where
  "best_score nfc c query ty ei = Max (set (0 # map (\<lambda>n. name_score_of nfc ty query (tokens n))
     (filter (\<lambda>n. entryIdx n = ei) (names c))))"

lemma near_token_reached:
  assumes c: "buildCorpus u es overrides = Inr c" and inj: "inj_on (to_nfc u) (insert tok (vocabulary c))"
    and t: "t \<in> vocabulary c" "withinSupportedEdits (to_nfc u) tok t"
  shows "t = tok \<or> reaches (to_nfc u) c tok t"
proof (cases "to_nfc u tok = to_nfc u t")
  case True
  with inj t(1) show ?thesis by (auto dest: inj_onD)
next
  case False
  from withinSupportedEdits_reachable [OF t(2) False] buildCorpus_indexes(3,4) [OF c] t
  show ?thesis unfolding reaches_def vocabulary_def by blast
qed

lemma expand_query_adds:
  assumes "expand_tokens nfc c (set_list query) (0, set_list query) = Inr (v, matching)"
  shows "set matching = set query \<union> {t. \<exists>tok \<in> set query. reaches nfc c tok t}"
  using expand_tokens_adds [OF assms] by simp

lemma candidatesFor_scan:
  assumes c: "buildCorpus u es overrides = Inr c"
    and cs: "candidatesFor (to_nfc u) c query ty minScore = Inr cs"
    and inj: "inj_on (to_nfc u) (set query \<union> vocabulary c)"
  obtains best cands where "cs = sort_by (\<lambda>x y. candScore y < candScore x) (map snd best)"
    and "best_ok (to_nfc u) c query ty minScore (set cands) best"
    and "\<And>i. i \<in> set cands \<Longrightarrow> i < length (names c)"
    and "\<And>i. i < length (names c) \<Longrightarrow> score_at (to_nfc u) c query ty i \<noteq> 0 \<Longrightarrow> i \<in> set cands"
proof -
  let ?nfc = "to_nfc u"
  from cs obtain v matching v' cands where
    1: "(if ty = Romanized then Inr (0, set_list query)
         else expand_tokens ?nfc c (set_list query) (0, set_list query)) = Inr (v, matching)" and
    2: "visit_tokens c matching (v, []) = Inr (v', cands)" and
    3: "cs = sort_by (\<lambda>x y. candScore y < candScore x) (map snd (foldl (keep_best ?nfc c query ty minScore) [] cands))"
    unfolding candidatesFor_def by (auto split: if_splits(2) elim!: bindE_Inr_cases)
  note ix = buildCorpus_indexes(2) [OF c]
  have cands: "set cands = (\<Union>t \<in> set matching. set (get_list (byToken c) t))"
    using visit_tokens_adds [OF 2] by simp
  have query: "set query \<subseteq> set matching"
    using 1 expand_query_adds by (auto split: if_splits)
  have ok: "best_ok ?nfc c query ty minScore ({} \<union> set cands) (foldl (keep_best ?nfc c query ty minScore) [] cands)"
    by (rule fold_best_ok) (simp add: best_ok_def)
  have below: "i < length (names c)" if "i \<in> set cands" for i
    using that cands ix unfolding indexed_def by blast
  have reach: "i \<in> set cands" if i: "i < length (names c)" and s: "score_at ?nfc c query ty i \<noteq> 0" for i
  proof -
    let ?toks = "tokens (names c ! i)"
    have posting: "i \<in> set (get_list (byToken c) t)" if "t \<in> set ?toks" for t
      using ix i that unfolding indexed_def by blast
    have "\<exists>t \<in> set ?toks. t \<in> set matching"
    proof (cases "nameScore query ?toks = 0")
      case False
      from nameScore_shared [OF this] query show ?thesis by blast
    next
      case True
      with s have ty: "ty \<noteq> Romanized"
        and "editNameScore ?nfc query ?toks \<noteq> 0 \<or> missingTokenNameScore ?nfc query ?toks \<noteq> 0"
        by (auto simp: score_at_def name_score_of_def split: if_splits)
      then have "near_pair ?nfc query ?toks"
        using editNameScore_near missingTokenNameScore_near by blast
      then obtain tok t where t: "tok \<in> set query" "t \<in> set ?toks" "withinSupportedEdits ?nfc tok t"
        unfolding near_pair_def by blast
      have "t \<in> vocabulary c"
        using get_list_key [OF posting [OF t(2)]] by (simp add: vocabulary_def)
      moreover have "inj_on ?nfc (insert tok (vocabulary c))"
        by (rule inj_on_subset [OF inj]) (use t(1) in auto)
      ultimately have "t = tok \<or> reaches ?nfc c tok t"
        using near_token_reached [OF c _ _ t(3)] by blast
      then have "t \<in> set matching"
        using expand_query_adds 1 ty t(1) query by auto
      with t(2) show ?thesis by blast
    qed
    with cands posting show ?thesis by blast
  qed
  show thesis
    using that [OF 3 _ below reach] ok by simp
qed

lemma names_of_entry:
  "set (map (\<lambda>n. name_score_of nfc ty query (tokens n)) (filter (\<lambda>n. entryIdx n = ei) (names c)))
   = {score_at nfc c query ty i | i. i < length (names c) \<and> entryIdx (names c ! i) = ei}"
  by (auto simp: score_at_def in_set_conv_nth)

lemma best_score_le: "i < length (names c) \<Longrightarrow> score_at nfc c query ty i \<le> best_score nfc c query ty (entryIdx (names c ! i))"
  unfolding best_score_def by (rule Max_ge) (auto simp: score_at_def)

lemma best_score_attained:
  "0 < best_score nfc c query ty ei \<Longrightarrow>
   \<exists>i < length (names c). entryIdx (names c ! i) = ei \<and> best_score nfc c query ty ei = score_at nfc c query ty i"
proof -
  assume pos: "0 < best_score nfc c query ty ei"
  have "best_score nfc c query ty ei \<in> set (0 # map (\<lambda>n. name_score_of nfc ty query (tokens n))
     (filter (\<lambda>n. entryIdx n = ei) (names c)))"
    unfolding best_score_def by (rule Max_in) auto
  with pos show ?thesis
    unfolding list.set(2) names_of_entry by auto
qed

lemma best_is_scan:
  assumes ok: "best_ok nfc c query ty minScore (set cands) best" and pos: "0 < minScore"
    and below: "\<And>i. i \<in> set cands \<Longrightarrow> i < length (names c)"
    and reach: "\<And>i. i < length (names c) \<Longrightarrow> score_at nfc c query ty i \<noteq> 0 \<Longrightarrow> i \<in> set cands"
  shows "minScore \<le> best_score nfc c query ty ei \<longleftrightarrow>
      (\<exists>cand. map_of best ei = Some cand)"
    and "map_of best ei = Some cand \<Longrightarrow> candEntry cand = entries c ! ei \<and> candScore cand = best_score nfc c query ty ei"
proof -
  have attained: "\<exists>cand. map_of best ei = Some cand \<and> best_score nfc c query ty ei \<le> candScore cand"
    if "minScore \<le> best_score nfc c query ty ei"
  proof -
    from that pos have "0 < best_score nfc c query ty ei" by linarith
    from best_score_attained [OF this] obtain i where
      i: "i < length (names c)" "entryIdx (names c ! i) = ei" "best_score nfc c query ty ei = score_at nfc c query ty i" by blast
    with that pos have "score_at nfc c query ty i \<noteq> 0" by linarith
    with reach i(1) have "i \<in> set cands" by blast
    with ok i that show ?thesis unfolding best_ok_def by auto
  qed
  have bound: "candEntry cand = entries c ! ei \<and> minScore \<le> candScore cand \<and> candScore cand \<le> best_score nfc c query ty ei"
    if cand: "map_of best ei = Some cand" for cand
  proof -
    from ok cand obtain i where "i \<in> set cands" "entryIdx (names c ! i) = ei" "candScore cand = score_at nfc c query ty i"
      "minScore \<le> candScore cand" "candEntry cand = entries c ! ei"
      unfolding best_ok_def by blast
    then show ?thesis using best_score_le [of i c nfc query ty] below by auto
  qed
  show "minScore \<le> best_score nfc c query ty ei \<longleftrightarrow> (\<exists>cand. map_of best ei = Some cand)"
    using attained bound order_trans by blast
  show "candEntry cand = entries c ! ei \<and> candScore cand = best_score nfc c query ty ei" if "map_of best ei = Some cand"
  proof -
    from bound [OF that] have b: "candEntry cand = entries c ! ei" "minScore \<le> best_score nfc c query ty ei"
      "candScore cand \<le> best_score nfc c query ty ei" by auto
    from attained [OF b(2)] that have "best_score nfc c query ty ei \<le> candScore cand" by auto
    with b show ?thesis by auto
  qed
qed

lemma distinct_map_snd:
  "distinct (map fst best) \<Longrightarrow> set (map f (map snd best)) = {f cand | ei cand. map_of best ei = Some cand}"
  by (force simp: map_of_eq_Some_iff)

lemma index_search_scan:
  assumes "buildCorpus u es overrides = Inr c"
    and "candidatesFor (to_nfc u) c query ty minScore = Inr cs" and "0 < minScore"
    and "inj_on (to_nfc u) (set query \<union> vocabulary c)"
  shows "set (map (\<lambda>x. (candEntry x, candScore x)) cs)
    = {(entries c ! ei, best_score (to_nfc u) c query ty ei) | ei. minScore \<le> best_score (to_nfc u) c query ty ei}"
proof -
  obtain best cands where cs: "cs = sort_by (\<lambda>x y. candScore y < candScore x) (map snd best)"
    and ok: "best_ok (to_nfc u) c query ty minScore (set cands) best"
    and below: "\<And>i. i \<in> set cands \<Longrightarrow> i < length (names c)"
    and reach: "\<And>i. i < length (names c) \<Longrightarrow> score_at (to_nfc u) c query ty i \<noteq> 0 \<Longrightarrow> i \<in> set cands"
    using candidatesFor_scan [OF assms(1,2,4)] by blast
  have "set (map (\<lambda>x. (candEntry x, candScore x)) cs) = {(candEntry x, candScore x) | ei x. map_of best ei = Some x}"
    using distinct_map_snd [of best "\<lambda>x. (candEntry x, candScore x)"] ok
    unfolding cs set_map set_sort_by by (simp add: best_ok_def)
  also have "\<dots> = {(entries c ! ei, best_score (to_nfc u) c query ty ei) | ei. minScore \<le> best_score (to_nfc u) c query ty ei}"
  proof -
    have scan:
      "minScore \<le> best_score (to_nfc u) c query ty ei \<longleftrightarrow> (\<exists>cand. map_of best ei = Some cand)"
      "map_of best ei = Some x \<Longrightarrow> candEntry x = entries c ! ei \<and> candScore x = best_score (to_nfc u) c query ty ei" for ei x
      by (rule best_is_scan [OF ok assms(3)], erule below, erule (1) reach, assumption?)+
    show ?thesis
    proof (intro equalityI subsetI)
      fix p assume "p \<in> {(candEntry x, candScore x) | ei x. map_of best ei = Some x}"
      then obtain ei x where "p = (candEntry x, candScore x)" "map_of best ei = Some x" by blast
      with scan(1) [of ei] scan(2) [of ei x]
      show "p \<in> {(entries c ! ei, best_score (to_nfc u) c query ty ei) | ei. minScore \<le> best_score (to_nfc u) c query ty ei}"
        by auto
    next
      fix p assume "p \<in> {(entries c ! ei, best_score (to_nfc u) c query ty ei) | ei. minScore \<le> best_score (to_nfc u) c query ty ei}"
      then obtain ei where p: "p = (entries c ! ei, best_score (to_nfc u) c query ty ei)"
        "minScore \<le> best_score (to_nfc u) c query ty ei" by blast
      with scan(1) [of ei] obtain x where x: "map_of best ei = Some x" by blast
      with scan(2) [OF x] p(1) have "p = (candEntry x, candScore x)" by simp
      with x show "p \<in> {(candEntry x, candScore x) | ei x. map_of best ei = Some x}"
        by blast
    qed
  qed
  finally show ?thesis .
qed

end
