(* ===== verification/Aml_Engine.thy ===== *)
theory Aml_Engine
  imports Aml_Provenance Aml_Retrieval Attrs
begin

text \<open>
  The screening engine (\<open>src/aml/engine.ts\<close>): its constructor, the screen of one subject
  with the decision rules, the risk band, the methods earned and the order of the hits.
  The digests of the evidence (HMACs of the name, its tokens and its variants) are the
  \<open>hmac\<close> of the platform; the textual \<open>hitDigests\<close> and notes are not modelled. The lemmas
  follow a candidate from the index into the decision: a listed name or a listed wallet
  never ends in ALLOW.
\<close>

subsection \<open>The platform and the engine\<close>

record platform =
  tables :: unicode
  sha_manifest :: "list_provenance \<Rightarrow> string"
  table_id :: "jurisdiction_table \<Rightarrow> string"
  instant :: "string \<Rightarrow> int option"
  origin_path :: "string \<Rightarrow> string option"
  number_of :: "string \<Rightarrow> rat option"
  env :: "string \<Rightarrow> string option"
  hmac :: "string \<Rightarrow> ustring \<Rightarrow> string"

datatype screen_error = Match_Error aml_error | Gate_Error provenance_error

definition match_result :: "aml_error + 'a \<Rightarrow> screen_error + 'a" where
  "match_result m = (case m of Inl e \<Rightarrow> Inl (Match_Error e) | Inr x \<Rightarrow> Inr x)"

definition gate_result :: "provenance_error + 'a \<Rightarrow> screen_error + 'a" where
  "gate_result m = (case m of Inl e \<Rightarrow> Inl (Gate_Error e) | Inr x \<Rightarrow> Inr x)"

lemma match_result_Inr [simp]: "match_result m = Inr x \<longleftrightarrow> m = Inr x"
  by (cases m) (auto simp: match_result_def)

lemma gate_result_Inr [simp]: "gate_result m = Inr x \<longleftrightarrow> m = Inr x"
  by (cases m) (auto simp: gate_result_def)

record engine_options =
  optEntries :: "sanction_entry list"
  optVersions :: "(list_id \<times> int) list"
  optKey :: string
  optKeyId :: "string option"
  optPep :: bool
  optAdverse :: bool
  optProvenance :: "list_provenance option"
  optMaxAge :: "rat option"

record engine =
  corpusOf :: corpus
  versions :: "(list_id \<times> int) list"
  evidenceKey :: string
  keyId :: "string option"
  engineProvenance :: "list_provenance option"
  maxAgeHours :: "rat option"

definition ENGINE_VERSION :: string where "ENGINE_VERSION = ''aml-1.4.0''"

definition corpus_matches :: "list_provenance \<Rightarrow> engine_options \<Rightarrow> bool" where
  "corpus_matches p opts \<longleftrightarrow> same_keys (optVersions opts) LIST_IDS
     \<and> list_all (\<lambda>l. map_of (listVersionsOf p) l = map_of (optVersions opts) l
         \<and> (case map_of (sources p) l of None \<Rightarrow> False
            | Some s \<Rightarrow> JInt (count_of (optEntries opts) l) = entryCount s)) LIST_IDS
     \<and> list_all (\<lambda>e. listId e \<in> set LIST_IDS) (optEntries opts)"

definition check_gate :: "platform \<Rightarrow> list_provenance option \<Rightarrow> rat option \<Rightarrow> int \<Rightarrow> provenance_error + unit" where
  "check_gate pl prov maxAge now = (case prov of None \<Rightarrow> Inr ()
     | Some p \<Rightarrow> assertProvenance (sha_manifest pl) (instant pl) (origin_path pl) p now maxAge)"

definition newEngine :: "platform \<Rightarrow> engine_options \<Rightarrow> int \<Rightarrow> screen_error + engine" where
  "newEngine pl opts now =
     bindE (gate_result (requireE Evidence_Key_Required (optKey opts \<noteq> []))) (\<lambda>_.
     bindE (gate_result (requireE Not_Implemented (\<not> (optPep opts \<or> optAdverse opts)))) (\<lambda>_.
     bindE (gate_result (case optMaxAge opts of Some m \<Rightarrow> Inr m
       | None \<Rightarrow> freshnessHours (number_of pl) (env pl ''SANCTIONS_MAX_AGE_HOURS''))) (\<lambda>maxAge.
     bindE (gate_result (check_gate pl (optProvenance opts) (Some maxAge) now)) (\<lambda>_.
     bindE (gate_result (requireE Corpus_Provenance_Mismatch
       (case optProvenance opts of None \<Rightarrow> True | Some p \<Rightarrow> corpus_matches p opts))) (\<lambda>_.
     bindE (match_result (buildCorpus (tables pl) (optEntries opts) [])) (\<lambda>c.
     Inr \<lparr>corpusOf = c, versions = optVersions opts, evidenceKey = optKey opts, keyId = optKeyId opts,
       engineProvenance = optProvenance opts, maxAgeHours = Some maxAge\<rparr>))))))"

subsection \<open>Screening\<close>

record screening_subject =
  subjectName :: ustring
  subjectRomanized :: "ustring option"
  dateOfBirth :: ustring
  subjectNationality :: ustring
  residence :: ustring
  subjectWallet :: ustring

datatype decision = ALLOW | BLOCK | REVIEW

datatype review_reason = NAME_SIMILARITY | IDENTITY_CONFLICT | DOB_MISSING | HIGH_RISK_JURISDICTION
  | SCREENING_UNAVAILABLE | SCREENING_INPUT_INVALID

record screening_check =
  checkId :: string
  applied :: bool
  passed :: bool

record screening_result =
  verdict :: decision
  reviewReason :: "review_reason option"
  riskBand :: nat
  hits :: "screening_hit list"
  methodsApplied :: "32 word"
  listVersionsUsed :: "(list_id \<times> int) list"
  engineVersion :: string
  screenedAt :: int
  evidenceKeyId :: string
  nameDigest :: string
  tokenDigests :: "string list"
  variantDigests :: "string list"
  checks :: "screening_check list"

definition blocking_hit :: "screening_hit \<Rightarrow> bool" where
  "blocking_hit h \<longleftrightarrow> matchType h = Wallet \<or> (corroborated h \<and> 88 / 100 \<le> score h
     \<and> (case identityComparison h of Some c \<Rightarrow> dobResult c = Match | None \<Rightarrow> False))"

definition drivesDecision :: "screening_hit \<Rightarrow> bool" where
  "drivesDecision h \<longleftrightarrow> matchType h \<noteq> Romanized
     \<or> 82 / 100 \<le> (case directNameScore h of Some s \<Rightarrow> s | None \<Rightarrow> 0)
     \<or> corroborated h \<or> (case corroboration h of Some c \<Rightarrow> c \<noteq> [] | None \<Rightarrow> False)"

definition suspicious_hit :: "screening_hit \<Rightarrow> bool" where
  "suspicious_hit h \<longleftrightarrow> \<not> blocking_hit h \<and> 82 / 100 \<le> score h \<and> drivesDecision h"

definition conflicting_hit :: "screening_hit \<Rightarrow> bool" where
  "conflicting_hit h \<longleftrightarrow> (case identityComparison h of Some c \<Rightarrow> identityConflicts c | None \<Rightarrow> False)"

definition decide :: "screening_hit list \<Rightarrow> bool \<Rightarrow> bool \<Rightarrow> bool \<Rightarrow> nat \<Rightarrow> ustring option
    \<Rightarrow> decision \<times> review_reason option \<times> nat" where
  "decide hs nameAvailable nameApplied jurisdictionApplied level dateob =
     (if list_ex blocking_hit hs then (BLOCK, None, 5)
      else if list_ex suspicious_hit hs then
        (REVIEW, Some (if list_ex (\<lambda>h. suspicious_hit h \<and> conflicting_hit h) hs then IDENTITY_CONFLICT
          else NAME_SIMILARITY), 4)
      else if \<not> nameAvailable then (REVIEW, Some SCREENING_UNAVAILABLE, 4)
      else if \<not> nameApplied \<or> \<not> jurisdictionApplied then (REVIEW, Some SCREENING_INPUT_INVALID, 4)
      else if level = 2 then (REVIEW, Some HIGH_RISK_JURISDICTION, 4)
      else if dateob = None then (REVIEW, Some DOB_MISSING, 3)
      else if level = 1 then (ALLOW, None, 3)
      else (ALLOW, None, if hs \<noteq> [] then 2 else 1))"

definition priority :: "screening_hit \<Rightarrow> nat" where
  "priority h = (if blocking_hit h then 2 else if suspicious_hit h then 1 else 0)"

definition engine_input :: "platform \<Rightarrow> screening_subject \<Rightarrow> match_input" where
  "engine_input pl s = \<lparr>fullName = subjectName s, romanizedName = subjectRomanized s,
     dob = normalizeDob (dateOfBirth s), nationality = normalizeCountry (tables pl) (subjectNationality s),
     walletAddress = subjectWallet s\<rparr>"

definition query_tokens :: "platform \<Rightarrow> ustring \<Rightarrow> token list" where
  "query_tokens pl v = contentTokens (tokenize (normalizeName (tables pl) v))"

definition name_variants :: "platform \<Rightarrow> screening_subject \<Rightarrow> ustring list" where
  "name_variants pl s = sort_by js_less (set_list
     ((if hasHangul (subjectName s) then romanizeVariants (subjectName s) else [])
      @ (case subjectRomanized s of Some r \<Rightarrow> if r \<noteq> [] then [normalizeName (tables pl) r] else [] | None \<Rightarrow> [])))"

definition screening_checks :: "bool \<Rightarrow> bool \<Rightarrow> bool \<Rightarrow> screening_hit list \<Rightarrow> nat \<Rightarrow> ustring option \<Rightarrow> screening_check list" where
  "screening_checks nameApplied walletApplied jurisdictionApplied hs level dateob =
     [\<lparr>checkId = ''sanctions.name'', applied = nameApplied,
        passed = (nameApplied \<and> \<not> list_ex (\<lambda>h. blocking_hit h \<and> matchType h \<noteq> Wallet) hs \<and> \<not> list_ex suspicious_hit hs)\<rparr>,
      \<lparr>checkId = ''sanctions.wallet'', applied = walletApplied,
        passed = (walletApplied \<and> \<not> list_ex (\<lambda>h. matchType h = Wallet) hs)\<rparr>,
      \<lparr>checkId = ''jurisdiction.fatf'', applied = jurisdictionApplied, passed = (jurisdictionApplied \<and> level = 0)\<rparr>,
      \<lparr>checkId = ''identity.dob'', applied = True, passed = (dateob \<noteq> None)\<rparr>,
      \<lparr>checkId = ''pep'', applied = False, passed = False\<rparr>,
      \<lparr>checkId = ''adverseMedia'', applied = False, passed = False\<rparr>,
      \<lparr>checkId = ''onchain.exposure'', applied = False, passed = False\<rparr>]"

definition with_versions :: "engine \<Rightarrow> screening_hit list \<Rightarrow> screening_hit list" where
  "with_versions e hs = map (\<lambda>h. h\<lparr>listVersion :=
     (case map_of (versions e) (hitList h) of Some v \<Rightarrow> v | None \<Rightarrow> 0)\<rparr>) hs"

definition screen :: "platform \<Rightarrow> engine \<Rightarrow> int \<Rightarrow> screening_subject \<Rightarrow> screen_error + screening_result" where
  "screen pl e now s =
     bindE (gate_result (check_gate pl (engineProvenance e) (maxAgeHours e) now)) (\<lambda>_.
     bindE (gate_result (fatfFreshnessDays (number_of pl) (env pl ''FATF_MAX_AGE_DAYS''))) (\<lambda>days.
     bindE (gate_result (assertJurisdictionTable (table_id pl) (instant pl) (FATF (table_id pl)) now (Some days))) (\<lambda>_.
     let dateob = normalizeDob (dateOfBirth s);
         ctry = normalizeCountry (tables pl) (subjectNationality s);
         res = normalizeCountry (tables pl) (residence s);
         c = corpusOf e;
         nameAvailable = (names c \<noteq> []);
         nameApplied = (nameAvailable \<and> query_tokens pl (subjectName s) \<noteq> []);
         walletApplied = (byWallet c \<noteq> [] \<and> evm_address (subjectWallet s));
         jurisdictionApplied = (country_code ctry \<and> country_code res)
     in bindE (match_result (screenNames (tables pl) c (engine_input pl s))) (\<lambda>hs0.
     let hs = with_versions e hs0 in
     bindE (gate_result (jurisdictionRisk (table_id pl) (instant pl) (to_upper (tables pl)) now (Some days) ctry)) (\<lambda>l1.
     bindE (gate_result (jurisdictionRisk (table_id pl) (instant pl) (to_upper (tables pl)) now (Some days) res)) (\<lambda>l2.
     let level = max l1 l2;
         (d, reason, band) = decide hs nameAvailable nameApplied jurisdictionApplied level dateob;
         nm = normalizeName (tables pl) (subjectName s);
         digest = (\<lambda>v. hmac pl (evidenceKey e) (to_nfc (tables pl) v))
     in Inr \<lparr>verdict = d, reviewReason = reason, riskBand = band,
         hits = sort_by (\<lambda>a b. priority b < priority a \<or> (priority a = priority b \<and> score b < score a)) hs,
         methodsApplied = mask_of ((if nameApplied then [''SANCTIONS_SCREENED''] else [])
           @ (if jurisdictionApplied then [''JURISDICTION_CHECK''] else [])),
         listVersionsUsed = versions e, engineVersion = ENGINE_VERSION, screenedAt = now div 1000,
         evidenceKeyId = (case keyId e of Some k \<Rightarrow> k | None \<Rightarrow> ''default''), nameDigest = digest nm,
         tokenDigests = map digest (query_tokens pl (subjectName s)),
         variantDigests = map digest (name_variants pl s),
         checks = screening_checks nameApplied walletApplied jurisdictionApplied hs level dateob\<rparr>))))))"

subsection \<open>The suspect hit\<close>

text \<open>
  A key is suspect when its hit blocks as a wallet match or carries a supplied-name score of
  the review threshold. Pushing a strong candidate makes its key suspect, and no later
  candidate can undo it.
\<close>

definition suspect :: "keyed_hits \<Rightarrow> ustring \<Rightarrow> bool" where
  "suspect hs key \<longleftrightarrow> (\<exists>h. map_of hs key = Some h \<and> (matchType h = Wallet \<or>
     (82 / 100 \<le> score h \<and> (\<exists>d. directNameScore h = Some d \<and> 82 / 100 \<le> d))))"

lemma toFixed3_strong: "82 / 100 \<le> s \<Longrightarrow> 82 / 100 \<le> toFixed3 s"
proof -
  assume "82 / 100 \<le> s"
  then have "of_int 820 \<le> s * 1000 + 1 / 2" by simp
  then have "820 \<le> \<lfloor>s * 1000 + 1 / 2\<rfloor>" by (simp only: le_floor_iff)
  then have "(of_int 820 :: rat) \<le> of_int \<lfloor>s * 1000 + 1 / 2\<rfloor>" by (simp only: of_int_le_iff)
  then show ?thesis by (simp add: toFixed3_def)
qed

lemma merge_hit_scores:
  "score prev \<le> score (merge_hit c ty prev)"
  "directNameScore prev = Some d \<Longrightarrow> \<exists>d'. directNameScore (merge_hit c ty prev) = Some d' \<and> d \<le> d'"
  "ty \<noteq> Romanized \<Longrightarrow> \<exists>d'. directNameScore (merge_hit c ty prev) = Some d' \<and> candScore c \<le> d'"
  "candScore c \<le> score (merge_hit c ty prev)"
  by (auto simp: merge_hit_def Let_def max_score_def)

lemma push_hit_map:
  "map_of (push_hit input hs (c, ty)) key = (if key \<noteq> hit_key (candEntry c) then map_of hs key
     else case map_of hs key of
        None \<Rightarrow> Some (new_hit input c ty)
      | Some prev \<Rightarrow> if matchType prev = Wallet then Some prev else Some (merge_hit c ty prev))"
  by (auto simp: push_hit_def Let_def AList.update_conv' split: option.splits)

lemma push_hit_keeps_suspect:
  assumes "suspect hs key"
  shows "suspect (push_hit input hs ct) key"
proof -
  obtain c ty where ct: "ct = (c, ty)" by fastforce
  from assms obtain h where h: "map_of hs key = Some h" and s: "matchType h = Wallet \<or>
     (82 / 100 \<le> score h \<and> (\<exists>d. directNameScore h = Some d \<and> 82 / 100 \<le> d))"
    unfolding suspect_def by blast
  show ?thesis
  proof (cases "key \<noteq> hit_key (candEntry c) \<or> matchType h = Wallet")
    case True
    then have "map_of (push_hit input hs ct) key = Some h"
      using h by (auto simp: ct push_hit_map)
    then show ?thesis using s unfolding suspect_def by blast
  next
    case False
    then have "map_of (push_hit input hs ct) key = Some (merge_hit c ty h)"
      using h by (simp add: ct push_hit_map)
    moreover have "82 / 100 \<le> score (merge_hit c ty h)"
      using s False merge_hit_scores(1) [of h c ty] by linarith
    moreover obtain d where "directNameScore h = Some d" "82 / 100 \<le> d" using s False by blast
    moreover from this merge_hit_scores(2) [of h d c ty] obtain d' where
      "directNameScore (merge_hit c ty h) = Some d'" "82 / 100 \<le> d'"
      using order_trans by blast
    ultimately show ?thesis unfolding suspect_def by blast
  qed
qed

lemma push_hit_makes_suspect:
  assumes "82 / 100 \<le> candScore c" "ty \<noteq> Romanized"
  shows "suspect (push_hit input hs (c, ty)) (hit_key (candEntry c))"
proof (cases "map_of hs (hit_key (candEntry c))")
  case None
  then have "map_of (push_hit input hs (c, ty)) (hit_key (candEntry c)) = Some (new_hit input c ty)"
    by (simp add: push_hit_map)
  moreover have "score (new_hit input c ty) = toFixed3 (candScore c)" "directNameScore (new_hit input c ty) = Some (candScore c)"
    using assms(2) by (simp_all add: new_hit_def Let_def)
  ultimately show ?thesis
    using assms(1) toFixed3_strong unfolding suspect_def by simp
next
  case (Some prev)
  show ?thesis
  proof (cases "matchType prev = Wallet")
    case True
    then show ?thesis using Some by (simp add: suspect_def push_hit_map)
  next
    case False
    then have "map_of (push_hit input hs (c, ty)) (hit_key (candEntry c)) = Some (merge_hit c ty prev)"
      using Some by (simp add: push_hit_map)
    moreover have "82 / 100 \<le> score (merge_hit c ty prev)"
      using assms(1) merge_hit_scores(4) [of c ty prev] by linarith
    moreover obtain d where "directNameScore (merge_hit c ty prev) = Some d" "82 / 100 \<le> d"
      using assms merge_hit_scores(3) [of ty c prev] order_trans by blast
    ultimately show ?thesis unfolding suspect_def by blast
  qed
qed

lemma fold_keeps_suspect: "suspect hs key \<Longrightarrow> suspect (foldl (push_hit input) hs cts) key"
  by (induction cts arbitrary: hs) (auto intro: push_hit_keeps_suspect)

lemma fold_makes_suspect:
  assumes "(c, ty) \<in> set cts" "82 / 100 \<le> candScore c" "ty \<noteq> Romanized"
  shows "suspect (foldl (push_hit input) hs cts) (hit_key (candEntry c))"
proof -
  obtain xs ys where "cts = xs @ (c, ty) # ys" using assms(1) by (meson split_list)
  then show ?thesis
    using fold_keeps_suspect [OF push_hit_makes_suspect [OF assms(2,3)]] by simp
qed

lemma push_names_keeps_suspect:
  "push_names u c input vs hs = Inr hs' \<Longrightarrow> suspect hs key \<Longrightarrow> suspect hs' key"
  by (induction vs arbitrary: hs)
    (auto simp: Let_def split: if_splits elim!: bindE_Inr_cases intro: fold_keeps_suspect)

lemma push_variants_keeps_suspect:
  "push_variants u c input vs hs = Inr hs' \<Longrightarrow> suspect hs key \<Longrightarrow> suspect hs' key"
  by (induction vs arbitrary: hs)
    (auto simp: Let_def split: if_splits elim!: bindE_Inr_cases intro: fold_keeps_suspect)

subsection \<open>From the index to the decision\<close>

lemma push_names_strong:
  assumes c: "buildCorpus u es overrides = Inr c"
    and strong: "82 / 100 \<le> best_score (to_nfc u) c (contentTokens (tokenize (normalizeName u v))) Fuzzy ei"
    and inj: "inj_on (to_nfc u) (set (contentTokens (tokenize (normalizeName u v))) \<union> vocabulary c)"
    and toks: "contentTokens (tokenize (normalizeName u v)) \<noteq> []"
  shows "push_names u c input vs hs = Inr hs' \<Longrightarrow> v \<in> set vs \<Longrightarrow> suspect hs' (hit_key (entries c ! ei))"
proof (induction vs arbitrary: hs)
  case Nil
  then show ?case by simp
next
  case (Cons w vs)
  show ?case
  proof (cases "w = v")
    case False
    with Cons.prems have "v \<in> set vs" by auto
    with Cons.prems(1) show ?thesis
      by (auto simp: Let_def split: if_splits elim!: bindE_Inr_cases intro: Cons.IH)
  next
    case True
    let ?toks = "contentTokens (tokenize (normalizeName u v))"
    from Cons.prems(1) True toks obtain cs where
      cs: "candidatesFor (to_nfc u) c ?toks Fuzzy (72 / 100) = Inr cs" and
      rest: "push_names u c input vs (foldl (push_hit input) hs (map (\<lambda>c. (c, direct_type c)) cs)) = Inr hs'"
      by (auto simp: Let_def elim!: bindE_Inr_cases)
    have pos: "(0 :: rat) < 72 / 100" and reach: "72 / 100 \<le> best_score (to_nfc u) c ?toks Fuzzy ei"
      using strong by (simp, linarith)
    have "(entries c ! ei, best_score (to_nfc u) c ?toks Fuzzy ei) \<in> set (map (\<lambda>x. (candEntry x, candScore x)) cs)"
      unfolding index_search_scan [OF c cs pos inj] using reach by blast
    then obtain x where x: "x \<in> set cs" "candEntry x = entries c ! ei" "candScore x = best_score (to_nfc u) c ?toks Fuzzy ei"
      by auto
    have ty: "candType y \<noteq> Romanized" if "y \<in> set cs" for y
      by (rule candidates_not_romanized [OF cs that]) simp
    have "suspect (foldl (push_hit input) hs (map (\<lambda>c. (c, direct_type c)) cs)) (hit_key (candEntry x))"
      by (rule fold_makes_suspect [of x "direct_type x"]) (use x strong ty [OF x(1)] in \<open>auto simp: direct_type_def\<close>)
    then show ?thesis
      using push_names_keeps_suspect [OF rest] x(2) by simp
  qed
qed

lemma sorted_hits: "set (sort_by precedes xs) = set xs"
  by simp

lemma screenNames_suspect:
  assumes c: "buildCorpus u es overrides = Inr c" and hs: "screenNames u c input = Inr hs"
    and v: "v \<in> set (supplied_names input)"
    and strong: "82 / 100 \<le> best_score (to_nfc u) c (contentTokens (tokenize (normalizeName u v))) Fuzzy ei"
    and inj: "inj_on (to_nfc u) (set (contentTokens (tokenize (normalizeName u v))) \<union> vocabulary c)"
    and toks: "contentTokens (tokenize (normalizeName u v)) \<noteq> []"
  shows "\<exists>h \<in> set hs. matchType h = Wallet \<or> (82 / 100 \<le> score h \<and> (\<exists>d. directNameScore h = Some d \<and> 82 / 100 \<le> d))"
proof -
  from hs obtain k1 k2 where
    1: "push_names u c input (supplied_names input) (wallet_hits u c input) = Inr k1" and
    2: "(if hasHangul (fullName input) then push_variants u c input (romanizeVariants (fullName input)) k1 else Inr k1) = Inr k2" and
    3: "hs = sort_by (\<lambda>a b. score b < score a) (map snd k2)"
    unfolding screenNames_def by (auto elim!: bindE_Inr_cases)
  from push_names_strong [OF c strong inj toks 1 v] have "suspect k1 (hit_key (entries c ! ei))" .
  with 2 have "suspect k2 (hit_key (entries c ! ei))"
    by (auto split: if_splits intro: push_variants_keeps_suspect)
  then obtain h where h: "map_of k2 (hit_key (entries c ! ei)) = Some h" "matchType h = Wallet \<or>
     (82 / 100 \<le> score h \<and> (\<exists>d. directNameScore h = Some d \<and> 82 / 100 \<le> d))"
    unfolding suspect_def by blast
  from map_of_SomeD [OF h(1)] have "snd (hit_key (entries c ! ei), h) \<in> snd ` set k2" by (rule imageI)
  then have "h \<in> set hs" by (simp add: 3)
  with h(2) show ?thesis by blast
qed

lemma suspect_not_allowed:
  assumes "h \<in> set hs" "matchType h = Wallet \<or> (82 / 100 \<le> score h \<and> (\<exists>d. directNameScore h = Some d \<and> 82 / 100 \<le> d))"
  shows "fst (decide (with_versions e hs) na np ja level dateob) \<noteq> ALLOW"
proof -
  let ?h = "h\<lparr>listVersion := (case map_of (versions e) (hitList h) of Some v \<Rightarrow> v | None \<Rightarrow> 0)\<rparr>"
  have mem: "?h \<in> set (with_versions e hs)" using assms(1) by (auto simp: with_versions_def)
  have "blocking_hit ?h \<or> suspicious_hit ?h"
    using assms(2) by (auto simp: blocking_hit_def suspicious_hit_def drivesDecision_def)
  with mem have "list_ex blocking_hit (with_versions e hs) \<or> list_ex suspicious_hit (with_versions e hs)"
    unfolding list_ex_iff by blast
  then show ?thesis unfolding decide_def by auto
qed

definition jurisdiction_codes :: "platform \<Rightarrow> screening_subject \<Rightarrow> bool" where
  "jurisdiction_codes pl s \<longleftrightarrow> country_code (normalizeCountry (tables pl) (subjectNationality s))
     \<and> country_code (normalizeCountry (tables pl) (residence s))"

definition highest_level :: "platform \<Rightarrow> screening_subject \<Rightarrow> nat" where
  "highest_level pl s = max
     (jurisdiction_level (to_upper (tables pl)) (normalizeCountry (tables pl) (subjectNationality s)))
     (jurisdiction_level (to_upper (tables pl)) (normalizeCountry (tables pl) (residence s)))"

lemma jurisdictionRisk_level: "jurisdictionRisk tid ins up now m c = Inr l \<Longrightarrow> l = jurisdiction_level up c"
  by (auto simp: jurisdictionRisk_def elim!: bindE_Inr_cases)

lemma screen_decision:
  assumes "screen pl e now s = Inr r"
  obtains hs0 where "screenNames (tables pl) (corpusOf e) (engine_input pl s) = Inr hs0"
    and "(verdict r, reviewReason r, riskBand r) = decide (with_versions e hs0)
      (names (corpusOf e) \<noteq> []) (names (corpusOf e) \<noteq> [] \<and> query_tokens pl (subjectName s) \<noteq> [])
      (jurisdiction_codes pl s) (highest_level pl s) (normalizeDob (dateOfBirth s))"
    and "methodsApplied r = mask_of ((if names (corpusOf e) \<noteq> [] \<and> query_tokens pl (subjectName s) \<noteq> [] then [''SANCTIONS_SCREENED''] else [])
      @ (if jurisdiction_codes pl s then [''JURISDICTION_CHECK''] else []))"
    and "set (hits r) = set (with_versions e hs0)"
proof -
  obtain hs0 l1 l2 where hs0: "screenNames (tables pl) (corpusOf e) (engine_input pl s) = Inr hs0"
    and l: "l1 = jurisdiction_level (to_upper (tables pl)) (normalizeCountry (tables pl) (subjectNationality s))"
      "l2 = jurisdiction_level (to_upper (tables pl)) (normalizeCountry (tables pl) (residence s))"
    and r: "(verdict r, reviewReason r, riskBand r) = decide (with_versions e hs0)
      (names (corpusOf e) \<noteq> []) (names (corpusOf e) \<noteq> [] \<and> query_tokens pl (subjectName s) \<noteq> [])
      (jurisdiction_codes pl s) (max l1 l2) (normalizeDob (dateOfBirth s))"
      "methodsApplied r = mask_of ((if names (corpusOf e) \<noteq> [] \<and> query_tokens pl (subjectName s) \<noteq> [] then [''SANCTIONS_SCREENED''] else [])
      @ (if jurisdiction_codes pl s then [''JURISDICTION_CHECK''] else []))"
      "set (hits r) = set (with_versions e hs0)"
    using assms unfolding screen_def Let_def jurisdiction_codes_def
    by (auto elim!: bindE_Inr_cases dest!: jurisdictionRisk_level split: prod.splits)
  from that [OF hs0] r show thesis unfolding highest_level_def l [symmetric] by blast
qed

lemma newEngine_corpus:
  "newEngine pl opts t = Inr e \<Longrightarrow> buildCorpus (tables pl) (optEntries opts) [] = Inr (corpusOf e)"
  unfolding newEngine_def by (auto elim!: bindE_Inr_cases)

text \<open>
  C10: No listed name is allowed: when a supplied name of the subject (the name as written or
  the supplied romanisation) scores at least the review threshold 0.82 against some name of
  some listed entry, the screen does not end in ALLOW, whatever else the lists hold and
  whatever the other descriptors say. The score is that of the two names alone; that the
  indexes retrieve the entry and that no later hit displaces it is part of the claim.
\<close>

theorem listed_name_never_allowed:
  assumes "newEngine pl opts t0 = Inr e" and "screen pl e now s = Inr r"
    and "k < length (optEntries opts)" and "raw \<in> set (entryNames (optEntries opts ! k))"
    and "v \<in> set (supplied_names (engine_input pl s))"
    and "82 / 100 \<le> name_score_of (to_nfc (tables pl)) Fuzzy (query_tokens pl v) (query_tokens pl raw)"
    and "inj_on (to_nfc (tables pl)) (set (query_tokens pl v) \<union> vocabulary (corpusOf e))"
  shows "verdict r \<noteq> ALLOW"
proof -
  let ?u = "tables pl" and ?c = "corpusOf e"
  note c = newEngine_corpus [OF assms(1)]
  have "near_pair (to_nfc ?u) (query_tokens pl v) (query_tokens pl raw)"
    by (rule name_score_near [of _ Fuzzy]) (use assms(6) in linarith)
  then have ne: "query_tokens pl v \<noteq> []" "query_tokens pl raw \<noteq> []" by (auto simp: near_pair_def)
  from buildCorpus_indexes(5) [OF c assms(3,4)] ne(2) obtain i where
    i: "i < length (names ?c)" "entryIdx (names ?c ! i) = k" "tokens (names ?c ! i) = query_tokens pl raw"
    unfolding listed_def query_tokens_def by auto
  have "82 / 100 \<le> best_score (to_nfc ?u) ?c (query_tokens pl v) Fuzzy k"
    using best_score_le [OF i(1), of "to_nfc ?u" "query_tokens pl v" Fuzzy] assms(6) i(2,3) by (simp add: score_at_def)
  moreover obtain hs0 na np ja level dateob where hs0: "screenNames ?u ?c (engine_input pl s) = Inr hs0"
    and d: "(verdict r, reviewReason r, riskBand r) = decide (with_versions e hs0) na np ja level dateob"
    by (rule screen_decision [OF assms(2)]) blast
  ultimately obtain h where "h \<in> set hs0" "matchType h = Wallet \<or> (82 / 100 \<le> score h \<and> (\<exists>d. directNameScore h = Some d \<and> 82 / 100 \<le> d))"
    using screenNames_suspect [OF c hs0 assms(5), of k] assms(7) ne(1) unfolding query_tokens_def by blast
  from suspect_not_allowed [OF this, of e na np ja level dateob] show ?thesis
    unfolding d [symmetric] by simp
qed

subsection \<open>Wallets\<close>

lemma byWallet_add_postings: "add_postings idx ts (c, n) = Inr (c', n') \<Longrightarrow> byWallet c' = byWallet c"
  by (induction ts arbitrary: c n) (auto simp: Let_def split: if_splits)

lemma byWallet_add_name: "add_name u ei ni raw (c, n) = Inr (c', n') \<Longrightarrow> byWallet c' = byWallet c"
  by (auto simp: add_name_def Let_def split: if_splits dest!: byWallet_add_postings)

lemma byWallet_add_names: "add_names u ei ni raws (c, n) = Inr (c', n') \<Longrightarrow> byWallet c' = byWallet c"
proof (induction raws arbitrary: ni c n)
  case (Cons raw raws)
  from Cons.prems obtain c1 n1 where
    "add_name u ei ni raw (c, n) = Inr (c1, n1)" "add_names u ei (Suc ni) raws (c1, n1) = Inr (c', n')"
    by (auto elim!: bindE_Inr_cases)
  with Cons.IH byWallet_add_name show ?case by metis
qed simp

lemma byWallet_add_wallets:
  "map_of (byWallet (add_wallets ei e c)) w \<noteq> None \<longleftrightarrow>
   map_of (byWallet c) w \<noteq> None \<or> (\<exists>a \<in> set (cryptoAddresses e). evm_address a \<and> w = map lower_ascii a)"
proof -
  have "map_of (byWallet (foldl (\<lambda>c a. if evm_address a then c\<lparr>byWallet := AList.update (map lower_ascii a) ei (byWallet c)\<rparr> else c) c as)) w \<noteq> None
    \<longleftrightarrow> map_of (byWallet c) w \<noteq> None \<or> (\<exists>a \<in> set as. evm_address a \<and> w = map lower_ascii a)" for as
    by (induction as arbitrary: c) (auto simp: AList.update_conv')
  then show ?thesis by (simp add: add_wallets_def)
qed

lemma byWallet_add_entries:
  "add_entries u ei es (c, n) = Inr (c', n') \<Longrightarrow>
   map_of (byWallet c') w \<noteq> None \<longleftrightarrow> map_of (byWallet c) w \<noteq> None
     \<or> (\<exists>e \<in> set es. \<exists>a \<in> set (cryptoAddresses e). evm_address a \<and> w = map lower_ascii a)"
proof (induction es arbitrary: ei c n)
  case (Cons e es)
  from Cons.prems obtain c1 n1 where
    1: "add_names u ei 0 (entryNames e) (add_wallets ei e c, n) = Inr (c1, n1)" and
    2: "add_entries u (Suc ei) es (c1, n1) = Inr (c', n')"
    by (auto elim!: bindE_Inr_cases)
  show ?case
    unfolding Cons.IH [OF 2] byWallet_add_names [OF 1] byWallet_add_wallets by auto
qed simp

lemma byWallet_add_deletions: "byWallet (add_deletions nfc c) = byWallet c"
proof -
  have "byWallet (foldl (push_deletion t) c ks) = byWallet c" for t ks c
    by (induction ks arbitrary: c) (auto simp: push_deletion_def)
  then have "byWallet (foldl (\<lambda>c t. foldl (push_deletion t) c (deletionKeys nfc t)) c ts) = byWallet c" for ts
    by (induction ts arbitrary: c) auto
  then show ?thesis by (simp add: add_deletions_alt)
qed

lemma byWallet_push_grams: "push_grams t gs (c, n) = Inr (c', n') \<Longrightarrow> byWallet c' = byWallet c"
  by (induction gs arbitrary: c n) (auto simp: Let_def split: if_splits)

lemma byWallet_add_grams: "add_grams nfc ts (c, n) = Inr (c', n') \<Longrightarrow> byWallet c' = byWallet c"
proof (induction ts arbitrary: c n)
  case (Cons t ts)
  from Cons.prems obtain c1 n1 where
    "push_grams t (editGrams nfc t) (c, n) = Inr (c1, n1)" "add_grams nfc ts (c1, n1) = Inr (c', n')"
    by (auto elim!: bindE_Inr_cases)
  with Cons.IH byWallet_push_grams show ?case by metis
qed simp

lemma buildCorpus_wallets:
  assumes "buildCorpus u es overrides = Inr c"
  shows "map_of (byWallet c) w \<noteq> None \<longleftrightarrow> (\<exists>e \<in> set es. \<exists>a \<in> set (cryptoAddresses e). evm_address a \<and> w = map lower_ascii a)"
proof -
  from assms obtain ls c1 n1 n2 where
    1: "add_entries u 0 es (\<lparr>entries = es, names = [], byToken = [], byDeletion = [], byGram = [],
       limits = ls, byWallet = []\<rparr>, 0) = Inr (c1, n1)" and
    2: "add_grams (to_nfc u) (map fst (byToken c1)) (add_deletions (to_nfc u) c1, 0) = Inr (c, n2)"
    unfolding buildCorpus_def by (auto elim!: bindE_Inr_cases)
  show ?thesis
    using byWallet_add_entries [OF 1, of w] by (simp add: byWallet_add_grams [OF 2] byWallet_add_deletions)
qed

lemma lower_address:
  assumes "evm_address a"
  shows "evm_address (map lower_ascii a)" "list_all (\<lambda>ch. \<not> (65 \<le> ch \<and> ch \<le> 70)) (map lower_ascii a)"
proof -
  have "drop 2 (map lower_ascii a) = map lower_ascii (drop 2 a)" by (simp add: drop_map)
  moreover have "take 2 (map lower_ascii a) = map lower_ascii (take 2 a)" by (simp add: take_map)
  ultimately show "evm_address (map lower_ascii a)"
    using assms by (auto simp: evm_address_def list_all_iff lower_ascii_def ascii_digit_def)
  show "list_all (\<lambda>ch. \<not> (65 \<le> ch \<and> ch \<le> 70)) (map lower_ascii a)"
    by (auto simp: list_all_iff lower_ascii_def)
qed

definition wallet_hit :: "keyed_hits \<Rightarrow> bool" where
  "wallet_hit hs \<longleftrightarrow> (\<exists>key h. map_of hs key = Some h \<and> matchType h = Wallet)"

lemma wallet_hit_single: "matchType h = Wallet \<Longrightarrow> wallet_hit [(key, h)]"
  unfolding wallet_hit_def by (rule exI [of _ key]) simp

lemma push_hit_keeps_wallet: "wallet_hit hs \<Longrightarrow> wallet_hit (push_hit input hs ct)"
proof -
  assume "wallet_hit hs"
  then obtain key h where h: "map_of hs key = Some h" "matchType h = Wallet" unfolding wallet_hit_def by blast
  then have "map_of (push_hit input hs (fst ct, snd ct)) key = Some h" by (auto simp only: push_hit_map split: if_splits option.splits)
  with h show ?thesis unfolding wallet_hit_def by auto
qed

lemma fold_keeps_wallet: "wallet_hit hs \<Longrightarrow> wallet_hit (foldl (push_hit input) hs cts)"
  by (induction cts arbitrary: hs) (auto intro: push_hit_keeps_wallet)

lemma push_names_keeps_wallet: "push_names u c input vs hs = Inr hs' \<Longrightarrow> wallet_hit hs \<Longrightarrow> wallet_hit hs'"
  by (induction vs arbitrary: hs)
    (auto simp: Let_def split: if_splits elim!: bindE_Inr_cases intro: fold_keeps_wallet)

lemma push_variants_keeps_wallet: "push_variants u c input vs hs = Inr hs' \<Longrightarrow> wallet_hit hs \<Longrightarrow> wallet_hit hs'"
  by (induction vs arbitrary: hs)
    (auto simp: Let_def split: if_splits elim!: bindE_Inr_cases intro: fold_keeps_wallet)

lemma screenNames_wallet:
  assumes "screenNames u c input = Inr hs" "wallet_hit (wallet_hits u c input)"
  shows "\<exists>h \<in> set hs. matchType h = Wallet"
proof -
  from assms(1) obtain k1 k2 where
    1: "push_names u c input (supplied_names input) (wallet_hits u c input) = Inr k1" and
    2: "(if hasHangul (fullName input) then push_variants u c input (romanizeVariants (fullName input)) k1 else Inr k1) = Inr k2" and
    3: "hs = sort_by (\<lambda>a b. score b < score a) (map snd k2)"
    unfolding screenNames_def by (auto elim!: bindE_Inr_cases)
  from 2 push_names_keeps_wallet [OF 1 assms(2)] have "wallet_hit k2"
    by (auto split: if_splits intro: push_variants_keeps_wallet)
  then obtain key h where h: "map_of k2 key = Some h" "matchType h = Wallet" unfolding wallet_hit_def by blast
  from map_of_SomeD [OF h(1)] have "snd (key, h) \<in> snd ` set k2" by (rule imageI)
  then show ?thesis using h(2) by (auto simp: 3)
qed

text \<open>
  C20: A listed wallet always blocks: when the subject's wallet, in any letter case, is an EVM
  address that some entry lists, in any letter case, every screen that returns blocks at
  the highest band, whatever the name, the date of birth and the jurisdictions are.
\<close>

theorem listed_wallet_blocks:
  assumes "newEngine pl opts t0 = Inr e" and "screen pl e now s = Inr r"
    and "x \<in> set (optEntries opts)" and "a \<in> set (cryptoAddresses x)" and "evm_address a"
    and "to_lower (tables pl) (subjectWallet s) = map lower_ascii a"
  shows "verdict r = BLOCK \<and> reviewReason r = None \<and> riskBand r = 5"
proof -
  let ?u = "tables pl" and ?c = "corpusOf e"
  obtain hs0 na np ja level dateob where hs0: "screenNames ?u ?c (engine_input pl s) = Inr hs0"
    and d: "(verdict r, reviewReason r, riskBand r) = decide (with_versions e hs0) na np ja level dateob"
    by (rule screen_decision [OF assms(2)]) blast
  have "map_of (byWallet ?c) (map lower_ascii a) \<noteq> None"
    using buildCorpus_wallets [OF newEngine_corpus [OF assms(1)]] assms(3-5) by blast
  then obtain ei where "map_of (byWallet ?c) (map lower_ascii a) = Some ei" by blast
  then have "wallet_hit (wallet_hits ?u ?c (engine_input pl s))"
    using assms(6) lower_address [OF assms(5)]
    by (simp add: wallet_hits_def engine_input_def Let_def wallet_hit_single)
  from screenNames_wallet [OF hs0 this] have "list_ex blocking_hit (with_versions e hs0)"
    by (auto simp: list_ex_iff with_versions_def blocking_hit_def)
  then show ?thesis using d by (simp add: decide_def)
qed

text \<open>
  C24: ALLOW is earned: a screen that allows ran over lists that passed the provenance gate at
  that moment, found no blocking and no decision-driving hit, had a usable name, two
  well-formed country codes outside the call-for-action list and a date of birth, sets both
  screening bits and no other, and ends in a band of at most 3.
\<close>

theorem allow_is_earned:
  assumes "screen pl e now s = Inr r" and "verdict r = ALLOW"
  shows "check_gate pl (engineProvenance e) (maxAgeHours e) now = Inr ()
    \<and> list_all (\<lambda>h. \<not> blocking_hit h \<and> \<not> suspicious_hit h) (hits r)
    \<and> query_tokens pl (subjectName s) \<noteq> [] \<and> jurisdiction_codes pl s \<and> highest_level pl s < 2
    \<and> normalizeDob (dateOfBirth s) \<noteq> None
    \<and> methodsApplied r = mask_of [''SANCTIONS_SCREENED'', ''JURISDICTION_CHECK'']
    \<and> reviewReason r = None \<and> riskBand r \<le> 3"
proof -
  have gate: "check_gate pl (engineProvenance e) (maxAgeHours e) now = Inr ()"
    using assms(1) unfolding screen_def by (auto elim!: bindE_Inr_cases)
  have level: "highest_level pl s \<le> 2"
    by (simp add: highest_level_def jurisdiction_level_def Let_def)
  obtain hs0 where d: "(verdict r, reviewReason r, riskBand r) = decide (with_versions e hs0)
      (names (corpusOf e) \<noteq> []) (names (corpusOf e) \<noteq> [] \<and> query_tokens pl (subjectName s) \<noteq> [])
      (jurisdiction_codes pl s) (highest_level pl s) (normalizeDob (dateOfBirth s))"
    and m: "methodsApplied r = mask_of ((if names (corpusOf e) \<noteq> [] \<and> query_tokens pl (subjectName s) \<noteq> [] then [''SANCTIONS_SCREENED''] else [])
      @ (if jurisdiction_codes pl s then [''JURISDICTION_CHECK''] else []))"
    and h: "set (hits r) = set (with_versions e hs0)"
    by (rule screen_decision [OF assms(1)])
  have ok: "\<not> list_ex blocking_hit (with_versions e hs0)" "\<not> list_ex suspicious_hit (with_versions e hs0)"
    "names (corpusOf e) \<noteq> []" "query_tokens pl (subjectName s) \<noteq> []" "jurisdiction_codes pl s"
    "highest_level pl s \<noteq> 2" "normalizeDob (dateOfBirth s) \<noteq> None" "reviewReason r = None" "riskBand r \<le> 3"
    using d assms(2) unfolding decide_def by (auto split: if_splits)
  have "list_all (\<lambda>h. \<not> blocking_hit h \<and> \<not> suspicious_hit h) (hits r)"
    using ok(1,2) unfolding list_all_iff list_ex_iff h by blast
  then show ?thesis using gate ok m level by simp
qed

subsection \<open>Samples\<close>

definition sample_unicode :: unicode where
  "sample_unicode = \<lparr>to_lower = map lower_ascii,
     to_upper = map (\<lambda>c. if 97 \<le> c \<and> c \<le> 122 then c - 32 else c), to_nfd = id, to_nfc = id,
     letter = ascii_letter, number = ascii_digit\<rparr>"

definition sample_platform :: platform where
  "sample_platform = \<lparr>tables = sample_unicode, sha_manifest = \<lambda>_. [], table_id = \<lambda>_. [],
     instant = \<lambda>_. Some 0, origin_path = \<lambda>_. None, number_of = \<lambda>_. Some 120, env = \<lambda>_. None, hmac = \<lambda>_ _. []\<rparr>"

text \<open>One entry, named \<open>kim\<close>, with one wallet.\<close>

definition kim :: ustring where "kim = [107, 105, 109]"

definition sample_wallet :: ustring where
  "sample_wallet = [48, 120] @ replicate 40 65"

definition sample_entry :: sanction_entry where
  "sample_entry = \<lparr>listId = OFAC_SDN, entryId = [55], primaryName = kim,
     entryNames = [kim], entryDobs = [], entryCountries = [], cryptoAddresses = [sample_wallet]\<rparr>"

definition sample_options :: engine_options where
  "sample_options = \<lparr>optEntries = [sample_entry], optVersions = [], optKey = ''k'', optKeyId = None,
     optPep = False, optAdverse = False, optProvenance = None, optMaxAge = None\<rparr>"

definition sample_corpus :: corpus where
  "sample_corpus = \<lparr>entries = [sample_entry],
     names = [\<lparr>entryIdx = 0, norm = kim, tokens = [kim], isAlias = False\<rparr>],
     byToken = [(kim, [0])], byDeletion = [], byGram = [], limits = DEFAULT_MATCH_LIMITS,
     byWallet = [(map lower_ascii sample_wallet, 0)]\<rparr>"

definition sample_engine :: engine where
  "sample_engine = \<lparr>corpusOf = sample_corpus, versions = [], evidenceKey = ''k'', keyId = None,
     engineProvenance = None, maxAgeHours = Some 120\<rparr>"

definition sample_subject :: "ustring \<Rightarrow> ustring \<Rightarrow> screening_subject" where
  "sample_subject nm wal = \<lparr>subjectName = nm, subjectRomanized = None, dateOfBirth = [49, 57, 56, 53],
     subjectNationality = [75, 82], residence = [75, 82], subjectWallet = wal\<rparr>"

lemma kim_letters: "homoglyph 107 = 107" "homoglyph 105 = 105" "homoglyph 109 = 109" "homoglyph 122 = 122"
  by (simp_all add: homoglyph_def HOMOGLYPH_def)

lemma kim_other [simp]: "[122] \<noteq> kim" "kim \<noteq> []"
  by (simp_all add: kim_def)

lemma kim_norm: "normalizeName sample_unicode kim = kim" "normalizeName sample_unicode [122] = [122]"
  by (simp_all add: normalizeName_def sample_unicode_def kim_def toHalfWidth_def mapHomoglyphs_def kim_letters
    INVISIBLE_def js_space_def lower_ascii_def ascii_letter_def ascii_digit_def trim_def)

lemma kim_tokens: "contentTokens (tokenize kim) = [kim]" "contentTokens (tokenize [122]) = [[122]]"
  by (simp_all add: tokenize_def kim_def token_separator_def js_space_def contentTokens_def TITLES_def)

lemma kim_keys: "deletionKeys id kim = []" "editGrams id kim = []" "deletionKeys id [122] = []" "editGrams id [122] = []"
  by (simp_all add: supportedEditLimit_def deletionKeys_def editGrams_def kim_def codePoints_def edit_limits)

lemma default_limits:
  "limitsOf [] = Inr DEFAULT_MATCH_LIMITS"
  "limit_of DEFAULT_MATCH_LIMITS ''maxIndexNames'' = 250000"
  "limit_of DEFAULT_MATCH_LIMITS ''maxIndexTokenPostings'' = 1500000"
  "limit_of DEFAULT_MATCH_LIMITS ''maxQueryTokens'' = 64"
  "limit_of DEFAULT_MATCH_LIMITS ''maxQueryTokenPostings'' = 300000"
  "limit_of DEFAULT_MATCH_LIMITS ''maxCandidateNames'' = 100000"
  by (simp_all add: limit_of_def DEFAULT_MATCH_LIMITS_def limitsOf_def is_safe_def max_safe_def)

lemma sample_address: "evm_address sample_wallet"
  by (simp add: evm_address_def sample_wallet_def list_all_iff)

lemma sample_built: "buildCorpus sample_unicode [sample_entry] [] = Inr sample_corpus"
proof -
  have nfc: "to_nfc sample_unicode = id" by (simp add: sample_unicode_def)
  have ne: "kim \<noteq> []" by (simp add: kim_def)
  have wallets: "add_wallets 0 sample_entry c = c\<lparr>byWallet := AList.update (map lower_ascii sample_wallet) 0 (byWallet c)\<rparr>" for c
    by (simp add: add_wallets_def sample_entry_def sample_address)
  have names_of: "entryNames sample_entry = [kim]" by (simp add: sample_entry_def)
  show ?thesis
    by (simp add: buildCorpus_def default_limits wallets names_of add_name_def kim_norm kim_tokens ne
        set_list_def map_push_def nfc add_deletions_def kim_keys sample_corpus_def Let_def)
qed

lemma sample_newEngine: "newEngine sample_platform sample_options 0 = Inr sample_engine"
proof -
  have "freshnessHours (\<lambda>_. Some 120) None = Inr 120"
    by (simp add: freshnessHours_def Let_def blank_def js_space_def MAX_AGE_HOURS_def)
  then show ?thesis
    using sample_built
    by (simp add: newEngine_def sample_platform_def sample_options_def gate_result_def match_result_def
        check_gate_def sample_engine_def)
qed

lemma kim_score: "name_score_of id Fuzzy [kim] [kim] = 1"
  by (simp add: name_score_of_def nameScore_def editNameScore_def missingTokenNameScore_def set_list_def exact_step_def
      use_pair_def edit_pairs_def sort_by_def)

lemma kim_candidates: "candidatesFor id sample_corpus [kim] Fuzzy (18 / 25)
    = Inr [\<lparr>candEntry = sample_entry, candName = kim, candScore = 1, candType = Fuzzy\<rparr>]"
  "candidatesFor id sample_corpus [[122]] Fuzzy (18 / 25) = Inr []"
  by (simp_all add: candidatesFor_def sample_corpus_def default_limits set_list_def expand_token_def kim_keys
      set_add_def keep_best_def kim_score sort_by_def Let_def)

lemma sample_table: "assertJurisdictionTable (\<lambda>_. []) (\<lambda>_. Some 0) (FATF (\<lambda>_. [])) 0 (Some 120) = Inr ()"
  by (simp add: assertJurisdictionTable_def FATF_def fatf_body_def MAX_FATF_AGE_DAYS_def iso_codes_def country_code_def)

lemma sample_fields:
  "tables sample_platform = sample_unicode" "table_id sample_platform = (\<lambda>_. [])" "instant sample_platform = (\<lambda>_. Some 0)"
  "number_of sample_platform = (\<lambda>_. Some 120)" "env sample_platform = (\<lambda>_. None)" "to_nfc sample_unicode = id"
  "corpusOf sample_engine = sample_corpus" "engineProvenance sample_engine = None"
  by (simp_all add: sample_platform_def sample_unicode_def sample_engine_def)

lemma sample_names:
  "supplied_names (engine_input sample_platform (sample_subject kim w)) = [kim]"
  "supplied_names (engine_input sample_platform (sample_subject [122] w)) = [[122]]"
  "hasHangul (fullName (engine_input sample_platform (sample_subject kim w))) = False"
  "hasHangul (fullName (engine_input sample_platform (sample_subject [122] w))) = False"
  by (simp_all add: supplied_names_def engine_input_def sample_subject_def set_list_def hasHangul_def isHangulSyllable_def
      kim_def)

lemma sample_screenNames:
  "\<exists>hs. screenNames sample_unicode sample_corpus (engine_input sample_platform (sample_subject kim w)) = Inr hs"
  "\<exists>hs. screenNames sample_unicode sample_corpus (engine_input sample_platform (sample_subject [122] w)) = Inr hs"
  "screenNames sample_unicode sample_corpus (engine_input sample_platform (sample_subject [122] [])) = Inr []"
  by (simp_all add: screenNames_def sample_names kim_norm kim_tokens sample_fields kim_candidates)
    (simp add: wallet_hits_def engine_input_def sample_subject_def sample_unicode_def evm_address_def sort_by_def)

lemma sample_risk: "jurisdictionRisk (\<lambda>_. []) (\<lambda>_. Some 0) up 0 (Some 120) c = Inr (jurisdiction_level up c)"
  by (simp add: jurisdictionRisk_def sample_table)

lemma sample_days: "fatfFreshnessDays (\<lambda>_. Some 120) None = Inr 120"
  by (simp add: fatfFreshnessDays_def Let_def blank_def js_space_def MAX_FATF_AGE_DAYS_def)

lemma sample_screen_returns:
  assumes "screenNames sample_unicode sample_corpus (engine_input sample_platform s) = Inr hs"
  shows "\<exists>r. screen sample_platform sample_engine 0 s = Inr r"
  by (simp add: screen_def sample_fields check_gate_def sample_days sample_table sample_risk assms Let_def
      gate_result_def match_result_def split: prod.split)

lemma sample_screens:
  "\<exists>r. screen sample_platform sample_engine 0 (sample_subject kim w) = Inr r"
  "\<exists>r. screen sample_platform sample_engine 0 (sample_subject [122] w) = Inr r"
  using sample_screenNames sample_screen_returns by blast+

lemma sample_allowed:
  assumes "screen sample_platform sample_engine 0 (sample_subject [122] []) = Inr r"
  shows "verdict r = ALLOW"
proof -
  obtain hs0 where h: "screenNames (tables sample_platform) (corpusOf sample_engine) (engine_input sample_platform (sample_subject [122] [])) = Inr hs0"
    and d: "(verdict r, reviewReason r, riskBand r) = decide (with_versions sample_engine hs0)
      (names (corpusOf sample_engine) \<noteq> []) (names (corpusOf sample_engine) \<noteq> [] \<and> query_tokens sample_platform (subjectName (sample_subject [122] [])) \<noteq> [])
      (jurisdiction_codes sample_platform (sample_subject [122] [])) (highest_level sample_platform (sample_subject [122] []))
      (normalizeDob (dateOfBirth (sample_subject [122] [])))"
    by (rule screen_decision [OF assms])
  have "hs0 = []" using h sample_screenNames(3) by (simp add: sample_fields)
  moreover have "query_tokens sample_platform (subjectName (sample_subject [122] [])) = [[122]]"
    by (simp add: query_tokens_def sample_fields sample_subject_def kim_norm kim_tokens)
  moreover have c: "normalizeCountry sample_unicode [75, 82] = [75, 82]"
    by (simp add: normalizeCountry_def sample_unicode_def trim_def js_space_def utf16_def)
  then have "jurisdiction_codes sample_platform (sample_subject [122] [])" "highest_level sample_platform (sample_subject [122] []) = 0"
    by (simp_all add: jurisdiction_codes_def highest_level_def sample_fields sample_subject_def country_code_def)
      (simp add: jurisdiction_level_def sample_unicode_def fatf_body_def)
  moreover have "normalizeDob (dateOfBirth (sample_subject [122] [])) = Some [49, 57, 56, 53]"
    by (simp add: normalizeDob_def sample_subject_def trim_def js_space_def is_ymd_def match_dmy_def is_year_def ascii_digit_def)
  moreover have "names (corpusOf sample_engine) \<noteq> []" by (simp add: sample_fields sample_corpus_def)
  ultimately show ?thesis using d by (simp add: decide_def with_versions_def)
qed

theorem listed_name_never_allowed_witness:
  "verdict (projr (screen sample_platform sample_engine 0 (sample_subject kim []))) \<noteq> ALLOW"
proof -
  obtain r where r: "screen sample_platform sample_engine 0 (sample_subject kim []) = Inr r"
    using sample_screens(1) by blast
  have toks: "query_tokens sample_platform kim = [kim]"
    by (simp add: query_tokens_def sample_platform_def kim_norm kim_tokens)
  have nfc: "to_nfc (tables sample_platform) = id" by (simp add: sample_platform_def sample_unicode_def)
  have "verdict r \<noteq> ALLOW"
  proof (rule listed_name_never_allowed [OF sample_newEngine r, of 0 kim kim])
    show "0 < length (optEntries sample_options)" "kim \<in> set (entryNames (optEntries sample_options ! 0))"
      by (simp_all add: sample_options_def sample_entry_def)
    show "kim \<in> set (supplied_names (engine_input sample_platform (sample_subject kim [])))"
      by (simp add: supplied_names_def engine_input_def sample_subject_def kim_def)
    show "82 / 100 \<le> name_score_of (to_nfc (tables sample_platform)) Fuzzy (query_tokens sample_platform kim) (query_tokens sample_platform kim)"
      by (simp add: toks nfc kim_score)
    show "inj_on (to_nfc (tables sample_platform)) (set (query_tokens sample_platform kim) \<union> vocabulary (corpusOf sample_engine))"
      by (simp add: nfc)
  qed
  then show ?thesis by (simp add: r)
qed

theorem listed_wallet_blocks_witness:
  "verdict (projr (screen sample_platform sample_engine 0 (sample_subject [122] sample_wallet))) = BLOCK"
proof -
  obtain r where r: "screen sample_platform sample_engine 0 (sample_subject [122] sample_wallet) = Inr r"
    using sample_screens(2) by blast
  have "verdict r = BLOCK \<and> reviewReason r = None \<and> riskBand r = 5"
    by (rule listed_wallet_blocks [OF sample_newEngine r, of sample_entry sample_wallet])
      (simp_all add: sample_options_def sample_entry_def sample_address sample_platform_def sample_unicode_def sample_subject_def)
  then show ?thesis by (simp add: r)
qed

theorem allow_is_earned_witness:
  "riskBand (projr (screen sample_platform sample_engine 0 (sample_subject [122] []))) \<le> 3"
proof -
  obtain r where r: "screen sample_platform sample_engine 0 (sample_subject [122] []) = Inr r"
    using sample_screens(2) by blast
  from allow_is_earned [OF r sample_allowed [OF r]] show ?thesis by (simp add: r)
qed

text \<open>
  C19: The indexed search is the exhaustive scan: for a corpus the code built and any query,
  the candidates are exactly the entries whose best name score over all their names reaches
  the minimum, each with that best score, whatever the size of the list; no listed name is
  lost between the deletion signatures, the bigrams and the postings.
\<close>

theorem index_search_is_exhaustive:
  assumes "buildCorpus u es overrides = Inr c"
    and "candidatesFor (to_nfc u) c query ty minScore = Inr cs" and "0 < minScore"
    and "inj_on (to_nfc u) (set query \<union> vocabulary c)"
  shows "set (map (\<lambda>x. (candEntry x, candScore x)) cs)
    = {(entries c ! ei, best_score (to_nfc u) c query ty ei) | ei. minScore \<le> best_score (to_nfc u) c query ty ei}"
  using assms by (rule index_search_scan)

theorem index_search_is_exhaustive_witness:
  "set (map (\<lambda>x. (candEntry x, candScore x)) (projr (candidatesFor id sample_corpus [kim] Fuzzy (72 / 100))))
    = {(entries sample_corpus ! ei, best_score id sample_corpus [kim] Fuzzy ei) | ei.
        72 / 100 \<le> best_score id sample_corpus [kim] Fuzzy ei}"
proof -
  have nfc: "to_nfc sample_unicode = id" by (simp add: sample_fields)
  obtain cs where cs: "candidatesFor (to_nfc sample_unicode) sample_corpus [kim] Fuzzy (72 / 100) = Inr cs"
    by (simp add: nfc kim_candidates)
  from index_search_is_exhaustive [OF sample_built this] show ?thesis
    using cs by (simp add: nfc)
qed

end
