(* ===== verification/Roster_Source.thy ===== *)
theory Roster_Source
  imports Roster Attrs
begin

text \<open>
  The cold replay of the source contract into a roster (\<open>pipeline/roster-source.ts\<close>): every
  block between the deployment and the cutoff is read from two independent nodes, its
  receipts are checked against the receipts root of the header, the lifecycle events of
  the contract drive one state per subject, and the final states are filtered into the
  entries of the tree. A compromise cutoff is kept under the pair that its key text
  \<open>issuer|epoch\<close> writes (\<open>sl_keyBefore\<close> compares those texts). The \<open>ethers\<close> package, \<open>JSON.stringify\<close> under \<open>keccak256\<close> and
  \<open>localeCompare\<close> are the fields of \<open>source_lib\<close>; every read of the two nodes is a field of
  \<open>node\<close>, separately for each moment at which the code asks. An error is the message.
\<close>

subsection \<open>Data\<close>

record snapshot_block =
  sb_number :: js_num
  sb_hash :: "string option"
  sb_parent :: string
  sb_time :: js_num
  sb_txs :: "string list"
  sb_receiptsRoot :: "string option"

record snapshot_log =
  sl_address :: string
  sl_block :: js_num
  sl_blockHash :: string
  sl_tx :: string
  sl_txIndex :: js_num
  sl_index :: js_num
  sl_topics :: "string list"
  sl_data :: string
  sl_removed :: "bool option"

record snapshot_receipt =
  sr_hash :: string
  sr_block :: int
  sr_blockHash :: string
  sr_index :: int
  sr_status :: "int option"
  sr_contract :: "string option"
  sr_logs :: "snapshot_log list"
  sr_gas :: int
  sr_bloom :: string
  sr_type :: js_num
  sr_root :: "string option"

datatype lifecycle_event =
    Mark_Issued string string string string string
  | Keyed_Mark_Issued string string string int string string
  | Mark_Revoked string
  | Sanction_Denied string
  | Denial_Corrected string int int string string string
  | Key_Compromised string int int string

text \<open>The JSON values whose text is hashed, and the nodes of the receipts trie.\<close>

datatype json = JText string | JNumber int | JArr "json list" | JLog snapshot_log

datatype rlp = Rlp_Data string | Rlp_List "rlp list"

record source_lib =
  sl_digest :: "json \<Rightarrow> hex"
  sl_isAddress :: "string \<Rightarrow> bool"
  sl_getAddress :: "string \<Rightarrow> string"
  sl_hexData :: "string \<Rightarrow> bool"
  sl_watched :: "string \<Rightarrow> bool"
  sl_parse :: "snapshot_log \<Rightarrow> lifecycle_event option"
  sl_encodes :: "snapshot_log \<Rightarrow> lifecycle_event \<Rightarrow> bool"
  sl_encodeRlp :: "rlp \<Rightarrow> string"
  sl_keccak :: "string \<Rightarrow> hex"
  sl_bytes :: "string \<Rightarrow> nat list"
  sl_hexlify :: "nat list \<Rightarrow> string"
  sl_beHex :: "int \<Rightarrow> string"
  sl_concat :: "string \<Rightarrow> string \<Rightarrow> string"
  sl_before :: "string \<Rightarrow> string \<Rightarrow> bool"
  sl_keyBefore :: "string \<times> int \<Rightarrow> string \<times> int \<Rightarrow> bool"

definition integer_from :: "int \<Rightarrow> js_num \<Rightarrow> bool" where
  "integer_from lo n \<longleftrightarrow> js_safe n \<and> lo \<le> js_val n"

definition is_hash_opt :: "string option \<Rightarrow> bool" where
  "is_hash_opt h = (case h of Some s \<Rightarrow> is_bytes32 s | None \<Rightarrow> False)"

definition checkedBlock :: "snapshot_block option \<Rightarrow> int option \<Rightarrow> string + snapshot_block" where
  "checkedBlock v height = (case v of
     None \<Rightarrow> Inl ''invalid source snapshot block''
   | Some b \<Rightarrow>
       if integer_from 0 (sb_number b) \<and> (case height of Some h \<Rightarrow> sb_number b = JInt h | None \<Rightarrow> True)
         \<and> is_hash_opt (sb_hash b) \<and> is_bytes32 (sb_parent b) \<and> is_hash_opt (sb_receiptsRoot b)
         \<and> integer_from 1 (sb_time b) \<and> list_all is_bytes32 (sb_txs b) \<and> distinct (sb_txs b)
       then Inr b else Inl ''invalid source snapshot block'')"

definition block_hash :: "snapshot_block \<Rightarrow> string" where
  "block_hash b = (case sb_hash b of Some h \<Rightarrow> h | None \<Rightarrow> [])"

definition block_root :: "snapshot_block \<Rightarrow> string" where
  "block_root b = (case sb_receiptsRoot b of Some h \<Rightarrow> h | None \<Rightarrow> [])"

definition assertMatchingHeader :: "snapshot_block \<Rightarrow> snapshot_block \<Rightarrow> string + unit" where
  "assertMatchingHeader p h = requireE ''independent source header/block body disagrees with roster RPC''
     (sb_number p = sb_number h \<and> same (block_hash p) (block_hash h) \<and> same (sb_parent p) (sb_parent h)
      \<and> sb_time p = sb_time h \<and> same (block_root p) (block_root h) \<and> map lower (sb_txs p) = map lower (sb_txs h))"

subsection \<open>The receipts trie\<close>

definition minimalInteger :: "source_lib \<Rightarrow> int \<Rightarrow> string + string" where
  "minimalInteger L n = (if n < 0 then Inl ''negative receipt integer''
     else Inr (if n = 0 then ''0x'' else sl_beHex L n))"

definition nibbles :: "source_lib \<Rightarrow> string \<Rightarrow> nat list" where
  "nibbles L v = concat (map (\<lambda>b. [b div 16, b mod 16]) (sl_bytes L v))"

fun pack_nibbles :: "nat list \<Rightarrow> nat list" where
  "pack_nibbles (x # y # ns) = (x * 16 + y) # pack_nibbles ns"
| "pack_nibbles _ = []"

definition compactPath :: "source_lib \<Rightarrow> nat list \<Rightarrow> bool \<Rightarrow> string" where
  "compactPath L path leaf = sl_hexlify L (pack_nibbles
     (if odd (length path) then (if leaf then 3 else 1) # path else (if leaf then 2 else 0) # 0 # path))"

definition nodeRef :: "source_lib \<Rightarrow> rlp \<Rightarrow> rlp" where
  "nodeRef L node = (let encoded = sl_encodeRlp L node in
     if length (sl_bytes L encoded) < 32 then node else Rlp_Data (sl_keccak L encoded))"

fun common_prefix :: "nat list \<Rightarrow> nat list \<Rightarrow> nat list" where
  "common_prefix (x # xs) (y # ys) = (if x = y then x # common_prefix xs ys else [])"
| "common_prefix _ _ = []"

text \<open>The longest prefix shared by every key, \<open>common\<close> of the source.\<close>

definition shared_prefix :: "(nat list \<times> string) list \<Rightarrow> nat list" where
  "shared_prefix items = (case items of [] \<Rightarrow> [] | (k, v) # rest \<Rightarrow> foldl (\<lambda>p (k', v'). common_prefix p k') k rest)"

definition branch_group :: "nat \<Rightarrow> (nat list \<times> string) list \<Rightarrow> (nat list \<times> string) list" where
  "branch_group nib items = map (\<lambda>(k, v). (tl k, v)) (filter (\<lambda>(k, v). k \<noteq> [] \<and> hd k = nib) items)"

text \<open>
  \<open>trieNode\<close> recurses on shorter keys; its depth is bounded by the fuel, the total number
  of nibbles plus one, which is enough (\<open>trie_fuel_enough\<close> below).
\<close>

fun trieNode :: "source_lib \<Rightarrow> nat \<Rightarrow> (nat list \<times> string) list \<Rightarrow> rlp option" where
  "trieNode L 0 items = None"
| "trieNode L (Suc n) items =
     (case items of
        [(k, v)] \<Rightarrow> Some (Rlp_List [Rlp_Data (compactPath L k True), Rlp_Data v])
      | _ \<Rightarrow>
        let common = shared_prefix items in
        if common \<noteq> []
        then map_option (\<lambda>node. Rlp_List [Rlp_Data (compactPath L common False), nodeRef L node])
          (trieNode L n (map (\<lambda>(k, v). (drop (length common) k, v)) items))
        else
          let children = map (\<lambda>nib. let group = branch_group nib items in
                if group = [] then Some (Rlp_Data ''0x'') else map_option (nodeRef L) (trieNode L n group)) [0..<16];
              terminal = (case List.find (\<lambda>(k, v). k = []) items of Some (k, v) \<Rightarrow> Rlp_Data v | None \<Rightarrow> Rlp_Data ''0x'')
          in if list_all (\<lambda>c. c \<noteq> None) children then Some (Rlp_List (map the children @ [terminal])) else None)"

definition is_bloom :: "string \<Rightarrow> bool" where
  "is_bloom s \<longleftrightarrow> length s = 514 \<and> take 2 s = ''0x'' \<and> list_all hex_digit (drop 2 s)"

definition log_rlp :: "snapshot_log \<Rightarrow> rlp" where
  "log_rlp l = Rlp_List [Rlp_Data (sl_address l), Rlp_List (map Rlp_Data (sl_topics l)), Rlp_Data (sl_data l)]"

definition encodedReceipt :: "source_lib \<Rightarrow> snapshot_receipt \<Rightarrow> snapshot_log list \<Rightarrow> string + string" where
  "encodedReceipt L r logs =
     bindE (requireE ''receipt fields unavailable for cryptographic receipt root verification''
       (integer_from 0 (sr_type r) \<and> js_val (sr_type r) \<le> 127 \<and> 0 \<le> sr_gas r \<and> is_bloom (sr_bloom r)
        \<and> (sr_status r = Some 0 \<or> sr_status r = Some 1) \<and> sr_root r = None)) (\<lambda>_.
     bindE (minimalInteger L (case sr_status r of Some n \<Rightarrow> n | None \<Rightarrow> 0)) (\<lambda>status.
     bindE (minimalInteger L (sr_gas r)) (\<lambda>gas.
     let payload = sl_encodeRlp L (Rlp_List [Rlp_Data status, Rlp_Data gas, Rlp_Data (sr_bloom r), Rlp_List (map log_rlp logs)])
     in Inr (if js_val (sr_type r) = 0 then payload else sl_concat L (sl_beHex L (js_val (sr_type r))) payload))))"

text \<open>A receipt with its index in the block and its normalised logs.\<close>

type_synonym indexed_receipt = "int \<times> snapshot_receipt \<times> snapshot_log list"

definition trie_item :: "source_lib \<Rightarrow> indexed_receipt \<Rightarrow> string + nat list \<times> string" where
  "trie_item L x = (case x of (i, r, logs) \<Rightarrow>
     bindE (minimalInteger L i) (\<lambda>n.
     bindE (encodedReceipt L r logs) (\<lambda>enc.
     Inr (nibbles L (sl_encodeRlp L (Rlp_Data n)), enc))))"

definition trie_fuel :: "(nat list \<times> string) list \<Rightarrow> nat" where
  "trie_fuel items = Suc (sum_list (map (\<lambda>(k, v). Suc (length k)) items))"

definition computeReceiptsRoot :: "source_lib \<Rightarrow> indexed_receipt list \<Rightarrow> string + hex" where
  "computeReceiptsRoot L rs =
     (if rs = [] then Inr (sl_keccak L (sl_encodeRlp L (Rlp_Data ''0x'')))
      else bindE (mapE (trie_item L) rs) (\<lambda>items.
        case trieNode L (trie_fuel items) items of
          None \<Rightarrow> Inl ''Maximum call stack size exceeded''
        | Some node \<Rightarrow> Inr (sl_keccak L (sl_encodeRlp L node))))"

definition normalizedLog :: "source_lib \<Rightarrow> bool \<Rightarrow> snapshot_log \<Rightarrow> string + snapshot_log" where
  "normalizedLog L fromReceipt l =
     (if sl_isAddress L (sl_address l) \<and> is_bytes32 (sl_blockHash l) \<and> is_bytes32 (sl_tx l)
        \<and> integer_from 0 (sl_block l) \<and> integer_from 0 (sl_txIndex l) \<and> integer_from 0 (sl_index l)
        \<and> (sl_removed l = Some False \<or> (fromReceipt \<and> sl_removed l = None))
        \<and> list_all is_bytes32 (sl_topics l) \<and> sl_hexData L (sl_data l)
      then Inr \<lparr>sl_address = lower (sl_address l), sl_block = sl_block l, sl_blockHash = lower (sl_blockHash l),
        sl_tx = lower (sl_tx l), sl_txIndex = sl_txIndex l, sl_index = sl_index l,
        sl_topics = map lower (sl_topics l), sl_data = lower (sl_data l), sl_removed = None\<rparr>
      else Inl ''invalid source snapshot log'')"

subsection \<open>The state of a subject\<close>

record lifecycle_state =
  denied :: bool
  revoked :: bool
  entry :: "roster_entry option"
  keyEpoch :: "int option"
  issueBlock :: "int option"

type_synonym lifecycle_states = "(string \<times> lifecycle_state) list"
type_synonym compromise_cutoffs = "((string \<times> int) \<times> int) list"

definition ZERO_HASH :: string where
  "ZERO_HASH = ''0x'' @ replicate 64 (CHR ''0'')"

definition state_of :: "lifecycle_states \<Rightarrow> string \<Rightarrow> lifecycle_state" where
  "state_of states s = (case map_of states s of Some st \<Rightarrow> st
     | None \<Rightarrow> \<lparr>denied = False, revoked = False, entry = None, keyEpoch = None, issueBlock = None\<rparr>)"

definition compromise :: "source_lib \<Rightarrow> int \<Rightarrow> string \<Rightarrow> int \<Rightarrow> int \<Rightarrow> string \<Rightarrow> compromise_cutoffs \<Rightarrow> string + compromise_cutoffs" where
  "compromise L height issuer epoch lastTrusted reason cutoffs =
     bindE (requireE ''invalid issuer compromise provenance''
       (sl_getAddress L issuer \<noteq> ZeroAddress \<and> integer_from 1 (JInt epoch) \<and> integer_from 0 (JInt lastTrusted)
        \<and> lastTrusted < height \<and> is_bytes32 reason \<and> reason \<noteq> ZERO_HASH)) (\<lambda>_.
     let key = (lower (sl_getAddress L issuer), epoch) in
     Inr (AList.update key (case map_of cutoffs key of None \<Rightarrow> lastTrusted | Some prev \<Rightarrow> min prev lastTrusted) cutoffs))"

definition correction_ok :: "source_lib \<Rightarrow> int \<Rightarrow> int \<Rightarrow> string \<Rightarrow> string \<Rightarrow> string \<Rightarrow> bool" where
  "correction_ok L revision correctionId reason proposer approver \<longleftrightarrow>
     integer_from 1 (JInt revision) \<and> correctionId \<noteq> 0 \<and> is_bytes32 reason \<and> reason \<noteq> ZERO_HASH
     \<and> sl_isAddress L proposer \<and> sl_isAddress L approver \<and> proposer \<noteq> ZeroAddress \<and> approver \<noteq> ZeroAddress
     \<and> \<not> same proposer approver"

definition issue_state :: "source_lib \<Rightarrow> int \<Rightarrow> int \<Rightarrow> string \<Rightarrow> string \<Rightarrow> string \<Rightarrow> int option \<Rightarrow> string \<Rightarrow> string
    \<Rightarrow> lifecycle_state \<Rightarrow> string + lifecycle_state" where
  "issue_state L height time subject attrs issuer keyed claims evidence st =
     bindE (requireE ''invalid source issuance attributes/issuer''
       (validCredentialAttrs attrs (Some (JInt time)) \<and> issuer \<noteq> ZeroAddress)) (\<lambda>_.
     bindE (requireE ''invalid issuance key epoch'' (case keyed of None \<Rightarrow> True | Some k \<Rightarrow> integer_from 1 (JInt k))) (\<lambda>_.
     Inr (st\<lparr>entry := Some \<lparr>re_subject = subject, re_attrs = lower attrs, re_claimsRoot = lower claims,
         re_evidenceHash = lower evidence, re_issuer = sl_getAddress L issuer\<rparr>,
       keyEpoch := Some (case keyed of Some k \<Rightarrow> k | None \<Rightarrow> 0), issueBlock := Some height, revoked := False\<rparr>)))"

definition with_subject :: "source_lib \<Rightarrow> string \<Rightarrow> lifecycle_states \<Rightarrow> (string \<Rightarrow> lifecycle_state \<Rightarrow> string + lifecycle_state)
    \<Rightarrow> string + lifecycle_states" where
  "with_subject L raw states f = (let subject = sl_getAddress L raw in
     if subject = ZeroAddress then Inl ''zero source lifecycle subject''
     else bindE (f subject (state_of states subject)) (\<lambda>st. Inr (AList.update subject st states)))"

fun apply_event :: "source_lib \<Rightarrow> int \<Rightarrow> int \<Rightarrow> lifecycle_event \<Rightarrow> lifecycle_states \<times> compromise_cutoffs
    \<Rightarrow> string + lifecycle_states \<times> compromise_cutoffs" where
  "apply_event L height time (Key_Compromised issuer epoch lastTrusted reason) (states, cutoffs) =
     bindE (compromise L height issuer epoch lastTrusted reason cutoffs) (\<lambda>c. Inr (states, c))"
| "apply_event L height time (Sanction_Denied s) (states, cutoffs) =
     bindE (with_subject L s states (\<lambda>_ st. Inr (st\<lparr>denied := True\<rparr>))) (\<lambda>ss. Inr (ss, cutoffs))"
| "apply_event L height time (Denial_Corrected s revision cid reason proposer approver) (states, cutoffs) =
     bindE (with_subject L s states (\<lambda>_ st.
       bindE (requireE ''invalid denial correction provenance'' (correction_ok L revision cid reason proposer approver)) (\<lambda>_.
       Inr (st\<lparr>denied := False, revoked := True, entry := None, keyEpoch := None, issueBlock := None\<rparr>)))) (\<lambda>ss. Inr (ss, cutoffs))"
| "apply_event L height time (Mark_Revoked s) (states, cutoffs) =
     bindE (with_subject L s states (\<lambda>_ st. Inr (st\<lparr>revoked := True\<rparr>))) (\<lambda>ss. Inr (ss, cutoffs))"
| "apply_event L height time (Mark_Issued s attrs issuer claims evidence) (states, cutoffs) =
     bindE (with_subject L s states (\<lambda>subject. issue_state L height time subject attrs issuer None claims evidence))
       (\<lambda>ss. Inr (ss, cutoffs))"
| "apply_event L height time (Keyed_Mark_Issued s attrs issuer epoch claims evidence) (states, cutoffs) =
     bindE (with_subject L s states (\<lambda>subject. issue_state L height time subject attrs issuer (Some epoch) claims evidence))
       (\<lambda>ss. Inr (ss, cutoffs))"

subsection \<open>Reading the two nodes\<close>

datatype phase = At_Start | At_Scan | At_End

record node =
  nd_chain :: int
  nd_head :: "phase \<Rightarrow> js_num"
  nd_final :: "phase \<Rightarrow> snapshot_block option"
  nd_block :: "phase \<Rightarrow> int \<Rightarrow> snapshot_block option"
  nd_receipt :: "nat \<Rightarrow> string \<Rightarrow> string + snapshot_receipt option"
  nd_blockReceipts :: "(nat \<Rightarrow> int \<Rightarrow> string + snapshot_receipt option list) option"
  nd_logs :: "int \<Rightarrow> int \<Rightarrow> snapshot_log list"

record source_checkpoint =
  ck_version :: int
  ck_chain :: int
  ck_source :: string
  ck_deploymentTx :: string
  ck_deploymentBlock :: int
  ck_block :: js_num
  ck_hash :: string
  ck_time :: js_num
  ck_root :: string
  ck_receipts :: js_num
  ck_sourceLogs :: js_num
  ck_headers :: string
  ck_blocks :: string
  ck_logs :: string
  ck_states :: lifecycle_states
  ck_cutoffs :: compromise_cutoffs

record source_options =
  so_source :: string
  so_chain :: int
  so_deploymentTx :: string
  so_confirmations :: js_num
  so_checkpoint :: "source_checkpoint option"
  so_cutoff :: "js_num option"
  so_expectedHash :: "string option"
  so_maxBlocks :: js_num
  so_maxReceipts :: js_num
  so_chunk :: js_num
  so_concurrency :: js_num
  so_retries :: js_num
  so_separateReader :: bool

text \<open>
  \<open>so_separateReader\<close>: a header reader is given and is not the reader itself. The defaults are those of
  the five optional settings.
\<close>

definition default_options :: "string \<Rightarrow> int \<Rightarrow> string \<Rightarrow> js_num \<Rightarrow> source_options" where
  "default_options src chain tx confirmations = \<lparr>so_source = src, so_chain = chain, so_deploymentTx = tx,
     so_confirmations = confirmations, so_checkpoint = None, so_cutoff = None, so_expectedHash = None,
     so_maxBlocks = JInt 20000, so_maxReceipts = JInt 200000, so_chunk = JInt 100, so_concurrency = JInt 6, so_retries = JInt 3,
     so_separateReader = True\<rparr>"

definition state_ok :: "source_lib \<Rightarrow> int \<Rightarrow> string \<times> lifecycle_state \<Rightarrow> bool" where
  "state_ok L deploymentBlock p = (case p of (s, st) \<Rightarrow>
     sl_isAddress L s
     \<and> (case entry st of None \<Rightarrow> True
        | Some e \<Rightarrow> sl_isAddress L (re_subject e) \<and> sl_getAddress L (re_subject e) = sl_getAddress L s
            \<and> sl_isAddress L (re_issuer e) \<and> is_bytes32 (re_attrs e) \<and> is_bytes32 (re_claimsRoot e)
            \<and> is_bytes32 (re_evidenceHash e))
     \<and> (case keyEpoch st of None \<Rightarrow> True | Some k \<Rightarrow> integer_from 0 (JInt k))
     \<and> (case issueBlock st of None \<Rightarrow> True | Some h \<Rightarrow> integer_from deploymentBlock (JInt h)))"

definition address_key :: "string \<Rightarrow> bool" where
  "address_key a \<longleftrightarrow> length a = 42 \<and> take 2 a = ''0x'' \<and> list_all (\<lambda>c. hex_digit c \<and> lower_char c = c) (drop 2 a)"

definition checkedCheckpoint :: "source_lib \<Rightarrow> source_options \<Rightarrow> string \<Rightarrow> int \<Rightarrow> int \<Rightarrow> source_checkpoint \<Rightarrow> string + source_checkpoint" where
  "checkedCheckpoint L opts src deploymentBlock cutoffHeight v =
     (if ck_version v = 1 \<and> ck_chain v = so_chain opts \<and> ck_source v = src
        \<and> ck_deploymentTx v = lower (so_deploymentTx opts) \<and> ck_deploymentBlock v = deploymentBlock
        \<and> integer_from deploymentBlock (ck_block v) \<and> js_val (ck_block v) \<le> cutoffHeight \<and> is_bytes32 (ck_hash v)
        \<and> integer_from 1 (ck_time v) \<and> is_bytes32 (ck_root v) \<and> integer_from 0 (ck_receipts v)
        \<and> integer_from 0 (ck_sourceLogs v) \<and> is_bytes32 (ck_headers v) \<and> is_bytes32 (ck_blocks v) \<and> is_bytes32 (ck_logs v)
        \<and> list_all (state_ok L deploymentBlock) (ck_states v) \<and> distinct (map (lower \<circ> fst) (ck_states v))
        \<and> list_all (\<lambda>((a, k), b). address_key a \<and> 1 \<le> k \<and> integer_from 0 (JInt b)) (ck_cutoffs v)
        \<and> distinct (map fst (ck_cutoffs v))
      then Inr v else Inl ''invalid or inapplicable authenticated source checkpoint'')"

text \<open>
  Up to \<open>receiptRetries\<close> attempts; the waiting between them is not modelled. The
  concurrency only groups the requests.
\<close>

fun attempts :: "(nat \<Rightarrow> string + 'a) \<Rightarrow> nat \<Rightarrow> nat \<Rightarrow> string + 'a" where
  "attempts f k 0 = Inl ''no attempt''"
| "attempts f k (Suc n) = (case f k of Inr x \<Rightarrow> Inr x
     | Inl e \<Rightarrow> if n = 0 then Inl e else attempts f (Suc k) n)"

fun receipt_attempts :: "(nat \<Rightarrow> string + snapshot_receipt option) \<Rightarrow> nat \<Rightarrow> nat \<Rightarrow> string option
    \<Rightarrow> string + snapshot_receipt option" where
  "receipt_attempts f k 0 failure = (case failure of Some e \<Rightarrow> Inl e | None \<Rightarrow> Inr None)"
| "receipt_attempts f k (Suc n) failure = (case f k of
     Inr (Some r) \<Rightarrow> Inr (Some r)
   | Inr None \<Rightarrow> receipt_attempts f (Suc k) n None
   | Inl e \<Rightarrow> receipt_attempts f (Suc k) n (Some e))"

definition fetch_receipts :: "node \<Rightarrow> nat \<Rightarrow> int \<Rightarrow> string list \<Rightarrow> string + snapshot_receipt option list" where
  "fetch_receipts nd retries height txs = (case nd_blockReceipts nd of
     Some f \<Rightarrow> attempts (\<lambda>k. f k height) 1 retries
   | None \<Rightarrow> mapE (\<lambda>tx. receipt_attempts (\<lambda>k. nd_receipt nd k tx) 1 retries None) txs)"

subsection \<open>Scanning one block\<close>

record scan_state =
  sc_parent :: string
  sc_time :: int
  sc_headers :: hex
  sc_blocks :: hex
  sc_logs :: hex
  sc_receipts :: int
  sc_sourceLogs :: int
  sc_scanned :: int
  sc_states :: lifecycle_states
  sc_cutoffs :: compromise_cutoffs
  sc_chunk :: "snapshot_log list"
  sc_nextLog :: int
  sc_digests :: "json list"
  sc_collected :: "indexed_receipt list"

definition lifecycle_step :: "source_lib \<Rightarrow> int \<Rightarrow> int \<Rightarrow> snapshot_log \<Rightarrow> lifecycle_states \<times> compromise_cutoffs
    \<Rightarrow> string + lifecycle_states \<times> compromise_cutoffs" where
  "lifecycle_step L height time l st =
     (if sl_topics l = [] \<or> \<not> sl_watched L (hd (sl_topics l)) then Inr st
      else case sl_parse L l of
        None \<Rightarrow> Inl ''invalid source lifecycle log''
      | Some ev \<Rightarrow> bindE (requireE ''noncanonical source lifecycle log'' (sl_encodes L l ev)) (\<lambda>_.
          apply_event L height time ev st))"

definition scan_log :: "source_lib \<Rightarrow> string \<Rightarrow> snapshot_block \<Rightarrow> int \<Rightarrow> string \<Rightarrow> int \<Rightarrow> snapshot_log \<Rightarrow> scan_state \<Rightarrow> string + scan_state" where
  "scan_log L src b height tx txIndex l st =
     bindE (requireE ''source receipt log coordinates/gap inconsistent''
       (sl_block l = JInt height \<and> sl_blockHash l = lower (block_hash b) \<and> sl_tx l = lower tx
        \<and> sl_txIndex l = JInt txIndex \<and> sl_index l = JInt (sc_nextLog st))) (\<lambda>_.
     let st = st\<lparr>sc_nextLog := sc_nextLog st + 1\<rparr> in
     if sl_address l \<noteq> lower src then Inr st
     else bindE (lifecycle_step L height (js_val (sb_time b)) l (sc_states st, sc_cutoffs st)) (\<lambda>(states, cutoffs).
       Inr (st\<lparr>sc_chunk := sc_chunk st @ [l], sc_sourceLogs := sc_sourceLogs st + 1,
         sc_logs := sl_digest L (JArr [JText (sc_logs st), JLog l]), sc_states := states, sc_cutoffs := cutoffs\<rparr>)))"

fun scan_logs :: "source_lib \<Rightarrow> string \<Rightarrow> snapshot_block \<Rightarrow> int \<Rightarrow> string \<Rightarrow> int \<Rightarrow> snapshot_log list \<Rightarrow> scan_state \<Rightarrow> string + scan_state" where
  "scan_logs L src b height tx txIndex [] st = Inr st"
| "scan_logs L src b height tx txIndex (l # ls) st =
     bindE (scan_log L src b height tx txIndex l st) (\<lambda>st'. scan_logs L src b height tx txIndex ls st')"

definition receipt_ok :: "snapshot_block \<Rightarrow> int \<Rightarrow> string \<Rightarrow> int \<Rightarrow> snapshot_receipt \<Rightarrow> bool" where
  "receipt_ok b height tx txIndex r \<longleftrightarrow> same (sr_hash r) tx \<and> sr_index r = txIndex \<and> sr_block r = height
     \<and> sr_blockHash r = block_hash b \<and> (sr_status r = Some 0 \<or> sr_status r = Some 1)
     \<and> (sr_status r = Some 0 \<longrightarrow> sr_logs r = [])"

fun scan_txs :: "source_lib \<Rightarrow> string \<Rightarrow> snapshot_block \<Rightarrow> int \<Rightarrow> snapshot_receipt option list \<Rightarrow> int \<Rightarrow> string list
    \<Rightarrow> scan_state \<Rightarrow> string + scan_state" where
  "scan_txs L src b height fetched txIndex [] st = Inr st"
| "scan_txs L src b height fetched txIndex (tx # txs) st =
     (case (if nat txIndex < length fetched then fetched ! nat txIndex else None) of
        None \<Rightarrow> Inl ''missing/inconsistent source transaction receipt''
      | Some r \<Rightarrow>
          bindE (requireE ''missing/inconsistent source transaction receipt'' (receipt_ok b height tx txIndex r)) (\<lambda>_.
          bindE (mapE (normalizedLog L True) (sr_logs r)) (\<lambda>logs.
          bindE (scan_logs L src b height tx txIndex logs (st\<lparr>sc_collected := sc_collected st @ [(txIndex, r, logs)]\<rparr>)) (\<lambda>st'.
          scan_txs L src b height fetched (txIndex + 1) txs
            (st'\<lparr>sc_digests := sc_digests st' @ [JText (sl_digest L (JArr [JText (lower tx),
               JNumber (case sr_status r of Some n \<Rightarrow> n | None \<Rightarrow> 0), JArr (map JLog logs)]))]\<rparr>)))))"

text \<open>What the replay knows before it scans: the deployment and the cutoff.\<close>

record source_frame =
  sf_source :: string
  sf_creationBlock :: int
  sf_creationHash :: string
  sf_creationIndex :: int
  sf_cutoffHeight :: int
  sf_cutoff :: snapshot_block

definition scan_block :: "source_lib \<Rightarrow> node \<Rightarrow> node \<Rightarrow> source_options \<Rightarrow> source_frame \<Rightarrow> int \<Rightarrow> scan_state \<Rightarrow> string + scan_state" where
  "scan_block L nd hd_nd opts f height st =
     bindE (checkedBlock (nd_block nd At_Scan height) (Some height)) (\<lambda>b.
     bindE (checkedBlock (nd_block hd_nd At_Scan height) (Some height)) (\<lambda>hb.
     bindE (assertMatchingHeader b hb) (\<lambda>_.
     bindE (requireE ''source snapshot block chain changed''
       (sb_parent b = sc_parent st \<and> sc_time st \<le> js_val (sb_time b) \<and> js_val (sb_time b) \<le> js_val (sb_time (sf_cutoff f))
        \<and> (height = sf_creationBlock f \<longrightarrow> block_hash b = sf_creationHash f)
        \<and> (height = sf_cutoffHeight f \<longrightarrow> block_hash b = block_hash (sf_cutoff f)))) (\<lambda>_.
     bindE (requireE ''source snapshot exceeds receipt budget; no partial roster allowed''
       (sc_scanned st + int (length (sb_txs b)) \<le> js_val (so_maxReceipts opts))) (\<lambda>_.
     bindE (fetch_receipts nd (nat (js_val (so_retries opts))) height (sb_txs b)) (\<lambda>fetched.
     bindE (scan_txs L (sf_source f) b height fetched 0 (sb_txs b)
       (st\<lparr>sc_scanned := sc_scanned st + int (length (sb_txs b)), sc_receipts := sc_receipts st + int (length (sb_txs b)),
          sc_nextLog := 0, sc_digests := [], sc_collected := []\<rparr>)) (\<lambda>st'.
     bindE (computeReceiptsRoot L (sc_collected st')) (\<lambda>root.
     bindE (requireE ''source block receipt root mismatch; omitted or altered transaction receipt'' (same root (block_root b))) (\<lambda>_.
     bindE (requireE ''deployment transaction missing from source block''
       (height = sf_creationBlock f \<longrightarrow> 0 \<le> sf_creationIndex f \<and> nat (sf_creationIndex f) < length (sb_txs b)
          \<and> same (sb_txs b ! nat (sf_creationIndex f)) (so_deploymentTx opts))) (\<lambda>_.
     let coords = [JNumber height, JText (block_hash b), JText (sb_parent b), JNumber (js_val (sb_time b)), JText (block_root b)] in
     Inr (st'\<lparr>sc_headers := sl_digest L (JArr (JText (sc_headers st') # coords)),
       sc_blocks := sl_digest L (JArr (JText (sc_blocks st') # coords @ [JArr (sc_digests st')])),
       sc_parent := block_hash b, sc_time := js_val (sb_time b)\<rparr>)))))))))))"

fun scan_heights :: "source_lib \<Rightarrow> node \<Rightarrow> node \<Rightarrow> source_options \<Rightarrow> source_frame \<Rightarrow> int list \<Rightarrow> scan_state \<Rightarrow> string + scan_state" where
  "scan_heights L nd hd_nd opts f [] st = Inr st"
| "scan_heights L nd hd_nd opts f (h # hs) st =
     bindE (scan_block L nd hd_nd opts f h st) (\<lambda>st'. scan_heights L nd hd_nd opts f hs st')"

definition log_before :: "snapshot_log \<Rightarrow> snapshot_log \<Rightarrow> bool" where
  "log_before a b \<longleftrightarrow> js_val (sl_block a) < js_val (sl_block b)
     \<or> (sl_block a = sl_block b \<and> js_val (sl_index a) < js_val (sl_index b))"

definition indexed_logs :: "source_lib \<Rightarrow> node \<Rightarrow> string \<Rightarrow> int \<Rightarrow> int \<Rightarrow> string + snapshot_log list" where
  "indexed_logs L nd src lo hi = bindE (mapE (normalizedLog L False) (nd_logs nd lo hi)) (\<lambda>ls. Inr (sort_by log_before ls))"

definition scan_chunk :: "source_lib \<Rightarrow> node \<Rightarrow> node \<Rightarrow> source_options \<Rightarrow> source_frame \<Rightarrow> int \<times> int \<Rightarrow> scan_state \<Rightarrow> string + scan_state" where
  "scan_chunk L nd hd_nd opts f r st = (case r of (lo, hi) \<Rightarrow>
     bindE (scan_heights L nd hd_nd opts f [lo..hi] (st\<lparr>sc_chunk := []\<rparr>)) (\<lambda>st'.
     bindE (indexed_logs L nd (sf_source f) lo hi) (\<lambda>indexed.
     bindE (requireE ''source getLogs/receipts disagree; missing/duplicate/foreign logs prohibit publication''
       (indexed = sc_chunk st')) (\<lambda>_. Inr st'))))"

fun scan_chunks :: "source_lib \<Rightarrow> node \<Rightarrow> node \<Rightarrow> source_options \<Rightarrow> source_frame \<Rightarrow> (int \<times> int) list \<Rightarrow> scan_state \<Rightarrow> string + scan_state" where
  "scan_chunks L nd hd_nd opts f [] st = Inr st"
| "scan_chunks L nd hd_nd opts f (r # rs) st =
     bindE (scan_chunk L nd hd_nd opts f r st) (\<lambda>st'. scan_chunks L nd hd_nd opts f rs st')"

text \<open>\<open>for (from = lo; from <= hi; from += chunk)\<close> with \<open>to = min(from + chunk - 1, hi)\<close>.\<close>

definition chunk_ranges :: "int \<Rightarrow> int \<Rightarrow> int \<Rightarrow> (int \<times> int) list" where
  "chunk_ranges lo hi chunk = map (\<lambda>k. (lo + int k * chunk, min (lo + int k * chunk + chunk - 1) hi))
     [0..<nat ((hi - lo + chunk) div chunk)]"

subsection \<open>The snapshot\<close>

record source_manifest =
  sm_chain :: int
  sm_source :: string
  sm_deploymentTx :: string
  sm_deploymentBlock :: int
  sm_deploymentHash :: string
  sm_cutoffBlock :: int
  sm_cutoffHash :: string
  sm_cutoffTime :: int
  sm_confirmations :: int
  sm_blocks :: int
  sm_receipts :: int
  sm_sourceLogs :: int
  sm_headers :: hex
  sm_blocksDigest :: hex
  sm_logsDigest :: hex
  sm_entries :: hex
  sm_root :: hex

record source_snapshot =
  ss_tree :: roster_tree
  ss_excluded :: "(string \<times> string) list"
  ss_manifest :: source_manifest
  ss_checkpoint :: source_checkpoint

datatype source_error = Source_Error string | Roster_Failed roster_error

definition source_result :: "string + 'a \<Rightarrow> source_error + 'a" where
  "source_result m = (case m of Inl e \<Rightarrow> Inl (Source_Error e) | Inr x \<Rightarrow> Inr x)"

lemma source_result_Inr [simp]: "source_result m = Inr x \<longleftrightarrow> m = Inr x"
  by (cases m) (auto simp: source_result_def)

definition roster_result :: "roster_error + 'a \<Rightarrow> source_error + 'a" where
  "roster_result m = (case m of Inl e \<Rightarrow> Inl (Roster_Failed e) | Inr x \<Rightarrow> Inr x)"

lemma roster_result_Inr [simp]: "roster_result m = Inr x \<longleftrightarrow> m = Inr x"
  by (cases m) (auto simp: roster_result_def)

definition settings_ok :: "source_options \<Rightarrow> string \<Rightarrow> bool" where
  "settings_ok opts src \<longleftrightarrow> src \<noteq> ZeroAddress \<and> is_bytes32 (so_deploymentTx opts) \<and> 0 < so_chain opts
     \<and> integer_from 1 (so_confirmations opts) \<and> integer_from 1 (so_maxBlocks opts) \<and> integer_from 1 (so_maxReceipts opts)
     \<and> integer_from 1 (so_chunk opts) \<and> js_val (so_chunk opts) \<le> 1000
     \<and> integer_from 1 (so_concurrency opts) \<and> js_val (so_concurrency opts) \<le> 16
     \<and> integer_from 1 (so_retries opts) \<and> js_val (so_retries opts) \<le> 10
     \<and> (case so_expectedHash opts of None \<Rightarrow> True | Some h \<Rightarrow> is_bytes32 h)"

definition creation_ok :: "source_options \<Rightarrow> string \<Rightarrow> int \<Rightarrow> snapshot_receipt \<Rightarrow> bool" where
  "creation_ok opts src cutoffHeight r \<longleftrightarrow> sr_status r = Some 1 \<and> same (sr_hash r) (so_deploymentTx opts)
     \<and> (case sr_contract r of Some c \<Rightarrow> same c src | None \<Rightarrow> False) \<and> integer_from 1 (JInt (sr_block r))
     \<and> sr_block r \<le> cutoffHeight \<and> is_bytes32 (sr_blockHash r)"

text \<open>The reads and checks before the scan: the cutoff and the deployment.\<close>

definition source_start :: "source_lib \<Rightarrow> node \<Rightarrow> node \<Rightarrow> source_options \<Rightarrow> string + source_frame" where
  "source_start L nd hd_nd opts =
     bindE (requireE ''invalid address'' (sl_isAddress L (so_source opts))) (\<lambda>_.
     let src = sl_getAddress L (so_source opts) in
     bindE (requireE ''invalid source snapshot settings'' (settings_ok opts src)) (\<lambda>_.
     bindE (requireE ''independent source header reader required'' (so_separateReader opts)) (\<lambda>_.
     bindE (nd_receipt nd 0 (so_deploymentTx opts)) (\<lambda>creation.
     bindE (checkedBlock (nd_final nd At_Start) None) (\<lambda>finalized.
     bindE (checkedBlock (nd_final hd_nd At_Start) None) (\<lambda>headerFinalized.
     let head = js_val (nd_head nd At_Start); hhead = js_val (nd_head hd_nd At_Start);
         fin = js_val (sb_number finalized); hfin = js_val (sb_number headerFinalized);
         conf = js_val (so_confirmations opts)
     in
     bindE (requireE ''source chain/finality unavailable''
       (nd_chain nd = so_chain opts \<and> nd_chain hd_nd = so_chain opts \<and> integer_from 0 (nd_head nd At_Start)
        \<and> integer_from 0 (nd_head hd_nd At_Start) \<and> fin \<le> head \<and> hfin \<le> hhead)) (\<lambda>_.
     let ceiling = min (min fin (head - conf)) (min hfin (hhead - conf));
         wanted = (case so_cutoff opts of Some c \<Rightarrow> c | None \<Rightarrow> JInt ceiling)
     in
     bindE (requireE ''source cutoff is not finalized and confirmed'' (integer_from 1 wanted \<and> js_val wanted \<le> ceiling)) (\<lambda>_.
     let cutoffHeight = js_val wanted in
     case creation of
       None \<Rightarrow> Inl ''verified source deployment receipt required''
     | Some r \<Rightarrow>
         bindE (requireE ''verified source deployment receipt required'' (creation_ok opts src cutoffHeight r)) (\<lambda>_.
         bindE (checkedBlock (nd_block nd At_Start cutoffHeight) (Some cutoffHeight)) (\<lambda>cutoff.
         bindE (checkedBlock (nd_block hd_nd At_Start cutoffHeight) (Some cutoffHeight)) (\<lambda>headerCutoff.
         bindE (assertMatchingHeader cutoff headerCutoff) (\<lambda>_.
         bindE (requireE ''approved source cutoff hash changed''
           (case so_expectedHash opts of None \<Rightarrow> True | Some h \<Rightarrow> same (block_hash cutoff) h)) (\<lambda>_.
         Inr \<lparr>sf_source = src, sf_creationBlock = sr_block r, sf_creationHash = sr_blockHash r,
           sf_creationIndex = sr_index r, sf_cutoffHeight = cutoffHeight, sf_cutoff = cutoff\<rparr>)))))))))))))"

definition initial_scan :: "source_lib \<Rightarrow> source_options \<Rightarrow> source_frame \<Rightarrow> source_checkpoint option \<Rightarrow> snapshot_block \<Rightarrow> scan_state" where
  "initial_scan L opts f ck anchor =
     \<lparr>sc_parent = block_hash anchor, sc_time = js_val (sb_time anchor),
      sc_headers = (case ck of Some c \<Rightarrow> ck_headers c | None \<Rightarrow> sl_digest L (JArr [JText ''source-headers-v2'',
        JNumber (so_chain opts), JNumber (js_val (sb_number anchor)), JText (block_hash anchor), JText (block_root anchor)])),
      sc_blocks = (case ck of Some c \<Rightarrow> ck_blocks c | None \<Rightarrow> sl_digest L (JArr [JText ''source-snapshot-v2'',
        JNumber (so_chain opts), JText (sf_source f), JText (lower (so_deploymentTx opts)), JText (block_hash anchor)])),
      sc_logs = (case ck of Some c \<Rightarrow> ck_logs c | None \<Rightarrow> sl_digest L (JArr [JText ''source-logs-v2''])),
      sc_receipts = (case ck of Some c \<Rightarrow> js_val (ck_receipts c) | None \<Rightarrow> 0),
      sc_sourceLogs = (case ck of Some c \<Rightarrow> js_val (ck_sourceLogs c) | None \<Rightarrow> 0), sc_scanned = 0,
      sc_states = (case ck of Some c \<Rightarrow> ck_states c | None \<Rightarrow> []),
      sc_cutoffs = (case ck of Some c \<Rightarrow> ck_cutoffs c | None \<Rightarrow> []),
      sc_chunk = [], sc_nextLog = 0, sc_digests = [], sc_collected = []\<rparr>"

definition source_scan :: "source_lib \<Rightarrow> node \<Rightarrow> node \<Rightarrow> source_options \<Rightarrow> source_frame \<Rightarrow> string + snapshot_block \<times> scan_state" where
  "source_scan L nd hd_nd opts f =
     bindE (case so_checkpoint opts of None \<Rightarrow> Inr None
       | Some c \<Rightarrow> bindE (checkedCheckpoint L opts (sf_source f) (sf_creationBlock f) (sf_cutoffHeight f) c) (\<lambda>c. Inr (Some c))) (\<lambda>ck.
     let anchorHeight = (case ck of Some c \<Rightarrow> js_val (ck_block c) | None \<Rightarrow> sf_creationBlock f - 1) in
     bindE (checkedBlock (nd_block nd At_Start anchorHeight) (Some anchorHeight)) (\<lambda>anchor.
     bindE (checkedBlock (nd_block hd_nd At_Start anchorHeight) (Some anchorHeight)) (\<lambda>headerAnchor.
     bindE (assertMatchingHeader anchor headerAnchor) (\<lambda>_.
     bindE (requireE ''authenticated source checkpoint anchor changed'' (case ck of None \<Rightarrow> True
       | Some c \<Rightarrow> same (block_hash anchor) (ck_hash c) \<and> sb_time anchor = ck_time c \<and> same (block_root anchor) (ck_root c))) (\<lambda>_.
     bindE (requireE ''source snapshot exceeds scan block budget; no partial roster allowed''
       (sf_cutoffHeight f - anchorHeight \<le> js_val (so_maxBlocks opts))) (\<lambda>_.
     bindE (scan_chunks L nd hd_nd opts f (chunk_ranges (anchorHeight + 1) (sf_cutoffHeight f) (js_val (so_chunk opts)))
       (initial_scan L opts f ck anchor)) (\<lambda>st. Inr (anchor, st))))))))"

definition final_ok :: "node \<Rightarrow> source_options \<Rightarrow> int \<Rightarrow> snapshot_block \<Rightarrow> bool" where
  "final_ok nd opts cutoffHeight finalAgain \<longleftrightarrow> cutoffHeight \<le> js_val (sb_number finalAgain)
     \<and> integer_from 0 (nd_head nd At_End) \<and> cutoffHeight \<le> js_val (nd_head nd At_End) - js_val (so_confirmations opts)
     \<and> js_val (sb_number finalAgain) \<le> js_val (nd_head nd At_End)"

definition source_recheck :: "node \<Rightarrow> node \<Rightarrow> source_options \<Rightarrow> source_frame \<Rightarrow> snapshot_block \<Rightarrow> string + unit" where
  "source_recheck nd hd_nd opts f anchor =
     (let c = sf_cutoffHeight f; a = js_val (sb_number anchor) in
      bindE (checkedBlock (nd_block nd At_End c) (Some c)) (\<lambda>endAgain.
      bindE (checkedBlock (nd_block nd At_End a) (Some a)) (\<lambda>anchorAgain.
      bindE (checkedBlock (nd_block hd_nd At_End c) (Some c)) (\<lambda>headerEnd.
      bindE (checkedBlock (nd_block hd_nd At_End a) (Some a)) (\<lambda>headerAnchor.
      bindE (assertMatchingHeader endAgain headerEnd) (\<lambda>_.
      bindE (assertMatchingHeader anchorAgain headerAnchor) (\<lambda>_.
      bindE (requireE ''source snapshot changed or finality regressed''
        (block_hash endAgain = block_hash (sf_cutoff f) \<and> block_hash anchorAgain = block_hash anchor)) (\<lambda>_.
      bindE (checkedBlock (nd_final nd At_End) None) (\<lambda>finalAgain.
      bindE (requireE ''source snapshot changed or finality regressed'' (final_ok nd opts c finalAgain)) (\<lambda>_.
      bindE (checkedBlock (nd_final hd_nd At_End) None) (\<lambda>headerFinal.
      requireE ''source snapshot changed or finality regressed'' (final_ok hd_nd opts c headerFinal))))))))))))"

text \<open>Why a subject is left out; \<open>None\<close> for an entry of the roster.\<close>

definition exclusion :: "compromise_cutoffs \<Rightarrow> int \<Rightarrow> lifecycle_state \<Rightarrow> string option" where
  "exclusion cutoffs cutoffTime st =
     (if denied st then Some ''permanent source denial at/before cutoff''
      else if revoked st then Some ''latest ordinary source event is revoke''
      else case entry st of
        None \<Rightarrow> Some ''no issuance at/before cutoff''
      | Some e \<Rightarrow>
          let k = (case keyEpoch st of Some k \<Rightarrow> k | None \<Rightarrow> 0);
              limit = (if k = 0 then None else map_of cutoffs (lower (re_issuer e), k))
          in if (case limit of Some b \<Rightarrow> b < (case issueBlock st of Some h \<Rightarrow> h | None \<Rightarrow> 0) | None \<Rightarrow> False)
             then Some ''issuance is after approved issuer-key compromise cutoff''
             else if \<not> validCredentialAttrs (re_attrs e) (Some (JInt cutoffTime))
             then Some ''credential expired at source cutoff'' else None)"

definition sorted_states :: "source_lib \<Rightarrow> lifecycle_states \<Rightarrow> lifecycle_states" where
  "sorted_states L states = sort_by (\<lambda>a b. sl_before L (fst a) (fst b)) states"

definition state_entry :: "compromise_cutoffs \<Rightarrow> int \<Rightarrow> lifecycle_state \<Rightarrow> roster_entry option" where
  "state_entry cutoffs cutoffTime st = (if exclusion cutoffs cutoffTime st = None then entry st else None)"

definition roster_entries :: "source_lib \<Rightarrow> compromise_cutoffs \<Rightarrow> int \<Rightarrow> lifecycle_states \<Rightarrow> roster_entry list" where
  "roster_entries L cutoffs cutoffTime states =
     List.map_filter (\<lambda>p. state_entry cutoffs cutoffTime (snd p)) (sorted_states L states)"

definition roster_excluded :: "source_lib \<Rightarrow> compromise_cutoffs \<Rightarrow> int \<Rightarrow> lifecycle_states \<Rightarrow> (string \<times> string) list" where
  "roster_excluded L cutoffs cutoffTime states =
     List.map_filter (\<lambda>p. map_option (\<lambda>r. (fst p, r)) (exclusion cutoffs cutoffTime (snd p))) (sorted_states L states)"

definition json_entry :: "roster_entry \<Rightarrow> json" where
  "json_entry e = JArr [JText (re_subject e), JText (re_attrs e), JText (re_claimsRoot e), JText (re_evidenceHash e), JText (re_issuer e)]"

definition next_checkpoint :: "source_lib \<Rightarrow> source_options \<Rightarrow> source_frame \<Rightarrow> scan_state \<Rightarrow> source_checkpoint" where
  "next_checkpoint L opts f st = \<lparr>ck_version = 1, ck_chain = so_chain opts, ck_source = sf_source f,
     ck_deploymentTx = lower (so_deploymentTx opts), ck_deploymentBlock = sf_creationBlock f,
     ck_block = JInt (sf_cutoffHeight f), ck_hash = block_hash (sf_cutoff f), ck_time = sb_time (sf_cutoff f),
     ck_root = block_root (sf_cutoff f), ck_receipts = JInt (sc_receipts st), ck_sourceLogs = JInt (sc_sourceLogs st),
     ck_headers = sc_headers st, ck_blocks = sc_blocks st, ck_logs = sc_logs st,
     ck_states = sorted_states L (sc_states st),
     ck_cutoffs = sort_by (\<lambda>a b. sl_keyBefore L (fst a) (fst b)) (sc_cutoffs st)\<rparr>"

definition buildSourceRoster :: "ethers \<Rightarrow> source_lib \<Rightarrow> node \<Rightarrow> node \<Rightarrow> source_options \<Rightarrow> source_error + source_snapshot" where
  "buildSourceRoster E L nd hd_nd opts =
     bindE (source_result (source_start L nd hd_nd opts)) (\<lambda>f.
     bindE (source_result (source_scan L nd hd_nd opts f)) (\<lambda>(anchor, st).
     bindE (source_result (source_recheck nd hd_nd opts f anchor)) (\<lambda>_.
     let cutoffTime = js_val (sb_time (sf_cutoff f)) in
     bindE (roster_result (buildRoster E EVM_NAMESPACE (roster_entries L (sc_cutoffs st) cutoffTime (sc_states st)))) (\<lambda>tree.
     Inr \<lparr>ss_tree = tree, ss_excluded = roster_excluded L (sc_cutoffs st) cutoffTime (sc_states st),
       ss_manifest = \<lparr>sm_chain = so_chain opts, sm_source = sf_source f, sm_deploymentTx = lower (so_deploymentTx opts),
         sm_deploymentBlock = sf_creationBlock f, sm_deploymentHash = sf_creationHash f, sm_cutoffBlock = sf_cutoffHeight f,
         sm_cutoffHash = block_hash (sf_cutoff f), sm_cutoffTime = cutoffTime,
         sm_confirmations = js_val (so_confirmations opts), sm_blocks = sf_cutoffHeight f - sf_creationBlock f + 1,
         sm_receipts = sc_receipts st, sm_sourceLogs = sc_sourceLogs st, sm_headers = sc_headers st,
         sm_blocksDigest = sc_blocks st, sm_logsDigest = sc_logs st,
         sm_entries = sl_digest L (JArr (map json_entry (rt_entries tree))), sm_root = rt_root tree\<rparr>,
       ss_checkpoint = next_checkpoint L opts f st\<rparr>))))"

definition assertSourceSnapshot :: "source_manifest option \<Rightarrow> source_manifest \<Rightarrow> string + unit" where
  "assertSourceSnapshot expected actual =
     requireE ''source snapshot manifest drift; rebuild and review the plan'' (expected = Some actual)"

end
