(* ===== verification/Roster_Source_Props.thy ===== *)
theory Roster_Source_Props
  imports Roster_Source RosterProps
begin

text \<open>
  What the replay of \<open>pipeline/roster-source.ts\<close> publishes. The state machine of a subject is
  compared with a specification that speaks of the whole history: the roster holds an
  entry exactly when its issuance is the last event that decides about the subject, no
  uncorrected denial stands, its issuer key was not compromised before it, and it is still
  valid at the cutoff. The history is that of the logs that the receipts of every block
  and the log index of the node agree on.
\<close>

subsection \<open>The receipts trie is finite\<close>

definition trie_size :: "(nat list \<times> string) list \<Rightarrow> nat" where
  "trie_size items = sum_list (map (\<lambda>(k, v). Suc (length k)) items)"

lemma trie_size_Nil [simp]: "trie_size [] = 0" and trie_size_Cons [simp]:
  "trie_size ((k, v) # items) = Suc (length k) + trie_size items"
  by (simp_all add: trie_size_def)

lemma length_common_prefix: "length (common_prefix p q) \<le> length p" "length (common_prefix p q) \<le> length q"
  by (induction p q rule: common_prefix.induct) auto

lemma fold_common_length:
  "length (foldl (\<lambda>p (k', v'). common_prefix p k') p rest) \<le> length p
   \<and> (\<forall>(k, v) \<in> set rest. length (foldl (\<lambda>p (k', v'). common_prefix p k') p rest) \<le> length k)"
proof (induction rest arbitrary: p)
  case Nil
  then show ?case by simp
next
  case (Cons x rest)
  obtain k v where x: "x = (k, v)" by fastforce
  let ?f = "foldl (\<lambda>p (k', v'). common_prefix p k') (common_prefix p k) rest"
  from Cons.IH [of "common_prefix p k"]
  have IH: "length ?f \<le> length (common_prefix p k)" "\<forall>(k', v') \<in> set rest. length ?f \<le> length k'" by auto
  with length_common_prefix [of p k] have "length ?f \<le> length p" "length ?f \<le> length k" by linarith+
  then show ?case using IH(2) by (simp add: x)
qed

lemma shared_prefix_length: "(k, v) \<in> set items \<Longrightarrow> length (shared_prefix items) \<le> length k"
proof -
  assume mem: "(k, v) \<in> set items"
  then obtain k0 v0 rest where items: "items = (k0, v0) # rest" by (cases items) auto
  show ?thesis
    using mem fold_common_length [of k0 rest] by (auto simp: items shared_prefix_def)
qed

lemma trie_size_drop:
  assumes "items \<noteq> []" "0 < n" "\<And>k v. (k, v) \<in> set items \<Longrightarrow> n \<le> length k"
  shows "trie_size (map (\<lambda>(k, v). (drop n k, v)) items) < trie_size items"
  using assms
proof (induction items)
  case Nil
  then show ?case by simp
next
  case (Cons x items)
  obtain k v where x: "x = (k, v)" by fastforce
  have "n \<le> length k" using Cons.prems x by auto
  moreover have "trie_size (map (\<lambda>(k, v). (drop n k, v)) items) \<le> trie_size items"
    by (induction items) auto
  ultimately show ?case using Cons.prems(2) by (simp add: x)
qed

lemma trie_size_group:
  assumes "branch_group nib items \<noteq> []"
  shows "trie_size (branch_group nib items) < trie_size items"
proof -
  have le: "trie_size (branch_group nib xs) \<le> trie_size xs" for xs
    by (induction xs) (auto simp: branch_group_def)
  show ?thesis using assms
  proof (induction items)
    case Nil
    then show ?case by (simp add: branch_group_def)
  next
    case (Cons x items)
    obtain k v where x: "x = (k, v)" by fastforce
    show ?case
    proof (cases "k \<noteq> [] \<and> hd k = nib")
      case True
      then have "branch_group nib (x # items) = (tl k, v) # branch_group nib items" by (simp add: x branch_group_def)
      then show ?thesis using le [of items] True by (cases k) (auto simp: x)
    next
      case False
      then have "branch_group nib (x # items) = branch_group nib items" by (auto simp: x branch_group_def)
      then show ?thesis using Cons by (simp add: x)
    qed
  qed
qed

lemma trieNode_Suc_many:
  assumes "length items \<noteq> 1"
  shows "trieNode L (Suc n) items =
     (let common = shared_prefix items in
        if common \<noteq> []
        then map_option (\<lambda>node. Rlp_List [Rlp_Data (compactPath L common False), nodeRef L node])
          (trieNode L n (map (\<lambda>(k, v). (drop (length common) k, v)) items))
        else
          let children = map (\<lambda>nib. let group = branch_group nib items in
                if group = [] then Some (Rlp_Data ''0x'') else map_option (nodeRef L) (trieNode L n group)) [0..<16];
              terminal = (case List.find (\<lambda>(k, v). k = []) items of Some (k, v) \<Rightarrow> Rlp_Data v | None \<Rightarrow> Rlp_Data ''0x'')
          in if list_all (\<lambda>c. c \<noteq> None) children then Some (Rlp_List (map the children @ [terminal])) else None)"
  using assms by (cases items; cases "tl items") (auto split: prod.splits list.splits)

lemma trieNode_total: "items \<noteq> [] \<Longrightarrow> trie_size items < n \<Longrightarrow> trieNode L n items \<noteq> None"
proof (induction n arbitrary: items)
  case 0
  then show ?case by simp
next
  case (Suc n)
  show ?case
  proof (cases "length items = 1")
    case True
    then obtain k v where "items = [(k, v)]" by (cases items) auto
    then show ?thesis by simp
  next
    case many: False
    show ?thesis
    proof (cases "shared_prefix items = []")
      case False
      have "trie_size (map (\<lambda>(k, v). (drop (length (shared_prefix items)) k, v)) items) < trie_size items"
        by (rule trie_size_drop) (use Suc.prems(1) False shared_prefix_length in auto)
      with Suc.IH [of "map (\<lambda>(k, v). (drop (length (shared_prefix items)) k, v)) items"] Suc.prems
      have "trieNode L n (map (\<lambda>(k, v). (drop (length (shared_prefix items)) k, v)) items) \<noteq> None" by simp
      then show ?thesis
        unfolding trieNode_Suc_many [OF many] Let_def using False by simp
    next
      case True
      have "trieNode L n (branch_group nib items) \<noteq> None" if "branch_group nib items \<noteq> []" for nib
        by (rule Suc.IH [OF that]) (use trie_size_group [OF that] Suc.prems in linarith)
      then have "list_all (\<lambda>c. c \<noteq> None) (map (\<lambda>nib. if branch_group nib items = [] then Some (Rlp_Data ''0x'')
          else map_option (nodeRef L) (trieNode L n (branch_group nib items))) [0..<16])"
        unfolding list.pred_map comp_def unfolding list_all_iff by simp
      then show ?thesis
        unfolding trieNode_Suc_many [OF many] Let_def using True by simp
    qed
  qed
qed

lemma trie_fuel_enough: "items \<noteq> [] \<Longrightarrow> trieNode L (trie_fuel items) items \<noteq> None"
  by (rule trieNode_total) (simp_all add: trie_fuel_def trie_size_def)

subsection \<open>The history of a subject\<close>

text \<open>An event of the history with the height and the time of its block.\<close>

type_synonym dated_event = "int \<times> int \<times> lifecycle_event"

fun replay :: "source_lib \<Rightarrow> dated_event list \<Rightarrow> lifecycle_states \<times> compromise_cutoffs
    \<Rightarrow> string + lifecycle_states \<times> compromise_cutoffs" where
  "replay L [] st = Inr st"
| "replay L ((h, t, ev) # evs) st = bindE (apply_event L h t ev st) (\<lambda>st'. replay L evs st')"

fun denies :: "source_lib \<Rightarrow> string \<Rightarrow> dated_event \<Rightarrow> bool" where
  "denies L s (h, t, Sanction_Denied x) = (sl_getAddress L x = s)"
| "denies L s (h, t, _) = False"

fun corrects :: "source_lib \<Rightarrow> string \<Rightarrow> dated_event \<Rightarrow> bool" where
  "corrects L s (h, t, Denial_Corrected x _ _ _ _ _) = (sl_getAddress L x = s)"
| "corrects L s (h, t, _) = False"

fun revokes :: "source_lib \<Rightarrow> string \<Rightarrow> dated_event \<Rightarrow> bool" where
  "revokes L s (h, t, Mark_Revoked x) = (sl_getAddress L x = s)"
| "revokes L s (h, t, _) = False"

text \<open>The entry, the issuer key epoch (0 for an issuance without one) and the height of an issuance.\<close>

fun issues :: "source_lib \<Rightarrow> string \<Rightarrow> dated_event \<Rightarrow> (roster_entry \<times> int \<times> int) option" where
  "issues L s (h, t, Mark_Issued x attrs issuer claims evidence) = (if sl_getAddress L x = s then
     Some (\<lparr>re_subject = s, re_attrs = lower attrs, re_claimsRoot = lower claims, re_evidenceHash = lower evidence,
       re_issuer = sl_getAddress L issuer\<rparr>, 0, h) else None)"
| "issues L s (h, t, Keyed_Mark_Issued x attrs issuer k claims evidence) = (if sl_getAddress L x = s then
     Some (\<lparr>re_subject = s, re_attrs = lower attrs, re_claimsRoot = lower claims, re_evidenceHash = lower evidence,
       re_issuer = sl_getAddress L issuer\<rparr>, k, h) else None)"
| "issues L s (h, t, _) = None"

definition decides :: "source_lib \<Rightarrow> string \<Rightarrow> dated_event \<Rightarrow> bool" where
  "decides L s e \<longleftrightarrow> issues L s e \<noteq> None \<or> revokes L s e \<or> corrects L s e"

definition standing_denial :: "source_lib \<Rightarrow> dated_event list \<Rightarrow> string \<Rightarrow> bool" where
  "standing_denial L evs s \<longleftrightarrow> (\<exists>pre e post. evs = pre @ e # post \<and> denies L s e \<and> \<not> list_ex (corrects L s) post)"

definition live_issuance :: "source_lib \<Rightarrow> dated_event list \<Rightarrow> string \<Rightarrow> roster_entry \<times> int \<times> int \<Rightarrow> bool" where
  "live_issuance L evs s x \<longleftrightarrow> (\<exists>pre e post. evs = pre @ e # post \<and> issues L s e = Some x \<and> \<not> list_ex (decides L s) post)"

fun compromises :: "source_lib \<Rightarrow> string \<Rightarrow> int \<Rightarrow> dated_event \<Rightarrow> int option" where
  "compromises L issuer k (h, t, Key_Compromised x k' b _) = (if lower (sl_getAddress L x) = issuer \<and> k' = k then Some b else None)"
| "compromises L issuer k (h, t, _) = None"

definition compromised_before :: "source_lib \<Rightarrow> dated_event list \<Rightarrow> string \<Rightarrow> int \<Rightarrow> int \<Rightarrow> bool" where
  "compromised_before L evs issuer k h \<longleftrightarrow> list_ex (\<lambda>e. case compromises L issuer k e of Some b \<Rightarrow> b < h | None \<Rightarrow> False) evs"

lemma replay_append: "replay L (xs @ ys) st = bindE (replay L xs st) (replay L ys)"
  by (induction xs arbitrary: st) (auto simp: bindE_def split: sum.splits)

lemma snoc_split: "(\<exists>pre e post. evs @ [x] = pre @ e # post \<and> P e \<and> \<not> list_ex Q post) \<longleftrightarrow>
    P x \<or> (\<not> Q x \<and> (\<exists>pre e post. evs = pre @ e # post \<and> P e \<and> \<not> list_ex Q post))"
proof
  assume "\<exists>pre e post. evs @ [x] = pre @ e # post \<and> P e \<and> \<not> list_ex Q post"
  then obtain pre e post where d: "evs @ [x] = pre @ e # post" "P e" "\<not> list_ex Q post" by blast
  show "P x \<or> (\<not> Q x \<and> (\<exists>pre e post. evs = pre @ e # post \<and> P e \<and> \<not> list_ex Q post))"
  proof (cases post rule: rev_cases)
    case Nil
    then show ?thesis using d by simp
  next
    case (snoc ys y)
    then have "evs = pre @ e # ys" "y = x" using d(1) by auto
    moreover from this snoc d(3) have "\<not> Q x" "\<not> list_ex Q ys" by auto
    ultimately show ?thesis using d(2) by blast
  qed
next
  assume "P x \<or> (\<not> Q x \<and> (\<exists>pre e post. evs = pre @ e # post \<and> P e \<and> \<not> list_ex Q post))"
  then show "\<exists>pre e post. evs @ [x] = pre @ e # post \<and> P e \<and> \<not> list_ex Q post"
  proof
    assume "P x"
    then have "evs @ [x] = evs @ x # [] \<and> P x \<and> \<not> list_ex Q []" by simp
    then show ?thesis by blast
  next
    assume "\<not> Q x \<and> (\<exists>pre e post. evs = pre @ e # post \<and> P e \<and> \<not> list_ex Q post)"
    then obtain pre e post where "evs = pre @ e # post" "P e" "\<not> list_ex Q post" "\<not> Q x" by blast
    then have "evs @ [x] = pre @ e # (post @ [x]) \<and> P e \<and> \<not> list_ex Q (post @ [x])" by simp
    then show ?thesis by blast
  qed
qed

lemma standing_denial_snoc:
  "standing_denial L (evs @ [x]) s \<longleftrightarrow> denies L s x \<or> (\<not> corrects L s x \<and> standing_denial L evs s)"
  unfolding standing_denial_def by (rule snoc_split)

lemma live_issuance_snoc:
  "live_issuance L (evs @ [x]) s y \<longleftrightarrow> issues L s x = Some y \<or> (\<not> decides L s x \<and> live_issuance L evs s y)"
  unfolding live_issuance_def by (rule snoc_split)

lemma compromised_before_snoc:
  "compromised_before L (evs @ [x]) issuer k h \<longleftrightarrow> compromised_before L evs issuer k h
     \<or> (case compromises L issuer k x of Some b \<Rightarrow> b < h | None \<Rightarrow> False)"
  by (auto simp: compromised_before_def)

text \<open>The state machine holds, for every subject, what the history says.\<close>

definition state_agrees :: "source_lib \<Rightarrow> dated_event list \<Rightarrow> string \<Rightarrow> lifecycle_state \<Rightarrow> bool" where
  "state_agrees L evs s st \<longleftrightarrow> denied st = standing_denial L evs s
     \<and> (\<forall>x. (\<not> revoked st \<and> (\<exists>e k h. x = (e, k, h) \<and> entry st = Some e \<and> keyEpoch st = Some k \<and> issueBlock st = Some h))
            \<longleftrightarrow> live_issuance L evs s x)
     \<and> (entry st \<noteq> None \<longrightarrow> keyEpoch st \<noteq> None \<and> issueBlock st \<noteq> None)"

definition replay_ok :: "source_lib \<Rightarrow> dated_event list \<Rightarrow> lifecycle_states \<times> compromise_cutoffs \<Rightarrow> bool" where
  "replay_ok L evs st \<longleftrightarrow> distinct (map fst (fst st)) \<and> (\<forall>s. state_agrees L evs s (state_of (fst st) s))
     \<and> (\<forall>issuer k h. compromised_before L evs issuer k h \<longleftrightarrow>
          (case map_of (snd st) (issuer, k) of Some b \<Rightarrow> b < h | None \<Rightarrow> False))"

lemma state_of_update: "state_of (AList.update s x states) s' = (if s' = s then x else state_of states s')"
  by (simp add: state_of_def AList.update_conv')

lemma with_subject_Inr:
  assumes "with_subject L raw states f = Inr ss"
  obtains st where "f (sl_getAddress L raw) (state_of states (sl_getAddress L raw)) = Inr st"
    and "ss = AList.update (sl_getAddress L raw) st states"
  using assms by (auto simp: with_subject_def Let_def bindE_Inr_iff split: if_splits)

lemma agrees_untouched:
  assumes "state_agrees L evs s st" "\<not> denies L s x" "\<not> decides L s x"
  shows "state_agrees L (evs @ [x]) s st"
  using assms unfolding state_agrees_def standing_denial_snoc live_issuance_snoc decides_def by auto

lemma cutoffs_untouched:
  assumes "\<And>issuer k. compromises L issuer k x = None"
  shows "compromised_before L (evs @ [x]) issuer k h \<longleftrightarrow> compromised_before L evs issuer k h"
  by (simp add: compromised_before_snoc assms)

lemma subject_step:
  assumes ok: "replay_ok L evs (states, cutoffs)"
    and ss: "with_subject L raw states f = Inr ss"
    and other: "\<And>s. s \<noteq> sl_getAddress L raw \<Longrightarrow> \<not> denies L s x \<and> \<not> decides L s x"
    and no: "\<And>issuer k. compromises L issuer k x = None"
    and own: "\<And>st st'. state_agrees L evs (sl_getAddress L raw) st \<Longrightarrow> f (sl_getAddress L raw) st = Inr st' \<Longrightarrow>
      state_agrees L (evs @ [x]) (sl_getAddress L raw) st'"
  shows "replay_ok L (evs @ [x]) (ss, cutoffs)"
proof -
  from ss obtain st where st: "f (sl_getAddress L raw) (state_of states (sl_getAddress L raw)) = Inr st"
    "ss = AList.update (sl_getAddress L raw) st states" by (rule with_subject_Inr)
  have agree: "\<And>s. state_agrees L evs s (state_of states s)" using ok by (simp add: replay_ok_def)
  have "state_agrees L (evs @ [x]) s (state_of ss s)" for s
    using own [OF agree st(1)] agrees_untouched [OF agree [of s], of x] other [of s]
    by (simp add: st(2) state_of_update)
  then show ?thesis
    using ok by (simp add: replay_ok_def st(2) distinct_update cutoffs_untouched no)
qed

lemma apply_event_ok:
  assumes ok: "replay_ok L evs st" and ap: "apply_event L h t ev st = Inr st'"
  shows "replay_ok L (evs @ [(h, t, ev)]) st'"
proof -
  obtain states cutoffs where st: "st = (states, cutoffs)" by fastforce
  note ok' = ok [unfolded st]
  show ?thesis
  proof (cases ev)
    case (Sanction_Denied s)
    with ap st obtain ss where "with_subject L s states (\<lambda>_ st. Inr (st\<lparr>denied := True\<rparr>)) = Inr ss" "st' = (ss, cutoffs)"
      by (auto simp: bindE_Inr_iff)
    then show ?thesis
      by (auto intro!: subject_step [OF ok'] simp: Sanction_Denied decides_def state_agrees_def standing_denial_snoc live_issuance_snoc)
  next
    case (Mark_Revoked s)
    with ap st obtain ss where "with_subject L s states (\<lambda>_ st. Inr (st\<lparr>revoked := True\<rparr>)) = Inr ss" "st' = (ss, cutoffs)"
      by (auto simp: bindE_Inr_iff)
    then show ?thesis
      by (auto intro!: subject_step [OF ok'] simp: Mark_Revoked decides_def state_agrees_def standing_denial_snoc live_issuance_snoc)
  next
    case (Denial_Corrected s revision cid reason proposer approver)
    with ap st obtain ss where "with_subject L s states (\<lambda>_ st.
       bindE (requireE ''invalid denial correction provenance'' (correction_ok L revision cid reason proposer approver)) (\<lambda>_.
       Inr (st\<lparr>denied := False, revoked := True, entry := None, keyEpoch := None, issueBlock := None\<rparr>))) = Inr ss" "st' = (ss, cutoffs)"
      by (auto simp: bindE_Inr_iff)
    then show ?thesis
      by (auto intro!: subject_step [OF ok'] simp: bindE_Inr_iff Denial_Corrected decides_def state_agrees_def standing_denial_snoc live_issuance_snoc)
  next
    case (Mark_Issued s attrs issuer claims evidence)
    with ap st obtain ss where "with_subject L s states (\<lambda>subject. issue_state L h t subject attrs issuer None claims evidence) = Inr ss" "st' = (ss, cutoffs)"
      by (auto simp: bindE_Inr_iff)
    then show ?thesis
      by (auto intro!: subject_step [OF ok'] simp: bindE_Inr_iff issue_state_def Mark_Issued decides_def state_agrees_def standing_denial_snoc live_issuance_snoc)
  next
    case (Keyed_Mark_Issued s attrs issuer k claims evidence)
    with ap st obtain ss where "with_subject L s states (\<lambda>subject. issue_state L h t subject attrs issuer (Some k) claims evidence) = Inr ss" "st' = (ss, cutoffs)"
      by (auto simp: bindE_Inr_iff)
    then show ?thesis
      by (auto intro!: subject_step [OF ok'] simp: bindE_Inr_iff issue_state_def Keyed_Mark_Issued decides_def state_agrees_def standing_denial_snoc live_issuance_snoc)
  next
    case (Key_Compromised issuer k b reason)
    with ap st obtain c where c: "compromise L h issuer k b reason cutoffs = Inr c" "st' = (states, c)"
      by (auto simp: bindE_Inr_iff)
    have "state_agrees L (evs @ [(h, t, ev)]) s (state_of states s)" for s
      by (rule agrees_untouched) (use ok' in \<open>auto simp: Key_Compromised decides_def replay_ok_def\<close>)
    moreover have "compromised_before L (evs @ [(h, t, ev)]) i k' h' \<longleftrightarrow>
        (case map_of c (i, k') of Some b \<Rightarrow> b < h' | None \<Rightarrow> False)" for i k' h'
      using c(1) ok' by (auto simp: compromise_def Let_def bindE_Inr_iff AList.update_conv' compromised_before_snoc
          Key_Compromised replay_ok_def split: option.splits)
    ultimately show ?thesis using ok' by (simp add: c(2) replay_ok_def)
  qed
qed

lemma replay_history:
  assumes "replay L evs ([], []) = Inr st"
  shows "replay_ok L evs st"
  using assms
proof (induction evs arbitrary: st rule: rev_induct)
  case Nil
  then show ?case
    by (auto simp: replay_ok_def state_agrees_def state_of_def standing_denial_def live_issuance_def compromised_before_def)
next
  case (snoc x evs)
  obtain h t ev where x: "x = (h, t, ev)" by (cases x) auto
  from snoc.prems obtain st1 where "replay L evs ([], []) = Inr st1" "apply_event L h t ev st1 = Inr st"
    by (auto simp: replay_append x bindE_Inr_iff)
  with snoc.IH [of st1] apply_event_ok show ?case by (simp add: x)
qed

subsection \<open>From the scan to the history\<close>

text \<open>The lifecycle event of a log of the contract, with the height of its block.\<close>

definition lifecycle_of :: "source_lib \<Rightarrow> snapshot_log \<Rightarrow> (int \<times> lifecycle_event) list" where
  "lifecycle_of L l = (if sl_topics l = [] \<or> \<not> sl_watched L (hd (sl_topics l)) then []
     else case sl_parse L l of None \<Rightarrow> [] | Some ev \<Rightarrow> [(js_val (sl_block l), ev)])"

definition undated :: "dated_event list \<Rightarrow> (int \<times> lifecycle_event) list" where
  "undated evs = map (\<lambda>(h, t, ev). (h, ev)) evs"

definition replays :: "source_lib \<Rightarrow> snapshot_log list \<Rightarrow> lifecycle_states \<times> compromise_cutoffs \<Rightarrow> lifecycle_states \<times> compromise_cutoffs \<Rightarrow> bool" where
  "replays L ls st st' \<longleftrightarrow> (\<exists>evs. replay L evs st = Inr st' \<and> undated evs = concat (map (lifecycle_of L) ls))"

lemma replays_Nil [simp]: "replays L [] st st"
  unfolding replays_def by (rule exI [of _ "[]"]) (simp add: undated_def)

lemma replays_append: "replays L xs st st1 \<Longrightarrow> replays L ys st1 st2 \<Longrightarrow> replays L (xs @ ys) st st2"
proof -
  assume "replays L xs st st1" "replays L ys st1 st2"
  then obtain e1 e2 where "replay L e1 st = Inr st1" "undated e1 = concat (map (lifecycle_of L) xs)"
    "replay L e2 st1 = Inr st2" "undated e2 = concat (map (lifecycle_of L) ys)"
    unfolding replays_def by blast
  then have "replay L (e1 @ e2) st = Inr st2 \<and> undated (e1 @ e2) = concat (map (lifecycle_of L) (xs @ ys))"
    by (simp add: replay_append undated_def)
  then show ?thesis unfolding replays_def by blast
qed

definition advances :: "source_lib \<Rightarrow> scan_state \<Rightarrow> scan_state \<Rightarrow> bool" where
  "advances L st st' \<longleftrightarrow> (\<exists>ls. sc_chunk st' = sc_chunk st @ ls
     \<and> replays L ls (sc_states st, sc_cutoffs st) (sc_states st', sc_cutoffs st'))"

lemma lifecycle_advances_same:
  "sc_chunk st' = sc_chunk st \<Longrightarrow> sc_states st' = sc_states st \<Longrightarrow> sc_cutoffs st' = sc_cutoffs st \<Longrightarrow> advances L st st'"
  unfolding advances_def by (rule exI [of _ "[]"]) simp

lemma advances_trans: "advances L a b \<Longrightarrow> advances L b c \<Longrightarrow> advances L a c"
proof -
  assume "advances L a b" "advances L b c"
  then obtain xs ys where
    "sc_chunk b = sc_chunk a @ xs" "replays L xs (sc_states a, sc_cutoffs a) (sc_states b, sc_cutoffs b)"
    "sc_chunk c = sc_chunk b @ ys" "replays L ys (sc_states b, sc_cutoffs b) (sc_states c, sc_cutoffs c)"
    unfolding advances_def by blast
  then have "sc_chunk c = sc_chunk a @ (xs @ ys) \<and> replays L (xs @ ys) (sc_states a, sc_cutoffs a) (sc_states c, sc_cutoffs c)"
    using replays_append by auto
  then show ?thesis unfolding advances_def by blast
qed

lemma lifecycle_step_replays:
  assumes "lifecycle_step L height time l st = Inr st'" "sl_block l = JInt height"
  shows "replays L [l] st st'"
proof (cases "sl_topics l = [] \<or> \<not> sl_watched L (hd (sl_topics l))")
  case True
  then have "st' = st" "lifecycle_of L l = []" using assms by (auto simp: lifecycle_step_def lifecycle_of_def)
  then show ?thesis unfolding replays_def by (intro exI [of _ "[]"]) (simp add: undated_def)
next
  case False
  then obtain ev where ev: "sl_parse L l = Some ev" "apply_event L height time ev st = Inr st'"
    using assms(1) by (auto simp: lifecycle_step_def bindE_Inr_iff split: option.splits)
  have "replay L [(height, time, ev)] st = Inr st' \<and> undated [(height, time, ev)] = concat (map (lifecycle_of L) [l])"
    using ev False assms(2) by (auto simp: lifecycle_of_def undated_def)
  then show ?thesis unfolding replays_def by blast
qed

lemma scan_log_advances:
  assumes "scan_log L src b height tx i l st = Inr st'"
  shows "advances L st st'"
proof -
  from assms have c: "sl_block l = JInt height" by (auto simp: scan_log_def bindE_Inr_iff)
  show ?thesis
  proof (cases "sl_address l = lower src")
    case False
    then show ?thesis using assms by (intro lifecycle_advances_same) (auto simp: scan_log_def bindE_Inr_iff)
  next
    case True
    from assms True obtain states cutoffs where
      s: "lifecycle_step L height (js_val (sb_time b)) l (sc_states st, sc_cutoffs st) = Inr (states, cutoffs)" and
      st': "sc_chunk st' = sc_chunk st @ [l]" "sc_states st' = states" "sc_cutoffs st' = cutoffs"
      by (auto simp: scan_log_def Let_def bindE_Inr_iff)
    show ?thesis
      unfolding advances_def using lifecycle_step_replays [OF s c] st' by auto
  qed
qed

lemma scan_logs_advances: "scan_logs L src b height tx i ls st = Inr st' \<Longrightarrow> advances L st st'"
proof (induction ls arbitrary: st)
  case Nil
  then show ?case by (auto intro: lifecycle_advances_same)
next
  case (Cons l ls)
  from Cons.prems obtain st1 where "scan_log L src b height tx i l st = Inr st1" "scan_logs L src b height tx i ls st1 = Inr st'"
    by (auto simp: bindE_Inr_iff)
  with scan_log_advances Cons.IH advances_trans show ?case by blast
qed

lemma scan_txs_advances: "scan_txs L src b height fetched i txs st = Inr st' \<Longrightarrow> advances L st st'"
proof (induction txs arbitrary: i st)
  case Nil
  then show ?case by (auto intro: lifecycle_advances_same)
next
  case (Cons tx txs)
  from Cons.prems obtain r logs st1 d where
    1: "scan_logs L src b height tx i logs (st\<lparr>sc_collected := sc_collected st @ [(i, r, logs)]\<rparr>) = Inr st1" and
    2: "scan_txs L src b height fetched (i + 1) txs (st1\<lparr>sc_digests := d\<rparr>) = Inr st'"
    by (auto simp: bindE_Inr_iff simp del: scan_logs.simps split: option.splits if_splits)
  have "advances L st (st\<lparr>sc_collected := sc_collected st @ [(i, r, logs)]\<rparr>)" by (rule lifecycle_advances_same) auto
  moreover have "advances L st1 (st1\<lparr>sc_digests := d\<rparr>)" by (rule lifecycle_advances_same) auto
  ultimately show ?case
    using scan_logs_advances [OF 1] Cons.IH [OF 2] advances_trans by blast
qed

lemma scan_block_advances:
  assumes "scan_block L nd hn opts f h st = Inr st'"
  shows "advances L st st'"
proof -
  from assms obtain b fetched st1 st2 where
    1: "scan_txs L (sf_source f) b h fetched 0 (sb_txs b) st1 = Inr st2" and
    2: "sc_chunk st1 = sc_chunk st" "sc_states st1 = sc_states st" "sc_cutoffs st1 = sc_cutoffs st" and
    3: "sc_chunk st' = sc_chunk st2" "sc_states st' = sc_states st2" "sc_cutoffs st' = sc_cutoffs st2"
    unfolding scan_block_def Let_def by (auto elim!: bindE_Inr_cases)
  from lifecycle_advances_same [OF 2] scan_txs_advances [OF 1] lifecycle_advances_same [OF 3]
  show ?thesis using advances_trans by blast
qed

lemma scan_heights_advances: "scan_heights L nd hn opts f hs st = Inr st' \<Longrightarrow> advances L st st'"
proof (induction hs arbitrary: st)
  case Nil
  then show ?case by (auto intro: lifecycle_advances_same)
next
  case (Cons h hs)
  from Cons.prems obtain st1 where "scan_block L nd hn opts f h st = Inr st1" "scan_heights L nd hn opts f hs st1 = Inr st'"
    by (auto simp: bindE_Inr_iff)
  with scan_block_advances Cons.IH advances_trans show ?case by blast
qed

lemma scan_chunks_replays:
  "scan_chunks L nd hn opts f rs st = Inr st' \<Longrightarrow>
   \<exists>lists. mapE (\<lambda>(lo, hi). indexed_logs L nd (sf_source f) lo hi) rs = Inr lists
     \<and> replays L (concat lists) (sc_states st, sc_cutoffs st) (sc_states st', sc_cutoffs st')"
proof (induction rs arbitrary: st)
  case Nil
  then show ?case by auto
next
  case (Cons r rs)
  obtain lo hi where r: "r = (lo, hi)" by fastforce
  from Cons.prems obtain st1 where
    1: "scan_chunk L nd hn opts f r st = Inr st1" and 2: "scan_chunks L nd hn opts f rs st1 = Inr st'"
    by (auto simp: bindE_Inr_iff)
  from 1 have 3: "scan_heights L nd hn opts f [lo..hi] (st\<lparr>sc_chunk := []\<rparr>) = Inr st1"
    and 4: "indexed_logs L nd (sf_source f) lo hi = Inr (sc_chunk st1)"
    by (auto simp: scan_chunk_def r bindE_Inr_iff)
  from scan_heights_advances [OF 3] have "replays L (sc_chunk st1) (sc_states st, sc_cutoffs st) (sc_states st1, sc_cutoffs st1)"
    by (simp add: advances_def)
  moreover from Cons.IH [OF 2] obtain lists where
    "mapE (\<lambda>(lo, hi). indexed_logs L nd (sf_source f) lo hi) rs = Inr lists"
    "replays L (concat lists) (sc_states st1, sc_cutoffs st1) (sc_states st', sc_cutoffs st')" by blast
  ultimately show ?case
    using 4 by (intro exI [of _ "sc_chunk st1 # lists"]) (auto simp: r intro: replays_append)
qed

subsection \<open>The roster\<close>

lemma exclusion_None:
  assumes "state_agrees L evs s st"
    and cutoffs: "\<And>issuer k h. compromised_before L evs issuer k h \<longleftrightarrow>
          (case map_of cutoffs (issuer, k) of Some b \<Rightarrow> b < h | None \<Rightarrow> False)"
  shows "exclusion cutoffs time st = None \<and> entry st = Some e \<longleftrightarrow>
    (\<exists>k h. live_issuance L evs s (e, k, h) \<and> \<not> standing_denial L evs s
      \<and> \<not> (k \<noteq> 0 \<and> compromised_before L evs (lower (re_issuer e)) k h)
      \<and> validCredentialAttrs (re_attrs e) (Some (JInt time)))"
proof -
  from assms(1) have d: "denied st = standing_denial L evs s"
    and live: "\<And>e k h. live_issuance L evs s (e, k, h) \<longleftrightarrow>
      \<not> revoked st \<and> entry st = Some e \<and> keyEpoch st = Some k \<and> issueBlock st = Some h"
    and some: "entry st \<noteq> None \<Longrightarrow> keyEpoch st \<noteq> None \<and> issueBlock st \<noteq> None"
    unfolding state_agrees_def by (blast, auto)
  show ?thesis
    unfolding live cutoffs
    using d some by (auto simp: exclusion_def Let_def split: if_splits option.splits)
qed

lemma set_map_filter_eq: "set (List.map_filter f xs) = {y. \<exists>x \<in> set xs. f x = Some y}"
  by (auto simp: List.map_filter_def image_iff) force

lemma roster_entries_iff:
  assumes "replay_ok L evs (states, cutoffs)"
  shows "e \<in> set (roster_entries L cutoffs time states) \<longleftrightarrow>
    (\<exists>s k h. live_issuance L evs s (e, k, h) \<and> \<not> standing_denial L evs s
      \<and> \<not> (k \<noteq> 0 \<and> compromised_before L evs (lower (re_issuer e)) k h)
      \<and> validCredentialAttrs (re_attrs e) (Some (JInt time)))"
proof -
  have dist: "distinct (map fst states)" and agree: "\<And>s. state_agrees L evs s (state_of states s)"
    and cut: "\<And>issuer k h. compromised_before L evs issuer k h \<longleftrightarrow>
          (case map_of cutoffs (issuer, k) of Some b \<Rightarrow> b < h | None \<Rightarrow> False)"
    using assms by (auto simp: replay_ok_def)
  have "e \<in> set (roster_entries L cutoffs time states) \<longleftrightarrow>
      (\<exists>p \<in> set states. state_entry cutoffs time (snd p) = Some e)"
    unfolding roster_entries_def sorted_states_def set_map_filter_eq by (simp add: Bex_def)
  also have "\<dots> \<longleftrightarrow> (\<exists>s st. (s, st) \<in> set states \<and> exclusion cutoffs time st = None \<and> entry st = Some e)"
  proof -
    have "state_entry cutoffs time st = Some e \<longleftrightarrow> exclusion cutoffs time st = None \<and> entry st = Some e" for st
      by (simp add: state_entry_def)
    then show ?thesis by (metis prod.collapse snd_conv)
  qed
  also have "\<dots> \<longleftrightarrow> (\<exists>s. exclusion cutoffs time (state_of states s) = None \<and> entry (state_of states s) = Some e)"
  proof
    assume "\<exists>s st. (s, st) \<in> set states \<and> exclusion cutoffs time st = None \<and> entry st = Some e"
    then obtain s st where "(s, st) \<in> set states" "exclusion cutoffs time st = None" "entry st = Some e" by blast
    moreover from this(1) dist have "state_of states s = st" by (simp add: state_of_def)
    ultimately show "\<exists>s. exclusion cutoffs time (state_of states s) = None \<and> entry (state_of states s) = Some e" by blast
  next
    assume "\<exists>s. exclusion cutoffs time (state_of states s) = None \<and> entry (state_of states s) = Some e"
    then obtain s where s: "exclusion cutoffs time (state_of states s) = None" "entry (state_of states s) = Some e" by blast
    then have "(s, state_of states s) \<in> set states"
      by (cases "map_of states s") (auto simp: state_of_def dest: map_of_SomeD)
    with s show "\<exists>s st. (s, st) \<in> set states \<and> exclusion cutoffs time st = None \<and> entry st = Some e" by blast
  qed
  also have "\<dots> \<longleftrightarrow> (\<exists>s k h. live_issuance L evs s (e, k, h) \<and> \<not> standing_denial L evs s
      \<and> \<not> (k \<noteq> 0 \<and> compromised_before L evs (lower (re_issuer e)) k h)
      \<and> validCredentialAttrs (re_attrs e) (Some (JInt time)))"
    unfolding exclusion_None [OF agree cut] ..
  finally show ?thesis .
qed

text \<open>
  C2: The published roster is the current history: a cold replay that returns publishes
  exactly the entries whose issuance is the last event deciding about its subject, with no
  uncorrected denial, no compromise of the issuer's key before the issuance, and a validity
  window that holds at the cutoff; the history is that of all logs of the contract from the
  deployment block to the cutoff block, in block and log order.
\<close>

theorem roster_is_current_history:
  assumes "buildSourceRoster E L nd hn opts = Inr snap" and "so_checkpoint opts = None"
  shows "\<exists>lists evs.
      mapE (\<lambda>(lo, hi). indexed_logs L nd (sm_source (ss_manifest snap)) lo hi)
        (chunk_ranges (sm_deploymentBlock (ss_manifest snap)) (sm_cutoffBlock (ss_manifest snap)) (js_val (so_chunk opts))) = Inr lists
    \<and> undated evs = concat (map (lifecycle_of L) (concat lists))
    \<and> (\<forall>e. e \<in> set (rt_entries (ss_tree snap)) \<longleftrightarrow>
        (\<exists>s k h. live_issuance L evs s (e, k, h) \<and> \<not> standing_denial L evs s
          \<and> \<not> (k \<noteq> 0 \<and> compromised_before L evs (lower (re_issuer e)) k h)
          \<and> validCredentialAttrs (re_attrs e) (Some (JInt (sm_cutoffTime (ss_manifest snap))))))"
proof -
  from assms(1) obtain f anchor st tree where
    scan: "source_scan L nd hn opts f = Inr (anchor, st)" and
    tree: "buildRoster E EVM_NAMESPACE (roster_entries L (sc_cutoffs st) (js_val (sb_time (sf_cutoff f))) (sc_states st)) = Inr tree" and
    snap: "ss_tree snap = tree" "sm_source (ss_manifest snap) = sf_source f"
      "sm_deploymentBlock (ss_manifest snap) = sf_creationBlock f" "sm_cutoffBlock (ss_manifest snap) = sf_cutoffHeight f"
      "sm_cutoffTime (ss_manifest snap) = js_val (sb_time (sf_cutoff f))"
    unfolding buildSourceRoster_def Let_def by (auto elim!: bindE_Inr_cases)
  from scan assms(2) obtain st0 where
    chunks: "scan_chunks L nd hn opts f (chunk_ranges (sf_creationBlock f) (sf_cutoffHeight f) (js_val (so_chunk opts))) st0 = Inr st"
    and st0: "sc_states st0 = []" "sc_cutoffs st0 = []"
    unfolding source_scan_def Let_def by (auto simp: bindE_Inr_iff initial_scan_def)
  from scan_chunks_replays [OF chunks] st0 obtain lists evs where
    lists: "mapE (\<lambda>(lo, hi). indexed_logs L nd (sf_source f) lo hi)
        (chunk_ranges (sf_creationBlock f) (sf_cutoffHeight f) (js_val (so_chunk opts))) = Inr lists"
    and evs: "replay L evs ([], []) = Inr (sc_states st, sc_cutoffs st)" "undated evs = concat (map (lifecycle_of L) (concat lists))"
    unfolding replays_def by auto
  have "set (rt_entries tree) = set (roster_entries L (sc_cutoffs st) (js_val (sb_time (sf_cutoff f))) (sc_states st))"
    using rt_entries_perm(1) [OF tree] by (metis set_mset_mset)
  with roster_entries_iff [OF replay_history [OF evs(1)]] lists evs(2)
  show ?thesis unfolding snap by blast
qed

subsection \<open>A replay of two blocks\<close>

definition one_hash :: string where
  "one_hash = ''0x'' @ replicate 64 (CHR ''1'')"

definition toy_lib :: source_lib where
  "toy_lib = \<lparr>sl_digest = \<lambda>_. one_hash, sl_isAddress = \<lambda>_. True, sl_getAddress = \<lambda>s. s, sl_hexData = \<lambda>_. True,
     sl_watched = \<lambda>_. False, sl_parse = \<lambda>_. None, sl_encodes = \<lambda>_ _. True, sl_encodeRlp = \<lambda>_. ''0x'', sl_keccak = \<lambda>_. one_hash,
     sl_bytes = \<lambda>_. [], sl_hexlify = \<lambda>_. ''0x'', sl_beHex = \<lambda>_. ''0x01'', sl_concat = (@), sl_before = \<lambda>_ _. False,
     sl_keyBefore = \<lambda>_ _. False\<rparr>"

definition toy_block :: "int \<Rightarrow> snapshot_block" where
  "toy_block h = \<lparr>sb_number = JInt h, sb_hash = Some one_hash, sb_parent = one_hash, sb_time = JInt 1,
     sb_txs = (if h = 1 then [one_hash] else []), sb_receiptsRoot = Some one_hash\<rparr>"

definition toy_receipt :: snapshot_receipt where
  "toy_receipt = \<lparr>sr_hash = one_hash, sr_block = 1, sr_blockHash = one_hash, sr_index = 0, sr_status = Some 1,
     sr_contract = Some ''0xs'', sr_logs = [], sr_gas = 0, sr_bloom = ''0x'' @ replicate 512 (CHR ''0''),
     sr_type = JInt 0, sr_root = None\<rparr>"

definition toy_node :: node where
  "toy_node = \<lparr>nd_chain = 1, nd_head = \<lambda>_. JInt 2, nd_final = \<lambda>_. Some (toy_block 1), nd_block = \<lambda>_ h. Some (toy_block h),
     nd_receipt = \<lambda>_ _. Inr (Some toy_receipt), nd_blockReceipts = None, nd_logs = \<lambda>_ _. []\<rparr>"

definition toy_options :: source_options where
  "toy_options = default_options ''0xs'' 1 one_hash (JInt 1)"

definition toy_frame :: source_frame where
  "toy_frame = \<lparr>sf_source = ''0xs'', sf_creationBlock = 1, sf_creationHash = one_hash, sf_creationIndex = 0,
     sf_cutoffHeight = 1, sf_cutoff = toy_block 1\<rparr>"

lemma one_hash_ok [simp]: "is_bytes32 one_hash"
  by (simp add: is_bytes32_def one_hash_def hex_digit_def list_all_iff)

lemma toy_integer [simp]: "integer_from 0 (JInt 0)" "integer_from 0 (JInt 1)" "integer_from 0 (JInt 2)" "integer_from 1 (JInt 1)"
  "integer_from 1 (JInt 20000)" "integer_from 1 (JInt 200000)" "integer_from 1 (JInt 100)" "integer_from 1 (JInt 6)" "integer_from 1 (JInt 3)"
  by (simp_all add: integer_from_def is_safe_def max_safe_def)

lemma toy_checked [simp]:
  "checkedBlock (Some (toy_block 1)) None = Inr (toy_block 1)"
  "checkedBlock (Some (toy_block 1)) (Some 1) = Inr (toy_block 1)"
  "checkedBlock (Some (toy_block 0)) (Some 0) = Inr (toy_block 0)"
  by (simp_all add: checkedBlock_def toy_block_def is_hash_opt_def)

lemma toy_header [simp]: "assertMatchingHeader b b = Inr ()"
  by (simp add: assertMatchingHeader_def)

lemma toy_block_fields [simp]: "block_hash (toy_block h) = one_hash" "block_root (toy_block h) = one_hash"
  "sb_parent (toy_block h) = one_hash" "sb_time (toy_block h) = JInt 1" "sb_txs (toy_block 1) = [one_hash]"
  "sb_number (toy_block h) = JInt h"
  by (simp_all add: block_hash_def block_root_def toy_block_def)

lemma toy_node_fields [simp]: "nd_chain toy_node = 1" "nd_head toy_node p = JInt 2" "nd_final toy_node p = Some (toy_block 1)"
  "nd_block toy_node p h = Some (toy_block h)" "nd_receipt toy_node k tx = Inr (Some toy_receipt)"
  "nd_blockReceipts toy_node = None" "nd_logs toy_node lo hi = []"
  by (simp_all add: toy_node_def)

lemma toy_option_fields [simp]: "so_source toy_options = ''0xs''" "so_chain toy_options = 1" "so_deploymentTx toy_options = one_hash"
  "so_confirmations toy_options = JInt 1" "so_checkpoint toy_options = None" "so_cutoff toy_options = None"
  "so_expectedHash toy_options = None" "so_maxBlocks toy_options = JInt 20000" "so_maxReceipts toy_options = JInt 200000"
  "so_chunk toy_options = JInt 100" "so_concurrency toy_options = JInt 6" "so_retries toy_options = JInt 3" "so_separateReader toy_options"
  by (simp_all add: toy_options_def default_options_def)

lemma toy_lib_fields [simp]: "sl_isAddress toy_lib s" "sl_getAddress toy_lib s = s" "sl_keccak toy_lib s = one_hash"
  "sl_digest toy_lib j = one_hash"
  by (simp_all add: toy_lib_def)

lemma toy_start: "source_start toy_lib toy_node toy_node toy_options = Inr toy_frame"
  by (simp add: source_start_def settings_ok_def ZeroAddress_def creation_ok_def toy_receipt_def toy_frame_def)

lemma toy_root: "computeReceiptsRoot toy_lib [(0, toy_receipt, [])] = Inr one_hash"
proof -
  have bloom: "is_bloom (sr_bloom toy_receipt)"
    by (simp add: is_bloom_def toy_receipt_def hex_digit_def list_all_iff)
  then obtain s where "encodedReceipt toy_lib toy_receipt [] = Inr s"
    by (simp add: encodedReceipt_def minimalInteger_def Let_def) (simp add: toy_receipt_def)
  then obtain i where i: "trie_item toy_lib (0, toy_receipt, []) = Inr i"
    by (simp add: trie_item_def minimalInteger_def)
  obtain node where "trieNode toy_lib (trie_fuel [i]) [i] = Some node"
    using trie_fuel_enough [of "[i]" toy_lib] by auto
  then show ?thesis by (simp add: computeReceiptsRoot_def i)
qed

lemma toy_tree: "\<exists>t. buildRoster toyE EVM_NAMESPACE [] = Inr t"
  by (simp add: buildRoster_iff [OF toyE_ok] max_safe_def)

lemma toy_fetched: "fetch_receipts toy_node 3 1 [one_hash] = Inr [Some toy_receipt]"
  by (simp add: fetch_receipts_def numeral_3_eq_3)

lemma toy_receipt_fields [simp]: "receipt_ok (toy_block 1) 1 one_hash 0 toy_receipt" "sr_logs toy_receipt = []"
  by (simp_all add: receipt_ok_def toy_receipt_def)

lemma toy_scan_block:
  assumes "sc_parent st = one_hash" "sc_time st = 1" "sc_scanned st = 0" "sc_states st = []"
  shows "\<exists>st'. scan_block toy_lib toy_node toy_node toy_options toy_frame 1 st = Inr st'
    \<and> sc_chunk st' = sc_chunk st \<and> sc_states st' = [] \<and> sc_cutoffs st' = sc_cutoffs st"
  using assms by (simp add: scan_block_def toy_frame_def toy_fetched toy_root Let_def)

lemma toy_scan: "\<exists>st. source_scan toy_lib toy_node toy_node toy_options toy_frame = Inr (toy_block 0, st) \<and> sc_states st = []"
proof -
  let ?st0 = "initial_scan toy_lib toy_options toy_frame None (toy_block 0)"
  have ranges: "chunk_ranges 1 1 100 = [(1, 1)]" by (simp add: chunk_ranges_def)
  obtain st where st: "scan_block toy_lib toy_node toy_node toy_options toy_frame 1 (?st0\<lparr>sc_chunk := []\<rparr>) = Inr st"
    "sc_chunk st = []" "sc_states st = []"
    using toy_scan_block [of "?st0\<lparr>sc_chunk := []\<rparr>"] by (auto simp: initial_scan_def)
  have "scan_chunks toy_lib toy_node toy_node toy_options toy_frame [(1, 1)] ?st0 = Inr st"
    by (simp add: scan_chunk_def st indexed_logs_def sort_by_def)
  then show ?thesis
    using st(3) by (simp add: source_scan_def ranges) (simp add: toy_frame_def ranges)
qed

lemma toy_recheck: "source_recheck toy_node toy_node toy_options toy_frame (toy_block 0) = Inr ()"
  by (simp add: source_recheck_def toy_frame_def final_ok_def)

lemma toy_snapshot: "\<exists>snap. buildSourceRoster toyE toy_lib toy_node toy_node toy_options = Inr snap"
proof -
  obtain st where st: "source_scan toy_lib toy_node toy_node toy_options toy_frame = Inr (toy_block 0, st)" "sc_states st = []"
    using toy_scan by blast
  obtain t where t: "buildRoster toyE EVM_NAMESPACE [] = Inr t" using toy_tree by blast
  have none: "roster_entries toy_lib c m [] = []" for c m
    by (simp add: roster_entries_def sorted_states_def sort_by_def List.map_filter_def)
  show ?thesis
    by (simp add: buildSourceRoster_def toy_start source_result_def st toy_recheck none t roster_result_def Let_def)
qed

theorem roster_is_current_history_witness:
  "\<exists>lists evs.
      mapE (\<lambda>(lo, hi). indexed_logs toy_lib toy_node
          (sm_source (ss_manifest (projr (buildSourceRoster toyE toy_lib toy_node toy_node toy_options)))) lo hi)
        (chunk_ranges (sm_deploymentBlock (ss_manifest (projr (buildSourceRoster toyE toy_lib toy_node toy_node toy_options))))
          (sm_cutoffBlock (ss_manifest (projr (buildSourceRoster toyE toy_lib toy_node toy_node toy_options)))) 100) = Inr lists
    \<and> undated evs = concat (map (lifecycle_of toy_lib) (concat lists))"
proof -
  obtain snap where snap: "buildSourceRoster toyE toy_lib toy_node toy_node toy_options = Inr snap"
    using toy_snapshot by blast
  have "so_checkpoint toy_options = None" by simp
  from roster_is_current_history [OF snap this] show ?thesis
    unfolding snap sum.sel by auto
qed

end
