(* ===== verification/Retention.thy ===== *)
theory Retention
  imports Identity
begin

text \<open>
  Retention policies, \<open>pipeline/retention-policy.ts\<close>: the validation of a customer's policy, its
  fingerprint and binding, the schedule of deadlines derived for one outcome, and the gate that
  accepts the completion of a retention. Enumerations stay the strings of the source because the
  validation starts from unchecked input; \<open>null\<close> and an absent property are \<open>None\<close>. SHA-256 is
  an argument.
\<close>

subsection \<open>Data\<close>

definition RETENTION_LAYERS :: "string list" where
  "RETENTION_LAYERS = [''evidence-vault'', ''issuance-journal'', ''revocation-outbox'', ''backup'',
     ''vendor'', ''operational-log'', ''client-copy'', ''onchain'']"

definition OUTCOMES :: "string list" where
  "OUTCOMES = [''issued'', ''review'', ''denied'', ''error'']"

definition TRIGGERS :: "string list" where
  "TRIGGERS = [''collected-at'', ''decision-at'', ''terminal-at'']"

definition DISPOSITIONS :: "string list" where
  "DISPOSITIONS = [''unchanged'', ''source-revoked'', ''not-issued'']"

definition ACTIONS :: "string list" where
  "ACTIONS = [''delete'', ''expire'', ''external-delete'', ''retain-minimized'', ''client-controlled'', ''irreversible'']"

definition DAY_MS :: int where
  "DAY_MS = 86400000"

record layer_rule =
  lr_layer :: string
  lr_action :: string
  lr_trigger :: "string option"
  lr_days :: "js_num option"
  lr_ref :: string

record retention_rule =
  ru_outcome :: string
  ru_trigger :: string
  ru_disposition :: string
  ru_layers :: "layer_rule list"

record retention_policy =
  rp_schema :: string
  rp_policyId :: string
  rp_customerId :: string
  rp_jurisdiction :: string
  rp_status :: string
  rp_approvalRef :: "string option"
  rp_legalReviewRef :: "string option"
  rp_clockRef :: string
  rp_holdRef :: string
  rp_rules :: "retention_rule list"

datatype retention_code = RETENTION_POLICY_INVALID | RETENTION_POLICY_CHANGED | RETENTION_COMPLETION_INCOMPLETE

datatype retention_error = Retention_Error retention_code string | Other_Error string

subsection \<open>Validation\<close>

definition identifierE :: "string \<Rightarrow> string \<Rightarrow> string + unit" where
  "identifierE v fld = requireE (fld @ '' must be an opaque identifier'') (IDENTIFIER v)"

definition referenceE :: "string \<Rightarrow> string \<Rightarrow> string + unit" where
  "referenceE v fld = requireE (fld @ '' must be an opaque evidence reference'') (REFERENCE v)"

definition timestampE :: "js_num \<Rightarrow> string \<Rightarrow> string + unit" where
  "timestampE t fld = requireE (fld @ '' must be a Unix-millisecond timestamp'') (js_safe t \<and> 0 \<le> js_val t)"

text \<open>The pattern \<open>/^(?:[A-Z]{2}|GLOBAL)$/\<close>.\<close>

definition upper_letter :: "char \<Rightarrow> bool" where
  "upper_letter c = (let n = (of_char c :: nat) in 65 \<le> n \<and> n \<le> 90)"

definition JURISDICTION :: "string \<Rightarrow> bool" where
  "JURISDICTION s \<longleftrightarrow> (length s = 2 \<and> list_all upper_letter s) \<or> s = ''GLOBAL''"

definition residual :: "string \<Rightarrow> bool" where
  "residual l \<longleftrightarrow> l = ''client-copy'' \<or> l = ''onchain''"

definition layer_trigger :: "retention_rule \<Rightarrow> layer_rule \<Rightarrow> string" where
  "layer_trigger r l = (case lr_trigger l of Some t \<Rightarrow> t | None \<Rightarrow> ru_trigger r)"

definition check_layer :: "nat \<Rightarrow> retention_rule \<Rightarrow> string list \<Rightarrow> layer_rule \<Rightarrow> string + layer_rule" where
  "check_layer i r seen l =
     bindE (requireE (''rules['' @ decimal (int i) @ ''].layers['' @ decimal (int (length seen)) @ ''] is unsupported'')
       (lr_layer l \<in> set RETENTION_LAYERS)) (\<lambda>_.
     bindE (requireE ''retention rule contains a duplicate layer'' (lr_layer l \<notin> set seen)) (\<lambda>_.
     bindE (requireE (''retention action for '' @ lr_layer l @ '' is unsupported'') (lr_action l \<in> set ACTIONS)) (\<lambda>_.
     bindE (requireE (''retention trigger for '' @ lr_layer l @ '' is unsupported'') (layer_trigger r l \<in> set TRIGGERS)) (\<lambda>_.
     bindE (requireE (lr_layer l @ '' has an invalid deadline shape'') (residual (lr_layer l) \<longleftrightarrow> lr_days l = None)) (\<lambda>_.
     bindE (requireE (lr_layer l @ '' durationDays must be a bounded non-negative integer'') (case lr_days l of None \<Rightarrow> True
       | Some d \<Rightarrow> js_safe d \<and> 0 \<le> js_val d \<and> js_val d \<le> 36500)) (\<lambda>_.
     bindE (requireE ''client copies must be identified as client-controlled''
       (lr_layer l = ''client-copy'' \<longrightarrow> lr_action l = ''client-controlled'')) (\<lambda>_.
     bindE (requireE ''onchain effects must be identified as irreversible''
       (lr_layer l = ''onchain'' \<longrightarrow> lr_action l = ''irreversible'')) (\<lambda>_.
     bindE (requireE ''vendor records require an external deletion action''
       (lr_layer l = ''vendor'' \<longrightarrow> lr_action l = ''external-delete'')) (\<lambda>_.
     bindE (requireE ''the evidence vault requires a deletion action''
       (lr_layer l = ''evidence-vault'' \<longrightarrow> lr_action l = ''delete'')) (\<lambda>_.
     bindE (requireE ''issuance journal currently supports only terminal-at plus one-day expiry''
       (lr_layer l = ''issuance-journal'' \<longrightarrow> lr_action l = ''expire'' \<and> layer_trigger r l = ''terminal-at''
         \<and> lr_days l = Some (JInt 1))) (\<lambda>_.
     bindE (referenceE (lr_ref l) (''retentionRef for '' @ lr_layer l)) (\<lambda>_.
     Inr (l\<lparr>lr_trigger := Some (layer_trigger r l)\<rparr>)))))))))))))"

fun check_layers :: "nat \<Rightarrow> retention_rule \<Rightarrow> string list \<Rightarrow> layer_rule list \<Rightarrow> string + layer_rule list" where
  "check_layers i r seen [] = Inr []"
| "check_layers i r seen (l # ls) = bindE (check_layer i r seen l) (\<lambda>l'.
     bindE (check_layers i r (lr_layer l # seen) ls) (\<lambda>ls'. Inr (l' # ls')))"

definition check_rule :: "string list \<Rightarrow> retention_rule \<Rightarrow> string + retention_rule" where
  "check_rule seen r = (let i = length seen; at = ''rules['' @ decimal (int i) in
     bindE (requireE (at @ ''].outcome is unsupported'') (ru_outcome r \<in> set OUTCOMES)) (\<lambda>_.
     bindE (requireE ''retention policy contains a duplicate outcome'' (ru_outcome r \<notin> set seen)) (\<lambda>_.
     bindE (requireE (at @ ''].trigger is unsupported'') (ru_trigger r \<in> set TRIGGERS \<and> ru_trigger r \<noteq> ''terminal-at'')) (\<lambda>_.
     bindE (requireE (at @ ''].credentialDisposition is unsupported'') (ru_disposition r \<in> set DISPOSITIONS)) (\<lambda>_.
     bindE (requireE ''issued records cannot use the not-issued disposition''
       (ru_outcome r = ''issued'' \<longrightarrow> ru_disposition r \<noteq> ''not-issued'')) (\<lambda>_.
     bindE (requireE ''non-issued outcomes cannot claim source revocation''
       (ru_outcome r \<noteq> ''issued'' \<longrightarrow> ru_disposition r \<noteq> ''source-revoked'')) (\<lambda>_.
     bindE (requireE ''each outcome must cover every storage/effect layer''
       (length (ru_layers r) = length RETENTION_LAYERS)) (\<lambda>_.
     bindE (check_layers i r [] (ru_layers r)) (\<lambda>ls. Inr (r\<lparr>ru_layers := ls\<rparr>))))))))))"

fun check_rules :: "string list \<Rightarrow> retention_rule list \<Rightarrow> string + retention_rule list" where
  "check_rules seen [] = Inr []"
| "check_rules seen (r # rs) = bindE (check_rule seen r) (\<lambda>r'.
     bindE (check_rules (ru_outcome r # seen) rs) (\<lambda>rs'. Inr (r' # rs')))"

definition optional_reference :: "string option \<Rightarrow> string \<Rightarrow> string + unit" where
  "optional_reference v fld = (case v of None \<Rightarrow> Inr () | Some s \<Rightarrow> referenceE s fld)"

definition validate_policy :: "retention_policy \<Rightarrow> string + retention_policy" where
  "validate_policy p =
     bindE (requireE ''unsupported retention policy schema'' (rp_schema p = ''proofmark-retention-policy-v1'')) (\<lambda>_.
     bindE (identifierE (rp_policyId p) ''retention policyId'') (\<lambda>_.
     bindE (identifierE (rp_customerId p) ''retention customerId'') (\<lambda>_.
     bindE (requireE ''retention jurisdiction must be ISO alpha-2 or GLOBAL'' (JURISDICTION (rp_jurisdiction p))) (\<lambda>_.
     bindE (requireE ''retention policy status must be synthetic or approved'' (rp_status p \<in> {''synthetic'', ''approved''})) (\<lambda>_.
     bindE (optional_reference (rp_approvalRef p) ''retention approvalRef'') (\<lambda>_.
     bindE (optional_reference (rp_legalReviewRef p) ''retention legalReviewRef'') (\<lambda>_.
     bindE (requireE ''approved retention policy requires approval and legal review references''
       (rp_status p = ''approved'' \<longrightarrow> rp_approvalRef p \<noteq> None \<and> rp_legalReviewRef p \<noteq> None)) (\<lambda>_.
     bindE (requireE ''synthetic retention policy cannot claim approval or legal review''
       (rp_status p = ''synthetic'' \<longrightarrow> rp_approvalRef p = None \<and> rp_legalReviewRef p = None)) (\<lambda>_.
     bindE (referenceE (rp_clockRef p) ''retention clockRef'') (\<lambda>_.
     bindE (referenceE (rp_holdRef p) ''retention holdAuthorityRef'') (\<lambda>_.
     bindE (requireE ''retention policy requires one rule for every outcome'' (length (rp_rules p) = length OUTCOMES)) (\<lambda>_.
     bindE (check_rules [] (rp_rules p)) (\<lambda>rs.
     bindE (requireE ''retention policy omits an outcome'' (length (remdups (map ru_outcome rs)) = length OUTCOMES)) (\<lambda>_.
     Inr (p\<lparr>rp_rules := rs\<rparr>)))))))))))))))"

definition defineRetentionPolicy :: "retention_policy \<Rightarrow> retention_error + retention_policy" where
  "defineRetentionPolicy p = (case validate_policy p of
     Inl e \<Rightarrow> Inl (Retention_Error RETENTION_POLICY_INVALID e) | Inr q \<Rightarrow> Inr q)"

subsection \<open>Fingerprint and binding\<close>

definition optional_json :: "string option \<Rightarrow> json" where
  "optional_json v = (case v of None \<Rightarrow> JsNull | Some s \<Rightarrow> JsStr s)"

definition layer_json :: "layer_rule \<Rightarrow> json" where
  "layer_json l = JsObj [(''layer'', JsStr (lr_layer l)), (''action'', JsStr (lr_action l)),
     (''trigger'', case lr_trigger l of None \<Rightarrow> JsUndefined | Some t \<Rightarrow> JsStr t),
     (''durationDays'', case lr_days l of None \<Rightarrow> JsNull | Some d \<Rightarrow> JsInt (js_val d)), (''retentionRef'', JsStr (lr_ref l))]"

definition rule_json :: "retention_rule \<Rightarrow> json" where
  "rule_json r = JsObj [(''outcome'', JsStr (ru_outcome r)), (''trigger'', JsStr (ru_trigger r)),
     (''credentialDisposition'', JsStr (ru_disposition r)), (''layers'', JsArr (map layer_json (ru_layers r)))]"

definition policy_json :: "retention_policy \<Rightarrow> json" where
  "policy_json p = JsObj [(''schema'', JsStr (rp_schema p)), (''policyId'', JsStr (rp_policyId p)),
     (''customerId'', JsStr (rp_customerId p)), (''jurisdiction'', JsStr (rp_jurisdiction p)), (''status'', JsStr (rp_status p)),
     (''approvalRef'', optional_json (rp_approvalRef p)), (''legalReviewRef'', optional_json (rp_legalReviewRef p)),
     (''clockRef'', JsStr (rp_clockRef p)), (''holdAuthorityRef'', JsStr (rp_holdRef p)),
     (''rules'', JsArr (map rule_json (rp_rules p)))]"

definition plain_error :: "string + 'a \<Rightarrow> retention_error + 'a" where
  "plain_error m = (case m of Inl e \<Rightarrow> Inl (Other_Error e) | Inr x \<Rightarrow> Inr x)"

definition retentionPolicyFingerprint :: "(string \<Rightarrow> string) \<Rightarrow> retention_policy \<Rightarrow> retention_error + string" where
  "retentionPolicyFingerprint sha p = bindE (defineRetentionPolicy p) (\<lambda>q.
     bindE (plain_error (canonicalJson (policy_json q))) (\<lambda>t. Inr (sha (''proofmark-retention-policy-v1|'' @ t))))"

record retention_binding =
  rb_schema :: string
  rb_policyId :: string
  rb_customerId :: string
  rb_jurisdiction :: string
  rb_fingerprint :: string

definition retentionPolicyBinding :: "(string \<Rightarrow> string) \<Rightarrow> retention_policy \<Rightarrow> retention_error + retention_binding" where
  "retentionPolicyBinding sha p = bindE (defineRetentionPolicy p) (\<lambda>q.
     bindE (retentionPolicyFingerprint sha q) (\<lambda>fp.
     Inr \<lparr>rb_schema = ''proofmark-retention-policy-binding-v1'', rb_policyId = rp_policyId q,
       rb_customerId = rp_customerId q, rb_jurisdiction = rp_jurisdiction q, rb_fingerprint = fp\<rparr>))"

definition assertRetentionBinding :: "(string \<Rightarrow> string) \<Rightarrow> retention_policy \<Rightarrow> retention_binding option \<Rightarrow> retention_error + unit" where
  "assertRetentionBinding sha p b = bindE (retentionPolicyBinding sha p) (\<lambda>expected.
     requireE (Retention_Error RETENTION_POLICY_CHANGED ''retention policy changed after wallet consent; start a new flow'')
       (b = Some expected))"

subsection \<open>Deadlines\<close>

record retention_context =
  cx_customerId :: string
  cx_jurisdiction :: string
  cx_outcome :: string
  cx_collectedAt :: js_num
  cx_decisionAt :: js_num
  cx_terminalAt :: "js_num option"

record derived_layer =
  dl_layer :: string
  dl_action :: string
  dl_trigger :: string
  dl_deleteAt :: "int option"
  dl_ref :: string

record retention_schedule =
  sd_policyId :: string
  sd_customerId :: string
  sd_jurisdiction :: string
  sd_fingerprint :: string
  sd_outcome :: string
  sd_trigger :: string
  sd_triggerAt :: int
  sd_disposition :: string
  sd_layers :: "derived_layer list"

definition trigger_at :: "retention_context \<Rightarrow> string \<Rightarrow> int option" where
  "trigger_at c t = (if t = ''collected-at'' then Some (js_val (cx_collectedAt c))
     else if t = ''decision-at'' then Some (js_val (cx_decisionAt c)) else map_option js_val (cx_terminalAt c))"

definition delete_at :: "retention_context \<Rightarrow> retention_rule \<Rightarrow> layer_rule \<Rightarrow> int option" where
  "delete_at c r l = (case lr_days l of None \<Rightarrow> None
     | Some d \<Rightarrow> map_option (\<lambda>t. t + js_val d * DAY_MS) (trigger_at c (layer_trigger r l)))"

definition derive_layer :: "retention_context \<Rightarrow> retention_rule \<Rightarrow> layer_rule \<Rightarrow> retention_error + derived_layer" where
  "derive_layer c r l =
     bindE (requireE (Retention_Error RETENTION_POLICY_INVALID ''retention deadline is out of range'')
       (case delete_at c r l of None \<Rightarrow> True | Some t \<Rightarrow> is_safe t)) (\<lambda>_.
     Inr \<lparr>dl_layer = lr_layer l, dl_action = lr_action l, dl_trigger = layer_trigger r l,
       dl_deleteAt = delete_at c r l, dl_ref = lr_ref l\<rparr>)"

definition deriveRetentionSchedule :: "(string \<Rightarrow> string) \<Rightarrow> retention_policy \<Rightarrow> retention_context \<Rightarrow> retention_error + retention_schedule" where
  "deriveRetentionSchedule sha input c =
     bindE (defineRetentionPolicy input) (\<lambda>p.
     bindE (plain_error (timestampE (cx_collectedAt c) ''collectedAt'')) (\<lambda>_.
     bindE (plain_error (timestampE (cx_decisionAt c) ''decisionAt'')) (\<lambda>_.
     bindE (plain_error (case cx_terminalAt c of None \<Rightarrow> Inr () | Some t \<Rightarrow> timestampE t ''terminalAt'')) (\<lambda>_.
     bindE (requireE (Retention_Error RETENTION_POLICY_INVALID ''decisionAt precedes collection'')
       (js_val (cx_collectedAt c) \<le> js_val (cx_decisionAt c))) (\<lambda>_.
     bindE (requireE (Retention_Error RETENTION_POLICY_CHANGED ''retention customer or jurisdiction does not match the approved policy'')
       (cx_customerId c = rp_customerId p \<and> cx_jurisdiction c = rp_jurisdiction p)) (\<lambda>_.
     case List.find (\<lambda>r. ru_outcome r = cx_outcome c) (rp_rules p) of
       None \<Rightarrow> Inl (Retention_Error RETENTION_POLICY_INVALID ''retention outcome is not covered'')
     | Some r \<Rightarrow>
         bindE (mapE (derive_layer c r) (ru_layers r)) (\<lambda>ls.
         bindE (retentionPolicyFingerprint sha p) (\<lambda>fp.
         Inr \<lparr>sd_policyId = rp_policyId p, sd_customerId = rp_customerId p, sd_jurisdiction = rp_jurisdiction p,
           sd_fingerprint = fp, sd_outcome = cx_outcome c, sd_trigger = ru_trigger r,
           sd_triggerAt = (if ru_trigger r = ''collected-at'' then js_val (cx_collectedAt c) else js_val (cx_decisionAt c)),
           sd_disposition = ru_disposition r, sd_layers = ls\<rparr>))))))))"

record retention_evidence =
  rv_binding :: retention_binding
  rv_outcome :: string
  rv_trigger :: string
  rv_triggerAt :: int
  rv_vaultDeleteAt :: int
  rv_disposition :: string
  rv_approvalRef :: "string option"
  rv_legalReviewRef :: "string option"
  rv_clockRef :: string
  rv_holdRef :: string

definition retentionPolicyEvidence :: "(string \<Rightarrow> string) \<Rightarrow> retention_policy \<Rightarrow> retention_context \<Rightarrow> retention_error + retention_evidence" where
  "retentionPolicyEvidence sha input c =
     bindE (defineRetentionPolicy input) (\<lambda>p.
     bindE (retentionPolicyBinding sha p) (\<lambda>b.
     bindE (deriveRetentionSchedule sha p c) (\<lambda>s.
     case List.find (\<lambda>l. dl_layer l = ''evidence-vault'') (sd_layers s) of
       None \<Rightarrow> Inl (Retention_Error RETENTION_POLICY_INVALID ''vault deletion deadline is missing'')
     | Some v \<Rightarrow> (case dl_deleteAt v of
         None \<Rightarrow> Inl (Retention_Error RETENTION_POLICY_INVALID ''vault deletion deadline is missing'')
       | Some t \<Rightarrow> Inr \<lparr>rv_binding = b\<lparr>rb_schema := ''proofmark-retention-policy-evidence-v1''\<rparr>, rv_outcome = sd_outcome s,
           rv_trigger = sd_trigger s, rv_triggerAt = sd_triggerAt s, rv_vaultDeleteAt = t, rv_disposition = sd_disposition s,
           rv_approvalRef = rp_approvalRef p, rv_legalReviewRef = rp_legalReviewRef p, rv_clockRef = rp_clockRef p,
           rv_holdRef = rp_holdRef p\<rparr>))))"

subsection \<open>Completion\<close>

record credential_observation =
  co_disposition :: string
  co_sourceRevoked :: bool
  co_hubEnforced :: bool
  co_neverIssued :: bool
  co_maintained :: bool

record layer_observation =
  lo_layer :: string
  lo_status :: string
  lo_evidenceRef :: string

record completion_observation =
  ob_fingerprint :: string
  ob_checkedAt :: js_num
  ob_activeHolds :: "string list"
  ob_credential :: credential_observation
  ob_layers :: "layer_observation list"

definition blocker :: "string \<Rightarrow> bool \<Rightarrow> string list" where
  "blocker code bad = (if bad then [code] else [])"

definition credential_blockers :: "retention_schedule \<Rightarrow> credential_observation \<Rightarrow> string list" where
  "credential_blockers s c =
     blocker ''CREDENTIAL_DISPOSITION_CHANGED'' (co_disposition c \<noteq> sd_disposition s)
     @ blocker ''CREDENTIAL_REVOCATION_NOT_ENFORCED''
         (sd_disposition s = ''source-revoked'' \<and> (\<not> co_sourceRevoked c \<or> \<not> co_hubEnforced c))
     @ blocker ''CREDENTIAL_ISSUANCE_NOT_EXCLUDED'' (sd_disposition s = ''not-issued'' \<and> \<not> co_neverIssued c)
     @ blocker ''CREDENTIAL_MAINTENANCE_NOT_CONFIRMED'' (sd_disposition s = ''unchanged'' \<and> \<not> co_maintained c)"

text \<open>\<open>new Map(...)\<close>: the last observation of a layer wins.\<close>

definition by_layer :: "layer_observation list \<Rightarrow> string \<Rightarrow> layer_observation option" where
  "by_layer obs l = List.find (\<lambda>x. lo_layer x = l) (rev obs)"

text \<open>
  \<open>observation.checkedAt >= layer.deleteAt\<close>: a number that is not an integer is read as 0 here,
  and \<open>INVALID_CLOCK\<close> has then been reported already.
\<close>

definition layer_blockers :: "completion_observation \<Rightarrow> derived_layer \<Rightarrow> string list" where
  "layer_blockers obs l = (let name = dl_layer l; act = dl_action l in
     if act \<noteq> ''client-controlled'' \<and> act \<noteq> ''irreversible'' \<and> dl_deleteAt l = None then [name @ '':TRIGGER_MISSING'']
     else case by_layer (ob_layers obs) name of
       None \<Rightarrow> [name @ '':EVIDENCE_MISSING'']
     | Some seen \<Rightarrow>
         if \<not> REFERENCE (lo_evidenceRef seen) then [name @ '':EVIDENCE_MISSING'']
         else if act = ''client-controlled'' then blocker (name @ '':CONTROL_NOT_DISCLOSED'') (lo_status seen \<noteq> ''client-controlled'')
         else if act = ''irreversible'' then blocker (name @ '':RESIDUAL_NOT_DISCLOSED'') (lo_status seen \<noteq> ''irreversible-residual'')
         else if (case dl_deleteAt l of None \<Rightarrow> False | Some t \<Rightarrow> t \<le> js_val (ob_checkedAt obs))
         then blocker (name @ '':DELETION_NOT_CONFIRMED'') (lo_status seen \<noteq> ''deleted'')
         else if act = ''retain-minimized'' then blocker (name @ '':MINIMIZATION_NOT_CONFIRMED'') (lo_status seen \<noteq> ''retained-minimized'')
         else blocker (name @ '':EARLY_DELETION_NOT_CONFIRMED'') (lo_status seen \<noteq> ''deleted''))"

definition completion_blockers :: "retention_schedule \<Rightarrow> completion_observation \<Rightarrow> string list" where
  "completion_blockers s obs =
     blocker ''INVALID_CLOCK'' (\<not> (js_safe (ob_checkedAt obs) \<and> 0 \<le> js_val (ob_checkedAt obs)))
     @ blocker ''POLICY_CHANGED'' (ob_fingerprint obs \<noteq> sd_fingerprint s)
     @ blocker ''ACTIVE_HOLD'' (ob_activeHolds obs \<noteq> [])
     @ credential_blockers s (ob_credential obs)
     @ blocker ''DUPLICATE_LAYER_OBSERVATION'' (\<not> distinct (map lo_layer (ob_layers obs)))
     @ concat (map (layer_blockers obs) (sd_layers s))
     @ concat (map (\<lambda>l. blocker ''UNKNOWN_LAYER_OBSERVATION'' (l \<notin> set RETENTION_LAYERS))
         (rev (remdups (rev (map lo_layer (ob_layers obs))))))"

definition assertRetentionCompletion :: "retention_schedule \<Rightarrow> completion_observation \<Rightarrow> retention_error + unit" where
  "assertRetentionCompletion s obs = (let bs = completion_blockers s obs in
     requireE (Retention_Error RETENTION_COMPLETION_INCOMPLETE
       (''RETENTION_COMPLETION_INCOMPLETE:'' @ joined (rev (remdups (rev bs))))) (bs = []))"

subsection \<open>The consent statement and the synthetic policy\<close>

definition rule_summary :: "retention_rule \<Rightarrow> string" where
  "rule_summary r = ru_outcome r @ '':'' @ ru_trigger r @ ''+''
     @ (case List.find (\<lambda>l. lr_layer l = ''evidence-vault'') (ru_layers r) of None \<Rightarrow> ''missing''
        | Some l \<Rightarrow> (case lr_days l of None \<Rightarrow> ''missing'' | Some d \<Rightarrow> decimal (js_val d)))
     @ ''d/'' @ ru_disposition r"

definition retentionConsentStatement :: "retention_policy \<Rightarrow> retention_error + string" where
  "retentionConsentStatement input = bindE (defineRetentionPolicy input) (\<lambda>p.
     Inr (''Proofmark retention policy '' @ rp_policyId p @ ''; customer '' @ rp_customerId p @ ''; jurisdiction ''
       @ rp_jurisdiction p @ ''; '' @ joined (map rule_summary (rp_rules p)) @ ''; holds '' @ rp_holdRef p
       @ ''; client copies remain client-controlled and public-chain data is irreversible.''))"

definition syntheticLayers :: "int \<Rightarrow> layer_rule list" where
  "syntheticLayers d = [
     \<lparr>lr_layer = ''evidence-vault'', lr_action = ''delete'', lr_trigger = None, lr_days = Some (JInt d),
       lr_ref = ''retention:synthetic-vault:'' @ decimal d @ ''d''\<rparr>,
     \<lparr>lr_layer = ''issuance-journal'', lr_action = ''expire'', lr_trigger = Some ''terminal-at'', lr_days = Some (JInt 1),
       lr_ref = ''retention:synthetic-journal:1d''\<rparr>,
     \<lparr>lr_layer = ''revocation-outbox'', lr_action = ''retain-minimized'', lr_trigger = None, lr_days = Some (JInt 30),
       lr_ref = ''retention:synthetic-outbox:30d''\<rparr>,
     \<lparr>lr_layer = ''backup'', lr_action = ''expire'', lr_trigger = None, lr_days = Some (JInt d),
       lr_ref = ''retention:synthetic-backup:'' @ decimal d @ ''d''\<rparr>,
     \<lparr>lr_layer = ''vendor'', lr_action = ''external-delete'', lr_trigger = None, lr_days = Some (JInt 0),
       lr_ref = ''retention:synthetic-demo-vendor:0d''\<rparr>,
     \<lparr>lr_layer = ''operational-log'', lr_action = ''retain-minimized'', lr_trigger = None, lr_days = Some (JInt 7),
       lr_ref = ''retention:synthetic-log:7d''\<rparr>,
     \<lparr>lr_layer = ''client-copy'', lr_action = ''client-controlled'', lr_trigger = None, lr_days = None,
       lr_ref = ''retention:synthetic-client-control''\<rparr>,
     \<lparr>lr_layer = ''onchain'', lr_action = ''irreversible'', lr_trigger = None, lr_days = None,
       lr_ref = ''retention:synthetic-onchain''\<rparr>]"

definition synthetic_rule :: "string \<Rightarrow> string \<Rightarrow> int \<Rightarrow> retention_rule" where
  "synthetic_rule outcome disposition d = \<lparr>ru_outcome = outcome, ru_trigger = ''decision-at'',
     ru_disposition = disposition, ru_layers = syntheticLayers d\<rparr>"

definition SYNTHETIC_INPUT :: retention_policy where
  "SYNTHETIC_INPUT = \<lparr>rp_schema = ''proofmark-retention-policy-v1'', rp_policyId = ''proofmark-synthetic-retention-v1'',
     rp_customerId = ''synthetic-demo-only'', rp_jurisdiction = ''KR'', rp_status = ''synthetic'',
     rp_approvalRef = None, rp_legalReviewRef = None, rp_clockRef = ''clock:synthetic-process-time'',
     rp_holdRef = ''authority:synthetic-test-only'',
     rp_rules = [synthetic_rule ''issued'' ''unchanged'' 30, synthetic_rule ''review'' ''not-issued'' 30,
       synthetic_rule ''denied'' ''not-issued'' 30, synthetic_rule ''error'' ''not-issued'' 7]\<rparr>"

end
