(* ===== verification/Retention_Props.thy ===== *)
theory Retention_Props
  imports Retention
begin

text \<open>
  What a validated retention policy contains, that validation is idempotent, and what an accepted
  completion guarantees: every layer of the rule for the outcome was observed exactly once, in the
  state that its action and its deadline require.
\<close>

subsection \<open>What validation guarantees\<close>

definition layer_ok :: "retention_rule \<Rightarrow> layer_rule \<Rightarrow> bool" where
  "layer_ok r l \<longleftrightarrow> lr_layer l \<in> set RETENTION_LAYERS \<and> lr_action l \<in> set ACTIONS \<and> layer_trigger r l \<in> set TRIGGERS
     \<and> (residual (lr_layer l) \<longleftrightarrow> lr_days l = None)
     \<and> (case lr_days l of None \<Rightarrow> True | Some d \<Rightarrow> js_safe d \<and> 0 \<le> js_val d \<and> js_val d \<le> 36500)
     \<and> (lr_layer l = ''client-copy'' \<longrightarrow> lr_action l = ''client-controlled'')
     \<and> (lr_layer l = ''onchain'' \<longrightarrow> lr_action l = ''irreversible'')
     \<and> (lr_layer l = ''vendor'' \<longrightarrow> lr_action l = ''external-delete'')
     \<and> (lr_layer l = ''evidence-vault'' \<longrightarrow> lr_action l = ''delete'')
     \<and> (lr_layer l = ''issuance-journal'' \<longrightarrow> lr_action l = ''expire'' \<and> layer_trigger r l = ''terminal-at'' \<and> lr_days l = Some (JInt 1))
     \<and> REFERENCE (lr_ref l)"

definition with_trigger :: "retention_rule \<Rightarrow> layer_rule \<Rightarrow> layer_rule" where
  "with_trigger r l = l\<lparr>lr_trigger := Some (layer_trigger r l)\<rparr>"

lemma with_trigger_simps [simp]: "lr_layer (with_trigger r l) = lr_layer l" "lr_action (with_trigger r l) = lr_action l"
  "lr_days (with_trigger r l) = lr_days l" "lr_ref (with_trigger r l) = lr_ref l"
  "layer_trigger r' (with_trigger r l) = layer_trigger r l"
  by (simp_all add: with_trigger_def layer_trigger_def)

lemma with_trigger_idem [simp]: "with_trigger r' (with_trigger r l) = with_trigger r l"
  by (simp add: with_trigger_def layer_trigger_def)

lemma bindE_requireE: "bindE (requireE e ok) k = Inr y \<longleftrightarrow> ok \<and> k () = Inr y"
  by (cases ok) simp_all

lemma check_layer_iff:
  "check_layer i r seen l = Inr l' \<longleftrightarrow> layer_ok r l \<and> lr_layer l \<notin> set seen \<and> l' = with_trigger r l"
  unfolding check_layer_def layer_ok_def with_trigger_def bindE_requireE referenceE_def sum.inject by blast

lemma check_layers_iff:
  "check_layers i r seen ls = Inr ls' \<longleftrightarrow> list_all (layer_ok r) ls \<and> distinct (map lr_layer ls)
     \<and> set (map lr_layer ls) \<inter> set seen = {} \<and> ls' = map (with_trigger r) ls"
  by (induction ls arbitrary: seen ls') (auto simp: bindE_Inr_iff check_layer_iff)

definition rule_ok :: "retention_rule \<Rightarrow> bool" where
  "rule_ok r \<longleftrightarrow> ru_outcome r \<in> set OUTCOMES \<and> ru_trigger r \<in> set TRIGGERS \<and> ru_trigger r \<noteq> ''terminal-at''
     \<and> ru_disposition r \<in> set DISPOSITIONS \<and> (ru_outcome r = ''issued'' \<longrightarrow> ru_disposition r \<noteq> ''not-issued'')
     \<and> (ru_outcome r \<noteq> ''issued'' \<longrightarrow> ru_disposition r \<noteq> ''source-revoked'')
     \<and> length (ru_layers r) = length RETENTION_LAYERS \<and> list_all (layer_ok r) (ru_layers r) \<and> distinct (map lr_layer (ru_layers r))"

definition with_triggers :: "retention_rule \<Rightarrow> retention_rule" where
  "with_triggers r = r\<lparr>ru_layers := map (with_trigger r) (ru_layers r)\<rparr>"

lemma with_triggers_simps [simp]: "ru_outcome (with_triggers r) = ru_outcome r" "ru_trigger (with_triggers r) = ru_trigger r"
  "ru_disposition (with_triggers r) = ru_disposition r" "ru_layers (with_triggers r) = map (with_trigger r) (ru_layers r)"
  "layer_trigger (with_triggers r) l = layer_trigger r l" "with_triggers (with_triggers r) = with_triggers r"
  by (simp_all add: with_triggers_def layer_trigger_def comp_def cong: option.case_cong)

lemma check_rule_iff:
  "check_rule seen r = Inr r' \<longleftrightarrow> rule_ok r \<and> ru_outcome r \<notin> set seen \<and> r' = with_triggers r"
  unfolding check_rule_def rule_ok_def Let_def bindE_requireE
  by (auto simp: bindE_Inr_iff check_layers_iff with_triggers_def)

lemma check_rules_iff:
  "check_rules seen rs = Inr rs' \<longleftrightarrow> list_all rule_ok rs \<and> distinct (map ru_outcome rs)
     \<and> set (map ru_outcome rs) \<inter> set seen = {} \<and> rs' = map with_triggers rs"
  by (induction rs arbitrary: seen rs') (auto simp: bindE_Inr_iff check_rule_iff)

lemma rule_ok_triggers [simp]: "rule_ok r \<Longrightarrow> rule_ok (with_triggers r)"
  by (auto simp: rule_ok_def list_all_iff layer_ok_def comp_def)

definition policy_ok :: "retention_policy \<Rightarrow> bool" where
  "policy_ok p \<longleftrightarrow> list_all rule_ok (rp_rules p) \<and> distinct (map ru_outcome (rp_rules p)) \<and> length (rp_rules p) = length OUTCOMES"

definition with_all_triggers :: "retention_policy \<Rightarrow> retention_policy" where
  "with_all_triggers p = p\<lparr>rp_rules := map with_triggers (rp_rules p)\<rparr>"

lemma define_shape: "defineRetentionPolicy p = Inr q \<Longrightarrow> policy_ok p \<and> q = with_all_triggers p"
  unfolding defineRetentionPolicy_def validate_policy_def policy_ok_def with_all_triggers_def identifierE_def
  by (auto elim!: bindE_Inr_cases simp: check_rules_iff split: sum.splits)

lemma define_idem:
  assumes "defineRetentionPolicy p = Inr q"
  shows "defineRetentionPolicy q = Inr q"
proof -
  have "validate_policy p = Inr q" using assms by (simp add: defineRetentionPolicy_def split: sum.splits)
  moreover have q: "q = with_all_triggers p" and ok: "policy_ok p" using define_shape [OF assms] by auto
  moreover have "check_rules [] (rp_rules q) = Inr (rp_rules q)"
    using ok q by (simp add: check_rules_iff with_all_triggers_def policy_ok_def list_all_iff comp_def)
  moreover have "length (remdups (map ru_outcome (rp_rules p))) = length OUTCOMES"
    using ok by (simp add: policy_ok_def distinct_remdups_id)
  ultimately have "validate_policy q = Inr q"
    unfolding validate_policy_def with_all_triggers_def
    by (auto elim!: bindE_Inr_cases simp: comp_def)
  then show ?thesis by (simp add: defineRetentionPolicy_def)
qed

lemma fingerprint_define: "defineRetentionPolicy p = Inr q \<Longrightarrow> retentionPolicyFingerprint sha q = retentionPolicyFingerprint sha p"
  by (simp add: retentionPolicyFingerprint_def define_idem)

lemma covers_layers:
  assumes "rule_ok r"
  shows "set (map lr_layer (ru_layers r)) = set RETENTION_LAYERS"
proof (rule card_subset_eq)
  show "set (map lr_layer (ru_layers r)) \<subseteq> set RETENTION_LAYERS"
    using assms by (auto simp: rule_ok_def list_all_iff layer_ok_def)
  have "card (set (map lr_layer (ru_layers r))) = length (map lr_layer (ru_layers r))"
    using assms by (intro distinct_card) (simp add: rule_ok_def)
  then show "card (set (map lr_layer (ru_layers r))) = card (set RETENTION_LAYERS)"
    using assms by (simp add: rule_ok_def RETENTION_LAYERS_def)
qed simp

subsection \<open>What an accepted completion guarantees\<close>

text \<open>The state in which a layer has to be observed at a given time.\<close>

definition required_status :: "retention_context \<Rightarrow> retention_rule \<Rightarrow> layer_rule \<Rightarrow> int \<Rightarrow> string" where
  "required_status c r l checked =
     (if lr_action l = ''client-controlled'' then ''client-controlled''
      else if lr_action l = ''irreversible'' then ''irreversible-residual''
      else if lr_action l = ''retain-minimized'' \<and> (case delete_at c r l of None \<Rightarrow> True | Some t \<Rightarrow> checked < t)
      then ''retained-minimized'' else ''deleted'')"

definition deletable :: "layer_rule \<Rightarrow> bool" where
  "deletable l \<longleftrightarrow> lr_action l \<noteq> ''client-controlled'' \<and> lr_action l \<noteq> ''irreversible''"

definition derived :: "retention_context \<Rightarrow> retention_rule \<Rightarrow> layer_rule \<Rightarrow> derived_layer" where
  "derived c r l = \<lparr>dl_layer = lr_layer l, dl_action = lr_action l, dl_trigger = layer_trigger r l,
     dl_deleteAt = delete_at c r l, dl_ref = lr_ref l\<rparr>"

lemma derive_layers:
  assumes "mapE (derive_layer c r) ls = Inr ds"
  shows "ds = map (derived c r) ls"
proof -
  have "list_all2 (\<lambda>l d. derive_layer c r l = Inr d) ls ds" using assms by (simp add: mapE_Inr_iff)
  then have "list_all2 (\<lambda>l d. d = derived c r l) ls ds"
    by (rule list_all2_mono) (auto simp: derive_layer_def derived_def elim!: bindE_Inr_cases)
  then show ?thesis by (induction rule: list_all2_induct) simp_all
qed

lemma delete_at_triggers [simp]: "delete_at c (with_triggers r) (with_trigger r l) = delete_at c r l"
  by (simp add: delete_at_def split: option.split)

lemma derived_triggers [simp]: "derived c (with_triggers r) (with_trigger r l) = derived c r l"
  by (simp add: derived_def)

lemma schedule_shape:
  assumes "deriveRetentionSchedule sha p c = Inr s"
  obtains r where "r \<in> set (rp_rules p)" "ru_outcome r = cx_outcome c" "rule_ok r"
    "sd_layers s = map (derived c r) (ru_layers r)" "sd_disposition s = ru_disposition r"
    "retentionPolicyFingerprint sha p = Inr (sd_fingerprint s)"
proof -
  from assms obtain q r' ds fp where q: "defineRetentionPolicy p = Inr q"
    and r': "List.find (\<lambda>r. ru_outcome r = cx_outcome c) (rp_rules q) = Some r'"
    and ds: "mapE (derive_layer c r') (ru_layers r') = Inr ds" and fp: "retentionPolicyFingerprint sha q = Inr fp"
    and s: "sd_layers s = ds" "sd_disposition s = ru_disposition r'" "sd_fingerprint s = fp"
    unfolding deriveRetentionSchedule_def by (auto elim!: bindE_Inr_cases split: option.splits)
  from r' have in': "r' \<in> set (rp_rules q)" "ru_outcome r' = cx_outcome c" by (auto simp: find_Some_iff)
  with define_shape [OF q] obtain r where r: "r \<in> set (rp_rules p)" "r' = with_triggers r" "rule_ok r"
    by (auto simp: with_all_triggers_def policy_ok_def list_all_iff)
  show ?thesis
  proof (rule that [of r])
    show "sd_layers s = map (derived c r) (ru_layers r)" using derive_layers [OF ds] r(2) s(1) by (simp add: comp_def)
    show "retentionPolicyFingerprint sha p = Inr (sd_fingerprint s)" using fp s(3) fingerprint_define [OF q] by simp
  qed (use r in' s in auto)
qed

lemma blocker_Nil [simp]: "blocker code bad = [] \<longleftrightarrow> \<not> bad"
  by (simp add: blocker_def)

lemma by_layer_Some: "by_layer obs l = Some x \<Longrightarrow> x \<in> set obs \<and> lo_layer x = l"
  by (auto simp: by_layer_def find_Some_iff) (metis nth_mem set_rev length_rev)

text \<open>No blocker for a scheduled layer: the required state was observed with evidence.\<close>

lemma layer_unblocked:
  assumes "layer_blockers obs (derived c r l) = []"
  shows "\<exists>x \<in> set (ob_layers obs). lo_layer x = lr_layer l \<and> REFERENCE (lo_evidenceRef x)
     \<and> lo_status x = required_status c r l (js_val (ob_checkedAt obs))"
    and "deletable l \<Longrightarrow> delete_at c r l \<noteq> None"
proof -
  obtain x where x: "by_layer (ob_layers obs) (lr_layer l) = Some x"
    using assms by (auto simp: layer_blockers_def derived_def Let_def split: if_splits option.splits)
  have "REFERENCE (lo_evidenceRef x) \<and> lo_status x = required_status c r l (js_val (ob_checkedAt obs))
      \<and> (deletable l \<longrightarrow> delete_at c r l \<noteq> None)"
    using assms x by (auto simp: layer_blockers_def derived_def Let_def required_status_def deletable_def split: if_splits option.splits)
  with by_layer_Some [OF x]
  show "\<exists>x \<in> set (ob_layers obs). lo_layer x = lr_layer l \<and> REFERENCE (lo_evidenceRef x)
     \<and> lo_status x = required_status c r l (js_val (ob_checkedAt obs))"
    and "deletable l \<Longrightarrow> delete_at c r l \<noteq> None" by auto
qed

definition credential_settled :: "string \<Rightarrow> credential_observation \<Rightarrow> bool" where
  "credential_settled d o' \<longleftrightarrow> co_disposition o' = d
     \<and> (d = ''source-revoked'' \<longrightarrow> co_sourceRevoked o' \<and> co_hubEnforced o')
     \<and> (d = ''not-issued'' \<longrightarrow> co_neverIssued o') \<and> (d = ''unchanged'' \<longrightarrow> co_maintained o')"

lemma accepted_unblocked:
  assumes "assertRetentionCompletion s obs = Inr ()"
  shows "ob_fingerprint obs = sd_fingerprint s" "ob_activeHolds obs = []" "credential_settled (sd_disposition s) (ob_credential obs)"
    "distinct (map lo_layer (ob_layers obs))" "set (map lo_layer (ob_layers obs)) \<subseteq> set RETENTION_LAYERS"
    "\<And>l. l \<in> set (sd_layers s) \<Longrightarrow> layer_blockers obs l = []"
proof -
  have "completion_blockers s obs = []" using assms by (simp add: assertRetentionCompletion_def Let_def)
  then show "ob_fingerprint obs = sd_fingerprint s" "ob_activeHolds obs = []" "credential_settled (sd_disposition s) (ob_credential obs)"
    "distinct (map lo_layer (ob_layers obs))" "set (map lo_layer (ob_layers obs)) \<subseteq> set RETENTION_LAYERS"
    "\<And>l. l \<in> set (sd_layers s) \<Longrightarrow> layer_blockers obs l = []"
    by (auto simp: completion_blockers_def credential_blockers_def credential_settled_def)
qed

text \<open>
  C25: when the gate accepts a completion for the schedule of an outcome, the observation names the
  fingerprint of the policy, there is no active hold, the credential is settled as the rule for the
  outcome says, and there is exactly one observation of every storage layer and no other. Each is
  in the state that the rule requires at that time (deleted, unless the client or the chain holds the
  copy or a minimised record is before its deadline) with an evidence reference, and every deadline
  is known.
\<close>

theorem retention_discharged:
  assumes "deriveRetentionSchedule sha p c = Inr s" "assertRetentionCompletion s obs = Inr ()"
  shows "retentionPolicyFingerprint sha p = Inr (ob_fingerprint obs) \<and> ob_activeHolds obs = []
    \<and> distinct (map lo_layer (ob_layers obs)) \<and> set (map lo_layer (ob_layers obs)) = set RETENTION_LAYERS
    \<and> (\<exists>r \<in> set (rp_rules p). ru_outcome r = cx_outcome c \<and> credential_settled (ru_disposition r) (ob_credential obs)
        \<and> (\<forall>l \<in> set (ru_layers r). (deletable l \<longrightarrow> delete_at c r l \<noteq> None)
            \<and> (\<exists>x \<in> set (ob_layers obs). lo_layer x = lr_layer l \<and> REFERENCE (lo_evidenceRef x)
                \<and> lo_status x = required_status c r l (js_val (ob_checkedAt obs)))))"
proof -
  note acc = accepted_unblocked [OF assms(2)]
  from schedule_shape [OF assms(1)] obtain r where r: "r \<in> set (rp_rules p)" "ru_outcome r = cx_outcome c" "rule_ok r"
    "sd_layers s = map (derived c r) (ru_layers r)" "sd_disposition s = ru_disposition r"
    "retentionPolicyFingerprint sha p = Inr (sd_fingerprint s)" .
  have free: "layer_blockers obs (derived c r l) = []" if "l \<in> set (ru_layers r)" for l
    using acc(6) r(4) that by simp
  have seen: "\<exists>x \<in> set (ob_layers obs). lo_layer x = lr_layer l \<and> REFERENCE (lo_evidenceRef x)
      \<and> lo_status x = required_status c r l (js_val (ob_checkedAt obs))" if "l \<in> set (ru_layers r)" for l
    using layer_unblocked(1) [OF free [OF that]] .
  have "set RETENTION_LAYERS \<subseteq> set (map lo_layer (ob_layers obs))"
  proof
    fix n assume "n \<in> set RETENTION_LAYERS"
    then have "n \<in> lr_layer ` set (ru_layers r)" using covers_layers [OF r(3)] by simp
    then obtain l where "l \<in> set (ru_layers r)" "lr_layer l = n" by blast
    with seen show "n \<in> set (map lo_layer (ob_layers obs))" by force
  qed
  with acc(5) have "set (map lo_layer (ob_layers obs)) = set RETENTION_LAYERS" by blast
  moreover have "\<forall>l \<in> set (ru_layers r). (deletable l \<longrightarrow> delete_at c r l \<noteq> None)
            \<and> (\<exists>x \<in> set (ob_layers obs). lo_layer x = lr_layer l \<and> REFERENCE (lo_evidenceRef x)
                \<and> lo_status x = required_status c r l (js_val (ob_checkedAt obs)))"
    using seen layer_unblocked(2) [OF free] by blast
  ultimately show ?thesis using acc(1-4) r by (intro conjI bexI [of _ r]) auto
qed

subsection \<open>A retention can always be completed\<close>

lemma define_iff_ok: "defineRetentionPolicy p = Inr q \<Longrightarrow> o' \<in> set OUTCOMES \<Longrightarrow> \<exists>r \<in> set (rp_rules q). ru_outcome r = o'"
proof -
  assume q: "defineRetentionPolicy p = Inr q" and o': "o' \<in> set OUTCOMES"
  have ok: "policy_ok p" and shape: "q = with_all_triggers p" using define_shape [OF q] by auto
  have "set (map ru_outcome (rp_rules p)) = set OUTCOMES"
  proof (rule card_subset_eq)
    show "set (map ru_outcome (rp_rules p)) \<subseteq> set OUTCOMES"
      using ok by (auto simp: policy_ok_def list_all_iff rule_ok_def)
    have "card (set (map ru_outcome (rp_rules p))) = length (map ru_outcome (rp_rules p))"
      using ok by (intro distinct_card) (simp add: policy_ok_def)
    then show "card (set (map ru_outcome (rp_rules p))) = card (set OUTCOMES)"
      using ok by (simp add: policy_ok_def OUTCOMES_def)
  qed simp
  then have "o' \<in> ru_outcome ` set (rp_rules p)" using o' by simp
  then show "\<exists>r \<in> set (rp_rules q). ru_outcome r = o'" by (auto simp: shape with_all_triggers_def)
qed

lemma policy_canonical: "\<exists>t. canonicalJson (policy_json p) = Inr t"
proof -
  have "json_plain (optional_json v)" for v by (simp add: optional_json_def split: option.split)
  moreover have "json_plain (layer_json l)" for l by (simp add: layer_json_def split: option.split)
  ultimately have "json_plain (policy_json p)"
    by (simp add: policy_json_def rule_json_def list_all_iff)
  from json_plain_sortDeep [OF this] show ?thesis by (auto simp: canonicalJson_def)
qed

lemma fingerprint_exists: "defineRetentionPolicy p = Inr q \<Longrightarrow> \<exists>fp. retentionPolicyFingerprint sha p = Inr fp"
  using policy_canonical [of q] by (auto simp: retentionPolicyFingerprint_def plain_error_def)

text \<open>Times that leave room for the longest duration.\<close>

definition in_range :: "js_num \<Rightarrow> bool" where
  "in_range t \<longleftrightarrow> t = JInt (js_val t) \<and> 0 \<le> js_val t \<and> js_val t \<le> max_safe - 36500 * DAY_MS"

definition context_ok :: "retention_policy \<Rightarrow> retention_context \<Rightarrow> bool" where
  "context_ok p c \<longleftrightarrow> in_range (cx_collectedAt c) \<and> in_range (cx_decisionAt c)
     \<and> (\<exists>t. cx_terminalAt c = Some t \<and> in_range t) \<and> js_val (cx_collectedAt c) \<le> js_val (cx_decisionAt c)
     \<and> cx_customerId c = rp_customerId p \<and> cx_jurisdiction c = rp_jurisdiction p \<and> cx_outcome c \<in> set OUTCOMES"

lemma in_range_timestamp [simp]: "in_range t \<Longrightarrow> timestampE t fld = Inr ()"
  by (cases t) (simp_all add: in_range_def timestampE_def is_safe_def max_safe_def DAY_MS_def)

lemma delete_at_safe:
  assumes "context_ok p c" "layer_ok r l" "delete_at c r l = Some t"
  shows "is_safe t"
proof -
  obtain d where d: "lr_days l = Some d" "0 \<le> js_val d" "js_val d \<le> 36500"
    using assms(2,3) by (auto simp: delete_at_def layer_ok_def split: option.splits)
  obtain u where u: "trigger_at c (layer_trigger r l) = Some u" "t = u + js_val d * DAY_MS"
    using assms(3) d(1) by (auto simp: delete_at_def)
  have "0 \<le> u \<and> u \<le> max_safe - 36500 * DAY_MS"
    using assms(1) u(1) by (auto simp: trigger_at_def context_ok_def in_range_def split: if_splits)
  moreover have "0 \<le> js_val d * DAY_MS" "js_val d * DAY_MS \<le> 36500 * DAY_MS"
    using d by (simp_all add: DAY_MS_def)
  ultimately show ?thesis using u(2) by (simp add: is_safe_def max_safe_def)
qed

lemma derive_layers_total:
  assumes "context_ok p c" "list_all (layer_ok r) ls"
  shows "mapE (derive_layer c r) ls = Inr (map (derived c r) ls)"
  using assms(2)
proof (induction ls)
  case (Cons l ls)
  then have "case delete_at c r l of None \<Rightarrow> True | Some t \<Rightarrow> is_safe t"
    using delete_at_safe [OF assms(1)] by (auto split: option.split)
  with Cons show ?case by (simp add: derive_layer_def derived_def)
qed simp

lemma derive_total:
  assumes "defineRetentionPolicy p = Inr q" "context_ok p c"
  shows "\<exists>s. deriveRetentionSchedule sha p c = Inr s"
proof -
  have q: "q = with_all_triggers p" "policy_ok p" using define_shape [OF assms(1)] by auto
  obtain r where r: "List.find (\<lambda>r. ru_outcome r = cx_outcome c) (rp_rules q) = Some r" "r \<in> set (rp_rules q)"
  proof -
    obtain r where "r \<in> set (rp_rules q)" "ru_outcome r = cx_outcome c"
      using define_iff_ok [OF assms(1)] assms(2) by (auto simp: context_ok_def)
    then have "List.find (\<lambda>r. ru_outcome r = cx_outcome c) (rp_rules q) \<noteq> None" by (auto simp: find_None_iff)
    then obtain r' where r': "List.find (\<lambda>r. ru_outcome r = cx_outcome c) (rp_rules q) = Some r'" by blast
    then have "r' \<in> set (rp_rules q)" by (auto simp: find_Some_iff)
    with r' show ?thesis by (rule that)
  qed
  then have "list_all (layer_ok r) (ru_layers r)"
    using q by (auto simp: with_all_triggers_def policy_ok_def list_all_iff rule_ok_def layer_ok_def)
  moreover obtain fp where "retentionPolicyFingerprint sha q = Inr fp"
    using fingerprint_exists [OF define_idem [OF assms(1)]] by auto
  moreover have "rp_customerId q = rp_customerId p" "rp_jurisdiction q = rp_jurisdiction p"
    by (simp_all add: q with_all_triggers_def)
  ultimately show ?thesis
    using assms(2) r derive_layers_total [OF assms(2)]
    by (auto simp: deriveRetentionSchedule_def assms(1) plain_error_def context_ok_def)
qed

text \<open>The observation that discharges a schedule.\<close>

definition discharge :: "retention_context \<Rightarrow> retention_rule \<Rightarrow> string \<Rightarrow> int \<Rightarrow> completion_observation" where
  "discharge c r fp t = \<lparr>ob_fingerprint = fp, ob_checkedAt = JInt t, ob_activeHolds = [],
     ob_credential = \<lparr>co_disposition = ru_disposition r, co_sourceRevoked = True, co_hubEnforced = True,
       co_neverIssued = True, co_maintained = True\<rparr>,
     ob_layers = map (\<lambda>l. \<lparr>lo_layer = lr_layer l, lo_status = required_status c r l t, lo_evidenceRef = lr_ref l\<rparr>) (ru_layers r)\<rparr>"

lemma discharge_simps [simp]: "ob_fingerprint (discharge c r fp t) = fp" "ob_checkedAt (discharge c r fp t) = JInt t"
  "ob_activeHolds (discharge c r fp t) = []"
  "ob_credential (discharge c r fp t) = \<lparr>co_disposition = ru_disposition r, co_sourceRevoked = True, co_hubEnforced = True,
       co_neverIssued = True, co_maintained = True\<rparr>"
  "map lo_layer (ob_layers (discharge c r fp t)) = map lr_layer (ru_layers r)"
  by (simp_all add: discharge_def comp_def)

lemma by_layer_discharge:
  assumes "rule_ok r" "l \<in> set (ru_layers r)"
  shows "by_layer (ob_layers (discharge c r fp t)) (lr_layer l)
    = Some \<lparr>lo_layer = lr_layer l, lo_status = required_status c r l t, lo_evidenceRef = lr_ref l\<rparr>"
proof -
  have uniq: "l' = l" if "l' \<in> set (ru_layers r)" "lr_layer l' = lr_layer l" for l'
    using assms that by (auto simp: rule_ok_def distinct_map inj_on_def)
  let ?obs = "ob_layers (discharge c r fp t)"
  have "List.find (\<lambda>x. lo_layer x = lr_layer l) (rev ?obs) \<noteq> None"
    using assms(2) by (auto simp: find_None_iff discharge_def)
  then obtain x where x: "by_layer ?obs (lr_layer l) = Some x" by (auto simp: by_layer_def)
  then obtain l' where l': "l' \<in> set (ru_layers r)" "lr_layer l' = lr_layer l"
    "x = \<lparr>lo_layer = lr_layer l', lo_status = required_status c r l' t, lo_evidenceRef = lr_ref l'\<rparr>"
    using by_layer_Some [OF x] by (auto simp: discharge_def)
  with uniq [OF l'(1,2)] x show ?thesis by simp
qed

lemma trigger_known: "context_ok p c \<Longrightarrow> trigger_at c t \<noteq> None"
  by (auto simp: context_ok_def trigger_at_def)

lemma discharge_unblocked:
  assumes "rule_ok r" "l \<in> set (ru_layers r)" "context_ok p c"
  shows "layer_blockers (discharge c r fp t) (derived c r l) = []"
proof -
  have l: "layer_ok r l" using assms(1,2) by (auto simp: rule_ok_def list_all_iff)
  then have known: "lr_action l \<noteq> ''client-controlled'' \<Longrightarrow> lr_action l \<noteq> ''irreversible'' \<Longrightarrow> delete_at c r l \<noteq> None"
    using trigger_known [OF assms(3)] by (auto simp: delete_at_def layer_ok_def residual_def split: option.splits)
  have "REFERENCE (lr_ref l)" using l by (simp add: layer_ok_def)
  with known show ?thesis
    by (auto simp: layer_blockers_def Let_def derived_def by_layer_discharge [OF assms(1,2)] required_status_def split: option.splits)
qed

lemma discharge_accepted:
  assumes "rule_ok r" "sd_layers s = map (derived c r) (ru_layers r)" "sd_disposition s = ru_disposition r"
    "context_ok p c" "0 \<le> t" "is_safe t"
  shows "assertRetentionCompletion s (discharge c r (sd_fingerprint s) t) = Inr ()"
proof -
  let ?obs = "discharge c r (sd_fingerprint s) t"
  have layers: "concat (map (layer_blockers ?obs) (sd_layers s)) = []"
    using assms(2) discharge_unblocked [OF assms(1) _ assms(4)] by simp
  have known: "distinct (map lr_layer (ru_layers r))"
    "concat (map (\<lambda>l. blocker ''UNKNOWN_LAYER_OBSERVATION'' (l \<notin> set RETENTION_LAYERS)) (rev (remdups (rev (map lr_layer (ru_layers r)))))) = []"
    using covers_layers [OF assms(1)] assms(1) by (auto simp: rule_ok_def)
  have "completion_blockers s ?obs = []"
    using assms(2,3,5,6) layers known
    by (simp add: completion_blockers_def credential_blockers_def blocker_def)
  then show ?thesis by (simp add: assertRetentionCompletion_def)
qed

lemma completable:
  assumes "defineRetentionPolicy p = Inr q" "context_ok p c" "0 \<le> t" "is_safe t"
  shows "\<exists>s obs. deriveRetentionSchedule sha p c = Inr s \<and> ob_checkedAt obs = JInt t \<and> assertRetentionCompletion s obs = Inr ()"
proof -
  obtain s where s: "deriveRetentionSchedule sha p c = Inr s" using derive_total [OF assms(1,2)] by blast
  from schedule_shape [OF s] obtain r where "rule_ok r" "sd_layers s = map (derived c r) (ru_layers r)" "sd_disposition s = ru_disposition r" .
  from discharge_accepted [OF this assms(2-4)] s show ?thesis
    by (intro exI [of _ s] exI [of _ "discharge c r (sd_fingerprint s) t"]) simp
qed

text \<open>
  C26: a validated policy never leaves a record that cannot be completed: for every outcome with known
  collection, decision and terminal times, a schedule of deadlines exists, and at every later time
  there is an observation that the completion gate accepts for it.
\<close>

theorem retention_completable:
  assumes "defineRetentionPolicy p = Inr q" "context_ok p c" "0 \<le> t" "is_safe t"
  shows "\<exists>s obs. deriveRetentionSchedule sha p c = Inr s \<and> ob_checkedAt obs = JInt t \<and> assertRetentionCompletion s obs = Inr ()"
  using assms by (rule completable)

subsection \<open>The synthetic policy\<close>

text \<open>The module's own constant validates; its layers only lack the materialised triggers.\<close>

lemma synthetic_vault_refs: "REFERENCE ''retention:synthetic-vault:30d''" "REFERENCE ''retention:synthetic-vault:7d''"
  "REFERENCE ''retention:synthetic-journal:1d''" "REFERENCE ''retention:synthetic-outbox:30d''"
  by code_simp+

lemma synthetic_backup_refs: "REFERENCE ''retention:synthetic-backup:30d''" "REFERENCE ''retention:synthetic-backup:7d''"
  "REFERENCE ''retention:synthetic-demo-vendor:0d''" "REFERENCE ''retention:synthetic-log:7d''"
  by code_simp+

lemma synthetic_effect_refs: "REFERENCE ''retention:synthetic-client-control''" "REFERENCE ''retention:synthetic-onchain''"
  "REFERENCE ''clock:synthetic-process-time''" "REFERENCE ''authority:synthetic-test-only''"
  by code_simp+

lemma synthetic_ids: "IDENTIFIER ''proofmark-synthetic-retention-v1''" "IDENTIFIER ''synthetic-demo-only''"
  by code_simp+

lemmas synthetic_refs = synthetic_vault_refs synthetic_backup_refs synthetic_effect_refs synthetic_ids

lemma synthetic_decimal: "decimal 30 = ''30''" "decimal 7 = ''7''"
  by (simp_all add: decimal_def digits_of.simps char_of_def bit_0)

lemma layer_okI:
  assumes "lr_layer l \<in> set RETENTION_LAYERS" "lr_action l \<in> set ACTIONS" "layer_trigger r l \<in> set TRIGGERS"
    "residual (lr_layer l) \<longleftrightarrow> lr_days l = None" "lr_days l = None \<or> (\<exists>d. lr_days l = Some (JInt d) \<and> 0 \<le> d \<and> d \<le> 36500)"
    "lr_layer l = ''client-copy'' \<longrightarrow> lr_action l = ''client-controlled''"
    "lr_layer l = ''onchain'' \<longrightarrow> lr_action l = ''irreversible''"
    "lr_layer l = ''vendor'' \<longrightarrow> lr_action l = ''external-delete''"
    "lr_layer l = ''evidence-vault'' \<longrightarrow> lr_action l = ''delete''"
    "lr_layer l = ''issuance-journal'' \<longrightarrow> lr_action l = ''expire'' \<and> layer_trigger r l = ''terminal-at'' \<and> lr_days l = Some (JInt 1)"
    "REFERENCE (lr_ref l)"
  shows "layer_ok r l"
proof -
  have "case lr_days l of None \<Rightarrow> True | Some d \<Rightarrow> js_safe d \<and> 0 \<le> js_val d \<and> js_val d \<le> 36500"
    using assms(5) by (auto simp: is_safe_def max_safe_def)
  then show ?thesis unfolding layer_ok_def using assms(1-4,6-11) by blast
qed

lemma synthetic_layer_ok:
  assumes "d = 30 \<or> d = 7" "ru_trigger r = ''decision-at''" "l \<in> set (syntheticLayers d)"
  shows "layer_ok r l"
proof -
  have refs: "REFERENCE (''retention:synthetic-vault:'' @ decimal d @ ''d'')" "REFERENCE (''retention:synthetic-backup:'' @ decimal d @ ''d'')"
    using assms(1) by (auto simp: synthetic_decimal synthetic_refs)
  have d: "0 \<le> d" "d \<le> 36500" using assms(1) by auto
  from assms(3) show ?thesis
    unfolding syntheticLayers_def set_simps insert_iff empty_iff
    by (elim disjE FalseE; hypsubst; intro layer_okI)
      (simp_all only: layer_rule.simps layer_trigger_def option.case assms(2) refs synthetic_refs,
        simp_all add: RETENTION_LAYERS_def ACTIONS_def TRIGGERS_def residual_def d)
qed

lemma synthetic_rule_ok:
  assumes "d = 30 \<or> d = 7" "out \<in> set OUTCOMES" "disp \<in> set DISPOSITIONS" "out = ''issued'' \<longrightarrow> disp \<noteq> ''not-issued''"
    "out \<noteq> ''issued'' \<longrightarrow> disp \<noteq> ''source-revoked''"
  shows "rule_ok (synthetic_rule out disp d)"
proof -
  have "list_all (layer_ok (synthetic_rule out disp d)) (syntheticLayers d)"
    using synthetic_layer_ok [OF assms(1)] by (simp add: list_all_iff synthetic_rule_def)
  moreover have "distinct (map lr_layer (syntheticLayers d))" "length (syntheticLayers d) = length RETENTION_LAYERS"
    by (simp_all add: syntheticLayers_def RETENTION_LAYERS_def)
  ultimately show ?thesis using assms(2-5) by (simp add: rule_ok_def synthetic_rule_def TRIGGERS_def)
qed

lemma synthetic_rules: "check_rules [] (rp_rules SYNTHETIC_INPUT) = Inr (map with_triggers (rp_rules SYNTHETIC_INPUT))"
proof -
  have "list_all rule_ok (rp_rules SYNTHETIC_INPUT)"
    by (simp add: SYNTHETIC_INPUT_def synthetic_rule_ok OUTCOMES_def DISPOSITIONS_def)
  moreover have "distinct (map ru_outcome (rp_rules SYNTHETIC_INPUT))"
    by (simp add: SYNTHETIC_INPUT_def synthetic_rule_def)
  ultimately show ?thesis by (simp only: check_rules_iff) simp
qed

lemma synthetic_policy: "defineRetentionPolicy SYNTHETIC_INPUT = Inr (with_all_triggers SYNTHETIC_INPUT)"
proof -
  have "length (remdups (map ru_outcome (map with_triggers (rp_rules SYNTHETIC_INPUT)))) = length OUTCOMES"
    by (simp add: SYNTHETIC_INPUT_def synthetic_rule_def OUTCOMES_def)
  moreover have "identifierE (rp_policyId SYNTHETIC_INPUT) f = Inr ()" "identifierE (rp_customerId SYNTHETIC_INPUT) f = Inr ()" 
    "referenceE (rp_clockRef SYNTHETIC_INPUT) f = Inr ()" "referenceE (rp_holdRef SYNTHETIC_INPUT) f = Inr ()" for f
    by (simp_all add: identifierE_def referenceE_def SYNTHETIC_INPUT_def synthetic_refs)
  moreover have "rp_schema SYNTHETIC_INPUT = ''proofmark-retention-policy-v1''" "JURISDICTION (rp_jurisdiction SYNTHETIC_INPUT)"
    "rp_status SYNTHETIC_INPUT = ''synthetic''" "rp_approvalRef SYNTHETIC_INPUT = None" "rp_legalReviewRef SYNTHETIC_INPUT = None"
    "length (rp_rules SYNTHETIC_INPUT) = length OUTCOMES"
    by (simp_all add: SYNTHETIC_INPUT_def JURISDICTION_def upper_letter_def OUTCOMES_def)
  ultimately have "validate_policy SYNTHETIC_INPUT = Inr (with_all_triggers SYNTHETIC_INPUT)"
    by (simp add: validate_policy_def synthetic_rules optional_reference_def with_all_triggers_def)
  then show ?thesis by (simp add: defineRetentionPolicy_def)
qed

definition sample_context :: retention_context where
  "sample_context = \<lparr>cx_customerId = ''synthetic-demo-only'', cx_jurisdiction = ''KR'', cx_outcome = ''denied'',
     cx_collectedAt = JInt 1000, cx_decisionAt = JInt 2000, cx_terminalAt = Some (JInt 3000)\<rparr>"

lemma sample_context_ok: "context_ok SYNTHETIC_INPUT sample_context"
  by (simp add: context_ok_def sample_context_def in_range_def max_safe_def DAY_MS_def OUTCOMES_def SYNTHETIC_INPUT_def)

theorem retention_completable_witness:
  "\<exists>s obs. deriveRetentionSchedule (\<lambda>t. ''digest'') SYNTHETIC_INPUT sample_context = Inr s
     \<and> ob_checkedAt obs = JInt 5000 \<and> assertRetentionCompletion s obs = Inr ()"
  by (rule retention_completable [OF synthetic_policy sample_context_ok]) (simp_all add: is_safe_def max_safe_def)

definition sample_rule :: retention_rule where
  "sample_rule = synthetic_rule ''denied'' ''not-issued'' 30"

definition sample_schedule :: retention_schedule where
  "sample_schedule = projr (deriveRetentionSchedule (\<lambda>t. ''digest'') SYNTHETIC_INPUT sample_context)"

lemma sample_schedule: "deriveRetentionSchedule (\<lambda>t. ''digest'') SYNTHETIC_INPUT sample_context = Inr sample_schedule"
  using derive_total [OF synthetic_policy sample_context_ok, of "\<lambda>t. ''digest''"] by (auto simp: sample_schedule_def)

lemma sample_accepted:
  "assertRetentionCompletion sample_schedule (discharge sample_context sample_rule (sd_fingerprint sample_schedule) 5000) = Inr ()"
proof -
  obtain r where r: "r \<in> set (rp_rules SYNTHETIC_INPUT)" "ru_outcome r = ''denied''" "rule_ok r"
    "sd_layers sample_schedule = map (derived sample_context r) (ru_layers r)" "sd_disposition sample_schedule = ru_disposition r"
    using schedule_shape [OF sample_schedule] by (auto simp: sample_context_def)
  have outcome: "ru_outcome (synthetic_rule out disp d) = out" for out disp d by (simp add: synthetic_rule_def)
  have "r = sample_rule"
    using r(1,2) unfolding SYNTHETIC_INPUT_def retention_policy.simps set_simps sample_rule_def insert_iff empty_iff
    by (elim disjE FalseE) (simp_all add: outcome)
  with discharge_accepted [OF r(3-5) sample_context_ok, of 5000] show ?thesis by (simp add: is_safe_def max_safe_def)
qed

theorem retention_discharged_witness:
  "set (map lo_layer (ob_layers (discharge sample_context sample_rule (sd_fingerprint sample_schedule) 5000))) = set RETENTION_LAYERS
   \<and> retentionPolicyFingerprint (\<lambda>t. ''digest'') SYNTHETIC_INPUT = Inr (sd_fingerprint sample_schedule)"
  using retention_discharged [OF sample_schedule sample_accepted] by simp

end
