(* ===== verification/Vault.thy ===== *)
theory Vault
  imports Issue Vault_Atomic "HOL-Library.AList"
begin

text \<open>
  The encrypted evidence vault, \<open>pipeline/vault.ts\<close>: its plaintext, every operation on it, and
  the file with its lock. An operation is a function of the plaintext that throws or gives a
  result and the next plaintext; \<open>mutate\<close> runs it under the lock and replaces the file whole. The
  file holds the plaintext under a key: opening it under another key fails. JavaScript objects
  with string keys are association lists in insertion order. The keyed digests are parameters.
\<close>

subsection \<open>Plaintext\<close>

datatype vault_state = V_pending | V_active | V_review | V_blocked | V_rejected

datatype review_outcome = Cleared | Blocked

record review_event =
  re_at :: int
  re_operator :: string
  re_outcome :: review_outcome
  re_reason :: string
  re_basedOn :: "string option"

record rescreen_event =
  rs_at :: int
  rs_decision :: decision
  rs_reason :: "string option"
  rs_listVersions :: "(string \<times> int) list"

record source_observation =
  so_transactionHash :: string
  so_chainId :: int
  so_source :: string
  so_observedAt :: int
  so_hubMaterialized :: bool

datatype disposition = Unchanged | Source_revoked | Not_issued

record retention_evidence =
  rp_policyId :: string
  rp_customerId :: string
  rp_vaultDeleteAt :: int
  rp_disposition :: disposition
  rp_approvalRef :: "string option"

record vault_record =
  vr_id :: string
  vr_walletAddress :: string
  vr_consentVersion :: string
  vr_processingCustomer :: "string option"
  vr_retentionPolicy :: "retention_evidence option"
  vr_fullName :: string
  vr_subject :: json
  vr_evidenceHash :: string
  vr_evidence :: json
  vr_attrs :: "string option"
  vr_claimsRoot :: "string option"
  vr_claims :: "json option"
  vr_state :: vault_state
  vr_createdAt :: int
  vr_retentionUntil :: int
  vr_lastScreenedAt :: "int option"
  vr_rescreens :: "rescreen_event list"
  vr_reviews :: "review_event list"
  vr_sourceIssuance :: "source_observation option"

record deletion_request =
  dr_id :: string
  dr_fingerprint :: string
  dr_requestedAt :: int
  dr_operator :: string
  dr_policyRef :: string
  dr_serviceRef :: string
  dr_disposition :: disposition
  dr_automatic :: bool
  dr_approval :: "(string \<times> int) option"

record legal_hold =
  lh_id :: string
  lh_operator :: string
  lh_reference :: string
  lh_at :: int
  lh_release :: "(string \<times> string \<times> int) option"

record retention_controls =
  rc_minimumUntil :: "int option"
  rc_extensions :: "(int \<times> string \<times> string \<times> int) list"
  rc_holds :: "legal_hold list"
  rc_requests :: "deletion_request list"

datatype job_state = J_pending | J_prepared | J_confirmed

record revocation_tx =
  rt_hash :: string
  rt_raw :: string
  rt_chainId :: int
  rt_source :: string

record 'o revocation_job =
  rj_id :: string
  rj_recordId :: string
  rj_walletAddress :: string
  rj_createdAt :: int
  rj_state :: job_state
  rj_sourceTarget :: "(int \<times> string) option"
  rj_transaction :: "revocation_tx option"
  rj_confirmedAt :: "int option"
  rj_lastError :: "string option"
  rj_observations :: "(int \<times> 'o) list"

record erasure =
  ze_recordId :: string
  ze_at :: int
  ze_reason :: string
  ze_requestId :: "string option"

record key_rotation =
  kr_at :: int
  kr_operator :: string
  kr_previousKeyId :: string
  kr_nextKeyId :: string

record 'o vault_data =
  vd_revision :: nat
  vd_records :: "(string \<times> vault_record) list"
  vd_erasures :: "erasure list"
  vd_revocations :: "(string \<times> 'o revocation_job) list"
  vd_retention :: "(string \<times> retention_controls) list"
  vd_maintenance :: "key_rotation list"

type_synonym ('o, 'a) vault_op = "'o vault_data \<Rightarrow> string + 'a \<times> 'o vault_data"

text \<open>
  Digests of the plaintext. The two that take the jobs of a record get them in the order of the
  outbox; putting them in the locale's order before hashing is part of the digest.
\<close>

record 'o vault_crypto =
  vc_fingerprint :: "vault_record \<Rightarrow> int option \<Rightarrow> (int \<times> string \<times> string \<times> int) list \<Rightarrow> legal_hold list \<Rightarrow> 'o revocation_job list \<Rightarrow> string"
  vc_reviewRevision :: "string \<Rightarrow> vault_record \<Rightarrow> 'o revocation_job list \<Rightarrow> retention_controls option \<Rightarrow> string"
  vc_commitment :: "'o vault_data \<Rightarrow> string"
  vc_keyId :: "string \<Rightarrow> string"

definition empty_vault :: "'o vault_data" where
  "empty_vault = \<lparr>vd_revision = 0, vd_records = [], vd_erasures = [], vd_revocations = [], vd_retention = [], vd_maintenance = []\<rparr>"

subsection \<open>Checks\<close>

definition timestamp :: "int \<Rightarrow> string + unit" where
  "timestamp t = requireE ''invalid retention timestamp'' (is_safe t \<and> 0 \<le> t)"

definition ref_first :: "char \<Rightarrow> bool" where
  "ref_first c = (let n = (of_char c :: nat) in (48 \<le> n \<and> n \<le> 57) \<or> (65 \<le> n \<and> n \<le> 90) \<or> (97 \<le> n \<and> n \<le> 122))"

definition ref_char :: "char \<Rightarrow> bool" where
  "ref_char c \<longleftrightarrow> ref_first c \<or> c \<in> set ''_.:-''"

definition reference :: "string \<Rightarrow> string + unit" where
  "reference s = requireE ''use an opaque operator/policy/case reference, not free-text personal data''
     (case s of [] \<Rightarrow> False | c # cs \<Rightarrow> ref_first c \<and> list_all ref_char cs \<and> length cs \<le> 127)"

definition sameListVersions :: "(string \<times> int) list \<Rightarrow> (string \<times> int) list \<Rightarrow> bool" where
  "sameListVersions a b \<longleftrightarrow> length a = length b \<and> list_all (\<lambda>(k, v). map_of b k = Some v) a"

subsection \<open>Parts of the plaintext\<close>

definition the_record :: "string \<Rightarrow> 'o vault_data \<Rightarrow> vault_record option" where
  "the_record k d = map_of (vd_records d) k"

definition mustGet :: "string \<Rightarrow> 'o vault_data \<Rightarrow> string + vault_record" where
  "mustGet k d = (case the_record k d of None \<Rightarrow> Inl (''unknown vault record '' @ k) | Some r \<Rightarrow> Inr r)"

definition put_record :: "string \<Rightarrow> vault_record \<Rightarrow> 'o vault_data \<Rightarrow> 'o vault_data" where
  "put_record k r d = d\<lparr>vd_records := AList.update k r (vd_records d)\<rparr>"

definition no_controls :: retention_controls where
  "no_controls = \<lparr>rc_minimumUntil = None, rc_extensions = [], rc_holds = [], rc_requests = []\<rparr>"

definition controls :: "string \<Rightarrow> 'o vault_data \<Rightarrow> retention_controls" where
  "controls k d = (case map_of (vd_retention d) k of None \<Rightarrow> no_controls | Some c \<Rightarrow> c)"

definition put_controls :: "string \<Rightarrow> retention_controls \<Rightarrow> 'o vault_data \<Rightarrow> 'o vault_data" where
  "put_controls k c d = d\<lparr>vd_retention := AList.update k c (vd_retention d)\<rparr>"

definition last_request :: "string \<Rightarrow> 'o vault_data \<Rightarrow> deletion_request option" where
  "last_request k d = (case rc_requests (controls k d) of [] \<Rightarrow> None | rs \<Rightarrow> Some (last rs))"

definition jobs_of :: "string \<Rightarrow> 'o vault_data \<Rightarrow> 'o revocation_job list" where
  "jobs_of k d = filter (\<lambda>j. rj_recordId j = k) (map snd (vd_revocations d))"

definition mustGetJob :: "string \<Rightarrow> 'o vault_data \<Rightarrow> string + 'o revocation_job" where
  "mustGetJob j d = (case map_of (vd_revocations d) j of None \<Rightarrow> Inl ''unknown revocation job'' | Some x \<Rightarrow> Inr x)"

definition put_job :: "string \<Rightarrow> 'o revocation_job \<Rightarrow> 'o vault_data \<Rightarrow> 'o vault_data" where
  "put_job j x d = d\<lparr>vd_revocations := AList.update j x (vd_revocations d)\<rparr>"

definition queueRevocation :: "vault_record \<Rightarrow> int \<Rightarrow> 'o vault_data \<Rightarrow> string + 'o vault_data" where
  "queueRevocation r at d =
     (if \<exists>j \<in> set (jobs_of (vr_id r) d). rj_state j \<noteq> J_confirmed then Inr d
      else let k = vr_id r @ '':revoke:'' @ decimal at in
        if map_of (vd_revocations d) k \<noteq> None then Inl ''revocation event ID already used''
        else Inr (put_job k \<lparr>rj_id = k, rj_recordId = vr_id r, rj_walletAddress = vr_walletAddress r, rj_createdAt = at, rj_state = J_pending,
          rj_sourceTarget = (case vr_sourceIssuance r of None \<Rightarrow> None | Some s \<Rightarrow> Some (so_chainId s, so_source s)),
          rj_transaction = None, rj_confirmedAt = None, rj_lastError = None, rj_observations = []\<rparr> d))"

subsection \<open>Records\<close>

definition vault_put :: "vault_record \<Rightarrow> ('o, vault_record) vault_op" where
  "vault_put r d =
     bindE (requireE ''incomplete vault record'' (vr_id r \<noteq> [] \<and> vr_walletAddress r \<noteq> [] \<and> vr_fullName r \<noteq> [])) (\<lambda>_.
     bindE (requireE ''erased vault record cannot be restored by put'' (\<not> (\<exists>z \<in> set (vd_erasures d). ze_recordId z = vr_id r))) (\<lambda>_.
     bindE (timestamp (vr_createdAt r)) (\<lambda>_. bindE (timestamp (vr_retentionUntil r)) (\<lambda>_.
     bindE (requireE ''retention precedes creation'' (vr_createdAt r \<le> vr_retentionUntil r)) (\<lambda>_.
     bindE (requireE ''vault record does not match its retention policy snapshot'' (case vr_retentionPolicy r of None \<Rightarrow> True
       | Some p \<Rightarrow> rp_vaultDeleteAt p = vr_retentionUntil r \<and> (case vr_processingCustomer r of None \<Rightarrow> True | Some c \<Rightarrow> rp_customerId p = c))) (\<lambda>_.
     case the_record (vr_id r) d of
       Some e \<Rightarrow> if vr_evidenceHash e \<noteq> vr_evidenceHash r
         then Inl (''vault record '' @ vr_id r @ '' conflicts with existing evidence'') else Inr (e, d)
     | None \<Rightarrow> Inr (r, put_record (vr_id r) r d)))))))"

definition recordMaterialization :: "string \<Rightarrow> string \<Rightarrow> ('o, unit) vault_op" where
  "recordMaterialization k evidenceHash d = bindE (mustGet k d) (\<lambda>r.
     bindE (requireE ''materialization evidence does not match retained record'' (vr_evidenceHash r = evidenceHash)) (\<lambda>_.
     let r1 = r\<lparr>vr_sourceIssuance := map_option (\<lambda>s. s\<lparr>so_hubMaterialized := True\<rparr>) (vr_sourceIssuance r)\<rparr> in
     Inr ((), put_record k (if vr_state r1 = V_pending then r1\<lparr>vr_state := V_active\<rparr> else r1) d)))"

definition is_address :: "string \<Rightarrow> bool" where
  "is_address s \<longleftrightarrow> length s = 42 \<and> take 2 s = ''0x'' \<and> list_all hex_digit (drop 2 s)"

definition recordSourceConfirmation :: "string \<Rightarrow> string \<Rightarrow> source_observation \<Rightarrow> ('o, unit) vault_op" where
  "recordSourceConfirmation k evidenceHash ob d = bindE (mustGet k d) (\<lambda>r.
     bindE (requireE ''source confirmation evidence does not match retained record'' (vr_evidenceHash r = evidenceHash)) (\<lambda>_.
     bindE (timestamp (so_observedAt ob)) (\<lambda>_.
     bindE (requireE ''invalid source confirmation observation'' (is_safe (so_chainId ob) \<and> 0 < so_chainId ob
       \<and> is_bytes32 (so_transactionHash ob) \<and> is_address (so_source ob) \<and> vr_createdAt r \<le> so_observedAt ob)) (\<lambda>_.
     let next = \<lparr>so_transactionHash = lower (so_transactionHash ob), so_chainId = so_chainId ob, so_source = lower (so_source ob),
         so_observedAt = so_observedAt ob, so_hubMaterialized = False\<rparr> in
     case vr_sourceIssuance r of
       Some p \<Rightarrow> if so_transactionHash p \<noteq> so_transactionHash next \<or> so_chainId p \<noteq> so_chainId next \<or> so_source p \<noteq> so_source next
         then Inl ''source confirmation conflicts with retained issuance'' else Inr ((), d)
     | None \<Rightarrow> Inr ((), put_record k (r\<lparr>vr_sourceIssuance := Some next\<rparr>) d)))))"

definition retentionDeadline :: "vault_record \<Rightarrow> 'o vault_data \<Rightarrow> int" where
  "retentionDeadline r d = max (vr_retentionUntil r) (case map_of (vd_retention d) (vr_id r) of None \<Rightarrow> 0
     | Some c \<Rightarrow> (case rc_minimumUntil c of None \<Rightarrow> 0 | Some m \<Rightarrow> m))"

definition rescreen_due :: "int \<Rightarrow> int \<Rightarrow> (string \<times> int) list option \<Rightarrow> vault_record \<Rightarrow> bool" where
  "rescreen_due now interval versions r \<longleftrightarrow>
     (case vr_lastScreenedAt r of None \<Rightarrow> True | Some t \<Rightarrow> t = 0 \<or> interval \<le> now - t)
   \<or> (case versions of None \<Rightarrow> False
      | Some vs \<Rightarrow> vr_rescreens r = [] \<or> \<not> sameListVersions (rs_listVersions (last (vr_rescreens r))) vs)"

definition listForRescreen :: "int \<Rightarrow> int \<Rightarrow> (string \<times> int) list option \<Rightarrow> 'o vault_data \<Rightarrow> vault_record list" where
  "listForRescreen now interval versions d = filter (rescreen_due now interval versions)
     (filter (\<lambda>r. vr_state r = V_active \<or> vr_state r = V_review \<or> vr_state r = V_pending \<and> vr_sourceIssuance r \<noteq> None)
     (filter (\<lambda>r. now < retentionDeadline r d) (map snd (vd_records d))))"

definition latest_decision :: "vault_record \<Rightarrow> int" where
  "latest_decision r = foldl (\<lambda>t e. max t (re_at e)) (max (vr_createdAt r) (case vr_lastScreenedAt r of None \<Rightarrow> 0 | Some t \<Rightarrow> t)) (vr_reviews r)"

definition cleared_state :: "vault_record \<Rightarrow> vault_state" where
  "cleared_state r = (if vr_state r = V_pending \<or> (case vr_sourceIssuance r of None \<Rightarrow> False | Some s \<Rightarrow> \<not> so_hubMaterialized s)
     then V_pending else V_active)"

definition recordRescreen :: "string \<Rightarrow> rescreen_event \<Rightarrow> vault_record \<Rightarrow> ('o, vault_record) vault_op" where
  "recordRescreen k e expected d = (case the_record k d of None \<Rightarrow> Inl ''RESCREEN_RECORD_CHANGED''
   | Some r \<Rightarrow>
     bindE (requireE ''RESCREEN_RECORD_CHANGED'' (vr_id expected = k \<and> r = expected)) (\<lambda>_.
     bindE (requireE ''terminal compliance state requires explicit review; rescreen cannot clear it''
       (vr_state r \<noteq> V_blocked \<and> vr_state r \<noteq> V_rejected)) (\<lambda>_.
     bindE (timestamp (rs_at e)) (\<lambda>_.
     bindE (requireE ''rescreen timestamp precedes retained decision'' (latest_decision r \<le> rs_at e)) (\<lambda>_.
     let r' = r\<lparr>vr_lastScreenedAt := Some (rs_at e), vr_rescreens := vr_rescreens r @ [e],
         vr_state := (case rs_decision e of BLOCK \<Rightarrow> V_blocked | REVIEW \<Rightarrow> V_review | ALLOW \<Rightarrow> cleared_state r)\<rparr> in
     bindE (if rs_decision e = BLOCK then queueRevocation r' (rs_at e) (put_record k r' d) else Inr (put_record k r' d)) (\<lambda>d'.
     Inr (r', d')))))))"

definition reviewRevision :: "'o vault_crypto \<Rightarrow> string \<Rightarrow> vault_record \<Rightarrow> 'o vault_data \<Rightarrow> string" where
  "reviewRevision K key r d = vc_reviewRevision K key r (jobs_of (vr_id r) d) (map_of (vd_retention d) (vr_id r))"

definition reviewSnapshot :: "'o vault_crypto \<Rightarrow> string \<Rightarrow> string \<Rightarrow> 'o vault_data \<Rightarrow> string + string \<times> vault_record" where
  "reviewSnapshot K key k d = (case the_record k d of None \<Rightarrow> Inl ''REVIEW_RECORD_CHANGED'' | Some r \<Rightarrow> Inr (reviewRevision K key r d, r))"

definition hex64 :: "string \<Rightarrow> bool" where
  "hex64 s \<longleftrightarrow> length s = 64 \<and> list_all (\<lambda>c. hex_digit c \<and> lower_char c = c) s"

definition decideReview :: "'o vault_crypto \<Rightarrow> string \<Rightarrow> string \<Rightarrow> review_event \<Rightarrow> string \<Rightarrow> ('o, vault_record) vault_op" where
  "decideReview K key k e expected d = (case the_record k d of None \<Rightarrow> Inl ''REVIEW_RECORD_CHANGED''
   | Some r \<Rightarrow>
     bindE (requireE ''REVIEW_RECORD_CHANGED'' (hex64 expected \<and> reviewRevision K key r d = expected)) (\<lambda>_.
     bindE (timestamp (re_at e)) (\<lambda>_. bindE (reference (re_operator e)) (\<lambda>_. bindE (reference (re_reason e)) (\<lambda>_.
     bindE (requireE ''review timestamp precedes retained decision'' (latest_decision r \<le> re_at e)) (\<lambda>_.
     bindE (requireE ''pending revocation must be reconciled before clearance; clearance does not reissue on chain''
       (\<not> (re_outcome e = Cleared \<and> (\<exists>j \<in> set (jobs_of k d). rj_state j \<noteq> J_confirmed)))) (\<lambda>_.
     let r' = r\<lparr>vr_reviews := vr_reviews r @ [e\<lparr>re_basedOn := Some expected\<rparr>],
         vr_state := (if re_outcome e = Cleared then cleared_state r else V_blocked)\<rparr> in
     bindE (if re_outcome e = Blocked then queueRevocation r' (re_at e) (put_record k r' d) else Inr (put_record k r' d)) (\<lambda>d'.
     Inr (r', d')))))))))"

subsection \<open>Retention\<close>

definition extendRetention :: "string \<Rightarrow> int \<Rightarrow> string \<Rightarrow> string \<Rightarrow> int \<Rightarrow> ('o, unit) vault_op" where
  "extendRetention k until operator ref at d =
     bindE (timestamp at) (\<lambda>_. bindE (timestamp until) (\<lambda>_. bindE (reference operator) (\<lambda>_. bindE (reference ref) (\<lambda>_.
     bindE (mustGet k d) (\<lambda>r. let c = controls k d in
     bindE (requireE ''retention can only be extended''
       (max (vr_retentionUntil r) (case rc_minimumUntil c of None \<Rightarrow> 0 | Some m \<Rightarrow> m) < until)) (\<lambda>_.
     Inr ((), put_controls k (c\<lparr>rc_minimumUntil := Some until, rc_extensions := rc_extensions c @ [(until, operator, ref, at)]\<rparr>) d)))))))"

definition placeHold :: "string \<Rightarrow> string \<Rightarrow> string \<Rightarrow> string \<Rightarrow> int \<Rightarrow> ('o, unit) vault_op" where
  "placeHold k holdId operator ref at d =
     bindE (mustGet k d) (\<lambda>_. bindE (timestamp at) (\<lambda>_. bindE (reference holdId) (\<lambda>_. bindE (reference operator) (\<lambda>_.
     bindE (reference ref) (\<lambda>_. let c = controls k d in
     bindE (requireE ''hold ID already used'' (\<not> (\<exists>h \<in> set (rc_holds c). lh_id h = holdId))) (\<lambda>_.
     Inr ((), put_controls k (c\<lparr>rc_holds := rc_holds c @ [\<lparr>lh_id = holdId, lh_operator = operator, lh_reference = ref, lh_at = at,
       lh_release = None\<rparr>]\<rparr>) d)))))))"

fun release_first :: "string \<Rightarrow> (string \<times> string \<times> int) \<Rightarrow> legal_hold list \<Rightarrow> legal_hold list" where
  "release_first holdId rel [] = []"
| "release_first holdId rel (h # hs) = (if lh_id h = holdId then h\<lparr>lh_release := Some rel\<rparr> # hs else h # release_first holdId rel hs)"

definition releaseHold :: "string \<Rightarrow> string \<Rightarrow> string \<Rightarrow> string \<Rightarrow> int \<Rightarrow> ('o, unit) vault_op" where
  "releaseHold k holdId operator ref at d =
     bindE (mustGet k d) (\<lambda>_. bindE (timestamp at) (\<lambda>_. bindE (reference operator) (\<lambda>_. bindE (reference ref) (\<lambda>_.
     let c = controls k d in
     case List.find (\<lambda>h. lh_id h = holdId) (rc_holds c) of
       None \<Rightarrow> Inl ''unknown or already released hold''
     | Some h \<Rightarrow>
       bindE (requireE ''unknown or already released hold'' (lh_release h = None)) (\<lambda>_.
       bindE (requireE ''hold release precedes placement'' (lh_at h \<le> at)) (\<lambda>_.
       Inr ((), put_controls k (c\<lparr>rc_holds := release_first holdId (operator, ref, at) (rc_holds c)\<rparr>) d)))))))"

subsection \<open>Deletion\<close>

definition unconfirmed_jobs :: "string \<Rightarrow> 'o vault_data \<Rightarrow> bool" where
  "unconfirmed_jobs k d \<longleftrightarrow> (\<exists>j \<in> set (jobs_of k d). rj_state j \<noteq> J_confirmed)"

definition confirmed_jobs :: "string \<Rightarrow> 'o vault_data \<Rightarrow> bool" where
  "confirmed_jobs k d \<longleftrightarrow> (\<exists>j \<in> set (jobs_of k d). rj_state j = J_confirmed)"

definition note_if :: "bool \<Rightarrow> string \<Rightarrow> string list" where
  "note_if b c = (if b then [c] else [])"

definition safetyBlockers :: "vault_record \<Rightarrow> int \<Rightarrow> 'o vault_data \<Rightarrow> string list" where
  "safetyBlockers r now d = (let deadline = retentionDeadline r d in
     (if \<not> is_safe (vr_retentionUntil r) \<or> \<not> is_safe deadline \<or> \<not> is_safe (vr_createdAt r) \<or> vr_createdAt r < 0
         \<or> vr_retentionUntil r < vr_createdAt r \<or> deadline < vr_createdAt r then [''INVALID_RETENTION'']
      else note_if (now < deadline) ''RETENTION_NOT_EXPIRED'')
     @ note_if (now < vr_createdAt r) ''RECORD_TIME_INVALID''
     @ note_if (\<exists>h \<in> set (rc_holds (controls (vr_id r) d)). lh_release h = None) ''LEGAL_HOLD''
     @ note_if (vr_state r = V_pending) ''ISSUANCE_PENDING''
     @ note_if (vr_state r = V_review) ''REVIEW_PENDING''
     @ note_if (unconfirmed_jobs (vr_id r) d) ''REVOCATION_PENDING''
     @ note_if (vr_state r = V_blocked \<and> \<not> confirmed_jobs (vr_id r) d) ''REVOCATION_NOT_RECONCILED'')"

definition deletionFingerprint :: "'o vault_crypto \<Rightarrow> vault_record \<Rightarrow> 'o vault_data \<Rightarrow> string" where
  "deletionFingerprint K r d = (let c = controls (vr_id r) d in
     vc_fingerprint K r (rc_minimumUntil c) (rc_extensions c) (rc_holds c) (jobs_of (vr_id r) d))"

definition deletionBlockers :: "'o vault_crypto \<Rightarrow> vault_record \<Rightarrow> int \<Rightarrow> 'o vault_data \<Rightarrow> string list" where
  "deletionBlockers K r now d = (let q = last_request (vr_id r) d in safetyBlockers r now d
     @ note_if (case q of None \<Rightarrow> True | Some x \<Rightarrow> dr_approval x = None) ''DELETION_NOT_APPROVED''
     @ note_if (case q of None \<Rightarrow> False | Some x \<Rightarrow> dr_fingerprint x \<noteq> deletionFingerprint K r d) ''DELETION_REQUEST_STALE''
     @ note_if (case q of None \<Rightarrow> False | Some x \<Rightarrow> (case dr_approval x of None \<Rightarrow> False
         | Some (_, t) \<Rightarrow> now < t \<or> t < dr_requestedAt x)) ''APPROVAL_TIME_INVALID'')"

definition expected_policy_ref :: "retention_evidence \<Rightarrow> string" where
  "expected_policy_ref p = (case rp_approvalRef p of None \<Rightarrow> rp_policyId p | Some a \<Rightarrow> a)"

fun comma :: "string list \<Rightarrow> string" where
  "comma [] = []"
| "comma [c] = c"
| "comma (c # cs) = c @ '','' @ comma cs"

definition deletion_blocked :: "string list \<Rightarrow> string + unit" where
  "deletion_blocked bs = requireE (''deletion blocked: '' @ comma bs) (bs = [])"

text \<open>\<open>newId\<close> is the random request id.\<close>

definition requestDeletion :: "'o vault_crypto \<Rightarrow> string \<Rightarrow> string \<Rightarrow> string \<Rightarrow> string \<Rightarrow> string \<Rightarrow> disposition \<Rightarrow> bool \<Rightarrow> int
    \<Rightarrow> ('o, deletion_request) vault_op" where
  "requestDeletion K newId k operator policyRef serviceRef disp automatic at d =
     bindE (timestamp at) (\<lambda>_. bindE (reference operator) (\<lambda>_. bindE (reference policyRef) (\<lambda>_. bindE (reference serviceRef) (\<lambda>_.
     bindE (mustGet k d) (\<lambda>r.
     bindE (requireE ''deletion decision does not match the retained policy snapshot'' (case vr_retentionPolicy r of None \<Rightarrow> True
       | Some p \<Rightarrow> policyRef = expected_policy_ref p \<and> disp = rp_disposition p)) (\<lambda>_.
     bindE (deletion_blocked (filter (\<lambda>c. c \<noteq> ''RETENTION_NOT_EXPIRED'') (safetyBlockers r at d))) (\<lambda>_.
     bindE (requireE ''service disposition is not supported by local evidence''
       (\<not> (disp = Source_revoked \<and> \<not> confirmed_jobs k d \<or> disp = Not_issued \<and> vr_state r \<noteq> V_rejected
          \<or> vr_state r = V_blocked \<and> disp \<noteq> Source_revoked))) (\<lambda>_.
     let q = \<lparr>dr_id = newId, dr_fingerprint = deletionFingerprint K r d, dr_requestedAt = at, dr_operator = operator,
         dr_policyRef = policyRef, dr_serviceRef = serviceRef, dr_disposition = disp, dr_automatic = automatic, dr_approval = None\<rparr>;
       c = controls k d in
     Inr (q, put_controls k (c\<lparr>rc_requests := rc_requests c @ [q]\<rparr>) d)))))))))"

definition approveDeletion :: "'o vault_crypto \<Rightarrow> string \<Rightarrow> string \<Rightarrow> string \<Rightarrow> int \<Rightarrow> ('o, unit) vault_op" where
  "approveDeletion K k requestId operator at d =
     bindE (timestamp at) (\<lambda>_. bindE (reference operator) (\<lambda>_. bindE (mustGet k d) (\<lambda>r.
     case last_request k d of None \<Rightarrow> Inl ''deletion request is not current''
     | Some q \<Rightarrow>
       bindE (requireE ''deletion request is not current'' (dr_id q = requestId)) (\<lambda>_.
       bindE (requireE ''deletion requires a different approver label'' (dr_operator q \<noteq> operator)) (\<lambda>_.
       bindE (requireE ''deletion request already approved'' (dr_approval q = None)) (\<lambda>_.
       bindE (requireE ''approval precedes request'' (dr_requestedAt q \<le> at)) (\<lambda>_.
       bindE (requireE ''deletion request is stale'' (dr_fingerprint q = deletionFingerprint K r d)) (\<lambda>_.
       bindE (deletion_blocked (filter (\<lambda>c. c \<noteq> ''RETENTION_NOT_EXPIRED'') (safetyBlockers r at d))) (\<lambda>_.
       let c = controls k d in
       Inr ((), put_controls k (c\<lparr>rc_requests := butlast (rc_requests c) @ [q\<lparr>dr_approval := Some (operator, at)\<rparr>]\<rparr>) d))))))))))"

record deletion_preview =
  dp_recordId :: string
  dp_retentionUntil :: int
  dp_requestId :: "string option"
  dp_automatic :: bool
  dp_blockers :: "string list"

definition deletionPreview :: "'o vault_crypto \<Rightarrow> int \<Rightarrow> 'o vault_data \<Rightarrow> string + deletion_preview list" where
  "deletionPreview K now d = bindE (timestamp now) (\<lambda>_. Inr (map (\<lambda>(_, r).
     \<lparr>dp_recordId = vr_id r, dp_retentionUntil = retentionDeadline r d, dp_requestId = map_option dr_id (last_request (vr_id r) d),
      dp_automatic = (case last_request (vr_id r) d of None \<Rightarrow> False | Some q \<Rightarrow> dr_automatic q),
      dp_blockers = deletionBlockers K r now d\<rparr>) (vd_records d)))"

definition eraseApproved :: "vault_record \<Rightarrow> deletion_request \<Rightarrow> int \<Rightarrow> 'o vault_data \<Rightarrow> 'o vault_data" where
  "eraseApproved r q at d = d\<lparr>vd_records := AList.delete (vr_id r) (vd_records d),
     vd_erasures := vd_erasures d @ [\<lparr>ze_recordId = vr_id r, ze_at = at, ze_reason = dr_policyRef q, ze_requestId = Some (dr_id q)\<rparr>]\<rparr>"

definition vault_erase :: "'o vault_crypto \<Rightarrow> string \<Rightarrow> string \<Rightarrow> int \<Rightarrow> ('o, bool) vault_op" where
  "vault_erase K k requestId at d = bindE (timestamp at) (\<lambda>_. case the_record k d of None \<Rightarrow> Inr (False, d)
     | Some r \<Rightarrow> (case last_request k d of None \<Rightarrow> Inl ''deletion request is not current''
       | Some q \<Rightarrow>
         bindE (requireE ''deletion request is not current'' (dr_id q = requestId)) (\<lambda>_.
         bindE (deletion_blocked (deletionBlockers K r at d)) (\<lambda>_.
         Inr (True, eraseApproved r q at d)))))"

fun purge_records :: "'o vault_crypto \<Rightarrow> int \<Rightarrow> vault_record list \<Rightarrow> nat \<times> 'o vault_data \<Rightarrow> nat \<times> 'o vault_data" where
  "purge_records K now [] (n, d) = (n, d)"
| "purge_records K now (r # rs) (n, d) = (case last_request (vr_id r) d of
     None \<Rightarrow> purge_records K now rs (n, d)
   | Some q \<Rightarrow> if \<not> dr_automatic q \<or> deletionBlockers K r now d \<noteq> [] then purge_records K now rs (n, d)
       else purge_records K now rs (n + 1, eraseApproved r q now d))"

definition purgeExpired :: "'o vault_crypto \<Rightarrow> int \<Rightarrow> ('o, nat) vault_op" where
  "purgeExpired K now d = bindE (timestamp now) (\<lambda>_. Inr (purge_records K now (map snd (vd_records d)) (0, d)))"

definition bump :: "string \<Rightarrow> (string \<times> nat) list \<Rightarrow> (string \<times> nat) list" where
  "bump k ns = AList.update k (Suc (case map_of ns k of None \<Rightarrow> 0 | Some n \<Rightarrow> n)) ns"

definition state_name :: "vault_state \<Rightarrow> string" where
  "state_name st = (case st of V_pending \<Rightarrow> ''pending'' | V_active \<Rightarrow> ''active'' | V_review \<Rightarrow> ''review'' | V_blocked \<Rightarrow> ''blocked''
     | V_rejected \<Rightarrow> ''rejected'')"

definition vault_counts :: "'o vault_data \<Rightarrow> (string \<times> nat) list" where
  "vault_counts d = foldl (\<lambda>ns r. bump (state_name (vr_state r)) ns) [(''erased'', length (vd_erasures d))] (map snd (vd_records d))"

subsection \<open>Revocations\<close>

definition listPendingRevocations :: "'o vault_data \<Rightarrow> 'o revocation_job list" where
  "listPendingRevocations d = filter (\<lambda>j. rj_state j \<noteq> J_confirmed) (map snd (vd_revocations d))"

definition listLegacyBlocked :: "'o vault_data \<Rightarrow> (string \<times> string) list" where
  "listLegacyBlocked d = map (\<lambda>r. (vr_id r, vr_walletAddress r))
     (filter (\<lambda>r. vr_state r = V_blocked \<and> jobs_of (vr_id r) d = []) (map snd (vd_records d)))"

fun recover_records :: "int \<Rightarrow> vault_record list \<Rightarrow> 'o vault_data \<Rightarrow> string + 'o vault_data" where
  "recover_records now [] d = Inr d"
| "recover_records now (r # rs) d = bindE (if vr_state r = V_blocked \<and> jobs_of (vr_id r) d = [] then queueRevocation r now d else Inr d)
     (recover_records now rs)"

definition recoverBlockedRevocations :: "int \<Rightarrow> ('o, unit) vault_op" where
  "recoverBlockedRevocations now d = bindE (recover_records now (map snd (vd_records d)) d) (\<lambda>d'. Inr ((), d'))"

definition prepareRevocation :: "string \<Rightarrow> revocation_tx \<Rightarrow> ('o, 'o revocation_job) vault_op" where
  "prepareRevocation k t d = bindE (mustGetJob k d) (\<lambda>j.
     bindE (requireE ''revocation already confirmed'' (rj_state j \<noteq> J_confirmed)) (\<lambda>_.
     bindE (requireE ''revocation already has a different signed transaction'' (case rj_transaction j of None \<Rightarrow> True
       | Some t' \<Rightarrow> rt_hash t' = rt_hash t)) (\<lambda>_.
     let j' = j\<lparr>rj_transaction := Some t, rj_state := J_prepared\<rparr> in Inr (j', put_job k j' d))))"

definition finishRevocation :: "string \<Rightarrow> int \<Rightarrow> ('o, unit) vault_op" where
  "finishRevocation k at d = bindE (mustGetJob k d) (\<lambda>j. case rj_transaction j of
     None \<Rightarrow> Inl ''revocation has no prepared transaction''
   | Some t \<Rightarrow> Inr ((), put_job k (j\<lparr>rj_state := J_confirmed, rj_confirmedAt := Some at, rj_lastError := None,
       rj_transaction := Some (t\<lparr>rt_raw := []\<rparr>)\<rparr>) d))"

definition failRevocation :: "string \<Rightarrow> string \<Rightarrow> bool \<Rightarrow> ('o, unit) vault_op" where
  "failRevocation k err minedRevert d = bindE (mustGetJob k d) (\<lambda>j.
     bindE (requireE ''cannot fail a confirmed revocation'' (rj_state j \<noteq> J_confirmed)) (\<lambda>_.
     let j1 = j\<lparr>rj_lastError := Some (take 200 err)\<rparr> in
     Inr ((), put_job k (if minedRevert then j1\<lparr>rj_state := J_pending, rj_transaction := None\<rparr> else j1) d)))"

subsection \<open>Observations of a revocation\<close>

text \<open>
  \<open>ob\<close> gives the parts of a normalized observation that the vault compares: the time in seconds,
  the transaction hash and the source; \<open>normal\<close> is the normalization.
\<close>

record 'o observation_view =
  ov_normalize :: "'o \<Rightarrow> string + 'o"
  ov_observedAt :: "'o \<Rightarrow> int"
  ov_transactionHash :: "'o \<Rightarrow> string"
  ov_source :: "'o \<Rightarrow> string"

definition sepolia :: int where
  "sepolia = 11155111"

definition observation_target_ok :: "'o observation_view \<Rightarrow> 'o revocation_job \<Rightarrow> 'o \<Rightarrow> bool" where
  "observation_target_ok W j ob \<longleftrightarrow> (case rj_transaction j of None \<Rightarrow> False
     | Some t \<Rightarrow> rt_chainId t = sepolia \<and> lower (rt_hash t) = ov_transactionHash W ob \<and> lower (rt_source t) = ov_source W ob)
     \<and> (case rj_sourceTarget j of None \<Rightarrow> True | Some (c, s) \<Rightarrow> c = sepolia \<and> lower s = ov_source W ob)"

definition recordRevocationObservation :: "'o observation_view \<Rightarrow> string \<Rightarrow> 'o revocation_job \<Rightarrow> 'o \<Rightarrow> int \<Rightarrow> ('o, unit) vault_op" where
  "recordRevocationObservation W k expected input at d = (case map_of (vd_revocations d) k of None \<Rightarrow> Inl ''REVOCATION_JOB_CHANGED''
   | Some j \<Rightarrow>
     bindE (requireE ''REVOCATION_JOB_CHANGED'' (rj_id expected = k \<and> j = expected)) (\<lambda>_.
     bindE (ov_normalize W input) (\<lambda>ob. bindE (timestamp at) (\<lambda>_.
     bindE (requireE ''REVOCATION_OBSERVATION_TARGET_MISMATCH'' (observation_target_ok W j ob)) (\<lambda>_.
     let t = ov_observedAt W ob in
     bindE (requireE ''STALE_REVOCATION_OBSERVATION'' (t * 1000 \<le> at \<and> at - t * 1000 \<le> 300000 \<and> rj_createdAt j \<le> at
       \<and> rj_createdAt j div 1000 \<le> t)) (\<lambda>_.
     bindE (requireE ''BACKDATED_REVOCATION_OBSERVATION'' (case rj_observations j of [] \<Rightarrow> True
       | os \<Rightarrow> ov_observedAt W (snd (last os)) \<le> t \<and> fst (last os) \<le> at)) (\<lambda>_.
     if rj_observations j \<noteq> [] \<and> snd (last (rj_observations j)) = ob then Inr ((), d)
     else Inr ((), put_job k (j\<lparr>rj_observations := rj_observations j @ [(at, ob)]\<rparr>) d))))))))"

subsection \<open>The file and its lock\<close>

record 'o vault_store =
  vs_file :: "(string \<times> 'o vault_data) option"
  vs_lock :: bool
  vs_unconfirmed :: bool
  vs_key :: string

text \<open>
  One attempt: whether another writer holds the lock for the whole wait, whether the note in the
  lock file is written, the call of the replacement that fails, and whether the lock file is
  closed and removed.
\<close>

record write_env =
  we_busy :: bool
  we_noted :: bool
  we_failing :: "fs_call option"
  we_closed :: bool
  we_unlinked :: bool

definition vault_load :: "'o vault_store \<Rightarrow> string + 'o vault_data" where
  "vault_load S = (case vs_file S of None \<Rightarrow> Inr empty_vault
     | Some (k, d) \<Rightarrow> if k = vs_key S then Inr d else Inl ''evidence vault authentication failed (wrong key or corrupt file)'')"

definition assertWritable :: "'o vault_store \<Rightarrow> string + unit" where
  "assertWritable S = requireE ''VAULT_WRITE_UNCONFIRMED'' (\<not> vs_unconfirmed S \<and> \<not> vs_lock S)"

text \<open>The \<open>finally\<close> block; \<open>keep_lock\<close> is \<open>retainLock\<close>.\<close>

definition leave_lock :: "write_env \<Rightarrow> bool \<Rightarrow> ('o vault_store, string, 'a) st_res \<Rightarrow> ('o vault_store, string, 'a) st_res" where
  "leave_lock W keep_lock m = (case m of (r, S) \<Rightarrow>
     if \<not> we_closed W then (Inl ''VAULT_WRITE_UNCONFIRMED'', S\<lparr>vs_unconfirmed := True\<rparr>)
     else if keep_lock then (r, S)
     else if \<not> we_unlinked W then (Inl ''VAULT_WRITE_UNCONFIRMED'', S\<lparr>vs_unconfirmed := True\<rparr>)
     else (r, S\<lparr>vs_lock := False\<rparr>))"

definition mutate :: "write_env \<Rightarrow> string \<Rightarrow> ('o, 'a) vault_op \<Rightarrow> 'o vault_store \<Rightarrow> ('o vault_store, string, 'a) st_res" where
  "mutate W writeKey op S =
     (if vs_unconfirmed S then (Inl ''VAULT_WRITE_UNCONFIRMED'', S)
      else if vs_lock S \<or> we_busy W then (Inl ''VAULT_WRITER_BUSY'', S)
      else let S1 = S\<lparr>vs_lock := True\<rparr> in
        if \<not> we_noted W then leave_lock W True (Inl ''VAULT_WRITE_UNCONFIRMED'', S1\<lparr>vs_unconfirmed := True\<rparr>)
        else (case bindE (vault_load S1) op of
            Inl e \<Rightarrow> leave_lock W False (Inl e, S1)
          | Inr (x, d) \<Rightarrow> (case writeVaultEnvelope (we_failing W) (writeKey, d\<lparr>vd_revision := vd_revision d + 1\<rparr>) (vs_file S1) of
              (Inl _, f) \<Rightarrow> leave_lock W True (Inl ''VAULT_WRITE_UNCONFIRMED'', S1\<lparr>vs_file := f, vs_unconfirmed := True\<rparr>)
            | (Inr _, f) \<Rightarrow> leave_lock W False (Inr x, S1\<lparr>vs_file := f\<rparr>))))"

definition deriveVaultKey :: "string \<Rightarrow> string + string" where
  "deriveVaultKey secret = (if length secret < 32 then Inl ''EVIDENCE_VAULT_KEY must be at least 32 characters'' else Inr secret)"

definition rotation_key :: "'o vault_crypto \<Rightarrow> string \<Rightarrow> string \<Rightarrow> string \<Rightarrow> int \<Rightarrow> string + string" where
  "rotation_key K key newSecret operator at =
     bindE (timestamp at) (\<lambda>_. bindE (reference operator) (\<lambda>_. bindE (deriveVaultKey newSecret) (\<lambda>k.
     bindE (requireE ''vault rotation requires a different key'' (vc_keyId K key \<noteq> vc_keyId K k)) (\<lambda>_. Inr k))))"

definition note_rotation :: "'o vault_crypto \<Rightarrow> string \<Rightarrow> string \<Rightarrow> string \<Rightarrow> int \<Rightarrow> ('o, unit) vault_op" where
  "note_rotation K key k operator at d = Inr ((), d\<lparr>vd_maintenance := vd_maintenance d @ [\<lparr>kr_at = at, kr_operator = operator,
     kr_previousKeyId = vc_keyId K key, kr_nextKeyId = vc_keyId K k\<rparr>]\<rparr>)"

definition rotateKey :: "'o vault_crypto \<Rightarrow> write_env \<Rightarrow> string \<Rightarrow> string \<Rightarrow> int \<Rightarrow> 'o vault_store \<Rightarrow> ('o vault_store, string, unit) st_res" where
  "rotateKey K W newSecret operator at S = (case rotation_key K (vs_key S) newSecret operator at of
     Inl e \<Rightarrow> (Inl e, S)
   | Inr k \<Rightarrow> bindS (mutate W k (note_rotation K (vs_key S) k operator at) S) (\<lambda>_ S. (Inr (), S\<lparr>vs_key := k\<rparr>)))"

definition vault_get :: "string \<Rightarrow> 'o vault_store \<Rightarrow> string + vault_record option" where
  "vault_get k S = bindE (vault_load S) (\<lambda>d. Inr (the_record k d))"

definition recoveryState :: "'o vault_crypto \<Rightarrow> 'o vault_store \<Rightarrow> string + nat \<times> string \<times> string" where
  "recoveryState K S = bindE (vault_load S) (\<lambda>d. Inr (vd_revision d, vc_commitment K d, vc_keyId K (vs_key S)))"

end
