(* ===== verification/Vault_Props.thy ===== *)
theory Vault_Props
  imports Vault
begin

text \<open>
  What the vault guarantees over every sequence of operations of any number of processes: a
  record disappears only through an approved deletion that nothing blocks, and a signed
  revocation is replaced only after a mined revert.
\<close>

subsection \<open>Runs\<close>

datatype 'o vault_call =
    C_put vault_record
  | C_materialized string string
  | C_confirmed string string source_observation
  | C_rescreen string rescreen_event vault_record
  | C_review string string review_event string
  | C_extend string int string string int
  | C_hold string string string string int
  | C_release string string string string int
  | C_request string string string string string disposition bool int
  | C_approve string string string int
  | C_erase string string int
  | C_purge int
  | C_observe string "'o revocation_job" 'o int
  | C_recover int
  | C_prepare string revocation_tx
  | C_finish string int
  | C_fail string string bool

definition unit_op :: "string + 'a \<times> 'o vault_data \<Rightarrow> string + unit \<times> 'o vault_data" where
  "unit_op m = bindE m (\<lambda>(_, d). Inr ((), d))"

fun vault_apply :: "'o vault_crypto \<Rightarrow> 'o observation_view \<Rightarrow> 'o vault_call \<Rightarrow> ('o, unit) vault_op" where
  "vault_apply K W (C_put r) d = unit_op (vault_put r d)"
| "vault_apply K W (C_materialized k h) d = recordMaterialization k h d"
| "vault_apply K W (C_confirmed k h ob) d = recordSourceConfirmation k h ob d"
| "vault_apply K W (C_rescreen k e x) d = unit_op (recordRescreen k e x d)"
| "vault_apply K W (C_review key k e x) d = unit_op (decideReview K key k e x d)"
| "vault_apply K W (C_extend k u p f at) d = extendRetention k u p f at d"
| "vault_apply K W (C_hold k h p f at) d = placeHold k h p f at d"
| "vault_apply K W (C_release k h p f at) d = releaseHold k h p f at d"
| "vault_apply K W (C_request n k p f s dp au at) d = unit_op (requestDeletion K n k p f s dp au at d)"
| "vault_apply K W (C_approve k q p at) d = approveDeletion K k q p at d"
| "vault_apply K W (C_erase k q at) d = unit_op (vault_erase K k q at d)"
| "vault_apply K W (C_purge now) d = unit_op (purgeExpired K now d)"
| "vault_apply K W (C_observe k x ob at) d = recordRevocationObservation W k x ob at d"
| "vault_apply K W (C_recover now) d = recoverBlockedRevocations now d"
| "vault_apply K W (C_prepare k t) d = unit_op (prepareRevocation k t d)"
| "vault_apply K W (C_finish k at) d = finishRevocation k at d"
| "vault_apply K W (C_fail k err mined) d = failRevocation k err mined d"

definition file_data :: "'o vault_store \<Rightarrow> 'o vault_data" where
  "file_data S = (case vs_file S of None \<Rightarrow> empty_vault | Some (_, d) \<Rightarrow> d)"

text \<open>Every call of any process, and the operator who removes a lock that was left behind.\<close>

inductive vault_step :: "'o vault_crypto \<Rightarrow> 'o observation_view \<Rightarrow> 'o vault_store \<Rightarrow> 'o vault_store \<Rightarrow> bool" for K W where
  called: "vault_step K W S (snd (mutate E (vs_key S) (vault_apply K W c) S))"
| rotated: "vault_step K W S (snd (rotateKey K E secret operator at S))"
| reopened: "vault_step K W S (S\<lparr>vs_lock := False, vs_unconfirmed := False, vs_key := k\<rparr>)"

text \<open>The same steps by what takes them, so that a statement can speak of the call that was made.\<close>

datatype 'o vault_event =
    Called write_env "'o vault_call"
  | Rotated write_env string string int
  | Reopened string

fun vault_next :: "'o vault_crypto \<Rightarrow> 'o observation_view \<Rightarrow> 'o vault_event \<Rightarrow> 'o vault_store \<Rightarrow> 'o vault_store" where
  "vault_next K W (Called E c) S = snd (mutate E (vs_key S) (vault_apply K W c) S)"
| "vault_next K W (Rotated E secret operator at) S = snd (rotateKey K E secret operator at S)"
| "vault_next K W (Reopened k) S = S\<lparr>vs_lock := False, vs_unconfirmed := False, vs_key := k\<rparr>"

lemma vault_next_step: "vault_step K W S (vault_next K W ev S)"
  by (cases ev) (auto intro: vault_step.intros)

definition fresh_vault :: "'o vault_store \<Rightarrow> bool" where
  "fresh_vault S \<longleftrightarrow> vs_file S = None"

subsection \<open>Invariant\<close>

definition record_ids :: "'o vault_data \<Rightarrow> string set" where
  "record_ids d = fst ` set (vd_records d)"

definition approvals_ok :: "retention_controls \<Rightarrow> bool" where
  "approvals_ok c \<longleftrightarrow> (\<forall>q \<in> set (rc_requests c). case dr_approval q of None \<Rightarrow> True | Some (p, t) \<Rightarrow> p \<noteq> dr_operator q)"

definition vault_inv :: "'o vault_data \<Rightarrow> bool" where
  "vault_inv d \<longleftrightarrow> (\<forall>(k, r) \<in> set (vd_records d). vr_id r = k)
     \<and> (\<forall>z \<in> set (vd_erasures d). ze_recordId z \<notin> record_ids d)
     \<and> (\<forall>(k, c) \<in> set (vd_retention d). approvals_ok c)
     \<and> distinct (map fst (vd_records d))"

lemma the_record_in: "the_record k d = Some r \<Longrightarrow> (k, r) \<in> set (vd_records d)"
  by (simp add: the_record_def map_of_SomeD)

lemma the_record_ids: "the_record k d = Some r \<Longrightarrow> k \<in> record_ids d"
  by (force simp: record_ids_def dest: the_record_in)

lemma inv_id: "vault_inv d \<Longrightarrow> the_record k d = Some r \<Longrightarrow> vr_id r = k"
  by (auto simp: vault_inv_def dest: the_record_in)

lemma inv_controls: "vault_inv d \<Longrightarrow> approvals_ok (controls k d)"
  by (auto simp: vault_inv_def controls_def no_controls_def approvals_ok_def dest!: map_of_SomeD split: option.splits)

lemma set_update: "set (AList.update k v xs) \<subseteq> insert (k, v) (set xs)"
  by (induction xs) auto

lemma ids_put_record: "record_ids (put_record k r d) = insert k (record_ids d)"
  by (simp add: record_ids_def put_record_def dom_update)

lemma inv_put_record: "vault_inv d \<Longrightarrow> vr_id r = k \<Longrightarrow> k \<in> record_ids d \<or> \<not> (\<exists>z \<in> set (vd_erasures d). ze_recordId z = k)
    \<Longrightarrow> vault_inv (put_record k r d)"
  using set_update [of k r "vd_records d"]
  by (auto simp: vault_inv_def ids_put_record distinct_update) (auto simp: put_record_def distinct_update)

lemma inv_put_controls: "vault_inv d \<Longrightarrow> approvals_ok c \<Longrightarrow> vault_inv (put_controls k c d)"
  using set_update [of k c "vd_retention d"] by (auto simp: vault_inv_def put_controls_def record_ids_def)

lemma inv_put_job: "vault_inv d \<Longrightarrow> vault_inv (put_job k j d)"
  by (simp add: vault_inv_def put_job_def record_ids_def)

lemma ids_put_controls [simp]: "record_ids (put_controls k c d) = record_ids d"
  by (simp add: record_ids_def put_controls_def)

lemma ids_put_job [simp]: "record_ids (put_job k j d) = record_ids d"
  by (simp add: record_ids_def put_job_def)

subsection \<open>Operations that erase nothing\<close>

definition quiet :: "'o vault_data \<Rightarrow> 'o vault_data \<Rightarrow> bool" where
  "quiet d d' \<longleftrightarrow> vault_inv d' \<and> record_ids d \<subseteq> record_ids d' \<and> vd_erasures d' = vd_erasures d"

lemma quiet_refl: "vault_inv d \<Longrightarrow> quiet d d"
  by (simp add: quiet_def)

lemma quiet_trans: "quiet d e \<Longrightarrow> quiet e f \<Longrightarrow> quiet d f"
  by (auto simp: quiet_def)

lemma quiet_put_record: "vault_inv d \<Longrightarrow> the_record k d = Some r \<Longrightarrow> vr_id r' = vr_id r \<Longrightarrow> quiet d (put_record k r' d)"
  using inv_id [of d k r] by (auto simp: quiet_def ids_put_record the_record_ids intro!: inv_put_record) (simp add: put_record_def)

lemma quiet_put_controls: "vault_inv d \<Longrightarrow> approvals_ok c \<Longrightarrow> quiet d (put_controls k c d)"
  by (simp add: quiet_def inv_put_controls) (simp add: put_controls_def)

lemma quiet_put_job: "vault_inv d \<Longrightarrow> quiet d (put_job k j d)"
  by (simp add: quiet_def inv_put_job) (simp add: put_job_def)

lemma quiet_queue: "queueRevocation r at d = Inr d' \<Longrightarrow> vault_inv d \<Longrightarrow> quiet d d'"
  by (auto simp: queueRevocation_def Let_def quiet_refl quiet_put_job split: if_splits)

lemma mustGet_Inr: "mustGet k d = Inr r \<longleftrightarrow> the_record k d = Some r"
  by (simp add: mustGet_def split: option.splits)

lemmas op_splits = bindE_Inr_iff mustGet_Inr Let_def

lemma quiet_put:
  assumes "vault_put r d = Inr (x, d')" "vault_inv d"
  shows "quiet d d'"
proof (cases "the_record (vr_id r) d")
  case None
  with assms(1) have d': "d' = put_record (vr_id r) r d" "\<not> (\<exists>z \<in> set (vd_erasures d). ze_recordId z = vr_id r)"
    by (auto simp: vault_put_def bindE_Inr_iff)
  with inv_put_record [OF assms(2), of r "vr_id r"] show ?thesis
    by (auto simp: quiet_def ids_put_record) (simp add: put_record_def)
next
  case (Some e)
  with assms have "d' = d" by (auto simp: vault_put_def bindE_Inr_iff split: if_splits)
  with assms(2) show ?thesis by (simp add: quiet_refl)
qed

lemma quiet_materialized: "recordMaterialization k h d = Inr (x, d') \<Longrightarrow> vault_inv d \<Longrightarrow> quiet d d'"
  by (auto simp: recordMaterialization_def op_splits intro!: quiet_put_record split: if_splits)

lemma quiet_confirmed: "recordSourceConfirmation k h ob d = Inr (x, d') \<Longrightarrow> vault_inv d \<Longrightarrow> quiet d d'"
  by (auto simp: recordSourceConfirmation_def op_splits intro!: quiet_put_record quiet_refl split: if_splits option.splits)

lemma quiet_put_queue:
  assumes "queueRevocation q at (put_record k r' d) = Inr d'" "vault_inv d" "the_record k d = Some r" "vr_id r' = vr_id r"
  shows "quiet d d'"
proof -
  note a = quiet_put_record [OF assms(2-4)]
  then have "vault_inv (put_record k r' d)" by (simp add: quiet_def)
  from quiet_trans [OF a quiet_queue [OF assms(1) this]] show ?thesis .
qed

lemma quiet_rescreen: "recordRescreen k e z d = Inr (x, d') \<Longrightarrow> vault_inv d \<Longrightarrow> quiet d d'"
  by (auto simp: recordRescreen_def op_splits split: if_splits option.splits elim!: quiet_put_queue intro!: quiet_put_record)

lemma quiet_review: "decideReview K key k e z d = Inr (x, d') \<Longrightarrow> vault_inv d \<Longrightarrow> quiet d d'"
  by (auto simp: decideReview_def op_splits split: if_splits option.splits elim!: quiet_put_queue intro!: quiet_put_record)

lemma approvals_ok_same: "approvals_ok (controls k d) \<Longrightarrow> rc_requests c = rc_requests (controls k d) \<Longrightarrow> approvals_ok c"
  by (simp add: approvals_ok_def)

lemma quiet_extend: "extendRetention k u p f at d = Inr (x, d') \<Longrightarrow> vault_inv d \<Longrightarrow> quiet d d'"
  by (auto simp: extendRetention_def op_splits intro!: quiet_put_controls approvals_ok_same [OF inv_controls])

lemma quiet_hold: "placeHold k h p f at d = Inr (x, d') \<Longrightarrow> vault_inv d \<Longrightarrow> quiet d d'"
  by (auto simp: placeHold_def op_splits intro!: quiet_put_controls approvals_ok_same [OF inv_controls])

lemma quiet_release: "releaseHold k h p f at d = Inr (x, d') \<Longrightarrow> vault_inv d \<Longrightarrow> quiet d d'"
  by (auto simp: releaseHold_def op_splits intro!: quiet_put_controls approvals_ok_same [OF inv_controls] split: option.splits)

lemma quiet_request: "requestDeletion K n k p f s dp au at d = Inr (x, d') \<Longrightarrow> vault_inv d \<Longrightarrow> quiet d d'"
  using inv_controls [of d k]
  by (auto simp: requestDeletion_def op_splits approvals_ok_def intro!: quiet_put_controls)

lemma last_request_in: "last_request k d = Some q \<Longrightarrow> q \<in> set (rc_requests (controls k d)) \<and> rc_requests (controls k d) = butlast (rc_requests (controls k d)) @ [q]"
  by (auto simp: last_request_def split: list.splits)

lemma quiet_approve: "approveDeletion K k q p at d = Inr (x, d') \<Longrightarrow> vault_inv d \<Longrightarrow> quiet d d'"
  using inv_controls [of d k]
  by (auto simp: approveDeletion_def op_splits approvals_ok_def intro!: quiet_put_controls dest!: in_set_butlastD split: option.splits)

lemma quiet_observe: "recordRevocationObservation W k j ob at d = Inr (x, d') \<Longrightarrow> vault_inv d \<Longrightarrow> quiet d d'"
  by (auto simp: recordRevocationObservation_def op_splits intro!: quiet_put_job quiet_refl split: option.splits if_splits)

lemma quiet_recover_records: "recover_records now rs d = Inr d' \<Longrightarrow> vault_inv d \<Longrightarrow> quiet d d'"
proof (induction rs arbitrary: d)
  case Nil
  then show ?case by (simp add: quiet_refl)
next
  case (Cons r rs)
  from Cons.prems(1) obtain e where e: "(if vr_state r = V_blocked \<and> jobs_of (vr_id r) d = [] then queueRevocation r now d else Inr d) = Inr e"
    "recover_records now rs e = Inr d'" by (auto simp: bindE_Inr_iff)
  from e(1) Cons.prems(2) have q: "quiet d e" by (auto simp: quiet_refl quiet_queue split: if_splits)
  then have "vault_inv e" by (simp add: quiet_def)
  from quiet_trans [OF q Cons.IH [OF e(2) this]] show ?case .
qed

lemma quiet_recover: "recoverBlockedRevocations now d = Inr (x, d') \<Longrightarrow> vault_inv d \<Longrightarrow> quiet d d'"
  by (auto simp: recoverBlockedRevocations_def bindE_Inr_iff quiet_recover_records)

lemma quiet_prepare: "prepareRevocation k t d = Inr (x, d') \<Longrightarrow> vault_inv d \<Longrightarrow> quiet d d'"
  by (auto simp: prepareRevocation_def op_splits intro!: quiet_put_job)

lemma quiet_finish: "finishRevocation k at d = Inr (x, d') \<Longrightarrow> vault_inv d \<Longrightarrow> quiet d d'"
  by (auto simp: finishRevocation_def op_splits intro!: quiet_put_job split: option.splits)

lemma quiet_fail: "failRevocation k err m d = Inr (x, d') \<Longrightarrow> vault_inv d \<Longrightarrow> quiet d d'"
  by (auto simp: failRevocation_def op_splits intro!: quiet_put_job)

subsection \<open>Erasure\<close>

text \<open>What stands behind an erasure of \<open>r\<close> at time \<open>t\<close> on the request \<open>q\<close>.\<close>

definition erasable :: "'o vault_crypto \<Rightarrow> vault_record \<Rightarrow> deletion_request \<Rightarrow> int \<Rightarrow> 'o vault_data \<Rightarrow> bool" where
  "erasable K r q t d \<longleftrightarrow> last_request (vr_id r) d = Some q
     \<and> (\<exists>p u. dr_approval q = Some (p, u) \<and> p \<noteq> dr_operator q \<and> dr_requestedAt q \<le> u \<and> u \<le> t)
     \<and> dr_fingerprint q = deletionFingerprint K r d
     \<and> 0 \<le> vr_createdAt r \<and> vr_createdAt r \<le> vr_retentionUntil r
     \<and> retentionDeadline r d \<le> t \<and> vr_retentionUntil r \<le> t
     \<and> (\<forall>h \<in> set (rc_holds (controls (vr_id r) d)). lh_release h \<noteq> None)
     \<and> vr_state r \<noteq> V_pending \<and> vr_state r \<noteq> V_review \<and> \<not> unconfirmed_jobs (vr_id r) d
     \<and> (vr_state r = V_blocked \<longrightarrow> confirmed_jobs (vr_id r) d)"

lemma note_if_Nil [simp]: "note_if b c = [] \<longleftrightarrow> \<not> b"
  by (simp add: note_if_def)

lemma safety_clear:
  "safetyBlockers r t d = [] \<Longrightarrow> 0 \<le> vr_createdAt r \<and> vr_createdAt r \<le> vr_retentionUntil r \<and> retentionDeadline r d \<le> t \<and> (\<forall>h \<in> set (rc_holds (controls (vr_id r) d)). lh_release h \<noteq> None)
     \<and> vr_state r \<noteq> V_pending \<and> vr_state r \<noteq> V_review \<and> \<not> unconfirmed_jobs (vr_id r) d
     \<and> (vr_state r = V_blocked \<longrightarrow> confirmed_jobs (vr_id r) d)"
  by (auto simp: safetyBlockers_def Let_def split: if_splits)

lemma unblocked_erasable:
  assumes "vault_inv d" "last_request (vr_id r) d = Some q" "deletionBlockers K r t d = []"
  shows "erasable K r q t d"
proof -
  from assms(2, 3) have s: "safetyBlockers r t d = []" and a: "dr_approval q \<noteq> None" and f: "dr_fingerprint q = deletionFingerprint K r d"
    and u: "case dr_approval q of None \<Rightarrow> True | Some (_, u) \<Rightarrow> u \<le> t \<and> dr_requestedAt q \<le> u"
    by (auto simp: deletionBlockers_def Let_def split: option.splits)
  from a obtain p v where pv: "dr_approval q = Some (p, v)" by auto
  from last_request_in [OF assms(2)] have "q \<in> set (rc_requests (controls (vr_id r) d))" by blast
  with inv_controls [OF assms(1), of "vr_id r"] pv have "p \<noteq> dr_operator q" by (force simp: approvals_ok_def)
  moreover have "vr_retentionUntil r \<le> retentionDeadline r d" by (simp add: retentionDeadline_def)
  ultimately show ?thesis using safety_clear [OF s] assms(2) f u pv by (auto simp: erasable_def)
qed

lemma erase_fields:
  "vd_retention (eraseApproved r q t d) = vd_retention d" "vd_revocations (eraseApproved r q t d) = vd_revocations d"
  "vd_records (eraseApproved r q t d) = filter (\<lambda>(k, _). vr_id r \<noteq> k) (vd_records d)"
  "vd_erasures (eraseApproved r q t d) = vd_erasures d @ [\<lparr>ze_recordId = vr_id r, ze_at = t, ze_reason = dr_policyRef q, ze_requestId = Some (dr_id q)\<rparr>]"
  by (simp_all add: eraseApproved_def AList.delete_eq)

lemma ids_erase: "record_ids (eraseApproved r q t d) = record_ids d - {vr_id r}"
  by (force simp: record_ids_def erase_fields)

lemma inv_erase: "vault_inv d \<Longrightarrow> vault_inv (eraseApproved r q t d)"
  using AList.distinct_delete [of "vd_records d" "vr_id r"]
  by (auto simp: vault_inv_def ids_erase erase_fields AList.delete_eq)

text \<open>
  The call erases \<open>k\<close> on the request \<open>q\<close> at the time \<open>t\<close>: it names the record, the request and
  the time, or it is the purge of that time and the request is an automatic one.
\<close>

definition erasure_call :: "'o vault_call \<Rightarrow> string \<Rightarrow> deletion_request \<Rightarrow> int \<Rightarrow> bool" where
  "erasure_call c k q t \<longleftrightarrow> c = C_erase k (dr_id q) t \<or> (c = C_purge t \<and> dr_automatic q)"

definition tombstone :: "string \<Rightarrow> deletion_request \<Rightarrow> int \<Rightarrow> erasure" where
  "tombstone k q t = \<lparr>ze_recordId = k, ze_at = t, ze_reason = dr_policyRef q, ze_requestId = Some (dr_id q)\<rparr>"

text \<open>Every record that is lost between the two was erasable in the first at the time of the call.\<close>

definition lawful_loss :: "'o vault_crypto \<Rightarrow> 'o vault_call \<Rightarrow> string \<Rightarrow> vault_record \<Rightarrow> 'o vault_data \<Rightarrow> 'o vault_data \<Rightarrow> bool" where
  "lawful_loss K c k r d d' \<longleftrightarrow> (\<exists>t q. erasure_call c k q t \<and> erasable K r q t d \<and> tombstone k q t \<in> set (vd_erasures d'))"

definition lawful :: "'o vault_crypto \<Rightarrow> 'o vault_call \<Rightarrow> 'o vault_data \<Rightarrow> 'o vault_data \<Rightarrow> bool" where
  "lawful K c d d' \<longleftrightarrow> vault_inv d' \<and> set (vd_erasures d) \<subseteq> set (vd_erasures d')
     \<and> (\<forall>k r. the_record k d = Some r \<longrightarrow> k \<notin> record_ids d' \<longrightarrow> lawful_loss K c k r d d')"

lemma lawful_quiet: "quiet d d' \<Longrightarrow> lawful K c d d'"
  by (auto simp: quiet_def lawful_def dest: the_record_ids)

lemma erase_other:
  "last_request k (eraseApproved r q t d) = last_request k d" "controls k (eraseApproved r q t d) = controls k d"
  "retentionDeadline x (eraseApproved r q t d) = retentionDeadline x d" "jobs_of k (eraseApproved r q t d) = jobs_of k d"
  "deletionFingerprint K x (eraseApproved r q t d) = deletionFingerprint K x d"
  by (simp_all add: last_request_def controls_def erase_fields retentionDeadline_def jobs_of_def deletionFingerprint_def)

lemma erase_blockers: "deletionBlockers K x now (eraseApproved r q t d) = deletionBlockers K x now d"
  by (simp add: deletionBlockers_def safetyBlockers_def unconfirmed_jobs_def confirmed_jobs_def erase_other Let_def cong: option.case_cong)

lemma erase_erasable: "erasable K x p now (eraseApproved r q t d) = erasable K x p now d"
  by (simp add: erasable_def unconfirmed_jobs_def confirmed_jobs_def erase_other)

lemma the_record_erase: "the_record k (eraseApproved r q t d) = (if k = vr_id r then None else the_record k d)"
  by (simp add: the_record_def eraseApproved_def AList.delete_conv')

lemma lawful_erase:
  assumes "vault_inv d" "the_record (vr_id r) d = Some r" "erasable K r q t d" "erasure_call c (vr_id r) q t"
  shows "lawful K c d (eraseApproved r q t d)"
proof -
  have "lawful_loss K c k x d (eraseApproved r q t d)"
    if "the_record k d = Some x" "k \<notin> record_ids (eraseApproved r q t d)" for k x
  proof -
    have "k = vr_id r" using that the_record_ids [OF that(1)] by (simp add: ids_erase)
    with that(1) assms(2) have "x = r" "k = vr_id r" by simp_all
    with assms(3, 4) show ?thesis unfolding lawful_loss_def
      by (intro exI [of _ t] exI [of _ q]) (simp add: erase_fields tombstone_def)
  qed
  then show ?thesis using inv_erase [OF assms(1)] by (simp add: lawful_def erase_fields subset_insertI2)
qed

lemma erase_lawful:
  assumes "vault_erase K k qid t d = Inr (x, d')" "vault_inv d"
  shows "lawful K (C_erase k qid t) d d'"
proof (cases "the_record k d")
  case None
  with assms show ?thesis by (auto simp: vault_erase_def bindE_Inr_iff intro: lawful_quiet quiet_refl)
next
  case (Some r)
  with assms(1) obtain q where q: "last_request k d = Some q" "dr_id q = qid" "deletionBlockers K r t d = []" "d' = eraseApproved r q t d"
    by (auto simp: vault_erase_def bindE_Inr_iff deletion_blocked_def split: option.splits)
  note k = inv_id [OF assms(2) Some]
  have "erasure_call (C_erase k qid t) k q t" by (simp add: erasure_call_def q(2))
  then show ?thesis using lawful_erase [OF assms(2), of r K q t] unblocked_erasable [OF assms(2), of r q K t] q Some k by simp
qed

lemma lawful_trans:
  assumes "lawful K c d e" "lawful K c e f" "\<And>k r. the_record k e = Some r \<Longrightarrow> the_record k d = Some r"
    and "\<And>k r q t. the_record k e = Some r \<Longrightarrow> erasable K r q t e \<Longrightarrow> erasable K r q t d"
    and "\<And>k r. the_record k d = Some r \<Longrightarrow> k \<in> record_ids e \<Longrightarrow> the_record k e = Some r"
  shows "lawful K c d f"
proof -
  have "lawful_loss K c k r d f"
    if r: "the_record k d = Some r" "k \<notin> record_ids f" for k r
  proof (cases "k \<in> record_ids e")
    case True
    with assms(5) r(1) have "the_record k e = Some r" by blast
    with assms(2, 4) r(2) show ?thesis unfolding lawful_def lawful_loss_def by blast
  next
    case False
    with assms(1, 2) r(1) show ?thesis unfolding lawful_def lawful_loss_def by blast
  qed
  with assms(1, 2) show ?thesis unfolding lawful_def by blast
qed

lemma the_record_iff: "vault_inv d \<Longrightarrow> the_record k d = Some r \<longleftrightarrow> (k, r) \<in> set (vd_records d)"
  by (simp add: the_record_def vault_inv_def map_of_eq_Some_iff)

lemma purge_lawful:
  assumes "vault_inv d" "\<forall>r \<in> set rs. the_record (vr_id r) d = Some r" "distinct (map vr_id rs)"
  shows "lawful K (C_purge now) d (snd (purge_records K now rs (n, d)))"
  using assms
proof (induction rs arbitrary: n d)
  case Nil
  then show ?case by (simp add: lawful_quiet quiet_refl)
next
  case (Cons r rs)
  show ?case
  proof (cases "last_request (vr_id r) d")
    case None
    with Cons show ?thesis by simp
  next
    case (Some q)
    show ?thesis
    proof (cases "\<not> dr_automatic q \<or> deletionBlockers K r now d \<noteq> []")
      case True
      with Cons Some show ?thesis by simp
    next
      case False
      let ?e = "eraseApproved r q now d"
      have er: "erasable K r q now d" using unblocked_erasable [OF Cons.prems(1) Some] False by blast
      have "erasure_call (C_purge now) (vr_id r) q now" using False by (simp add: erasure_call_def)
      then have l: "lawful K (C_purge now) d ?e" using lawful_erase [OF Cons.prems(1) _ er] Cons.prems(2) by simp
      have "lawful K (C_purge now) ?e (snd (purge_records K now rs (n + 1, ?e)))"
      proof (rule Cons.IH)
        show "vault_inv ?e" by (rule inv_erase [OF Cons.prems(1)])
        show "\<forall>x \<in> set rs. the_record (vr_id x) ?e = Some x"
        proof
          fix x assume x: "x \<in> set rs"
          with Cons.prems(3) have "vr_id x \<noteq> vr_id r" by (metis distinct.simps(2) image_eqI list.map(2) set_map)
          then show "the_record (vr_id x) ?e = Some x" using Cons.prems(2) x by (simp add: the_record_erase)
        qed
        show "distinct (map vr_id rs)" using Cons.prems(3) by simp
      qed
      with l have "lawful K (C_purge now) d (snd (purge_records K now rs (n + 1, ?e)))"
      proof (rule lawful_trans)
        show "the_record k d = Some x" if "the_record k ?e = Some x" for k x
          using that by (simp add: the_record_erase split: if_splits)
        show "erasable K x p t d" if "erasable K x p t ?e" for x p t
          using that by (simp add: erase_erasable)
        show "the_record k ?e = Some x" if "the_record k d = Some x" "k \<in> record_ids ?e" for k x
          using that by (simp add: the_record_erase ids_erase)
      qed
      with False Some show ?thesis by simp
    qed
  qed
qed

lemma purgeExpired_lawful:
  assumes "purgeExpired K now d = Inr (x, d')" "vault_inv d"
  shows "lawful K (C_purge now) d d'"
proof -
  have "map vr_id (map snd (vd_records d)) = map fst (vd_records d)"
    using assms(2) by (auto simp: vault_inv_def)
  then have "distinct (map vr_id (map snd (vd_records d)))" using assms(2) by (simp only: vault_inv_def)
  moreover have "\<forall>r \<in> set (map snd (vd_records d)). the_record (vr_id r) d = Some r"
    using assms(2) by (auto simp: the_record_iff) (auto simp: vault_inv_def)
  ultimately have "lawful K (C_purge now) d (snd (purge_records K now (map snd (vd_records d)) (0, d)))" by (rule purge_lawful [OF assms(2), rotated])
  with assms(1) show ?thesis by (auto simp: purgeExpired_def bindE_Inr_iff)
qed

subsection \<open>The file\<close>

lemma unit_op_Inr: "unit_op m = Inr (u, d) \<longleftrightarrow> (\<exists>x. m = Inr (x, d))"
  by (auto simp: unit_op_def bindE_Inr_iff)

lemma apply_lawful: "vault_apply K W c d = Inr (x, d') \<Longrightarrow> vault_inv d \<Longrightarrow> lawful K c d d'"
  by (cases c)
     (auto simp: unit_op_Inr intro: purgeExpired_lawful erase_lawful lawful_quiet
       dest: quiet_put quiet_materialized quiet_confirmed quiet_rescreen quiet_review quiet_extend quiet_hold quiet_release quiet_request
         quiet_approve quiet_observe quiet_recover quiet_prepare quiet_finish quiet_fail)

lemma leave_lock_file: "vs_file (snd (leave_lock E b (r, S))) = vs_file S"
  by (simp add: leave_lock_def)

lemma mutate_file:
  "file_data (snd (mutate E k op S)) = file_data S
   \<or> (\<exists>x d. op (file_data S) = Inr (x, d) \<and> file_data (snd (mutate E k op S)) = d\<lparr>vd_revision := vd_revision d + 1\<rparr>)"
proof (cases "bindE (vault_load (S\<lparr>vs_lock := True\<rparr>)) op")
  case (Inl e)
  then show ?thesis by (auto simp: mutate_def Let_def file_data_def leave_lock_file)
next
  case (Inr xd)
  obtain x d where xd: "xd = (x, d)" by fastforce
  let ?v = "(k, d\<lparr>vd_revision := vd_revision d + 1\<rparr>)"
  obtain r f where w: "writeVaultEnvelope (we_failing E) ?v (vs_file S) = (r, f)" by fastforce
  have f: "f = vs_file S \<or> f = Some ?v" using write_either [of "we_failing E" ?v "vs_file S"] w by simp
  have op: "op (file_data S) = Inr (x, d)"
    using Inr xd by (auto simp: bindE_Inr_iff vault_load_def file_data_def split: option.splits prod.splits if_splits)
  have "vs_file (snd (mutate E k op S)) = vs_file S \<or> vs_file (snd (mutate E k op S)) = f"
    using Inr xd w by (cases r) (simp_all add: mutate_def Let_def leave_lock_file)
  with f op show ?thesis by (auto simp: file_data_def)
qed

lemma rotate_file:
  "file_data (snd (rotateKey K E secret p at S)) = file_data S
   \<or> (\<exists>m n. file_data (snd (rotateKey K E secret p at S)) = file_data S\<lparr>vd_maintenance := m, vd_revision := n\<rparr>)"
proof (cases "rotation_key K (vs_key S) secret p at")
  case (Inl e)
  then show ?thesis by (simp add: rotateKey_def)
next
  case (Inr k)
  let ?m = "mutate E k (note_rotation K (vs_key S) k p at) S"
  have "file_data (snd (bindS ?m (\<lambda>_ S. (Inr (), S\<lparr>vs_key := k\<rparr>)))) = file_data (snd ?m)"
    by (rule bindS_keeps [where P = "\<lambda>T. file_data T = file_data (snd ?m)"]) (simp_all add: file_data_def)
  with Inr have e: "file_data (snd (rotateKey K E secret p at S)) = file_data (snd ?m)" by (simp add: rotateKey_def)
  from mutate_file [of E k "note_rotation K (vs_key S) k p at" S] show ?thesis
    unfolding e by (elim disjE exE conjE) (auto simp: note_rotation_def)
qed

lemma rev_lawful:
  "vault_inv (d\<lparr>vd_revision := n\<rparr>) = vault_inv d" "lawful K c d (e\<lparr>vd_revision := n\<rparr>) = lawful K c d e"
  "vault_inv (d\<lparr>vd_maintenance := m\<rparr>) = vault_inv d" "lawful K c d (e\<lparr>vd_maintenance := m\<rparr>) = lawful K c d e"
  by (simp_all add: vault_inv_def lawful_def lawful_loss_def record_ids_def)

lemma next_lawful:
  assumes "vault_inv (file_data S)" "\<And>E c'. ev = Called E c' \<Longrightarrow> c' = c"
  shows "lawful K c (file_data S) (file_data (vault_next K W ev S))"
proof -
  note same = lawful_quiet [OF quiet_refl [OF assms(1)], of K c]
  show ?thesis
  proof (cases ev)
    case (Called E c')
    with assms(2) have "ev = Called E c" by blast
    with mutate_file [of E "vs_key S" "vault_apply K W c" S] same apply_lawful [OF _ assms(1), of K W c]
    show ?thesis by (auto simp: rev_lawful)
  next
    case (Rotated E secret operator at)
    with rotate_file [of K E secret operator at S] same show ?thesis by (auto simp: rev_lawful)
  next
    case (Reopened k)
    with same show ?thesis by (simp add: file_data_def)
  qed
qed

lemma quiet_next:
  assumes "vault_inv (file_data S)" "\<And>E c. ev \<noteq> Called E c" "the_record k (file_data S) = Some r"
  shows "k \<in> record_ids (file_data (vault_next K W ev S))"
proof (cases ev)
  case (Called E c)
  with assms(2) show ?thesis by blast
next
  case (Rotated E secret operator at)
  with rotate_file [of K E secret operator at S] the_record_ids [OF assms(3)] show ?thesis by (auto simp: record_ids_def)
next
  case (Reopened k)
  with the_record_ids [OF assms(3)] show ?thesis by (simp add: file_data_def)
qed

lemma step_next: "vault_step K W S S' \<Longrightarrow> \<exists>ev. S' = vault_next K W ev S"
  by (elim vault_step.cases) (auto intro: vault_next.simps [symmetric])

lemma step_lawful:
  assumes "vault_step K W S S'" "vault_inv (file_data S)"
  shows "\<exists>c. lawful K c (file_data S) (file_data S')"
proof -
  from step_next [OF assms(1)] obtain ev where "S' = vault_next K W ev S" by blast
  then show ?thesis
    using next_lawful [OF assms(2), of ev "case ev of Called E c \<Rightarrow> c | _ \<Rightarrow> C_purge 0"] by (auto split: vault_event.splits)
qed

lemma steps_inv:
  assumes "(vault_step K W)\<^sup>*\<^sup>* S S'" "vault_inv (file_data S)"
  shows "vault_inv (file_data S') \<and> set (vd_erasures (file_data S)) \<subseteq> set (vd_erasures (file_data S'))"
  using assms
proof (induction rule: rtranclp_induct)
  case base
  then show ?case by simp
next
  case (step S1 S2)
  with step_lawful show ?case unfolding lawful_def by blast
qed

lemma fresh_inv: "fresh_vault S \<Longrightarrow> vault_inv (file_data S)"
  by (simp add: fresh_vault_def file_data_def empty_vault_def vault_inv_def record_ids_def)

text \<open>
  C6: evidence is erased only lawfully, and for good. From an absent file, over any calls of any
  processes with any failing writes, key rotations and recovered locks: when a step makes a
  record disappear from the file, the step is an erase call that names the record, its last
  deletion request and a time, or the purge of a time and that request is an automatic one. At
  this very time the request had been made and approved by different operators, for exactly the
  present record, retention, holds and revocations; the retention deadline with its extensions
  had passed, no legal hold was open, the record was not pending or in review, no revocation of
  it was unconfirmed, and if it was blocked a confirmed revocation exists. The step leaves a
  tombstone of the record, the request and the time, and the record never comes back.
\<close>

theorem vault_erasure_lawful:
  assumes "fresh_vault S0" "(vault_step K W)\<^sup>*\<^sup>* S0 S"
    and "the_record k (file_data S) = Some r" "the_record k (file_data (vault_next K W ev S)) = None"
  shows "(\<exists>E c t q. ev = Called E c \<and> erasure_call c k q t \<and> erasable K r q t (file_data S)
      \<and> tombstone k q t \<in> set (vd_erasures (file_data (vault_next K W ev S))))
    \<and> (\<forall>S''. (vault_step K W)\<^sup>*\<^sup>* (vault_next K W ev S) S'' \<longrightarrow> the_record k (file_data S'') = None)"
proof -
  let ?S' = "vault_next K W ev S"
  have inv: "vault_inv (file_data S)" using steps_inv [OF assms(2) fresh_inv [OF assms(1)]] by blast
  have gone: "k \<notin> record_ids (file_data ?S')"
    using assms(4) by (simp add: the_record_def record_ids_def map_of_eq_None_iff)
  with quiet_next [OF inv _ assms(3)] obtain E c where ev: "ev = Called E c" by blast
  with next_lawful [OF inv, of ev c K W] have l: "lawful K c (file_data S) (file_data ?S')" by simp
  with assms(3) gone obtain t q where e: "erasure_call c k q t" "erasable K r q t (file_data S)"
      "tombstone k q t \<in> set (vd_erasures (file_data ?S'))"
    unfolding lawful_def lawful_loss_def by blast
  have "the_record k (file_data S'') = None" if "(vault_step K W)\<^sup>*\<^sup>* ?S' S''" for S''
  proof -
    from l have "vault_inv (file_data ?S')" by (simp add: lawful_def)
    from steps_inv [OF that this] e have "vault_inv (file_data S'')" "tombstone k q t \<in> set (vd_erasures (file_data S''))" by blast+
    then have "k \<notin> record_ids (file_data S'')" by (auto simp: vault_inv_def tombstone_def)
    then show ?thesis by (simp add: the_record_def record_ids_def map_of_eq_None_iff)
  qed
  with ev e show ?thesis by blast
qed

subsection \<open>The outbox of revocations\<close>

definition job_kept :: "'o revocation_job \<Rightarrow> 'o revocation_job \<Rightarrow> bool" where
  "job_kept j j' \<longleftrightarrow> (\<forall>t. rj_transaction j = Some t \<longrightarrow> (\<exists>t'. rj_transaction j' = Some t' \<and> rt_hash t' = rt_hash t))
     \<and> (rj_state j = J_confirmed \<longrightarrow> rj_state j' = J_confirmed) \<and> rj_recordId j' = rj_recordId j"

definition jobs_kept :: "string set \<Rightarrow> 'o vault_data \<Rightarrow> 'o vault_data \<Rightarrow> bool" where
  "jobs_kept X d d' \<longleftrightarrow> (\<forall>k j. k \<notin> X \<longrightarrow> map_of (vd_revocations d) k = Some j
     \<longrightarrow> (\<exists>j'. map_of (vd_revocations d') k = Some j' \<and> job_kept j j'))"

definition reverted :: "'o vault_call \<Rightarrow> string set" where
  "reverted c = (case c of C_fail k _ True \<Rightarrow> {k} | _ \<Rightarrow> {})"

lemma job_kept_refl [simp]: "job_kept j j"
  by (simp add: job_kept_def)

lemma jobs_kept_same: "vd_revocations d' = vd_revocations d \<Longrightarrow> jobs_kept X d d'"
  by (simp add: jobs_kept_def)

lemma jobs_put [simp]:
  "vd_revocations (put_record k r d) = vd_revocations d" "vd_revocations (put_controls k c d) = vd_revocations d"
  "vd_revocations (put_job k j d) = AList.update k j (vd_revocations d)"
  by (simp_all add: put_record_def put_controls_def put_job_def)

lemma jobs_kept_put: "map_of (vd_revocations d) k = Some j \<Longrightarrow> job_kept j j' \<or> k \<in> X \<Longrightarrow> jobs_kept X d (put_job k j' d)"
  by (auto simp: jobs_kept_def AList.update_conv')

lemma jobs_kept_queue: "queueRevocation r at d = Inr d' \<Longrightarrow> jobs_kept X d d'"
  by (auto simp: queueRevocation_def Let_def jobs_kept_def AList.update_conv' split: if_splits)

lemma job_kept_trans: "job_kept a b \<Longrightarrow> job_kept b c \<Longrightarrow> job_kept a c"
  unfolding job_kept_def by metis

lemma jobs_kept_trans: "jobs_kept X d e \<Longrightarrow> jobs_kept X e f \<Longrightarrow> jobs_kept X d f"
  unfolding jobs_kept_def by (meson job_kept_trans)

lemma jobs_kept_recover: "recover_records now rs d = Inr d' \<Longrightarrow> jobs_kept X d d'"
proof (induction rs arbitrary: d)
  case Nil
  then show ?case by (simp add: jobs_kept_same)
next
  case (Cons r rs)
  then obtain e where "(if vr_state r = V_blocked \<and> jobs_of (vr_id r) d = [] then queueRevocation r now d else Inr d) = Inr e"
    "recover_records now rs e = Inr d'" by (auto simp: bindE_Inr_iff)
  with Cons.IH show ?case
    by (auto intro: jobs_kept_trans [OF jobs_kept_queue] split: if_splits)
qed

lemma jobs_kept_via: "vd_revocations d = vd_revocations e \<Longrightarrow> jobs_kept X e f \<Longrightarrow> jobs_kept X d f"
  by (simp add: jobs_kept_def)

lemma jobs_kept_rescreen: "recordRescreen k e z d = Inr (x, d') \<Longrightarrow> jobs_kept X d d'"
  by (auto simp: recordRescreen_def op_splits split: option.splits if_splits
      intro: jobs_kept_same dest: jobs_kept_via [OF _ jobs_kept_queue, rotated])

lemma jobs_kept_review: "decideReview K key k e z d = Inr (x, d') \<Longrightarrow> jobs_kept X d d'"
  by (auto simp: decideReview_def op_splits split: option.splits if_splits
      intro: jobs_kept_same dest: jobs_kept_via [OF _ jobs_kept_queue, rotated])

lemma mustGetJob_Inr: "mustGetJob k d = Inr j \<longleftrightarrow> map_of (vd_revocations d) k = Some j"
  by (simp add: mustGetJob_def split: option.splits)

lemma jobs_kept_prepare: "prepareRevocation k t d = Inr (x, d') \<Longrightarrow> jobs_kept X d d'"
  by (auto simp: prepareRevocation_def op_splits mustGetJob_Inr job_kept_def intro!: jobs_kept_put)

lemma jobs_kept_finish: "finishRevocation k at d = Inr (x, d') \<Longrightarrow> jobs_kept X d d'"
  by (auto simp: finishRevocation_def op_splits mustGetJob_Inr job_kept_def intro!: jobs_kept_put split: option.splits)

lemma jobs_kept_fail: "failRevocation k err m d = Inr (x, d') \<Longrightarrow> jobs_kept (if m then {k} else {}) d d'"
  by (auto simp: failRevocation_def op_splits mustGetJob_Inr job_kept_def intro!: jobs_kept_put)

lemma jobs_kept_observe: "recordRevocationObservation W k j ob at d = Inr (x, d') \<Longrightarrow> jobs_kept X d d'"
  by (auto simp: recordRevocationObservation_def op_splits job_kept_def intro!: jobs_kept_put intro: jobs_kept_same split: option.splits if_splits)

lemma purge_jobs: "vd_revocations (snd (purge_records K now rs (n, d))) = vd_revocations d"
  by (induction rs arbitrary: n d) (auto simp: erase_fields split: option.splits)

lemma jobs_kept_purge: "purgeExpired K now d = Inr (x, d') \<Longrightarrow> jobs_kept X d d'"
  using purge_jobs [of K now "map snd (vd_records d)" 0 d] by (auto simp: purgeExpired_def bindE_Inr_iff intro!: jobs_kept_same)

text \<open>Operations that do not touch the outbox, by the structure of their definitions.\<close>

definition same_jobs :: "'o vault_data \<Rightarrow> string + 'a \<times> 'o vault_data \<Rightarrow> bool" where
  "same_jobs d m \<longleftrightarrow> (\<forall>x d'. m = Inr (x, d') \<longrightarrow> vd_revocations d' = vd_revocations d)"

lemma same_jobs_bind: "(\<And>y. same_jobs d (k y)) \<Longrightarrow> same_jobs d (bindE m k)"
  by (cases m) (auto simp: same_jobs_def bindE_def)

lemma same_jobs_end [simp]: "same_jobs d (Inl e)" "same_jobs d (Inr (x, d')) \<longleftrightarrow> vd_revocations d' = vd_revocations d"
  by (auto simp: same_jobs_def)

lemma same_jobs_kept: "same_jobs d m \<Longrightarrow> m = Inr (x, d') \<Longrightarrow> jobs_kept X d d'"
  by (simp add: same_jobs_def jobs_kept_def)

lemma jobs_same_vault_put: "same_jobs d (vault_put r d)"
  unfolding vault_put_def Let_def by (intro same_jobs_bind) (auto split: option.split intro!: same_jobs_bind simp: erase_fields)

lemma jobs_same_recordMaterialization: "same_jobs d (recordMaterialization k h d)"
  unfolding recordMaterialization_def Let_def by (intro same_jobs_bind) (auto split: option.split intro!: same_jobs_bind simp: erase_fields)

lemma jobs_same_recordSourceConfirmation: "same_jobs d (recordSourceConfirmation k h so d)"
  unfolding recordSourceConfirmation_def Let_def by (intro same_jobs_bind) (auto split: option.split intro!: same_jobs_bind simp: erase_fields)

lemma jobs_same_extendRetention: "same_jobs d (extendRetention k n p f at d)"
  unfolding extendRetention_def Let_def by (intro same_jobs_bind) (auto split: option.split intro!: same_jobs_bind simp: erase_fields)

lemma jobs_same_placeHold: "same_jobs d (placeHold k h p f at d)"
  unfolding placeHold_def Let_def by (intro same_jobs_bind) (auto split: option.split intro!: same_jobs_bind simp: erase_fields)

lemma jobs_same_releaseHold: "same_jobs d (releaseHold k h p f at d)"
  unfolding releaseHold_def Let_def by (intro same_jobs_bind) (auto split: option.split intro!: same_jobs_bind simp: erase_fields)

lemma jobs_same_requestDeletion: "same_jobs d (requestDeletion K i k p f s dp au at d)"
  unfolding requestDeletion_def Let_def by (intro same_jobs_bind) (auto split: option.split intro!: same_jobs_bind simp: erase_fields)

lemma jobs_same_approveDeletion: "same_jobs d (approveDeletion K k i p at d)"
  unfolding approveDeletion_def Let_def by (intro same_jobs_bind) (auto split: option.split intro!: same_jobs_bind simp: erase_fields)

lemma jobs_same_vault_erase: "same_jobs d (vault_erase K k i at d)"
  unfolding vault_erase_def Let_def by (intro same_jobs_bind) (auto split: option.split intro!: same_jobs_bind simp: erase_fields)

lemmas jobs_kept_quiet = same_jobs_kept [OF jobs_same_vault_put]
  same_jobs_kept [OF jobs_same_recordMaterialization]
  same_jobs_kept [OF jobs_same_recordSourceConfirmation]
  same_jobs_kept [OF jobs_same_extendRetention]
  same_jobs_kept [OF jobs_same_placeHold]
  same_jobs_kept [OF jobs_same_releaseHold]
  same_jobs_kept [OF jobs_same_requestDeletion]
  same_jobs_kept [OF jobs_same_approveDeletion]
  same_jobs_kept [OF jobs_same_vault_erase]

lemma apply_jobs_kept: "vault_apply K W c d = Inr (x, d') \<Longrightarrow> jobs_kept (reverted c) d d'"
  by (cases c)
     (auto simp: unit_op_Inr reverted_def recoverBlockedRevocations_def bindE_Inr_iff
       intro: jobs_kept_quiet jobs_kept_rescreen jobs_kept_review jobs_kept_purge jobs_kept_observe jobs_kept_recover jobs_kept_prepare
         jobs_kept_finish dest!: jobs_kept_fail split: bool.splits)

definition blocks :: "'o vault_call \<Rightarrow> string \<Rightarrow> bool" where
  "blocks c k = (case c of C_rescreen k' e _ \<Rightarrow> k' = k \<and> rs_decision e = BLOCK
     | C_review _ k' e _ \<Rightarrow> k' = k \<and> re_outcome e = Blocked | _ \<Rightarrow> False)"

lemma queue_unconfirmed:
  assumes "queueRevocation r at d = Inr d'"
  shows "unconfirmed_jobs (vr_id r) d' \<and> vd_records d' = vd_records d"
proof (cases "\<exists>j \<in> set (jobs_of (vr_id r) d). rj_state j \<noteq> J_confirmed")
  case True
  with assms show ?thesis by (auto simp: queueRevocation_def unconfirmed_jobs_def)
next
  case False
  with assms obtain k j where j: "d' = put_job k j d" "rj_recordId j = vr_id r" "rj_state j = J_pending"
    by (auto simp: queueRevocation_def Let_def split: if_splits)
  have "(k, j) \<in> set (AList.update k j (vd_revocations d))"
    by (induction "vd_revocations d" arbitrary: d) (auto simp: map_of_SomeD AList.update_conv' intro!: map_of_SomeD)
  with j show ?thesis by (force simp: unconfirmed_jobs_def jobs_of_def put_job_def)
qed

lemma the_put_record: "the_record k (put_record k r d) = Some r"
  by (simp add: the_record_def put_record_def AList.update_conv')

lemma blocked_queued:
  assumes "queueRevocation r at (put_record k r d) = Inr d'" "vr_id r = k"
  shows "unconfirmed_jobs k d' \<and> the_record k d' = Some r"
  using queue_unconfirmed [OF assms(1)] assms(2) the_put_record [of k r d] by (simp add: the_record_def)

lemma rescreen_blocks:
  assumes "recordRescreen k e z d = Inr (x, d')" "rs_decision e = BLOCK" "vault_inv d"
  shows "unconfirmed_jobs k d' \<and> (\<exists>r. the_record k d' = Some r \<and> vr_state r = V_blocked)"
proof (cases "the_record k d")
  case None
  with assms show ?thesis by (simp add: recordRescreen_def)
next
  case (Some r)
  let ?r = "r\<lparr>vr_lastScreenedAt := Some (rs_at e), vr_rescreens := vr_rescreens r @ [e], vr_state := V_blocked\<rparr>"
  from assms Some have "queueRevocation ?r (rs_at e) (put_record k ?r d) = Inr d'"
    by (auto simp: recordRescreen_def op_splits)
  from blocked_queued [OF this] inv_id [OF assms(3) Some] show ?thesis by simp
qed

lemma review_blocks:
  assumes "decideReview K key k e z d = Inr (x, d')" "re_outcome e = Blocked" "vault_inv d"
  shows "unconfirmed_jobs k d' \<and> (\<exists>r. the_record k d' = Some r \<and> vr_state r = V_blocked)"
proof (cases "the_record k d")
  case None
  with assms show ?thesis by (simp add: decideReview_def)
next
  case (Some r)
  let ?r = "r\<lparr>vr_reviews := vr_reviews r @ [e\<lparr>re_basedOn := Some z\<rparr>], vr_state := V_blocked\<rparr>"
  from assms Some have "queueRevocation ?r (re_at e) (put_record k ?r d) = Inr d'"
    by (auto simp: decideReview_def op_splits)
  from blocked_queued [OF this] inv_id [OF assms(3) Some] show ?thesis by simp
qed

text \<open>
  C31: the outbox of revocations. In every reachable vault, an operation that succeeds keeps every
  revocation job: a job with a signed transaction keeps a transaction of the same hash, and a
  confirmed job stays confirmed, unless the call reports a mined revert of this very job; and a
  decision that blocks a record leaves it blocked with an unconfirmed job for it in the same
  write.
\<close>

theorem revocation_outbox:
  assumes "fresh_vault S0" "(vault_step K W)\<^sup>*\<^sup>* S0 S" "vault_apply K W c (file_data S) = Inr (x, d')"
  shows "jobs_kept (reverted c) (file_data S) d'
    \<and> (\<forall>k. blocks c k \<longrightarrow> unconfirmed_jobs k d' \<and> (\<exists>r. the_record k d' = Some r \<and> vr_state r = V_blocked))"
proof -
  have inv: "vault_inv (file_data S)" using steps_inv [OF assms(2) fresh_inv [OF assms(1)]] by blast
  have "unconfirmed_jobs k d' \<and> (\<exists>r. the_record k d' = Some r \<and> vr_state r = V_blocked)" if "blocks c k" for k
    using that assms(3) rescreen_blocks [OF _ _ inv] review_blocks [OF _ _ inv]
    by (cases c) (auto simp: blocks_def unit_op_Inr)
  with apply_jobs_kept [OF assms(3)] show ?thesis by blast
qed

definition run_crypto :: "unit vault_crypto" where
  "run_crypto = \<lparr>vc_fingerprint = (\<lambda>_ _ _ _ _. ''f''), vc_reviewRevision = (\<lambda>_ _ _ _. ''v''), vc_commitment = (\<lambda>_. ''c''), vc_keyId = (\<lambda>k. k)\<rparr>"

definition run_view :: "unit observation_view" where
  "run_view = \<lparr>ov_normalize = Inr, ov_observedAt = (\<lambda>_. 0), ov_transactionHash = (\<lambda>_. []), ov_source = (\<lambda>_. [])\<rparr>"

definition run_record :: vault_record where
  "run_record = \<lparr>vr_id = ''r'', vr_walletAddress = ''w'', vr_consentVersion = ''1'', vr_processingCustomer = None, vr_retentionPolicy = None,
     vr_fullName = ''n'', vr_subject = JsNull, vr_evidenceHash = ''h'', vr_evidence = JsNull, vr_attrs = None, vr_claimsRoot = None,
     vr_claims = None, vr_state = V_active, vr_createdAt = 1, vr_retentionUntil = 2, vr_lastScreenedAt = None, vr_rescreens = [],
     vr_reviews = [], vr_sourceIssuance = None\<rparr>"

definition run_vault :: "unit vault_call list \<Rightarrow> unit vault_store" where
  "run_vault cs = foldl (\<lambda>S c. snd (mutate \<lparr>we_busy = False, we_noted = True, we_failing = None, we_closed = True, we_unlinked = True\<rparr>
     (vs_key S) (vault_apply run_crypto run_view c) S)) \<lparr>vs_file = None, vs_lock = False, vs_unconfirmed = False, vs_key = ''k''\<rparr> cs"

definition run_calls :: "unit vault_call list" where
  "run_calls = [C_put run_record, C_request ''q'' ''r'' ''a'' ''p'' ''s'' Unchanged False 3, C_approve ''r'' ''q'' ''b'' 4]"

lemma run_vault_steps: "(vault_step run_crypto run_view)\<^sup>*\<^sup>* (run_vault []) (run_vault cs)"
proof (induction cs rule: rev_induct)
  case Nil
  then show ?case by simp
next
  case (snoc c cs)
  have "vault_step run_crypto run_view (run_vault cs) (run_vault (cs @ [c]))"
    unfolding run_vault_def foldl_append foldl.simps by (rule vault_step.called)
  with snoc show ?case by simp
qed

lemmas run_vault_defs = mutate_def vault_load_def leave_lock_def writeVaultEnvelope_def empty_vault_def vault_put_def requestDeletion_def
  approveDeletion_def vault_erase_def safetyBlockers_def deletionBlockers_def last_request_def controls_def put_controls_def put_record_def
  the_record_def mustGet_def jobs_of_def unconfirmed_jobs_def confirmed_jobs_def note_if_def deletion_blocked_def retentionDeadline_def
  timestamp_def reference_def ref_char_def ref_first_def eraseApproved_def bindE_def unit_op_def no_controls_def deletionFingerprint_def

lemma run_calls_record: "the_record ''r'' (file_data (run_vault run_calls)) = Some run_record"
  and run_calls_erased: "the_record ''r'' (file_data (run_vault (run_calls @ [C_erase ''r'' ''q'' 5]))) = None"
  by (simp_all add: run_vault_def run_calls_def run_vault_defs run_crypto_def run_record_def file_data_def Let_def requireE_def
      is_safe_def max_safe_def)

definition run_env :: write_env where
  "run_env = \<lparr>we_busy = False, we_noted = True, we_failing = None, we_closed = True, we_unlinked = True\<rparr>"

lemma run_vault_next: "vault_next run_crypto run_view (Called run_env c) (run_vault cs) = run_vault (cs @ [c])"
  by (simp add: run_vault_def run_env_def)

theorem vault_erasure_lawful_witness:
  "(\<exists>q. erasure_call (C_erase ''r'' ''q'' 5 :: unit vault_call) ''r'' q 5
      \<and> erasable run_crypto run_record q 5 (file_data (run_vault run_calls))
      \<and> tombstone ''r'' q 5 \<in> set (vd_erasures (file_data (run_vault (run_calls @ [C_erase ''r'' ''q'' 5])))))
   \<and> the_record ''r'' (file_data (run_vault (run_calls @ [C_erase ''r'' ''q'' 5, C_put run_record]))) = None"
proof -
  let ?c = "C_erase ''r'' ''q'' 5 :: unit vault_call" and ?S' = "run_vault (run_calls @ [C_erase ''r'' ''q'' 5])"
  have f: "fresh_vault (run_vault [])" by (simp add: fresh_vault_def run_vault_def)
  have gone: "the_record ''r'' (file_data (vault_next run_crypto run_view (Called run_env ?c) (run_vault run_calls))) = None"
    unfolding run_vault_next by (rule run_calls_erased)
  have later: "(vault_step run_crypto run_view)\<^sup>*\<^sup>* ?S' (run_vault (run_calls @ [?c, C_put run_record]))"
    unfolding run_vault_def foldl_append foldl.simps by (rule r_into_rtranclp) (rule vault_step.called)
  from vault_erasure_lawful [OF f run_vault_steps run_calls_record gone] obtain t q where
    "erasure_call ?c ''r'' q t" "erasable run_crypto run_record q t (file_data (run_vault run_calls))"
    "tombstone ''r'' q t \<in> set (vd_erasures (file_data ?S'))"
    and final: "\<forall>S''. (vault_step run_crypto run_view)\<^sup>*\<^sup>* ?S' S'' \<longrightarrow> the_record ''r'' (file_data S'') = None"
    unfolding run_vault_next by blast
  moreover from this(1) have "t = 5" by (simp add: erasure_call_def)
  ultimately show ?thesis using final later by blast
qed

definition run_block :: rescreen_event where
  "run_block = \<lparr>rs_at = 7, rs_decision = BLOCK, rs_reason = None, rs_listVersions = []\<rparr>"

lemma run_block_applies: "\<exists>d'. vault_apply run_crypto run_view (C_rescreen ''r'' run_block run_record) (file_data (run_vault [C_put run_record])) = Inr ((), d')"
  by (simp add: run_vault_def run_vault_defs run_crypto_def run_record_def file_data_def Let_def requireE_def is_safe_def max_safe_def
      run_block_def recordRescreen_def queueRevocation_def latest_decision_def)

theorem revocation_outbox_witness:
  "\<exists>d'. vault_apply run_crypto run_view (C_rescreen ''r'' run_block run_record) (file_data (run_vault [C_put run_record])) = Inr ((), d')
     \<and> unconfirmed_jobs ''r'' d'"
proof -
  obtain d' where d: "vault_apply run_crypto run_view (C_rescreen ''r'' run_block run_record) (file_data (run_vault [C_put run_record])) = Inr ((), d')"
    using run_block_applies by blast
  have f: "fresh_vault (run_vault [])" by (simp add: fresh_vault_def run_vault_def)
  have b: "blocks (C_rescreen ''r'' run_block run_record) ''r''" by (simp add: blocks_def run_block_def)
  from revocation_outbox [OF f run_vault_steps d] b d show ?thesis by blast
qed

end
