(* ===== verification/Revocation_Delivery.thy ===== *)
theory Revocation_Delivery
  imports Vault_Props
begin

text \<open>
  The runner of scheduled rescreens and of the outbox of revocations, \<open>pipeline/rescreen.ts\<close>, on the
  vault of theory \<open>Vault\<close>. The screening engine and the transport (signing, receipts, broadcast)
  are arguments. At every \<open>await\<close> other processes may use the same vault: what they leave behind is
  a function of the store, an argument as well. The trace holds each call of the transport that
  matters with the vault at that moment.
\<close>

subsection \<open>Screening what is due\<close>

record screen_answer =
  sa_decision :: decision
  sa_reason :: "string option"
  sa_listVersions :: "(string \<times> int) list"
  sa_riskBand :: string

record screen_row =
  sw_recordId :: string
  sw_walletAddress :: string
  sw_decision :: decision
  sw_riskBand :: string

text \<open>What the engine answers, the writes of the vault, and the other processes.\<close>

record 'o screen_env =
  se_versions :: "string + (string \<times> js_num) list"
  se_screen :: "vault_record \<Rightarrow> string + screen_answer"
  se_write :: "string \<Rightarrow> write_env"
  se_listed :: "'o vault_store \<Rightarrow> 'o vault_store"
  se_screened :: "string \<Rightarrow> 'o vault_store \<Rightarrow> 'o vault_store"

definition checked_versions :: "(string \<times> js_num) list \<Rightarrow> string + (string \<times> int) list" where
  "checked_versions vs = bindE (requireE ''INVALID_SCREENING_LIST_VERSIONS''
     (list_all (\<lambda>(k, n). k \<noteq> [] \<and> js_safe n \<and> 0 \<le> js_val n) vs)) (\<lambda>_. Inr (map (\<lambda>(k, n). (k, js_val n)) vs))"

definition versions_same :: "(string \<times> int) list \<Rightarrow> (string \<times> int) list \<Rightarrow> bool" where
  "versions_same result current \<longleftrightarrow> list_all2 (\<lambda>a b. a = b \<and> map_of result a = map_of current a)
     (sort (map fst result)) (sort (map fst current))"

text \<open>The map \<open>selected\<close>: what was due first, then what only the list versions made due.\<close>

definition add_selected :: "vault_record list \<Rightarrow> vault_record list \<Rightarrow> vault_record list" where
  "add_selected first later = first @ filter (\<lambda>r. vr_id r \<notin> vr_id ` set first) later"

definition screen_record :: "'o screen_env \<Rightarrow> int \<Rightarrow> bool \<Rightarrow> (string \<times> int) list \<Rightarrow> vault_record
    \<Rightarrow> 'o vault_store \<Rightarrow> ('o vault_store, string, screen_row) st_res" where
  "screen_record E now persist versions r S = (case se_screen E r of
     Inl e \<Rightarrow> (Inl e, S)
   | Inr a \<Rightarrow> let S1 = se_screened E (vr_id r) S in
       if \<not> versions_same (sa_listVersions a) versions then (Inl ''SCREENING_LIST_VERSIONS_CHANGED'', S1)
       else bindS (if persist then mutate (se_write E (vr_id r)) (vs_key S1) (recordRescreen (vr_id r)
             \<lparr>rs_at = now, rs_decision = sa_decision a, rs_reason = sa_reason a, rs_listVersions = sa_listVersions a\<rparr> r) S1
           else (Inr r, S1))
         (\<lambda>_ S2. (Inr \<lparr>sw_recordId = vr_id r, sw_walletAddress = vr_walletAddress r, sw_decision = sa_decision a,
           sw_riskBand = sa_riskBand a\<rparr>, S2)))"

fun screen_records :: "'o screen_env \<Rightarrow> int \<Rightarrow> bool \<Rightarrow> (string \<times> int) list \<Rightarrow> vault_record list
    \<Rightarrow> 'o vault_store \<Rightarrow> ('o vault_store, string, screen_row list) st_res" where
  "screen_records E now persist versions [] S = (Inr [], S)"
| "screen_records E now persist versions (r # rs) S = bindS (screen_record E now persist versions r S) (\<lambda>row S.
     bindS (screen_records E now persist versions rs S) (\<lambda>rows S. (Inr (row # rows), S)))"

definition screenDue :: "'o screen_env \<Rightarrow> int \<Rightarrow> int \<Rightarrow> bool \<Rightarrow> 'o vault_store \<Rightarrow> ('o vault_store, string, screen_row list) st_res" where
  "screenDue E now interval persist S = (case vault_load S of
     Inl e \<Rightarrow> (Inl e, S)
   | Inr d0 \<Rightarrow> (case bindE (se_versions E) checked_versions of
       Inl e \<Rightarrow> (Inl e, se_listed E S)
     | Inr versions \<Rightarrow> (case vault_load (se_listed E S) of
         Inl e \<Rightarrow> (Inl e, se_listed E S)
       | Inr d1 \<Rightarrow> screen_records E now persist versions
           (add_selected (listForRescreen now interval None d0) (listForRescreen now interval (Some versions) d1)) (se_listed E S))))"

subsection \<open>Delivering revocations\<close>

datatype tx_outcome = Tx_Success | Tx_Reverted

text \<open>
  The answers for one job: the signature, the check of the job, the receipt, the broadcast (its
  errors are dropped), the wait; the writes of the vault and the clock; and the vault as the
  other processes leave it after the signature (0), the receipt (1) and the wait (2).
\<close>

record 'o job_env =
  je_prepare :: "string + revocation_tx"
  je_assertJob :: "'o revocation_job \<Rightarrow> revocation_tx \<Rightarrow> bool"
  je_receipt :: "string + tx_outcome option"
  je_wait :: "string + tx_outcome option"
  je_write :: "nat \<Rightarrow> write_env"
  je_now :: int
  je_others :: "nat \<Rightarrow> 'o vault_store \<Rightarrow> 'o vault_store"

datatype 'o delivery_event =
    Signed string revocation_tx "'o vault_store"
  | Checked string revocation_tx "'o vault_store"
  | Sent string revocation_tx "'o vault_store"

type_synonym 'o delivery = "'o vault_store \<times> 'o delivery_event list"

text \<open>A write of the vault inside the runner.\<close>

definition vault_write :: "write_env \<Rightarrow> ('o, 'a) vault_op \<Rightarrow> 'o delivery \<Rightarrow> ('o delivery, string, 'a) st_res" where
  "vault_write W op D = (case D of (S, log) \<Rightarrow> (case mutate W (vs_key S) op S of (r, S') \<Rightarrow> (r, (S', log))))"

definition signed_job :: "'o job_env \<Rightarrow> 'o revocation_job \<Rightarrow> 'o delivery \<Rightarrow> ('o delivery, string, 'o revocation_job) st_res" where
  "signed_job E j D = (case D of (S, log) \<Rightarrow> (case rj_transaction j of
     Some t \<Rightarrow> (Inr j, D)
   | None \<Rightarrow> (case je_prepare E of
       Inl e \<Rightarrow> (Inl e, D)
     | Inr t \<Rightarrow> vault_write (je_write E 0) (prepareRevocation (rj_id j) t) (je_others E 0 S, log @ [Signed (rj_id j) t S]))))"

definition final_receipt :: "'o job_env \<Rightarrow> string \<Rightarrow> revocation_tx \<Rightarrow> 'o delivery \<Rightarrow> ('o delivery, string, tx_outcome option) st_res" where
  "final_receipt E k t D = (case D of (S, log) \<Rightarrow>
     let log1 = log @ [Checked k t S]; S1 = je_others E 1 S in
     (case je_receipt E of
       Inl e \<Rightarrow> (Inl e, (S1, log1))
     | Inr (Some out) \<Rightarrow> (Inr (Some out), (S1, log1))
     | Inr None \<Rightarrow> (case assertWritable S1 of
         Inl e \<Rightarrow> (Inl e, (S1, log1))
       | Inr _ \<Rightarrow> (je_wait E, (je_others E 2 S1, log1 @ [Sent k t S1])))))"

datatype job_result = Job_Confirmed | Job_Failed | Job_Unknown

definition record_outcome :: "'o job_env \<Rightarrow> string \<Rightarrow> tx_outcome option \<Rightarrow> 'o delivery \<Rightarrow> ('o delivery, string, job_result) st_res" where
  "record_outcome E k out D = (case out of
     Some Tx_Success \<Rightarrow> bindS (vault_write (je_write E 1) (finishRevocation k (je_now E)) D) (\<lambda>_ D. (Inr Job_Confirmed, D))
   | Some Tx_Reverted \<Rightarrow> bindS (vault_write (je_write E 1) (failRevocation k ''source transaction reverted'' True) D)
       (\<lambda>_ D. (Inr Job_Failed, D))
   | None \<Rightarrow> bindS (vault_write (je_write E 1) (failRevocation k ''source confirmation pending'' False) D)
       (\<lambda>_ D. (Inr Job_Unknown, D)))"

definition try_job :: "'o job_env \<Rightarrow> 'o revocation_job \<Rightarrow> 'o delivery \<Rightarrow> ('o delivery, string, job_result) st_res" where
  "try_job E j0 D = bindS (signed_job E j0 D) (\<lambda>j D. case rj_transaction j of
     None \<Rightarrow> (Inl ''missing transaction'', D)
   | Some t \<Rightarrow>
       if \<not> je_assertJob E j t then (Inl ''revocation job rejected'', D)
       else bindS (final_receipt E (rj_id j) t D) (record_outcome E (rj_id j)))"

text \<open>The loop; the results count what was confirmed and what failed.\<close>

fun deliver_jobs :: "(string \<Rightarrow> 'o job_env) \<Rightarrow> 'o revocation_job list \<Rightarrow> nat \<Rightarrow> nat \<Rightarrow> 'o delivery
    \<Rightarrow> ('o delivery, string, nat \<times> nat) st_res" where
  "deliver_jobs E [] c f D = (Inr (c, f), D)"
| "deliver_jobs E (j # js) c f D = (case try_job (E (rj_id j)) j D of
     (Inr Job_Confirmed, D') \<Rightarrow> deliver_jobs E js (c + 1) f D'
   | (Inr Job_Failed, D') \<Rightarrow> deliver_jobs E js c (f + 1) D'
   | (Inr Job_Unknown, D') \<Rightarrow> (Inr (c, f + 1), D')
   | (Inl _, D') \<Rightarrow> bindS (vault_write (je_write (E (rj_id j)) 2)
         (failRevocation (rj_id j) ''transport or persistence failure; reconcile by stored transaction hash'' False) D')
       (\<lambda>_ D. (Inr (c, f + 1), D)))"

definition deliverRevocations :: "(string \<Rightarrow> 'o job_env) \<Rightarrow> 'o delivery \<Rightarrow> ('o delivery, string, nat \<times> nat \<times> nat) st_res" where
  "deliverRevocations E D = (case bindE (assertWritable (fst D)) (\<lambda>_. vault_load (fst D)) of
     Inl e \<Rightarrow> (Inl e, D)
   | Inr d \<Rightarrow> bindS (deliver_jobs E (listPendingRevocations d) 0 0 D) (\<lambda>(c, f) D.
       case vault_load (fst D) of Inl e \<Rightarrow> (Inl e, D) | Inr d' \<Rightarrow> (Inr (c, f, length (listPendingRevocations d')), D)))"

text \<open>The check that every transport makes first (\<open>rescreen-evm.ts\<close> calls it).\<close>

definition assertRevocationTarget :: "'o revocation_job \<Rightarrow> int \<Rightarrow> string \<Rightarrow> string + unit" where
  "assertRevocationTarget j chain src = requireE ''revocation target does not match retained source issuance''
     (case rj_sourceTarget j of None \<Rightarrow> True | Some (c, s) \<Rightarrow> c = chain \<and> same s src)"

end
