(* ===== verification/Revocation_Check.thy ===== *)
theory Revocation_Check
  imports Revocation_Delivery
begin

text \<open>
  The check of a delivered revocation against both chains, \<open>pipeline/revocation-check.ts\<close>, and the
  normalized observation that the vault records, \<open>pipeline/revocation-observation.ts\<close>. The answers
  of the two nodes are the fields of \<open>check_reads\<close>, one for each moment at which the code asks; a
  request that fails ends the check with the error of the request and is left out. The address
  test, \<open>keccak256\<close> and the decoding of the event are arguments.
\<close>

subsection \<open>Data\<close>

record check_config =
  kc_source :: string
  kc_asc :: string
  kc_registry :: string
  kc_revoker :: string
  kc_sourceCode :: string
  kc_ascCode :: string
  kc_registryCode :: string
  kc_policyIds :: "js_num list"
  kc_confirmations :: js_num

record chain_head =
  ch_number :: js_num
  ch_hash :: "string option"
  ch_time :: js_num

record check_log =
  cl_address :: string
  cl_topics :: "string list"
  cl_data :: string

record check_receipt =
  cr_hash :: string
  cr_to :: "string option"
  cr_from :: string
  cr_block :: js_num
  cr_index :: js_num
  cr_blockHash :: string
  cr_status :: "int option"
  cr_logs :: "check_log list"

record check_reads =
  rd_sourceChain :: int
  rd_hubChain :: int
  rd_sourceHead :: "chain_head option"
  rd_hubHead :: "chain_head option"
  rd_sourceCode :: string
  rd_ascCode :: string
  rd_registryCode :: string
  rd_receipt :: "check_receipt option"
  rd_receiptBlock :: "chain_head option"
  rd_codeAtReceipt :: string
  rd_boundSource :: string
  rd_chainKey :: int
  rd_version :: int
  rd_boundAsc :: string
  rd_policyVersion :: int
  rd_tombstone :: bool
  rd_height :: int
  rd_txIndex :: int
  rd_logIndex :: int
  rd_policy :: "int \<Rightarrow> string \<times> bool \<times> bool"
  rd_receiptBlockAgain :: "chain_head option"
  rd_sourceHeadAgain :: "chain_head option"
  rd_hubHeadAgain :: "chain_head option"

record check_lib =
  xl_isAddress :: "string \<Rightarrow> bool"
  xl_keccak :: "string \<Rightarrow> string"
  xl_revoked :: "check_log \<Rightarrow> (string \<times> int) option"

datatype enforcement = ENFORCED | SUPERSEDED | INCONSISTENT | AWAITING_HUB

record observed_head =
  oh_block :: js_num
  oh_hash :: string
  oh_time :: js_num

record observed_source =
  os_tx :: string
  os_block :: js_num
  os_blockHash :: string
  os_index :: js_num
  os_logIndex :: js_num
  os_confirmations :: js_num
  os_head :: observed_head

record observed_hub =
  hu_head :: observed_head
  hu_tombstone :: bool
  hu_height :: string
  hu_txIndex :: string
  hu_logIndex :: string
  hu_policies :: "(js_num \<times> bool) list"

datatype check_result =
    Unsigned
  | Source_Pending string
  | Source_Unconfirmed string int
  | Source_Reverted string
  | Observed enforcement observed_source observed_hub int

record revocation_observation =
  vo_operator :: string
  vo_observedAt :: js_num
  vo_config :: check_config
  vo_state :: enforcement
  vo_source :: observed_source
  vo_hub :: observed_hub

subsection \<open>The check\<close>

definition fresh :: "chain_head option \<Rightarrow> int \<Rightarrow> string + observed_head" where
  "fresh b now = (case b of None \<Rightarrow> Inl ''STALE_OR_INVALID_HEAD''
     | Some h \<Rightarrow> (case ch_hash h of None \<Rightarrow> Inl ''STALE_OR_INVALID_HEAD''
       | Some x \<Rightarrow> bindE (requireE ''STALE_OR_INVALID_HEAD'' (is_bytes32 x \<and> js_safe (ch_number h) \<and> 0 \<le> js_val (ch_number h)
           \<and> js_safe (ch_time h) \<and> 0 < js_val (ch_time h) \<and> js_val (ch_time h) \<le> now + 30 \<and> now - js_val (ch_time h) \<le> 300))
           (\<lambda>_. Inr \<lparr>oh_block = ch_number h, oh_hash = x, oh_time = ch_time h\<rparr>)))"

definition positive_id :: "js_num \<Rightarrow> bool" where
  "positive_id n \<longleftrightarrow> js_safe n \<and> 0 < js_val n"

definition policy_ids_ok :: "js_num list \<Rightarrow> bool" where
  "policy_ids_ok ids \<longleftrightarrow> ids \<noteq> [] \<and> length ids \<le> 16 \<and> list_all positive_id ids \<and> distinct ids"

definition config_ok :: "check_lib \<Rightarrow> check_config \<Rightarrow> 'o revocation_job \<Rightarrow> js_num \<Rightarrow> string + unit" where
  "config_ok L c j now =
     bindE (requireE ''INVALID_CHECK_CONFIG'' (js_safe now \<and> 0 < js_val now \<and> positive_id (kc_confirmations c))) (\<lambda>_.
     bindE (requireE ''INVALID_CHECK_ADDRESS'' (list_all (\<lambda>a. xl_isAddress L a \<and> \<not> same a ZeroAddress)
       [kc_source c, kc_asc c, kc_registry c, kc_revoker c, rj_walletAddress j])) (\<lambda>_.
     requireE ''INVALID_CHECK_CONFIG'' (list_all is_bytes32 [kc_sourceCode c, kc_ascCode c, kc_registryCode c]
       \<and> policy_ids_ok (kc_policyIds c))))"

definition pin_ok :: "check_lib \<Rightarrow> string \<Rightarrow> string \<Rightarrow> bool" where
  "pin_ok L code pin \<longleftrightarrow> code \<noteq> ''0x'' \<and> same (xl_keccak L code) pin"

definition receipt_ok :: "check_config \<Rightarrow> string \<Rightarrow> observed_head \<Rightarrow> check_receipt \<Rightarrow> bool" where
  "receipt_ok c tx head r \<longleftrightarrow> cr_hash r = tx \<and> (case cr_to r of None \<Rightarrow> False | Some a \<Rightarrow> same a (kc_source c)) \<and> same (cr_from r) (kc_revoker c)
     \<and> js_safe (cr_block r) \<and> 0 \<le> js_val (cr_block r) \<and> js_val (cr_block r) \<le> js_val (oh_block head)
     \<and> js_safe (cr_index r) \<and> 0 \<le> js_val (cr_index r) \<and> is_bytes32 (cr_blockHash r)"

definition block_is :: "chain_head option \<Rightarrow> string \<Rightarrow> bool" where
  "block_is b h \<longleftrightarrow> (case b of None \<Rightarrow> False | Some x \<Rightarrow> ch_hash x = Some h)"

text \<open>The logs of the source that revoke the wallet, with their index in the receipt.\<close>

definition matching_logs :: "check_lib \<Rightarrow> check_config \<Rightarrow> string \<Rightarrow> check_receipt \<Rightarrow> (nat \<times> check_log \<times> int) list" where
  "matching_logs L c wallet r = List.map_filter (\<lambda>(i, l).
     if \<not> same (cl_address l) (kc_source c) then None
     else (case xl_revoked L l of None \<Rightarrow> None | Some (subject, code) \<Rightarrow> if same subject wallet then Some (i, l, code) else None))
     (List.enumerate 0 (cr_logs r))"

definition check_policy :: "check_lib \<Rightarrow> check_reads \<Rightarrow> js_num \<Rightarrow> string + js_num \<times> bool" where
  "check_policy L R i = (case rd_policy R (js_val i) of (owner, frozen, verified) \<Rightarrow>
     bindE (requireE ''INVALID_POLICY_OBSERVATION'' (xl_isAddress L owner \<and> \<not> same owner ZeroAddress \<and> frozen)) (\<lambda>_. Inr (i, verified)))"

definition check_state :: "check_reads \<Rightarrow> observed_source \<Rightarrow> (js_num \<times> bool) list \<Rightarrow> enforcement" where
  "check_state R s policies = (let b = js_val (os_block s); i = js_val (os_index s); l = js_val (os_logIndex s);
       exact = rd_height R = b \<and> rd_txIndex R = i \<and> rd_logIndex R = l;
       newer = rd_height R > b \<or> (rd_height R = b \<and> (rd_txIndex R > i \<or> (rd_txIndex R = i \<and> rd_logIndex R > l)))
     in if exact \<and> rd_tombstone R \<and> list_all (\<lambda>(_, v). \<not> v) policies then ENFORCED
        else if newer then SUPERSEDED else if exact then INCONSISTENT else AWAITING_HUB)"

text \<open>The part on the hub, once the event on the source is known.\<close>

definition check_hub :: "check_lib \<Rightarrow> check_reads \<Rightarrow> check_config \<Rightarrow> js_num \<Rightarrow> observed_head \<Rightarrow> observed_source \<Rightarrow> string + check_result" where
  "check_hub L R c now hubHead src =
     bindE (mapE (check_policy L R) (kc_policyIds c)) (\<lambda>policies.
     bindE (requireE ''HUB_BINDING_MISMATCH'' (same (rd_boundSource R) (kc_source c) \<and> rd_chainKey R = 1 \<and> rd_version R = 2
       \<and> same (rd_boundAsc R) (kc_asc c) \<and> rd_policyVersion R = 2)) (\<lambda>_.
     bindE (requireE ''OBSERVATION_REORG'' (block_is (rd_receiptBlockAgain R) (os_blockHash src)
       \<and> block_is (rd_sourceHeadAgain R) (oh_hash (os_head src)) \<and> block_is (rd_hubHeadAgain R) (oh_hash hubHead))) (\<lambda>_.
     Inr (Observed (check_state R src policies) src
       \<lparr>hu_head = hubHead, hu_tombstone = rd_tombstone R, hu_height = decimal (rd_height R), hu_txIndex = decimal (rd_txIndex R),
         hu_logIndex = decimal (rd_logIndex R), hu_policies = policies\<rparr> (js_val now)))))"

definition check_event :: "check_lib \<Rightarrow> check_reads \<Rightarrow> check_config \<Rightarrow> string \<Rightarrow> string \<Rightarrow> observed_head \<Rightarrow> check_receipt \<Rightarrow> int
    \<Rightarrow> string + observed_source" where
  "check_event L R c wallet tx sourceHead r depth =
     bindE (requireE ''RUNTIME_PIN_MISMATCH'' (same (xl_keccak L (rd_codeAtReceipt R)) (kc_sourceCode c))) (\<lambda>_.
     case matching_logs L c wallet r of
       [(i, l, code)] \<Rightarrow>
         bindE (requireE ''SOURCE_EVENT_MISMATCH'' (code = 2 \<and> length (cl_topics l) = 4 \<and> cl_data l = ''0x'')) (\<lambda>_.
         Inr \<lparr>os_tx = tx, os_block = cr_block r, os_blockHash = cr_blockHash r, os_index = cr_index r, os_logIndex = JInt (int i),
           os_confirmations = JInt depth, os_head = sourceHead\<rparr>)
     | _ \<Rightarrow> Inl ''SOURCE_EVENT_MISMATCH'')"

definition check_receipt_result :: "check_lib \<Rightarrow> check_reads \<Rightarrow> check_config \<Rightarrow> string \<Rightarrow> js_num \<Rightarrow> string \<Rightarrow> observed_head
    \<Rightarrow> observed_head \<Rightarrow> check_receipt \<Rightarrow> string + check_result" where
  "check_receipt_result L R c wallet now tx sourceHead hubHead r =
     bindE (requireE ''SOURCE_RECEIPT_MISMATCH'' (receipt_ok c tx sourceHead r)) (\<lambda>_.
     bindE (requireE ''SOURCE_REORG'' (block_is (rd_receiptBlock R) (cr_blockHash r)
       \<and> (case rd_receiptBlock R of None \<Rightarrow> False | Some b \<Rightarrow> ch_number b = cr_block r))) (\<lambda>_.
     let depth = js_val (oh_block sourceHead) - js_val (cr_block r) + 1 in
     if depth < js_val (kc_confirmations c) then Inr (Source_Unconfirmed tx depth)
     else bindE (requireE ''SOURCE_RECEIPT_MISMATCH'' (cr_status r = Some 0 \<or> cr_status r = Some 1)) (\<lambda>_.
       if cr_status r = Some 0 then Inr (Source_Reverted tx)
       else bindE (check_event L R c wallet tx sourceHead r depth) (check_hub L R c now hubHead))))"

definition checkRevocation :: "check_lib \<Rightarrow> check_reads \<Rightarrow> 'o revocation_job \<Rightarrow> check_config \<Rightarrow> js_num \<Rightarrow> string + check_result" where
  "checkRevocation L R j c now =
     bindE (config_ok L c j now) (\<lambda>_.
     case rj_transaction j of None \<Rightarrow> Inr Unsigned
     | Some tx \<Rightarrow>
       bindE (requireE ''SOURCE_TARGET_MISMATCH'' (is_bytes32 (rt_hash tx) \<and> rt_chainId tx = sepolia \<and> same (rt_source tx) (kc_source c)
         \<and> assertRevocationTarget j sepolia (kc_source c) = Inr ())) (\<lambda>_.
       bindE (requireE ''WRONG_CHAIN'' (rd_sourceChain R = sepolia \<and> rd_hubChain R = 102031)) (\<lambda>_.
       bindE (fresh (rd_sourceHead R) (js_val now)) (\<lambda>sourceHead.
       bindE (fresh (rd_hubHead R) (js_val now)) (\<lambda>hubHead.
       bindE (requireE ''RUNTIME_PIN_MISMATCH'' (pin_ok L (rd_sourceCode R) (kc_sourceCode c) \<and> pin_ok L (rd_ascCode R) (kc_ascCode c)
         \<and> pin_ok L (rd_registryCode R) (kc_registryCode c))) (\<lambda>_.
       case rd_receipt R of None \<Rightarrow> Inr (Source_Pending (rt_hash tx))
       | Some r \<Rightarrow> check_receipt_result L R c (rj_walletAddress j) now (rt_hash tx) sourceHead hubHead r))))))"

subsection \<open>The normalized observation\<close>

definition dec_digit :: "char \<Rightarrow> bool" where
  "dec_digit c \<longleftrightarrow> 48 \<le> (of_char c :: nat) \<and> (of_char c :: nat) \<le> 57"

text \<open>The pattern \<open>/^(0|[1-9]\d{0,77})$/\<close> and \<open>BigInt\<close> of such a text.\<close>

definition is_decimal :: "string \<Rightarrow> bool" where
  "is_decimal s \<longleftrightarrow> s = ''0'' \<or> (s \<noteq> [] \<and> list_all dec_digit s \<and> hd s \<noteq> CHR ''0'' \<and> length s \<le> 78)"

definition dec_val :: "string \<Rightarrow> nat" where
  "dec_val s = foldl (\<lambda>a c. 10 * a + (of_char c - 48)) 0 s"

definition coordinate_ok :: "nat \<Rightarrow> string \<Rightarrow> bool" where
  "coordinate_ok bits s \<longleftrightarrow> is_decimal s \<and> dec_val s < 2 ^ bits"

definition operator_ok :: "string \<Rightarrow> bool" where
  "operator_ok s \<longleftrightarrow> (case s of [] \<Rightarrow> False | c # cs \<Rightarrow> ref_first c \<and> list_all ref_char cs \<and> length cs \<le> 127)"

definition natural :: "js_num \<Rightarrow> bool" where
  "natural n \<longleftrightarrow> js_safe n \<and> 0 \<le> js_val n"

definition recent :: "js_num \<Rightarrow> js_num \<Rightarrow> bool" where
  "recent t at \<longleftrightarrow> 0 < js_val t \<and> js_val t \<le> js_val at + 30 \<and> js_val at - js_val t \<le> 300"

text \<open>The first difference of the coordinates decides; none means exact.\<close>

fun first_difference :: "int list \<Rightarrow> int list \<Rightarrow> (int \<times> int) option" where
  "first_difference (a # as) (b # bs) = (if a \<noteq> b then Some (a, b) else first_difference as bs)"
| "first_difference _ _ = None"

definition observed_state :: "observed_source \<Rightarrow> observed_hub \<Rightarrow> enforcement" where
  "observed_state s h = (case first_difference [int (dec_val (hu_height h)), int (dec_val (hu_txIndex h)), int (dec_val (hu_logIndex h))]
       [js_val (os_block s), js_val (os_index s), js_val (os_logIndex s)] of
     None \<Rightarrow> if hu_tombstone h \<and> list_all (\<lambda>(_, v). \<not> v) (hu_policies h) then ENFORCED else INCONSISTENT
   | Some (a, b) \<Rightarrow> if a > b then SUPERSEDED else AWAITING_HUB)"

definition address_ok :: "check_lib \<Rightarrow> string \<Rightarrow> bool" where
  "address_ok L a \<longleftrightarrow> xl_isAddress L a \<and> lower a \<noteq> ZeroAddress"

definition lower_head :: "observed_head \<Rightarrow> observed_head" where
  "lower_head h = h\<lparr>oh_hash := lower (oh_hash h)\<rparr>"

definition normal_config :: "check_config \<Rightarrow> check_config" where
  "normal_config c = \<lparr>kc_source = lower (kc_source c), kc_asc = lower (kc_asc c), kc_registry = lower (kc_registry c),
     kc_revoker = lower (kc_revoker c), kc_sourceCode = lower (kc_sourceCode c), kc_ascCode = lower (kc_ascCode c),
     kc_registryCode = lower (kc_registryCode c), kc_policyIds = kc_policyIds c, kc_confirmations = kc_confirmations c\<rparr>"

definition normal_source :: "observed_source \<Rightarrow> observed_source" where
  "normal_source s = s\<lparr>os_tx := lower (os_tx s), os_blockHash := lower (os_blockHash s), os_head := lower_head (os_head s)\<rparr>"

definition observation_ok :: "check_lib \<Rightarrow> revocation_observation \<Rightarrow> bool" where
  "observation_ok L v \<longleftrightarrow> (let c = vo_config v; s = vo_source v; h = vo_hub v; at = vo_observedAt v in
     operator_ok (vo_operator v) \<and> natural at \<and> 0 < js_val at \<and> js_val at \<le> max_safe div 1000 \<and> positive_id (kc_confirmations c)
     \<and> policy_ids_ok (kc_policyIds c)
     \<and> list_all natural [os_block s, os_index s, os_logIndex s, os_confirmations s, oh_block (os_head s), oh_time (os_head s),
          oh_block (hu_head h), oh_time (hu_head h)]
     \<and> js_val (kc_confirmations c) \<le> js_val (os_confirmations s) \<and> recent (oh_time (hu_head h)) at
     \<and> js_val (os_block s) \<le> js_val (oh_block (os_head s))
     \<and> js_val (oh_block (os_head s)) - js_val (os_block s) + 1 = js_val (os_confirmations s) \<and> recent (oh_time (os_head s)) at
     \<and> map fst (hu_policies h) = kc_policyIds c
     \<and> coordinate_ok 64 (hu_height h) \<and> coordinate_ok 64 (hu_txIndex h) \<and> coordinate_ok 256 (hu_logIndex h)
     \<and> vo_state v = observed_state s h
     \<and> list_all (address_ok L) [kc_source c, kc_asc c, kc_registry c, kc_revoker c]
     \<and> list_all is_bytes32 [kc_sourceCode c, kc_ascCode c, kc_registryCode c, os_tx s, os_blockHash s, oh_hash (os_head s), oh_hash (hu_head h)])"

definition normalizeRevocationObservation :: "check_lib \<Rightarrow> revocation_observation \<Rightarrow> string + revocation_observation" where
  "normalizeRevocationObservation L v = bindE (requireE ''INVALID_REVOCATION_OBSERVATION'' (observation_ok L v)) (\<lambda>_.
     Inr (v\<lparr>vo_config := normal_config (vo_config v), vo_source := normal_source (vo_source v),
       vo_hub := (vo_hub v)\<lparr>hu_head := lower_head (hu_head (vo_hub v))\<rparr>\<rparr>))"

definition revocationObservation :: "check_lib \<Rightarrow> check_result \<Rightarrow> check_config \<Rightarrow> string \<Rightarrow> string + revocation_observation" where
  "revocationObservation L r c operator = (case r of
     Observed st s h at \<Rightarrow> normalizeRevocationObservation L \<lparr>vo_operator = operator, vo_observedAt = JInt at, vo_config = c,
       vo_state = st, vo_source = s, vo_hub = h\<rparr>
   | _ \<Rightarrow> Inl ''INCOMPLETE_REVOCATION_OBSERVATION'')"

text \<open>How the vault of theory \<open>Vault\<close> reads an observation.\<close>

definition observation_view_of :: "check_lib \<Rightarrow> revocation_observation observation_view" where
  "observation_view_of L = \<lparr>ov_normalize = normalizeRevocationObservation L, ov_observedAt = (\<lambda>v. js_val (vo_observedAt v)),
     ov_transactionHash = (\<lambda>v. os_tx (vo_source v)), ov_source = (\<lambda>v. kc_source (vo_config v))\<rparr>"

end
