(* ===== verification/Revocation_Check_Props.thy ===== *)
theory Revocation_Check_Props
  imports Revocation_Check
begin

text \<open>
  The check of a revocation and the observation that the vault stores agree: the two ways of
  ordering the coordinates of the hub and of the source give the same state, normalization
  is idempotent, and a completed check is always accepted by the vault for that job.
\<close>

subsection \<open>Decimal texts\<close>

lemma digit_char: "n < 10 \<Longrightarrow> (of_char (char_of (48 + n) :: char) :: nat) = 48 + n"
  by (simp add: of_char_of)

lemma dec_val_snoc: "dec_val (s @ [c]) = 10 * dec_val s + (of_char c - 48)"
  by (simp add: dec_val_def)

lemma digits_of_facts:
  "dec_val (digits_of n) = n \<and> list_all dec_digit (digits_of n) \<and> digits_of n \<noteq> []
   \<and> (0 < n \<longrightarrow> (of_char (hd (digits_of n)) :: nat) \<noteq> 48)"
proof (induction n rule: less_induct)
  case (less n)
  show ?case
  proof (cases "n < 10")
    case True
    then show ?thesis by (subst (1 2 3 4) digits_of.simps) (simp add: dec_val_def dec_digit_def digit_char)
  next
    case False
    then have d: "digits_of n = digits_of (n div 10) @ [char_of (48 + n mod 10)]" by (subst digits_of.simps) simp
    have "n div 10 < n" "0 < n div 10" using False by auto
    with less.IH [of "n div 10"] show ?thesis
      unfolding d by (simp add: dec_val_snoc dec_digit_def digit_char)
  qed
qed

lemma digits_of_length: "n < 10 ^ k \<Longrightarrow> 0 < k \<Longrightarrow> length (digits_of n) \<le> k"
proof (induction k arbitrary: n)
  case (Suc k)
  show ?case
  proof (cases "n < 10")
    case True
    then show ?thesis by (subst digits_of.simps) simp
  next
    case False
    then have "n div 10 < 10 ^ k" "0 < k" using Suc.prems by (auto simp: less_mult_imp_div_less mult.commute intro: Suc_leI gr0I)
    with Suc.IH [of "n div 10"] False show ?thesis by (subst digits_of.simps) simp
  qed
qed simp

lemma decimal_coordinate:
  assumes "0 \<le> n" "n < 2 ^ bits" "bits \<le> 256"
  shows "coordinate_ok bits (decimal n)" "int (dec_val (decimal n)) = n"
proof -
  have n: "decimal n = digits_of (nat n)" using assms(1) by (simp add: decimal_def)
  note f = digits_of_facts [of "nat n"]
  show "int (dec_val (decimal n)) = n" using f assms(1) by (simp add: n)
  have "(2::int) ^ bits \<le> 2 ^ 256" using assms(3) by (intro power_increasing) auto
  then have "nat n < 10 ^ 78" using assms(1,2) by (simp add: nat_less_iff)
  then have l: "length (digits_of (nat n)) \<le> 78" by (intro digits_of_length) auto
  have "is_decimal (digits_of (nat n))"
  proof (cases "nat n = 0")
    case True
    then show ?thesis by (simp add: is_decimal_def digits_of.simps char_of_def bit_0)
  next
    case False
    then have "hd (digits_of (nat n)) \<noteq> CHR ''0''" using f by auto
    with f l show ?thesis by (simp add: is_decimal_def)
  qed
  moreover have "nat n < 2 ^ bits" using assms(1,2) by (simp add: nat_less_iff)
  ultimately show "coordinate_ok bits (decimal n)" using f by (simp add: coordinate_ok_def n)
qed

subsection \<open>What a completed check has established\<close>

lemma check_policies:
  assumes "mapE (check_policy L R) ids = Inr ps"
  shows "map fst ps = ids"
proof -
  have "list_all2 (\<lambda>i p. check_policy L R i = Inr p) ids ps" using assms by (simp add: mapE_Inr_iff)
  then show ?thesis
    by (induction rule: list_all2_induct) (auto simp: check_policy_def elim!: bindE_Inr_cases split: prod.splits)
qed

lemma config_facts:
  assumes "config_ok L c j now = Inr ()"
  shows "js_safe now" "0 < js_val now" "positive_id (kc_confirmations c)" "policy_ids_ok (kc_policyIds c)"
    "list_all (\<lambda>a. xl_isAddress L a \<and> \<not> same a ZeroAddress) [kc_source c, kc_asc c, kc_registry c, kc_revoker c]"
    "list_all is_bytes32 [kc_sourceCode c, kc_ascCode c, kc_registryCode c]"
  using assms by (auto simp: config_ok_def elim!: bindE_Inr_cases)

lemma fresh_facts:
  assumes "fresh b now = Inr h"
  shows "is_bytes32 (oh_hash h)" "natural (oh_block h)" "natural (oh_time h)" "0 < js_val (oh_time h)"
    "js_val (oh_time h) \<le> now + 30" "now - js_val (oh_time h) \<le> 300"
  using assms by (auto simp: fresh_def natural_def elim!: bindE_Inr_cases split: option.splits)

lemma event_facts:
  assumes "check_event L R c wallet tx sourceHead r depth = Inr s"
  obtains i where "i < length (cr_logs r)" "s = \<lparr>os_tx = tx, os_block = cr_block r, os_blockHash = cr_blockHash r, os_index = cr_index r,
    os_logIndex = JInt (int i), os_confirmations = JInt depth, os_head = sourceHead\<rparr>"
proof -
  from assms obtain i l code where m: "matching_logs L c wallet r = [(i, l, code)]"
    and s: "s = \<lparr>os_tx = tx, os_block = cr_block r, os_blockHash = cr_blockHash r, os_index = cr_index r,
    os_logIndex = JInt (int i), os_confirmations = JInt depth, os_head = sourceHead\<rparr>"
    by (auto simp: check_event_def elim!: bindE_Inr_cases split: list.splits)
  have "(i, l, code) \<in> set (matching_logs L c wallet r)" by (simp add: m)
  then have "i < length (cr_logs r)"
    unfolding matching_logs_def List.map_filter_def by (auto simp: in_set_enumerate_eq split: if_splits option.splits)
  then show ?thesis using s by (rule that)
qed

lemma observed_facts:
  assumes "checkRevocation L R j c now = Inr (Observed st s h at)"
  obtains tx sourceHead hubHead r i where "config_ok L c j now = Inr ()" "rj_transaction j = Some tx" "is_bytes32 (rt_hash tx)"
    "rt_chainId tx = sepolia" "same (rt_source tx) (kc_source c)" "assertRevocationTarget j sepolia (kc_source c) = Inr ()"
    "fresh (rd_sourceHead R) (js_val now) = Inr sourceHead" "fresh (rd_hubHead R) (js_val now) = Inr hubHead"
    "rd_receipt R = Some r" "receipt_ok c (rt_hash tx) sourceHead r" "i < length (cr_logs r)"
    "js_val (kc_confirmations c) \<le> js_val (oh_block sourceHead) - js_val (cr_block r) + 1" "at = js_val now"
    "s = \<lparr>os_tx = rt_hash tx, os_block = cr_block r, os_blockHash = cr_blockHash r, os_index = cr_index r, os_logIndex = JInt (int i),
      os_confirmations = JInt (js_val (oh_block sourceHead) - js_val (cr_block r) + 1), os_head = sourceHead\<rparr>"
    "hu_head h = hubHead" "hu_tombstone h = rd_tombstone R" "hu_height h = decimal (rd_height R)" "hu_txIndex h = decimal (rd_txIndex R)"
    "hu_logIndex h = decimal (rd_logIndex R)" "map fst (hu_policies h) = kc_policyIds c" "st = check_state R s (hu_policies h)"
proof -
  from assms obtain tx sourceHead hubHead r where a: "config_ok L c j now = Inr ()" "rj_transaction j = Some tx" "is_bytes32 (rt_hash tx)"
    "rt_chainId tx = sepolia" "same (rt_source tx) (kc_source c)" "assertRevocationTarget j sepolia (kc_source c) = Inr ()"
    "fresh (rd_sourceHead R) (js_val now) = Inr sourceHead" "fresh (rd_hubHead R) (js_val now) = Inr hubHead" "rd_receipt R = Some r"
    and res: "check_receipt_result L R c (rj_walletAddress j) now (rt_hash tx) sourceHead hubHead r = Inr (Observed st s h at)"
    by (auto simp: checkRevocation_def elim!: bindE_Inr_cases split: option.splits)
  let ?d = "js_val (oh_block sourceHead) - js_val (cr_block r) + 1"
  from res have b: "receipt_ok c (rt_hash tx) sourceHead r" "js_val (kc_confirmations c) \<le> ?d"
    and hub: "\<exists>s'. check_event L R c (rj_walletAddress j) (rt_hash tx) sourceHead r ?d = Inr s'
      \<and> check_hub L R c now hubHead s' = Inr (Observed st s h at)"
    by (auto simp: check_receipt_result_def Let_def elim!: bindE_Inr_cases split: if_splits)
  from hub obtain s' where s': "check_event L R c (rj_walletAddress j) (rt_hash tx) sourceHead r ?d = Inr s'"
    "check_hub L R c now hubHead s' = Inr (Observed st s h at)" by blast
  from s'(2) obtain ps where ps: "mapE (check_policy L R) (kc_policyIds c) = Inr ps" "s = s'" "at = js_val now"
    "h = \<lparr>hu_head = hubHead, hu_tombstone = rd_tombstone R, hu_height = decimal (rd_height R), hu_txIndex = decimal (rd_txIndex R),
         hu_logIndex = decimal (rd_logIndex R), hu_policies = ps\<rparr>" "st = check_state R s ps"
    by (auto simp: check_hub_def elim!: bindE_Inr_cases)
  from event_facts [OF s'(1)] obtain i where i: "i < length (cr_logs r)" "s' = \<lparr>os_tx = rt_hash tx, os_block = cr_block r,
    os_blockHash = cr_blockHash r, os_index = cr_index r, os_logIndex = JInt (int i), os_confirmations = JInt ?d, os_head = sourceHead\<rparr>" .
  show ?thesis
    using that [OF a b(1) i(1) b(2)] ps check_policies [OF ps(1)] i(2) by simp
qed

subsection \<open>Both orders of the coordinates agree\<close>

definition abi_bounds :: "check_reads \<Rightarrow> bool" where
  "abi_bounds R \<longleftrightarrow> 0 \<le> rd_height R \<and> rd_height R < 2 ^ 64 \<and> 0 \<le> rd_txIndex R \<and> rd_txIndex R < 2 ^ 64
     \<and> 0 \<le> rd_logIndex R \<and> rd_logIndex R < 2 ^ 256"

lemma hub_coordinates:
  assumes "abi_bounds R"
  shows "coordinate_ok 64 (decimal (rd_height R))" "int (dec_val (decimal (rd_height R))) = rd_height R"
    "coordinate_ok 64 (decimal (rd_txIndex R))" "int (dec_val (decimal (rd_txIndex R))) = rd_txIndex R"
    "coordinate_ok 256 (decimal (rd_logIndex R))" "int (dec_val (decimal (rd_logIndex R))) = rd_logIndex R"
  using assms decimal_coordinate [of "rd_height R" 64] decimal_coordinate [of "rd_txIndex R" 64] decimal_coordinate [of "rd_logIndex R" 256]
  by (auto simp: abi_bounds_def)

lemma states_agree:
  assumes "abi_bounds R" "hu_tombstone h = rd_tombstone R" "hu_height h = decimal (rd_height R)" "hu_txIndex h = decimal (rd_txIndex R)"
    "hu_logIndex h = decimal (rd_logIndex R)"
  shows "observed_state s h = check_state R s (hu_policies h)"
  using hub_coordinates [OF assms(1)] assms(2-) by (auto simp: observed_state_def check_state_def Let_def)

subsection \<open>Normalization is idempotent\<close>

lemma hex_digit_lower: "hex_digit c \<Longrightarrow> hex_digit (lower_char c)"
  by (auto simp: hex_digit_def lower_char_def Let_def of_char_of)

lemma lower_prefix: "take 2 s = ''0x'' \<Longrightarrow> take 2 (lower s) = ''0x''"
  by (simp add: lower_def take_map lower_char_def)

lemma is_bytes32_lower [simp]: "is_bytes32 s \<Longrightarrow> is_bytes32 (lower s)"
  using lower_prefix [of s] by (auto simp: is_bytes32_def) (simp add: lower_def drop_map list_all_iff hex_digit_lower)

lemma ZeroAddress_lower [simp]: "lower ZeroAddress = ZeroAddress"
  by (simp add: ZeroAddress_def lower_def lower_char_def)

definition normal :: "revocation_observation \<Rightarrow> revocation_observation" where
  "normal v = v\<lparr>vo_config := normal_config (vo_config v), vo_source := normal_source (vo_source v),
       vo_hub := (vo_hub v)\<lparr>hu_head := lower_head (hu_head (vo_hub v))\<rparr>\<rparr>"

lemma normal_normal [simp]: "normal (normal v) = normal v"
  by (simp add: normal_def normal_config_def normal_source_def lower_head_def)

text \<open>
  An address written in hex. The package accepts it in lower case too, where there is no checksum to
  verify; it also accepts the ICAP form, whose lower-case text is no address.
\<close>

definition hex_address :: "string \<Rightarrow> bool" where
  "hex_address a \<longleftrightarrow> length a = 42 \<and> take 2 a = ''0x'' \<and> list_all hex_digit (drop 2 a)"

definition lower_hex_law :: "check_lib \<Rightarrow> bool" where
  "lower_hex_law L \<longleftrightarrow> (\<forall>a. hex_address a \<longrightarrow> xl_isAddress L a \<longrightarrow> xl_isAddress L (lower a))"

definition hex_config :: "check_config \<Rightarrow> bool" where
  "hex_config c \<longleftrightarrow> list_all hex_address [kc_source c, kc_asc c, kc_registry c, kc_revoker c]"

lemma normal_ok:
  assumes "observation_ok L v" "lower_hex_law L" "hex_config (vo_config v)"
  shows "observation_ok L (normal v)"
proof -
  have "observed_state (normal_source s) (h\<lparr>hu_head := x\<rparr>) = observed_state s h" for s h x
    by (simp add: observed_state_def normal_source_def)
  with assms show ?thesis
    unfolding observation_ok_def Let_def
    by (auto simp: normal_def normal_config_def normal_source_def lower_head_def address_ok_def lower_hex_law_def hex_config_def)
qed

lemma normalize_idem:
  assumes "normalizeRevocationObservation L v = Inr w" "lower_hex_law L" "hex_config (vo_config v)"
  shows "normalizeRevocationObservation L w = Inr w"
proof -
  from assms(1) have ok: "observation_ok L v" and w: "w = normal v"
    by (auto simp: normalizeRevocationObservation_def normal_def elim!: bindE_Inr_cases)
  from normal_ok [OF ok assms(2,3)] show ?thesis
    unfolding w by (simp add: normalizeRevocationObservation_def flip: normal_def)
qed

text \<open>An observation whose source is an address but not in lower case normalizes to one that is refused.\<close>

lemma icap_normalizes_once:
  assumes "normalizeRevocationObservation L v = Inr w" "\<not> xl_isAddress L (lower (kc_source (vo_config v)))"
  shows "normalizeRevocationObservation L w = Inl ''INVALID_REVOCATION_OBSERVATION''"
proof -
  from assms(1) have "vo_config w = normal_config (vo_config v)"
    by (auto simp: normalizeRevocationObservation_def elim!: bindE_Inr_cases)
  with assms(2) have "\<not> observation_ok L w"
    by (simp add: observation_ok_def Let_def normal_config_def address_ok_def)
  then show ?thesis by (simp add: normalizeRevocationObservation_def)
qed

subsection \<open>A completed check can be recorded\<close>

text \<open>What JavaScript numbers can hold: the height of the head and the number of logs of a receipt.\<close>

definition in_js_range :: "check_reads \<Rightarrow> bool" where
  "in_js_range R \<longleftrightarrow> (case rd_sourceHead R of None \<Rightarrow> True | Some b \<Rightarrow> js_val (ch_number b) < max_safe)
     \<and> (case rd_receipt R of None \<Rightarrow> True | Some r \<Rightarrow> int (length (cr_logs r)) \<le> max_safe)"

lemma natural_JInt: "0 \<le> n \<Longrightarrow> n \<le> max_safe \<Longrightarrow> natural (JInt n)"
  by (simp add: natural_def is_safe_def)

lemma check_normalizes:
  assumes check: "checkRevocation L R j c now = Inr (Observed st s h at)"
    and op: "operator_ok operator" "js_val now \<le> max_safe div 1000" "abi_bounds R" "in_js_range R"
  shows "observation_ok L \<lparr>vo_operator = operator, vo_observedAt = JInt at, vo_config = c, vo_state = st, vo_source = s, vo_hub = h\<rparr>"
proof -
  from observed_facts [OF check] obtain tx sourceHead hubHead r i
    where f: "config_ok L c j now = Inr ()" "rj_transaction j = Some tx" "is_bytes32 (rt_hash tx)"
    "rt_chainId tx = sepolia" "same (rt_source tx) (kc_source c)" "assertRevocationTarget j sepolia (kc_source c) = Inr ()"
    "fresh (rd_sourceHead R) (js_val now) = Inr sourceHead" "fresh (rd_hubHead R) (js_val now) = Inr hubHead"
    "rd_receipt R = Some r" "receipt_ok c (rt_hash tx) sourceHead r" "i < length (cr_logs r)"
    "js_val (kc_confirmations c) \<le> js_val (oh_block sourceHead) - js_val (cr_block r) + 1" "at = js_val now"
    and s: "s = \<lparr>os_tx = rt_hash tx, os_block = cr_block r, os_blockHash = cr_blockHash r, os_index = cr_index r, os_logIndex = JInt (int i),
      os_confirmations = JInt (js_val (oh_block sourceHead) - js_val (cr_block r) + 1), os_head = sourceHead\<rparr>"
    and h: "hu_head h = hubHead" "hu_tombstone h = rd_tombstone R" "hu_height h = decimal (rd_height R)" "hu_txIndex h = decimal (rd_txIndex R)"
    "hu_logIndex h = decimal (rd_logIndex R)" "map fst (hu_policies h) = kc_policyIds c" and st: "st = check_state R s (hu_policies h)" .
  note cfg = config_facts [OF f(1)] and sh = fresh_facts [OF f(7)] and hh = fresh_facts [OF f(8)]
  have rcpt: "js_safe (cr_block r)" "0 \<le> js_val (cr_block r)" "js_val (cr_block r) \<le> js_val (oh_block sourceHead)"
    "js_safe (cr_index r)" "0 \<le> js_val (cr_index r)" "is_bytes32 (cr_blockHash r)" using f(10) by (auto simp: receipt_ok_def)
  have head: "js_val (oh_block sourceHead) < max_safe"
    using f(7) op(4) by (auto simp: fresh_def in_js_range_def elim!: bindE_Inr_cases split: option.splits)
  have nums: "natural (JInt (int i))" "natural (JInt (js_val (oh_block sourceHead) - js_val (cr_block r) + 1))"
    using f(9,11) op(4) rcpt(2,3) head by (auto intro!: natural_JInt simp: in_js_range_def)
  have at: "natural (JInt at)" "0 < at" "at \<le> max_safe div 1000"
    using cfg(1,2) op(2) f(13) by (auto simp: natural_def js_safe_iff)
  have adr: "list_all (address_ok L) [kc_source c, kc_asc c, kc_registry c, kc_revoker c]"
    using cfg(5) by (simp add: address_ok_def same_def)
  have "st = observed_state s h" using st states_agree [OF op(3) h(2-5)] by simp
  then show ?thesis
    using op(1) at cfg(3,4,6) nums rcpt sh hh h(1,6) hub_coordinates [OF op(3)] adr f(3,12,13) h(3-5)
    unfolding observation_ok_def Let_def by (simp add: s recent_def natural_def)
qed

lemma same_lower: "same a b \<Longrightarrow> lower a = lower b"
  by (simp add: same_def)

text \<open>
  C23: the check of a revocation, its normalized observation and the vault agree. Whenever a check of a
  job of the vault completes, the observation made of it is well formed, with the same state
  although it is derived another way (first difference of decimal coordinates against comparisons
  of the contract's numbers), normalizing it again changes nothing, and the vault accepts it for
  that job as its latest observation, as long as the addresses of the configuration are written in
  hex and the recording is at most five minutes later, not
  before the job was made and not before an earlier observation.
\<close>

theorem completed_check_recorded:
  assumes "checkRevocation L R j c now = Inr (Observed st s h t)"
    and "operator_ok operator" "js_val now \<le> max_safe div 1000" "abi_bounds R" "in_js_range R"
    and "lower_hex_law L" "hex_config c"
    and "map_of (vd_revocations d) (rj_id j) = Some j" "is_safe at" "t * 1000 \<le> at" "at \<le> t * 1000 + 300000"
    and "rj_createdAt j \<le> at" "rj_createdAt j div 1000 \<le> t"
    and "\<forall>(a, w) \<in> set (rj_observations j). js_val (vo_observedAt w) \<le> t \<and> a \<le> at"
  shows "\<exists>w d' j'. revocationObservation L (Observed st s h t) c operator = Inr w \<and> vo_state w = st
    \<and> normalizeRevocationObservation L w = Inr w
    \<and> recordRevocationObservation (observation_view_of L) (rj_id j) j w at d = Inr ((), d')
    \<and> map_of (vd_revocations d') (rj_id j) = Some j' \<and> rj_observations j' \<noteq> [] \<and> snd (last (rj_observations j')) = w"
proof -
  let ?v = "\<lparr>vo_operator = operator, vo_observedAt = JInt t, vo_config = c, vo_state = st, vo_source = s, vo_hub = h\<rparr>"
  define w where "w = normal ?v"
  note facts = observed_facts [OF assms(1)]
  have ok: "observation_ok L ?v" using check_normalizes [OF assms(1-5)] .
  then have w: "revocationObservation L (Observed st s h t) c operator = Inr w"
    by (simp add: revocationObservation_def normalizeRevocationObservation_def w_def normal_def)
  then have again: "normalizeRevocationObservation L w = Inr w"
    by (intro normalize_idem [where v = ?v]) (simp_all add: revocationObservation_def assms(6,7))
  have fields: "vo_state w = st" "js_val (vo_observedAt w) = t" "os_tx (vo_source w) = lower (os_tx s)" "kc_source (vo_config w) = lower (kc_source c)"
    by (simp_all add: w_def normal_def normal_source_def normal_config_def)
  have target: "observation_target_ok (observation_view_of L) j w"
    by (rule facts) (auto simp: observation_target_ok_def observation_view_of_def fields assertRevocationTarget_def same_def split: option.splits)
  have t: "0 < t" using facts config_facts(2) by metis
  have order: "rj_observations j \<noteq> [] \<Longrightarrow> js_val (vo_observedAt (snd (last (rj_observations j)))) \<le> t \<and> fst (last (rj_observations j)) \<le> at"
    using assms(14) last_in_set [of "rj_observations j"] by (cases "last (rj_observations j)") auto
  have "timestamp at = Inr ()" using assms(9,10) t by (simp add: timestamp_def)
  then have "\<exists>d' j'. recordRevocationObservation (observation_view_of L) (rj_id j) j w at d = Inr ((), d')
    \<and> map_of (vd_revocations d') (rj_id j) = Some j' \<and> rj_observations j' \<noteq> [] \<and> snd (last (rj_observations j')) = w"
    using assms(8,10-13) again target order
    by (auto simp: recordRevocationObservation_def observation_view_of_def fields put_job_def update_conv Let_def split: list.splits)
  with w fields(1) again show ?thesis by blast
qed

text \<open>A revocation that the hub has enforced.\<close>

definition toy_hash :: string where
  "toy_hash = ''0x'' @ replicate 64 (CHR ''a'')"

definition toy_source :: string where
  "toy_source = ''0x'' @ replicate 40 (CHR ''A'')"

definition toy_asc :: string where
  "toy_asc = ''0x'' @ replicate 40 (CHR ''2'')"

definition toy_registry :: string where
  "toy_registry = ''0x'' @ replicate 40 (CHR ''3'')"

definition toy_revoker :: string where
  "toy_revoker = ''0x'' @ replicate 40 (CHR ''4'')"

definition toy_wallet :: string where
  "toy_wallet = ''0x'' @ replicate 40 (CHR ''5'')"

definition toy_owner :: string where
  "toy_owner = ''0x'' @ replicate 40 (CHR ''6'')"

definition toy_check_lib :: check_lib where
  "toy_check_lib = \<lparr>xl_isAddress = hex_address, xl_keccak = (\<lambda>_. toy_hash), xl_revoked = (\<lambda>_. Some (toy_wallet, 2))\<rparr>"

definition toy_config :: check_config where
  "toy_config = \<lparr>kc_source = toy_source, kc_asc = toy_asc, kc_registry = toy_registry, kc_revoker = toy_revoker, kc_sourceCode = toy_hash,
     kc_ascCode = toy_hash, kc_registryCode = toy_hash, kc_policyIds = [JInt 1], kc_confirmations = JInt 1\<rparr>"

definition toy_head :: chain_head where
  "toy_head = \<lparr>ch_number = JInt 5, ch_hash = Some toy_hash, ch_time = JInt 100\<rparr>"

definition toy_check_receipt :: check_receipt where
  "toy_check_receipt = \<lparr>cr_hash = toy_hash, cr_to = Some toy_source, cr_from = toy_revoker, cr_block = JInt 5, cr_index = JInt 0,
     cr_blockHash = toy_hash, cr_status = Some 1, cr_logs = [\<lparr>cl_address = toy_source, cl_topics = [[], [], [], []], cl_data = ''0x''\<rparr>]\<rparr>"

definition toy_reads :: check_reads where
  "toy_reads = \<lparr>rd_sourceChain = sepolia, rd_hubChain = 102031, rd_sourceHead = Some toy_head, rd_hubHead = Some toy_head,
     rd_sourceCode = ''0x1'', rd_ascCode = ''0x1'', rd_registryCode = ''0x1'', rd_receipt = Some toy_check_receipt,
     rd_receiptBlock = Some toy_head, rd_codeAtReceipt = ''0x1'', rd_boundSource = toy_source, rd_chainKey = 1, rd_version = 2,
     rd_boundAsc = toy_asc, rd_policyVersion = 2, rd_tombstone = True, rd_height = 5, rd_txIndex = 0, rd_logIndex = 0,
     rd_policy = (\<lambda>_. (toy_owner, True, False)), rd_receiptBlockAgain = Some toy_head, rd_sourceHeadAgain = Some toy_head,
     rd_hubHeadAgain = Some toy_head\<rparr>"

definition toy_job :: "revocation_observation revocation_job" where
  "toy_job = \<lparr>rj_id = ''j'', rj_recordId = ''r'', rj_walletAddress = toy_wallet, rj_createdAt = 7, rj_state = J_prepared,
     rj_sourceTarget = None, rj_transaction = Some \<lparr>rt_hash = toy_hash, rt_raw = [], rt_chainId = sepolia, rt_source = toy_source\<rparr>,
     rj_confirmedAt = None, rj_lastError = None, rj_observations = []\<rparr>"

definition toy_vault :: "revocation_observation vault_data" where
  "toy_vault = put_job ''j'' toy_job empty_vault"

lemma toy_hash_ok [simp]: "is_bytes32 toy_hash"
  by (simp add: is_bytes32_def toy_hash_def hex_digit_def list_all_iff)

lemma toy_fields [simp]:
  "rd_sourceChain toy_reads = sepolia" "rd_hubChain toy_reads = 102031" "rd_sourceHead toy_reads = Some toy_head"
  "rd_hubHead toy_reads = Some toy_head" "rd_sourceCode toy_reads = ''0x1''" "rd_ascCode toy_reads = ''0x1''"
  "rd_registryCode toy_reads = ''0x1''" "rd_receipt toy_reads = Some toy_check_receipt" "rd_receiptBlock toy_reads = Some toy_head"
  "rd_boundSource toy_reads = toy_source" "rd_chainKey toy_reads = 1" "rd_version toy_reads = 2" "rd_boundAsc toy_reads = toy_asc"
  "rd_policyVersion toy_reads = 2" "rd_tombstone toy_reads" "rd_height toy_reads = 5" "rd_txIndex toy_reads = 0" "rd_logIndex toy_reads = 0"
  "rd_policy toy_reads i = (toy_owner, True, False)" "rd_receiptBlockAgain toy_reads = Some toy_head"
  "rd_sourceHeadAgain toy_reads = Some toy_head" "rd_hubHeadAgain toy_reads = Some toy_head"
  by (simp_all add: toy_reads_def)

lemma toy_more_fields [simp]:
  "xl_isAddress toy_check_lib a = hex_address a" "xl_keccak toy_check_lib x = toy_hash" "xl_revoked toy_check_lib l = Some (toy_wallet, 2)"
  "kc_source toy_config = toy_source" "kc_asc toy_config = toy_asc" "kc_registry toy_config = toy_registry" "kc_revoker toy_config = toy_revoker"
  "kc_sourceCode toy_config = toy_hash" "kc_ascCode toy_config = toy_hash" "kc_registryCode toy_config = toy_hash"
  "kc_policyIds toy_config = [JInt 1]" "kc_confirmations toy_config = JInt 1"
  "cr_hash toy_check_receipt = toy_hash" "cr_to toy_check_receipt = Some toy_source" "cr_from toy_check_receipt = toy_revoker"
  "cr_block toy_check_receipt = JInt 5" "cr_index toy_check_receipt = JInt 0" "cr_blockHash toy_check_receipt = toy_hash"
  "cr_status toy_check_receipt = Some 1"
  "cr_logs toy_check_receipt = [\<lparr>cl_address = toy_source, cl_topics = [[], [], [], []], cl_data = ''0x''\<rparr>]"
  "ch_number toy_head = JInt 5" "ch_hash toy_head = Some toy_hash" "ch_time toy_head = JInt 100"
  "rj_id toy_job = ''j''" "rj_walletAddress toy_job = toy_wallet" "rj_createdAt toy_job = 7" "rj_sourceTarget toy_job = None"
  "rj_transaction toy_job = Some \<lparr>rt_hash = toy_hash, rt_raw = [], rt_chainId = sepolia, rt_source = toy_source\<rparr>"
  "rj_observations toy_job = []"
  by (simp_all add: toy_check_lib_def toy_config_def toy_check_receipt_def toy_head_def toy_job_def)

lemma same_nth: "same a b \<Longrightarrow> i < length a \<Longrightarrow> lower_char (a ! i) = lower_char (b ! i)"
  by (metis length_lower lower_def nth_map same_def)

lemma toy_not_zero [simp]: "\<not> same toy_source ZeroAddress" "\<not> same toy_asc ZeroAddress" "\<not> same toy_registry ZeroAddress"
  "\<not> same toy_revoker ZeroAddress" "\<not> same toy_wallet ZeroAddress" "\<not> same toy_owner ZeroAddress"
  by (auto dest!: same_nth [of _ _ 2] simp: ZeroAddress_def lower_char_def char_of_eq_iff toy_source_def toy_asc_def toy_registry_def
      toy_revoker_def toy_wallet_def toy_owner_def)

lemma toy_hex [simp]: "hex_address toy_source" "hex_address toy_asc" "hex_address toy_registry" "hex_address toy_revoker"
  "hex_address toy_wallet" "hex_address toy_owner"
  by (simp_all add: hex_address_def hex_digit_def list_all_iff toy_source_def toy_asc_def toy_registry_def toy_revoker_def toy_wallet_def toy_owner_def)

lemma hex_address_lower: "hex_address a \<Longrightarrow> hex_address (lower a)"
  by (auto simp: hex_address_def lower_def take_map drop_map list_all_iff hex_digit_lower) (simp add: lower_char_def)

lemma toy_lower_hex: "lower_hex_law toy_check_lib"
  by (simp add: lower_hex_law_def hex_address_lower)

lemma toy_block_is [simp]: "block_is (Some toy_head) toy_hash"
  by (simp add: block_is_def)

lemma toy_config_ok: "config_ok toy_check_lib toy_config toy_job (JInt 100) = Inr ()"
  by (simp add: config_ok_def positive_id_def policy_ids_ok_def is_safe_def max_safe_def)

definition toy_observed_head :: observed_head where
  "toy_observed_head = \<lparr>oh_block = JInt 5, oh_hash = toy_hash, oh_time = JInt 100\<rparr>"

lemma toy_observed_fields [simp]: "oh_block toy_observed_head = JInt 5" "oh_hash toy_observed_head = toy_hash"
  by (simp_all add: toy_observed_head_def)

lemma toy_fresh: "fresh (Some toy_head) 100 = Inr toy_observed_head"
  by (simp add: fresh_def is_safe_def max_safe_def toy_observed_head_def)

lemma toy_matches: "matching_logs toy_check_lib toy_config toy_wallet toy_check_receipt
  = [(0, \<lparr>cl_address = toy_source, cl_topics = [[], [], [], []], cl_data = ''0x''\<rparr>, 2)]"
  by (simp add: matching_logs_def List.map_filter_def)

lemma toy_receipt_result: "\<exists>s h. check_receipt_result toy_check_lib toy_reads toy_config toy_wallet (JInt 100) toy_hash toy_observed_head
    toy_observed_head toy_check_receipt = Inr (Observed ENFORCED s h 100)"
  by (simp add: check_receipt_result_def receipt_ok_def is_safe_def max_safe_def check_event_def toy_matches check_hub_def check_policy_def
      check_state_def)

lemma toy_enforced: "\<exists>s h. checkRevocation toy_check_lib toy_reads toy_job toy_config (JInt 100) = Inr (Observed ENFORCED s h 100)"
  using toy_receipt_result
  by (simp add: checkRevocation_def toy_config_ok assertRevocationTarget_def toy_fresh pin_ok_def)

theorem completed_check_recorded_witness:
  "\<exists>s h w d' j'. revocationObservation toy_check_lib (Observed ENFORCED s h 100) toy_config ''op'' = Inr w \<and> vo_state w = ENFORCED
     \<and> recordRevocationObservation (observation_view_of toy_check_lib) ''j'' toy_job w 100000 toy_vault = Inr ((), d')
     \<and> map_of (vd_revocations d') ''j'' = Some j' \<and> snd (last (rj_observations j')) = w"
proof -
  obtain s h where c: "checkRevocation toy_check_lib toy_reads toy_job toy_config (JInt 100) = Inr (Observed ENFORCED s h 100)"
    using toy_enforced by blast
  have op: "operator_ok ''op''" by (simp add: operator_ok_def ref_first_def ref_char_def)
  have job: "map_of (vd_revocations toy_vault) (rj_id toy_job) = Some toy_job"
    by (simp add: toy_vault_def put_job_def empty_vault_def)
  have "\<exists>w d' j'. revocationObservation toy_check_lib (Observed ENFORCED s h 100) toy_config ''op'' = Inr w \<and> vo_state w = ENFORCED
    \<and> normalizeRevocationObservation toy_check_lib w = Inr w
    \<and> recordRevocationObservation (observation_view_of toy_check_lib) (rj_id toy_job) toy_job w 100000 toy_vault = Inr ((), d')
    \<and> map_of (vd_revocations d') (rj_id toy_job) = Some j' \<and> rj_observations j' \<noteq> [] \<and> snd (last (rj_observations j')) = w"
    by (rule completed_check_recorded [OF c op _ _ _ toy_lower_hex _ job])
      (simp_all add: max_safe_def is_safe_def abi_bounds_def in_js_range_def hex_config_def)
  then show ?thesis unfolding toy_more_fields(24) by blast
qed

end
