(* ===== verification/Revocation_Delivery_Props.thy ===== *)
theory Revocation_Delivery_Props
  imports Revocation_Delivery
begin

text \<open>
  The delivery of revocations, with other processes at work on the same vault: what is broadcast is
  the transaction that the vault holds at that moment, and nothing is signed or sent while an
  earlier job of the run is unknown.
\<close>

subsection \<open>The jobs of a vault\<close>

definition job_at :: "string \<Rightarrow> 'o vault_store \<Rightarrow> 'o revocation_job option" where
  "job_at k S = map_of (vd_revocations (file_data S)) k"

definition same_delivery :: "'o revocation_job \<Rightarrow> 'o revocation_job \<Rightarrow> bool" where
  "same_delivery j j' \<longleftrightarrow> rj_id j' = rj_id j \<and> rj_transaction j' = rj_transaction j \<and> rj_state j' = rj_state j"

text \<open>Every job outside \<open>X\<close> keeps its transaction and its state.\<close>

definition kept :: "string set \<Rightarrow> 'o vault_store \<Rightarrow> 'o vault_store \<Rightarrow> bool" where
  "kept X S T \<longleftrightarrow> (\<forall>k j. k \<notin> X \<longrightarrow> job_at k S = Some j \<longrightarrow> (\<exists>j'. job_at k T = Some j' \<and> same_delivery j j'))"

definition settled :: "string \<Rightarrow> 'o vault_store \<Rightarrow> bool" where
  "settled k S \<longleftrightarrow> (\<exists>j. job_at k S = Some j \<and> (rj_state j = J_confirmed \<or> rj_transaction j = None))"

text \<open>The vault holds this signed transaction for the job, unconfirmed.\<close>

definition holds :: "string \<Rightarrow> revocation_tx \<Rightarrow> 'o vault_store \<Rightarrow> bool" where
  "holds k t S \<longleftrightarrow> (\<exists>j. job_at k S = Some j \<and> rj_id j = k \<and> rj_transaction j = Some t \<and> rj_state j \<noteq> J_confirmed)"

lemma kept_refl [simp]: "kept X S S"
  by (simp add: kept_def same_delivery_def)

lemma kept_trans: "kept X S T \<Longrightarrow> kept X T U \<Longrightarrow> kept X S U"
  unfolding kept_def same_delivery_def by (metis (no_types, lifting))

lemma kept_mono: "kept X S T \<Longrightarrow> X \<subseteq> Y \<Longrightarrow> kept Y S T"
  by (auto simp: kept_def)

lemma kept_settled: "kept X S T \<Longrightarrow> k \<notin> X \<Longrightarrow> settled k S \<Longrightarrow> settled k T"
  unfolding kept_def settled_def same_delivery_def by (metis (no_types, lifting))

lemma kept_holds: "kept X S T \<Longrightarrow> k \<notin> X \<Longrightarrow> holds k t S \<Longrightarrow> holds k t T"
  unfolding kept_def holds_def same_delivery_def by (metis (no_types, lifting))

text \<open>The lease of the runner: other processes never sign, finish or fail a job.\<close>

definition leased :: "(string \<Rightarrow> 'o job_env) \<Rightarrow> bool" where
  "leased E \<longleftrightarrow> (\<forall>k n S. kept {} S (je_others (E k) n S))"

lemma leasedD: "leased E \<Longrightarrow> kept X S (je_others (E k) n S)"
  unfolding leased_def by (rule kept_mono [of "{}"]) auto

subsection \<open>Writes\<close>

lemma mutate_Inr:
  assumes "mutate W k op S = (Inr x, S')"
  obtains d where "op (file_data S) = Inr (x, d)" "file_data S' = d\<lparr>vd_revision := vd_revision d + 1\<rparr>"
proof -
  from assms obtain d f where d: "bindE (vault_load (S\<lparr>vs_lock := True\<rparr>)) op = Inr (x, d)"
    and f: "writeVaultEnvelope (we_failing W) (k, d\<lparr>vd_revision := vd_revision d + 1\<rparr>) (vs_file S) = (Inr (), f)" and S': "vs_file S' = f"
    by (auto simp: mutate_def Let_def leave_lock_def split: if_splits sum.splits prod.splits)
  have "op (file_data S) = Inr (x, d)"
    using d by (auto simp: bindE_Inr_iff vault_load_def file_data_def split: option.splits prod.splits if_splits)
  moreover have "file_data S' = d\<lparr>vd_revision := vd_revision d + 1\<rparr>"
    using write_acknowledged [OF f] S' by (simp add: file_data_def)
  ultimately show ?thesis by (rule that)
qed

text \<open>An operation that, when it succeeds, replaces one job.\<close>

definition puts_job :: "string \<Rightarrow> ('o, 'a) vault_op \<Rightarrow> bool" where
  "puts_job k op \<longleftrightarrow> (\<forall>d x d'. op d = Inr (x, d') \<longrightarrow> (\<exists>j. d' = put_job k j d))"

lemma puts_job_ops: "puts_job k (prepareRevocation k t)" "puts_job k (finishRevocation k at)" "puts_job k (failRevocation k err m)"
  by (auto simp: puts_job_def prepareRevocation_def finishRevocation_def failRevocation_def bindE_Inr_iff Let_def split: option.splits)

lemma job_at_put: "file_data S' = (put_job k j (file_data S))\<lparr>vd_revision := n\<rparr> \<Longrightarrow> job_at k' S' = (if k' = k then Some j else job_at k' S)"
  by (simp add: job_at_def put_job_def update_conv)

lemma write_kept:
  assumes "puts_job k op" "vault_write W op (S, log) = (r, (S', log'))"
  shows "kept {k} S S'" "log' = log"
proof -
  have S': "S' = snd (mutate W (vs_key S) op S)" and "log' = log"
    using assms(2) by (auto simp: vault_write_def split: prod.splits)
  then show "log' = log" by simp
  from mutate_file [of W "vs_key S" op S] show "kept {k} S S'"
  proof (elim disjE exE conjE)
    assume "file_data (snd (mutate W (vs_key S) op S)) = file_data S"
    then show ?thesis by (simp add: S' kept_def job_at_def same_delivery_def)
  next
    fix x d
    assume "op (file_data S) = Inr (x, d)" "file_data (snd (mutate W (vs_key S) op S)) = d\<lparr>vd_revision := vd_revision d + 1\<rparr>"
    with assms(1) obtain j where "file_data S' = (put_job k j (file_data S))\<lparr>vd_revision := vd_revision d + 1\<rparr>"
      unfolding puts_job_def S' by blast
    from job_at_put [OF this] show ?thesis by (simp add: kept_def same_delivery_def)
  qed
qed

lemma write_job:
  assumes "vault_write W op (S, log) = (Inr x, (S', log'))"
  obtains d where "op (file_data S) = Inr (x, d)" "job_at k S' = map_of (vd_revocations d) k"
proof -
  have m: "mutate W (vs_key S) op S = (Inr x, S')"
    using assms by (auto simp: vault_write_def split: prod.splits)
  from mutate_Inr [OF m] obtain d where "op (file_data S) = Inr (x, d)" "file_data S' = d\<lparr>vd_revision := vd_revision d + 1\<rparr>" .
  with that show ?thesis by (simp add: job_at_def)
qed

lemma prepare_holds:
  assumes "vault_write W (prepareRevocation k t) (S, log) = (Inr j, (S', log'))" "job_at k S = Some j0" "rj_id j0 = k"
  shows "rj_id j = k" "rj_transaction j = Some t" "holds k t S'"
proof -
  from write_job [OF assms(1), of k] obtain d where d: "prepareRevocation k t (file_data S) = Inr (j, d)"
    "job_at k S' = map_of (vd_revocations d) k" .
  with assms(2,3) have "rj_id j = k \<and> rj_transaction j = Some t \<and> rj_state j = J_prepared \<and> job_at k S' = Some j"
    by (auto simp: prepareRevocation_def mustGetJob_def job_at_def bindE_Inr_iff Let_def put_job_def update_conv split: option.splits)
  then show "rj_id j = k" "rj_transaction j = Some t" "holds k t S'" by (auto simp: holds_def)
qed

lemma finish_settled:
  "vault_write W (finishRevocation k at) (S, log) = (Inr x, (S', log')) \<Longrightarrow> settled k S'"
  by (erule write_job [where k = k])
    (auto simp: finishRevocation_def mustGetJob_def bindE_Inr_iff put_job_def update_conv settled_def split: option.splits)

lemma revert_settled:
  "vault_write W (failRevocation k err True) (S, log) = (Inr x, (S', log')) \<Longrightarrow> settled k S'"
  by (erule write_job [where k = k])
    (auto simp: failRevocation_def mustGetJob_def bindE_Inr_iff put_job_def update_conv settled_def Let_def split: option.splits)

subsection \<open>One job\<close>

fun event_job :: "'o delivery_event \<Rightarrow> string" where
  "event_job (Signed k t S) = k" | "event_job (Checked k t S) = k" | "event_job (Sent k t S) = k"

fun event_store :: "'o delivery_event \<Rightarrow> 'o vault_store" where
  "event_store (Signed k t S) = S" | "event_store (Checked k t S) = S" | "event_store (Sent k t S) = S"

fun is_signed :: "'o delivery_event \<Rightarrow> bool" where
  "is_signed (Signed k t S) = True" | "is_signed _ = False"

text \<open>What is broadcast is what the vault holds, and the vault accepts writes.\<close>

fun sent_ok :: "'o delivery_event \<Rightarrow> bool" where
  "sent_ok (Sent k t S) \<longleftrightarrow> holds k t S \<and> assertWritable S = Inr ()"
| "sent_ok _ \<longleftrightarrow> True"

definition progress :: "string \<Rightarrow> 'o delivery \<Rightarrow> 'o delivery \<Rightarrow> bool" where
  "progress k D D' \<longleftrightarrow> kept {k} (fst D) (fst D') \<and> (\<exists>evs. snd D' = snd D @ evs
     \<and> (\<forall>e \<in> set evs. event_job e = k \<and> sent_ok e \<and> kept {k} (fst D) (event_store e))
     \<and> (\<forall>e \<in> set (tl evs). \<not> is_signed e))"

lemma progress_refl [simp]: "progress k D D"
  by (simp add: progress_def)

lemma progress_store: "progress k D (S, log) \<Longrightarrow> kept {k} S S' \<Longrightarrow> progress k D (S', log)"
  unfolding progress_def fst_conv snd_conv using kept_trans by blast

lemma progress_event:
  assumes "progress k D (S, log)" "event_job e = k" "event_store e = S" "sent_ok e" "\<not> is_signed e"
  shows "progress k D (S, log @ [e])"
proof -
  from assms(1) obtain evs where evs: "log = snd D @ evs" "\<forall>e \<in> set evs. event_job e = k \<and> sent_ok e \<and> kept {k} (fst D) (event_store e)"
    "\<forall>e \<in> set (tl evs). \<not> is_signed e" "kept {k} (fst D) S" by (auto simp: progress_def)
  have "set (tl (evs @ [e])) \<subseteq> insert e (set (tl evs))" by (cases evs) auto
  with evs assms(2-5) show ?thesis unfolding progress_def by (intro conjI exI [of _ "evs @ [e]"]) auto
qed

lemma progress_write: "progress k D (S, log) \<Longrightarrow> puts_job k op \<Longrightarrow> vault_write W op (S, log) = (r, D') \<Longrightarrow> progress k D D'"
  using write_kept [of k op W S log r "fst D'" "snd D'"] progress_store [of k D S log "fst D'"] by (cases D') auto

text \<open>A job of the list, as the file has it.\<close>

definition current :: "'o revocation_job \<Rightarrow> 'o vault_store \<Rightarrow> bool" where
  "current j S \<longleftrightarrow> rj_state j \<noteq> J_confirmed \<and> (\<exists>j'. job_at (rj_id j) S = Some j' \<and> same_delivery j j')"

lemma current_kept: "current j S \<Longrightarrow> kept X S T \<Longrightarrow> rj_id j \<notin> X \<Longrightarrow> current j T"
  unfolding current_def kept_def same_delivery_def by (metis (no_types, lifting))

lemma signed_progress:
  assumes "leased E" "current j S" "rj_id j = k" "signed_job (E k) j (S, log) = (r, D')"
  shows "progress k (S, log) D' \<and> (\<forall>j2. r = Inr j2 \<longrightarrow> rj_id j2 = k \<and> (\<exists>t. rj_transaction j2 = Some t \<and> holds k t (fst D')))"
proof (cases "rj_transaction j")
  case (Some t)
  with assms show ?thesis by (auto simp: signed_job_def current_def holds_def same_delivery_def)
next
  case none: None
  show ?thesis
  proof (cases "je_prepare (E k)")
    case (Inl e)
    with none assms(4) show ?thesis by (auto simp: signed_job_def)
  next
    case (Inr t)
    let ?S = "je_others (E k) 0 S" and ?log = "log @ [Signed k t S]"
    have w: "vault_write (je_write (E k) 0) (prepareRevocation k t) (?S, ?log) = (r, D')"
      using none Inr assms(3,4) by (simp add: signed_job_def)
    have "progress k (S, log) (S, ?log)" by (auto simp: progress_def)
    then have p: "progress k (S, log) (?S, ?log)" by (rule progress_store) (rule leasedD [OF assms(1)])
    have "current j ?S" using assms(2) by (rule current_kept) (rule leasedD [OF assms(1), of "{}"], simp)
    then obtain j0 where j0: "job_at k ?S = Some j0" "rj_id j0 = k" using assms(3) by (auto simp: current_def same_delivery_def)
    have "rj_id j2 = k \<and> (\<exists>t. rj_transaction j2 = Some t \<and> holds k t (fst D'))" if "r = Inr j2" for j2
      using prepare_holds [OF _ j0, of _ t ?log j2 "fst D'" "snd D'"] w that by auto
    with progress_write [OF p puts_job_ops(1) w] show ?thesis by blast
  qed
qed

lemma receipt_progress:
  assumes "leased E" "holds k t S" "progress k D (S, log)" "final_receipt (E k) k t (S, log) = (r, D')"
  shows "progress k D D' \<and> holds k t (fst D')"
proof -
  let ?S1 = "je_others (E k) 1 S" and ?log1 = "log @ [Checked k t S]"
  have h: "holds k t (je_others (E k) n T)" if "holds k t T" for n T
    using kept_holds [OF leasedD [OF assms(1), of "{}"] _ that] by simp
  have "progress k D (S, ?log1)" using assms(3) by (rule progress_event) simp_all
  then have p1: "progress k D (?S1, ?log1)" by (rule progress_store) (rule leasedD [OF assms(1)])
  have h1: "holds k t ?S1" using assms(2) by (rule h)
  have sent: "progress k D (je_others (E k) 2 ?S1, ?log1 @ [Sent k t ?S1])" if "assertWritable ?S1 = Inr ()"
  proof -
    have "progress k D (?S1, ?log1 @ [Sent k t ?S1])" by (rule progress_event [OF p1]) (use h1 that in simp_all)
    then show ?thesis by (rule progress_store) (rule leasedD [OF assms(1)])
  qed
  show ?thesis
    using assms(4) p1 h1 sent h [OF h1] by (auto simp: final_receipt_def Let_def split: sum.splits option.splits)
qed

lemma bindS_cases:
  assumes "bindS m k = (r, D)"
  obtains (fails) e where "m = (Inl e, D)" "r = Inl e" | (goes_on) x D1 where "m = (Inr x, D1)" "k x D1 = (r, D)"
  using assms by (cases m; cases "fst m") (auto simp: bindS_def)

lemma final_write:
  assumes "progress k D (S, log)" "puts_job k op" "bindS (vault_write W op (S, log)) (\<lambda>_ D. (Inr out, D)) = (r, D')"
  shows "progress k D D' \<and> (\<forall>x. r = Inr x \<longrightarrow> x = out \<and> (\<exists>u. vault_write W op (S, log) = (Inr u, D')))"
  using assms(3)
proof (cases rule: bindS_cases)
  case (fails e)
  with progress_write [OF assms(1,2)] show ?thesis by simp
next
  case (goes_on x D1)
  with progress_write [OF assms(1,2)] show ?thesis by auto
qed

lemma outcome_progress:
  assumes "progress k D (S, log)" "record_outcome E k out (S, log) = (r, D')"
  shows "progress k D D' \<and> (r = Inr Job_Confirmed \<or> r = Inr Job_Failed \<longrightarrow> settled k (fst D'))"
proof -
  consider "out = Some Tx_Success" | "out = Some Tx_Reverted" | "out = None" by (cases out; cases "the out") auto
  then show ?thesis
  proof cases
    case 1
    with assms(2) have "bindS (vault_write (je_write E 1) (finishRevocation k (je_now E)) (S, log)) (\<lambda>_ D. (Inr Job_Confirmed, D)) = (r, D')"
      by (simp add: record_outcome_def)
    from final_write [OF assms(1) puts_job_ops(2) this] finish_settled show ?thesis by (cases D') fastforce
  next
    case 2
    with assms(2) have "bindS (vault_write (je_write E 1) (failRevocation k ''source transaction reverted'' True) (S, log)) (\<lambda>_ D. (Inr Job_Failed, D)) = (r, D')"
      by (simp add: record_outcome_def)
    from final_write [OF assms(1) puts_job_ops(3) this] revert_settled show ?thesis by (cases D') fastforce
  next
    case 3
    with assms(2) have "bindS (vault_write (je_write E 1) (failRevocation k ''source confirmation pending'' False) (S, log)) (\<lambda>_ D. (Inr Job_Unknown, D)) = (r, D')"
      by (simp add: record_outcome_def)
    from final_write [OF assms(1) puts_job_ops(3) this] show ?thesis by auto
  qed
qed

lemma try_progress:
  assumes "leased E" "current j S" "rj_id j = k" "try_job (E k) j (S, log) = (r, D')"
  shows "progress k (S, log) D' \<and> (r = Inr Job_Confirmed \<or> r = Inr Job_Failed \<longrightarrow> settled k (fst D'))"
  using assms(4) unfolding try_job_def
proof (cases rule: bindS_cases)
  case (fails e)
  with signed_progress [OF assms(1-3)] show ?thesis by auto
next
  case (goes_on j2 D1)
  obtain S1 log1 where D1: "D1 = (S1, log1)" by fastforce
  from signed_progress [OF assms(1-3) goes_on(1)] D1 obtain t
    where p1: "progress k (S, log) (S1, log1)" and t: "rj_id j2 = k" "rj_transaction j2 = Some t" and h1: "holds k t S1" by auto
  show ?thesis
  proof (cases "je_assertJob (E k) j2 t")
    case False
    with goes_on(2) t p1 D1 show ?thesis by auto
  next
    case True
    then have "bindS (final_receipt (E k) k t (S1, log1)) (record_outcome (E k) k) = (r, D')"
      using goes_on(2) t D1 by simp
    then show ?thesis
    proof (cases rule: bindS_cases)
      case (fails e)
      with receipt_progress [OF assms(1) h1 p1] show ?thesis by auto
    next
      case (goes_on out D2)
      obtain S2 log2 where D2: "D2 = (S2, log2)" by fastforce
      from receipt_progress [OF assms(1) h1 p1 goes_on(1)] D2 have p2: "progress k (S, log) (S2, log2)" by simp
      from outcome_progress [OF p2] goes_on(2) D2 show ?thesis by simp
    qed
  qed
qed

subsection \<open>The whole run\<close>

text \<open>Before each event: the jobs of the earlier events are this job, not signed before, or settled.\<close>

definition in_order :: "'o delivery_event list \<Rightarrow> 'o delivery_event \<Rightarrow> bool" where
  "in_order earlier e \<longleftrightarrow> sent_ok e \<and> (\<forall>x \<in> set earlier.
     if event_job x = event_job e then \<not> is_signed e else settled (event_job x) (event_store e))"

fun trace_ok :: "'o delivery_event list \<Rightarrow> 'o delivery_event list \<Rightarrow> bool" where
  "trace_ok earlier [] \<longleftrightarrow> True"
| "trace_ok earlier (e # es) \<longleftrightarrow> in_order earlier e \<and> trace_ok (earlier @ [e]) es"

lemma trace_append: "trace_ok es (xs @ ys) \<longleftrightarrow> trace_ok es xs \<and> trace_ok (es @ xs) ys"
  by (induction xs arbitrary: es) auto

lemma progress_trace:
  assumes "progress k (S, log) D'" "\<forall>x \<in> set log. event_job x \<noteq> k \<and> settled (event_job x) S" "trace_ok [] log"
  shows "trace_ok [] (snd D') \<and> (\<forall>x \<in> set (snd D'). event_job x = k \<or> event_job x \<in> event_job ` set log)
    \<and> (\<forall>x \<in> set log. settled (event_job x) (fst D'))"
proof -
  from assms(1) obtain evs where evs: "snd D' = log @ evs" "\<forall>e \<in> set evs. event_job e = k \<and> sent_ok e \<and> kept {k} S (event_store e)"
    "\<forall>e \<in> set (tl evs). \<not> is_signed e" "kept {k} S (fst D')" by (auto simp: progress_def)
  have later: "trace_ok (log @ pre) es" if "set pre \<subseteq> set evs" "set es \<subseteq> set evs" "pre \<noteq> [] \<longrightarrow> (\<forall>e \<in> set es. \<not> is_signed e)"
    "es \<noteq> [] \<longrightarrow> (\<forall>e \<in> set (tl es). \<not> is_signed e)" for pre es
    using that
  proof (induction es arbitrary: pre)
    case (Cons e es)
    have e: "event_job e = k" "sent_ok e" "kept {k} S (event_store e)" using evs(2) Cons.prems(2) by auto
    have "in_order (log @ pre) e"
      unfolding in_order_def
    proof (intro conjI ballI)
      fix x assume "x \<in> set (log @ pre)"
      then consider "x \<in> set log" | "x \<in> set pre" by auto
      then show "if event_job x = event_job e then \<not> is_signed e else settled (event_job x) (event_store e)"
      proof cases
        case 1
        with assms(2) e kept_settled [OF e(3)] show ?thesis by auto
      next
        case 2
        with Cons.prems(1,3) evs(2) e(1) show ?thesis by auto
      qed
    qed (rule e(2))
    moreover have "trace_ok (log @ (pre @ [e])) es"
      using Cons.prems by (intro Cons.IH) (auto dest: list.set_sel(2) [rotated])
    ultimately show ?case by simp
  qed simp
  have "trace_ok (log @ []) evs" using evs(3) by (intro later) auto
  with assms(3) evs(1) have "trace_ok [] (snd D')" by (simp add: trace_append)
  with evs assms(2) kept_settled [OF evs(4)] show ?thesis by auto
qed

lemma write_log: "snd (snd (bindS (vault_write W op (S, log)) (\<lambda>_ D. (Inr x, D)))) = log"
  by (auto simp: vault_write_def bindS_def split: prod.splits sum.splits)

lemma deliver_trace:
  assumes "leased E" "trace_ok [] log" "\<forall>x \<in> set log. settled (event_job x) S"
    and "distinct (map rj_id js)" "\<forall>j \<in> set js. current j S" "\<forall>x \<in> set log. event_job x \<notin> rj_id ` set js"
  shows "trace_ok [] (snd (snd (deliver_jobs E js c f (S, log))))"
  using assms(2-)
proof (induction js arbitrary: c f S log)
  case (Cons j js)
  let ?k = "rj_id j"
  obtain r S' log' where r: "try_job (E ?k) j (S, log) = (r, (S', log'))" by (metis surj_pair)
  have "current j S" using Cons.prems(4) by simp
  note t = try_progress [OF assms(1) this HOL.refl r]
  have p: "progress ?k (S, log) (S', log')" using t by simp
  have "\<forall>x \<in> set log. event_job x \<noteq> ?k \<and> settled (event_job x) S" using Cons.prems(2,5) by auto
  from progress_trace [OF p this Cons.prems(1)]
  have tr: "trace_ok [] log'" "\<forall>x \<in> set log'. event_job x = ?k \<or> event_job x \<in> event_job ` set log"
    "\<forall>x \<in> set log. settled (event_job x) S'" by auto
  have kept: "kept {?k} S S'" using p by (simp add: progress_def)
  have rest: "trace_ok [] (snd (snd (deliver_jobs E js c' f' (S', log'))))" if "settled ?k S'" for c' f'
  proof (rule Cons.IH)
    show "\<forall>x \<in> set log'. settled (event_job x) S'" using tr that by fastforce
    show "\<forall>j' \<in> set js. current j' S'"
    proof
      fix j' assume "j' \<in> set js"
      with Cons.prems(3,4) have "current j' S" "rj_id j' \<notin> {?k}" by (auto simp: image_iff)
      with kept show "current j' S'" using current_kept by blast
    qed
    show "\<forall>x \<in> set log'. event_job x \<notin> rj_id ` set js" using tr(2) Cons.prems(3,5) by fastforce
  qed (use tr Cons.prems(3) in auto)
  show ?case
  proof (cases r)
    case (Inl e)
    with r tr(1) show ?thesis by (simp add: write_log)
  next
    case (Inr x)
    with r t tr(1) rest show ?thesis by (cases x) auto
  qed
qed simp

subsection \<open>Reachable vaults\<close>

definition outbox_ok :: "'o vault_data \<Rightarrow> bool" where
  "outbox_ok d \<longleftrightarrow> distinct (map fst (vd_revocations d)) \<and> (\<forall>(k, j) \<in> set (vd_revocations d). rj_id j = k)"

lemma outbox_put: "outbox_ok d \<Longrightarrow> rj_id j = k \<Longrightarrow> outbox_ok (put_job k j d)"
  using set_update [of k j "vd_revocations d"] by (auto simp: outbox_ok_def put_job_def distinct_update)

lemma outbox_same: "vd_revocations d' = vd_revocations d \<Longrightarrow> outbox_ok d \<Longrightarrow> outbox_ok d'"
  by (simp add: outbox_ok_def)

lemma outbox_job: "outbox_ok d \<Longrightarrow> map_of (vd_revocations d) k = Some j \<Longrightarrow> rj_id j = k"
  by (auto simp: outbox_ok_def dest: map_of_SomeD)

lemma outbox_queue: "queueRevocation r at d = Inr d' \<Longrightarrow> outbox_ok d \<Longrightarrow> outbox_ok d'"
  by (auto simp: queueRevocation_def Let_def intro: outbox_put split: if_splits)

lemma outbox_put_record [simp]: "outbox_ok (put_record k r d) = outbox_ok d"
  by (simp add: outbox_ok_def)

lemma outbox_recover: "recover_records now rs d = Inr d' \<Longrightarrow> outbox_ok d \<Longrightarrow> outbox_ok d'"
proof (induction rs arbitrary: d)
  case (Cons r rs)
  then show ?case by (auto simp: bindE_Inr_iff dest: outbox_queue split: if_splits)
qed simp

lemma outbox_rescreen: "recordRescreen k e x d = Inr (y, d') \<Longrightarrow> outbox_ok d \<Longrightarrow> outbox_ok d'"
  by (auto simp: recordRescreen_def op_splits dest: outbox_queue split: option.splits if_splits)

lemma outbox_review: "decideReview K key k e z d = Inr (y, d') \<Longrightarrow> outbox_ok d \<Longrightarrow> outbox_ok d'"
  by (auto simp: decideReview_def op_splits dest: outbox_queue split: option.splits if_splits)

lemma outbox_prepare: "prepareRevocation k t d = Inr (y, d') \<Longrightarrow> outbox_ok d \<Longrightarrow> outbox_ok d'"
  by (auto simp: prepareRevocation_def op_splits mustGetJob_Inr intro!: outbox_put dest: outbox_job)

lemma outbox_finish:
  assumes "finishRevocation k at d = Inr (y, d')" "outbox_ok d"
  shows "outbox_ok d'"
proof -
  from assms(1) obtain j t where j: "map_of (vd_revocations d) k = Some j" "rj_transaction j = Some t"
    by (auto simp: finishRevocation_def op_splits mustGetJob_Inr split: option.splits)
  with assms(1) have "\<exists>j'. d' = put_job k j' d \<and> rj_id j' = rj_id j"
    by (auto simp: finishRevocation_def op_splits mustGetJob_Inr)
  with outbox_put [OF assms(2)] outbox_job [OF assms(2) j(1)] show ?thesis by metis
qed

lemma outbox_fail: "failRevocation k err m d = Inr (y, d') \<Longrightarrow> outbox_ok d \<Longrightarrow> outbox_ok d'"
  by (auto simp: failRevocation_def op_splits mustGetJob_Inr intro!: outbox_put dest: outbox_job split: if_splits)

lemma outbox_observe: "recordRevocationObservation W k x ob at d = Inr (y, d') \<Longrightarrow> outbox_ok d \<Longrightarrow> outbox_ok d'"
  by (auto simp: recordRevocationObservation_def op_splits intro!: outbox_put dest: outbox_job split: option.splits if_splits)

lemma outbox_purge: "purgeExpired K now d = Inr (y, d') \<Longrightarrow> outbox_ok d \<Longrightarrow> outbox_ok d'"
  using purge_jobs [of K now "map snd (vd_records d)" 0 d] by (auto simp: purgeExpired_def bindE_Inr_iff intro: outbox_same)

lemma same_jobs_outbox: "same_jobs d m \<Longrightarrow> m = Inr (x, d') \<Longrightarrow> outbox_ok d \<Longrightarrow> outbox_ok d'"
  by (auto simp: same_jobs_def intro: outbox_same)

lemmas outbox_quiet = same_jobs_outbox [OF jobs_same_vault_put] same_jobs_outbox [OF jobs_same_recordMaterialization]
  same_jobs_outbox [OF jobs_same_recordSourceConfirmation] same_jobs_outbox [OF jobs_same_extendRetention]
  same_jobs_outbox [OF jobs_same_placeHold] same_jobs_outbox [OF jobs_same_releaseHold] same_jobs_outbox [OF jobs_same_requestDeletion]
  same_jobs_outbox [OF jobs_same_approveDeletion] same_jobs_outbox [OF jobs_same_vault_erase]

lemma apply_outbox: "vault_apply K W c d = Inr (x, d') \<Longrightarrow> outbox_ok d \<Longrightarrow> outbox_ok d'"
  by (cases c) (auto simp: unit_op_Inr recoverBlockedRevocations_def bindE_Inr_iff
      dest: outbox_quiet outbox_rescreen outbox_review outbox_prepare outbox_finish outbox_fail outbox_observe outbox_purge outbox_recover)

lemma step_outbox:
  assumes "vault_step K W S S'" "outbox_ok (file_data S)"
  shows "outbox_ok (file_data S')"
  using assms(1)
proof cases
  case (called E c)
  with mutate_file [of E "vs_key S" "vault_apply K W c" S] assms(2) apply_outbox [OF _ assms(2), of K W c]
  show ?thesis by (auto simp: outbox_ok_def)
next
  case (rotated E secret operator at)
  with rotate_file [of K E secret operator at S] assms(2) show ?thesis by (auto simp: outbox_ok_def)
next
  case (reopened k)
  with assms(2) show ?thesis by (simp add: file_data_def)
qed

lemma steps_outbox: "(vault_step K W)\<^sup>*\<^sup>* S S' \<Longrightarrow> outbox_ok (file_data S) \<Longrightarrow> outbox_ok (file_data S')"
  by (induction rule: rtranclp_induct) (auto dest: step_outbox)

lemma fresh_outbox: "fresh_vault S \<Longrightarrow> outbox_ok (file_data S)"
  by (simp add: fresh_vault_def file_data_def empty_vault_def outbox_ok_def)

lemma loaded_data: "vault_load S = Inr d \<Longrightarrow> d = file_data S"
  by (auto simp: vault_load_def file_data_def split: option.splits prod.splits if_splits)

lemma pending_current:
  assumes "outbox_ok (file_data S)" "j \<in> set (listPendingRevocations (file_data S))"
  shows "current j S"
proof -
  obtain k where "(k, j) \<in> set (vd_revocations (file_data S))" "rj_state j \<noteq> J_confirmed"
    using assms(2) by (auto simp: listPendingRevocations_def)
  with assms(1) show ?thesis by (auto simp: outbox_ok_def current_def job_at_def same_delivery_def)
qed

lemma pending_distinct: "outbox_ok d \<Longrightarrow> distinct (map rj_id (listPendingRevocations d))"
proof -
  assume ok: "outbox_ok d"
  have "map rj_id (map snd (vd_revocations d)) = map fst (vd_revocations d)"
    using ok by (auto simp: outbox_ok_def comp_def)
  then have "distinct (map rj_id (map snd (vd_revocations d)))" using ok by (simp only: outbox_ok_def)
  then show ?thesis unfolding listPendingRevocations_def by (rule distinct_map_filter)
qed

lemma run_trace:
  assumes "outbox_ok (file_data S)" "leased E"
  shows "trace_ok [] (snd (snd (deliverRevocations E (S, []))))"
proof (cases "bindE (assertWritable S) (\<lambda>_. vault_load S)")
  case (Inl e)
  then show ?thesis by (simp add: deliverRevocations_def)
next
  case (Inr d)
  then have d: "d = file_data S" using loaded_data by (auto simp: bindE_Inr_iff)
  have "trace_ok [] (snd (snd (deliver_jobs E (listPendingRevocations d) 0 0 (S, []))))"
    using assms d pending_distinct [of d] pending_current [OF assms(1)] by (intro deliver_trace) auto
  moreover have "snd (snd (bindS m (\<lambda>(c, f) D. case vault_load (fst D) of Inl e \<Rightarrow> (Inl e, D)
      | Inr d' \<Rightarrow> (Inr (c, f, length (listPendingRevocations d')), D)))) = snd (snd m)" for m :: "('a delivery, string, nat \<times> nat) st_res"
    by (auto simp: bindS_def split: prod.splits sum.splits)
  ultimately show ?thesis using Inr by (simp add: deliverRevocations_def)
qed

lemma trace_ok_split: "trace_ok es (xs @ e # ys) \<Longrightarrow> in_order (es @ xs) e"
  by (simp add: trace_append)

text \<open>
  C22: revocations are delivered in order and only from the vault. Over any run of the delivery on a
  reachable vault, with any answers of the transport, any failing writes and any use of the
  vault by other processes that respects the runner's lease: a transaction is broadcast only while
  the vault holds exactly it, unconfirmed, for that job and accepts writes; a job is signed at most
  once in the run and before it is checked or sent; and whenever a job is signed, checked or sent,
  every job handled before it in the run is settled in the vault, confirmed or without a
  transaction. So no nonce is used behind a transaction whose fate is unknown.
\<close>

theorem revocations_delivered_in_order:
  assumes "fresh_vault S0" "(vault_step K W)\<^sup>*\<^sup>* S0 S" "leased E"
    and "snd (snd (deliverRevocations E (S, []))) = earlier @ e # later"
  shows "(case e of Sent k t T \<Rightarrow> holds k t T \<and> assertWritable T = Inr () | _ \<Rightarrow> True)
    \<and> (\<forall>x \<in> set earlier. if event_job x = event_job e then \<not> is_signed e else settled (event_job x) (event_store e))"
proof -
  have "outbox_ok (file_data S)" using steps_outbox [OF assms(2) fresh_outbox [OF assms(1)]] .
  from run_trace [OF this assms(3)] trace_ok_split [of "[]" earlier e later] assms(4) have "in_order earlier e" by simp
  then show ?thesis by (cases e) (auto simp: in_order_def)
qed

text \<open>A blocked record, whose revocation is signed, broadcast and mined.\<close>

definition run_blocked :: "unit vault_store" where
  "run_blocked = run_vault [C_put run_record, C_rescreen ''r'' run_block run_record]"

definition run_tx :: revocation_tx where
  "run_tx = \<lparr>rt_hash = ''0xh'', rt_raw = ''0xraw'', rt_chainId = sepolia, rt_source = ''0xs''\<rparr>"

definition run_env :: "unit job_env" where
  "run_env = \<lparr>je_prepare = Inr run_tx, je_assertJob = (\<lambda>_ _. True), je_receipt = Inr None, je_wait = Inr (Some Tx_Success),
     je_write = (\<lambda>_. \<lparr>we_busy = False, we_noted = True, we_failing = None, we_closed = True, we_unlinked = True\<rparr>), je_now = 9,
     je_others = (\<lambda>_ S. S)\<rparr>"

definition run_job :: "unit revocation_job" where
  "run_job = \<lparr>rj_id = ''r:revoke:7'', rj_recordId = ''r'', rj_walletAddress = ''w'', rj_createdAt = 7, rj_state = J_pending,
     rj_sourceTarget = None, rj_transaction = None, rj_confirmedAt = None, rj_lastError = None, rj_observations = []\<rparr>"

lemma run_id: "''r:revoke:'' @ decimal 7 = ''r:revoke:7''"
  by (simp add: decimal_def digits_of.simps char_of_def bit_0)

lemma run_blocked_file: "\<exists>d. vs_file run_blocked = Some (''k'', d) \<and> vd_revocations d = [(''r:revoke:7'', run_job)]
    \<and> vs_key run_blocked = ''k'' \<and> \<not> vs_lock run_blocked \<and> \<not> vs_unconfirmed run_blocked"
  using run_id
  by (simp add: run_blocked_def run_vault_def run_vault_defs run_crypto_def run_record_def file_data_def Let_def requireE_def is_safe_def
      max_safe_def run_block_def recordRescreen_def queueRevocation_def latest_decision_def put_job_def run_job_def)

lemma run_delivered:
  "\<exists>T earlier. snd (snd (deliverRevocations (\<lambda>_. run_env) (run_blocked, []))) = earlier @ Sent ''r:revoke:7'' run_tx T # []"
proof -
  obtain d where d: "vs_file run_blocked = Some (''k'', d)" "vd_revocations d = [(''r:revoke:7'', run_job)]"
    "vs_key run_blocked = ''k''" "\<not> vs_lock run_blocked" "\<not> vs_unconfirmed run_blocked" using run_blocked_file by blast
  then show ?thesis
    by (simp add: deliverRevocations_def assertWritable_def vault_load_def listPendingRevocations_def run_job_def run_env_def try_job_def
        signed_job_def vault_write_def mutate_def leave_lock_def writeVaultEnvelope_def Let_def prepareRevocation_def mustGetJob_def
        final_receipt_def record_outcome_def finishRevocation_def put_job_def run_tx_def)
qed

theorem revocations_delivered_in_order_witness:
  "\<exists>T. Sent ''r:revoke:7'' run_tx T \<in> set (snd (snd (deliverRevocations (\<lambda>_. run_env) (run_blocked, []))))
     \<and> holds ''r:revoke:7'' run_tx T \<and> assertWritable T = Inr ()"
proof -
  obtain T earlier where log: "snd (snd (deliverRevocations (\<lambda>_. run_env) (run_blocked, []))) = earlier @ Sent ''r:revoke:7'' run_tx T # []"
    using run_delivered by blast
  have f: "fresh_vault (run_vault [])" by (simp add: fresh_vault_def run_vault_def)
  have l: "leased (\<lambda>_. run_env)" by (simp add: leased_def run_env_def)
  have "(vault_step run_crypto run_view)\<^sup>*\<^sup>* (run_vault []) run_blocked" unfolding run_blocked_def by (rule run_vault_steps)
  from revocations_delivered_in_order [OF f this l log] log show ?thesis by auto
qed

end
