(* ===== verification/Bank_State.thy ===== *)
theory Bank_State
  imports Prelude
begin

text \<open>
  The state of the one-won account challenges, \<open>pipeline/bank-state.ts\<close>: the script that Redis runs
  atomically on its own clock, the client that calls it over HTTP, and the store in memory of the
  demo. Times are in milliseconds. A key of Redis with a time to live is present while that has
  not elapsed. The identifiers are the opaque keys of the callers.
\<close>

subsection \<open>Data\<close>

definition attempts_limit :: int where "attempts_limit = 5"
definition flow_starts :: int where "flow_starts = 3"
definition account_starts :: int where "account_starts = 3"
definition wallet_starts :: int where "wallet_starts = 5"
definition global_starts :: int where "global_starts = 1000"
definition lifetime_ms :: int where "lifetime_ms = 600000"
definition budget_ms :: int where "budget_ms = 86400000"

record bank_reservation =
  br_request :: string
  br_flow :: string
  br_account :: string
  br_wallet :: string
  br_fingerprint :: string
  br_challenge :: string

datatype bank_phase = Pending | Ready | Consumed | Locked

text \<open>The hash of a request, and the hash of a counter (only the one of a flow has \<open>current\<close>).\<close>

record request_hash =
  qh_phase :: bank_phase
  qh_id :: string
  qh_fingerprint :: string
  qh_expires :: int
  qh_attempts :: int
  qh_response :: string
  qh_ttl :: int

datatype counter_key = Flow string | Account string | Wallet string | Global

record counter_hash =
  nh_count :: int
  nh_current :: "string option"
  nh_ttl :: int

record bank_db =
  bd_requests :: "string \<Rightarrow> request_hash option"
  bd_counters :: "counter_key \<Rightarrow> counter_hash option"

datatype bank_op =
    Op_Reserve bank_reservation
  | Op_Activate string string string string
  | Op_Verify string string string bool

datatype bank_reply = Reserved int | Cached string | Activated | Verified | Mismatch int | Refused string

text \<open>
  A key is gone from the millisecond of its deadline on; Redis itself may keep it for one
  millisecond more.
\<close>

definition live_request :: "int \<Rightarrow> bank_db \<Rightarrow> string \<Rightarrow> request_hash option" where
  "live_request now d k = (case bd_requests d k of None \<Rightarrow> None | Some q \<Rightarrow> if now < qh_ttl q then Some q else None)"

definition live_counter :: "int \<Rightarrow> bank_db \<Rightarrow> counter_key \<Rightarrow> counter_hash option" where
  "live_counter now d c = (case bd_counters d c of None \<Rightarrow> None | Some n \<Rightarrow> if now < nh_ttl n then Some n else None)"

subsection \<open>The script\<close>

definition counter_limits :: "bank_reservation \<Rightarrow> (counter_key \<times> int) list" where
  "counter_limits r = [(Flow (br_flow r), flow_starts), (Account (br_account r), account_starts),
     (Wallet (br_wallet r), wallet_starts), (Global, global_starts)]"

definition counted :: "int \<Rightarrow> bank_db \<Rightarrow> counter_key \<Rightarrow> int" where
  "counted now d c = (case live_counter now d c of None \<Rightarrow> 0 | Some n \<Rightarrow> nh_count n)"

text \<open>\<open>HINCRBY\<close>, with the time to live set by the first start of the window.\<close>

definition count_start :: "int \<Rightarrow> counter_key \<Rightarrow> bank_db \<Rightarrow> bank_db" where
  "count_start now c d = d\<lparr>bd_counters := (bd_counters d)(c := Some (case live_counter now d c of
      None \<Rightarrow> \<lparr>nh_count = 1, nh_current = None, nh_ttl = now + budget_ms\<rparr>
    | Some n \<Rightarrow> n\<lparr>nh_count := nh_count n + 1\<rparr>))\<rparr>"

definition set_current :: "string \<Rightarrow> string \<Rightarrow> bank_db \<Rightarrow> bank_db" where
  "set_current flow i d = d\<lparr>bd_counters := (bd_counters d)(Flow flow := map_option (\<lambda>n. n\<lparr>nh_current := Some i\<rparr>) (bd_counters d (Flow flow)))\<rparr>"

definition current_of :: "int \<Rightarrow> bank_db \<Rightarrow> string \<Rightarrow> string option" where
  "current_of now d flow = (case live_counter now d (Flow flow) of None \<Rightarrow> None | Some n \<Rightarrow> nh_current n)"

definition put_request :: "string \<Rightarrow> request_hash \<Rightarrow> bank_db \<Rightarrow> bank_db" where
  "put_request k q d = d\<lparr>bd_requests := (bd_requests d)(k \<mapsto> q)\<rparr>"

definition script_reserve :: "int \<Rightarrow> bank_reservation \<Rightarrow> bank_db \<Rightarrow> bank_reply \<times> bank_db" where
  "script_reserve now r d = (case live_request now d (br_request r) of
     Some q \<Rightarrow>
       (if qh_fingerprint q \<noteq> br_fingerprint r then Refused ''CONFLICT''
        else if qh_phase q = Ready \<and> current_of now d (br_flow r) = Some (qh_id q) \<and> now < qh_expires q then Cached (qh_response q)
        else Refused (if qh_phase q = Pending then ''START_PENDING'' else ''CHALLENGE_UNAVAILABLE''), d)
   | None \<Rightarrow>
       if list_ex (\<lambda>(c, limit). limit \<le> counted now d c) (counter_limits r) then (Refused ''START_BUDGET_EXCEEDED'', d)
       else (Reserved (now + lifetime_ms), put_request (br_request r)
         \<lparr>qh_phase = Pending, qh_id = br_challenge r, qh_fingerprint = br_fingerprint r, qh_expires = now + lifetime_ms,
           qh_attempts = 0, qh_response = [], qh_ttl = now + budget_ms\<rparr>
         (set_current (br_flow r) (br_challenge r) (fold (count_start now) (map fst (counter_limits r)) d))))"

text \<open>The checks shared by the other two operations.\<close>

definition script_current :: "int \<Rightarrow> string \<Rightarrow> string \<Rightarrow> string \<Rightarrow> bank_db \<Rightarrow> string + request_hash" where
  "script_current now k flow i d = (case live_request now d k of
     None \<Rightarrow> Inl ''CHALLENGE_UNAVAILABLE''
   | Some q \<Rightarrow> if qh_id q \<noteq> i \<or> current_of now d flow \<noteq> Some i then Inl ''CHALLENGE_UNAVAILABLE''
       else if qh_expires q \<le> now then Inl ''CHALLENGE_EXPIRED'' else Inr q)"

definition script_activate :: "int \<Rightarrow> string \<Rightarrow> string \<Rightarrow> string \<Rightarrow> string \<Rightarrow> bank_db \<Rightarrow> bank_reply \<times> bank_db" where
  "script_activate now k flow i response d = (case script_current now k flow i d of
     Inl e \<Rightarrow> (Refused e, d)
   | Inr q \<Rightarrow> if qh_phase q \<noteq> Pending then (Refused ''CHALLENGE_UNAVAILABLE'', d)
       else (Activated, put_request k (q\<lparr>qh_phase := Ready, qh_response := response\<rparr>) d))"

definition script_verify :: "int \<Rightarrow> string \<Rightarrow> string \<Rightarrow> string \<Rightarrow> bool \<Rightarrow> bank_db \<Rightarrow> bank_reply \<times> bank_db" where
  "script_verify now k flow i matches d = (case script_current now k flow i d of
     Inl e \<Rightarrow> (Refused e, d)
   | Inr q \<Rightarrow>
       if qh_phase q = Locked then (Refused ''TOO_MANY_ATTEMPTS'', d)
       else if qh_phase q \<noteq> Ready then (Refused ''CHALLENGE_UNAVAILABLE'', d)
       else if matches then (Verified, put_request k (q\<lparr>qh_phase := Consumed, qh_response := []\<rparr>) d)
       else let n = qh_attempts q + 1 in
         if attempts_limit \<le> n then (Refused ''TOO_MANY_ATTEMPTS'', put_request k (q\<lparr>qh_attempts := n, qh_phase := Locked, qh_response := []\<rparr>) d)
         else (Mismatch (attempts_limit - n), put_request k (q\<lparr>qh_attempts := n\<rparr>) d))"

fun bank_script :: "int \<Rightarrow> bank_op \<Rightarrow> bank_db \<Rightarrow> bank_reply \<times> bank_db" where
  "bank_script now (Op_Reserve r) d = script_reserve now r d"
| "bank_script now (Op_Activate k flow i response) d = script_activate now k flow i response d"
| "bank_script now (Op_Verify k flow i matches) d = script_verify now k flow i matches d"

subsection \<open>The client\<close>

definition id_char :: "char \<Rightarrow> bool" where
  "id_char c = (let n = (of_char c :: nat) in (48 \<le> n \<and> n \<le> 57) \<or> (65 \<le> n \<and> n \<le> 90) \<or> (97 \<le> n \<and> n \<le> 122) \<or> n = 45 \<or> n = 95)"

text \<open>\<open>/^[a-zA-Z0-9_-]{16,128}$/\<close>\<close>

definition bank_identifier :: "string \<Rightarrow> bool" where
  "bank_identifier s \<longleftrightarrow> 16 \<le> length s \<and> length s \<le> 128 \<and> list_all id_char s"

text \<open>One request: whether the script ran and whether its answer came back.\<close>

record bank_call =
  bc_ran :: bool
  bc_answered :: bool

fun op_ids :: "bank_op \<Rightarrow> string list" where
  "op_ids (Op_Reserve r) = [br_request r, br_flow r, br_account r, br_wallet r, br_challenge r]"
| "op_ids (Op_Activate k flow i response) = [k, flow, i]"
| "op_ids (Op_Verify k flow i matches) = [k, flow, i]"

fun op_payload :: "bank_op \<Rightarrow> nat" where
  "op_payload (Op_Activate k flow i response) = length response"
| "op_payload (Op_Reserve r) = 0"
| "op_payload (Op_Verify k flow i matches) = 1"

definition redis_run :: "bank_call \<Rightarrow> int \<Rightarrow> bank_op \<Rightarrow> bank_db \<Rightarrow> (bank_db, string, bank_reply) st_res" where
  "redis_run C now op d =
     (if \<not> list_all bank_identifier (op_ids op) then (Inl ''INVALID_STATE_ID'', d)
      else if 32768 < op_payload op then (Inl ''STATE_PAYLOAD_TOO_LARGE'', d)
      else (case bank_script now op d of (r, d') \<Rightarrow>
        (if bc_ran C \<and> bc_answered C then Inr r else Inl ''STATE_UNAVAILABLE'', if bc_ran C then d' else d)))"

definition redis_call :: "bank_call \<Rightarrow> int \<Rightarrow> bank_op \<Rightarrow> bank_db \<Rightarrow> (bank_db, string, bank_reply) st_res" where
  "redis_call C now op d = bindS (redis_run C now op d) (\<lambda>r d. case r of
     Refused e \<Rightarrow> (Inl e, d)
   | Cached s \<Rightarrow> (if s = [] then Inl ''cached'' else Inr r, d)
   | Reserved t \<Rightarrow> (if is_safe t then Inr r else Inl ''reserved'', d)
   | Mismatch n \<Rightarrow> (if 0 < n \<and> n < attempts_limit then Inr r else Inl ''mismatch'', d)
   | _ \<Rightarrow> (Inr r, d))"

subsection \<open>The demo store\<close>

record demo_record =
  dm_input :: bank_reservation
  dm_phase :: bank_phase
  dm_expiresAt :: int
  dm_deleteAt :: int
  dm_attempts :: int
  dm_response :: string

record demo_budget =
  db_count :: int
  db_expiresAt :: int
  db_current :: "string option"

record demo_store =
  ds_records :: "string \<Rightarrow> demo_record option"
  ds_budgets :: "counter_key \<Rightarrow> demo_budget option"

definition demo_purge :: "int \<Rightarrow> demo_store \<Rightarrow> demo_store" where
  "demo_purge now D = D\<lparr>
     ds_records := (\<lambda>k. case ds_records D k of None \<Rightarrow> None | Some x \<Rightarrow> if dm_deleteAt x \<le> now then None else Some x),
     ds_budgets := (\<lambda>c. case ds_budgets D c of None \<Rightarrow> None | Some b \<Rightarrow> if db_expiresAt b \<le> now then None else Some b)\<rparr>"

definition demo_current :: "demo_store \<Rightarrow> string \<Rightarrow> string option" where
  "demo_current D flow = (case ds_budgets D (Flow flow) of None \<Rightarrow> None | Some b \<Rightarrow> db_current b)"

definition demo_counted :: "demo_store \<Rightarrow> counter_key \<Rightarrow> int" where
  "demo_counted D c = (case ds_budgets D c of None \<Rightarrow> 0 | Some b \<Rightarrow> db_count b)"

definition demo_count :: "int \<Rightarrow> counter_key \<Rightarrow> demo_store \<Rightarrow> demo_store" where
  "demo_count now c D = D\<lparr>ds_budgets := (ds_budgets D)(c := Some (case ds_budgets D c of
      None \<Rightarrow> \<lparr>db_count = 1, db_expiresAt = now + budget_ms, db_current = None\<rparr>
    | Some b \<Rightarrow> b\<lparr>db_count := db_count b + 1\<rparr>))\<rparr>"

definition demo_set_current :: "string \<Rightarrow> string \<Rightarrow> demo_store \<Rightarrow> demo_store" where
  "demo_set_current flow i D = D\<lparr>ds_budgets := (ds_budgets D)(Flow flow := map_option (\<lambda>b. b\<lparr>db_current := Some i\<rparr>) (ds_budgets D (Flow flow)))\<rparr>"

definition demo_put :: "string \<Rightarrow> demo_record \<Rightarrow> demo_store \<Rightarrow> demo_store" where
  "demo_put k x D = D\<lparr>ds_records := (ds_records D)(k \<mapsto> x)\<rparr>"

definition demo_reserve :: "int \<Rightarrow> bank_reservation \<Rightarrow> demo_store \<Rightarrow> bank_reply \<times> demo_store" where
  "demo_reserve now r D0 = (let D = demo_purge now D0 in
     case ds_records D (br_request r) of
       Some x \<Rightarrow>
         (if br_fingerprint (dm_input x) \<noteq> br_fingerprint r then Refused ''CONFLICT''
          else if dm_phase x = Ready \<and> now < dm_expiresAt x \<and> demo_current D (br_flow r) = Some (br_challenge (dm_input x))
          then Cached (dm_response x)
          else Refused (if dm_phase x = Pending then ''START_PENDING'' else ''CHALLENGE_UNAVAILABLE''), D)
     | None \<Rightarrow>
         if list_ex (\<lambda>(c, limit). limit \<le> demo_counted D c) (counter_limits r) then (Refused ''START_BUDGET_EXCEEDED'', D)
         else (Reserved (now + lifetime_ms), demo_put (br_request r)
           \<lparr>dm_input = r, dm_phase = Pending, dm_expiresAt = now + lifetime_ms, dm_deleteAt = now + budget_ms, dm_attempts = 0, dm_response = []\<rparr>
           (demo_set_current (br_flow r) (br_challenge r) (fold (demo_count now) (map fst (counter_limits r)) D))))"

definition demo_the :: "int \<Rightarrow> string \<Rightarrow> string \<Rightarrow> string \<Rightarrow> demo_store \<Rightarrow> string + demo_record" where
  "demo_the now k flow i D = (case ds_records D k of
     None \<Rightarrow> Inl ''CHALLENGE_UNAVAILABLE''
   | Some x \<Rightarrow> if br_challenge (dm_input x) \<noteq> i \<or> demo_current D flow \<noteq> Some i then Inl ''CHALLENGE_UNAVAILABLE''
       else if dm_expiresAt x \<le> now then Inl ''CHALLENGE_EXPIRED'' else Inr x)"

definition demo_activate :: "int \<Rightarrow> string \<Rightarrow> string \<Rightarrow> string \<Rightarrow> string \<Rightarrow> demo_store \<Rightarrow> bank_reply \<times> demo_store" where
  "demo_activate now k flow i response D = (case demo_the now k flow i D of
     Inl e \<Rightarrow> (Refused e, D)
   | Inr x \<Rightarrow> if dm_phase x \<noteq> Pending then (Refused ''CHALLENGE_UNAVAILABLE'', D)
       else (Activated, demo_put k (x\<lparr>dm_phase := Ready, dm_response := response\<rparr>) D))"

definition demo_verify :: "int \<Rightarrow> string \<Rightarrow> string \<Rightarrow> string \<Rightarrow> bool \<Rightarrow> demo_store \<Rightarrow> bank_reply \<times> demo_store" where
  "demo_verify now k flow i matches D = (case demo_the now k flow i D of
     Inl e \<Rightarrow> (Refused e, D)
   | Inr x \<Rightarrow>
       if dm_phase x = Locked then (Refused ''TOO_MANY_ATTEMPTS'', D)
       else if dm_phase x \<noteq> Ready then (Refused ''CHALLENGE_UNAVAILABLE'', D)
       else if matches then (Verified, demo_put k (x\<lparr>dm_phase := Consumed, dm_response := []\<rparr>) D)
       else let n = dm_attempts x + 1 in
         if attempts_limit \<le> n then (Refused ''TOO_MANY_ATTEMPTS'', demo_put k (x\<lparr>dm_attempts := n, dm_phase := Locked, dm_response := []\<rparr>) D)
         else (Mismatch (attempts_limit - n), demo_put k (x\<lparr>dm_attempts := n\<rparr>) D))"

fun demo_run :: "int \<Rightarrow> bank_op \<Rightarrow> demo_store \<Rightarrow> bank_reply \<times> demo_store" where
  "demo_run now (Op_Reserve r) D = demo_reserve now r D"
| "demo_run now (Op_Activate k flow i response) D = demo_activate now k flow i response D"
| "demo_run now (Op_Verify k flow i matches) D = demo_verify now k flow i matches D"

end
