(* ===== verification/Bank_Props.thy ===== *)
theory Bank_Props
  imports Bank_State
begin

text \<open>
  What the challenge state promises. Every history of one request is a run of a small protocol:
  a challenge waits, is opened by its activation, and closes at the match or at the fifth miss.
  The demo store and the script of Redis answer alike while the counting window of the flow is open.
\<close>

subsection \<open>The protocol of one request\<close>

datatype challenge = No_Challenge | Waiting | Open int | Spent | Barred

fun challenge_of :: "request_hash option \<Rightarrow> challenge" where
  "challenge_of None = No_Challenge"
| "challenge_of (Some q) = (case qh_phase q of
     Pending \<Rightarrow> Waiting | Ready \<Rightarrow> Open (qh_attempts q) | Consumed \<Rightarrow> Spent | Locked \<Rightarrow> Barred)"

text \<open>The moves a caller may see; \<open>None\<close> is an answer the protocol does not allow.\<close>

fun protocol_step :: "string \<Rightarrow> bank_op \<Rightarrow> bank_reply \<Rightarrow> challenge \<Rightarrow> challenge option" where
  "protocol_step k (Op_Reserve r) a c =
     (if br_request r \<noteq> k then Some c
      else case a of Reserved t \<Rightarrow> Some Waiting
        | Cached s \<Rightarrow> (case c of Open m \<Rightarrow> Some c | _ \<Rightarrow> None)
        | Refused e \<Rightarrow> Some c | _ \<Rightarrow> None)"
| "protocol_step k (Op_Activate k' flow i response) a c =
     (if k' \<noteq> k then Some c
      else case a of Activated \<Rightarrow> if c = Waiting then Some (Open 0) else None
        | Refused e \<Rightarrow> Some c | _ \<Rightarrow> None)"
| "protocol_step k (Op_Verify k' flow i matches) a c =
     (if k' \<noteq> k then Some c
      else case a of
          Verified \<Rightarrow> (case c of Open m \<Rightarrow> if matches then Some Spent else None | _ \<Rightarrow> None)
        | Mismatch n \<Rightarrow> (case c of Open m \<Rightarrow> if \<not> matches \<and> 0 < n \<and> n = attempts_limit - (m + 1) then Some (Open (m + 1)) else None | _ \<Rightarrow> None)
        | Refused e \<Rightarrow> if e \<noteq> ''TOO_MANY_ATTEMPTS'' then Some c
            else (case c of Barred \<Rightarrow> Some Barred
              | Open m \<Rightarrow> if \<not> matches \<and> m + 1 = attempts_limit then Some Barred else None | _ \<Rightarrow> None)
        | _ \<Rightarrow> None)"

definition bank_ok :: "bank_db \<Rightarrow> bool" where
  "bank_ok d \<longleftrightarrow> (\<forall>k q. bd_requests d k = Some q \<longrightarrow> 0 \<le> qh_attempts q \<and>
     (qh_phase q = Pending \<longrightarrow> qh_attempts q = 0) \<and> (qh_phase q = Ready \<longrightarrow> qh_attempts q < attempts_limit))"

lemma bank_ok_put: "bank_ok d \<Longrightarrow> 0 \<le> qh_attempts q \<Longrightarrow> (qh_phase q = Pending \<Longrightarrow> qh_attempts q = 0)
    \<Longrightarrow> (qh_phase q = Ready \<Longrightarrow> qh_attempts q < attempts_limit) \<Longrightarrow> bank_ok (put_request k q d)"
  by (auto simp: bank_ok_def put_request_def)

lemma bank_ok_get:
  assumes "bank_ok d" "bd_requests d k = Some q"
  shows "0 \<le> qh_attempts q" "qh_phase q = Pending \<Longrightarrow> qh_attempts q = 0" "qh_phase q = Ready \<Longrightarrow> qh_attempts q < attempts_limit"
  using assms by (auto simp: bank_ok_def)

lemma requests_put [simp]: "bd_requests (put_request k q d) = (bd_requests d)(k \<mapsto> q)"
  and counters_put [simp]: "bd_counters (put_request k q d) = bd_counters d"
  by (simp_all add: put_request_def)

lemma requests_set_current [simp]: "bd_requests (set_current f i d) = bd_requests d"
  by (simp add: set_current_def)

lemma requests_count [simp]: "bd_requests (fold (count_start now) cs d) = bd_requests d"
  by (induction cs arbitrary: d) (simp_all add: count_start_def)

lemma bank_ok_requests: "bd_requests d' = bd_requests d \<Longrightarrow> bank_ok d' = bank_ok d"
  by (simp add: bank_ok_def)

lemma bank_ok_simps [simp]:
  "bank_ok (set_current f i d) = bank_ok d" "bank_ok (fold (count_start now) cs d) = bank_ok d"
  by (simp_all cong: bank_ok_requests)

lemma script_current_Inr: "script_current now k flow i d = Inr q \<Longrightarrow>
    bd_requests d k = Some q \<and> now < qh_ttl q \<and> now < qh_expires q \<and> qh_id q = i \<and> current_of now d flow = Some i"
  by (auto simp: script_current_def live_request_def split: option.splits if_splits)

lemma script_current_Inl: "script_current now k flow i d = Inl e \<Longrightarrow> e \<noteq> ''TOO_MANY_ATTEMPTS''"
  by (auto simp: script_current_def split: option.splits if_splits)

lemma live_requestD: "live_request now d k = Some q \<Longrightarrow> bd_requests d k = Some q"
  by (auto simp: live_request_def split: option.splits if_splits)

text \<open>One run of the script is one move of the protocol of every request, and keeps the hashes well formed.\<close>

lemma reserve_move:
  assumes "bank_ok d" "script_reserve now r d = (a, d')"
  shows "bank_ok d' \<and> protocol_step k (Op_Reserve r) a (challenge_of (bd_requests d k)) = Some (challenge_of (bd_requests d' k))"
proof (cases "live_request now d (br_request r)")
  case None
  then show ?thesis using assms by (auto simp: script_reserve_def intro!: bank_ok_put split: if_splits)
next
  case (Some q)
  then show ?thesis using assms live_requestD [OF Some]
    by (auto simp: script_reserve_def split: if_splits bank_phase.splits)
qed

lemma activate_move:
  assumes "bank_ok d" "script_activate now k' flow i response d = (a, d')"
  shows "bank_ok d' \<and> protocol_step k (Op_Activate k' flow i response) a (challenge_of (bd_requests d k)) = Some (challenge_of (bd_requests d' k))"
proof (cases "script_current now k' flow i d")
  case (Inl e)
  then show ?thesis using assms by (auto simp: script_activate_def)
next
  case (Inr q)
  have q: "bd_requests d k' = Some q" using script_current_Inr [OF Inr] by blast
  have att: "qh_phase q = Pending \<Longrightarrow> qh_attempts q = 0" by (rule bank_ok_get(2) [OF assms(1) q])
  show ?thesis using assms Inr q att
    by (auto simp: script_activate_def attempts_limit_def intro!: bank_ok_put split: if_splits)
qed

lemma verify_move:
  assumes "bank_ok d" "script_verify now k' flow i matches d = (a, d')"
  shows "bank_ok d' \<and> protocol_step k (Op_Verify k' flow i matches) a (challenge_of (bd_requests d k)) = Some (challenge_of (bd_requests d' k))"
proof (cases "script_current now k' flow i d")
  case (Inl e)
  then show ?thesis using assms script_current_Inl [OF Inl] by (auto simp: script_verify_def)
next
  case (Inr q)
  have q: "bd_requests d k' = Some q" using script_current_Inr [OF Inr] by blast
  note att = bank_ok_get [OF assms(1) q]
  show ?thesis using assms Inr q att
    by (auto simp: script_verify_def Let_def intro!: bank_ok_put split: if_splits bank_phase.splits)
qed

lemma script_move:
  assumes "bank_ok d" "bank_script now op d = (a, d')"
  shows "bank_ok d' \<and> protocol_step k op a (challenge_of (bd_requests d k)) = Some (challenge_of (bd_requests d' k))"
proof (cases op)
  case (Op_Reserve r)
  with assms(2) have "script_reserve now r d = (a, d')" by simp
  from reserve_move [OF assms(1) this, of k] Op_Reserve show ?thesis by simp
next
  case (Op_Activate k' flow i response)
  with assms(2) have "script_activate now k' flow i response d = (a, d')" by simp
  from activate_move [OF assms(1) this, of k] Op_Activate show ?thesis by simp
next
  case (Op_Verify k' flow i matches)
  with assms(2) have "script_verify now k' flow i matches d = (a, d')" by simp
  from verify_move [OF assms(1) this, of k] Op_Verify show ?thesis by simp
qed

subsection \<open>Sessions of the client\<close>

definition script_ran :: "bank_call \<Rightarrow> bank_op \<Rightarrow> bool" where
  "script_ran C op \<longleftrightarrow> bc_ran C \<and> list_all bank_identifier (op_ids op) \<and> op_payload op \<le> 32768"

text \<open>What one call was, what the script answered when it ran, and what the caller was told.\<close>

record bank_event =
  ev_op :: bank_op
  ev_script :: "bank_reply option"
  ev_told :: "string + bank_reply"

fun bank_session :: "(bank_call \<times> int \<times> bank_op) list \<Rightarrow> bank_db \<Rightarrow> bank_event list \<times> bank_db" where
  "bank_session [] d = ([], d)"
| "bank_session ((C, now, op) # cs) d = (case redis_call C now op d of (told, d1) \<Rightarrow>
     case bank_session cs d1 of (es, d2) \<Rightarrow>
       (\<lparr>ev_op = op, ev_script = (if script_ran C op then Some (fst (bank_script now op d)) else None), ev_told = told\<rparr> # es, d2))"

fun protocol_run :: "string \<Rightarrow> bank_event list \<Rightarrow> challenge \<Rightarrow> challenge option" where
  "protocol_run k [] c = Some c"
| "protocol_run k (e # es) c = (case ev_script e of None \<Rightarrow> protocol_run k es c
     | Some a \<Rightarrow> (case protocol_step k (ev_op e) a c of None \<Rightarrow> None | Some c' \<Rightarrow> protocol_run k es c'))"

fun op_request :: "bank_op \<Rightarrow> string" where
  "op_request (Op_Reserve r) = br_request r"
| "op_request (Op_Activate k flow i response) = k"
| "op_request (Op_Verify k flow i matches) = k"

fun is_reserved :: "bank_reply \<Rightarrow> bool" where
  "is_reserved (Reserved t) = True"
| "is_reserved _ = False"

fun is_mismatch :: "bank_reply \<Rightarrow> bool" where
  "is_mismatch (Mismatch n) = True"
| "is_mismatch _ = False"

definition started :: "string \<Rightarrow> bank_event list \<Rightarrow> nat" where
  "started k es = length (filter (\<lambda>e. op_request (ev_op e) = k \<and> (case ev_script e of None \<Rightarrow> False | Some a \<Rightarrow> is_reserved a)) es)"

definition told :: "(bank_reply \<Rightarrow> bool) \<Rightarrow> string \<Rightarrow> bank_event list \<Rightarrow> nat" where
  "told P k es = length (filter (\<lambda>e. op_request (ev_op e) = k \<and> (case ev_told e of Inl x \<Rightarrow> False | Inr a \<Rightarrow> P a)) es)"

lemma told_simps [simp]:
  "told P k [] = 0"
  "told P k (e # es) = (if op_request (ev_op e) = k \<and> (case ev_told e of Inl x \<Rightarrow> False | Inr a \<Rightarrow> P a) then Suc (told P k es) else told P k es)"
  by (simp_all add: told_def)

lemma started_simps [simp]:
  "started k [] = 0"
  "started k (e # es) = (if op_request (ev_op e) = k \<and> (case ev_script e of None \<Rightarrow> False | Some a \<Rightarrow> is_reserved a) then Suc (started k es) else started k es)"
  by (simp_all add: started_def)

text \<open>A call moves the state as the script does when it ran, and never tells more than the script said.\<close>

lemma redis_call_moves:
  assumes "redis_call C now op d = (r, d')"
  shows "d' = (if script_ran C op then snd (bank_script now op d) else d)"
    "r = Inr a \<Longrightarrow> script_ran C op \<and> fst (bank_script now op d) = a"
proof -
  obtain b e where be: "bank_script now op d = (b, e)" by (cases "bank_script now op d")
  show "d' = (if script_ran C op then snd (bank_script now op d) else d)"
    using assms be by (auto simp: redis_call_def redis_run_def script_ran_def bindS_def split: if_splits bank_reply.splits)
  show "r = Inr a \<Longrightarrow> script_ran C op \<and> fst (bank_script now op d) = a"
    using assms be by (auto simp: redis_call_def redis_run_def script_ran_def bindS_def split: if_splits bank_reply.splits)
qed

text \<open>What a request may still be told, for the match and for the misses.\<close>

fun verifies_left :: "challenge \<Rightarrow> nat" where
  "verifies_left Waiting = 1"
| "verifies_left (Open m) = 1"
| "verifies_left _ = 0"

fun misses_left :: "challenge \<Rightarrow> nat" where
  "misses_left Waiting = 4"
| "misses_left (Open m) = nat (attempts_limit - 1 - m)"
| "misses_left _ = 0"

definition reserves :: "string \<Rightarrow> bank_op \<Rightarrow> bank_reply \<Rightarrow> nat" where
  "reserves k op a = (if op_request op = k \<and> is_reserved a then 1 else 0)"

lemma protocol_step_left:
  assumes "protocol_step k op a c = Some c'"
  shows "(if op_request op = k \<and> a = Verified then 1 else 0) + verifies_left c' \<le> reserves k op a + verifies_left c"
    "(if op_request op = k \<and> is_mismatch a then 1 else 0) + misses_left c' \<le> 4 * reserves k op a + misses_left c"
  using assms by (cases op; cases a; auto simp: reserves_def attempts_limit_def split: if_splits challenge.splits)+

lemma session_bounds:
  assumes "bank_ok d" "bank_session cs d = (es, d')"
  shows "protocol_run k es (challenge_of (bd_requests d k)) = Some (challenge_of (bd_requests d' k))
    \<and> told (\<lambda>a. a = Verified) k es \<le> started k es + verifies_left (challenge_of (bd_requests d k))
    \<and> told is_mismatch k es \<le> 4 * started k es + misses_left (challenge_of (bd_requests d k))"
  using assms
proof (induction cs arbitrary: d es)
  case Nil
  then show ?case by simp
next
  case (Cons c cs)
  obtain C now op where c: "c = (C, now, op)" by (cases c)
  obtain r d1 where call: "redis_call C now op d = (r, d1)" by (cases "redis_call C now op d")
  obtain es' d2 where rest: "bank_session cs d1 = (es', d2)" by (cases "bank_session cs d1")
  obtain a d3 where script: "bank_script now op d = (a, d3)" by (cases "bank_script now op d")
  have es: "es = \<lparr>ev_op = op, ev_script = (if script_ran C op then Some a else None), ev_told = r\<rparr> # es'" and d': "d' = d2"
    using Cons.prems c call rest script by auto
  note moves = redis_call_moves [OF call]
  note move = script_move [OF Cons.prems(1) script, of k]
  show ?case
  proof (cases "script_ran C op")
    case False
    then have "d1 = d" using moves(1) by simp
    have "r \<noteq> Inr a" for a using moves(2) [of a] False by blast
    then have "\<exists>x. r = Inl x" by (cases r) auto
    then show ?thesis using Cons.IH [OF Cons.prems(1), of es'] rest \<open>d1 = d\<close> es d' False by auto
  next
    case True
    have d1: "d1 = d3" using moves(1) True script by simp
    have told: "r = Inr b \<Longrightarrow> b = a" for b using moves(2) [of b] script by simp
    have ok: "bank_ok d3" and step: "protocol_step k op a (challenge_of (bd_requests d k)) = Some (challenge_of (bd_requests d3 k))"
      using move by blast+
    note IH = Cons.IH [OF ok rest [unfolded d1, folded d']]
    note left = protocol_step_left [OF step]
    show ?thesis using IH left es d' True step told by (cases r) (auto simp: reserves_def split: if_splits)
  qed
qed

definition empty_bank :: bank_db where
  "empty_bank = \<lparr>bd_requests = (\<lambda>k. None), bd_counters = (\<lambda>c. None)\<rparr>"

text \<open>
  C27: Whatever calls are made, with answers lost or calls that never ran in between, the script
  moves every request by its protocol, from no challenge to where its hash stands: it is opened
  once by its activation, answers a match only for a match, counts each miss down and locks at the
  fifth. So the callers are told of at most one verification and at most four mismatches for each
  reservation the script made.
\<close>

theorem challenge_protocol:
  "case bank_session cs empty_bank of (es, d) \<Rightarrow>
     protocol_run k es No_Challenge = Some (challenge_of (bd_requests d k)) \<and>
     told (\<lambda>a. a = Verified) k es \<le> started k es \<and>
     told is_mismatch k es \<le> 4 * started k es"
proof -
  obtain es d where s: "bank_session cs empty_bank = (es, d)" by (cases "bank_session cs empty_bank")
  have "bank_ok empty_bank" by (simp add: bank_ok_def empty_bank_def)
  from session_bounds [OF this s, of k] s show ?thesis by (simp add: empty_bank_def)
qed

subsection \<open>The demo store and the script\<close>

definition abs_record :: "demo_record \<Rightarrow> request_hash" where
  "abs_record x = \<lparr>qh_phase = dm_phase x, qh_id = br_challenge (dm_input x), qh_fingerprint = br_fingerprint (dm_input x),
     qh_expires = dm_expiresAt x, qh_attempts = dm_attempts x, qh_response = dm_response x, qh_ttl = dm_deleteAt x\<rparr>"

definition abs_budget :: "demo_budget \<Rightarrow> counter_hash" where
  "abs_budget b = \<lparr>nh_count = db_count b, nh_current = db_current b, nh_ttl = db_expiresAt b\<rparr>"

lemma abs_simps [simp]:
  "qh_phase (abs_record x) = dm_phase x" "qh_id (abs_record x) = br_challenge (dm_input x)"
  "qh_fingerprint (abs_record x) = br_fingerprint (dm_input x)" "qh_expires (abs_record x) = dm_expiresAt x"
  "qh_attempts (abs_record x) = dm_attempts x" "qh_response (abs_record x) = dm_response x" "qh_ttl (abs_record x) = dm_deleteAt x"
  "nh_count (abs_budget b) = db_count b" "nh_current (abs_budget b) = db_current b" "nh_ttl (abs_budget b) = db_expiresAt b"
  by (simp_all add: abs_record_def abs_budget_def)

text \<open>What is live on Redis is what the demo store holds.\<close>

definition agreed :: "int \<Rightarrow> bank_db \<Rightarrow> demo_store \<Rightarrow> bool" where
  "agreed now d D \<longleftrightarrow> (\<forall>k. live_request now d k = map_option abs_record (ds_records D k)) \<and>
     (\<forall>c. live_counter now d c = map_option abs_budget (ds_budgets D c))"

lemma live_later:
  assumes "now \<le> t"
  shows "live_request t d k = (case live_request now d k of None \<Rightarrow> None | Some q \<Rightarrow> if t < qh_ttl q then Some q else None)"
    "live_counter t d c = (case live_counter now d c of None \<Rightarrow> None | Some n \<Rightarrow> if t < nh_ttl n then Some n else None)"
  using assms by (auto simp: live_request_def live_counter_def split: option.splits)

lemma agreed_later:
  assumes "agreed now d (demo_purge now D)" "now \<le> t"
  shows "agreed t d (demo_purge t D)"
  using assms by (auto simp: agreed_def live_later [OF assms(2)] demo_purge_def split: option.splits)

lemma agreed_counted:
  assumes "agreed now d D"
  shows "counted now d c = demo_counted D c" "current_of now d f = demo_current D f"
  using assms by (auto simp: agreed_def counted_def demo_counted_def current_of_def demo_current_def split: option.splits)

lemma agreed_put: "agreed now d D \<Longrightarrow> q = abs_record x \<Longrightarrow> now < dm_deleteAt x \<Longrightarrow> agreed now (put_request k q d) (demo_put k x D)"
  by (simp add: agreed_def live_request_def live_counter_def put_request_def demo_put_def)

lemma agreed_count: "agreed now d D \<Longrightarrow> agreed now (count_start now c d) (demo_count now c D)"
proof -
  assume a: "agreed now d D"
  have "live_counter now (count_start now c d) c' = map_option abs_budget (ds_budgets (demo_count now c D) c')" for c'
  proof (cases "c' = c")
    case True
    then show ?thesis using a
      by (cases "ds_budgets D c"; cases "bd_counters d c")
        (auto simp: agreed_def live_counter_def count_start_def demo_count_def abs_budget_def budget_ms_def split: if_splits dest!: spec [of _ c])
  next
    case False
    then show ?thesis using a by (simp add: agreed_def live_counter_def count_start_def demo_count_def)
  qed
  then show ?thesis using a by (simp add: agreed_def live_request_def count_start_def demo_count_def)
qed

lemma agreed_counts: "agreed now d D \<Longrightarrow> agreed now (fold (count_start now) cs d) (fold (demo_count now) cs D)"
  by (induction cs arbitrary: d D) (simp_all add: agreed_count)

lemma agreed_set_current: "agreed now d D \<Longrightarrow> agreed now (set_current f i d) (demo_set_current f i D)"
proof -
  assume a: "agreed now d D"
  have "live_counter now (set_current f i d) c = map_option abs_budget (ds_budgets (demo_set_current f i D) c)" for c
    using a by (cases "bd_counters d c"; cases "ds_budgets D c")
      (auto simp: agreed_def live_counter_def set_current_def demo_set_current_def abs_budget_def split: if_splits dest!: spec [of _ c])
  then show ?thesis using a by (simp add: agreed_def live_request_def set_current_def demo_set_current_def)
qed

lemma agreed_purged:
  assumes "agreed now d D"
  shows "demo_purge now D = D"
proof -
  have "now < dm_deleteAt x" if "ds_records D k = Some x" for k x
    using assms that by (auto simp: agreed_def live_request_def split: option.splits if_splits dest!: spec [of _ k])
  moreover have "now < db_expiresAt b" if "ds_budgets D c = Some b" for c b
  proof -
    have "live_counter now d c = Some (abs_budget b)" using assms that by (simp add: agreed_def)
    then show ?thesis by (auto simp: live_counter_def split: option.splits if_splits)
  qed
  ultimately show ?thesis
    by (intro demo_store.equality) (auto simp: demo_purge_def fun_eq_iff split: option.splits, (fastforce)+)
qed

lemma reserve_agrees:
  assumes "agreed now d (demo_purge now D)" "script_reserve now r d = (a, d')" "demo_reserve now r D = (b, D')"
  shows "a = b \<and> agreed now d' (demo_purge now D')"
proof -
  let ?D = "demo_purge now D"
  have live: "live_request now d (br_request r) = map_option abs_record (ds_records ?D (br_request r))"
    using assms(1) by (simp add: agreed_def)
  note eqs = agreed_counted [OF assms(1)]
  show ?thesis
  proof (cases "ds_records ?D (br_request r)")
    case (Some x)
    then have "a = b \<and> d' = d \<and> D' = ?D" using assms live eqs
      by (auto simp: script_reserve_def demo_reserve_def split: if_splits)
    then show ?thesis using assms(1) agreed_purged [OF assms(1)] by simp
  next
    case None
    have "a = b \<and> agreed now d' D'" using assms live eqs None
      by (auto simp: script_reserve_def demo_reserve_def abs_record_def budget_ms_def Let_def split: if_splits
        intro!: agreed_put agreed_set_current agreed_counts)
    then show ?thesis using agreed_purged by auto
  qed
qed

text \<open>
  Only a reservation purges the demo store. The other operations read what Redis would read while
  the request is retained and the counting window of its flow has not closed.
\<close>

fun window_open :: "int \<Rightarrow> string \<Rightarrow> string \<Rightarrow> demo_store \<Rightarrow> bool" where
  "window_open now k flow D = ((case ds_records D k of None \<Rightarrow> True | Some x \<Rightarrow> now < dm_deleteAt x) \<and>
     (case ds_budgets D (Flow flow) of None \<Rightarrow> True | Some b \<Rightarrow> now < db_expiresAt b))"

fun in_window :: "int \<Rightarrow> bank_op \<Rightarrow> demo_store \<Rightarrow> bool" where
  "in_window now (Op_Reserve r) D = True"
| "in_window now (Op_Activate k flow i response) D = window_open now k flow D"
| "in_window now (Op_Verify k flow i matches) D = window_open now k flow D"

lemma window_purge:
  assumes "window_open now k flow D"
  shows "ds_records (demo_purge now D) k = ds_records D k" "demo_current (demo_purge now D) flow = demo_current D flow"
  using assms by (auto simp: demo_purge_def demo_current_def split: option.splits)

lemma purge_put: "now < dm_deleteAt x \<Longrightarrow> demo_purge now (demo_put k x D) = demo_put k x (demo_purge now D)"
  by (rule demo_store.equality) (auto simp: demo_purge_def demo_put_def fun_eq_iff)

lemma current_agrees:
  assumes "agreed now d (demo_purge now D)" "window_open now k flow D"
  shows "script_current now k flow i d = (case demo_the now k flow i D of Inl e \<Rightarrow> Inl e | Inr x \<Rightarrow> Inr (abs_record x))"
proof -
  have live: "live_request now d k = map_option abs_record (ds_records D k)"
    using assms window_purge(1) [OF assms(2)] by (simp add: agreed_def)
  show ?thesis using live agreed_counted(2) [OF assms(1), of flow] window_purge(2) [OF assms(2)]
    by (auto simp: script_current_def demo_the_def split: option.splits)
qed

lemma demo_the_Inr: "demo_the now k flow i D = Inr x \<Longrightarrow> ds_records D k = Some x"
  by (auto simp: demo_the_def split: option.splits if_splits)

lemma agreed_put_later:
  assumes "agreed now d (demo_purge now D)" "q = abs_record x" "now < dm_deleteAt x"
  shows "agreed now (put_request k q d) (demo_purge now (demo_put k x D))"
  using agreed_put [OF assms] purge_put [OF assms(3)] by simp

lemma activate_agrees:
  assumes "agreed now d (demo_purge now D)" "window_open now k flow D"
    "script_activate now k flow i response d = (a, d')" "demo_activate now k flow i response D = (b, D')"
  shows "a = b \<and> agreed now d' (demo_purge now D')"
proof (cases "demo_the now k flow i D")
  case (Inl e)
  then show ?thesis using assms current_agrees [OF assms(1,2), of i]
    by (auto simp: script_activate_def demo_activate_def)
next
  case (Inr x)
  have "now < dm_deleteAt x" using assms(2) demo_the_Inr [OF Inr] by simp
  then show ?thesis using assms current_agrees [OF assms(1,2), of i] Inr
    by (auto simp: script_activate_def demo_activate_def abs_record_def split: if_splits intro!: agreed_put_later)
qed

lemma verify_agrees:
  assumes "agreed now d (demo_purge now D)" "window_open now k flow D"
    "script_verify now k flow i matches d = (a, d')" "demo_verify now k flow i matches D = (b, D')"
  shows "a = b \<and> agreed now d' (demo_purge now D')"
proof (cases "demo_the now k flow i D")
  case (Inl e)
  then show ?thesis using assms current_agrees [OF assms(1,2), of i]
    by (auto simp: script_verify_def demo_verify_def)
next
  case (Inr x)
  have "now < dm_deleteAt x" using assms(2) demo_the_Inr [OF Inr] by simp
  then show ?thesis using assms current_agrees [OF assms(1,2), of i] Inr
    by (auto simp: script_verify_def demo_verify_def abs_record_def Let_def split: if_splits intro!: agreed_put_later)
qed

lemma run_agrees:
  assumes "agreed now d (demo_purge now D)" "in_window now op D" "bank_script now op d = (a, d')" "demo_run now op D = (b, D')"
  shows "a = b \<and> agreed now d' (demo_purge now D')"
proof (cases op)
  case (Op_Reserve r)
  with assms show ?thesis by (intro reserve_agrees) simp_all
next
  case (Op_Activate k flow i response)
  with assms show ?thesis by (intro activate_agrees) simp_all
next
  case (Op_Verify k flow i matches)
  with assms show ?thesis by (intro verify_agrees) simp_all
qed

fun script_replies :: "(int \<times> bank_op) list \<Rightarrow> bank_db \<Rightarrow> bank_reply list" where
  "script_replies [] d = []"
| "script_replies ((now, op) # ops) d = (case bank_script now op d of (a, d') \<Rightarrow> a # script_replies ops d')"

fun demo_replies :: "(int \<times> bank_op) list \<Rightarrow> demo_store \<Rightarrow> bank_reply list" where
  "demo_replies [] D = []"
| "demo_replies ((now, op) # ops) D = (case demo_run now op D of (a, D') \<Rightarrow> a # demo_replies ops D')"

fun all_in_window :: "(int \<times> bank_op) list \<Rightarrow> demo_store \<Rightarrow> bool" where
  "all_in_window [] D = True"
| "all_in_window ((now, op) # ops) D = (in_window now op D \<and> all_in_window ops (snd (demo_run now op D)))"

lemma replies_agree:
  assumes "agreed t d (demo_purge t D)" "sorted (t # map fst ops)" "all_in_window ops D"
  shows "script_replies ops d = demo_replies ops D"
  using assms
proof (induction ops arbitrary: t d D)
  case (Cons x ops)
  obtain now op where x: "x = (now, op)" by (cases x)
  obtain a d' where s: "bank_script now op d = (a, d')" by (cases "bank_script now op d")
  obtain b D' where m: "demo_run now op D = (b, D')" by (cases "demo_run now op D")
  have "t \<le> now" using Cons.prems(2) x by simp
  from agreed_later [OF Cons.prems(1) this] have here: "agreed now d (demo_purge now D)" .
  have "in_window now op D" using Cons.prems(3) x by simp
  from run_agrees [OF here this s m] have step: "a = b" "agreed now d' (demo_purge now D')" by auto
  have "script_replies ops d' = demo_replies ops D'"
    using Cons.IH [OF step(2)] Cons.prems(2,3) x m by simp
  then show ?case using step x s m by simp
qed simp

definition empty_demo :: demo_store where
  "empty_demo = \<lparr>ds_records = (\<lambda>k. None), ds_budgets = (\<lambda>c. None)\<rparr>"

text \<open>
  C28: The demo store behaves as the script of Redis does: over any sequence of operations at
  moments that do not go back, both give the same answers, as long as every activation and
  verification comes while its request is retained and the counting window of its flow is open.
\<close>

theorem demo_store_faithful:
  assumes "sorted (map fst ops)" "all_in_window ops empty_demo"
  shows "script_replies ops empty_bank = demo_replies ops empty_demo"
proof (cases ops)
  case (Cons x xs)
  have "agreed (fst x) empty_bank (demo_purge (fst x) empty_demo)"
    by (simp add: agreed_def empty_bank_def empty_demo_def demo_purge_def live_request_def live_counter_def)
  moreover have "sorted (fst x # map fst ops)" using assms(1) Cons by auto
  ultimately show ?thesis using assms(2) by (rule replies_agree)
qed simp

definition run_reservation :: "string \<Rightarrow> string \<Rightarrow> bank_reservation" where
  "run_reservation k i = \<lparr>br_request = k, br_flow = ''f'', br_account = ''a'', br_wallet = ''w'', br_fingerprint = ''p'', br_challenge = i\<rparr>"

definition run_ops :: "(int \<times> bank_op) list" where
  "run_ops = [(1, Op_Reserve (run_reservation ''k'' ''c'')), (2, Op_Activate ''k'' ''f'' ''c'' ''r''),
     (3, Op_Reserve (run_reservation ''k'' ''c'')), (4, Op_Verify ''k'' ''f'' ''c'' False), (5, Op_Verify ''k'' ''f'' ''c'' True),
     (6, Op_Verify ''k'' ''f'' ''c'' True)]"

lemmas run_simps = run_ops_def run_reservation_def empty_demo_def empty_bank_def demo_reserve_def demo_purge_def demo_counted_def
  counter_limits_def demo_put_def demo_set_current_def demo_count_def demo_activate_def demo_verify_def demo_the_def demo_current_def
  flow_starts_def account_starts_def wallet_starts_def global_starts_def lifetime_ms_def budget_ms_def attempts_limit_def

theorem demo_store_faithful_witness:
  "script_replies run_ops empty_bank =
     [Reserved 600001, Activated, Cached ''r'', Mismatch 4, Verified, Refused ''CHALLENGE_UNAVAILABLE'']"
proof -
  have "sorted (map fst run_ops)" by (simp add: run_ops_def)
  moreover have "all_in_window run_ops empty_demo" by (simp add: run_simps)
  ultimately have "script_replies run_ops empty_bank = demo_replies run_ops empty_demo" by (rule demo_store_faithful)
  also have "\<dots> = [Reserved 600001, Activated, Cached ''r'', Mismatch 4, Verified, Refused ''CHALLENGE_UNAVAILABLE'']"
    by (simp add: run_simps)
  finally show ?thesis .
qed

text \<open>
  Outside the window they part: on Redis the current challenge of a flow lives in the hash of its
  counter, so a challenge started late in the window is lost when the window closes, before its
  ten minutes are over.
\<close>

definition late_ops :: "(int \<times> bank_op) list" where
  "late_ops = [(0, Op_Reserve (run_reservation ''k'' ''c'')), (86399000, Op_Reserve (run_reservation ''l'' ''e'')),
     (86400000, Op_Activate ''l'' ''f'' ''e'' ''r'')]"

lemma window_closes_early:
  "script_replies late_ops empty_bank = [Reserved 600000, Reserved 86999000, Refused ''CHALLENGE_UNAVAILABLE'']"
  "demo_replies late_ops empty_demo = [Reserved 600000, Reserved 86999000, Activated]"
  by (simp_all add: late_ops_def run_simps script_reserve_def script_activate_def script_current_def live_request_def
      live_counter_def counted_def current_of_def count_start_def set_current_def put_request_def)

end
