(* ===== verification/Wallet_Session.thy ===== *)
theory Wallet_Session
  imports Complex_Main Prelude
begin

text \<open>
  The account and session fence of the browser, \<open>pipeline/wallet-session.ts\<close>, as a machine of
  events: the calls of the page, the notifications of the wallet, the answers and timers of the
  requests that wait. An event carries the reading of both clocks and the wallet that the page
  now injects; one synchronous step sees one reading. A wallet is its identity. Callbacks that a
  wallet was asked to drop may still arrive, with the revision and wallet they were made for.
\<close>

subsection \<open>Data\<close>

text \<open>A number of a clock; \<open>None\<close> is one that is not finite, and compares with nothing.\<close>

type_synonym js_real = "rat option"

definition js_lt :: "js_real \<Rightarrow> js_real \<Rightarrow> bool" where
  "js_lt a b = (case a of None \<Rightarrow> False | Some x \<Rightarrow> (case b of None \<Rightarrow> False | Some y \<Rightarrow> x < y))"

definition js_le :: "js_real \<Rightarrow> js_real \<Rightarrow> bool" where
  "js_le a b = (case a of None \<Rightarrow> False | Some x \<Rightarrow> (case b of None \<Rightarrow> False | Some y \<Rightarrow> x \<le> y))"

definition js_plus :: "js_real \<Rightarrow> rat \<Rightarrow> js_real" where
  "js_plus a r = map_option (\<lambda>x. x + r) a"

definition js_minus :: "js_real \<Rightarrow> js_real \<Rightarrow> js_real" where
  "js_minus a b = (case a of None \<Rightarrow> None | Some x \<Rightarrow> map_option (\<lambda>y. x - y) b)"

definition safe_real :: "js_real \<Rightarrow> bool" where
  "safe_real a = (case a of None \<Rightarrow> False | Some x \<Rightarrow> of_int \<lfloor>x\<rfloor> = x \<and> is_safe \<lfloor>x\<rfloor>)"

record clock =
  ck_wall :: js_real
  ck_monotonic :: js_real

datatype accounts_value = Accounts_List "string option list" | Not_A_List

text \<open>\<open>/^0x[0-9a-fA-F]{40}$/\<close>\<close>

definition hex_address :: "string \<Rightarrow> bool" where
  "hex_address s \<longleftrightarrow> length s = 42 \<and> take 2 s = ''0x'' \<and> list_all hex_digit (drop 2 s)"

fun first_account :: "accounts_value \<Rightarrow> string option" where
  "first_account (Accounts_List (Some s # xs)) = (if hex_address s then Some (lower s) else None)"
| "first_account _ = None"

datatype wallet_method = Eth_Accounts | Eth_Request_Accounts | Personal_Sign

datatype wallet_observed = Undefined | Observed "string option"

record wallet_deadline =
  wd_wall :: js_real
  wd_monotonic :: js_real
  wd_startWall :: js_real
  wd_startMonotonic :: js_real

text \<open>A promise that waits: the values its closures captured, and whether the wallet was asked.\<close>

record wallet_wait =
  ww_id :: nat
  ww_revision :: nat
  ww_provider :: nat
  ww_method :: wallet_method
  ww_started :: clock
  ww_timeout :: int
  ww_asked :: bool

text \<open>A promise that settled, with the revision of the session and the injected wallet at that moment.\<close>

record wallet_settled =
  wt_wait :: wallet_wait
  wt_value :: "accounts_value option"
  wt_revision :: nat
  wt_now :: clock
  wt_current :: "nat option"

record wallet_session =
  ws_revision :: nat
  ws_deadline :: "wallet_deadline option"
  ws_pending :: "wallet_wait list"
  ws_provider :: "nat option"
  ws_address :: "string option"
  ws_observed :: wallet_observed
  ws_notices :: "string list"
  ws_settled :: "wallet_settled list"
  ws_next :: nat
  ws_accountMs :: js_num
  ws_promptMs :: js_num

record wallet_env =
  we_now :: clock
  we_current :: "nat option"

definition new_session :: "js_num \<Rightarrow> js_num \<Rightarrow> wallet_session" where
  "new_session a p = \<lparr>ws_revision = 0, ws_deadline = None, ws_pending = [], ws_provider = None, ws_address = None,
     ws_observed = Undefined, ws_notices = [], ws_settled = [], ws_next = 0, ws_accountMs = a, ws_promptMs = p\<rparr>"

subsection \<open>Invalidation\<close>

definition finish_wait :: "wallet_env \<Rightarrow> accounts_value option \<Rightarrow> nat \<Rightarrow> wallet_session \<Rightarrow> wallet_session" where
  "finish_wait E v i s = (case find (\<lambda>w. ww_id w = i) (ws_pending s) of None \<Rightarrow> s
     | Some w \<Rightarrow> s\<lparr>ws_pending := filter (\<lambda>x. ww_id x \<noteq> i) (ws_pending s),
         ws_settled := ws_settled s @ [\<lparr>wt_wait = w, wt_value = v, wt_revision = ws_revision s, wt_now = we_now E, wt_current = we_current E\<rparr>]\<rparr>)"

definition dispose :: "wallet_env \<Rightarrow> wallet_session \<Rightarrow> wallet_session" where
  "dispose E s = (let s1 = s\<lparr>ws_revision := ws_revision s + 1, ws_deadline := None\<rparr> in
     (fold (\<lambda>w. finish_wait E None (ww_id w)) (ws_pending s) s1)\<lparr>ws_provider := None, ws_address := None, ws_observed := Undefined\<rparr>)"

definition invalidate :: "wallet_env \<Rightarrow> string \<Rightarrow> wallet_session \<Rightarrow> wallet_session" where
  "invalidate E reason s = (let s1 = dispose E s in s1\<lparr>ws_notices := ws_notices s1 @ [reason]\<rparr>)"

definition expired :: "clock \<Rightarrow> wallet_deadline \<Rightarrow> bool" where
  "expired now d \<longleftrightarrow> \<not> safe_real (ck_wall now) \<or> ck_monotonic now = None \<or> js_lt (ck_wall now) (wd_startWall d) \<or>
     js_lt (ck_monotonic now) (wd_startMonotonic d) \<or> js_le (wd_wall d) (ck_wall now) \<or> js_le (wd_monotonic d) (ck_monotonic now)"

definition expireIfNeeded :: "wallet_env \<Rightarrow> wallet_session \<Rightarrow> bool \<times> wallet_session" where
  "expireIfNeeded E s = (case ws_deadline s of None \<Rightarrow> (False, s)
     | Some d \<Rightarrow> if expired (we_now E) d then (True, invalidate E ''session expired'' s) else (False, s))"

type_synonym 'a wallet_res = "(wallet_session, string, 'a) st_res"

definition assertCurrent :: "wallet_env \<Rightarrow> nat \<Rightarrow> wallet_session \<Rightarrow> unit wallet_res" where
  "assertCurrent E r s = (if r \<noteq> ws_revision s then (Inl ''WalletSessionChanged'', s)
     else case expireIfNeeded E s of (x, s') \<Rightarrow> (if x then Inl ''WalletSessionChanged'' else Inr (), s'))"

definition changed :: "wallet_env \<Rightarrow> string \<Rightarrow> wallet_session \<Rightarrow> 'a wallet_res" where
  "changed E reason s = (Inl ''WalletSessionChanged'', invalidate E reason s)"

subsection \<open>Authorization and binding\<close>

definition clearAuthorization :: "wallet_session \<Rightarrow> wallet_session" where
  "clearAuthorization s = s\<lparr>ws_deadline := None\<rparr>"

definition max_ttl :: int where "max_ttl = 30 * 60000"

text \<open>The sums of two finite clock values are finite here, where the code tests them for overflow.\<close>

definition timing_ok :: "js_num \<Rightarrow> js_num \<Rightarrow> clock \<Rightarrow> bool" where
  "timing_ok serverTime expiresAt started \<longleftrightarrow> (let remaining = js_val expiresAt - js_val serverTime in
     js_safe serverTime \<and> 0 < js_val serverTime \<and> js_safe expiresAt \<and> js_val expiresAt \<le> 8640000000000000 \<and>
     0 < remaining \<and> remaining \<le> max_ttl \<and> safe_real (ck_wall started) \<and> js_lt (Some 0) (ck_wall started) \<and>
     ck_monotonic started \<noteq> None \<and> js_le (Some 0) (ck_monotonic started) \<and> safe_real (js_plus (ck_wall started) (of_int remaining)))"

definition authorize :: "wallet_env \<Rightarrow> nat \<Rightarrow> js_num \<Rightarrow> js_num \<Rightarrow> clock \<Rightarrow> wallet_session \<Rightarrow> unit wallet_res" where
  "authorize E r serverTime expiresAt started s = bindS (assertCurrent E r s) (\<lambda>_ s.
     if \<not> timing_ok serverTime expiresAt started then changed E ''invalid session expiry'' s
     else (let remaining = of_int (js_val expiresAt - js_val serverTime) in
       assertCurrent E r (s\<lparr>ws_deadline := Some \<lparr>wd_wall = js_plus (ck_wall started) remaining,
         wd_monotonic = js_plus (ck_monotonic started) remaining, wd_startWall = ck_wall started,
         wd_startMonotonic = ck_monotonic started\<rparr>\<rparr>)))"

text \<open>The wallet offers \<open>on\<close> and \<open>removeListener\<close>, and its subscriptions do not throw.\<close>

record wallet_offer =
  wo_id :: nat
  wo_events :: bool
  wo_subscribes :: bool

definition attach :: "wallet_env \<Rightarrow> wallet_offer \<Rightarrow> wallet_session \<Rightarrow> unit wallet_res" where
  "attach E p s = (let s1 = dispose E s in
     if \<not> wo_events p then (Inl ''no account-change notifications'', s1)
     else let s2 = s1\<lparr>ws_provider := Some (wo_id p), ws_address := None, ws_observed := Undefined\<rparr> in
       if wo_subscribes p then (Inr (), s2) else (Inl ''subscription failed'', dispose E s2))"

definition guarded_invalidate :: "wallet_env \<Rightarrow> nat \<Rightarrow> nat \<Rightarrow> string \<Rightarrow> wallet_session \<Rightarrow> wallet_session" where
  "guarded_invalidate E r p reason s = (if ws_revision s = r \<and> ws_provider s = Some p then invalidate E reason s else s)"

definition on_accounts :: "wallet_env \<Rightarrow> nat \<Rightarrow> nat \<Rightarrow> accounts_value \<Rightarrow> wallet_session \<Rightarrow> wallet_session" where
  "on_accounts E r p v s = (if ws_revision s \<noteq> r \<or> ws_provider s \<noteq> Some p then s
     else let s1 = s\<lparr>ws_observed := Observed (first_account v)\<rparr> in
       if ws_address s1 \<noteq> None \<and> ws_address s1 \<noteq> first_account v
       then guarded_invalidate E r p ''account changed'' s1 else s1)"

definition bind_account :: "wallet_env \<Rightarrow> nat \<Rightarrow> accounts_value \<Rightarrow> wallet_session \<Rightarrow> string wallet_res" where
  "bind_account E r v s = bindS (assertCurrent E r s) (\<lambda>_ s. case first_account v of
     None \<Rightarrow> changed E ''account changed while connecting'' s
   | Some a \<Rightarrow> if (case ws_observed s of Observed (Some b) \<Rightarrow> b \<noteq> a | _ \<Rightarrow> False)
       then changed E ''account changed while connecting'' s
       else (Inr a, s\<lparr>ws_address := Some a, ws_observed := Observed (Some a)\<rparr>))"

subsection \<open>Requests\<close>

definition timeout_of :: "wallet_method \<Rightarrow> wallet_session \<Rightarrow> js_num" where
  "timeout_of m s = (if m = Eth_Accounts then ws_accountMs s else ws_promptMs s)"

definition request :: "wallet_env \<Rightarrow> nat \<Rightarrow> wallet_method \<Rightarrow> wallet_session \<Rightarrow> nat wallet_res" where
  "request E r m s = bindS (assertCurrent E r s) (\<lambda>_ s. case ws_provider s of
     None \<Rightarrow> changed E ''provider changed'' s
   | Some p \<Rightarrow> if we_current E \<noteq> Some p then changed E ''provider changed'' s
       else let t = timeout_of m s in
         if \<not> js_safe t \<or> js_val t < 1 \<or> 120000 < js_val t then (Inl ''Invalid wallet request limits.'', s)
         else (Inr (ws_next s), s\<lparr>ws_next := ws_next s + 1, ws_pending := ws_pending s @
           [\<lparr>ww_id = ws_next s, ww_revision = r, ww_provider = p, ww_method = m, ww_started = we_now E,
             ww_timeout = js_val t, ww_asked = False\<rparr>]\<rparr>))"

definition late :: "clock \<Rightarrow> wallet_wait \<Rightarrow> bool" where
  "late now w \<longleftrightarrow> ck_wall now = None \<or> ck_monotonic now = None \<or>
     js_lt (ck_wall now) (ck_wall (ww_started w)) \<or> js_lt (ck_monotonic now) (ck_monotonic (ww_started w)) \<or>
     js_le (Some (of_int (ww_timeout w))) (js_minus (ck_wall now) (ck_wall (ww_started w))) \<or>
     js_le (Some (of_int (ww_timeout w))) (js_minus (ck_monotonic now) (ck_monotonic (ww_started w)))"

text \<open>The handler of a rejection, of the wallet's or of the step before it.\<close>

definition on_rejected :: "wallet_env \<Rightarrow> wallet_wait \<Rightarrow> wallet_session \<Rightarrow> wallet_session" where
  "on_rejected E w s = finish_wait E None (ww_id w)
     (if ww_revision w = ws_revision s then invalidate E ''request declined'' s else s)"

definition waiting :: "nat \<Rightarrow> wallet_session \<Rightarrow> wallet_wait option" where
  "waiting i s = find (\<lambda>w. ww_id w = i) (ws_pending s)"

definition ask :: "wallet_wait \<Rightarrow> wallet_session \<Rightarrow> wallet_session" where
  "ask w s = s\<lparr>ws_pending := map (\<lambda>x. if ww_id x = ww_id w then x\<lparr>ww_asked := True\<rparr> else x) (ws_pending s)\<rparr>"

text \<open>
  The first step of the promise runs in a microtask. Once the promise has settled the revision has
  moved on and the step only throws.
\<close>

definition dispatch :: "wallet_env \<Rightarrow> wallet_wait \<Rightarrow> wallet_session \<Rightarrow> wallet_session" where
  "dispatch E w s = (case assertCurrent E (ww_revision w) s of
     (Inl e, s1) \<Rightarrow> if waiting (ww_id w) s1 = None then s1 else on_rejected E w s1
   | (Inr _, s1) \<Rightarrow>
       if late (we_now E) w then invalidate E ''timeout'' s1
       else if we_current E \<noteq> Some (ww_provider w) then (if waiting (ww_id w) s1 = None then s1 else on_rejected E w s1)
       else ask w s1)"

definition on_answer :: "wallet_env \<Rightarrow> accounts_value \<Rightarrow> wallet_wait \<Rightarrow> wallet_session \<Rightarrow> wallet_session" where
  "on_answer E v w s =
     (if late (we_now E) w then invalidate E ''timeout'' s
      else case assertCurrent E (ww_revision w) s of
        (Inl e, s1) \<Rightarrow> finish_wait E None (ww_id w)
          (if ww_revision w = ws_revision s1 then invalidate E ''response could not be confirmed'' s1 else s1)
      | (Inr _, s1) \<Rightarrow>
          if we_current E \<noteq> Some (ww_provider w) then invalidate E ''provider changed'' s1
          else finish_wait E (Some v) (ww_id w) s1)"

subsection \<open>The recheck of the account\<close>

datatype check_start = Checked | Check_Waits nat

definition check_start :: "wallet_env \<Rightarrow> nat \<Rightarrow> wallet_session \<Rightarrow> check_start wallet_res" where
  "check_start E r s = bindS (assertCurrent E r s) (\<lambda>_ s.
     if ws_provider s = None \<or> we_current E \<noteq> ws_provider s then changed E ''provider changed'' s
     else if ws_address s = None then (Inr Checked, s)
     else case request E r Eth_Accounts s of
       (Inr i, s1) \<Rightarrow> (Inr (Check_Waits i), s1)
     | (Inl e, s1) \<Rightarrow> bindS (assertCurrent E r s1) (\<lambda>_ s. changed E ''account access unavailable'' s))"

definition check_resume :: "wallet_env \<Rightarrow> nat \<Rightarrow> accounts_value option \<Rightarrow> wallet_session \<Rightarrow> unit wallet_res" where
  "check_resume E r v s = bindS (assertCurrent E r s) (\<lambda>_ s. case v of
     None \<Rightarrow> changed E ''account access unavailable'' s
   | Some a \<Rightarrow> if we_current E \<noteq> ws_provider s \<or> first_account a \<noteq> ws_address s then changed E ''account changed'' s
       else (Inr (), s))"

subsection \<open>Events\<close>

datatype wallet_event =
    Page_Attach wallet_offer
  | Page_Bind nat accounts_value
  | Page_Authorize nat js_num js_num clock
  | Page_Clear
  | Page_Expire
  | Page_Request nat wallet_method
  | Page_Check nat
  | Page_Check_Resume nat nat
  | Page_Dispose
  | Page_Invalidate string
  | Wallet_Accounts nat nat accounts_value
  | Wallet_Chain nat nat
  | Wallet_Disconnect nat nat
  | Wallet_Dispatch nat
  | Wallet_Answer nat "accounts_value option"
  | Wallet_Timer nat

definition on_wait :: "nat \<Rightarrow> (wallet_wait \<Rightarrow> wallet_session \<Rightarrow> wallet_session) \<Rightarrow> wallet_session \<Rightarrow> wallet_session" where
  "on_wait i f s = (case waiting i s of None \<Rightarrow> s | Some w \<Rightarrow> f w s)"

definition settled_as :: "nat \<Rightarrow> wallet_session \<Rightarrow> accounts_value option option" where
  "settled_as i s = map_option wt_value (find (\<lambda>t. ww_id (wt_wait t) = i) (ws_settled s))"

fun wallet_step :: "wallet_env \<Rightarrow> wallet_event \<Rightarrow> wallet_session \<Rightarrow> wallet_session" where
  "wallet_step E (Page_Attach p) s = snd (attach E p s)"
| "wallet_step E (Page_Bind r v) s = snd (bind_account E r v s)"
| "wallet_step E (Page_Authorize r a b c) s = snd (authorize E r a b c s)"
| "wallet_step E Page_Clear s = clearAuthorization s"
| "wallet_step E Page_Expire s = snd (expireIfNeeded E s)"
| "wallet_step E (Page_Request r m) s = snd (request E r m s)"
| "wallet_step E (Page_Check r) s = snd (check_start E r s)"
| "wallet_step E (Page_Check_Resume r i) s = (case settled_as i s of None \<Rightarrow> s | Some v \<Rightarrow> snd (check_resume E r v s))"
| "wallet_step E Page_Dispose s = dispose E s"
| "wallet_step E (Page_Invalidate reason) s = invalidate E reason s"
| "wallet_step E (Wallet_Accounts r p v) s = on_accounts E r p v s"
| "wallet_step E (Wallet_Chain r p) s = guarded_invalidate E r p ''network changed'' s"
| "wallet_step E (Wallet_Disconnect r p) s = guarded_invalidate E r p ''disconnected'' s"
| "wallet_step E (Wallet_Dispatch i) s = on_wait i (\<lambda>w s. if ww_asked w then s else dispatch E w s) s"
| "wallet_step E (Wallet_Answer i v) s = on_wait i (\<lambda>w s. if \<not> ww_asked w then s
     else case v of None \<Rightarrow> on_rejected E w s | Some a \<Rightarrow> on_answer E a w s) s"
| "wallet_step E (Wallet_Timer i) s = on_wait i (\<lambda>w s. invalidate E ''timeout'' s) s"

definition wallet_run :: "(wallet_env \<times> wallet_event) list \<Rightarrow> wallet_session \<Rightarrow> wallet_session" where
  "wallet_run es s = fold (\<lambda>(E, e). wallet_step E e) es s"

end
