(* ===== verification/Wallet_Props.thy ===== *)
theory Wallet_Props
  imports Wallet_Session
begin

text \<open>
  What the session fence guarantees: the invariant of its state over any events, the answers it
  lets through, and that a change of the wallet ends a session for good.
\<close>

subsection \<open>The invariant\<close>

definition answer_fenced :: "wallet_settled \<Rightarrow> bool" where
  "answer_fenced t \<longleftrightarrow> wt_value t = None \<or>
     (wt_revision t = ww_revision (wt_wait t) \<and> wt_current t = Some (ww_provider (wt_wait t)) \<and>
      ww_asked (wt_wait t) \<and> \<not> late (wt_now t) (wt_wait t))"

definition wait_current :: "wallet_session \<Rightarrow> wallet_wait \<Rightarrow> bool" where
  "wait_current s w \<longleftrightarrow> ww_revision w = ws_revision s \<and> ws_provider s = Some (ww_provider w) \<and>
     1 \<le> ww_timeout w \<and> ww_timeout w \<le> 120000"

definition request_ids :: "wallet_session \<Rightarrow> nat list" where
  "request_ids s = map (\<lambda>t. ww_id (wt_wait t)) (ws_settled s) @ map ww_id (ws_pending s)"

definition account_observed :: "wallet_session \<Rightarrow> bool" where
  "account_observed s \<longleftrightarrow> ws_address s = None \<or> ws_observed s = Observed (ws_address s)"

definition deadline_bounded :: "wallet_session \<Rightarrow> bool" where
  "deadline_bounded s \<longleftrightarrow> (case ws_deadline s of None \<Rightarrow> True
     | Some d \<Rightarrow> js_le (js_minus (wd_wall d) (wd_startWall d)) (Some (of_int max_ttl)) \<and>
         js_minus (wd_monotonic d) (wd_startMonotonic d) = js_minus (wd_wall d) (wd_startWall d))"

definition session_ok :: "wallet_session \<Rightarrow> bool" where
  "session_ok s \<longleftrightarrow> list_all answer_fenced (ws_settled s) \<and> list_all (wait_current s) (ws_pending s) \<and>
     distinct (request_ids s) \<and> list_all (\<lambda>i. i < ws_next s) (request_ids s) \<and> account_observed s \<and> deadline_bounded s"

definition dropped :: "wallet_env \<Rightarrow> nat \<Rightarrow> wallet_wait \<Rightarrow> wallet_settled" where
  "dropped E r w = \<lparr>wt_wait = w, wt_value = None, wt_revision = r, wt_now = we_now E, wt_current = we_current E\<rparr>"

lemma finish_all:
  "distinct (map ww_id ws) \<Longrightarrow> fold (\<lambda>w. finish_wait E None (ww_id w)) ws (s\<lparr>ws_pending := ws\<rparr>) =
     s\<lparr>ws_pending := [], ws_settled := ws_settled s @ map (dropped E (ws_revision s)) ws\<rparr>"
proof (induction ws arbitrary: s)
  case (Cons w ws)
  have "filter (\<lambda>x. ww_id x \<noteq> ww_id w) ws = ws" using Cons.prems by (auto simp: filter_id_conv intro: rev_image_eqI)
  then have "finish_wait E None (ww_id w) (s\<lparr>ws_pending := w # ws\<rparr>) =
      (s\<lparr>ws_settled := ws_settled s @ [dropped E (ws_revision s) w]\<rparr>)\<lparr>ws_pending := ws\<rparr>"
    by (simp add: finish_wait_def dropped_def)
  then show ?case using Cons.IH [of "s\<lparr>ws_settled := ws_settled s @ [dropped E (ws_revision s) w]\<rparr>"] Cons.prems by simp
qed simp

lemma dispose_eq:
  assumes "distinct (map ww_id (ws_pending s))"
  shows "dispose E s = s\<lparr>ws_revision := ws_revision s + 1, ws_deadline := None, ws_pending := [], ws_provider := None,
    ws_address := None, ws_observed := Undefined, ws_settled := ws_settled s @ map (dropped E (ws_revision s + 1)) (ws_pending s)\<rparr>"
  using finish_all [OF assms, of E "s\<lparr>ws_revision := ws_revision s + 1, ws_deadline := None\<rparr>"]
  by (simp add: dispose_def Let_def)

lemma session_ok_pending: "session_ok s \<Longrightarrow> distinct (map ww_id (ws_pending s))"
  by (simp add: session_ok_def request_ids_def)

lemma dropped_simps [simp]: "wt_wait (dropped E r w) = w" "wt_value (dropped E r w) = None" "answer_fenced (dropped E r w)"
  by (simp_all add: dropped_def answer_fenced_def)

lemma list_all_dropped [simp]: "list_all answer_fenced (map (dropped E r) ws)"
  by (simp add: list_all_iff)

lemma dispose_ok: "session_ok s \<Longrightarrow> session_ok (dispose E s)"
  by (simp add: dispose_eq [OF session_ok_pending])
    (simp add: session_ok_def request_ids_def account_observed_def deadline_bounded_def o_def)

lemma dispose_fields:
  assumes "session_ok s"
  shows "ws_revision (dispose E s) = ws_revision s + 1" "ws_pending (dispose E s) = []" "ws_provider (dispose E s) = None"
    "ws_address (dispose E s) = None" "ws_deadline (dispose E s) = None"
  using assms by (simp_all add: dispose_eq [OF session_ok_pending])

lemma session_ok_notices [simp]: "session_ok (s\<lparr>ws_notices := ns\<rparr>) = session_ok s"
  by (simp add: session_ok_def request_ids_def account_observed_def deadline_bounded_def wait_current_def [abs_def])

lemma invalidate_ok: "session_ok s \<Longrightarrow> session_ok (invalidate E reason s)"
  by (simp add: invalidate_def Let_def dispose_ok)

lemma invalidate_fields:
  assumes "session_ok s"
  shows "ws_revision (invalidate E reason s) = ws_revision s + 1" "ws_pending (invalidate E reason s) = []"
    "ws_provider (invalidate E reason s) = None"
  using dispose_fields [OF assms] by (simp_all add: invalidate_def Let_def)

lemma changed_ok: "session_ok s \<Longrightarrow> session_ok (snd (changed E reason s))"
  by (simp add: changed_def invalidate_ok)

lemma assertCurrent_Inr:
  "assertCurrent E r s = (Inr u, t) \<Longrightarrow> t = s \<and> r = ws_revision s \<and> (case ws_deadline s of None \<Rightarrow> True | Some d \<Rightarrow> \<not> expired (we_now E) d)"
  by (auto simp: assertCurrent_def expireIfNeeded_def split: if_splits option.splits)

lemma assertCurrent_ok: "session_ok s \<Longrightarrow> session_ok (snd (assertCurrent E r s))"
  by (auto simp: assertCurrent_def expireIfNeeded_def invalidate_ok split: option.splits)

lemma expire_ok: "session_ok s \<Longrightarrow> session_ok (snd (expireIfNeeded E s))"
  by (auto simp: expireIfNeeded_def invalidate_ok split: option.splits)

text \<open>After \<open>assertCurrent\<close> an operation goes on in the same state.\<close>

lemma guarded_ok:
  assumes "session_ok s" "r = ws_revision s \<Longrightarrow> session_ok (snd (k () s))"
  shows "session_ok (snd (bindS (assertCurrent E r s) k))"
proof (rule bindS_keeps)
  show "session_ok (snd (assertCurrent E r s))" by (rule assertCurrent_ok [OF assms(1)])
  fix u t
  assume "assertCurrent E r s = (Inr u, t)"
  then have "t = s" "r = ws_revision s" using assertCurrent_Inr by blast+
  then show "session_ok (snd (k u t))" using assms(2) by (cases u) simp
qed

lemma deadline_of_timing:
  assumes "timing_ok a b c" "session_ok s" "m = of_int (js_val b - js_val a)"
  shows "session_ok (s\<lparr>ws_deadline := Some \<lparr>wd_wall = js_plus (ck_wall c) m, wd_monotonic = js_plus (ck_monotonic c) m,
    wd_startWall = ck_wall c, wd_startMonotonic = ck_monotonic c\<rparr>\<rparr>)"
proof -
  obtain w n where "ck_wall c = Some w" "ck_monotonic c = Some n"
    using assms(1) by (auto simp: timing_ok_def Let_def js_lt_def split: option.splits)
  moreover have "js_val b - js_val a \<le> max_ttl" using assms(1) by (simp add: timing_ok_def Let_def)
  then have "m \<le> of_int max_ttl" using assms(3) by (simp only: of_int_le_iff)
  ultimately show ?thesis using assms(2)
    by (simp add: session_ok_def request_ids_def account_observed_def deadline_bounded_def wait_current_def [abs_def]
        js_plus_def js_minus_def js_le_def)
qed

lemma authorize_ok: "session_ok s \<Longrightarrow> session_ok (snd (authorize E r a b c s))"
  unfolding authorize_def
  by (rule guarded_ok) (auto simp: changed_ok Let_def intro!: assertCurrent_ok deadline_of_timing)

lemma session_ok_fresh:
  assumes "session_ok s" "ws_pending s = []"
  shows "session_ok (s\<lparr>ws_provider := p, ws_address := None, ws_observed := v\<rparr>)"
  using assms by (simp add: session_ok_def request_ids_def account_observed_def deadline_bounded_def)

lemma attach_ok: "session_ok s \<Longrightarrow> session_ok (snd (attach E p s))"
  using dispose_ok [of s E] dispose_fields(2) [of s E]
  by (auto simp: attach_def Let_def intro!: dispose_ok session_ok_fresh)

lemma session_ok_observed:
  assumes "session_ok s" "a = None \<or> v = Observed a"
  shows "session_ok (s\<lparr>ws_address := a, ws_observed := v\<rparr>)"
  using assms by (simp add: session_ok_def request_ids_def account_observed_def deadline_bounded_def wait_current_def [abs_def])

lemma session_ok_clear: "session_ok s \<Longrightarrow> session_ok (clearAuthorization s)"
  by (simp add: clearAuthorization_def session_ok_def request_ids_def account_observed_def deadline_bounded_def wait_current_def [abs_def])

lemma bind_ok: "session_ok s \<Longrightarrow> session_ok (snd (bind_account E r v s))"
  unfolding bind_account_def
  by (rule guarded_ok) (auto simp: changed_ok intro!: session_ok_observed split: option.splits)

lemma guarded_invalidate_ok: "session_ok s \<Longrightarrow> session_ok (guarded_invalidate E r p reason s)"
  by (simp add: guarded_invalidate_def invalidate_ok)

subsection \<open>Requests\<close>

lemma session_ok_request:
  assumes "session_ok s" "ws_provider s = Some (ww_provider w)" "ww_revision w = ws_revision s" "ww_id w = ws_next s"
    "1 \<le> ww_timeout w" "ww_timeout w \<le> 120000"
  shows "session_ok (s\<lparr>ws_next := ws_next s + 1, ws_pending := ws_pending s @ [w]\<rparr>)"
proof -
  have ids: "request_ids (s\<lparr>ws_next := ws_next s + 1, ws_pending := ws_pending s @ [w]\<rparr>) = request_ids s @ [ws_next s]"
    using assms(4) by (simp add: request_ids_def)
  have "list_all (\<lambda>i. i < ws_next s) (request_ids s)" "distinct (request_ids s)" using assms(1) by (simp_all add: session_ok_def)
  then have "distinct (request_ids s @ [ws_next s])" "list_all (\<lambda>i. i < ws_next s + 1) (request_ids s @ [ws_next s])"
    by (auto simp: list_all_iff)
  then show ?thesis using assms ids
    by (simp add: session_ok_def account_observed_def deadline_bounded_def wait_current_def [abs_def])
qed

lemma request_ok:
  assumes "session_ok s"
  shows "session_ok (snd (request E r m s))"
  unfolding request_def
proof (rule guarded_ok [OF assms])
  assume "r = ws_revision s"
  then show "session_ok (snd (case ws_provider s of None \<Rightarrow> changed E ''provider changed'' s
   | Some p \<Rightarrow> if we_current E \<noteq> Some p then changed E ''provider changed'' s
       else let t = timeout_of m s in
         if \<not> js_safe t \<or> js_val t < 1 \<or> 120000 < js_val t then (Inl ''Invalid wallet request limits.'', s)
         else (Inr (ws_next s), s\<lparr>ws_next := ws_next s + 1, ws_pending := ws_pending s @
           [\<lparr>ww_id = ws_next s, ww_revision = r, ww_provider = p, ww_method = m, ww_started = we_now E,
             ww_timeout = js_val t, ww_asked = False\<rparr>]\<rparr>)))"
    using assms session_ok_request [OF assms] by (cases "ws_provider s") (simp_all add: Let_def changed_ok)
qed

lemma finish_wait_ok:
  assumes "session_ok s" "waiting i s = Some w" "v = None \<or> answer_fenced \<lparr>wt_wait = w, wt_value = v, wt_revision = ws_revision s, wt_now = we_now E, wt_current = we_current E\<rparr>"
  shows "session_ok (finish_wait E v i s)"
proof -
  have w: "w \<in> set (ws_pending s)" "ww_id w = i" using find_Some_iff2 [OF assms(2) [unfolded waiting_def]] by auto
  have f: "answer_fenced \<lparr>wt_wait = w, wt_value = v, wt_revision = ws_revision s, wt_now = we_now E, wt_current = we_current E\<rparr>"
    using assms(3) by (auto simp: answer_fenced_def)
  let ?A = "map (\<lambda>t. ww_id (wt_wait t)) (ws_settled s)"
  have all: "distinct (?A @ map ww_id (ws_pending s))" "list_all (\<lambda>j. j < ws_next s) (?A @ map ww_id (ws_pending s))"
    using assms(1) by (simp_all add: session_ok_def request_ids_def)
  have "distinct (?A @ i # map ww_id (filter (\<lambda>x. ww_id x \<noteq> i) (ws_pending s)))"
    using all(1) w by (auto simp: distinct_map_filter)
  moreover have "list_all (\<lambda>j. j < ws_next s) (?A @ i # map ww_id (filter (\<lambda>x. ww_id x \<noteq> i) (ws_pending s)))"
    using all(2) w by (auto simp: list_all_iff)
  moreover have "finish_wait E v i s = s\<lparr>ws_pending := filter (\<lambda>x. ww_id x \<noteq> i) (ws_pending s),
      ws_settled := ws_settled s @ [\<lparr>wt_wait = w, wt_value = v, wt_revision = ws_revision s, wt_now = we_now E, wt_current = we_current E\<rparr>]\<rparr>"
    using assms(2) by (simp add: finish_wait_def waiting_def)
  moreover have "list_all (wait_current s) (filter (\<lambda>x. ww_id x \<noteq> i) (ws_pending s))"
    using assms(1) by (auto simp: session_ok_def list_all_iff)
  ultimately show ?thesis using assms(1) f w(2)
    by (simp add: session_ok_def request_ids_def account_observed_def deadline_bounded_def wait_current_def [abs_def])
qed

lemma finish_gone: "waiting i s = None \<Longrightarrow> finish_wait E v i s = s"
  by (simp add: finish_wait_def waiting_def)

lemma drop_ok: "session_ok s \<Longrightarrow> session_ok (finish_wait E None i s)"
  by (cases "waiting i s") (simp_all add: finish_gone finish_wait_ok)

lemma rejected_ok: "session_ok s \<Longrightarrow> session_ok (on_rejected E w s)"
  by (simp add: on_rejected_def drop_ok invalidate_ok)

lemma ask_ok: "session_ok s \<Longrightarrow> session_ok (ask w s)"
proof -
  assume s: "session_ok s"
  have ids: "request_ids (ask w s) = request_ids s" by (simp add: request_ids_def ask_def comp_def cong: map_cong if_cong)
  have "list_all (wait_current (ask w s)) (ws_pending (ask w s))"
    using s by (auto simp: session_ok_def ask_def wait_current_def list_all_iff)
  then show ?thesis using s ids
    by (simp add: session_ok_def) (simp add: ask_def account_observed_def deadline_bounded_def)
qed

lemma dispatch_ok: "session_ok s \<Longrightarrow> session_ok (dispatch E w s)"
  using assertCurrent_ok [of s E "ww_revision w"]
  by (auto simp: dispatch_def rejected_ok invalidate_ok ask_ok split: prod.split sum.split)

lemma answer_ok:
  assumes "session_ok s" "waiting (ww_id w) s = Some w" "ww_asked w"
  shows "session_ok (on_answer E v w s)"
proof (cases "late (we_now E) w")
  case True
  then show ?thesis using assms(1) by (simp add: on_answer_def invalidate_ok)
next
  case False
  obtain x t where a: "assertCurrent E (ww_revision w) s = (x, t)" by (cases "assertCurrent E (ww_revision w) s")
  have t: "session_ok t" using assertCurrent_ok [OF assms(1), of E "ww_revision w"] a by simp
  show ?thesis
  proof (cases x)
    case (Inl e)
    then show ?thesis using False a t by (simp add: on_answer_def drop_ok invalidate_ok)
  next
    case (Inr u)
    then have "t = s" and r: "ww_revision w = ws_revision s" using assertCurrent_Inr [of E "ww_revision w" s u t] a by auto
    show ?thesis
    proof (cases "we_current E = Some (ww_provider w)")
      case True
      have "answer_fenced \<lparr>wt_wait = w, wt_value = Some v, wt_revision = ws_revision s, wt_now = we_now E, wt_current = we_current E\<rparr>"
        using False r True assms(3) by (simp add: answer_fenced_def)
      then have "session_ok (finish_wait E (Some v) (ww_id w) s)" by (intro finish_wait_ok [OF assms(1,2)]) simp
      then show ?thesis using False a Inr True \<open>t = s\<close> by (simp add: on_answer_def)
    next
      case other: False
      then show ?thesis using False a Inr t by (simp add: on_answer_def invalidate_ok)
    qed
  qed
qed

lemma check_start_ok: "session_ok s \<Longrightarrow> session_ok (snd (check_start E r s))"
  unfolding check_start_def
  by (rule guarded_ok) (use request_ok [of s E r Eth_Accounts] in \<open>auto simp: changed_ok intro!: guarded_ok split: prod.split sum.split\<close>)

lemma check_resume_ok: "session_ok s \<Longrightarrow> session_ok (snd (check_resume E r v s))"
  unfolding check_resume_def by (rule guarded_ok) (auto simp: changed_ok split: option.split)

lemma accounts_ok:
  assumes "session_ok s"
  shows "session_ok (on_accounts E r p v s)"
proof (cases "ws_revision s = r \<and> ws_provider s = Some p")
  case False
  then show ?thesis using assms by (auto simp: on_accounts_def)
next
  case True
  let ?s = "s\<lparr>ws_observed := Observed (first_account v)\<rparr>"
  show ?thesis
  proof (cases "ws_address s = None \<or> ws_address s = first_account v")
    case same: True
    then have "session_ok ?s" using session_ok_observed [OF assms, of "ws_address s" "Observed (first_account v)"] by auto
    then show ?thesis using True same by (auto simp: on_accounts_def Let_def)
  next
    case other: False
    have "dispose E ?s = dispose E s" by (simp add: dispose_eq session_ok_pending [OF assms])
    then have "session_ok (invalidate E ''account changed'' ?s)"
      using invalidate_ok [OF assms, of E "''account changed''"] by (simp add: invalidate_def)
    then show ?thesis using True other by (auto simp: on_accounts_def Let_def guarded_invalidate_def)
  qed
qed

lemma wallet_step_ok: "session_ok s \<Longrightarrow> session_ok (wallet_step E e s)"
proof (cases e)
  case (Wallet_Answer i v)
  assume s: "session_ok s"
  show ?thesis
  proof (cases "waiting i s")
    case (Some w)
    then have "ww_id w = i" using find_Some_iff2 unfolding waiting_def by fastforce
    then show ?thesis using s Some Wallet_Answer answer_ok [of s w E] rejected_ok [OF s, of E w]
      by (auto simp: on_wait_def split: option.split)
  qed (use s Wallet_Answer in \<open>simp add: on_wait_def\<close>)
qed (auto simp: on_wait_def attach_ok bind_ok authorize_ok session_ok_clear expire_ok request_ok check_start_ok check_resume_ok
    dispose_ok invalidate_ok accounts_ok guarded_invalidate_ok dispatch_ok split: option.split)

lemma wallet_run_ok: "session_ok s \<Longrightarrow> session_ok (wallet_run es s)"
  by (induction es arbitrary: s) (auto simp: wallet_run_def wallet_step_ok)

lemma new_session_ok: "session_ok (new_session a p)"
  by (simp add: session_ok_def new_session_def request_ids_def account_observed_def deadline_bounded_def)

text \<open>
  C29: Whatever the page and the wallet do, in whatever order callbacks and timers arrive, an
  answer of the wallet reaches the page only for the revision the session has at that moment,
  from the wallet that is attached and injected, in time on both clocks, and once. The bound
  account is the one last observed, and an authorization spans at most thirty minutes, the same
  on both clocks.
\<close>

theorem wallet_answers_fenced:
  "let s = wallet_run es (new_session a p) in
     list_all answer_fenced (ws_settled s) \<and> list_all (wait_current s) (ws_pending s) \<and>
     distinct (request_ids s) \<and> account_observed s \<and> deadline_bounded s"
  using wallet_run_ok [OF new_session_ok, of es a p] by (simp add: session_ok_def Let_def)

subsection \<open>A session that ended stays ended\<close>

text \<open>What a step may add: a later revision, and settled requests of revisions that were still open.\<close>

definition grows :: "wallet_session \<Rightarrow> wallet_session \<Rightarrow> bool" where
  "grows s t \<longleftrightarrow> session_ok t \<and> ws_revision s \<le> ws_revision t \<and>
     (\<exists>ts. ws_settled t = ws_settled s @ ts \<and> list_all (\<lambda>x. ws_revision s \<le> ww_revision (wt_wait x)) ts)"

lemma grows_refl: "session_ok s \<Longrightarrow> grows s s"
  by (simp add: grows_def)

lemma grows_trans:
  assumes "grows s t" "grows t u"
  shows "grows s u"
proof -
  obtain ts us where "ws_settled t = ws_settled s @ ts" "list_all (\<lambda>x. ws_revision s \<le> ww_revision (wt_wait x)) ts"
    "ws_settled u = ws_settled t @ us" "list_all (\<lambda>x. ws_revision t \<le> ww_revision (wt_wait x)) us"
    using assms by (auto simp: grows_def)
  moreover have "ws_revision s \<le> ws_revision t" "ws_revision t \<le> ws_revision u" "session_ok u" using assms by (simp_all add: grows_def)
  ultimately show ?thesis unfolding grows_def by (auto simp: list_all_iff intro!: exI [of _ "ts @ us"])
qed

lemma grows_same: "session_ok t \<Longrightarrow> ws_revision t = ws_revision s \<Longrightarrow> ws_settled t = ws_settled s \<Longrightarrow> grows s t"
  by (simp add: grows_def)

lemma grows_dispose: "session_ok s \<Longrightarrow> grows s (dispose E s)"
  using dispose_ok [of s E]
  by (auto simp: grows_def dispose_eq [OF session_ok_pending] session_ok_def wait_current_def list_all_iff)

lemma grows_invalidate:
  assumes "session_ok s"
  shows "grows s (invalidate E reason s)"
  using grows_dispose [OF assms, of E] invalidate_ok [OF assms, of E reason] by (simp add: grows_def invalidate_def Let_def)

lemma grows_changed: "session_ok s \<Longrightarrow> grows s (snd (changed E reason s))"
  by (simp add: changed_def grows_invalidate)

lemma grows_expire: "session_ok s \<Longrightarrow> grows s (snd (expireIfNeeded E s))"
  by (auto simp: expireIfNeeded_def grows_invalidate grows_refl split: option.splits)

lemma grows_assert: "session_ok s \<Longrightarrow> grows s (snd (assertCurrent E r s))"
  using grows_expire [of s E] by (auto simp: assertCurrent_def grows_refl split: prod.splits)

lemma guarded_grows:
  assumes "session_ok s" "r = ws_revision s \<Longrightarrow> grows s (snd (k () s))"
  shows "grows s (snd (bindS (assertCurrent E r s) k))"
proof (rule bindS_keeps)
  show "grows s (snd (assertCurrent E r s))" by (rule grows_assert [OF assms(1)])
  fix u t
  assume "assertCurrent E r s = (Inr u, t)"
  then have "t = s" "r = ws_revision s" using assertCurrent_Inr by blast+
  then show "grows s (snd (k u t))" using assms(2) by (cases u) simp
qed

lemma grows_finish:
  assumes "session_ok s" "session_ok (finish_wait E v i s)"
  shows "grows s (finish_wait E v i s)"
proof (cases "waiting i s")
  case None
  then show ?thesis using assms(1) by (simp add: finish_gone grows_refl)
next
  case (Some w)
  then have "w \<in> set (ws_pending s)" using find_Some_iff2 unfolding waiting_def by fastforce
  then have "ww_revision w = ws_revision s" using assms(1) by (auto simp: session_ok_def wait_current_def list_all_iff)
  then show ?thesis using assms(2) Some by (simp add: grows_def finish_wait_def waiting_def)
qed

lemma grows_drop: "session_ok s \<Longrightarrow> grows s (finish_wait E None i s)"
  by (rule grows_finish [OF _ drop_ok])

lemma grows_rejected: "session_ok s \<Longrightarrow> grows s (on_rejected E w s)"
  using grows_trans [OF grows_invalidate grows_drop [OF invalidate_ok]] by (simp add: on_rejected_def grows_drop)

lemma grows_dispatch: "session_ok s \<Longrightarrow> grows s (dispatch E w s)"
proof -
  assume s: "session_ok s"
  obtain x t where a: "assertCurrent E (ww_revision w) s = (x, t)" by (cases "assertCurrent E (ww_revision w) s")
  have t: "session_ok t" "grows s t" using assertCurrent_ok [OF s, of E "ww_revision w"] grows_assert [OF s, of E "ww_revision w"] a by simp_all
  have "grows t (ask w t)" using ask_ok [OF t(1), of w] by (rule grows_same) (simp_all add: ask_def)
  then show ?thesis using a t grows_trans [OF t(2)] grows_rejected [OF t(1), of E w] grows_invalidate [OF t(1)]
    by (auto simp: dispatch_def split: sum.split)
qed

lemma grows_answer:
  assumes "session_ok s" "waiting (ww_id w) s = Some w" "ww_asked w"
  shows "grows s (on_answer E v w s)"
proof -
  obtain x t where a: "assertCurrent E (ww_revision w) s = (x, t)" by (cases "assertCurrent E (ww_revision w) s")
  have t: "session_ok t" "grows s t"
    using assertCurrent_ok [OF assms(1), of E "ww_revision w"] grows_assert [OF assms(1), of E "ww_revision w"] a by simp_all
  have whole: "session_ok (on_answer E v w s)" by (rule answer_ok [OF assms])
  have "grows t (finish_wait E None (ww_id w) (if ww_revision w = ws_revision t then invalidate E ''response could not be confirmed'' t else t))"
    using grows_trans [OF grows_invalidate [OF t(1)] grows_drop [OF invalidate_ok [OF t(1)]]] grows_drop [OF t(1)] by simp
  moreover have "grows t (finish_wait E (Some v) (ww_id w) t)" if "x = Inr u" "we_current E = Some (ww_provider w)" "\<not> late (we_now E) w" for u
    using whole that a by (intro grows_finish [OF t(1)]) (simp add: on_answer_def)
  ultimately show ?thesis using a grows_trans [OF t(2)] grows_invalidate [OF t(1)] grows_invalidate [OF assms(1)]
    by (auto simp: on_answer_def split: sum.split)
qed

lemma grows_accounts: "session_ok s \<Longrightarrow> grows s (on_accounts E r p v s)"
proof -
  assume s: "session_ok s"
  let ?s = "s\<lparr>ws_observed := Observed (first_account v)\<rparr>"
  have d: "dispose E ?s = dispose E s" by (simp add: dispose_eq session_ok_pending [OF s])
  then have "grows s (invalidate E ''account changed'' ?s)"
    using grows_invalidate [OF s, of E "''account changed''"] by (simp add: invalidate_def)
  moreover have "grows s ?s" if "on_accounts E r p v s = ?s"
    using accounts_ok [OF s, of E r p v] that by (intro grows_same) simp_all
  ultimately show ?thesis by (auto simp: on_accounts_def Let_def guarded_invalidate_def grows_refl [OF s] split: if_splits)
qed

lemma grows_attach: "session_ok s \<Longrightarrow> grows s (snd (attach E p s))"
proof -
  assume s: "session_ok s"
  let ?t = "(dispose E s)\<lparr>ws_provider := Some (wo_id p), ws_address := None, ws_observed := Undefined\<rparr>"
  have t: "session_ok ?t" using dispose_ok [OF s, of E] dispose_fields(2) [OF s, of E] by (intro session_ok_fresh)
  have "grows (dispose E s) ?t" by (rule grows_same [OF t]) simp_all
  from grows_trans [OF grows_dispose [OF s] this] have g: "grows s ?t" .
  show ?thesis using g grows_dispose [OF s, of E] grows_trans [OF g grows_dispose [OF t]] by (simp add: attach_def Let_def)
qed

lemma grows_request: "session_ok s \<Longrightarrow> grows s (snd (request E r m s))"
proof -
  assume s: "session_ok s"
  note whole = request_ok [OF s, of E r m]
  have "ws_settled (snd (request E r m s)) = ws_settled s \<and> ws_revision (snd (request E r m s)) = ws_revision s \<or> grows s (snd (request E r m s))"
  proof (cases "assertCurrent E r s")
    case (Pair x t)
    show ?thesis
    proof (cases x)
      case (Inl e)
      then show ?thesis using grows_assert [OF s, of E r] Pair by (simp add: request_def)
    next
      case (Inr u)
      then have "t = s" using assertCurrent_Inr Pair by blast
      then show ?thesis using Pair Inr grows_changed [OF s] by (auto simp: request_def Let_def split: option.split)
    qed
  qed
  then show ?thesis using grows_same [OF whole] by blast
qed

lemma grows_check_start: "session_ok s \<Longrightarrow> grows s (snd (check_start E r s))"
proof -
  assume s: "session_ok s"
  obtain x t where rq: "request E r Eth_Accounts s = (x, t)" by (cases "request E r Eth_Accounts s")
  have t: "session_ok t" "grows s t" using request_ok [OF s, of E r Eth_Accounts] grows_request [OF s, of E r Eth_Accounts] rq by simp_all
  have "grows t (snd (bindS (assertCurrent E r t) (\<lambda>_ s. changed E reason s)))" for reason
    by (rule guarded_grows [OF t(1)]) (rule grows_changed [OF t(1)])
  note late_change = grows_trans [OF t(2) this]
  have asked: "grows s (snd (case request E r Eth_Accounts s of (Inr i, s1) \<Rightarrow> (Inr (Check_Waits i), s1)
     | (Inl e, s1) \<Rightarrow> bindS (assertCurrent E r s1) (\<lambda>_ s. changed E ''account access unavailable'' s)))"
    by (cases x) (simp_all only: rq prod.case sum.case snd_conv t(2) late_change)
  show ?thesis unfolding check_start_def
    by (rule guarded_grows [OF s]) (simp (no_asm) add: grows_changed [OF s] grows_refl [OF s] asked)
qed

lemma grows_step: "session_ok s \<Longrightarrow> grows s (wallet_step E e s)"
proof (cases e)
  case (Wallet_Answer i v)
  assume s: "session_ok s"
  show ?thesis
  proof (cases "waiting i s")
    case (Some w)
    then have "ww_id w = i" using find_Some_iff2 unfolding waiting_def by fastforce
    then show ?thesis using s Some Wallet_Answer grows_answer [of s w E] grows_rejected [OF s, of E w] grows_refl [OF s]
      by (auto simp: on_wait_def split: option.split)
  qed (use s Wallet_Answer in \<open>simp add: on_wait_def grows_refl\<close>)
next
  case (Page_Bind r v)
  assume s: "session_ok s"
  have "grows s (snd (bind_account E r v s))" unfolding bind_account_def
    by (rule guarded_grows [OF s])
      (auto simp: grows_changed [OF s] intro!: grows_same session_ok_observed [OF s] split: option.split)
  then show ?thesis using Page_Bind by simp
next
  case (Page_Authorize r a b c)
  assume s: "session_ok s"
  have "grows s (snd (authorize E r a b c s))" unfolding authorize_def
  proof (rule guarded_grows [OF s])
    show "grows s (snd (if \<not> timing_ok a b c then changed E ''invalid session expiry'' s
       else (let remaining = of_int (js_val b - js_val a) in
       assertCurrent E r (s\<lparr>ws_deadline := Some \<lparr>wd_wall = js_plus (ck_wall c) remaining,
         wd_monotonic = js_plus (ck_monotonic c) remaining, wd_startWall = ck_wall c, wd_startMonotonic = ck_monotonic c\<rparr>\<rparr>))))"
    proof (cases "timing_ok a b c")
      case True
      note d = deadline_of_timing [OF True s HOL.refl]
      show ?thesis using grows_trans [OF grows_same [OF d] grows_assert [OF d]] True by (simp add: Let_def)
    qed (simp add: grows_changed [OF s])
  qed
  then show ?thesis using Page_Authorize by simp
next
  case (Page_Check_Resume r i)
  assume s: "session_ok s"
  have "grows s (snd (check_resume E r v s))" for v unfolding check_resume_def
    by (rule guarded_grows [OF s]) (auto simp: grows_changed [OF s] grows_refl [OF s] split: option.split)
  then show ?thesis using Page_Check_Resume by (simp add: grows_refl [OF s] split: option.split)
next
  case Page_Clear
  assume "session_ok s"
  then show ?thesis using Page_Clear session_ok_clear [of s] grows_same [of "clearAuthorization s" s] by (simp add: clearAuthorization_def)
qed (auto simp: on_wait_def grows_refl grows_attach grows_expire grows_request grows_check_start grows_dispose grows_invalidate
    grows_accounts guarded_invalidate_def grows_dispatch split: option.split)

lemma grows_run: "session_ok s \<Longrightarrow> grows s (wallet_run es s)"
proof (induction es arbitrary: s)
  case Nil
  then show ?case by (simp add: wallet_run_def grows_refl)
next
  case (Cons x es)
  obtain E e where x: "x = (E, e)" by (cases x)
  show ?case using Cons.IH [OF wallet_step_ok [OF Cons.prems, of E e]] grows_step [OF Cons.prems, of E e] x
    by (auto simp: wallet_run_def intro: grows_trans)
qed

definition answers :: "nat \<Rightarrow> wallet_session \<Rightarrow> accounts_value option list" where
  "answers r s = map wt_value (filter (\<lambda>t. ww_revision (wt_wait t) = r \<and> wt_value t \<noteq> None) (ws_settled s))"

fun wallet_change :: "nat \<Rightarrow> nat \<Rightarrow> string \<Rightarrow> wallet_event \<Rightarrow> bool" where
  "wallet_change r p a (Wallet_Accounts r' p' v) = (r' = r \<and> p' = p \<and> first_account v \<noteq> Some a)"
| "wallet_change r p a (Wallet_Chain r' p') = (r' = r \<and> p' = p)"
| "wallet_change r p a (Wallet_Disconnect r' p') = (r' = r \<and> p' = p)"
| "wallet_change r p a _ = False"

lemma change_moves_on:
  assumes "session_ok s" "ws_provider s = Some q" "ws_address s = Some a" "wallet_change (ws_revision s) q a e"
  shows "ws_revision (wallet_step E e s) = Suc (ws_revision s)" "answers r (wallet_step E e s) = answers r s"
proof -
  have inv: "ws_revision (invalidate E reason s) = Suc (ws_revision s) \<and> answers r (invalidate E reason s) = answers r s" for reason
    using assms(1) by (simp add: invalidate_def Let_def dispose_eq [OF session_ok_pending] answers_def filter_map o_def)
  have obs: "invalidate E reason (s\<lparr>ws_observed := v\<rparr>) = invalidate E reason s" for reason v
    using assms(1) by (simp add: invalidate_def dispose_eq session_ok_pending)
  show "ws_revision (wallet_step E e s) = Suc (ws_revision s)" "answers r (wallet_step E e s) = answers r s"
    using assms(2-4) inv obs by (cases e; auto simp: guarded_invalidate_def on_accounts_def Let_def)+
qed

lemma grows_answers: "grows s t \<Longrightarrow> r < ws_revision s \<Longrightarrow> answers r t = answers r s"
  by (fastforce simp: grows_def answers_def list_all_iff filter_empty_conv)

text \<open>
  C30: Once the wallet of a bound session reports another account or none, another network, or a
  disconnection, that session is over: whatever happens later, its revision is never current
  again, no request of it waits any more, and no further answer of the wallet reaches it.
\<close>

theorem wallet_change_is_final:
  assumes "s = wallet_run es (new_session a p)"
    and "ws_revision s = r" "ws_provider s = Some q" "ws_address s = Some b" "wallet_change r q b e"
    and "t = wallet_run later (wallet_step E e s)"
  shows "fst (assertCurrent E' r t) = Inl ''WalletSessionChanged'' \<and>
    r \<notin> set (map ww_revision (ws_pending t)) \<and> answers r t = answers r s"
proof -
  have s: "session_ok s" using assms(1) wallet_run_ok new_session_ok by simp
  note c = change_moves_on [OF s assms(3,4) assms(5) [folded assms(2)]]
  let ?u = "wallet_step E e s"
  have u: "session_ok ?u" by (rule wallet_step_ok [OF s])
  have g: "grows ?u t" using grows_run [OF u] assms(6) by simp
  have rev: "r < ws_revision t" using g c(1) [of E] assms(2) by (simp add: grows_def)
  have "session_ok t" using g by (simp add: grows_def)
  then have "r \<notin> set (map ww_revision (ws_pending t))" using rev by (auto simp: session_ok_def wait_current_def list_all_iff)
  moreover have "answers r t = answers r s" using grows_answers [OF g] c(1) [of E] c(2) [of r E] assms(2) by simp
  ultimately show ?thesis using rev by (simp add: assertCurrent_def)
qed

definition run_address :: string where "run_address = ''0x'' @ replicate 40 CHR ''a''"

definition run_env :: "rat \<Rightarrow> wallet_env" where
  "run_env t = \<lparr>we_now = \<lparr>ck_wall = Some t, ck_monotonic = Some t\<rparr>, we_current = Some 7\<rparr>"

definition run_session :: wallet_session where
  "run_session = wallet_run [(run_env 1, Page_Attach \<lparr>wo_id = 7, wo_events = True, wo_subscribes = True\<rparr>),
     (run_env 1, Page_Bind 1 (Accounts_List [Some run_address])), (run_env 2, Page_Request 1 Personal_Sign),
     (run_env 2, Wallet_Dispatch 0), (run_env 3, Wallet_Answer 0 (Some Not_A_List)), (run_env 4, Page_Request 1 Eth_Accounts)]
     (new_session (JInt 10000) (JInt 120000))"

definition run_later :: "(wallet_env \<times> wallet_event) list" where
  "run_later = [(run_env 6, Wallet_Dispatch 1), (run_env 6, Wallet_Answer 1 (Some Not_A_List)), (run_env 6, Page_Request 1 Personal_Sign)]"

lemma run_address_first: "first_account (Accounts_List [Some run_address]) = Some run_address"
  by code_simp

lemma run_session_fields:
  "ws_revision run_session = 1 \<and> ws_provider run_session = Some 7 \<and> ws_address run_session = Some run_address \<and>
   answers 1 run_session = [Some Not_A_List] \<and> length (ws_pending run_session) = 1"
  by (simp add: run_session_def wallet_run_def attach_def dispose_def bind_account_def request_def timeout_of_def on_wait_def
      waiting_def dispatch_def on_answer_def finish_wait_def assertCurrent_def expireIfNeeded_def late_def run_env_def new_session_def
      ask_def js_lt_def js_le_def js_minus_def answers_def is_safe_def max_safe_def run_address_first Let_def del: first_account.simps)

theorem wallet_change_is_final_witness:
  "answers 1 (wallet_run run_later (wallet_step (run_env 5) (Wallet_Chain 1 7) run_session)) = [Some Not_A_List]"
  using wallet_change_is_final [OF run_session_def, of 1 7 run_address "Wallet_Chain 1 7" _ run_later "run_env 5", OF _ _ _ _ HOL.refl]
    run_session_fields by simp

end
