(* ===== verification/Roster_Bundle.thy ===== *)
theory Roster_Bundle
  imports RosterProps Merkle
begin

text \<open>
  The portable roster bundle, \<open>pipeline/roster-bundle.ts\<close>: the checks on a parsed bundle, the
  export under a content pin, the reconstruction from pinned bytes and the proof of one subject,
  found by binary search over the keys of the tree. A field that is not of its type is a value
  that its test refuses: a \<open>JNonInt\<close> number, an empty string, \<open>None\<close> for what is no object or
  array. SHA-256 and the JSON text are the parameters \<open>bundle_lib\<close>; bytes are characters.
\<close>

subsection \<open>Data\<close>

definition MAX_BUNDLE_BYTES :: int where "MAX_BUNDLE_BYTES = 64 * 1024 * 1024"
definition MAX_BUNDLE_ENTRIES :: int where "MAX_BUNDLE_ENTRIES = 100000"

record roster_scope =
  sc_sourceChainId :: js_num
  sc_sourceChainKey :: js_num
  sc_hubChainId :: js_num
  sc_source :: string
  sc_asc :: string
  sc_registry :: string

record bundle_record =
  br_rosterFormatVersion :: "js_num option"
  br_epochSchemaVersion :: "js_num option"
  br_rosterAuthVersion :: "js_num option"
  br_epoch :: js_num
  br_root :: string
  br_listVersion :: js_num
  br_sourceCutoff :: js_num
  br_publishedAt :: js_num
  br_validUntil :: js_num
  br_snapshotId :: string
  br_approvedIssuers :: "string list option"
  br_entries :: "(string list \<times> roster_entry) option list option"

text \<open>A parsed bundle; the keys of an object are listed with it.\<close>

record roster_bundle = bundle_record +
  rb_keys :: "string list"
  rb_bundleVersion :: js_num
  rb_scope :: "(string list \<times> roster_scope) option"

datatype bundle_error = Bundle_Error string | Bundle_Tree roster_error

record bundle_lib =
  bl_sha256 :: "string \<Rightarrow> string"
  bl_parse :: "string \<Rightarrow> roster_bundle option"
  bl_stringify :: "roster_bundle \<Rightarrow> string"

fun tree_error :: "roster_error + 'a \<Rightarrow> bundle_error + 'a" where
  "tree_error (Inl e) = Inl (Bundle_Tree e)"
| "tree_error (Inr x) = Inr x"

subsection \<open>The checks\<close>

definition bundle_uint :: "js_num \<Rightarrow> int \<Rightarrow> int \<Rightarrow> bool" where
  "bundle_uint n hi lo \<longleftrightarrow> js_safe n \<and> lo \<le> js_val n \<and> js_val n \<le> hi"

definition bundle_digest :: "string \<Rightarrow> bool" where
  "bundle_digest s \<longleftrightarrow> is_bytes32 s \<and> s \<noteq> ZeroHash"

definition bundle_address :: "ethers \<Rightarrow> string \<Rightarrow> bool" where
  "bundle_address E s \<longleftrightarrow> e_getAddress E s \<noteq> None \<and> s \<noteq> ZeroAddress"

definition exactKeys :: "string list \<Rightarrow> string list \<Rightarrow> bundle_error + unit" where
  "exactKeys keys allowed = requireE (Bundle_Error ''unexpected field'') (list_all (\<lambda>k. k \<in> set allowed) keys)"

definition bundle_keys :: "string list" where
  "bundle_keys = [''bundleVersion'', ''rosterFormatVersion'', ''epochSchemaVersion'', ''rosterAuthVersion'', ''scope'', ''epoch'', ''root'',
     ''listVersion'', ''sourceCutoff'', ''publishedAt'', ''validUntil'', ''snapshotId'', ''approvedIssuers'', ''entries'']"

definition scope_keys :: "string list" where
  "scope_keys = [''sourceChainId'', ''sourceChainKey'', ''hubChainId'', ''source'', ''asc'', ''registry'']"

definition entry_keys :: "string list" where
  "entry_keys = [''subject'', ''attrs'', ''claimsRoot'', ''evidenceHash'', ''issuer'']"

definition bundle_version_ok :: "'a bundle_record_scheme \<Rightarrow> roster_error + unit" where
  "bundle_version_ok b = assertRosterRecordVersion \<lparr>rr_rosterFormatVersion = br_rosterFormatVersion b,
     rr_epochSchemaVersion = br_epochSchemaVersion b, rr_rosterAuthVersion = br_rosterAuthVersion b, rr_root = br_root b, rr_entries = []\<rparr>"

definition bundle_times_ok :: "'a bundle_record_scheme \<Rightarrow> bool" where
  "bundle_times_ok b \<longleftrightarrow> list_all (\<lambda>t. bundle_uint t 0xffffffffff 1) [br_sourceCutoff b, br_publishedAt b, br_validUntil b] \<and>
     js_val (br_sourceCutoff b) \<le> js_val (br_publishedAt b) \<and> js_val (br_publishedAt b) \<le> js_val (br_sourceCutoff b) + 3600 \<and>
     js_val (br_publishedAt b) < js_val (br_validUntil b) \<and> js_val (br_validUntil b) \<le> js_val (br_sourceCutoff b) + 86400"

definition bundle_fields_ok :: "ethers \<Rightarrow> roster_scope \<Rightarrow> 'a bundle_record_scheme \<Rightarrow> bool" where
  "bundle_fields_ok E s b \<longleftrightarrow>
     bundle_uint (sc_sourceChainId s) max_safe 1 \<and> bundle_uint (sc_hubChainId s) max_safe 1 \<and> bundle_uint (sc_sourceChainKey s) max_safe 1 \<and>
     list_all (bundle_address E) [sc_source s, sc_asc s, sc_registry s] \<and> bundle_uint (br_epoch b) 0xffffffff 1 \<and>
     bundle_uint (br_listVersion b) 0xffffffff 0 \<and> bundle_digest (br_root b) \<and> bundle_digest (br_snapshotId b) \<and> bundle_times_ok b \<and>
     (case br_entries b of None \<Rightarrow> False | Some es \<Rightarrow> int (length es) \<le> MAX_BUNDLE_ENTRIES) \<and>
     (case br_approvedIssuers b of None \<Rightarrow> False
      | Some is \<Rightarrow> 1 \<le> length is \<and> length is \<le> 16 \<and> list_all (bundle_address E) is)"

definition checked_entry :: "ethers \<Rightarrow> js_num \<Rightarrow> string list \<Rightarrow> (string list \<times> roster_entry) option \<Rightarrow> bundle_error + unit" where
  "checked_entry E cutoff approved x = (case x of
     None \<Rightarrow> Inl (Bundle_Error ''invalid bundle entry'')
   | Some (ks, e) \<Rightarrow> bindE (exactKeys ks entry_keys) (\<lambda>_. requireE (Bundle_Error ''invalid/unapproved bundle entry'')
       (bundle_address E (re_subject e) \<and> bundle_address E (re_issuer e) \<and> validCredentialAttrs (re_attrs e) (Some cutoff) \<and>
        is_bytes32 (re_claimsRoot e) \<and> is_bytes32 (re_evidenceHash e) \<and> lower (re_issuer e) \<in> set approved)))"

definition checkedBundle :: "ethers \<Rightarrow> roster_bundle \<Rightarrow> bundle_error + roster_bundle" where
  "checkedBundle E b =
     bindE (tree_error (bundle_version_ok b)) (\<lambda>_.
     bindE (exactKeys (rb_keys b) bundle_keys) (\<lambda>_.
     case rb_scope b of None \<Rightarrow> Inl (Bundle_Error ''invalid bundle version/scope'')
     | Some (ks, s) \<Rightarrow> if rb_bundleVersion b \<noteq> JInt 1 then Inl (Bundle_Error ''invalid bundle version/scope'') else
     bindE (exactKeys ks scope_keys) (\<lambda>_.
     if \<not> bundle_fields_ok E s b then Inl (Bundle_Error ''invalid roster bundle scope/epoch/provenance/limits'') else
     let approved = map lower (the (br_approvedIssuers b)) in
     if \<not> distinct approved then Inl (Bundle_Error ''duplicate bundle issuer'') else
     bindE (mapE (checked_entry E (br_sourceCutoff b) approved) (the (br_entries b))) (\<lambda>_. Inr b))))"

definition bundle_entries :: "'a bundle_record_scheme \<Rightarrow> roster_entry list" where
  "bundle_entries b = map (\<lambda>x. snd (the x)) (the (br_entries b))"

subsection \<open>Export\<close>

text \<open>The addresses of an entry are normalized, its hashes lowered; other fields are left out.\<close>

definition export_entry :: "ethers \<Rightarrow> roster_entry \<Rightarrow> roster_error + roster_entry" where
  "export_entry E e = bindE (get_address E (re_subject e)) (\<lambda>s. bindE (get_address E (re_issuer e)) (\<lambda>i.
     Inr \<lparr>re_subject = s, re_attrs = lower (re_attrs e), re_claimsRoot = lower (re_claimsRoot e),
          re_evidenceHash = lower (re_evidenceHash e), re_issuer = i\<rparr>))"

definition export_scope :: "ethers \<Rightarrow> roster_scope \<Rightarrow> roster_error + roster_scope" where
  "export_scope E s = bindE (get_address E (sc_source s)) (\<lambda>a. bindE (get_address E (sc_asc s)) (\<lambda>b.
     bindE (get_address E (sc_registry s)) (\<lambda>c. Inr (s\<lparr>sc_source := a, sc_asc := b, sc_registry := c\<rparr>))))"

definition wire_entries :: "roster_entry list \<Rightarrow> (string list \<times> roster_entry) option list" where
  "wire_entries es = map (\<lambda>e. Some (entry_keys, e)) es"

definition wire_bundle :: "bundle_record \<Rightarrow> roster_scope \<Rightarrow> string list \<Rightarrow> roster_entry list \<Rightarrow> roster_bundle" where
  "wire_bundle r s is es = \<lparr>br_rosterFormatVersion = br_rosterFormatVersion r, br_epochSchemaVersion = br_epochSchemaVersion r,
     br_rosterAuthVersion = br_rosterAuthVersion r, br_epoch = br_epoch r, br_root = lower (br_root r), br_listVersion = br_listVersion r,
     br_sourceCutoff = br_sourceCutoff r, br_publishedAt = br_publishedAt r, br_validUntil = br_validUntil r,
     br_snapshotId = lower (br_snapshotId r), br_approvedIssuers = Some (sort_key hex_val is), br_entries = Some (wire_entries es),
     rb_keys = bundle_keys, rb_bundleVersion = JInt 1, rb_scope = Some (scope_keys, s)\<rparr>"

definition export_bundle :: "ethers \<Rightarrow> bundle_record \<Rightarrow> roster_scope \<Rightarrow> bundle_error + roster_bundle" where
  "export_bundle E r scope =
     bindE (tree_error (export_scope E scope)) (\<lambda>s.
     bindE (tree_error (mapE (get_address E) (the (br_approvedIssuers r)))) (\<lambda>is.
     bindE (tree_error (mapE (export_entry E) (bundle_entries r))) (\<lambda>es.
     bindE (checkedBundle E (wire_bundle r s is es)) (\<lambda>bundle.
     bindE (tree_error (buildRoster E EVM_NAMESPACE (bundle_entries bundle))) (\<lambda>tree.
     if rt_root tree \<noteq> br_root bundle then Inl (Bundle_Error ''bundle entries do not reproduce root'')
     else Inr (bundle\<lparr>br_entries := Some (wire_entries (rt_entries tree))\<rparr>))))))"

text \<open>The text of the value and a line feed, with the hash of both.\<close>

definition exportRosterBundle :: "ethers \<Rightarrow> bundle_lib \<Rightarrow> bundle_record \<Rightarrow> roster_scope \<Rightarrow> bundle_error + (string \<times> string)" where
  "exportRosterBundle E L r scope = bindE (export_bundle E r scope) (\<lambda>bundle.
     let bytes = bl_stringify L bundle @ [char_of (10 :: nat)] in
     if MAX_BUNDLE_BYTES < int (length bytes) then Inl (Bundle_Error ''roster bundle exceeds byte budget'')
     else Inr (bytes, bl_sha256 L bytes))"

subsection \<open>Reconstruction and proofs\<close>

definition sha_hex :: "string \<Rightarrow> bool" where
  "sha_hex h \<longleftrightarrow> length h = 64 \<and> list_all (\<lambda>c. hex_digit c \<and> lower_char c = c) h"

record loaded_bundle =
  lb_hash :: string
  lb_bundle :: roster_bundle
  lb_tree :: roster_tree

definition loadRosterBundle :: "ethers \<Rightarrow> bundle_lib \<Rightarrow> string \<Rightarrow> string \<Rightarrow> bundle_error + loaded_bundle" where
  "loadRosterBundle E L bytes pin =
     (if \<not> sha_hex pin \<or> bytes = [] \<or> MAX_BUNDLE_BYTES < int (length bytes) \<or> bl_sha256 L bytes \<noteq> pin
      then Inl (Bundle_Error ''roster bundle size/content pin mismatch'') else
      case bl_parse L bytes of None \<Rightarrow> Inl (Bundle_Error ''invalid roster bundle'')
      | Some raw \<Rightarrow> bindE (checkedBundle E raw) (\<lambda>b.
        bindE (tree_error (buildRoster E EVM_NAMESPACE (bundle_entries b))) (\<lambda>tree.
        if \<not> same (rt_root tree) (br_root b) then Inl (Bundle_Error ''bundle root mismatch'')
        else Inr \<lparr>lb_hash = pin, lb_bundle = b, lb_tree = tree\<rparr>)))"

text \<open>The first key from \<open>lo\<close> on that is not less than the target.\<close>

function bundle_search :: "hex list \<Rightarrow> hex \<Rightarrow> nat \<Rightarrow> nat \<Rightarrow> nat" where
  "bundle_search keys k lo hi = (if lo < hi
     then let mid = (lo + hi) div 2 in
       if keys ! mid < k then bundle_search keys k (mid + 1) hi else bundle_search keys k lo mid
     else lo)"
  by pat_completeness auto
termination by (relation "measure (\<lambda>(keys, k, lo, hi). hi - lo)") auto

declare bundle_search.simps [simp del]

datatype bundle_proof = Absent string non_inclusion_proof | Present string roster_entry inclusion_proof

definition bundle_prove :: "ethers \<Rightarrow> loaded_bundle \<Rightarrow> string \<Rightarrow> bundle_error + bundle_proof" where
  "bundle_prove E B subject =
     (if \<not> bundle_address E subject then Inl (Bundle_Error ''invalid proof subject'') else
      let tree = lb_tree B in
      bindE (tree_error (get_address E subject)) (\<lambda>normalized.
      bindE (tree_error (subjectKey E EVM_NAMESPACE normalized)) (\<lambda>key.
      let lo = bundle_search (rt_keys tree) key 1 (length (rt_keys tree) - 1) in
      if rt_keys tree ! lo \<noteq> key then
        bindE (tree_error (inclusionProof tree (int lo - 1))) (\<lambda>l.
        bindE (tree_error (inclusionProof tree (int lo))) (\<lambda>r.
          Inr (Absent normalized \<lparr>np_left = l, np_leftKey = rt_keys tree ! (lo - 1), np_leftMark = rt_marks tree ! (lo - 1),
            np_right = r, np_rightKey = rt_keys tree ! lo, np_rightMark = rt_marks tree ! lo\<rparr>)))
      else if length (rt_entries tree) \<le> lo - 1 then Inl (Bundle_Error ''entry is undefined'')
      else bindE (tree_error (inclusionProof tree (leafIndexOf (int lo - 1)))) (\<lambda>p.
        Inr (Present normalized (rt_entries tree ! (lo - 1)) p)))))"

end
