(* ===== verification/Bundle_Props.thy ===== *)
theory Bundle_Props
  imports Roster_Bundle
begin

text \<open>
  The bundle answers every subject: the binary search finds the subject's leaf or the gap it
  falls in, and the proof verifies against the root that the pinned bytes reproduce. An exported
  bundle loads under its own pin.
\<close>

subsection \<open>The search\<close>

lemma bundle_search_spec:
  fixes keys :: "hex list"
  assumes "sorted_wrt (<) keys" "lo \<le> hi" "hi < length keys" "k \<le> keys ! hi" "\<forall>j < lo. keys ! j < k"
  shows "lo \<le> bundle_search keys k lo hi \<and> bundle_search keys k lo hi \<le> hi \<and> k \<le> keys ! bundle_search keys k lo hi \<and>
    (\<forall>j < bundle_search keys k lo hi. keys ! j < k)"
  using assms
proof (induction keys k lo hi rule: bundle_search.induct)
  case (1 keys k lo hi)
  show ?case
  proof (cases "lo < hi")
    case False
    then have "bundle_search keys k lo hi = lo" by (simp add: bundle_search.simps)
    then show ?thesis using False "1.prems" by simp
  next
    case True
    let ?mid = "(lo + hi) div 2"
    have mid: "lo \<le> ?mid" "?mid < hi" using True by auto
    show ?thesis
    proof (cases "keys ! ?mid < k")
      case less: True
      have "keys ! j < k" if "j < ?mid + 1" for j
      proof (cases "j = ?mid")
        case False
        then have "j < ?mid" "?mid < length keys" using that mid "1.prems"(3) by simp_all
        then have "keys ! j < keys ! ?mid" using "1.prems"(1) by (simp add: sorted_wrt_nth_less)
        then show ?thesis using less by (rule order.strict_trans)
      qed (use less in simp)
      then have "?mid + 1 \<le> bundle_search keys k (?mid + 1) hi \<and> bundle_search keys k (?mid + 1) hi \<le> hi \<and>
          k \<le> keys ! bundle_search keys k (?mid + 1) hi \<and> (\<forall>j < bundle_search keys k (?mid + 1) hi. keys ! j < k)"
        using "1.IH"(1) [OF True HOL.refl less] mid "1.prems" by simp
      moreover have "bundle_search keys k lo hi = bundle_search keys k (?mid + 1) hi"
        using True less by (simp add: bundle_search.simps [of keys k lo hi])
      ultimately show ?thesis using mid by simp
    next
      case more: False
      then have "lo \<le> bundle_search keys k lo ?mid \<and> bundle_search keys k lo ?mid \<le> ?mid \<and>
          k \<le> keys ! bundle_search keys k lo ?mid \<and> (\<forall>j < bundle_search keys k lo ?mid. keys ! j < k)"
        using "1.IH"(2) [OF True HOL.refl more] mid "1.prems" by simp
      moreover have "bundle_search keys k lo hi = bundle_search keys k lo ?mid"
        using True more by (simp add: bundle_search.simps [of keys k lo hi])
      ultimately show ?thesis using mid by simp
    qed
  qed
qed

subsection \<open>Proofs of subjects\<close>

lemma tree_error_Inr [simp]: "tree_error m = Inr x \<longleftrightarrow> m = Inr x"
  by (cases m) simp_all

lemma bundle_prove_decides:
  assumes ok: "ethers_ok E" and t: "buildRoster E EVM_NAMESPACE (bundle_entries b) = Inr (lb_tree B)"
    and s: "e_getAddress E s = Some a" "e_getAddress E a = Some a" "s \<noteq> ZeroAddress"
    and k: "subjectKey E EVM_NAMESPACE a = Inr k" "k \<notin> {MIN_KEY, MAX_KEY}"
  shows "case bundle_prove E B s of Inl e \<Rightarrow> False
    | Inr (Present n e p) \<Rightarrow> n = a \<and> e \<in> set (bundle_entries b) \<and> subjectKey E EVM_NAMESPACE (re_subject e) = Inr k \<and>
        (\<exists>leaf. rosterLeaf E EVM_NAMESPACE e = Inr leaf \<and> verifyInclusion E (rt_root (lb_tree B)) leaf p = Inr True)
    | Inr (Absent n p) \<Rightarrow> n = a \<and> list_all (\<lambda>e. subjectKey E EVM_NAMESPACE (re_subject e) \<noteq> Inr k) (bundle_entries b) \<and>
        verifyNonInclusion E EVM_NAMESPACE (rt_root (lb_tree B)) a p = Inr True"
proof -
  let ?T = "lb_tree B" and ?K = "rt_keys (lb_tree B)" and ?n = "length (rt_keys (lb_tree B)) - 1"
  define i where "i = bundle_search ?K k 1 ?n"
  have i: "bundle_search ?K k (Suc 0) (length ?K - Suc 0) = i" by (simp add: i_def)
  note len = rt_lengths [OF t]
  have b32: "is_bytes32 k" using subjectKey_Inr [OF ok k(1)] by simp
  have ends: "?K ! 0 = MIN_KEY" "?K ! ?n = MAX_KEY"
    using t by (auto simp: buildRoster_Inr nth_append)
  have "MIN_KEY < k" "k \<le> ?K ! ?n" using bytes32_bounds [OF b32] k(2) ends by (auto simp: order.strict_iff_order)
  then have "\<forall>j < 1. ?K ! j < k" using ends by simp
  then have spec: "1 \<le> i" "i \<le> ?n" "k \<le> ?K ! i" "\<forall>j < i. ?K ! j < k"
    using bundle_search_spec [OF rt_keys_strict(1) [OF ok t], of 1 ?n k] len \<open>k \<le> ?K ! ?n\<close> unfolding i_def by auto
  have idx: "i < length ?K" "i < length (rt_leaves ?T)" "i - 1 < length (rt_leaves ?T)" using spec(2) len by auto
  have pos: "int i - 1 = int (i - 1)" using spec(1) by simp
  have addr: "bundle_address E s" "get_address E s = Inr a" using s by (simp_all add: bundle_address_def get_address_def)
  from inclusion_complete [OF t idx(2)] obtain r where r: "inclusionProof ?T (int i) = Inr r"
    "verifyInclusion E (rt_root ?T) (rt_leaves ?T ! i) r = Inr True" by blast
  from inclusion_complete [OF t idx(3)] obtain l where l: "inclusionProof ?T (int (i - 1)) = Inr l" by blast
  show ?thesis
  proof (cases "?K ! i = k")
    case True
    then have "i \<noteq> ?n" using ends k(2) by auto
    then have e: "i - 1 < length (rt_entries ?T)" "Suc (i - 1) = i"
      using spec(1,2) len rt_entries_perm [OF t] by auto
    have prove: "bundle_prove E B s = Inr (Present a (rt_entries ?T ! (i - 1)) r)"
      using addr k(1) True e r(1) spec(1) by (simp add: bundle_prove_def Let_def i leafIndexOf_def)
    have "rt_entries ?T ! (i - 1) \<in> set (bundle_entries b)"
      using e(1) rt_entries_perm(1) [OF t] by (metis nth_mem set_mset_mset)
    then show ?thesis using prove rt_entry_key [OF t e(1)] rt_entry_leaf [OF t e(1)] e(2) True r(2) by simp
  next
    case False
    then have above: "k < ?K ! i" using spec(3) by (simp add: order.strict_iff_order)
    have notin: "k \<notin> set ?K"
    proof
      assume "k \<in> set ?K"
      then obtain j where j: "j < length ?K" "?K ! j = k" by (auto simp: in_set_conv_nth)
      then have "i < j" using spec(4) False by (metis linorder_neqE_nat order.irrefl)
      then have "?K ! i < ?K ! j" using rt_keys_strict(1) [OF ok t] j(1) by (simp add: sorted_wrt_nth_less)
      then show False using above j(2) by simp
    qed
    let ?p = "\<lparr>np_left = l, np_leftKey = ?K ! (i - 1), np_leftMark = rt_marks ?T ! (i - 1),
       np_right = r, np_rightKey = ?K ! i, np_rightMark = rt_marks ?T ! i\<rparr>"
    have "find_index (\<lambda>x. x > k) ?K = Some i" using idx(1) above spec(4) by (auto simp: find_index_Some)
    then have "nonInclusionProof E EVM_NAMESPACE ?T a = Inr ?p"
      using k(1) notin spec(1) l r(1) by (simp add: nonInclusionProof_def Let_def)
    then have ver: "verifyNonInclusion E EVM_NAMESPACE (rt_root ?T) a ?p = Inr True"
      using non_inclusion_complete [OF ok t k(1) notin] by auto
    have "bundle_prove E B s = Inr (Absent a ?p)"
      using addr k(1) False l r(1) by (simp add: bundle_prove_def Let_def i pos del: of_nat_diff)
    moreover have "subjectKey E EVM_NAMESPACE (re_subject e) \<noteq> Inr k" if "e \<in> set (bundle_entries b)" for e
    proof -
      have "e \<in> set (rt_entries ?T)" using that rt_entries_perm(1) [OF t] by (metis set_mset_mset)
      then obtain j where j: "j < length (rt_entries ?T)" "rt_entries ?T ! j = e" by (auto simp: in_set_conv_nth)
      have "Suc j < length ?K" using j(1) len rt_entries_perm [OF t] by simp
      then have "?K ! Suc j \<in> set ?K" by simp
      then show ?thesis using rt_entry_key [OF t j(1)] j(2) notin by auto
    qed
    ultimately show ?thesis using ver by (simp add: list_all_iff)
  qed
qed

lemma load_Inr:
  "loadRosterBundle E L bytes pin = Inr B \<longleftrightarrow> sha_hex pin \<and> bytes \<noteq> [] \<and> int (length bytes) \<le> MAX_BUNDLE_BYTES \<and> bl_sha256 L bytes = pin \<and>
     (\<exists>raw. bl_parse L bytes = Some raw \<and> checkedBundle E raw = Inr (lb_bundle B) \<and> lb_hash B = pin \<and>
       buildRoster E EVM_NAMESPACE (bundle_entries (lb_bundle B)) = Inr (lb_tree B) \<and> same (rt_root (lb_tree B)) (br_root (lb_bundle B)))"
  by (cases B) (auto simp: loadRosterBundle_def bindE_Inr_iff split: option.splits)

text \<open>
  C4: A loaded bundle decides every subject. For the checksum address of the subject it answers
  with an entry of the bundle that has the subject's key and an inclusion proof of that entry's
  leaf, or, when no entry has the key, with a gap proof; either verifies against the root.
\<close>

theorem bundle_decides:
  assumes "ethers_ok E" "loadRosterBundle E L bytes pin = Inr B"
    and "e_getAddress E s = Some a" "e_getAddress E a = Some a" "s \<noteq> ZeroAddress"
    and "subjectKey E EVM_NAMESPACE a = Inr k" "k \<notin> {MIN_KEY, MAX_KEY}"
  shows "case bundle_prove E B s of Inl e \<Rightarrow> False
    | Inr (Present n e p) \<Rightarrow> n = a \<and> e \<in> set (bundle_entries (lb_bundle B)) \<and> subjectKey E EVM_NAMESPACE (re_subject e) = Inr k \<and>
        (\<exists>leaf. rosterLeaf E EVM_NAMESPACE e = Inr leaf \<and> verifyInclusion E (rt_root (lb_tree B)) leaf p = Inr True)
    | Inr (Absent n p) \<Rightarrow> n = a \<and> list_all (\<lambda>e. subjectKey E EVM_NAMESPACE (re_subject e) \<noteq> Inr k) (bundle_entries (lb_bundle B)) \<and>
        verifyNonInclusion E EVM_NAMESPACE (rt_root (lb_tree B)) a p = Inr True"
proof -
  have "buildRoster E EVM_NAMESPACE (bundle_entries (lb_bundle B)) = Inr (lb_tree B)" using assms(2) by (auto simp: load_Inr)
  from bundle_prove_decides [OF assms(1) this assms(3-7)] show ?thesis .
qed

subsection \<open>Export and load\<close>

lemma with_keys_sorted:
  assumes "with_keys E ns entries = Inr xs"
  shows "with_keys E ns (map fst (sort_key snd xs)) = Inr (sort_key snd xs)"
proof -
  have "\<forall>x \<in> set (sort_key snd xs). subjectKey E ns (re_subject (fst x)) = Inr (snd x)"
    using with_keys_subject [OF assms] by simp
  then have "mapE (\<lambda>e. bindE (subjectKey E ns (re_subject e)) (\<lambda>k. Inr (e, k))) (map fst (ys :: (roster_entry \<times> hex) list)) = Inr ys"
    if "\<forall>x \<in> set ys. subjectKey E ns (re_subject (fst x)) = Inr (snd x)" for ys
    using that by (induction ys) auto
  then show ?thesis using \<open>\<forall>x \<in> set (sort_key snd xs). subjectKey E ns (re_subject (fst x)) = Inr (snd x)\<close>
    by (simp only: with_keys_def)
qed

lemma buildRoster_sorted:
  assumes "buildRoster E ns entries = Inr t"
  shows "buildRoster E ns (rt_entries t) = Inr t"
proof -
  from assms obtain xs ms where xs: "with_keys E ns entries = Inr xs"
    "first_duplicate (sort_key snd xs) = None" "first_sentinel (sort_key snd xs) = None"
    "rt_entries t = map fst (sort_key snd xs)" "rt_keys t = [MIN_KEY] @ map snd (sort_key snd xs) @ [MAX_KEY]"
    "mapE (markHash E) (rt_entries t) = Inr ms" "rt_marks t = [SENTINEL_MARK] @ ms @ [SENTINEL_MARK]"
    "mapE (\<lambda>(k, m). leafOf E k m) (zip (rt_keys t) (rt_marks t)) = Inr (rt_leaves t)"
    "roster_layers E (rt_leaves t) = Inr (rt_layers t)"
    "rosterRoot E (hd (last (rt_layers t))) (int (length (rt_leaves t))) = Inr (rt_root t)"
    by (auto simp: buildRoster_Inr)
  have again: "sort_key snd (sort_key snd xs) = sort_key snd xs" by (intro sort_key_id_if_sorted) simp
  have "with_keys E ns (rt_entries t) = Inr (sort_key snd xs)" using with_keys_sorted [OF xs(1)] xs(4) by simp
  then show ?thesis using xs again by (auto simp: buildRoster_Inr intro!: exI [of _ "sort_key snd xs"])
qed

lemma bundle_entries_wire: "br_entries b = Some (wire_entries es) \<Longrightarrow> bundle_entries b = es"
  by (simp add: bundle_entries_def wire_entries_def o_def)

lemma checkedBundle_id: "checkedBundle E b = Inr c \<Longrightarrow> c = b"
  by (auto simp: checkedBundle_def Let_def elim!: bindE_Inr_cases split: option.splits if_splits)

lemma mapE_unit: "(\<exists>u. mapE f xs = Inr (u :: unit list)) \<longleftrightarrow> (\<forall>x \<in> set xs. f x = Inr ())"
  by (induction xs) (auto simp: bindE_Inr_iff)

lemma mapE_unit_subset:
  assumes "mapE f xs = Inr (u :: unit list)" "set ys = set xs"
  shows "\<exists>v. mapE f ys = Inr v"
  using assms mapE_unit [of f xs] mapE_unit [of f ys] by blast

text \<open>The check does not depend on the order of the entries.\<close>

lemma checkedBundle_reorder:
  assumes "checkedBundle E b = Inr b" "br_entries b = Some xs" "set ys = set xs" "length ys = length xs"
  shows "checkedBundle E (b\<lparr>br_entries := Some ys\<rparr>) = Inr (b\<lparr>br_entries := Some ys\<rparr>)"
proof -
  obtain ks s where s: "rb_scope b = Some (ks, s)" using assms(1) by (auto simp: checkedBundle_def elim!: bindE_Inr_cases split: option.splits)
  let ?ap = "map lower (the (br_approvedIssuers b))"
  obtain u where u: "mapE (checked_entry E (br_sourceCutoff b) ?ap) xs = Inr u"
    using assms(1,2) s by (auto simp: checkedBundle_def Let_def elim!: bindE_Inr_cases split: if_splits)
  obtain v where v: "mapE (checked_entry E (br_sourceCutoff b) ?ap) ys = Inr v" using mapE_unit_subset [OF u assms(3)] by blast
  have "bundle_fields_ok E s (b\<lparr>br_entries := Some ys\<rparr>) = bundle_fields_ok E s b"
    using assms(2,4) by (simp add: bundle_fields_ok_def bundle_times_ok_def)
  moreover have "bundle_version_ok (b\<lparr>br_entries := Some ys\<rparr>) = bundle_version_ok b" by (simp add: bundle_version_ok_def)
  ultimately show ?thesis using assms(1,2) s v
    by (auto simp: checkedBundle_def Let_def elim!: bindE_Inr_cases split: if_splits)
qed

lemma export_bundle_Inr:
  assumes "export_bundle E r scope = Inr c"
  obtains s ia es t where "mapE (export_entry E) (bundle_entries r) = Inr es"
    "checkedBundle E (wire_bundle r s ia es) = Inr (wire_bundle r s ia es)" "buildRoster E EVM_NAMESPACE es = Inr t"
    "rt_root t = lower (br_root r)" "c = (wire_bundle r s ia es)\<lparr>br_entries := Some (wire_entries (rt_entries t))\<rparr>"
proof -
  obtain s ia es b t where x: "mapE (export_entry E) (bundle_entries r) = Inr es"
    "checkedBundle E (wire_bundle r s ia es) = Inr b" "buildRoster E EVM_NAMESPACE (bundle_entries b) = Inr t"
    "rt_root t = br_root b" "c = b\<lparr>br_entries := Some (wire_entries (rt_entries t))\<rparr>"
    using assms by (auto simp: export_bundle_def elim!: bindE_Inr_cases split: if_splits)
  have b: "b = wire_bundle r s ia es" by (rule checkedBundle_id [OF x(2)])
  have "bundle_entries b = es" "br_root b = lower (br_root r)" by (simp_all add: b wire_bundle_def bundle_entries_wire)
  with x b that show ?thesis by auto
qed

text \<open>
  C5: What \<open>exportRosterBundle\<close> writes, \<open>loadRosterBundle\<close> reads back under the pin it returned,
  provided that the JSON text parses back to the value written and that the pin is a hash in
  lower-case hex: the loaded tree has the exported root and, in key order, the exported entries.
\<close>

theorem bundle_roundtrip:
  assumes "exportRosterBundle E L r scope = Inr (bytes, pin)" "export_bundle E r scope = Inr c"
    and "bl_parse L (bl_stringify L c @ [char_of (10 :: nat)]) = Some c" "sha_hex pin"
  shows "\<exists>B es. loadRosterBundle E L bytes pin = Inr B \<and> lb_bundle B = c \<and> mapE (export_entry E) (bundle_entries r) = Inr es \<and>
    mset (bundle_entries c) = mset es \<and> rt_root (lb_tree B) = lower (br_root r) \<and> rt_entries (lb_tree B) = bundle_entries c"
proof -
  obtain s ia es t where x: "mapE (export_entry E) (bundle_entries r) = Inr es"
    "checkedBundle E (wire_bundle r s ia es) = Inr (wire_bundle r s ia es)" "buildRoster E EVM_NAMESPACE es = Inr t"
    "rt_root t = lower (br_root r)" "c = (wire_bundle r s ia es)\<lparr>br_entries := Some (wire_entries (rt_entries t))\<rparr>"
    using export_bundle_Inr [OF assms(2)] .
  have bytes: "bytes = bl_stringify L c @ [char_of (10 :: nat)]" "int (length bytes) \<le> MAX_BUNDLE_BYTES" "pin = bl_sha256 L bytes"
    using assms(1,2) by (auto simp: exportRosterBundle_def Let_def split: if_splits)
  have perm: "mset (rt_entries t) = mset es" by (rule rt_entries_perm(1) [OF x(3)])
  have "set (wire_entries (rt_entries t)) = set (wire_entries es)" "length (wire_entries (rt_entries t)) = length (wire_entries es)"
    using mset_eq_setD [OF perm] mset_eq_length [OF perm] by (simp_all add: wire_entries_def)
  then have "checkedBundle E c = Inr c" unfolding x(5) by (intro checkedBundle_reorder [OF x(2)]) (simp_all add: wire_bundle_def)
  moreover have ce: "bundle_entries c = rt_entries t" by (rule bundle_entries_wire) (simp add: x(5))
  moreover have "buildRoster E EVM_NAMESPACE (rt_entries t) = Inr t" by (rule buildRoster_sorted [OF x(3)])
  moreover have "br_root c = rt_root t" using x(4,5) by (simp add: wire_bundle_def)
  ultimately have "loadRosterBundle E L bytes pin = Inr \<lparr>lb_hash = pin, lb_bundle = c, lb_tree = t\<rparr>"
    using assms(3,4) bytes by (simp add: load_Inr)
  then show ?thesis using x(1,4) perm ce
    by (intro exI [of _ "\<lparr>lb_hash = pin, lb_bundle = c, lb_tree = t\<rparr>"] exI [of _ es]) simp
qed

subsection \<open>An empty bundle for the witnesses\<close>

definition run_ethers :: ethers where
  "run_ethers = \<lparr>e_keccak = (\<lambda>_. hex32 5), e_abi = (\<lambda>_. hex32 7), e_bytes32 = is_bytes32, e_data = (\<lambda>_. True), e_getAddress = Some\<rparr>"

lemma run_ethers_ok: "ethers_ok run_ethers"
  by (simp add: ethers_ok_def run_ethers_def hex32_canonical bytes_only_def)

definition run_record :: bundle_record where
  "run_record = \<lparr>br_rosterFormatVersion = Some (JInt 2), br_epochSchemaVersion = Some (JInt 2), br_rosterAuthVersion = Some (JInt 1),
     br_epoch = JInt 1, br_root = hex32 5, br_listVersion = JInt 0, br_sourceCutoff = JInt 1000, br_publishedAt = JInt 1001,
     br_validUntil = JInt 2000, br_snapshotId = hex32 5, br_approvedIssuers = Some [''i''], br_entries = Some []\<rparr>"

definition run_scope :: roster_scope where
  "run_scope = \<lparr>sc_sourceChainId = JInt 1, sc_sourceChainKey = JInt 1, sc_hubChainId = JInt 2, sc_source = ''s'', sc_asc = ''a'', sc_registry = ''r''\<rparr>"

definition run_bundle :: roster_bundle where
  "run_bundle = wire_bundle run_record run_scope [''i''] []"

definition run_lib :: bundle_lib where
  "run_lib = \<lparr>bl_sha256 = (\<lambda>_. replicate 64 CHR ''a''), bl_parse = (\<lambda>_. Some run_bundle), bl_stringify = (\<lambda>_. ''{}'')\<rparr>"

lemma run_hex [simp]: "is_bytes32 (hex32 5)" "lower (hex32 5) = hex32 5" "hex32 5 \<noteq> ZeroHash" "hex32 7 \<noteq> MIN_KEY" "hex32 7 \<noteq> MAX_KEY"
proof -
  have zero: "ZeroHash = hex32 0" using sentinel_hex32(1) by (simp only: MIN_KEY_def ZeroHash_def)
  show "hex32 5 \<noteq> ZeroHash" "hex32 7 \<noteq> MIN_KEY" "hex32 7 \<noteq> MAX_KEY"
    using hex32_inj [of 5 0] hex32_inj [of 7 0] hex32_inj [of 7 "2 ^ 256 - 1"] by (auto simp: zero sentinel_hex32)
qed (simp_all add: hex32_canonical)

lemma run_tree:
  obtains t where "buildRoster run_ethers EVM_NAMESPACE [] = Inr t" "rt_root t = hex32 5" "rt_entries t = []"
proof -
  have "\<exists>t. buildRoster run_ethers EVM_NAMESPACE [] = Inr t" by (simp add: buildRoster_iff [OF run_ethers_ok] max_safe_def)
  then obtain t where t: "buildRoster run_ethers EVM_NAMESPACE [] = Inr t" by blast
  have "rt_root t = hex32 5" using t by (auto simp: buildRoster_Inr run_ethers_def dest!: rosterRoot_Inr)
  then show ?thesis using that t rt_entries_perm(1) [OF t] by simp
qed

lemma run_checked: "checkedBundle run_ethers run_bundle = Inr run_bundle"
  by (simp add: checkedBundle_def run_bundle_def wire_bundle_def run_record_def run_scope_def bundle_version_ok_def assertRosterRecordVersion_def
      ROSTER_FORMAT_VERSION_def exactKeys_def requireE_def bundle_fields_ok_def bundle_times_ok_def bundle_uint_def is_safe_def max_safe_def
      bundle_digest_def bundle_address_def run_ethers_def ZeroAddress_def MAX_BUNDLE_ENTRIES_def wire_entries_def Let_def)
    (simp add: bundle_keys_def scope_keys_def)

lemma run_load:
  obtains B where "loadRosterBundle run_ethers run_lib ''{}'' (replicate 64 CHR ''a'') = Inr B" "lb_bundle B = run_bundle"
proof -
  obtain t where t: "buildRoster run_ethers EVM_NAMESPACE [] = Inr t" "rt_root t = hex32 5" by (rule run_tree)
  have "bundle_entries run_bundle = []" by (rule bundle_entries_wire) (simp add: run_bundle_def wire_bundle_def)
  then have "loadRosterBundle run_ethers run_lib ''{}'' (replicate 64 CHR ''a'') =
      Inr \<lparr>lb_hash = replicate 64 CHR ''a'', lb_bundle = run_bundle, lb_tree = t\<rparr>"
    using t run_checked by (simp add: load_Inr run_lib_def MAX_BUNDLE_BYTES_def sha_hex_def hex_digit_def lower_char_def list_all_length)
      (simp add: run_bundle_def wire_bundle_def run_record_def)
  then show ?thesis using that by simp
qed

theorem bundle_decides_witness:
  "\<exists>B p. loadRosterBundle run_ethers run_lib ''{}'' (replicate 64 CHR ''a'') = Inr B \<and>
     bundle_prove run_ethers B ''x'' = Inr (Absent ''x'' p) \<and>
     verifyNonInclusion run_ethers EVM_NAMESPACE (rt_root (lb_tree B)) ''x'' p = Inr True"
proof -
  obtain B where B: "loadRosterBundle run_ethers run_lib ''{}'' (replicate 64 CHR ''a'') = Inr B" "lb_bundle B = run_bundle" by (rule run_load)
  have none: "bundle_entries (lb_bundle B) = []" by (rule bundle_entries_wire) (simp add: B(2) run_bundle_def wire_bundle_def)
  have k: "subjectKey run_ethers EVM_NAMESPACE ''x'' = Inr (hex32 7)" by (simp add: subjectKey_def get_address_def run_ethers_def)
  have "e_getAddress run_ethers ''x'' = Some ''x''" "''x'' \<noteq> ZeroAddress" "hex32 7 \<notin> {MIN_KEY, MAX_KEY}"
    by (simp_all add: run_ethers_def ZeroAddress_def)
  with bundle_decides [OF run_ethers_ok B(1) _ _ _ k] none
  have "case bundle_prove run_ethers B ''x'' of Inl e \<Rightarrow> False | Inr (Present n e p) \<Rightarrow> False
    | Inr (Absent n p) \<Rightarrow> n = ''x'' \<and> verifyNonInclusion run_ethers EVM_NAMESPACE (rt_root (lb_tree B)) ''x'' p = Inr True"
    by (force split: sum.splits bundle_proof.splits)
  then show ?thesis using B(1) by (auto split: sum.splits bundle_proof.splits)
qed

theorem bundle_roundtrip_witness:
  "\<exists>bytes B. exportRosterBundle run_ethers run_lib run_record run_scope = Inr (bytes, replicate 64 CHR ''a'') \<and>
     loadRosterBundle run_ethers run_lib bytes (replicate 64 CHR ''a'') = Inr B \<and> lb_bundle B = run_bundle"
proof -
  obtain t where t: "buildRoster run_ethers EVM_NAMESPACE [] = Inr t" "rt_root t = hex32 5" "rt_entries t = []" by (rule run_tree)
  have none: "bundle_entries run_bundle = []" by (rule bundle_entries_wire) (simp add: run_bundle_def wire_bundle_def)
  have c: "export_bundle run_ethers run_record run_scope = Inr run_bundle"
    using t none run_checked
    by (simp add: export_bundle_def export_scope_def run_scope_def run_record_def bundle_entries_def get_address_def run_ethers_def)
      (simp add: run_bundle_def wire_bundle_def run_record_def run_scope_def wire_entries_def)
  have e: "exportRosterBundle run_ethers run_lib run_record run_scope = Inr (''{}'' @ [char_of (10 :: nat)], replicate 64 CHR ''a'')"
    using c by (simp add: exportRosterBundle_def Let_def run_lib_def MAX_BUNDLE_BYTES_def)
  have "bl_parse run_lib (bl_stringify run_lib run_bundle @ [char_of (10 :: nat)]) = Some run_bundle" "sha_hex (replicate 64 CHR ''a'')"
    by (simp_all add: run_lib_def sha_hex_def hex_digit_def lower_char_def list_all_length)
  from bundle_roundtrip [OF e c this] e show ?thesis by blast
qed

end
