(* ===== verification/Audit_Evidence.thy ===== *)
theory Audit_Evidence
  imports Evidence Merkle Attrs
begin

text \<open>
  The authorized export of retained evidence, \<open>pipeline/audit-evidence.ts\<close>: grants, institution
  receipts, the on-chain observation, the payload and its verification. What comes from outside is
  untyped JSON, read property by property as the code reads it; reading a property of what is no
  object gives undefined. Recovering the signer of a message is the parameter \<open>audit_lib\<close>.
\<close>

subsection \<open>Reading values\<close>

datatype audit_error = Audit string | Audit_Thrown string

type_synonym 'a audit = "audit_error + 'a"

definition audit_require :: "string \<Rightarrow> bool \<Rightarrow> unit audit" where
  "audit_require code ok = requireE (Audit code) ok"

fun thrown :: "'e + 'a \<Rightarrow> 'a audit" where
  "thrown (Inl e) = Inl (Audit_Thrown ''thrown'')"
| "thrown (Inr x) = Inr x"

fun jget :: "json \<Rightarrow> string \<Rightarrow> json" where
  "jget (JsObj kvs) k = (case map_of kvs k of None \<Rightarrow> JsUndefined | Some v \<Rightarrow> v)"
| "jget _ k = JsUndefined"

fun jstr :: "json \<Rightarrow> string option" where
  "jstr (JsStr s) = Some s"
| "jstr _ = None"

fun is_object :: "json \<Rightarrow> bool" where
  "is_object (JsObj kvs) = True"
| "is_object JsDate = True"
| "is_object _ = False"

fun truthy :: "json \<Rightarrow> bool" where
  "truthy (JsBool b) = b"
| "truthy (JsInt n) = (n \<noteq> 0)"
| "truthy (JsStr s) = (s \<noteq> [])"
| "truthy JsUndefined = False"
| "truthy JsNull = False"
| "truthy _ = True"

fun timestamp :: "json \<Rightarrow> bool" where
  "timestamp (JsInt n) = (is_safe n \<and> 0 \<le> n)"
| "timestamp _ = False"

fun int_of :: "json \<Rightarrow> int" where
  "int_of (JsInt n) = n"
| "int_of _ = 0"

text \<open>\<open>String(v)\<close> where \<open>HEX32\<close> may accept it: an array of one element reads as its element.\<close>

fun hex_text :: "json \<Rightarrow> string" where
  "hex_text (JsStr s) = s"
| "hex_text (JsArr [x]) = hex_text x"
| "hex_text _ = []"

definition hex_test :: "json \<Rightarrow> bool" where
  "hex_test v \<longleftrightarrow> is_bytes32 (hex_text v)"

definition sameHex :: "json \<Rightarrow> json \<Rightarrow> bool" where
  "sameHex a b \<longleftrightarrow> (case jstr a of None \<Rightarrow> False | Some x \<Rightarrow> (case jstr b of None \<Rightarrow> False | Some y \<Rightarrow> same x y))"

definition alnum :: "char \<Rightarrow> bool" where
  "alnum c = (let n = (of_char c :: nat) in (48 \<le> n \<and> n \<le> 57) \<or> (65 \<le> n \<and> n \<le> 90) \<or> (97 \<le> n \<and> n \<le> 122))"

text \<open>\<open>/^[A-Za-z0-9][A-Za-z0-9._:/#-]{2,255}$/\<close>\<close>

definition identifier_text :: "string \<Rightarrow> bool" where
  "identifier_text s \<longleftrightarrow> 3 \<le> length s \<and> length s \<le> 256 \<and> alnum (hd s) \<and> list_all (\<lambda>c. alnum c \<or> c \<in> set ''._:/#-'') (tl s)"

definition audit_identifier :: "json \<Rightarrow> bool" where
  "audit_identifier v \<longleftrightarrow> (case jstr v of None \<Rightarrow> False | Some s \<Rightarrow> identifier_text s)"

definition audit_address :: "ethers \<Rightarrow> json \<Rightarrow> bool" where
  "audit_address E v \<longleftrightarrow> (case jstr v of None \<Rightarrow> False | Some s \<Rightarrow> e_getAddress E s \<noteq> None)"

definition fingerprint64 :: "json \<Rightarrow> bool" where
  "fingerprint64 v \<longleftrightarrow> (case jstr v of None \<Rightarrow> False | Some s \<Rightarrow> length s = 64 \<and> list_all (\<lambda>c. hex_digit c \<and> lower_char c = c) s)"

definition domainDigest :: "ethers \<Rightarrow> string \<Rightarrow> json \<Rightarrow> hex audit" where
  "domainDigest E domain payload = bindE (thrown (canonicalJson payload)) (\<lambda>t. Inr (e_keccak E [Utf8 (domain @ char_of (0 :: nat) # t)]))"

subsection \<open>Signatures, grants and receipts\<close>

record audit_lib =
  al_verifyMessage :: "hex \<Rightarrow> string \<Rightarrow> string option"

record audit_trust =
  at_authorizers :: "(string \<times> string) list"
  at_receiptSigners :: "(string \<times> string) list"
  at_exporters :: "(string \<times> string) list"

definition pinned :: "(string \<times> string) list \<Rightarrow> json \<Rightarrow> string option" where
  "pinned m k = (case jstr k of None \<Rightarrow> None | Some s \<Rightarrow> map_of m s)"

definition signature_ok :: "ethers \<Rightarrow> audit_lib \<Rightarrow> hex \<Rightarrow> json \<Rightarrow> string option \<Rightarrow> bool" where
  "signature_ok E V digest sig expected \<longleftrightarrow>
     jget sig ''algorithm'' = JsStr ''ES256K-EIP191'' \<and> audit_identifier (jget sig ''keyId'') \<and>
     (case jstr (jget sig ''value'') of None \<Rightarrow> False | Some v \<Rightarrow>
      case expected of None \<Rightarrow> False | Some a \<Rightarrow> e_getAddress E a \<noteq> None \<and>
        (case al_verifyMessage V digest v of None \<Rightarrow> False | Some r \<Rightarrow> same r a))"

definition verifySignature :: "ethers \<Rightarrow> audit_lib \<Rightarrow> hex \<Rightarrow> json \<Rightarrow> string option \<Rightarrow> string \<Rightarrow> unit audit" where
  "verifySignature E V digest sig expected code = audit_require code (signature_ok E V digest sig expected)"

fun claim_keys :: "json \<Rightarrow> string list option" where
  "claim_keys (JsArr ks) = (if list_all audit_identifier ks then Some (map hex_text ks) else None)"
| "claim_keys _ = None"

definition grant_fields_ok :: "json \<Rightarrow> int \<Rightarrow> bool" where
  "grant_fields_ok p at \<longleftrightarrow> jget p ''schema'' = JsStr ''proofmark-audit-grant-v1'' \<and>
     list_all (\<lambda>k. audit_identifier (jget p k)) [''grantId'', ''auditorId'', ''customerId'', ''purposeRef'', ''authorizationRef''] \<and>
     hex_test (jget p ''recordId'') \<and> timestamp (jget p ''issuedAt'') \<and> timestamp (jget p ''expiresAt'') \<and>
     int_of (jget p ''issuedAt'') < int_of (jget p ''expiresAt'') \<and>
     (case claim_keys (jget p ''claimKeys'') of None \<Rightarrow> False | Some ks \<Rightarrow> distinct ks) \<and> is_safe at \<and> 0 \<le> at"

definition validateGrant :: "ethers \<Rightarrow> audit_lib \<Rightarrow> json \<Rightarrow> audit_trust \<Rightarrow> int \<Rightarrow> unit audit" where
  "validateGrant E V grant T at = (let p = jget grant ''payload'' in
     bindE (audit_require ''AUDIT_GRANT_INVALID'' (grant_fields_ok p at)) (\<lambda>_.
     bindE (domainDigest E ''proofmark-audit-grant-v1'' p) (\<lambda>digest.
     bindE (verifySignature E V digest (jget grant ''signature'') (pinned (at_authorizers T) (jget (jget grant ''signature'') ''keyId''))
       ''AUDIT_GRANT_UNAUTHENTICATED'') (\<lambda>_.
     audit_require ''AUDIT_GRANT_EXPIRED'' (int_of (jget p ''issuedAt'') \<le> at \<and> at < int_of (jget p ''expiresAt''))))))"

definition receiptTrustKey :: "json \<Rightarrow> string" where
  "receiptTrustKey r = (let p = jget r ''payload'' in
     hex_text (jget p ''providerId'') @ ''|'' @ hex_text (jget p ''productId'') @ ''|'' @ hex_text (jget p ''environment'') @ ''|'' @
     hex_text (jget (jget r ''signature'') ''keyId''))"

definition receipt_fields_ok :: "json \<Rightarrow> bool" where
  "receipt_fields_ok p \<longleftrightarrow> jget p ''schema'' = JsStr ''proofmark-institution-receipt-v1'' \<and>
     jget p ''axis'' \<in> {JsStr ''id-document'', JsStr ''bank-account''} \<and> hex_test (jget p ''recordId'') \<and>
     list_all (\<lambda>k. audit_identifier (jget p k)) [''providerId'', ''productId'', ''providerReference'', ''resultCode''] \<and>
     jget p ''environment'' \<in> {JsStr ''production'', JsStr ''sandbox'', JsStr ''demo''} \<and>
     jget p ''outcome'' \<in> {JsStr ''passed'', JsStr ''failed''} \<and> timestamp (jget p ''checkedAt'') \<and> hex_test (jget p ''axisEvidenceDigest'')"

definition validateReceiptSignature :: "ethers \<Rightarrow> audit_lib \<Rightarrow> json \<Rightarrow> audit_trust \<Rightarrow> unit audit" where
  "validateReceiptSignature E V r T = (let p = jget r ''payload'' in
     bindE (audit_require ''VENDOR_RECEIPT_UNAUTHENTICATED'' (receipt_fields_ok p)) (\<lambda>_.
     bindE (domainDigest E ''proofmark-institution-receipt-v1'' p) (\<lambda>digest.
     verifySignature E V digest (jget r ''signature'') (map_of (at_receiptSigners T) (receiptTrustKey r)) ''VENDOR_RECEIPT_UNAUTHENTICATED'')))"

subsection \<open>Retained evidence\<close>

definition step_ok :: "json \<Rightarrow> bool" where
  "step_ok s \<longleftrightarrow> is_object s \<and> audit_identifier (jget s ''step'') \<and> timestamp (jget s ''at'') \<and> is_object (jget s ''payload'')"

fun evidenceSteps :: "json \<Rightarrow> json list audit" where
  "evidenceSteps (JsArr xs) = (if xs \<noteq> [] \<and> list_all step_ok xs then Inr xs else Inl (Audit ''RETAINED_EVIDENCE_INVALID''))"
| "evidenceSteps _ = Inl (Audit ''RETAINED_EVIDENCE_INVALID'')"

text \<open>\<open>EvidenceChain.recompute\<close> of steps that may carry further properties.\<close>

fun recompute_json :: "ethers \<Rightarrow> hex \<Rightarrow> json list \<Rightarrow> hex audit" where
  "recompute_json E h [] = Inr h"
| "recompute_json E h (s # ss) = bindE (thrown (canonicalJson s)) (\<lambda>t. recompute_json E (e_keccak E [Bytes32 h, Utf8 t]) ss)"

definition oneStep :: "json list \<Rightarrow> string \<Rightarrow> json audit" where
  "oneStep steps name = (case filter (\<lambda>s. jget s ''step'' = JsStr name) steps of
     [s] \<Rightarrow> Inr s | _ \<Rightarrow> Inl (Audit ''RETAINED_EVIDENCE_INVALID''))"

definition step_payload :: "json list \<Rightarrow> string \<Rightarrow> json audit" where
  "step_payload steps name = bindE (oneStep steps name) (\<lambda>s. Inr (jget s ''payload''))"

definition axisFromEvidence :: "json list \<Rightarrow> string \<Rightarrow> json audit" where
  "axisFromEvidence steps axis = bindE (step_payload steps ''jurisdiction_adapter'') (\<lambda>adapter.
     let v = jget adapter (if axis = ''id-document'' then ''idDocument'' else ''bankAccount'') in
     bindE (audit_require ''VENDOR_RECEIPT_MISMATCH'' (is_object v)) (\<lambda>_. Inr v))"

definition method_in :: "nat \<Rightarrow> mark_attrs_input \<Rightarrow> bool" where
  "method_in n a \<longleftrightarrow> (word_of_int (js_val (ai_methods a)) AND push_bit n 1) \<noteq> (0 :: 32 word)"

definition audit_attrs :: "json \<Rightarrow> mark_attrs_input audit" where
  "audit_attrs attrs = (case jstr attrs of None \<Rightarrow> Inl (Audit ''RETAINED_EVIDENCE_INVALID'')
     | Some s \<Rightarrow> (case unpackAttrs s of Inl e \<Rightarrow> Inl (Audit ''RETAINED_EVIDENCE_INVALID'') | Inr a \<Rightarrow> Inr a))"

definition requiredReceiptAxes :: "mark_attrs_input \<Rightarrow> string list" where
  "requiredReceiptAxes a = (if method_in 2 a then [''id-document''] else []) @ (if method_in 5 a then [''bank-account''] else [])"

subsection \<open>Receipts against the evidence\<close>

definition receipt_axis :: "json \<Rightarrow> json" where
  "receipt_axis r = jget (jget r ''payload'') ''axis''"

fun receipts_signed :: "ethers \<Rightarrow> audit_lib \<Rightarrow> audit_trust \<Rightarrow> int \<Rightarrow> json list \<Rightarrow> json list \<Rightarrow> unit audit" where
  "receipts_signed E V T at [] seen = Inr ()"
| "receipts_signed E V T at (r # rs) seen =
     bindE (validateReceiptSignature E V r T) (\<lambda>_.
     if at < int_of (jget (jget r ''payload'') ''checkedAt'') then Inl (Audit ''VENDOR_RECEIPT_MISMATCH'')
     else if receipt_axis r \<in> set seen then Inl (Audit ''VENDOR_RECEIPT_MISMATCH'')
     else receipts_signed E V T at rs (receipt_axis r # seen))"

definition receipt_matches :: "json \<Rightarrow> json \<Rightarrow> json \<Rightarrow> hex \<Rightarrow> bool \<Rightarrow> string \<Rightarrow> bool" where
  "receipt_matches p axis recordId digest expectedLive axisName \<longleftrightarrow>
     sameHex (jget p ''recordId'') recordId \<and> jget p ''outcome'' = JsStr ''passed'' \<and>
     jget p ''providerId'' = jget axis ''vendor'' \<and> jget p ''providerReference'' = jget axis ''ref'' \<and>
     sameHex (jget p ''axisEvidenceDigest'') (JsStr digest) \<and> jget axis ''live'' = JsBool expectedLive \<and>
     (\<not> expectedLive \<or> jget p ''environment'' = JsStr ''production'') \<and>
     (axisName = ''id-document'' \<longrightarrow> jget axis ''authenticityChecked'' = JsBool True \<and> jget axis ''authentic'' = JsBool True \<and>
        (jget axis ''code'' \<in> {JsNull, JsUndefined} \<or> jget p ''resultCode'' = jget axis ''code'')) \<and>
     (axisName = ''bank-account'' \<longrightarrow> jget axis ''holderVerified'' = JsBool True \<and> jget axis ''oneWonVerified'' = JsBool True)"

definition check_receipt :: "ethers \<Rightarrow> json list \<Rightarrow> json list \<Rightarrow> json \<Rightarrow> bool \<Rightarrow> string \<Rightarrow> unit audit" where
  "check_receipt E rs steps recordId expectedLive axisName =
     (case List.find (\<lambda>r. receipt_axis r = JsStr axisName) rs of None \<Rightarrow> Inl (Audit ''VENDOR_RECEIPT_UNAUTHENTICATED'')
      | Some r \<Rightarrow> bindE (axisFromEvidence steps axisName) (\<lambda>axis.
          bindE (domainDigest E ''proofmark-institution-axis-v1'' axis) (\<lambda>digest.
          audit_require ''VENDOR_RECEIPT_MISMATCH'' (receipt_matches (jget r ''payload'') axis recordId digest expectedLive axisName))))"

fun validateReceipts :: "ethers \<Rightarrow> audit_lib \<Rightarrow> json \<Rightarrow> json list \<Rightarrow> json \<Rightarrow> json \<Rightarrow> audit_trust \<Rightarrow> int \<Rightarrow> unit audit" where
  "validateReceipts E V (JsArr rs) steps attrs recordId T at =
     bindE (audit_attrs attrs) (\<lambda>a.
     bindE (receipts_signed E V T at rs []) (\<lambda>_.
     let required = requiredReceiptAxes a in
     if length rs \<noteq> length required \<or> \<not> list_all (\<lambda>x. JsStr x \<in> set (map receipt_axis rs)) required
     then Inl (Audit ''VENDOR_RECEIPT_UNAUTHENTICATED'')
     else bindE (mapE (check_receipt E rs steps recordId (js_val (ai_regime a) = 1)) required) (\<lambda>_. Inr ())))"
| "validateReceipts E V _ steps attrs recordId T at = Inl (Audit ''VENDOR_RECEIPT_UNAUTHENTICATED'')"

subsection \<open>The on-chain observation\<close>

definition observation_fields_ok :: "ethers \<Rightarrow> json \<Rightarrow> bool" where
  "observation_fields_ok E ob \<longleftrightarrow> jget ob ''schema'' = JsStr ''proofmark-onchain-commitment-observation-v1'' \<and>
     timestamp (jget ob ''observedAt'') \<and> timestamp (jget ob ''chainId'') \<and> 0 < int_of (jget ob ''chainId'') \<and>
     timestamp (jget ob ''blockNumber'') \<and>
     list_all (\<lambda>k. audit_address E (jget ob k)) [''source'', ''subject'', ''issuer''] \<and>
     list_all (\<lambda>k. hex_test (jget ob k)) [''transactionHash'', ''blockHash'', ''requestId'', ''attrs'', ''claimsRoot'', ''evidenceHash'']"

definition observation_matches :: "json \<Rightarrow> json \<Rightarrow> bool" where
  "observation_matches ob l \<longleftrightarrow> jget ob ''chainId'' = jget l ''sourceChainId'' \<and> jget ob ''blockNumber'' = jget l ''sourceBlockNumber'' \<and>
     list_all (\<lambda>(a, b). sameHex (jget ob a) (jget l b)) [(''source'', ''sourceContract''), (''transactionHash'', ''sourceTransactionHash''),
       (''blockHash'', ''sourceBlockHash''), (''requestId'', ''requestId''), (''subject'', ''subject''), (''issuer'', ''issuer''),
       (''attrs'', ''attrs''), (''claimsRoot'', ''claimsRoot''), (''evidenceHash'', ''evidenceHash'')]"

definition validateOnchain :: "ethers \<Rightarrow> json \<Rightarrow> json \<Rightarrow> unit audit" where
  "validateOnchain E ob l = audit_require ''ONCHAIN_COMMITMENT_MISMATCH'' (observation_fields_ok E ob \<and> observation_matches ob l)"

subsection \<open>Versions and the credential\<close>

definition ATTRS_SCHEMA_VERSION :: int where "ATTRS_SCHEMA_VERSION = 0"

fun list_versions_ok :: "json \<Rightarrow> bool" where
  "list_versions_ok (JsObj kvs) = list_all (\<lambda>(k, v). identifier_text k \<and> timestamp v) kvs"
| "list_versions_ok _ = True"

definition versions_ok :: "json \<Rightarrow> json \<Rightarrow> json \<Rightarrow> json \<Rightarrow> json \<Rightarrow> bool" where
  "versions_ok processing retention aml policy amlEvidence \<longleftrightarrow>
     jget processing ''schema'' = JsStr ''proofmark-processing-policy-evidence-v1'' \<and> audit_identifier (jget processing ''policyId'') \<and>
     fingerprint64 (jget processing ''fingerprint'') \<and> hex_test (jget processing ''consentStatementHash'') \<and>
     audit_identifier (jget policy ''policyId'') \<and> jget retention ''schema'' = JsStr ''proofmark-retention-policy-binding-v1'' \<and>
     audit_identifier (jget retention ''policyId'') \<and> audit_identifier (jget retention ''customerId'') \<and>
     jget retention ''customerId'' = jget processing ''customerId'' \<and> fingerprint64 (jget retention ''fingerprint'') \<and>
     audit_identifier (jget aml ''engineVersion'') \<and> is_object (jget aml ''listVersions'') \<and> list_versions_ok (jget aml ''listVersions'') \<and>
     (jget amlEvidence ''keyId'' = JsUndefined \<or> audit_identifier (jget amlEvidence ''keyId''))"

definition versionsFrom :: "json list \<Rightarrow> json audit" where
  "versionsFrom steps =
     bindE (step_payload steps ''processing_policy'') (\<lambda>processing.
     bindE (step_payload steps ''retention_policy'') (\<lambda>retention.
     bindE (step_payload steps ''aml'') (\<lambda>aml.
     bindE (step_payload steps ''identity_policy'') (\<lambda>policy.
     let amlEvidence = (if is_object (jget aml ''evidence'') then jget aml ''evidence'' else JsObj []);
         keyId = jget amlEvidence ''keyId'' in
     bindE (audit_require ''RETAINED_EVIDENCE_INVALID'' (versions_ok processing retention aml policy amlEvidence)) (\<lambda>_.
     Inr (JsObj [(''evidenceChain'', JsStr ''proofmark-evidence-chain-v1''), (''claimCommitment'', JsStr ''proofmark-claims-merkle-v1''),
       (''attrsSchema'', JsInt ATTRS_SCHEMA_VERSION), (''amlEngine'', jget aml ''engineVersion''), (''amlLists'', jget aml ''listVersions''),
       (''evidenceHmacKeyId'', if jstr keyId = None then JsNull else keyId), (''processingPolicyId'', jget processing ''policyId''),
       (''processingPolicyFingerprint'', jget processing ''fingerprint''), (''identityPolicyId'', jget policy ''policyId''),
       (''retentionPolicyId'', jget retention ''policyId''), (''retentionPolicyFingerprint'', jget retention ''fingerprint'')]))))))"

text \<open>The ABI hash of the eight fields; the encoder throws on what is no such value.\<close>

definition credentialId :: "ethers \<Rightarrow> json \<Rightarrow> json audit" where
  "credentialId E l = (if timestamp (jget l ''sourceChainId'') \<and>
       list_all (\<lambda>k. audit_address E (jget l k)) [''sourceContract'', ''subject'', ''issuer''] \<and>
       list_all (\<lambda>k. case jstr (jget l k) of None \<Rightarrow> False | Some s \<Rightarrow> e_bytes32 E s) [''requestId'', ''attrs'', ''claimsRoot'', ''evidenceHash'']
     then Inr (JsStr (e_abi E [AbiUint256 (int_of (jget l ''sourceChainId'')), AbiAddress (hex_text (jget l ''sourceContract'')),
       AbiBytes32 (hex_text (jget l ''requestId'')), AbiAddress (hex_text (jget l ''subject'')), AbiAddress (hex_text (jget l ''issuer'')),
       AbiBytes32 (hex_text (jget l ''attrs'')), AbiBytes32 (hex_text (jget l ''claimsRoot'')), AbiBytes32 (hex_text (jget l ''evidenceHash''))]))
     else Inl (Audit_Thrown ''invalid argument''))"

subsection \<open>The payload\<close>

definition limitations_json :: json where
  "limitations_json = JsObj [(''originalInstitutionResponseRetained'', JsBool False), (''hmacKeyHolderCanReidentifyCandidates'', JsBool True),
     (''transferResponsibility'', JsStr ''customer-controlled-authorized-export''),
     (''receiptMeaning'', JsStr ''signature-and-linkage-verified-not-legal-conclusion'')]"

fun jlist :: "json \<Rightarrow> json list option" where
  "jlist (JsArr xs) = Some xs"
| "jlist _ = None"

definition export_id :: "ethers \<Rightarrow> json \<Rightarrow> json \<Rightarrow> json \<Rightarrow> json \<Rightarrow> hex audit" where
  "export_id E grantId recordId generatedAt evidenceHash = domainDigest E ''proofmark-audit-export-id-v1''
     (JsObj [(''grantId'', grantId), (''recordId'', recordId), (''generatedAt'', generatedAt), (''evidenceHash'', evidenceHash)])"

definition same_text :: "string \<Rightarrow> json \<Rightarrow> json \<Rightarrow> unit audit" where
  "same_text code a b = bindE (thrown (canonicalJson a)) (\<lambda>x. bindE (thrown (canonicalJson b)) (\<lambda>y. audit_require code (x = y)))"

definition disclosure_claim :: "json \<Rightarrow> claim option" where
  "disclosure_claim c = (case (jstr (jget c ''key''), jstr (jget c ''value''), jstr (jget c ''salt'')) of
     (Some k, Some v, Some s) \<Rightarrow> Some \<lparr>cl_key = k, cl_value = v, cl_salt = s\<rparr> | _ \<Rightarrow> None)"

definition check_disclosure :: "ethers \<Rightarrow> json \<Rightarrow> json \<Rightarrow> unit audit" where
  "check_disclosure E root d = (case jlist (jget d ''proof'') of None \<Rightarrow> Inl (Audit ''RETAINED_EVIDENCE_INVALID'')
     | Some ps \<Rightarrow> if \<not> is_object (jget d ''claim'') \<or> \<not> list_all (\<lambda>x. jstr x \<noteq> None \<and> hex_test x) ps then Inl (Audit ''RETAINED_EVIDENCE_INVALID'')
       else (case disclosure_claim (jget d ''claim'') of None \<Rightarrow> Inl (Audit_Thrown ''invalid argument'')
         | Some c \<Rightarrow> bindE (thrown (verifyDisclosure E (hex_text root) c (map hex_text ps))) (audit_require ''RETAINED_EVIDENCE_INVALID'')))"

definition payload_shape_ok :: "json \<Rightarrow> int \<Rightarrow> bool" where
  "payload_shape_ok p at \<longleftrightarrow> jget p ''schema'' = JsStr ''proofmark-audit-export-v1'' \<and> hex_test (jget p ''exportId'') \<and>
     timestamp (jget p ''generatedAt'') \<and> int_of (jget p ''generatedAt'') \<le> at \<and> truthy (jget p ''linkage'') \<and> truthy (jget p ''versions'') \<and>
     truthy (jget p ''onchainObservation'') \<and> jlist (jget p ''disclosures'') \<noteq> None \<and> jlist (jget p ''institutionReceipts'') \<noteq> None"

definition scope_ok :: "json \<Rightarrow> json \<Rightarrow> json list \<Rightarrow> bool" where
  "scope_ok g l ds \<longleftrightarrow> sameHex (jget g ''recordId'') (jget l ''requestId'') \<and>
     Some (map (\<lambda>d. jget (jget d ''claim'') ''key'') ds) = jlist (jget g ''claimKeys'')"

definition commitment_ok :: "json \<Rightarrow> json \<Rightarrow> json \<Rightarrow> bool" where
  "commitment_ok commit issue l \<longleftrightarrow> sameHex (jget commit ''claimsRoot'') (jget l ''claimsRoot'') \<and>
     (case jget commit ''claimCount'' of JsInt n \<Rightarrow> is_safe n | _ \<Rightarrow> False) \<and>
     sameHex (jget issue ''attrs'') (jget l ''attrs'') \<and> sameHex (jget issue ''claimsRoot'') (jget l ''claimsRoot'')"

text \<open>The checks that do not depend on the clock of the verifier.\<close>

definition validate_contents :: "ethers \<Rightarrow> audit_lib \<Rightarrow> json \<Rightarrow> audit_trust \<Rightarrow> unit audit" where
  "validate_contents E V p T =
     (let l = jget p ''linkage''; g = jget (jget p ''grant'') ''payload''; ds = the (jlist (jget p ''disclosures'')) in
     bindE (export_id E (jget g ''grantId'') (jget l ''requestId'') (jget p ''generatedAt'') (jget l ''evidenceHash'')) (\<lambda>expected.
     bindE (audit_require ''ONCHAIN_COMMITMENT_MISMATCH'' (sameHex (jget p ''exportId'') (JsStr expected) \<and>
       \<not> (int_of (jget p ''generatedAt'') < int_of (jget (jget p ''onchainObservation'') ''observedAt'')))) (\<lambda>_.
     bindE (audit_require ''AUDIT_SCOPE_MISMATCH'' (scope_ok g l ds)) (\<lambda>_.
     bindE (evidenceSteps (jget p ''evidence'')) (\<lambda>steps.
     bindE (recompute_json E zero_head steps) (\<lambda>head.
     bindE (audit_require ''RETAINED_EVIDENCE_INVALID'' (sameHex (JsStr head) (jget l ''evidenceHash'') \<and>
       validCredentialAttrs (hex_text (jget l ''attrs'')) None)) (\<lambda>_.
     bindE (step_payload steps ''commitment'') (\<lambda>commit.
     bindE (step_payload steps ''issue'') (\<lambda>issue.
     bindE (audit_require ''RETAINED_EVIDENCE_INVALID'' (commitment_ok commit issue l)) (\<lambda>_.
     bindE (mapE (check_disclosure E (jget l ''claimsRoot'')) ds) (\<lambda>_.
     bindE (step_payload steps ''processing_policy'') (\<lambda>processing.
     bindE (audit_require ''AUDIT_SCOPE_MISMATCH'' (jget processing ''customerId'' = jget g ''customerId'' \<and>
       jget processing ''noticeVersion'' = jget l ''consentVersion'' \<and>
       sameHex (jget processing ''consentStatementHash'') (jget l ''consentStatementHash''))) (\<lambda>_.
     bindE (versionsFrom steps) (\<lambda>versions.
     bindE (same_text ''RETAINED_EVIDENCE_INVALID'' versions (jget p ''versions'')) (\<lambda>_.
     bindE (validateReceipts E V (jget p ''institutionReceipts'') steps (jget l ''attrs'') (jget l ''requestId'') T (int_of (jget p ''generatedAt''))) (\<lambda>_.
     bindE (validateOnchain E (jget p ''onchainObservation'') l) (\<lambda>_.
     bindE (credentialId E l) (\<lambda>cid.
     bindE (audit_require ''ONCHAIN_COMMITMENT_MISMATCH'' (sameHex (jget l ''credentialId'') cid)) (\<lambda>_.
     same_text ''RETAINED_EVIDENCE_INVALID'' (jget p ''limitations'') limitations_json)))))))))))))))))))"

definition validatePayload :: "ethers \<Rightarrow> audit_lib \<Rightarrow> json \<Rightarrow> audit_trust \<Rightarrow> int \<Rightarrow> unit audit" where
  "validatePayload E V p T at =
     bindE (audit_require ''RETAINED_EVIDENCE_INVALID'' (payload_shape_ok p at)) (\<lambda>_.
     bindE (validateGrant E V (jget p ''grant'') T at) (\<lambda>_. validate_contents E V p T))"

subsection \<open>Export\<close>

text \<open>What the export reads of a retained record.\<close>

record audit_record =
  ar_id :: string
  ar_walletAddress :: string
  ar_evidenceHash :: string
  ar_attrs :: "string option"
  ar_claimsRoot :: "string option"
  ar_claims :: json
  ar_source :: "(int \<times> string \<times> string) option"
  ar_retention :: "(string \<times> string) option"
  ar_createdAt :: js_num
  ar_consentVersion :: string
  ar_evidence :: json

definition claim_of :: "json \<Rightarrow> claim option" where
  "claim_of c = (if is_object c \<and> audit_identifier (jget c ''key'') \<and> hex_test (jget c ''salt'')
     then case jstr (jget c ''value'') of None \<Rightarrow> None
       | Some v \<Rightarrow> Some \<lparr>cl_key = hex_text (jget c ''key''), cl_value = v, cl_salt = hex_text (jget c ''salt'')\<rparr>
     else None)"

fun claimList :: "json \<Rightarrow> claim list audit" where
  "claimList (JsArr xs) = (let cs = map claim_of xs in
     if xs = [] \<or> None \<in> set cs \<or> \<not> distinct (map (\<lambda>c. cl_key (the c)) cs) then Inl (Audit ''RETAINED_EVIDENCE_INVALID'')
     else Inr (map the cs))"
| "claimList _ = Inl (Audit ''RETAINED_EVIDENCE_INVALID'')"

definition claim_json :: "claim \<Rightarrow> json" where
  "claim_json c = JsObj [(''key'', JsStr (cl_key c)), (''value'', JsStr (cl_value c)), (''salt'', JsStr (cl_salt c))]"

definition disclosure_json :: "claim \<times> hex list \<Rightarrow> json" where
  "disclosure_json d = JsObj [(''claim'', claim_json (fst d)), (''proof'', JsArr (map JsStr (snd d)))]"

definition text_present :: "string option \<Rightarrow> bool" where
  "text_present s \<longleftrightarrow> s \<noteq> None \<and> s \<noteq> Some []"

definition record_ok :: "ethers \<Rightarrow> audit_record \<Rightarrow> json \<Rightarrow> int \<Rightarrow> bool" where
  "record_ok E r g at \<longleftrightarrow> is_bytes32 (ar_id r) \<and> e_getAddress E (ar_walletAddress r) \<noteq> None \<and> is_bytes32 (ar_evidenceHash r) \<and>
     text_present (ar_attrs r) \<and> text_present (ar_claimsRoot r) \<and> truthy (ar_claims r) \<and> ar_source r \<noteq> None \<and> ar_retention r \<noteq> None \<and>
     sameHex (JsStr (ar_id r)) (jget g ''recordId'') \<and> js_safe (ar_createdAt r) \<and> 0 \<le> js_val (ar_createdAt r) \<and> js_val (ar_createdAt r) \<le> at"

definition checksum :: "ethers \<Rightarrow> string \<Rightarrow> json audit" where
  "checksum E s = (case e_getAddress E s of None \<Rightarrow> Inl (Audit_Thrown ''invalid address'') | Some a \<Rightarrow> Inr (JsStr a))"

definition checksum_json :: "ethers \<Rightarrow> json \<Rightarrow> json audit" where
  "checksum_json E v = (case jstr v of None \<Rightarrow> Inl (Audit_Thrown ''invalid address'') | Some s \<Rightarrow> checksum E s)"

definition record_scope_ok :: "audit_record \<Rightarrow> json \<Rightarrow> json \<Rightarrow> json \<Rightarrow> bool" where
  "record_scope_ok r g processing retention \<longleftrightarrow> jget processing ''customerId'' = jget g ''customerId'' \<and>
     jget processing ''noticeVersion'' = JsStr (ar_consentVersion r) \<and> hex_test (jget processing ''consentStatementHash'') \<and>
     jget retention ''policyId'' = JsStr (fst (the (ar_retention r))) \<and> jget retention ''fingerprint'' = JsStr (snd (the (ar_retention r)))"

definition linkage_of :: "audit_record \<Rightarrow> json \<Rightarrow> json \<Rightarrow> json \<Rightarrow> json \<Rightarrow> json \<Rightarrow> json \<Rightarrow> json" where
  "linkage_of r ob processing subject source issuer cid = (case the (ar_source r) of (chain, _, tx) \<Rightarrow>
     JsObj [(''requestId'', JsStr (ar_id r)), (''subject'', subject), (''sourceChainId'', JsInt chain), (''sourceContract'', source),
       (''issuer'', issuer), (''attrs'', JsStr (the (ar_attrs r))), (''claimsRoot'', JsStr (the (ar_claimsRoot r))),
       (''evidenceHash'', JsStr (ar_evidenceHash r)), (''credentialId'', cid), (''sourceTransactionHash'', JsStr tx),
       (''sourceBlockNumber'', jget ob ''blockNumber''), (''sourceBlockHash'', jget ob ''blockHash''),
       (''consentVersion'', JsStr (ar_consentVersion r)), (''consentStatementHash'', JsStr (hex_text (jget processing ''consentStatementHash'')))])"

definition make_payload :: "hex \<Rightarrow> int \<Rightarrow> json \<Rightarrow> json \<Rightarrow> json \<Rightarrow> json list \<Rightarrow> json list \<Rightarrow> json \<Rightarrow> json \<Rightarrow> json" where
  "make_payload xid at grant l versions steps ds receipts ob =
     JsObj [(''schema'', JsStr ''proofmark-audit-export-v1''), (''exportId'', JsStr xid), (''generatedAt'', JsInt at), (''grant'', grant),
       (''linkage'', l), (''versions'', versions), (''evidence'', JsArr steps), (''disclosures'', JsArr ds),
       (''institutionReceipts'', receipts), (''onchainObservation'', ob), (''limitations'', limitations_json)]"

definition prepareAuditExport :: "ethers \<Rightarrow> audit_lib \<Rightarrow> audit_record \<Rightarrow> json \<Rightarrow> json \<Rightarrow> json \<Rightarrow> audit_trust \<Rightarrow> int \<Rightarrow> json audit" where
  "prepareAuditExport E V r grant receipts ob T at =
     bindE (validateGrant E V grant T at) (\<lambda>_.
     let g = jget grant ''payload''; attrs = the (ar_attrs r); root = the (ar_claimsRoot r); keys = the (claim_keys (jget g ''claimKeys'')) in
     bindE (audit_require ''AUDIT_SCOPE_MISMATCH'' (record_ok E r g at)) (\<lambda>_.
     bindE (evidenceSteps (ar_evidence r)) (\<lambda>steps.
     bindE (recompute_json E zero_head steps) (\<lambda>head.
     bindE (audit_require ''RETAINED_EVIDENCE_INVALID'' (same head (ar_evidenceHash r))) (\<lambda>_.
     bindE (claimList (ar_claims r)) (\<lambda>claims.
     bindE (step_payload steps ''commitment'') (\<lambda>commit.
     bindE (step_payload steps ''issue'') (\<lambda>issue.
     bindE (audit_require ''RETAINED_EVIDENCE_INVALID'' (sameHex (jget commit ''claimsRoot'') (JsStr root) \<and>
       jget commit ''claimCount'' = JsInt (int (length claims)) \<and> sameHex (jget issue ''attrs'') (JsStr attrs) \<and>
       sameHex (jget issue ''claimsRoot'') (JsStr root))) (\<lambda>_.
     bindE (step_payload steps ''processing_policy'') (\<lambda>processing.
     bindE (step_payload steps ''retention_policy'') (\<lambda>retention.
     bindE (audit_require ''AUDIT_SCOPE_MISMATCH'' (record_scope_ok r g processing retention)) (\<lambda>_.
     bindE (audit_require ''AUDIT_SCOPE_MISMATCH'' (list_all (\<lambda>k. k \<in> set (map cl_key claims)) keys)) (\<lambda>_.
     bindE (validateReceipts E V receipts steps (JsStr attrs) (JsStr (ar_id r)) T at) (\<lambda>_.
     bindE (checksum E (ar_walletAddress r)) (\<lambda>subject.
     bindE (checksum E (fst (snd (the (ar_source r))))) (\<lambda>source.
     bindE (checksum_json E (jget ob ''issuer'')) (\<lambda>issuer.
     bindE (credentialId E (linkage_of r ob processing subject source issuer JsUndefined)) (\<lambda>cid.
     let l = linkage_of r ob processing subject source issuer cid in
     bindE (validateOnchain E ob l) (\<lambda>_.
     bindE (export_id E (jget g ''grantId'') (JsStr (ar_id r)) (JsInt at) (JsStr (ar_evidenceHash r))) (\<lambda>xid.
     bindE (versionsFrom steps) (\<lambda>versions.
     bindE (thrown (mapE (discloseClaim E claims) keys)) (\<lambda>ds.
     let p = make_payload xid at grant l versions steps (map disclosure_json ds) receipts ob in
     bindE (validatePayload E V p T at) (\<lambda>_. Inr p)))))))))))))))))))))))"

definition sealAuditExport :: "json \<Rightarrow> string \<Rightarrow> string \<Rightarrow> (json \<times> json) audit" where
  "sealAuditExport p keyId signature = bindE (audit_require ''EXPORT_INTEGRITY_INVALID'' (identifier_text keyId)) (\<lambda>_.
     Inr (p, JsObj [(''algorithm'', JsStr ''ES256K-EIP191''), (''keyId'', JsStr keyId), (''value'', JsStr signature)]))"

record audit_result =
  au_exportId :: json
  au_fingerprint :: hex
  au_evidenceHash :: json
  au_claimsRoot :: json
  au_receiptCount :: nat
  au_disclosureCount :: nat

definition verifyAuditExport :: "ethers \<Rightarrow> audit_lib \<Rightarrow> json \<times> json \<Rightarrow> audit_trust \<Rightarrow> json \<Rightarrow> int \<Rightarrow> audit_result audit" where
  "verifyAuditExport E V envelope T independent now = (case envelope of (p, integrity) \<Rightarrow>
     bindE (audit_require ''EXPORT_INTEGRITY_INVALID'' (truthy p \<and> truthy integrity)) (\<lambda>_.
     bindE (domainDigest E ''proofmark-audit-export-v1'' p) (\<lambda>digest.
     bindE (verifySignature E V digest integrity (pinned (at_exporters T) (jget integrity ''keyId'')) ''EXPORT_INTEGRITY_INVALID'') (\<lambda>_.
     bindE (validatePayload E V p T now) (\<lambda>_.
     bindE (validateOnchain E independent (jget p ''linkage'')) (\<lambda>_.
     bindE (same_text ''ONCHAIN_COMMITMENT_MISMATCH'' independent (jget p ''onchainObservation'')) (\<lambda>_.
     Inr \<lparr>au_exportId = jget p ''exportId'', au_fingerprint = digest, au_evidenceHash = jget (jget p ''linkage'') ''evidenceHash'',
       au_claimsRoot = jget (jget p ''linkage'') ''claimsRoot'', au_receiptCount = length (the (jlist (jget p ''institutionReceipts''))),
       au_disclosureCount = length (the (jlist (jget p ''disclosures'')))\<rparr>)))))))"

text \<open>The operational event: the fingerprint and two counts.\<close>

definition auditExportObservation :: "audit_result \<Rightarrow> hex \<times> nat \<times> nat" where
  "auditExportObservation r = (au_fingerprint r, au_receiptCount r, au_disclosureCount r)"

end
