(* ===== verification/Audit_Props.thy ===== *)
theory Audit_Props
  imports Audit_Evidence
begin

text \<open>
  What a verified audit export establishes, and that a prepared one verifies: each part of the
  payload is tied to a pinned key, to the retained evidence or to the verifier's own observation.
\<close>

lemma audit_require_Inr [simp]: "audit_require code ok = Inr u \<longleftrightarrow> ok"
  by (simp add: audit_require_def)

lemma audit_require_simps [simp]: "audit_require code True = Inr ()"
  by (simp add: audit_require_def)

lemma thrown_Inr [simp]: "thrown m = Inr x \<longleftrightarrow> m = Inr x"
  by (cases m) simp_all

lemma verifySignature_Inr [simp]: "verifySignature E V digest sig expected code = Inr u \<longleftrightarrow> signature_ok E V digest sig expected"
  by (simp add: verifySignature_def)

subsection \<open>What a verified export establishes\<close>

definition grant_authorizes :: "ethers \<Rightarrow> audit_lib \<Rightarrow> audit_trust \<Rightarrow> json \<Rightarrow> int \<Rightarrow> bool" where
  "grant_authorizes E V T grant now \<longleftrightarrow> (\<exists>dg. domainDigest E ''proofmark-audit-grant-v1'' (jget grant ''payload'') = Inr dg \<and>
     signature_ok E V dg (jget grant ''signature'') (pinned (at_authorizers T) (jget (jget grant ''signature'') ''keyId''))) \<and>
   int_of (jget (jget grant ''payload'') ''issuedAt'') \<le> now \<and> now < int_of (jget (jget grant ''payload'') ''expiresAt'')"

definition disclosure_proved :: "ethers \<Rightarrow> json \<Rightarrow> json \<Rightarrow> bool" where
  "disclosure_proved E root d \<longleftrightarrow> (\<exists>c ps. disclosure_claim (jget d ''claim'') = Some c \<and> jlist (jget d ''proof'') = Some ps \<and>
     verifyDisclosure E (hex_text root) c (map hex_text ps) = Inr True)"

definition receipt_backed :: "ethers \<Rightarrow> audit_lib \<Rightarrow> audit_trust \<Rightarrow> json \<Rightarrow> json list \<Rightarrow> json \<Rightarrow> bool \<Rightarrow> int \<Rightarrow> string \<Rightarrow> bool" where
  "receipt_backed E V T receipts steps recordId live at axisName \<longleftrightarrow> (\<exists>rs r dg axis ad. jlist receipts = Some rs \<and> r \<in> set rs \<and>
     receipt_axis r = JsStr axisName \<and> domainDigest E ''proofmark-institution-receipt-v1'' (jget r ''payload'') = Inr dg \<and>
     signature_ok E V dg (jget r ''signature'') (map_of (at_receiptSigners T) (receiptTrustKey r)) \<and>
     int_of (jget (jget r ''payload'') ''checkedAt'') \<le> at \<and> axisFromEvidence steps axisName = Inr axis \<and>
     domainDigest E ''proofmark-institution-axis-v1'' axis = Inr ad \<and> receipt_matches (jget r ''payload'') axis recordId ad live axisName)"

lemma validateGrant_Inr:
  "validateGrant E V grant T at = Inr u \<longleftrightarrow> grant_fields_ok (jget grant ''payload'') at \<and> grant_authorizes E V T grant at"
  by (auto simp: validateGrant_def grant_authorizes_def Let_def bindE_Inr_iff)

lemma check_disclosure_Inr: "check_disclosure E root d = Inr u \<Longrightarrow> disclosure_proved E root d"
  by (auto simp: check_disclosure_def disclosure_proved_def elim!: bindE_Inr_cases split: option.splits if_splits)

lemma receipts_signed_Inr:
  "receipts_signed E V T at rs seen = Inr u \<Longrightarrow> r \<in> set rs \<Longrightarrow>
     (\<exists>dg. domainDigest E ''proofmark-institution-receipt-v1'' (jget r ''payload'') = Inr dg \<and>
       signature_ok E V dg (jget r ''signature'') (map_of (at_receiptSigners T) (receiptTrustKey r))) \<and>
     int_of (jget (jget r ''payload'') ''checkedAt'') \<le> at"
proof (induction rs arbitrary: seen)
  case (Cons x rs)
  have x: "validateReceiptSignature E V x T = Inr () \<and> int_of (jget (jget x ''payload'') ''checkedAt'') \<le> at \<and>
      receipts_signed E V T at rs (receipt_axis x # seen) = Inr u"
    using Cons.prems(1) by (auto elim!: bindE_Inr_cases split: if_splits)
  show ?case
  proof (cases "r = x")
    case True
    then show ?thesis using x by (auto simp: validateReceiptSignature_def Let_def elim!: bindE_Inr_cases)
  next
    case False
    then show ?thesis using Cons.IH [of "receipt_axis x # seen"] Cons.prems(2) x by simp
  qed
qed simp

lemma mapE_unit_all: "mapE f xs = Inr (u :: unit list) \<Longrightarrow> list_all (\<lambda>x. f x = Inr ()) xs"
  by (induction xs arbitrary: u) (auto simp: bindE_Inr_iff)

lemma validateReceipts_Inr:
  assumes "validateReceipts E V receipts steps attrs recordId T at = Inr u"
  shows "\<exists>a. audit_attrs attrs = Inr a \<and>
    list_all (receipt_backed E V T receipts steps recordId (js_val (ai_regime a) = 1) at) (requiredReceiptAxes a)"
proof -
  obtain rs where rs: "receipts = JsArr rs" using assms by (cases receipts) auto
  obtain a where a: "audit_attrs attrs = Inr a" "receipts_signed E V T at rs [] = Inr ()"
    "\<exists>v. mapE (check_receipt E rs steps recordId (js_val (ai_regime a) = 1)) (requiredReceiptAxes a) = Inr v"
    using assms rs by (auto simp: Let_def elim!: bindE_Inr_cases split: if_splits)
  have "list_all (\<lambda>x. check_receipt E rs steps recordId (js_val (ai_regime a) = 1) x = Inr ()) (requiredReceiptAxes a)"
    using a(3) mapE_unit_all by blast
  moreover have "receipt_backed E V T receipts steps recordId l at x" if check: "check_receipt E rs steps recordId l x = Inr ()" for l x
  proof -
    obtain r axis ad where r: "List.find (\<lambda>r. receipt_axis r = JsStr x) rs = Some r" "axisFromEvidence steps x = Inr axis"
      "domainDigest E ''proofmark-institution-axis-v1'' axis = Inr ad" "receipt_matches (jget r ''payload'') axis recordId ad l x"
      using check by (auto simp: check_receipt_def elim!: bindE_Inr_cases split: option.splits)
    have "r \<in> set rs" "receipt_axis r = JsStr x" using find_Some_iff2 [OF r(1)] by simp_all
    then show ?thesis using r receipts_signed_Inr [OF a(2)] rs unfolding receipt_backed_def by auto
  qed
  ultimately show ?thesis using a(1) by (auto simp: list_all_iff)
qed

text \<open>The facts about the payload that its checks establish.\<close>

definition payload_backed :: "ethers \<Rightarrow> audit_lib \<Rightarrow> audit_trust \<Rightarrow> json \<Rightarrow> bool" where
  "payload_backed E V T p \<longleftrightarrow>
     (\<exists>steps head a. evidenceSteps (jget p ''evidence'') = Inr steps \<and> recompute_json E zero_head steps = Inr head \<and>
        sameHex (JsStr head) (jget (jget p ''linkage'') ''evidenceHash'') \<and>
        audit_attrs (jget (jget p ''linkage'') ''attrs'') = Inr a \<and>
        list_all (receipt_backed E V T (jget p ''institutionReceipts'') steps (jget (jget p ''linkage'') ''requestId'')
          (js_val (ai_regime a) = 1) (int_of (jget p ''generatedAt''))) (requiredReceiptAxes a))"

lemma contents_Inr:
  assumes "validate_contents E V p T = Inr u"
  shows "scope_ok (jget (jget p ''grant'') ''payload'') (jget p ''linkage'') (the (jlist (jget p ''disclosures'')))"
    "list_all (disclosure_proved E (jget (jget p ''linkage'') ''claimsRoot'')) (the (jlist (jget p ''disclosures'')))"
    "payload_backed E V T p"
proof -
  obtain steps head xs where c: "scope_ok (jget (jget p ''grant'') ''payload'') (jget p ''linkage'') (the (jlist (jget p ''disclosures'')))"
    "evidenceSteps (jget p ''evidence'') = Inr steps" "recompute_json E zero_head steps = Inr head"
    "sameHex (JsStr head) (jget (jget p ''linkage'') ''evidenceHash'')"
    "mapE (check_disclosure E (jget (jget p ''linkage'') ''claimsRoot'')) (the (jlist (jget p ''disclosures''))) = Inr xs"
    "validateReceipts E V (jget p ''institutionReceipts'') steps (jget (jget p ''linkage'') ''attrs'')
       (jget (jget p ''linkage'') ''requestId'') T (int_of (jget p ''generatedAt'')) = Inr ()"
    using assms unfolding validate_contents_def Let_def by (auto elim!: bindE_Inr_cases)
  show "scope_ok (jget (jget p ''grant'') ''payload'') (jget p ''linkage'') (the (jlist (jget p ''disclosures'')))" by (rule c(1))
  show "list_all (disclosure_proved E (jget (jget p ''linkage'') ''claimsRoot'')) (the (jlist (jget p ''disclosures'')))"
    using mapE_unit_all [OF c(5)] check_disclosure_Inr by (auto simp: list_all_iff)
  show "payload_backed E V T p" unfolding payload_backed_def using validateReceipts_Inr [OF c(6)] c(2-4) by blast
qed

lemma verify_Inr:
  "verifyAuditExport E V (p, sig) T ob now = Inr res \<longleftrightarrow> truthy p \<and> truthy sig \<and> domainDigest E ''proofmark-audit-export-v1'' p = Inr (au_fingerprint res) \<and>
     signature_ok E V (au_fingerprint res) sig (pinned (at_exporters T) (jget sig ''keyId'')) \<and> validatePayload E V p T now = Inr () \<and>
     validateOnchain E ob (jget p ''linkage'') = Inr () \<and> same_text ''ONCHAIN_COMMITMENT_MISMATCH'' ob (jget p ''onchainObservation'') = Inr () \<and>
     au_exportId res = jget p ''exportId'' \<and> au_evidenceHash res = jget (jget p ''linkage'') ''evidenceHash'' \<and>
     au_claimsRoot res = jget (jget p ''linkage'') ''claimsRoot'' \<and> au_receiptCount res = length (the (jlist (jget p ''institutionReceipts''))) \<and>
     au_disclosureCount res = length (the (jlist (jget p ''disclosures'')))"
  by (cases res) (auto simp: verifyAuditExport_def bindE_Inr_iff)

text \<open>
  C7: An export that verifies is signed, as it is, by the pinned exporter; its grant is signed by
  a pinned authorizer and in force now; it discloses exactly the granted claims, each proved
  against the committed root; its evidence recomputes to the hash that the verifier itself
  observed on chain; and every institution check that the credential claims is backed by a receipt
  of a pinned signer that matches the retained evidence.
\<close>

theorem audit_export_sound:
  assumes "verifyAuditExport E V (p, sig) T ob now = Inr res"
  shows "domainDigest E ''proofmark-audit-export-v1'' p = Inr (au_fingerprint res) \<and>
    signature_ok E V (au_fingerprint res) sig (pinned (at_exporters T) (jget sig ''keyId'')) \<and>
    grant_authorizes E V T (jget p ''grant'') now \<and>
    scope_ok (jget (jget p ''grant'') ''payload'') (jget p ''linkage'') (the (jlist (jget p ''disclosures''))) \<and>
    list_all (disclosure_proved E (au_claimsRoot res)) (the (jlist (jget p ''disclosures''))) \<and>
    observation_matches ob (jget p ''linkage'') \<and> payload_backed E V T p"
proof -
  have v: "validatePayload E V p T now = Inr ()" "au_claimsRoot res = jget (jget p ''linkage'') ''claimsRoot''"
    using assms unfolding verify_Inr by blast+
  have g: "validateGrant E V (jget p ''grant'') T now = Inr ()" "validate_contents E V p T = Inr ()"
    using v(1) by (auto simp: validatePayload_def elim!: bindE_Inr_cases)
  show ?thesis using assms contents_Inr [OF g(2)] g(1) v(2)
    by (simp add: verify_Inr validateGrant_Inr) (simp add: validateOnchain_def)
qed

subsection \<open>A prepared export verifies\<close>

lemma mapE_member: "mapE f xs = Inr ys \<Longrightarrow> x \<in> set xs \<Longrightarrow> \<exists>y. f x = Inr y"
  by (induction xs arbitrary: ys) (auto elim!: bindE_Inr_cases)

lemma sortDeep_sub:
  assumes "sortDeep (JsObj kvs) = Inr w" "map_of kvs k = Some v"
  shows "\<exists>x. sortDeep v = Inr x"
proof -
  obtain ys where ys: "mapE (\<lambda>(k, v). bindE (sortDeep v) (\<lambda>w. Inr (k, w))) (sort_key fst kvs) = Inr ys"
    using assms(1) by (auto elim!: bindE_Inr_cases)
  have "(k, v) \<in> set (sort_key fst kvs)" using map_of_SomeD [OF assms(2)] by simp
  from mapE_member [OF ys this] show ?thesis by (auto elim!: bindE_Inr_cases)
qed

lemma same_text_refl:
  assumes "domainDigest E dm p = Inr dg" "p = JsObj kvs" "map_of kvs k = Some v"
  shows "same_text code v v = Inr ()"
proof -
  have "\<exists>w. sortDeep (JsObj kvs) = Inr w" using assms(1,2) by (auto simp: domainDigest_def canonicalJson_def elim!: bindE_Inr_cases)
  then obtain x where "sortDeep v = Inr x" using sortDeep_sub [OF _ assms(3)] by blast
  then show ?thesis by (simp add: same_text_def canonicalJson_def)
qed

lemma grant_later:
  assumes "validateGrant E V grant T at = Inr u" "at \<le> now" "is_safe now" "now < int_of (jget (jget grant ''payload'') ''expiresAt'')"
  shows "validateGrant E V grant T now = Inr ()"
  using assms by (auto simp: validateGrant_Inr grant_fields_ok_def grant_authorizes_def)

lemma payload_later:
  assumes "validatePayload E V p T at = Inr u" "at \<le> now" "is_safe now"
    "now < int_of (jget (jget (jget p ''grant'') ''payload'') ''expiresAt'')"
  shows "validatePayload E V p T now = Inr ()"
  using assms grant_later [OF _ assms(2-4)] by (auto simp: validatePayload_def payload_shape_ok_def elim!: bindE_Inr_cases)

lemma prepare_Inr:
  assumes "prepareAuditExport E V r grant receipts ob T at = Inr p"
  obtains xid l versions steps ds where "p = make_payload xid at grant l versions steps ds receipts ob"
    "validateOnchain E ob l = Inr ()" "validatePayload E V p T at = Inr ()"
  using assms unfolding prepareAuditExport_def Let_def by (auto elim!: bindE_Inr_cases)

text \<open>
  C8: What was prepared and then sealed by a pinned exporter verifies, against the observation it
  was prepared with, at every later moment at which the grant is in force, and it discloses
  exactly the granted claims.
\<close>

theorem prepared_export_verifies:
  assumes "prepareAuditExport E V r grant receipts ob T at = Inr p" "domainDigest E ''proofmark-audit-export-v1'' p = Inr dg"
    and "sealAuditExport p kid sg = Inr env" "al_verifyMessage V dg sg = Some signer" "map_of (at_exporters T) kid = Some a"
    and "e_getAddress E a \<noteq> None" "same signer a"
    and "at \<le> now" "is_safe now" "now < int_of (jget (jget grant ''payload'') ''expiresAt'')"
  shows "\<exists>res. verifyAuditExport E V env T ob now = Inr res \<and>
    Some (map (\<lambda>d. jget (jget d ''claim'') ''key'') (the (jlist (jget p ''disclosures'')))) = jlist (jget (jget grant ''payload'') ''claimKeys'')"
proof -
  obtain xid l versions steps ds where m: "p = make_payload xid at grant l versions steps ds receipts ob"
    "validateOnchain E ob l = Inr ()" "validatePayload E V p T at = Inr ()" by (rule prepare_Inr [OF assms(1)])
  have get: "jget p ''grant'' = grant" "jget p ''linkage'' = l" "jget p ''onchainObservation'' = ob" "truthy p"
    by (simp_all add: m(1) make_payload_def)
  have env: "env = (p, JsObj [(''algorithm'', JsStr ''ES256K-EIP191''), (''keyId'', JsStr kid), (''value'', JsStr sg)])" "identifier_text kid"
    using assms(3) by (auto simp: sealAuditExport_def elim!: bindE_Inr_cases)
  let ?sig = "JsObj [(''algorithm'', JsStr ''ES256K-EIP191''), (''keyId'', JsStr kid), (''value'', JsStr sg)]"
  have "signature_ok E V dg ?sig (pinned (at_exporters T) (jget ?sig ''keyId''))"
    using assms(4-7) env(2) by (auto simp: signature_ok_def pinned_def audit_identifier_def)
  moreover have "same_text ''ONCHAIN_COMMITMENT_MISMATCH'' ob ob = Inr ()"
    by (rule same_text_refl [OF assms(2) m(1) [unfolded make_payload_def], of "''onchainObservation''"]) simp
  moreover have now: "validatePayload E V p T now = Inr ()" using payload_later [OF m(3) assms(8,9)] assms(10) get(1) by simp
  ultimately have "\<exists>res. verifyAuditExport E V (p, ?sig) T ob now = Inr res"
    using assms(2) m(2) get by (simp add: verifyAuditExport_def verifySignature_def)
  moreover have "validate_contents E V p T = Inr ()" using now by (auto simp: validatePayload_def elim!: bindE_Inr_cases)
  from contents_Inr(1) [OF this] have "Some (map (\<lambda>d. jget (jget d ''claim'') ''key'') (the (jlist (jget p ''disclosures'')))) = jlist (jget (jget grant ''payload'') ''claimKeys'')"
    using get(1) by (simp add: scope_ok_def)
  ultimately show ?thesis using env(1) by simp
qed

subsection \<open>A small export for the witnesses\<close>

definition run_ethers5 :: ethers where
  "run_ethers5 = \<lparr>e_keccak = (\<lambda>_. hex32 5), e_abi = (\<lambda>_. hex32 7), e_bytes32 = is_bytes32, e_data = (\<lambda>_. True), e_getAddress = Some\<rparr>"

definition run_verifier :: audit_lib where
  "run_verifier = \<lparr>al_verifyMessage = (\<lambda>_ v. Some v)\<rparr>"

definition run_trust :: audit_trust where
  "run_trust = \<lparr>at_authorizers = [(''key'', ''adr'')], at_receiptSigners = [], at_exporters = [(''key'', ''adr'')]\<rparr>"

definition run_signature :: json where
  "run_signature = JsObj [(''algorithm'', JsStr ''ES256K-EIP191''), (''keyId'', JsStr ''key''), (''value'', JsStr ''adr'')]"

definition run_grant :: json where
  "run_grant = JsObj [(''payload'', JsObj [(''schema'', JsStr ''proofmark-audit-grant-v1''), (''grantId'', JsStr ''key''), (''auditorId'', JsStr ''key''),
     (''customerId'', JsStr ''key''), (''recordId'', JsStr (hex32 5)), (''claimKeys'', JsArr [JsStr ''dob'']), (''purposeRef'', JsStr ''key''),
     (''authorizationRef'', JsStr ''key''), (''issuedAt'', JsInt 1), (''expiresAt'', JsInt 9)]), (''signature'', run_signature)]"

definition run_attrs :: mark_attrs_input where
  "run_attrs = \<lparr>ai_kind = JInt 1, ai_assurance = JInt 2, ai_regime = JInt 2, ai_jurisdiction = JInt 410, ai_methods = JInt 1,
     ai_issuedAt = JInt 1700000000, ai_expiry = JInt 1731536000, ai_epoch = JInt 0\<rparr>"

definition run_attrs_hex :: hex where "run_attrs_hex = hex32 (attrs_word run_attrs)"

definition run_print :: string where "run_print = replicate 64 CHR ''a''"

definition run_step :: "string \<Rightarrow> (string \<times> json) list \<Rightarrow> json" where
  "run_step name kvs = JsObj [(''step'', JsStr name), (''at'', JsInt 1), (''payload'', JsObj kvs)]"

definition run_evidence :: "json list" where
  "run_evidence = [run_step ''commitment'' [(''claimsRoot'', JsStr (hex32 7)), (''claimCount'', JsInt 1)],
     run_step ''issue'' [(''attrs'', JsStr run_attrs_hex), (''claimsRoot'', JsStr (hex32 7))],
     run_step ''processing_policy'' [(''schema'', JsStr ''proofmark-processing-policy-evidence-v1''), (''policyId'', JsStr ''key''),
       (''fingerprint'', JsStr run_print), (''consentStatementHash'', JsStr (hex32 5)), (''customerId'', JsStr ''key''), (''noticeVersion'', JsStr ''n'')],
     run_step ''retention_policy'' [(''schema'', JsStr ''proofmark-retention-policy-binding-v1''), (''policyId'', JsStr ''key''),
       (''customerId'', JsStr ''key''), (''fingerprint'', JsStr run_print)],
     run_step ''aml'' [(''engineVersion'', JsStr ''key''), (''listVersions'', JsObj [])],
     run_step ''identity_policy'' [(''policyId'', JsStr ''key'')]]"

definition run_audit_record :: audit_record where
  "run_audit_record = \<lparr>ar_id = hex32 5, ar_walletAddress = ''adr'', ar_evidenceHash = hex32 5, ar_attrs = Some run_attrs_hex,
     ar_claimsRoot = Some (hex32 7), ar_claims = JsArr [JsObj [(''key'', JsStr ''dob''), (''value'', JsStr ''v''), (''salt'', JsStr (hex32 5))]],
     ar_source = Some (1, ''adr'', hex32 5), ar_retention = Some (''key'', run_print), ar_createdAt = JInt 1, ar_consentVersion = ''n'',
     ar_evidence = JsArr run_evidence\<rparr>"

definition run_observation :: json where
  "run_observation = JsObj [(''schema'', JsStr ''proofmark-onchain-commitment-observation-v1''), (''observedAt'', JsInt 1), (''chainId'', JsInt 1),
     (''source'', JsStr ''adr''), (''transactionHash'', JsStr (hex32 5)), (''blockNumber'', JsInt 1), (''blockHash'', JsStr (hex32 5)),
     (''requestId'', JsStr (hex32 5)), (''subject'', JsStr ''adr''), (''issuer'', JsStr ''adr''), (''attrs'', JsStr run_attrs_hex),
     (''claimsRoot'', JsStr (hex32 7)), (''evidenceHash'', JsStr (hex32 5))]"

lemma audit_attrs_valid: "unpackAttrs run_attrs_hex = Inr run_attrs" "validCredentialAttrs run_attrs_hex None" "is_bytes32 run_attrs_hex"
proof -
  have "packAttrs hex32 run_attrs = Inr (hex32 (attrs_word run_attrs))"
    by (simp add: packAttrs_Inr_iff fields_integral_def fields_fit_def field_def run_attrs_def)
  then have p: "fields_integral run_attrs" "fields_fit run_attrs" by (simp_all add: packAttrs_Inr_iff)
  have v: "hex_val run_attrs_hex = attrs_word run_attrs"
    using hex32_ok attrs_word_bounds [OF p(2)] by (simp add: be_hex_ok_def run_attrs_hex_def)
  show u: "unpackAttrs run_attrs_hex = Inr run_attrs"
    using p v by (simp add: unpackAttrs_fields run_attrs_hex_def hex32_canonical fields_of_attrs_word)
  have "attrs_word run_attrs AND 0xffffffffffffffff = 0" using attrs_word_fields(9) [OF p(2)] by (simp add: attr_masks)
  with u v show "validCredentialAttrs run_attrs_hex None"
    by (simp add: validCredentialAttrs_def now_ok_def run_attrs_def only_supported_def SUPPORTED_METHODS_def)
  show "is_bytes32 run_attrs_hex" by (simp add: run_attrs_hex_def hex32_canonical)
qed

lemma domain_digest_plain: "json_plain v \<Longrightarrow> domainDigest run_ethers5 dm v = Inr (hex32 5)"
  using json_plain_sortDeep [of v] by (auto simp: domainDigest_def canonicalJson_def run_ethers5_def)

lemma same_text_plain: "json_plain v \<Longrightarrow> same_text code v v = Inr ()"
  using json_plain_sortDeep [of v] by (auto simp: same_text_def canonicalJson_def)

lemma recompute_plain: "list_all json_plain ss \<Longrightarrow> ss \<noteq> [] \<Longrightarrow> recompute_json run_ethers5 h ss = Inr (hex32 5)"
proof (induction ss arbitrary: h)
  case (Cons s ss)
  obtain t where "sortDeep s = Inr t" using json_plain_sortDeep [of s] Cons.prems(1) by auto
  then show ?case using Cons by (cases "ss = []") (simp_all add: canonicalJson_def run_ethers5_def)
qed simp

lemma audit_hex [simp]: "is_bytes32 (hex32 5)" "is_bytes32 (hex32 7)" "is_bytes32 run_attrs_hex"
  by (simp_all add: hex32_canonical audit_attrs_valid(3))

lemma run_nonempty: "run_attrs_hex \<noteq> []" "hex32 7 \<noteq> []"
  using audit_hex by (auto simp: is_bytes32_def simp del: audit_hex)

lemma run_words [simp]: "identifier_text ''key''" "identifier_text ''adr''" "identifier_text ''dob''" "identifier_text ''commitment''"
  "identifier_text ''issue''" "identifier_text ''processing_policy''" "identifier_text ''retention_policy''" "identifier_text ''aml''"
  "identifier_text ''identity_policy''"
  by (simp_all add: identifier_text_def alnum_def)

lemma run_print_ok [simp]: "fingerprint64 (JsStr run_print)"
  by (simp add: fingerprint64_def run_print_def hex_digit_def lower_char_def list_all_length)

lemma run_address [simp]: "e_getAddress run_ethers5 s = Some s" "e_bytes32 run_ethers5 = is_bytes32"
  by (simp_all add: run_ethers5_def)

lemma run_grant_valid: "1 \<le> at \<Longrightarrow> at < 9 \<Longrightarrow> validateGrant run_ethers5 run_verifier run_grant run_trust at = Inr ()"
proof -
  assume at: "1 \<le> at" "at < 9"
  have "domainDigest run_ethers5 ''proofmark-audit-grant-v1'' (jget run_grant ''payload'') = Inr (hex32 5)"
    by (rule domain_digest_plain) (simp add: run_grant_def)
  moreover have "signature_ok run_ethers5 run_verifier (hex32 5) run_signature (Some ''adr'')"
    by (simp add: signature_ok_def run_signature_def run_verifier_def audit_identifier_def)
  ultimately have "grant_authorizes run_ethers5 run_verifier run_trust run_grant at"
    using at by (simp add: grant_authorizes_def) (simp add: run_grant_def pinned_def run_trust_def run_signature_def)
  moreover have "grant_fields_ok (jget run_grant ''payload'') at"
    using at by (simp add: run_grant_def grant_fields_ok_def audit_identifier_def hex_test_def is_safe_def max_safe_def)
  ultimately show ?thesis by (simp add: validateGrant_Inr)
qed

lemma run_steps: "run_evidence \<noteq> [] \<and> list_all step_ok run_evidence" "list_all json_plain run_evidence"
  by (simp_all add: run_evidence_def run_step_def step_ok_def audit_identifier_def is_safe_def max_safe_def)

lemma run_payloads:
  "step_payload run_evidence ''commitment'' = Inr (JsObj [(''claimsRoot'', JsStr (hex32 7)), (''claimCount'', JsInt 1)])"
  "step_payload run_evidence ''issue'' = Inr (JsObj [(''attrs'', JsStr run_attrs_hex), (''claimsRoot'', JsStr (hex32 7))])"
  "step_payload run_evidence ''processing_policy'' = Inr (JsObj [(''schema'', JsStr ''proofmark-processing-policy-evidence-v1''), (''policyId'', JsStr ''key''),
       (''fingerprint'', JsStr run_print), (''consentStatementHash'', JsStr (hex32 5)), (''customerId'', JsStr ''key''), (''noticeVersion'', JsStr ''n'')])"
  "step_payload run_evidence ''retention_policy'' = Inr (JsObj [(''schema'', JsStr ''proofmark-retention-policy-binding-v1''), (''policyId'', JsStr ''key''),
       (''customerId'', JsStr ''key''), (''fingerprint'', JsStr run_print)])"
  "step_payload run_evidence ''aml'' = Inr (JsObj [(''engineVersion'', JsStr ''key''), (''listVersions'', JsObj [])])"
  "step_payload run_evidence ''identity_policy'' = Inr (JsObj [(''policyId'', JsStr ''key'')])"
  by (simp_all add: step_payload_def oneStep_def run_evidence_def run_step_def)

lemma run_versions: "\<exists>v. versionsFrom run_evidence = Inr v \<and> json_plain v"
  by (simp add: versionsFrom_def run_payloads versions_ok_def audit_identifier_def hex_test_def Let_def)

lemma run_receipts: "validateReceipts run_ethers5 run_verifier (JsArr []) run_evidence (JsStr run_attrs_hex) rid run_trust at = Inr ()"
  by (simp add: audit_attrs_def audit_attrs_valid requiredReceiptAxes_def method_in_def run_attrs_def)

definition run_linkage :: json where
  "run_linkage = linkage_of run_audit_record run_observation (JsObj [(''consentStatementHash'', JsStr (hex32 5))])
     (JsStr ''adr'') (JsStr ''adr'') (JsStr ''adr'') (JsStr (hex32 7))"

lemma run_linkage_onchain: "validateOnchain run_ethers5 run_observation run_linkage = Inr ()"
proof -
  have "observation_fields_ok run_ethers5 run_observation"
    by (simp add: observation_fields_ok_def run_observation_def is_safe_def max_safe_def audit_address_def hex_test_def)
  moreover have "observation_matches run_observation run_linkage"
    by (simp add: observation_matches_def run_observation_def run_linkage_def linkage_of_def run_audit_record_def sameHex_def)
  ultimately show ?thesis by (simp add: validateOnchain_def)
qed

lemma run_linkage_id: "credentialId run_ethers5 (linkage_of run_audit_record run_observation pr (JsStr ''adr'') (JsStr ''adr'') (JsStr ''adr'') cid) = Inr (JsStr (hex32 7))"
  by (simp add: credentialId_def linkage_of_def run_audit_record_def is_safe_def max_safe_def audit_address_def)
    (simp add: run_ethers5_def)

definition run_payload :: "json \<Rightarrow> json" where
  "run_payload v = make_payload (hex32 5) 2 run_grant run_linkage v run_evidence
     [disclosure_json (\<lparr>cl_key = ''dob'', cl_value = ''v'', cl_salt = hex32 5\<rparr>, [])] (JsArr []) run_observation"

lemma run_payload_get:
  "jget (run_payload v) ''schema'' = JsStr ''proofmark-audit-export-v1''" "jget (run_payload v) ''exportId'' = JsStr (hex32 5)"
  "jget (run_payload v) ''generatedAt'' = JsInt 2" "jget (run_payload v) ''grant'' = run_grant" "jget (run_payload v) ''linkage'' = run_linkage"
  "jget (run_payload v) ''versions'' = v" "jget (run_payload v) ''evidence'' = JsArr run_evidence"
  "jget (run_payload v) ''disclosures'' = JsArr [disclosure_json (\<lparr>cl_key = ''dob'', cl_value = ''v'', cl_salt = hex32 5\<rparr>, [])]"
  "jget (run_payload v) ''institutionReceipts'' = JsArr []" "jget (run_payload v) ''onchainObservation'' = run_observation"
  "jget (run_payload v) ''limitations'' = limitations_json"
  by (simp_all add: run_payload_def make_payload_def)

lemma run_linkage_get:
  "jget run_linkage ''requestId'' = JsStr (hex32 5)" "jget run_linkage ''evidenceHash'' = JsStr (hex32 5)" "jget run_linkage ''attrs'' = JsStr run_attrs_hex"
  "jget run_linkage ''claimsRoot'' = JsStr (hex32 7)" "jget run_linkage ''consentVersion'' = JsStr ''n''"
  "jget run_linkage ''consentStatementHash'' = JsStr (hex32 5)" "jget run_linkage ''credentialId'' = JsStr (hex32 7)"
  by (simp_all add: run_linkage_def linkage_of_def run_audit_record_def)

lemma run_grant_get:
  "jget (jget run_grant ''payload'') ''grantId'' = JsStr ''key''" "jget (jget run_grant ''payload'') ''recordId'' = JsStr (hex32 5)"
  "jget (jget run_grant ''payload'') ''claimKeys'' = JsArr [JsStr ''dob'']" "jget (jget run_grant ''payload'') ''customerId'' = JsStr ''key''"
  "jget (jget run_grant ''payload'') ''expiresAt'' = JsInt 9"
  by (simp_all add: run_grant_def)

lemma run_observed: "jget run_observation ''observedAt'' = JsInt 1" "jget run_observation ''issuer'' = JsStr ''adr''"
  by (simp_all add: run_observation_def)

lemma run_disclosed: "check_disclosure run_ethers5 (JsStr (hex32 7)) (disclosure_json (\<lparr>cl_key = ''dob'', cl_value = ''v'', cl_salt = hex32 5\<rparr>, [])) = Inr ()"
  by (simp add: check_disclosure_def disclosure_json_def claim_json_def disclosure_claim_def verifyDisclosure_def claimLeaf_def verifyProof_def)
    (simp add: run_ethers5_def)

lemma run_contents:
  assumes "versionsFrom run_evidence = Inr v" "json_plain v"
  shows "validate_contents run_ethers5 run_verifier (run_payload v) run_trust = Inr ()"
proof -
  have xid: "export_id run_ethers5 a b c d = Inr (hex32 5)" if "json_plain (JsArr [a, b, c, d])" for a b c d
    unfolding export_id_def by (rule domain_digest_plain) (use that in simp)
  have rc: "recompute_json run_ethers5 zero_head run_evidence = Inr (hex32 5)"
    by (rule recompute_plain [OF run_steps(2)]) (simp add: run_evidence_def)
  have texts: "same_text code v v = Inr ()" "same_text code limitations_json limitations_json = Inr ()" for code
    using assms(2) by (simp_all add: same_text_plain limitations_json_def)
  have cid: "credentialId run_ethers5 run_linkage = Inr (JsStr (hex32 7))" unfolding run_linkage_def by (rule run_linkage_id)
  have scope: "scope_ok (jget run_grant ''payload'') run_linkage [disclosure_json (\<lparr>cl_key = ''dob'', cl_value = ''v'', cl_salt = hex32 5\<rparr>, [])]"
    by (simp add: scope_ok_def run_grant_get run_linkage_get sameHex_def disclosure_json_def claim_json_def)
  show ?thesis
    unfolding validate_contents_def Let_def run_payload_get run_linkage_get run_grant_get run_observed jlist.simps option.sel
    by (simp add: xid rc texts cid scope sameHex_def audit_attrs_valid run_steps(1) run_payloads commitment_ok_def is_safe_def max_safe_def
        run_disclosed run_linkage_onchain run_linkage_get assms(1) run_receipts run_attrs_def requiredReceiptAxes_def audit_attrs_def method_in_def)
qed

lemma run_payload_valid:
  assumes "versionsFrom run_evidence = Inr v" "json_plain v" "truthy v"
  shows "validatePayload run_ethers5 run_verifier (run_payload v) run_trust 2 = Inr ()"
proof -
  have "truthy run_linkage" "truthy run_observation" by (simp_all add: run_linkage_def linkage_of_def run_audit_record_def run_observation_def)
  then show ?thesis
    using run_contents [OF assms(1,2)] run_grant_valid [of 2] assms(3)
    by (simp add: validatePayload_def payload_shape_ok_def run_payload_get hex_test_def is_safe_def max_safe_def)
qed

lemma run_prepared:
  assumes "versionsFrom run_evidence = Inr v" "json_plain v" "truthy v"
  shows "prepareAuditExport run_ethers5 run_verifier run_audit_record run_grant (JsArr []) run_observation run_trust 2 = Inr (run_payload v)"
proof -
  have rc: "recompute_json run_ethers5 zero_head run_evidence = Inr (hex32 5)"
    by (rule recompute_plain [OF run_steps(2)]) (simp add: run_evidence_def)
  have xid: "export_id run_ethers5 (JsStr ''key'') (JsStr (hex32 5)) (JsInt 2) (JsStr (hex32 5)) = Inr (hex32 5)"
    unfolding export_id_def by (rule domain_digest_plain) simp
  have claims: "claimList (ar_claims run_audit_record) = Inr [\<lparr>cl_key = ''dob'', cl_value = ''v'', cl_salt = hex32 5\<rparr>]"
    by (simp add: run_audit_record_def claim_of_def audit_identifier_def hex_test_def)
  have disclosed: "discloseClaim run_ethers5 [\<lparr>cl_key = ''dob'', cl_value = ''v'', cl_salt = hex32 5\<rparr>] ''dob'' =
      Inr (\<lparr>cl_key = ''dob'', cl_value = ''v'', cl_salt = hex32 5\<rparr>, [])"
    by (simp add: discloseClaim_def claimLeaf_def merkleProof_def merkle_path.simps)
  have rec: "record_ok run_ethers5 run_audit_record (jget run_grant ''payload'') 2"
    by (simp add: record_ok_def run_audit_record_def run_grant_get text_present_def sameHex_def is_safe_def max_safe_def run_nonempty)
  have linkage: "linkage_of run_audit_record run_observation
      (JsObj [(''schema'', JsStr ''proofmark-processing-policy-evidence-v1''), (''policyId'', JsStr ''key''), (''fingerprint'', JsStr run_print),
        (''consentStatementHash'', JsStr (hex32 5)), (''customerId'', JsStr ''key''), (''noticeVersion'', JsStr ''n'')])
      (JsStr ''adr'') (JsStr ''adr'') (JsStr ''adr'') (JsStr (hex32 7)) = run_linkage"
    by (simp add: run_linkage_def linkage_of_def run_audit_record_def)
  have fields: "ar_evidence run_audit_record = JsArr run_evidence" "ar_evidenceHash run_audit_record = hex32 5" "ar_id run_audit_record = hex32 5"
    "ar_walletAddress run_audit_record = ''adr''" "the (ar_attrs run_audit_record) = run_attrs_hex" "the (ar_claimsRoot run_audit_record) = hex32 7"
    "fst (snd (the (ar_source run_audit_record))) = ''adr''" "ar_consentVersion run_audit_record = ''n''"
    "the (ar_retention run_audit_record) = (''key'', run_print)"
    by (simp_all add: run_audit_record_def)
  show ?thesis
    unfolding prepareAuditExport_def Let_def fields run_grant_get run_observed
    by (simp add: run_grant_valid rec run_steps(1) rc claims run_payloads sameHex_def record_scope_ok_def run_grant_get hex_test_def fields
        audit_identifier_def run_receipts checksum_def checksum_json_def run_linkage_id linkage run_linkage_onchain xid assms(1) disclosed
        run_payload_def [symmetric] run_payload_valid [OF assms] requiredReceiptAxes_def audit_attrs_def audit_attrs_valid method_in_def run_attrs_def)
qed

lemma run_export:
  obtains v dg where "prepareAuditExport run_ethers5 run_verifier run_audit_record run_grant (JsArr []) run_observation run_trust 2 = Inr (run_payload v)"
    "domainDigest run_ethers5 ''proofmark-audit-export-v1'' (run_payload v) = Inr dg"
proof -
  obtain v where v: "versionsFrom run_evidence = Inr v" "json_plain v" using run_versions by blast
  have "truthy v" using v(1) by (auto simp: versionsFrom_def Let_def elim!: bindE_Inr_cases)
  moreover have "json_plain (run_payload v)"
    using v(2) run_steps(2) by (simp add: run_payload_def make_payload_def run_grant_def run_signature_def run_linkage_def linkage_of_def
        run_audit_record_def run_observation_def disclosure_json_def claim_json_def limitations_json_def)
  ultimately show ?thesis using that run_prepared [OF v] domain_digest_plain by blast
qed

theorem prepared_export_verifies_witness:
  "\<exists>p res. prepareAuditExport run_ethers5 run_verifier run_audit_record run_grant (JsArr []) run_observation run_trust 2 = Inr p \<and>
     verifyAuditExport run_ethers5 run_verifier (p, run_signature) run_trust run_observation 5 = Inr res"
proof -
  obtain v dg where x: "prepareAuditExport run_ethers5 run_verifier run_audit_record run_grant (JsArr []) run_observation run_trust 2 = Inr (run_payload v)"
    "domainDigest run_ethers5 ''proofmark-audit-export-v1'' (run_payload v) = Inr dg" by (rule run_export)
  have env: "sealAuditExport (run_payload v) ''key'' ''adr'' = Inr (run_payload v, run_signature)"
    by (simp add: sealAuditExport_def run_signature_def)
  have "\<exists>res. verifyAuditExport run_ethers5 run_verifier (run_payload v, run_signature) run_trust run_observation 5 = Inr res"
    using prepared_export_verifies [OF x env, of "''adr''" "''adr''" 5]
    by (auto simp: run_verifier_def run_trust_def is_safe_def max_safe_def run_grant_get)
  then show ?thesis using x(1) by blast
qed

theorem audit_export_sound_witness:
  "\<exists>p res. verifyAuditExport run_ethers5 run_verifier (p, run_signature) run_trust run_observation 2 = Inr res \<and>
     grant_authorizes run_ethers5 run_verifier run_trust (jget p ''grant'') 2 \<and> payload_backed run_ethers5 run_verifier run_trust p"
proof -
  obtain v where v: "versionsFrom run_evidence = Inr v" "json_plain v" using run_versions by blast
  have t: "truthy v" using v(1) by (auto simp: versionsFrom_def Let_def elim!: bindE_Inr_cases)
  obtain dg where dg: "domainDigest run_ethers5 ''proofmark-audit-export-v1'' (run_payload v) = Inr dg"
    by (rule run_export) (use domain_digest_plain v run_steps(2) in \<open>simp add: run_payload_def make_payload_def run_grant_def run_signature_def
        run_linkage_def linkage_of_def run_audit_record_def run_observation_def disclosure_json_def claim_json_def limitations_json_def\<close>)
  have "signature_ok run_ethers5 run_verifier dg run_signature (Some ''adr'')"
    by (simp add: signature_ok_def run_signature_def run_verifier_def audit_identifier_def)
  moreover have "same_text ''ONCHAIN_COMMITMENT_MISMATCH'' run_observation run_observation = Inr ()"
    by (rule same_text_plain) (simp add: run_observation_def)
  moreover have "truthy (run_payload v)" "truthy run_signature" "jget run_signature ''keyId'' = JsStr ''key''"
    by (simp_all add: run_payload_def make_payload_def run_signature_def)
  ultimately have "\<exists>res. verifyAuditExport run_ethers5 run_verifier (run_payload v, run_signature) run_trust run_observation 2 = Inr res"
    using dg run_payload_valid [OF v t] run_linkage_onchain
    by (simp add: verifyAuditExport_def verifySignature_def run_payload_get pinned_def run_trust_def)
  then obtain res where res: "verifyAuditExport run_ethers5 run_verifier (run_payload v, run_signature) run_trust run_observation 2 = Inr res" by blast
  from audit_export_sound [OF res] res show ?thesis by blast
qed

end
