(* ===== verification/Spec2Isabelle.thy ===== *)
theory Spec2Isabelle
  imports RosterProps Issuance_Delivery Issuance_Budget Publication Worker_Loop Monitor Aml_Engine Roster_Source_Props Retention_Props Revocation_Check_Props Revocation_Delivery_Props Bank_Props Wallet_Props Bundle_Props Audit_Props
begin

text \<open>
  A verification library of Proofmark's TypeScript implementation (directories \<open>src/aml\<close>,
  \<open>src/pipeline\<close> and \<open>src/worker\<close>; paths below are relative to \<open>src/\<close>).

  \<^bold>\<open>The program.\<close> Proofmark checks a wallet holder (identity document, bank account, sanctions lists),
  issues a credential on a source chain, retains the evidence off chain, and lets contracts on a
  hub chain read the status. Three groups of components do this.

  \<^item> \<^emph>\<open>Screening\<close> (\<open>aml/\<close>) compares names, identity descriptors and wallets with the sanctions
    lists. It decides ALLOW, REVIEW or BLOCK.
  \<^item> \<^emph>\<open>Issuance and retention\<close> (\<open>pipeline/\<close>): \<open>issue.ts\<close> runs the steps of one issuance over the
    jurisdiction adapter, the identity policy and the screening, and packs attributes, claims root
    and evidence head. \<open>issuance-journal.ts\<close> and \<open>issuance-budget.ts\<close> keep the durable entry, the
    signer gate and the gas ledger in Redis; \<open>issuance-delivery.ts\<close> moves an entry to the chain.
    \<open>vault.ts\<close> keeps the evidence, its holds, deletions and the outbox of revocations, which
    \<open>rescreen.ts\<close> delivers, \<open>revocation-check.ts\<close> observes and \<open>audit-evidence.ts\<close> exports.
    \<open>roster-source.ts\<close> replays the source contract into a roster, \<open>roster.ts\<close> commits to it,
    \<open>roster-bundle.ts\<close> carries it, and the epoch publication journal publishes its root.
  \<^item> \<^emph>\<open>The worker\<close> (\<open>worker/\<close>) scans the source chain, proves its transactions and relays them to the
    hub, over one state file that survives crashes.

  \<^bold>\<open>Shared theories.\<close> \<open>Prelude\<close>: JavaScript numbers, hex texts, results that may be errors
  (\<open>bindE\<close>, \<open>requireE\<close>, \<open>mapE\<close>) and operations that may commit before they throw (\<open>bindS\<close>).
  \<open>Ethers\<close>: the operations of the \<open>ethers\<close> package as a parameter record, what is relied on
  (\<open>ethers_ok\<close>; \<open>no_collision\<close> for finitely many preimages), and a concrete instance.
  \<open>Commitment\<close>: the locale of trees that commit to a list of leaves, interpreted on the roster
  tree (\<open>RosterProps\<close>) and on the claims tree (\<open>Merkle\<close>). \<open>Worker_Invariant\<close>: the locale \<open>durable\<close>
  between a state file and its operations, interpreted on the worker's invariant.

  \<^bold>\<open>Credentials and evidence.\<close>
  \<^item> \<open>Attrs\<close>: \<open>attrs.ts\<close>, \<open>methods.ts\<close>, \<open>policy.ts\<close>. Eight scalars in a 32-byte word; packing and
    unpacking are inverse, method masks are \<open>32 word\<close>.
  \<^item> \<open>Evidence\<close>: \<open>canonical.ts\<close>, \<open>evidence.ts\<close>. Canonical JSON text and the hash chain; the head
    binds the canonical steps.
  \<^item> \<open>Merkle\<close>: \<open>merkle.ts\<close>, \<open>claims.ts\<close>. Claim commitments and disclosures.
  \<^item> \<open>Identity\<close>, \<open>Kr_Adapter\<close>: \<open>identity-policy.ts\<close>, \<open>reconcile.ts\<close>, \<open>adapters/kr.ts\<close>. What an accepted
    policy requires and which checks were performed.
  \<^item> \<open>Issue\<close>: \<open>issue.ts\<close> with all its early returns; every gate stands behind an issued result.
  \<^item> \<open>Issuance_Journal\<close>, \<open>Issuance_Delivery\<close>, \<open>Issuance_Budget\<close>: the Lua scripts run atomically on a
    state of keys with expiry; a signer serves one request at a time, a save is fenced by lease,
    revision and gate, nothing is sent before it is saved, and the ledger of a day is the exact
    sum of its reservations. Other clients act between any two calls.

  \<^bold>\<open>Retention, revocation and audit.\<close>
  \<^item> \<open>Vault_Atomic\<close>, \<open>Vault\<close>, \<open>Vault_Props\<close>: \<open>vault-atomic.ts\<close>, \<open>vault.ts\<close>. An operation maps the
    plaintext to an error or to a result and the next plaintext; \<open>mutate\<close> runs it under the lock and
    replaces the file whole, and each call of the file system may fail. \<open>vault_step\<close> are the calls of
    any processes, \<open>vault_next\<close> the same steps named by what takes them. Lemmas: the invariant, what
    each operation leaves alone (\<open>quiet\<close>), what an erasure needs (\<open>lawful\<close>), the outbox.
  \<^item> \<open>Retention\<close>, \<open>Retention_Props\<close>: \<open>retention-policy.ts\<close>. An accepted completion has discharged every
    layer, and every validated policy can be completed.
  \<^item> \<open>Revocation_Delivery\<close>, \<open>Revocation_Check\<close> and their \<open>_Props\<close>: \<open>rescreen.ts\<close>,
    \<open>revocation-check.ts\<close>, \<open>revocation-observation.ts\<close>, on the model of the vault.
  \<^item> \<open>Audit_Evidence\<close>, \<open>Audit_Props\<close>: \<open>audit-evidence.ts\<close> over untyped JSON; a verified export is tied
    to pinned keys, and a prepared one verifies.

  \<^bold>\<open>Rosters and publication.\<close>
  \<^item> \<open>Roster\<close>, \<open>RosterProps\<close>: \<open>roster.ts\<close>, \<open>roster-witness.ts\<close>, \<open>roster-format.ts\<close>. Inclusion and gap
    proofs are complete and sound for every position, also against proofs that the builder did not
    make.
  \<^item> \<open>Roster_Source\<close>, \<open>Roster_Source_Props\<close>: \<open>roster-source.ts\<close>. The replay of the lifecycle events,
    compared with a specification that speaks of the whole history of a subject.
  \<^item> \<open>Roster_Bundle\<close>, \<open>Bundle_Props\<close>: \<open>roster-bundle.ts\<close>. Binary search, pins, round trip.
  \<^item> \<open>Publication\<close>: \<open>epoch-publication-journal.ts\<close> and the recovery step of
    \<open>epoch-publication-delivery.ts\<close>, over crashes and reopenings.

  \<^bold>\<open>Sessions of the site.\<close> \<open>Bank_State\<close>, \<open>Bank_Props\<close>: \<open>bank-state.ts\<close>, the script of Redis and the
  demo store, compared with a protocol and with each other. \<open>Wallet_Session\<close>, \<open>Wallet_Props\<close>:
  \<open>wallet-session.ts\<close> as a machine of events.

  \<^bold>\<open>Screening.\<close> \<open>Names\<close>: \<open>normalize.ts\<close>, \<open>romanize.ts\<close>. \<open>Edit_Distance\<close>, \<open>Name_Score\<close>:
  \<open>edit-distance.ts\<close>; the banded table is the capped least cost of an edit script. \<open>Identity_Compare\<close>:
  \<open>identity.ts\<close>. \<open>Aml_Match\<close>, \<open>Aml_Retrieval\<close>: \<open>match.ts\<close>; the indexes lose no candidate.
  \<open>Aml_Provenance\<close>: \<open>provenance.ts\<close>, \<open>index-format.ts\<close>, \<open>jurisdiction.ts\<close>. \<open>Aml_Engine\<close>: \<open>engine.ts\<close>;
  a listed name or wallet is never allowed, and what an ALLOW has behind it.

  \<^bold>\<open>The worker.\<close> \<open>Worker_Store\<close>: \<open>store.ts\<close>, the file and the copy in memory, with the three ends of a
  write. \<open>Worker_Invariant\<close>, \<open>Worker_Props\<close>: the invariant and the steps of all callers. \<open>Relay\<close>,
  \<open>Relay_Props\<close>: \<open>relay.ts\<close>, where every await is a function from the store to the outcome and the
  store at the resumption. \<open>Recovery\<close>: \<open>recovery.ts\<close>. \<open>Source_Scan\<close>, \<open>Scan_Props\<close>: \<open>source-events.ts\<close>,
  \<open>source-scan.ts\<close>; a scanned range starts right after the checkpoint it resumes from.
  \<open>Worker_Support\<close>: \<open>pool.ts\<close>, \<open>retry.ts\<close>, \<open>proof.ts\<close>, \<open>settings.ts\<close>, \<open>lease.ts\<close>, \<open>attestation.ts\<close>.
  \<open>Worker_Loop\<close>: \<open>worker.ts\<close>. \<open>Health\<close>: \<open>health.ts\<close>, \<open>health-probe.ts\<close>. \<open>Monitor\<close>: \<open>monitor.ts\<close>,
  \<open>service-monitor.ts\<close>, \<open>service-evidence.ts\<close>.

  \<^bold>\<open>How code is rendered.\<close> A class or interface is a record, a throw is the left of a sum, an early
  return a branch. An operation that may change state before it throws returns the state in either
  case. Integers that the code tests with \<open>Number.isSafeInteger\<close> are \<open>js_num\<close> until the test;
  32-bit operators act on words, \<open>BigInt\<close> is \<open>int\<close>. A JavaScript map is an association list in
  insertion order. Clocks, random values, hashes, ciphers, signatures, Unicode tables, JSON text, RPC
  answers and the failures of files and networks are arguments. What a theorem needs of them is a
  named hypothesis, and its witness discharges it on a concrete instance.

  \<^bold>\<open>Bounds and fuel.\<close> Loops recurse on their data. One recursion carries fuel: the
  receipts trie (\<open>trieNode\<close>), whose fuel is the total number of nibbles plus one for each item
  (\<open>trie_fuel_enough\<close> shows that it suffices). The attestation wait (\<open>waitFor\<close>) recurses on the polls
  observed; \<open>None\<close> is a wait that is still going on after them. Retry counts its attempts (\<open>retry_bounded\<close>).

  \<^bold>\<open>What modelling showed.\<close>
  \<^item> A job that died without ever being signed is taken for a lost relay by the audit of the signer
    and holds the hub (\<open>dead_letter_holds_hub\<close>).
  \<^item> Gas totals from \<open>10 ^ 14\<close> on leave the budget script in exponent form, which the client cannot
    read (\<open>large_total_unreadable\<close>).
  \<^item> The capital entries of the homoglyph table are dead (\<open>capital_mu_not_mapped\<close>).
  \<^item> A challenge reserved late in the counting window of its flow expires with the window, before
    the promised time (\<open>window_closes_early\<close>).
  \<^item> An observation with an ICAP address is refused when it is recorded (\<open>icap_normalizes_once\<close>).

  \<^bold>\<open>Not modelled.\<close> The rounding of doubles in name scores (exact rationals) and in backoff delays
  (reals); the millisecond by which Redis may drop a key late; length units of non-ASCII texts where
  only ASCII passes a test; \<open>Object.freeze\<close>; encrypted backups of the vault; EVM transports and
  ABI decoding; HTTP servers and clients, logging, environment and command lines (\<open>script/\<close>,
  \<open>worker/index.ts\<close>, \<open>worker/config.ts\<close>); the web pages and routes (\<open>web/\<close>); vendor clients
  (\<open>adapters/codef.ts\<close>, \<open>adapters/openbanking.ts\<close>, \<open>providers/\<close>); ingestion of the lists and offline
  evaluation (\<open>aml/ingest\<close>, \<open>aml/eval.ts\<close> and its kin); the processing manifest
  (\<open>privacy-processing-policy.ts\<close>), which enters the journal as opaque evidence; reusable external
  credentials (\<open>external-credential.ts\<close>), which no modelled part calls; demo fixtures, release checks
  and cost sheets; the Solidity contracts and the circuit, whose answers are parameters.
\<close>

end
